(* ===== verification/GoFloat.thy ===== *)
theory GoFloat
  imports Prelude
begin

text \<open>
  The float64 values of the program.  Payloads come from JSON, so a float64 is finite and
  is represented by the rational number it denotes (the two zeros are one value, which is
  how the code treats them: they compare equal and print as \<^verbatim>\<open>0\<close>).  Every conversion of the
  source rounds: \<open>fl\<close> is IEEE round-to-nearest-even to 53 bits with gradual underflow,
  and answers \<open>None\<close> where the result overflows to an infinity.
\<close>

section \<open>Rounding\<close>

definition round_half_even :: "rat \<Rightarrow> int" where
  "round_half_even x =
     (let f = \<lfloor>x\<rfloor>; r = x - of_int f
      in if r < 1/2 then f else if 1/2 < r then f + 1 else if even f then f else f + 1)"

definition two_pow :: "int \<Rightarrow> rat" where
  "two_pow k = (if 0 \<le> k then 2 ^ nat k else 1 / 2 ^ nat (- k))"

text \<open>The exponent \<open>e\<close> with \<open>2 ^ e \<le> x < 2 ^ (e + 1)\<close>, for a positive rational.\<close>

definition rat_exponent :: "rat \<Rightarrow> int" where
  "rat_exponent x =
     (let (n, d) = quotient_of x; e = bitlen n - bitlen d
      in if two_pow e \<le> x then e else e - 1)"

definition fl :: "rat \<Rightarrow> rat option" where
  "fl x =
     (if x = 0 then Some 0
      else let u = max (rat_exponent \<bar>x\<bar> - 52) (- 1074);
               r = of_int (round_half_even (x / two_pow u)) * two_pow u
           in if \<bar>r\<bar> < 2 ^ 1024 then Some r else None)"

section \<open>Conversions between int and float64\<close>

text \<open>
  Go's \<^verbatim>\<open>int\<close> has 64 bits.  \<^verbatim>\<open>float64(n)\<close> rounds; \<^verbatim>\<open>int(x)\<close> truncates towards zero.  Out of
  range \<^verbatim>\<open>int(x)\<close> is left to the implementation by the Go specification; the model takes
  the value of the amd64 instruction, the least integer.
\<close>

definition min_int64 :: int where "min_int64 = - (2 ^ 63)"

definition wrap64 :: "int \<Rightarrow> int" where
  "wrap64 n = (n + 2 ^ 63) mod 2 ^ 64 - 2 ^ 63"

definition float_of_int :: "int \<Rightarrow> rat" where
  "float_of_int n =
     (if \<bar>n\<bar> \<le> 2 ^ 53 then of_int n
      else case fl (of_int n) of Some r \<Rightarrow> r | None \<Rightarrow> of_int n)"

definition trunc_rat :: "rat \<Rightarrow> int" where
  "trunc_rat x = (if 0 \<le> x then \<lfloor>x\<rfloor> else \<lceil>x\<rceil>)"

definition int_of_float :: "rat \<Rightarrow> int" where
  "int_of_float x =
     (let n = trunc_rat x in if - (2 ^ 63) \<le> n \<and> n < 2 ^ 63 then n else min_int64)"

lemma int_of_float_of_int:
  "\<bar>n\<bar> \<le> 2 ^ 53 \<Longrightarrow> int_of_float (float_of_int n) = n"
  by (auto simp: float_of_int_def int_of_float_def trunc_rat_def Let_def)

lemma int_of_float_int [simp]:
  "- (2 ^ 63) \<le> n \<Longrightarrow> n < 2 ^ 63 \<Longrightarrow> int_of_float (of_int n) = n"
  by (simp add: int_of_float_def trunc_rat_def Let_def)

lemma wrap64_bounds: "- (2 ^ 63) \<le> wrap64 n \<and> wrap64 n < 2 ^ 63"
proof -
  have "0 \<le> (n + 2 ^ 63) mod 2 ^ 64" and "(n + 2 ^ 63) mod 2 ^ 64 < (2 ^ 64 :: int)"
    by simp_all
  then show ?thesis by (simp add: wrap64_def)
qed

lemma wrap64_id: "- (2 ^ 63) \<le> n \<Longrightarrow> n < 2 ^ 63 \<Longrightarrow> wrap64 n = n"
  by (simp add: wrap64_def)

lemma wrap64_add: "wrap64 (wrap64 a + b) = wrap64 (a + b)"
  using mod_add_left_eq [of "a + 2 ^ 63" "2 ^ 64" b]
  by (simp add: wrap64_def algebra_simps)

lemma int_of_float_bounds: "- (2 ^ 63) \<le> int_of_float x \<and> int_of_float x < 2 ^ 63"
  by (simp add: int_of_float_def Let_def min_int64_def)

text \<open>Integers below \<open>2 ^ 53\<close> are exact: rounding does not change them.\<close>

lemma round_half_even_of_int [simp]: "round_half_even (of_int n) = n"
  by (simp add: round_half_even_def)

lemma two_pow_pos: "0 < two_pow k"
  by (simp add: two_pow_def)

lemma rat_exponent_int:
  assumes "0 < n"
  shows "rat_exponent (of_int n) = bitlen n - 1"
proof -
  have b1: "bitlen 1 = 1" by (simp add: bitlen_alt_def)
  have pos: "0 \<le> bitlen n - 1" using assms by (auto simp: bitlen_alt_def)
  have "(2::int) ^ nat (bitlen n - 1) \<le> n" using bitlen_bounds [OF assms] by simp
  then have "(of_int (2 ^ nat (bitlen n - 1)) :: rat) \<le> of_int n" by (simp only: of_int_le_iff)
  then have "two_pow (bitlen n - 1) \<le> (of_int n :: rat)" using pos by (simp add: two_pow_def)
  then show ?thesis by (simp add: rat_exponent_def b1)
qed

lemma fl_of_int:
  assumes "\<bar>n\<bar> < 2 ^ 53"
  shows "fl (of_int n) = Some (of_int n)"
proof (cases "n = 0")
  case True
  then show ?thesis by (simp add: fl_def)
next
  case False
  then have n: "0 < \<bar>n\<bar>" by simp
  define u where "u = max (rat_exponent \<bar>of_int n\<bar> - 52) (- 1074)"
  have "(2::int) ^ nat (bitlen \<bar>n\<bar> - 1) < 2 ^ 53"
    using bitlen_bounds [OF n] assms by linarith
  then have "nat (bitlen \<bar>n\<bar> - 1) < 53"
    by (rule power_less_imp_less_exp [rotated]) simp
  then have le: "bitlen \<bar>n\<bar> - 1 \<le> 52" by linarith
  have abs: "\<bar>of_int n :: rat\<bar> = of_int \<bar>n\<bar>" by simp
  have "u \<le> 0" using le rat_exponent_int [OF n] unfolding u_def abs by simp
  then have div: "of_int n / two_pow u = (of_int (n * 2 ^ nat (- u)) :: rat)"
    by (cases "u = 0") (simp_all add: two_pow_def)
  have eq: "of_int (round_half_even (of_int n / two_pow u)) * two_pow u = (of_int n :: rat)"
    unfolding div round_half_even_of_int
    using div two_pow_pos [of u] by (simp add: field_simps)
  have "(of_int \<bar>n\<bar> :: rat) < of_int (2 ^ 53)" using assms by (simp only: of_int_less_iff)
  then have "\<bar>of_int n :: rat\<bar> < 2 ^ 1024" by simp
  with False eq show ?thesis by (simp add: fl_def Let_def u_def)
qed

section \<open>Reading numbers\<close>

text \<open>
  \<^verbatim>\<open>strconv.ParseFloat\<close> on the number grammar of JSON, the only texts a decoder puts in a
  \<^verbatim>\<open>json.Number\<close>; any other text is an error.  Likewise \<^verbatim>\<open>strconv.Atoi\<close>.
\<close>

definition split_sign :: "string \<Rightarrow> bool \<times> string" where
  "split_sign s =
     (case s of CHR ''-'' # t \<Rightarrow> (True, t) | CHR ''+'' # t \<Rightarrow> (False, t) | _ \<Rightarrow> (False, s))"

definition read_digits :: "string \<Rightarrow> nat option" where
  "read_digits s = (if s \<noteq> [] \<and> list_all is_digit s then Some (read_nat s) else None)"

definition read_exponent :: "string \<Rightarrow> int option" where
  "read_exponent s =
     (let (neg, t) = split_sign s
      in map_option (\<lambda>n. if neg then - int n else int n) (read_digits t))"

definition read_decimal :: "string \<Rightarrow> rat option" where
  "read_decimal s =
     (let ip = takeWhile is_digit s; rest = drop (length ip) s;
          (fp, rest2, okf) =
            (case rest of CHR ''.'' # t \<Rightarrow>
                let f = takeWhile is_digit t in (f, drop (length f) t, f \<noteq> [])
             | _ \<Rightarrow> ([], rest, True));
          ex = (case rest2 of [] \<Rightarrow> Some 0
                | c # t \<Rightarrow> if c = CHR ''e'' \<or> c = CHR ''E'' then read_exponent t else None)
      in if ip = [] \<or> \<not> okf then None
         else case ex of None \<Rightarrow> None
              | Some e \<Rightarrow>
                  let k = e - int (length fp); m = of_nat (read_nat (ip @ fp)) :: rat
                  in Some (if 0 \<le> k then m * 10 ^ nat k else m / 10 ^ nat (- k)))"

definition parse_float :: "string \<Rightarrow> rat option" where
  "parse_float s =
     (let neg = (case s of CHR ''-'' # t \<Rightarrow> True | _ \<Rightarrow> False);
          t = (if neg then tl s else s)
      in case read_decimal t of None \<Rightarrow> None
         | Some x \<Rightarrow> fl (if neg then - x else x))"

definition atoi :: "string \<Rightarrow> int option" where
  "atoi s =
     (let (neg, t) = split_sign s
      in case read_digits t of None \<Rightarrow> None
         | Some n \<Rightarrow> let v = (if neg then - int n else int n)
                     in if - (2 ^ 63) \<le> v \<and> v < 2 ^ 63 then Some v else None)"

lemma show_nat_all_digits: "list_all is_digit (show_nat n)"
  by (auto simp: list_all_iff dest: show_nat_digits)

lemma takeWhile_show_nat: "takeWhile is_digit (show_nat n) = show_nat n"
  by (simp add: takeWhile_eq_all_conv show_nat_digits)

lemma read_decimal_show_nat: "read_decimal (show_nat n) = Some (of_nat n)"
  by (simp add: read_decimal_def takeWhile_show_nat Let_def read_show_nat del: read_nat.simps)

lemma show_nat_hd_digit: "show_nat n = c # t \<Longrightarrow> is_digit c"
  by (metis list.set_intros(1) show_nat_digits)

lemma show_nat_not_sign:
  "show_nat n \<noteq> CHR ''-'' # t" "show_nat n \<noteq> CHR ''+'' # t"
  by (auto dest!: show_nat_hd_digit simp: is_digit_def)

text \<open>A sequence number read back from a stored row is the number that was written.\<close>

lemma parse_float_show_nat: "n < 2 ^ 53 \<Longrightarrow> parse_float (show_nat n) = Some (of_nat n)"
proof -
  assume n: "n < 2 ^ 53"
  have "(case show_nat n of CHR ''-'' # t \<Rightarrow> True | _ \<Rightarrow> False) = False"
    using show_nat_not_sign(1) by (auto split: list.splits char.splits bool.splits)
  moreover have "fl (of_nat n) = Some (of_nat n)"
    using fl_of_int [of "int n"] n by simp
  ultimately show ?thesis by (simp add: parse_float_def read_decimal_show_nat Let_def)
qed

end
