(* ===== verification/Values.thy ===== *)
theory Values
  imports GoFloat
begin

text \<open>
  The dynamic values (\<^verbatim>\<open>any\<close>) that flow through payloads, requests and responses, and the
  accessors of \<^verbatim>\<open>values.go\<close> with their relatives in the other files.  The constructors are
  the dynamic types the repository distinguishes: \<^verbatim>\<open>nil\<close>, \<^verbatim>\<open>bool\<close>, \<^verbatim>\<open>int\<close>, \<^verbatim>\<open>float64\<close>,
  \<^verbatim>\<open>json.Number\<close>, \<^verbatim>\<open>string\<close>, \<^verbatim>\<open>[]any\<close>, \<^verbatim>\<open>[]string\<close>, \<^verbatim>\<open>[]map[string]any\<close> and \<^verbatim>\<open>map[string]any\<close>.
  They matter: an accessor that asserts \<^verbatim>\<open>[]any\<close> does not see a \<^verbatim>\<open>[]map[string]any\<close>.
  Maps are association lists (see Prelude); a nil map and an empty map are both \<open>[]\<close>.
\<close>

datatype val =
    VNil
  | VBool bool
  | VInt int
  | VFloat rat
  | VNum string
  | VStr string
  | VList "val list"
  | VStrs "string list"
  | VMaps "(string \<times> val) list list"
  | VMap "(string \<times> val) list"

type_synonym payload = "(string \<times> val) list"

section \<open>Reading and writing a map\<close>

text \<open>\<open>pget m k\<close> is the Go expression \<^verbatim>\<open>m[k]\<close>: a missing key reads as \<^verbatim>\<open>nil\<close>.\<close>

definition pget :: "payload \<Rightarrow> string \<Rightarrow> val" where
  "pget m k = aget VNil m k"

definition pset :: "string \<Rightarrow> val \<Rightarrow> payload \<Rightarrow> payload" where
  "pset k v m = AList.update k v m"

definition phas :: "payload \<Rightarrow> string \<Rightarrow> bool" where
  "phas m k = ahas m k"

definition pdel :: "string \<Rightarrow> payload \<Rightarrow> payload" where
  "pdel k m = AList.delete k m"

lemma pget_Nil [simp, pget_simps]: "pget [] k = VNil"
  by (simp add: pget_def aget_def)

lemma pget_Cons [simp, pget_simps]: "pget ((k', v) # m) k = (if k' = k then v else pget m k)"
  by (simp add: pget_def aget_def)

lemma phas_Nil [simp, pget_simps]: "\<not> phas [] k"
  by (simp add: phas_def ahas_def)

lemma phas_Cons [simp, pget_simps]: "phas ((k', v) # m) k \<longleftrightarrow> k' = k \<or> phas m k"
  by (auto simp: phas_def ahas_def)

lemma pget_pset [simp]: "pget (pset k v m) k' = (if k' = k then v else pget m k')"
  by (simp add: pget_def pset_def)

lemma phas_pset [simp]: "phas (pset k v m) k' \<longleftrightarrow> k' = k \<or> phas m k'"
  by (simp add: phas_def pset_def)

lemma pget_not_phas: "\<not> phas m k \<Longrightarrow> pget m k = VNil"
  by (simp add: phas_def ahas_def pget_def aget_def)

section \<open>values.go\<close>

definition asMap :: "val \<Rightarrow> payload" where
  "asMap v = (case v of VMap m \<Rightarrow> m | _ \<Rightarrow> [])"

definition asSlice :: "val \<Rightarrow> val list" where
  "asSlice v = (case v of VList xs \<Rightarrow> xs | _ \<Rightarrow> [])"

definition asFloat :: "val \<Rightarrow> rat" where
  "asFloat v =
     (case v of VFloat x \<Rightarrow> x
      | VNum s \<Rightarrow> (case parse_float s of None \<Rightarrow> 0 | Some x \<Rightarrow> x)
      | VInt n \<Rightarrow> float_of_int n
      | _ \<Rightarrow> 0)"

definition firstMap :: "val \<Rightarrow> payload" where
  "firstMap v = (case asSlice v of [] \<Rightarrow> [] | x # _ \<Rightarrow> asMap x)"

definition stringValue :: "val \<Rightarrow> string" where
  "stringValue v = (case v of VStr s \<Rightarrow> s | _ \<Rightarrow> [])"

fun keep_strings :: "val list \<Rightarrow> string list" where
  "keep_strings [] = []"
| "keep_strings (VStr s # vs) = s # keep_strings vs"
| "keep_strings (v # vs) = keep_strings vs"

definition stringSlice :: "val \<Rightarrow> string list" where
  "stringSlice v = keep_strings (asSlice v)"

text \<open>A text, or another where it is empty.\<close>

definition or_else :: "string \<Rightarrow> string \<Rightarrow> string" where
  "or_else s d = (if s = [] then d else s)"

text \<open>\<^verbatim>\<open>int(asFloat(v))\<close>, the way every sequence number and token count is read.\<close>

definition asInt :: "val \<Rightarrow> int" where
  "asInt v = int_of_float (asFloat v)"

section \<open>Accessors of other files\<close>

text \<open>The assertion \<^verbatim>\<open>v.(string)\<close> with its second result.\<close>

definition as_string :: "val \<Rightarrow> string option" where
  "as_string v = (case v of VStr s \<Rightarrow> Some s | _ \<Rightarrow> None)"

definition as_bool :: "val \<Rightarrow> bool option" where
  "as_bool v = (case v of VBool b \<Rightarrow> Some b | _ \<Rightarrow> None)"

definition as_map :: "val \<Rightarrow> payload option" where
  "as_map v = (case v of VMap m \<Rightarrow> Some m | _ \<Rightarrow> None)"

text \<open>\<^verbatim>\<open>asMapSlice\<close> (projection\_openai.go).\<close>

fun keep_maps :: "val list \<Rightarrow> payload list" where
  "keep_maps [] = []"
| "keep_maps (VMap m # vs) = m # keep_maps vs"
| "keep_maps (v # vs) = keep_maps vs"

definition asMapSlice :: "val \<Rightarrow> payload list" where
  "asMapSlice v = (case v of VMaps ms \<Rightarrow> ms | VList vs \<Rightarrow> keep_maps vs | _ \<Rightarrow> [])"

text \<open>\<^verbatim>\<open>firstNonEmptyAny\<close> (delegation\_projection.go) and \<^verbatim>\<open>firstNonEmpty\<close> (transcript.go).\<close>

fun firstNonEmptyAny :: "val list \<Rightarrow> val" where
  "firstNonEmptyAny [] = VNil"
| "firstNonEmptyAny (v # vs) = (if v \<noteq> VNil \<and> v \<noteq> VStr [] then v else firstNonEmptyAny vs)"

fun firstNonEmpty :: "val list \<Rightarrow> val" where
  "firstNonEmpty [] = VNil"
| "firstNonEmpty (v # vs) = (if v \<noteq> VNil \<and> v \<noteq> VStr [] then v else firstNonEmpty vs)"

text \<open>\<^verbatim>\<open>intValue\<close> and \<^verbatim>\<open>floatValue\<close> (manifest.go).\<close>

definition intValue :: "val \<Rightarrow> int" where
  "intValue v =
     (case v of VInt n \<Rightarrow> n
      | VFloat x \<Rightarrow> int_of_float x
      | VNum s \<Rightarrow> (case atoi s of None \<Rightarrow> 0 | Some n \<Rightarrow> n)
      | _ \<Rightarrow> 0)"

definition floatValue :: "val \<Rightarrow> rat" where
  "floatValue v =
     (case v of VFloat x \<Rightarrow> x
      | VNum s \<Rightarrow> (case parse_float s of None \<Rightarrow> 0 | Some x \<Rightarrow> x)
      | VInt n \<Rightarrow> float_of_int n
      | _ \<Rightarrow> 0)"

text \<open>\<^verbatim>\<open>nestedValue\<close> and \<^verbatim>\<open>optionalInt\<close> (usage.go); \<^verbatim>\<open>nullableInt\<close> (strategies.go).\<close>

fun nestedValue_from :: "val \<Rightarrow> string list \<Rightarrow> val" where
  "nestedValue_from cur [] = cur"
| "nestedValue_from cur (k # ks) =
     (if asMap cur = [] then VNil else nestedValue_from (pget (asMap cur) k) ks)"

definition nestedValue :: "payload \<Rightarrow> string list \<Rightarrow> val" where
  "nestedValue m ks = nestedValue_from (VMap m) ks"

definition optionalInt :: "val \<Rightarrow> val" where
  "optionalInt v = (if v = VNil then VNil else VInt (asInt v))"

definition nullableInt :: "int \<Rightarrow> val" where
  "nullableInt n = (if n = 0 then VNil else VFloat (float_of_int n))"

text \<open>\<^verbatim>\<open>clonePayload\<close> and \<^verbatim>\<open>cloneJSONValue\<close> (storage.go): the copy rebuilds every map and slice
  it knows; a \<^verbatim>\<open>[]string\<close> falls into the default branch and is shared.\<close>

fun cloneJSONValue :: "val \<Rightarrow> val" and clonePayload :: "payload \<Rightarrow> payload" where
  "cloneJSONValue (VMap m) = VMap (clonePayload m)"
| "cloneJSONValue (VList vs) = VList (map cloneJSONValue vs)"
| "cloneJSONValue (VMaps ms) = VMaps (map clonePayload ms)"
| "cloneJSONValue v = v"
| "clonePayload [] = []"
| "clonePayload ((k, v) # m) = (k, cloneJSONValue v) # clonePayload m"

lemma cloneJSONValue_id [simp]: "cloneJSONValue v = v"
  and clonePayload_id [simp]: "clonePayload m = m"
  by (induction v and m rule: cloneJSONValue_clonePayload.induct) (simp_all add: map_idI)

lemma asInt_float_of_int [simp]: "\<bar>n\<bar> \<le> 2 ^ 53 \<Longrightarrow> asInt (VFloat (float_of_int n)) = n"
  by (simp add: asInt_def asFloat_def int_of_float_of_int)

lemma asInt_VInt [simp]: "\<bar>n\<bar> \<le> 2 ^ 53 \<Longrightarrow> asInt (VInt n) = n"
  by (simp add: asInt_def asFloat_def int_of_float_of_int)

lemma asInt_VFloat [simp]: "\<bar>n\<bar> \<le> 2 ^ 53 \<Longrightarrow> asInt (VFloat (of_int n)) = n"
  using asInt_float_of_int [of n] by (simp add: float_of_int_def)

lemma asInt_simps [simp]:
  "asInt VNil = 0" "asInt (VStr s) = 0" "asInt (VBool b) = 0" "asInt (VMap m) = 0"
  by (simp_all add: asInt_def asFloat_def int_of_float_def trunc_rat_def)

text \<open>A number that travelled through a file comes back as a \<^verbatim>\<open>json.Number\<close> and reads the same.\<close>

lemma asInt_VNum: "n < 2 ^ 53 \<Longrightarrow> asInt (VNum (show_nat n)) = int n"
  by (simp add: asInt_def asFloat_def parse_float_show_nat)
    (use int_of_float_int [of "int n"] in simp)

lemma stringValue_simps [simp]:
  "stringValue (VStr s) = s" "stringValue VNil = []" "stringValue (VBool b) = []"
  "stringValue (VInt n) = []" "stringValue (VFloat x) = []" "stringValue (VNum t) = []"
  "stringValue (VList vs) = []" "stringValue (VMap m) = []" "stringValue (VMaps ms) = []"
  "stringValue (VStrs ss) = []"
  by (simp_all add: stringValue_def)

lemma as_string_stringValue: "as_string v = Some s \<Longrightarrow> stringValue v = s"
  by (auto simp: as_string_def split: val.splits)

lemma stringValue_nonempty: "stringValue v \<noteq> [] \<Longrightarrow> v = VStr (stringValue v)"
  by (cases v) simp_all

lemma asMap_simps [simp]:
  "asMap (VMap m) = m" "asMap VNil = []" "asMap (VStr s) = []" "asMap (VList vs) = []"
  by (simp_all add: asMap_def)

lemma asSlice_simps [simp]:
  "asSlice (VList vs) = vs" "asSlice VNil = []" "asSlice (VMaps ms) = []" "asSlice (VStr s) = []"
  by (simp_all add: asSlice_def)

end
