(* ===== verification/Events.thy ===== *)
theory Events
  imports Values
begin

text \<open>
  \<^verbatim>\<open>event.go\<close>: the event types of the Log, \<^verbatim>\<open>Event\<close>, and the \<^verbatim>\<open>EventArgs\<close> of \<^verbatim>\<open>provider.go\<close>.
  \<^verbatim>\<open>EventType\<close> is a string in Go; the datatype has a constructor per constant and
  \<open>OtherType\<close> for any other string (a row restored from disk may carry one).
\<close>

datatype event_type =
    EventUserMessage
  | EventAssistantMessage
  | EventToolUse
  | EventToolResult
  | EventCompact
  | EventRevert
  | EventSummary
  | EventAnnotation
  | EventProviderError
  | EventRuntimeError
  | EventApprovalRequested
  | EventApprovalResolved
  | EventAgentSpawn
  | EventAgentStatus
  | EventAgentResult
  | EventAssistantTurnStarted
  | EventAssistantTextDelta
  | EventToolUseBegin
  | EventToolUseArgumentDelta
  | EventToolUseEnd
  | EventAssistantTurnDone
  | EventAssistantTurnFailed
  | OtherType string

fun event_type_string :: "event_type \<Rightarrow> string" where
  "event_type_string EventUserMessage = ''user_message''"
| "event_type_string EventAssistantMessage = ''assistant_message''"
| "event_type_string EventToolUse = ''tool_use''"
| "event_type_string EventToolResult = ''tool_result''"
| "event_type_string EventCompact = ''compact''"
| "event_type_string EventRevert = ''revert''"
| "event_type_string EventSummary = ''summary''"
| "event_type_string EventAnnotation = ''annotation''"
| "event_type_string EventProviderError = ''provider_error''"
| "event_type_string EventRuntimeError = ''runtime_error''"
| "event_type_string EventApprovalRequested = ''approval_requested''"
| "event_type_string EventApprovalResolved = ''approval_resolved''"
| "event_type_string EventAgentSpawn = ''agent_spawn''"
| "event_type_string EventAgentStatus = ''agent_status''"
| "event_type_string EventAgentResult = ''agent_result''"
| "event_type_string EventAssistantTurnStarted = ''assistant_turn_started''"
| "event_type_string EventAssistantTextDelta = ''assistant_text_delta''"
| "event_type_string EventToolUseBegin = ''tool_use_begin''"
| "event_type_string EventToolUseArgumentDelta = ''tool_use_argument_delta''"
| "event_type_string EventToolUseEnd = ''tool_use_end''"
| "event_type_string EventAssistantTurnDone = ''assistant_turn_completed''"
| "event_type_string EventAssistantTurnFailed = ''assistant_turn_failed''"
| "event_type_string (OtherType s) = s"

definition known_event_types :: "event_type list" where
  "known_event_types =
     [EventUserMessage, EventAssistantMessage, EventToolUse, EventToolResult, EventCompact,
      EventRevert, EventSummary, EventAnnotation, EventProviderError, EventRuntimeError,
      EventApprovalRequested, EventApprovalResolved, EventAgentSpawn, EventAgentStatus,
      EventAgentResult, EventAssistantTurnStarted, EventAssistantTextDelta, EventToolUseBegin,
      EventToolUseArgumentDelta, EventToolUseEnd, EventAssistantTurnDone, EventAssistantTurnFailed]"

text \<open>The conversion \<^verbatim>\<open>EventType(s)\<close>.\<close>

definition event_type_of :: "string \<Rightarrow> event_type" where
  "event_type_of s =
     (case find (\<lambda>t. event_type_string t = s) known_event_types of
        Some t \<Rightarrow> t | None \<Rightarrow> OtherType s)"

lemma event_type_of_known: "t \<in> set known_event_types \<Longrightarrow> event_type_of (event_type_string t) = t"
proof -
  have "list_all (\<lambda>t. event_type_of (event_type_string t) = t) known_event_types" by code_simp
  then show "t \<in> set known_event_types \<Longrightarrow> event_type_of (event_type_string t) = t"
    by (auto simp: list_all_iff)
qed

lemma event_type_string_of [simp]: "event_type_string (event_type_of s) = s"
  by (auto simp: event_type_of_def split: option.splits dest: find_SomeD)

record event =
  ev_id :: string
  ev_seq :: int
  ev_timestamp :: string
  ev_type :: event_type
  ev_payload :: payload
  ev_hash :: string

record event_args =
  ea_type :: event_type
  ea_payload :: payload

definition zero_event :: event where
  "zero_event = \<lparr>ev_id = [], ev_seq = 0, ev_timestamp = [], ev_type = OtherType [],
     ev_payload = [], ev_hash = []\<rparr>"

text \<open>\<^verbatim>\<open>isStreamObservationEvent\<close> (agent\_loop.go) and \<^verbatim>\<open>isDeltaEvent\<close> (agent.go).\<close>

definition isStreamObservationEvent :: "event_type \<Rightarrow> bool" where
  "isStreamObservationEvent t \<longleftrightarrow>
     t \<in> {EventAssistantTurnStarted, EventAssistantTextDelta, EventToolUseBegin,
          EventToolUseArgumentDelta, EventToolUseEnd, EventAssistantTurnDone,
          EventAssistantTurnFailed}"

definition isDeltaEvent :: "event_type \<Rightarrow> bool" where
  "isDeltaEvent t \<longleftrightarrow>
     t \<in> {EventAssistantTextDelta, EventToolUseBegin, EventToolUseArgumentDelta, EventToolUseEnd}"

lemma isDelta_isStream: "isDeltaEvent t \<Longrightarrow> isStreamObservationEvent t"
  by (auto simp: isDeltaEvent_def isStreamObservationEvent_def)

text \<open>The payload field of an event read as a string: \<^verbatim>\<open>stringValue(event.Payload[k])\<close>.\<close>

abbreviation ev_str :: "event \<Rightarrow> string \<Rightarrow> string" where
  "ev_str e k \<equiv> stringValue (pget (ev_payload e) k)"

abbreviation ea_str :: "event_args \<Rightarrow> string \<Rightarrow> string" where
  "ea_str e k \<equiv> stringValue (pget (ea_payload e) k)"

text \<open>The identifiers that link a tool use, its result and its approval.\<close>

abbreviation use_id :: "event \<Rightarrow> string" where
  "use_id e \<equiv> ev_str e ''id''"

abbreviation result_id :: "event \<Rightarrow> string" where
  "result_id e \<equiv> ev_str e ''tool_use_id''"

abbreviation is_use :: "event \<Rightarrow> bool" where
  "is_use e \<equiv> ev_type e = EventToolUse"

abbreviation is_result :: "event \<Rightarrow> bool" where
  "is_result e \<equiv> ev_type e = EventToolResult"

text \<open>
  \<open>dense es\<close>: sequence numbers count from 0 without a gap, the invariant every storage
  adapter and every loader checks.
\<close>

definition dense :: "event list \<Rightarrow> bool" where
  "dense es \<longleftrightarrow> map ev_seq es = map int [0..<length es]"

lemma dense_Nil [simp]: "dense []"
  by (simp add: dense_def)

lemma dense_nth: "dense es \<longleftrightarrow> (\<forall>i < length es. ev_seq (es ! i) = int i)"
  unfolding dense_def list_eq_iff_nth_eq by simp

lemma dense_append:
  "dense (es @ fs) \<longleftrightarrow>
     dense es \<and> (\<forall>i < length fs. ev_seq (fs ! i) = int (length es + i))"
proof
  assume d: "dense (es @ fs)"
  have "ev_seq (es ! i) = int i" if "i < length es" for i
    using d that unfolding dense_nth by (metis length_append nth_append trans_less_add1)
  moreover have "ev_seq (fs ! i) = int (length es + i)" if "i < length fs" for i
    using d that unfolding dense_nth by (metis length_append nat_add_left_cancel_less nth_append_length_plus)
  ultimately show "dense es \<and> (\<forall>i < length fs. ev_seq (fs ! i) = int (length es + i))"
    by (simp add: dense_nth)
next
  assume "dense es \<and> (\<forall>i < length fs. ev_seq (fs ! i) = int (length es + i))"
  then show "dense (es @ fs)"
    by (auto simp: dense_nth nth_append)
qed

lemma dense_take: "dense es \<Longrightarrow> dense (take n es)"
  by (simp add: dense_nth)

lemma dense_distinct: "dense es \<Longrightarrow> distinct (map ev_seq es)"
  by (simp add: dense_def distinct_map)

lemma dense_sorted: "dense es \<Longrightarrow> sorted_wrt (\<lambda>a b. ev_seq a < ev_seq b) es"
  by (simp add: dense_nth sorted_wrt_iff_nth_less)

end
