(* ===== verification/Storage.thy ===== *)
theory Storage
  imports Events
begin

text \<open>
  \<^verbatim>\<open>storage.go\<close>: session headers, drafts and rows, the \<^verbatim>\<open>StorageAdapter\<close> contract as a locale,
  and the in-memory adapter that provides it.  An adapter method that can fail returns a
  sum and the adapter state; \<open>StorageConflict\<close> is the Go type \<^verbatim>\<open>StorageConflictError\<close>.
\<close>

record session_header =
  sh_id :: string
  sh_metadata :: payload
  sh_parent :: string
  sh_root :: string
  sh_spawn :: string
  sh_spawned_by :: string
  sh_chain :: "payload list"

record event_draft =
  dr_id :: string
  dr_timestamp :: string
  dr_type :: event_type
  dr_payload :: payload

record event_row =
  rw_seq :: int
  rw_id :: string
  rw_timestamp :: string
  rw_type :: event_type
  rw_payload :: payload
  rw_hash :: string

datatype storage_error =
    StorageConflict (se_reason: string) (se_expected: int) (se_current: int)
  | StorageFailure string

definition StorageConflictReason :: string where
  "StorageConflictReason = ''storage_conflict''"

fun storage_error_message :: "storage_error \<Rightarrow> string" where
  "storage_error_message (StorageConflict r e c) =
     r @ '': expected next seq '' @ show_int e @ '', current next seq '' @ show_int c"
| "storage_error_message (StorageFailure m) = m"

section \<open>Rows\<close>

text \<open>The loop that turns drafts into rows numbered from \<^verbatim>\<open>nextSeq\<close> (both adapters have it).\<close>

definition row_of_draft :: "int \<Rightarrow> event_draft \<Rightarrow> event_row" where
  "row_of_draft s d =
     \<lparr>rw_seq = s, rw_id = dr_id d, rw_timestamp = dr_timestamp d, rw_type = dr_type d,
      rw_payload = clonePayload (dr_payload d), rw_hash = []\<rparr>"

fun rows_of_drafts :: "int \<Rightarrow> event_draft list \<Rightarrow> event_row list" where
  "rows_of_drafts s [] = []"
| "rows_of_drafts s (d # ds) = row_of_draft s d # rows_of_drafts (s + 1) ds"

definition cloneEventRow :: "event_row \<Rightarrow> event_row" where
  "cloneEventRow r =
     \<lparr>rw_seq = rw_seq r, rw_id = rw_id r, rw_timestamp = rw_timestamp r, rw_type = rw_type r,
      rw_payload = clonePayload (rw_payload r), rw_hash = rw_hash r\<rparr>"

definition cloneDelegationChain :: "payload list \<Rightarrow> payload list" where
  "cloneDelegationChain chain = map (\<lambda>item. map (\<lambda>(k, v). (k, v)) item) chain"

definition cloneSessionHeader :: "session_header \<Rightarrow> session_header" where
  "cloneSessionHeader h =
     \<lparr>sh_id = sh_id h, sh_metadata = clonePayload (sh_metadata h), sh_parent = sh_parent h,
      sh_root = sh_root h, sh_spawn = sh_spawn h, sh_spawned_by = sh_spawned_by h,
      sh_chain = cloneDelegationChain (sh_chain h)\<rparr>"

lemma cloneEventRow_id [simp]: "cloneEventRow r = r"
  by (simp add: cloneEventRow_def)

lemma map_cloneEventRow [simp]: "map cloneEventRow rs = rs"
  by (simp add: map_idI)

lemma cloneDelegationChain_id [simp]: "cloneDelegationChain c = c"
  by (simp add: cloneDelegationChain_def)

lemma cloneSessionHeader_id [simp]: "cloneSessionHeader h = h"
  by (simp add: cloneSessionHeader_def)

lemma length_rows_of_drafts [simp]: "length (rows_of_drafts s ds) = length ds"
  by (induction ds arbitrary: s) auto

lemma nth_rows_of_drafts:
  "i < length ds \<Longrightarrow> rows_of_drafts s ds ! i = row_of_draft (s + int i) (ds ! i)"
proof (induction ds arbitrary: s i)
  case Nil
  then show ?case by simp
next
  case (Cons d ds)
  then show ?case by (cases i) (auto simp: algebra_simps)
qed

text \<open>\<open>dense_rows\<close>: row \<open>i\<close> carries sequence number \<open>i\<close>.\<close>

definition dense_rows :: "event_row list \<Rightarrow> bool" where
  "dense_rows rs \<longleftrightarrow> (\<forall>i < length rs. rw_seq (rs ! i) = int i)"

lemma dense_rows_Nil [simp]: "dense_rows []"
  by (simp add: dense_rows_def)

lemma dense_rows_append_drafts:
  "dense_rows rs \<Longrightarrow> dense_rows (rs @ rows_of_drafts (int (length rs)) ds)"
  by (auto simp: dense_rows_def nth_append nth_rows_of_drafts row_of_draft_def)

section \<open>The StorageAdapter contract\<close>

text \<open>
  What \<^verbatim>\<open>Log\<close> and \<^verbatim>\<open>Session\<close> rely on: a successful append adds exactly the drafts, numbered
  from the current end; a failed one adds nothing; a stale \<^verbatim>\<open>expectedNextSeq\<close> fails; reading
  from the start returns all rows.  An adapter may fail at any other moment too.
\<close>

type_synonym 'st append_fn =
  "'st \<Rightarrow> event_draft list \<Rightarrow> int option \<Rightarrow> (storage_error + event_row list) \<times> 'st"

text \<open>The part of a row that comes from the draft: everything but the hash, which an adapter
  may compute.\<close>

definition row_matches :: "event_row \<Rightarrow> event_row \<Rightarrow> bool" where
  "row_matches r r' \<longleftrightarrow> r\<lparr>rw_hash := []\<rparr> = r'\<lparr>rw_hash := []\<rparr>"

lemma row_matches_refl [simp]: "row_matches r r"
  by (simp add: row_matches_def)

lemma row_matches_seq: "row_matches r r' \<Longrightarrow> rw_seq r = rw_seq r'"
  by (cases r; cases r') (simp add: row_matches_def)

locale storage_adapter =
  fixes append_events :: "'st append_fn"
    and events_since :: "'st \<Rightarrow> int option \<Rightarrow> storage_error + event_row list"
    and rows_of :: "'st \<Rightarrow> event_row list"
    and invar :: "'st \<Rightarrow> bool"
  assumes append_ok:
      "invar st \<Longrightarrow> append_events st ds ex = (Inr rs, st') \<Longrightarrow>
        invar st' \<and> rows_of st' = rows_of st @ rs \<and>
        list_all2 row_matches rs (rows_of_drafts (int (length (rows_of st))) ds)"
    and append_err:
      "invar st \<Longrightarrow> append_events st ds ex = (Inl e, st') \<Longrightarrow> invar st' \<and> rows_of st' = rows_of st"
    and append_fence:
      "invar st \<Longrightarrow> n \<noteq> int (length (rows_of st)) \<Longrightarrow>
        \<exists>e st'. append_events st ds (Some n) = (Inl e, st')"
    and inv_dense: "invar st \<Longrightarrow> dense_rows (rows_of st)"
    and since_all:
      "invar st \<Longrightarrow> events_since st None = Inr rs \<Longrightarrow> rs = rows_of st"
begin

lemma append_length:
  "invar st \<Longrightarrow> append_events st ds ex = (Inr rs, st') \<Longrightarrow> length rs = length ds"
  using append_ok by (fastforce dest: list_all2_lengthD)

lemma append_seq:
  assumes "invar st" and "append_events st ds ex = (Inr rs, st')" and "i < length ds"
  shows "rw_seq (rs ! i) = int (length (rows_of st) + i)"
proof -
  have all2: "list_all2 row_matches rs (rows_of_drafts (int (length (rows_of st))) ds)"
    using append_ok [OF assms(1,2)] by simp
  have "i < length rs" using append_length [OF assms(1,2)] assms(3) by simp
  with all2 have "row_matches (rs ! i) (rows_of_drafts (int (length (rows_of st))) ds ! i)"
    by (auto dest: list_all2_nthD)
  then have "rw_seq (rs ! i) = rw_seq (rows_of_drafts (int (length (rows_of st))) ds ! i)"
    by (rule row_matches_seq)
  with assms(3) show ?thesis by (simp add: nth_rows_of_drafts row_of_draft_def)
qed

text \<open>The optimistic-concurrency fence: a successful fenced append saw the expected end.\<close>

lemma append_fenced:
  assumes "invar st" and "append_events st ds (Some n) = (Inr rs, st')"
  shows "n = int (length (rows_of st))"
proof (rule ccontr)
  assume "n \<noteq> int (length (rows_of st))"
  from append_fence [OF assms(1) this] obtain e st'' where
    "append_events st ds (Some n) = (Inl e, st'')" by blast
  with assms(2) show False by simp
qed

text \<open>Two writers that saw the same end cannot both append: the second is refused.\<close>

lemma append_race:
  assumes "invar st" and "ds \<noteq> []"
    and "append_events st ds (Some n) = (Inr rs, st')"
  shows "\<exists>e st''. append_events st' ds' (Some n) = (Inl e, st'')"
proof (rule append_fence)
  show "invar st'" using append_ok [OF assms(1,3)] by simp
  have "n = int (length (rows_of st))" by (rule append_fenced [OF assms(1,3)])
  moreover have "length (rows_of st') = length (rows_of st) + length ds"
    using append_ok [OF assms(1,3)] append_length [OF assms(1,3)] by simp
  ultimately show "n \<noteq> int (length (rows_of st'))" using assms(2) by simp
qed

end

section \<open>MemoryStorageAdapter\<close>

record mem_adapter =
  ma_header :: "session_header option"
  ma_rows :: "event_row list"

definition NewMemoryStorageAdapter :: mem_adapter where
  "NewMemoryStorageAdapter = \<lparr>ma_header = None, ma_rows = []\<rparr>"

definition mem_LoadSession :: "mem_adapter \<Rightarrow> storage_error + session_header option" where
  "mem_LoadSession a = Inr (map_option cloneSessionHeader (ma_header a))"

definition mem_SaveHeader ::
    "mem_adapter \<Rightarrow> session_header \<Rightarrow> (storage_error + unit) \<times> mem_adapter" where
  "mem_SaveHeader a h = (Inr (), a\<lparr>ma_header := Some (cloneSessionHeader h)\<rparr>)"

definition mem_AppendEvents :: "mem_adapter append_fn" where
  "mem_AppendEvents a drafts expectedNextSeq =
     (let nextSeq = int (length (ma_rows a))
      in case expectedNextSeq of
           Some n \<Rightarrow>
             if n \<noteq> nextSeq then (Inl (StorageConflict StorageConflictReason n nextSeq), a)
             else let rows = rows_of_drafts nextSeq drafts
                  in (Inr rows, a\<lparr>ma_rows := ma_rows a @ rows\<rparr>)
         | None \<Rightarrow>
             let rows = rows_of_drafts nextSeq drafts
             in (Inr rows, a\<lparr>ma_rows := ma_rows a @ rows\<rparr>))"

text \<open>\<^verbatim>\<open>AppendEvent\<close> is the batch of one draft; the row is the first of the result.\<close>

definition append_one ::
    "'st append_fn \<Rightarrow> 'st \<Rightarrow> event_draft \<Rightarrow> int option \<Rightarrow> (storage_error + event_row) \<times> 'st" where
  "append_one ap st d ex =
     (case ap st [d] ex of (Inl e, st') \<Rightarrow> (Inl e, st') | (Inr rows, st') \<Rightarrow> (Inr (hd rows), st'))"

definition mem_AppendEvent ::
    "mem_adapter \<Rightarrow> event_draft \<Rightarrow> int option \<Rightarrow> (storage_error + event_row) \<times> mem_adapter" where
  "mem_AppendEvent = append_one mem_AppendEvents"

text \<open>The cursor arithmetic of \<^verbatim>\<open>EventsSince\<close>, the same in the memory and the file adapter.\<close>

definition rows_since :: "event_row list \<Rightarrow> int option \<Rightarrow> event_row list" where
  "rows_since rows cursor =
     (let start = (case cursor of None \<Rightarrow> 0 | Some c \<Rightarrow> c + 1);
          start = (if start < 0 then 0 else start)
      in if start > int (length rows) then [] else map cloneEventRow (drop (nat start) rows))"

definition mem_EventsSince :: "mem_adapter \<Rightarrow> int option \<Rightarrow> storage_error + event_row list" where
  "mem_EventsSince a cursor = Inr (rows_since (ma_rows a) cursor)"

lemma rows_since_None [simp]: "rows_since rows None = rows"
  by (simp add: rows_since_def)

text \<open>Reading from a cursor returns exactly the rows after it.\<close>

lemma rows_since_filter:
  assumes "dense_rows rows"
  shows "rows_since rows (Some c) = filter (\<lambda>r. c < rw_seq r) rows"
proof -
  let ?n = "nat (c + 1)"
  have "filter (\<lambda>r. c < rw_seq r) (drop ?n rows) = drop ?n rows"
  proof (rule filter_True, rule ballI)
    fix r assume "r \<in> set (drop ?n rows)"
    then obtain i where i: "i < length (drop ?n rows)" and r: "r = drop ?n rows ! i"
      by (auto simp: in_set_conv_nth)
    then have "rw_seq r = int (?n + i)"
      using assms by (auto simp: dense_rows_def)
    then show "c < rw_seq r" by linarith
  qed
  moreover have "filter (\<lambda>r. c < rw_seq r) (take ?n rows) = []"
  proof (rule filter_False, rule ballI)
    fix r assume "r \<in> set (take ?n rows)"
    then obtain i where i: "i < length (take ?n rows)" and r: "r = take ?n rows ! i"
      by (auto simp: in_set_conv_nth)
    then have "rw_seq r = int i" using assms by (auto simp: dense_rows_def)
    moreover have "i < ?n" using i by simp
    ultimately show "\<not> c < rw_seq r" by linarith
  qed
  ultimately have "filter (\<lambda>r. c < rw_seq r) rows = drop ?n rows"
    by (metis append_Nil append_take_drop_id filter_append)
  then show ?thesis by (auto simp: rows_since_def Let_def)
qed

definition mem_inv :: "mem_adapter \<Rightarrow> bool" where
  "mem_inv a \<longleftrightarrow> dense_rows (ma_rows a)"

lemma row_matches_all_refl: "list_all2 row_matches rs rs"
  by (simp add: list_all2_refl)

interpretation memory: storage_adapter mem_AppendEvents mem_EventsSince ma_rows mem_inv
proof
  fix st ds ex rs st'
  assume "mem_inv st" and "mem_AppendEvents st ds ex = (Inr rs, st')"
  then show "mem_inv st' \<and> ma_rows st' = ma_rows st @ rs \<and>
      list_all2 row_matches rs (rows_of_drafts (int (length (ma_rows st))) ds)"
    by (auto simp: mem_AppendEvents_def mem_inv_def Let_def dense_rows_append_drafts
        row_matches_all_refl split: option.splits if_splits)
next
  fix st ds ex e st'
  assume "mem_inv st" and "mem_AppendEvents st ds ex = (Inl e, st')"
  then show "mem_inv st' \<and> ma_rows st' = ma_rows st"
    by (auto simp: mem_AppendEvents_def Let_def split: option.splits if_splits)
next
  fix st n ds
  assume "mem_inv st" and "n \<noteq> int (length (ma_rows st))"
  then show "\<exists>e st'. mem_AppendEvents st ds (Some n) = (Inl e, st')"
    by (simp add: mem_AppendEvents_def)
qed (simp_all add: mem_inv_def mem_EventsSince_def)

end
