(* ===== verification/EventLog.thy ===== *)
theory EventLog
  imports Storage
begin

text \<open>
  \<^verbatim>\<open>log.go\<close>: the append-only event Log with its optional write-through storage and the
  latch that refuses appends after a failed write.  The Log's environment (the bound
  adapter's method, the clock, the SHA-256 digest inside an event id) is a record of
  functions; the clock is read once per event, so the log counts its readings.
\<close>

section \<open>Observations\<close>

text \<open>The calls of \<^verbatim>\<open>Observation.Emit\<close> in the library, with the payload fields they carry
  (durations are left out).  A log keeps the trace of what was emitted; the subscribers are
  modelled in the theory Observe.\<close>

datatype observation =
    ObsStorageWriteFailed int int string
  | ObsEventAppended event int
  | ObsProjectionInvoked string int payload
  | ObsProviderCalled string payload
  | ObsProviderFailed string string
  | ObsProviderResponded string "payload option"
  | ObsStreamEvent event
  | ObsHookHandlerFailed string string string
  | ObsStrategyStarted string string
  | ObsStrategyCompleted string string string

record 'st slog =
  lg_events :: "event list"
  lg_storage :: "'st option"
  lg_err :: "storage_error option"
  lg_clock :: nat
  lg_obs :: "observation list"

record 'st log_env =
  le_append :: "'st append_fn"
  le_now :: "nat \<Rightarrow> string"
  le_digest :: "payload \<Rightarrow> string"

definition NewLog :: "'st slog" where
  "NewLog = \<lparr>lg_events = [], lg_storage = None, lg_err = None, lg_clock = 0, lg_obs = []\<rparr>"

definition emit :: "observation \<Rightarrow> 'st slog \<Rightarrow> 'st slog" where
  "emit ob lg = lg\<lparr>lg_obs := lg_obs lg @ [ob]\<rparr>"

lemma emit_simps [simp]:
  "lg_events (emit ob lg) = lg_events lg" "lg_storage (emit ob lg) = lg_storage lg"
  "lg_err (emit ob lg) = lg_err lg" "lg_clock (emit ob lg) = lg_clock lg"
  "lg_obs (emit ob lg) = lg_obs lg @ [ob]"
  by (simp_all add: emit_def)

section \<open>Binding, the latch\<close>

definition log_BindStorage :: "'st \<Rightarrow> 'st slog \<Rightarrow> 'st slog" where
  "log_BindStorage adapter lg = lg\<lparr>lg_storage := Some adapter\<rparr>"

definition StorageErr :: "'st slog \<Rightarrow> storage_error option" where
  "StorageErr lg = lg_err lg"

definition ClearStorageErr :: "'st slog \<Rightarrow> 'st slog" where
  "ClearStorageErr lg = lg\<lparr>lg_err := None\<rparr>"

section \<open>Appending\<close>

text \<open>\<^verbatim>\<open>evt_<seq>_<12 hex digits of the payload's SHA-256>\<close>.\<close>

definition eventID :: "'st log_env \<Rightarrow> int \<Rightarrow> payload \<Rightarrow> string" where
  "eventID env seq payload = ''evt_'' @ show_int seq @ ''_'' @ le_digest env payload"

fun make_events :: "'st log_env \<Rightarrow> nat \<Rightarrow> int \<Rightarrow> event_args list \<Rightarrow> event list" where
  "make_events env clock seq [] = []"
| "make_events env clock seq (a # args) =
     \<lparr>ev_id = eventID env seq (ea_payload a), ev_seq = seq, ev_timestamp = le_now env clock,
      ev_type = ea_type a, ev_payload = ea_payload a, ev_hash = []\<rparr>
     # make_events env (Suc clock) (seq + 1) args"

definition draft_of_event :: "event \<Rightarrow> event_draft" where
  "draft_of_event e =
     \<lparr>dr_id = ev_id e, dr_timestamp = ev_timestamp e, dr_type = ev_type e,
      dr_payload = ev_payload e\<rparr>"

text \<open>The loop over the returned rows: it checks each sequence number and copies the hash.\<close>

fun adopt_rows :: "int \<Rightarrow> nat \<Rightarrow> event list \<Rightarrow> event_row list \<Rightarrow> storage_error + event list" where
  "adopt_rows nextSeq i (e # es) (r # rs) =
     (if rw_seq r \<noteq> nextSeq + int i
      then Inl (StorageFailure (''storage batch row '' @ show_nat i @ '' has seq ''
                  @ show_int (rw_seq r) @ '', want '' @ show_int (nextSeq + int i)))
      else case adopt_rows nextSeq (Suc i) es rs of
             Inl err \<Rightarrow> Inl err
           | Inr es' \<Rightarrow> Inr (e\<lparr>ev_hash := rw_hash r\<rparr> # es'))"
| "adopt_rows nextSeq i es rs = Inr es"

fun publish :: "int \<Rightarrow> event list \<Rightarrow> 'st slog \<Rightarrow> 'st slog" where
  "publish n [] lg = lg"
| "publish n (e # es) lg = publish (n + 1) es (emit (ObsEventAppended e (n + 1)) lg)"

definition AppendBatch ::
    "'st log_env \<Rightarrow> event_args list \<Rightarrow> 'st slog \<Rightarrow> (storage_error + event list) \<times> 'st slog" where
  "AppendBatch env args lg =
     (case lg_err lg of
        Some err \<Rightarrow> (Inl err, lg)
      | None \<Rightarrow>
          if args = [] then (Inr [], lg)
          else
            let nextSeq = int (length (lg_events lg));
                events = make_events env (lg_clock lg) nextSeq args;
                lg1 = lg\<lparr>lg_clock := lg_clock lg + length args\<rparr>;
                commit = (\<lambda>evs lg'. (Inr evs,
                   publish nextSeq evs (lg'\<lparr>lg_events := lg_events lg' @ evs\<rparr>)))
            in case lg_storage lg of
                 None \<Rightarrow> commit events lg1
               | Some st \<Rightarrow>
                   (case le_append env st (map draft_of_event events) (Some nextSeq) of
                      (Inl err, st') \<Rightarrow>
                        (Inl err,
                         emit (ObsStorageWriteFailed nextSeq (int (length args))
                                 (storage_error_message err))
                           (lg1\<lparr>lg_storage := Some st', lg_err := Some err\<rparr>))
                    | (Inr rows, st') \<Rightarrow>
                        let lg2 = lg1\<lparr>lg_storage := Some st'\<rparr>
                        in if length rows \<noteq> length events
                           then let err = StorageFailure (''storage batch returned ''
                                  @ show_nat (length rows) @ '' rows for ''
                                  @ show_nat (length events) @ '' drafts'')
                                in (Inl err, lg2\<lparr>lg_err := Some err\<rparr>)
                           else case adopt_rows nextSeq 0 events rows of
                                  Inl err \<Rightarrow> (Inl err, lg2\<lparr>lg_err := Some err\<rparr>)
                                | Inr events' \<Rightarrow> commit events' lg2))"

definition Append ::
    "'st log_env \<Rightarrow> event_type \<Rightarrow> payload \<Rightarrow> 'st slog \<Rightarrow> event \<times> 'st slog" where
  "Append env t p lg =
     (case AppendBatch env [\<lparr>ea_type = t, ea_payload = p\<rparr>] lg of
        (Inl err, lg') \<Rightarrow> (zero_event, lg')
      | (Inr [], lg') \<Rightarrow> (zero_event, lg')
      | (Inr (e # es), lg') \<Rightarrow> (e, lg'))"

text \<open>Most callers of \<^verbatim>\<open>Append\<close> drop the event.\<close>

definition append_ev :: "'st log_env \<Rightarrow> event_type \<Rightarrow> payload \<Rightarrow> 'st slog \<Rightarrow> 'st slog" where
  "append_ev env t p lg = snd (Append env t p lg)"

definition LastAssistantMessage :: "'st slog \<Rightarrow> event option" where
  "LastAssistantMessage lg = find_last (\<lambda>e. ev_type e = EventAssistantMessage) (lg_events lg)"

definition Restore :: "event \<Rightarrow> 'st slog \<Rightarrow> 'st slog" where
  "Restore e lg = lg\<lparr>lg_events := lg_events lg @ [e]\<rparr>"

section \<open>What appending does\<close>

lemma publish_simps [simp]:
  "lg_events (publish n es lg) = lg_events lg" "lg_storage (publish n es lg) = lg_storage lg"
  "lg_err (publish n es lg) = lg_err lg" "lg_clock (publish n es lg) = lg_clock lg"
  by (induction es arbitrary: n lg) simp_all

lemma publish_obs:
  "lg_obs (publish n es lg) =
     lg_obs lg @ map (\<lambda>i. ObsEventAppended (es ! i) (n + int i + 1)) [0..<length es]"
proof (induction es arbitrary: n lg)
  case Nil
  then show ?case by simp
next
  case (Cons e es)
  have "[0..<length (e # es)] = 0 # map Suc [0..<length es]"
    by (simp add: map_Suc_upt upt_conv_Cons del: upt_Suc)
  with Cons show ?case by (simp add: o_def algebra_simps del: upt_Suc)
qed

lemma length_make_events [simp]: "length (make_events env c s args) = length args"
  by (induction args arbitrary: c s) auto

lemma nth_make_events:
  "i < length args \<Longrightarrow>
   make_events env c s args ! i =
     \<lparr>ev_id = eventID env (s + int i) (ea_payload (args ! i)), ev_seq = s + int i,
      ev_timestamp = le_now env (c + i), ev_type = ea_type (args ! i),
      ev_payload = ea_payload (args ! i), ev_hash = []\<rparr>"
proof (induction args arbitrary: c s i)
  case Nil
  then show ?case by simp
next
  case (Cons a args)
  then show ?case by (cases i) (auto simp: algebra_simps)
qed

text \<open>The arguments of an event: what the caller of \<^verbatim>\<open>AppendBatch\<close> gave.\<close>

definition args_of :: "event \<Rightarrow> event_args" where
  "args_of e = \<lparr>ea_type = ev_type e, ea_payload = ev_payload e\<rparr>"

lemma map_args_of_make_events [simp]: "map args_of (make_events env c s args) = args"
  by (rule nth_equalityI) (auto simp: nth_make_events args_of_def)

lemma adopt_rows_Inr:
  "adopt_rows n i es rs = Inr es' \<Longrightarrow> length rs = length es \<Longrightarrow>
   length es' = length es \<and>
   (\<forall>j < length es. es' ! j = (es ! j)\<lparr>ev_hash := rw_hash (rs ! j)\<rparr> \<and>
      rw_seq (rs ! j) = n + int (i + j))"
proof (induction n i es rs arbitrary: es' rule: adopt_rows.induct)
  case (1 n i e es r rs)
  from "1.prems" obtain es2 where r: "rw_seq r = n + int i"
    and a: "adopt_rows n (Suc i) es rs = Inr es2" and es': "es' = e\<lparr>ev_hash := rw_hash r\<rparr> # es2"
    by (auto split: if_splits sum.splits)
  have "length es2 = length es \<and> (\<forall>j < length es. es2 ! j = (es ! j)\<lparr>ev_hash := rw_hash (rs ! j)\<rparr>
     \<and> rw_seq (rs ! j) = n + int (Suc i + j))"
    using "1.IH" [OF _ a] r "1.prems"(2) by simp
  then show ?case using r es' by (auto simp: less_Suc_eq_0_disj)
qed auto

lemma adopt_rows_ok:
  "length rs = length es \<Longrightarrow> (\<And>j. j < length es \<Longrightarrow> rw_seq (rs ! j) = n + int (i + j)) \<Longrightarrow>
   \<exists>es'. adopt_rows n i es rs = Inr es'"
proof (induction n i es rs rule: adopt_rows.induct)
  case (1 n i e es r rs)
  have r: "rw_seq r = n + int i" using "1.prems"(2) [of 0] by simp
  have "\<exists>es'. adopt_rows n (Suc i) es rs = Inr es'"
  proof (rule "1.IH")
    show "\<not> rw_seq r \<noteq> n + int i" using r by simp
    show "length rs = length es" using "1.prems"(1) by simp
    show "rw_seq (rs ! j) = n + int (Suc i + j)" if "j < length es" for j
      using "1.prems"(2) [of "Suc j"] that by simp
  qed
  with r show ?case by auto
qed auto

lemma adopt_rows_args:
  "adopt_rows n i es rs = Inr es' \<Longrightarrow> length rs = length es \<Longrightarrow>
   map args_of es' = map args_of es \<and> map ev_seq es' = map ev_seq es"
  by (drule (1) adopt_rows_Inr) (auto simp: list_eq_iff_nth_eq args_of_def)

lemma AppendBatch_latched: "lg_err lg = Some err \<Longrightarrow> AppendBatch env args lg = (Inl err, lg)"
  by (simp add: AppendBatch_def)

lemma AppendBatch_Nil: "lg_err lg = None \<Longrightarrow> AppendBatch env [] lg = (Inr [], lg)"
  by (simp add: AppendBatch_def)

text \<open>Success: the whole batch is published, in order, with the next sequence numbers.\<close>

lemma AppendBatch_Inr:
  assumes "AppendBatch env args lg = (Inr es, lg')"
  shows "lg_events lg' = lg_events lg @ es \<and> map args_of es = args \<and> lg_err lg' = None \<and>
    map ev_seq es = map (\<lambda>i. int (length (lg_events lg) + i)) [0..<length args]"
proof -
  have mk: "map ev_seq (make_events env c n args) = map (\<lambda>i. n + int i) [0..<length args]"
    for c n by (rule nth_equalityI) (auto simp: nth_make_events)
  show ?thesis
    using assms
    by (auto simp: AppendBatch_def Let_def mk dest!: adopt_rows_args
        split: option.splits if_splits prod.splits sum.splits)
qed

text \<open>Failure: nothing is published, and the log is latched.\<close>

lemma AppendBatch_Inl:
  assumes "AppendBatch env args lg = (Inl err, lg')"
  shows "lg_events lg' = lg_events lg \<and> lg_err lg' = Some err"
  using assms
  by (auto simp: AppendBatch_def Let_def split: option.splits if_splits prod.splits sum.splits)

lemma AppendBatch_extends:
  "\<exists>es. lg_events (snd (AppendBatch env args lg)) = lg_events lg @ es"
proof (cases "AppendBatch env args lg")
  case (Pair r lg')
  then show ?thesis by (cases r) (auto dest: AppendBatch_Inl AppendBatch_Inr)
qed

lemma AppendBatch_unbound:
  assumes "lg_err lg = None" and "lg_storage lg = None"
  shows "\<exists>es lg'. AppendBatch env args lg = (Inr es, lg') \<and> lg_storage lg' = None"
  using assms by (auto simp: AppendBatch_def Let_def)

lemma AppendBatch_dense:
  assumes "dense (lg_events lg)"
  shows "dense (lg_events (snd (AppendBatch env args lg)))"
proof (cases "AppendBatch env args lg")
  case (Pair r lg')
  show ?thesis
  proof (cases r)
    case (Inl e)
    with Pair assms show ?thesis by (auto dest: AppendBatch_Inl)
  next
    case (Inr es)
    note a = AppendBatch_Inr [OF Pair [unfolded Inr]]
    then have "length es = length args" by (metis length_map)
    with a have "\<forall>i < length es. ev_seq (es ! i) = int (length (lg_events lg) + i)"
      by (metis (no_types, lifting) add_0 length_map length_upt minus_nat.diff_0 nth_map nth_upt)
    with a assms Pair Inr show ?thesis by (simp add: dense_append)
  qed
qed

lemma append_ev_AppendBatch:
  "append_ev env t p lg = snd (AppendBatch env [\<lparr>ea_type = t, ea_payload = p\<rparr>] lg)"
  by (auto simp: append_ev_def Append_def split: prod.splits sum.splits list.splits)

lemma append_ev_dense: "dense (lg_events lg) \<Longrightarrow> dense (lg_events (append_ev env t p lg))"
  by (simp add: append_ev_AppendBatch AppendBatch_dense)

lemma append_ev_latched: "lg_err lg = Some err \<Longrightarrow> append_ev env t p lg = lg"
  by (simp add: append_ev_AppendBatch AppendBatch_latched)

text \<open>One append either publishes one event with the given arguments or latches the log.\<close>

lemma append_ev_cases:
  obtains (published) e where "lg_events (append_ev env t p lg) = lg_events lg @ [e]"
      "ev_type e = t" "ev_payload e = p" "ev_seq e = int (length (lg_events lg))"
      "lg_err (append_ev env t p lg) = None" "lg_err lg = None"
  | (refused) "lg_events (append_ev env t p lg) = lg_events lg"
      "lg_err (append_ev env t p lg) \<noteq> None"
proof (cases "AppendBatch env [\<lparr>ea_type = t, ea_payload = p\<rparr>] lg")
  case (Pair r lg')
  show thesis
  proof (cases r)
    case (Inl err)
    with Pair have "lg_events lg' = lg_events lg \<and> lg_err lg' = Some err"
      by (auto dest: AppendBatch_Inl)
    with Pair show thesis by (intro refused) (simp_all add: append_ev_AppendBatch)
  next
    case (Inr es)
    note a = AppendBatch_Inr [OF Pair [unfolded Inr]]
    have "lg_err lg = None"
      using Pair Inr by (cases "lg_err lg") (simp_all add: AppendBatch_def)
    moreover from a obtain e where "es = [e]" by (cases es; cases "tl es") auto
    ultimately show thesis using a Pair
      by (intro published [of e]) (simp_all add: append_ev_AppendBatch args_of_def)
  qed
qed

lemma append_ev_extends: "\<exists>es. lg_events (append_ev env t p lg) = lg_events lg @ es"
  by (rule append_ev_cases [of env t p lg]) auto

lemma append_ev_unlatched:
  assumes "lg_err lg = None" and "lg_storage lg = None"
  shows "lg_err (append_ev env t p lg) = None \<and> lg_storage (append_ev env t p lg) = None \<and>
    (\<exists>e. lg_events (append_ev env t p lg) = lg_events lg @ [e] \<and> ev_type e = t \<and> ev_payload e = p)"
proof -
  obtain es lg' where a: "AppendBatch env [\<lparr>ea_type = t, ea_payload = p\<rparr>] lg = (Inr es, lg')"
    "lg_storage lg' = None"
    using AppendBatch_unbound [OF assms] by blast
  show ?thesis
    by (rule append_ev_cases [of env t p lg])
      (use a AppendBatch_Inr [OF a(1)] in \<open>auto simp: append_ev_AppendBatch\<close>)
qed

section \<open>Write-through\<close>

text \<open>
  \<open>synced\<close>: the bound adapter holds exactly the in-memory events, in order, with equal
  fields.  Inside the adapter contract, an append on a synced log leaves it synced whether
  it succeeds or fails: a failed append is neither durable nor visible.
\<close>

definition row_of_event :: "event \<Rightarrow> event_row" where
  "row_of_event e =
     \<lparr>rw_seq = ev_seq e, rw_id = ev_id e, rw_timestamp = ev_timestamp e, rw_type = ev_type e,
      rw_payload = ev_payload e, rw_hash = ev_hash e\<rparr>"

lemma row_of_draft_make_events:
  "rows_of_drafts s (map draft_of_event (make_events env c s args))
     = map row_of_event (make_events env c s args)"
  by (rule nth_equalityI)
    (auto simp: nth_rows_of_drafts row_of_draft_def draft_of_event_def row_of_event_def
      nth_make_events)

lemma row_matches_adopt:
  assumes "row_matches r (row_of_event e)"
  shows "row_of_event (e\<lparr>ev_hash := rw_hash r\<rparr>) = r"
  using assms by (cases r; cases e) (auto simp: row_matches_def row_of_event_def)

definition synced :: "('st \<Rightarrow> event_row list) \<Rightarrow> ('st \<Rightarrow> bool) \<Rightarrow> 'st slog \<Rightarrow> bool" where
  "synced rows_of invar lg \<longleftrightarrow>
     (case lg_storage lg of None \<Rightarrow> False
      | Some st \<Rightarrow> invar st \<and>
          list_all2 (\<lambda>e r. row_matches (row_of_event e) r) (lg_events lg) (rows_of st))"

context storage_adapter
begin

lemma AppendBatch_synced:
  assumes "synced rows_of invar lg" and env: "le_append env = append_events"
  shows "synced rows_of invar (snd (AppendBatch env args lg))"
proof (cases "lg_err lg = None \<and> args \<noteq> []")
  case False
  then show ?thesis using assms(1) by (cases "lg_err lg") (auto simp: AppendBatch_def)
next
  case True
  from assms(1) obtain st where st: "lg_storage lg = Some st" "invar st"
    "list_all2 (\<lambda>e r. row_matches (row_of_event e) r) (lg_events lg) (rows_of st)"
    by (auto simp: synced_def split: option.splits)
  define n where "n = int (length (lg_events lg))"
  define es where "es = make_events env (lg_clock lg) n args"
  have len: "length (rows_of st) = length (lg_events lg)"
    using st(3) by (simp add: list_all2_lengthD)
  obtain r st' where ap: "append_events st (map draft_of_event es) (Some n) = (r, st')"
    by fastforce
  show ?thesis
  proof (cases r)
    case (Inl err)
    with append_err [OF st(2) ap [unfolded Inl]] st(3) True st(1) ap env show ?thesis
      by (auto simp: AppendBatch_def Let_def synced_def n_def es_def)
  next
    case (Inr rs)
    note ok = append_ok [OF st(2) ap [unfolded Inr]]
    have rl: "length rs = length es"
      using append_length [OF st(2) ap [unfolded Inr]] by simp
    have "list_all2 row_matches rs (map row_of_event es)"
      using ok len row_of_draft_make_events [of n env "lg_clock lg" args]
      by (simp add: es_def n_def)
    then have m: "row_matches (rs ! j) (row_of_event (es ! j))" if "j < length es" for j
      using that rl by (auto dest: list_all2_nthD)
    have seq: "rw_seq (rs ! j) = n + int (0 + j)" if "j < length es" for j
      using append_seq [OF st(2) ap [unfolded Inr]] that len by (simp add: n_def)
    obtain es' where ad: "adopt_rows n 0 es rs = Inr es'"
      using adopt_rows_ok [OF rl seq] by blast
    have "row_of_event (es' ! j) = rs ! j" if "j < length es" for j
      using adopt_rows_Inr [OF ad rl] m [OF that] that by (simp add: row_matches_adopt)
    then have "list_all2 (\<lambda>e r. row_matches (row_of_event e) r) es' rs"
      using adopt_rows_Inr [OF ad rl] rl by (auto simp: list_all2_conv_all_nth)
    with st(3) have "list_all2 (\<lambda>e r. row_matches (row_of_event e) r) (lg_events lg @ es') (rows_of st @ rs)"
      by (simp add: list_all2_appendI)
    with True st(1) ap env Inr rl ad ok show ?thesis
      by (auto simp: AppendBatch_def Let_def synced_def n_def es_def)
  qed
qed

lemma append_ev_synced:
  "synced rows_of invar lg \<Longrightarrow> le_append env = append_events \<Longrightarrow> synced rows_of invar (append_ev env t p lg)"
  by (simp add: append_ev_AppendBatch AppendBatch_synced)

text \<open>A durable prefix never exists: the adapter has the whole batch or none of it.\<close>

lemma AppendBatch_all_or_none:
  assumes "synced rows_of invar lg" and "le_append env = append_events" and "AppendBatch env args lg = (r, lg')"
    and "lg_storage lg = Some st" and "lg_storage lg' = Some st'"
  shows "(\<exists>es. r = Inr es \<and> length (rows_of st') = length (rows_of st) + length args) \<or>
         (\<exists>e. r = Inl e \<and> length (rows_of st') = length (rows_of st))"
proof -
  have s: "synced rows_of invar lg'" using AppendBatch_synced [OF assms(1,2), of args] assms(3) by simp
  have l: "length (rows_of st) = length (lg_events lg)"
    "length (rows_of st') = length (lg_events lg')"
    using assms(1,4,5) s by (auto simp: synced_def dest: list_all2_lengthD split: option.splits)
  show ?thesis
  proof (cases r)
    case (Inl e)
    then show ?thesis using AppendBatch_Inl assms(3) l by fastforce
  next
    case (Inr es)
    note a = AppendBatch_Inr [OF assms(3) [unfolded Inr]]
    then have "length es = length args" by (metis length_map)
    with a l Inr show ?thesis by simp
  qed
qed

end

end
