(* ===== verification/Mutations.thy ===== *)
theory Mutations
  imports EventLog
begin

text \<open>
  \<^verbatim>\<open>mutations.go\<close>: the effective event stream.  Compaction and reversal never rewrite the
  log; they are events, and \<^verbatim>\<open>ApplyMutations\<close> computes the stream they leave.  A
  \<^verbatim>\<open>map[int]bool\<close> is the list of its keys.
\<close>

section \<open>ApplyMutations\<close>

text \<open>First loop: the sequence numbers that revert events revoke.\<close>

fun collect_revoked :: "event list \<Rightarrow> int list" where
  "collect_revoked [] = []"
| "collect_revoked (e # es) =
     (if ev_type e = EventRevert then asInt (pget (ev_payload e) ''revokes'') # collect_revoked es
      else collect_revoked es)"

text \<open>The sequence numbers a compact event replaces, and the least of them.\<close>

definition compact_replaces :: "event \<Rightarrow> int list" where
  "compact_replaces e = map asInt (asSlice (pget (ev_payload e) ''replaces''))"

fun min_seq :: "int \<Rightarrow> int list \<Rightarrow> int" where
  "min_seq m [] = m"
| "min_seq m (s # ss) = min_seq (if s < m then s else m) ss"

text \<open>Second loop: the shadowed numbers and where each active compact puts its summary.\<close>

fun collect_compacts ::
    "int list \<Rightarrow> event list \<Rightarrow> int list \<Rightarrow> (int \<times> event) list \<Rightarrow> int list \<times> (int \<times> event) list"
where
  "collect_compacts revoked [] shadowed summaryAt = (shadowed, summaryAt)"
| "collect_compacts revoked (e # es) shadowed summaryAt =
     (if ev_type e \<noteq> EventCompact \<or> ev_seq e \<in> set revoked
      then collect_compacts revoked es shadowed summaryAt
      else case compact_replaces e of
             [] \<Rightarrow> collect_compacts revoked es shadowed summaryAt
           | s # ss \<Rightarrow>
               collect_compacts revoked es (shadowed @ s # ss)
                 (AList.update (min_seq s (s # ss)) e summaryAt))"

definition summary_event :: "event \<Rightarrow> event" where
  "summary_event c =
     \<lparr>ev_id = [], ev_seq = ev_seq c, ev_timestamp = [], ev_type = EventSummary,
      ev_payload = [(''text'', pget (ev_payload c) ''summary'')], ev_hash = []\<rparr>"

text \<open>Third loop.\<close>

fun emit_effective :: "int list \<Rightarrow> (int \<times> event) list \<Rightarrow> event list \<Rightarrow> event list" where
  "emit_effective shadowed summaryAt [] = []"
| "emit_effective shadowed summaryAt (e # es) =
     (if ev_type e = EventCompact \<or> ev_type e = EventRevert
      then emit_effective shadowed summaryAt es
      else case map_of summaryAt (ev_seq e) of
             Some c \<Rightarrow> summary_event c # emit_effective shadowed summaryAt es
           | None \<Rightarrow> if ev_seq e \<in> set shadowed then emit_effective shadowed summaryAt es
                     else e # emit_effective shadowed summaryAt es)"

definition apply_mutations :: "event list \<Rightarrow> event list" where
  "apply_mutations es =
     (let (shadowed, summaryAt) = collect_compacts (collect_revoked es) es [] []
      in emit_effective shadowed summaryAt es)"

definition ApplyMutations :: "'st slog \<Rightarrow> event list" where
  "ApplyMutations lg = apply_mutations (lg_events lg)"

section \<open>The compacts in force\<close>

definition active_compact :: "event list \<Rightarrow> event \<Rightarrow> bool" where
  "active_compact es e \<longleftrightarrow>
     e \<in> set es \<and> ev_type e = EventCompact \<and> ev_seq e \<notin> set (collect_revoked es) \<and>
     compact_replaces e \<noteq> []"

definition shadowed_seqs :: "event list \<Rightarrow> int set" where
  "shadowed_seqs es = (\<Union>e \<in> {e. active_compact es e}. set (compact_replaces e))"

lemma set_collect_revoked:
  "set (collect_revoked es) =
     (\<lambda>e. asInt (pget (ev_payload e) ''revokes'')) ` {e \<in> set es. ev_type e = EventRevert}"
  by (induction es) auto

lemma collect_revoked_append [simp]:
  "collect_revoked (es @ fs) = collect_revoked es @ collect_revoked fs"
  by (induction es) auto

lemma collect_compacts_cong:
  "(\<And>e. e \<in> set es \<Longrightarrow> ev_seq e \<in> set r \<longleftrightarrow> ev_seq e \<in> set r') \<Longrightarrow>
   collect_compacts r es sh sm = collect_compacts r' es sh sm"
  by (induction es arbitrary: sh sm) (auto split: list.splits)

lemma collect_compacts_append:
  "collect_compacts r (es @ fs) sh sm =
     (case collect_compacts r es sh sm of (sh', sm') \<Rightarrow> collect_compacts r fs sh' sm')"
  by (induction es arbitrary: sh sm) (auto split: list.splits)

lemma min_seq_in: "min_seq m ss \<in> insert m (set ss)"
  by (induction ss arbitrary: m) auto

lemma min_seq_le: "min_seq m ss \<le> m \<and> (\<forall>s \<in> set ss. min_seq m ss \<le> s)"
proof (induction ss arbitrary: m)
  case Nil
  then show ?case by simp
next
  case (Cons s ss)
  from Cons [of "if s < m then s else m"] show ?case by (auto split: if_splits)
qed

lemma collect_compacts_shadowed:
  "set (fst (collect_compacts r es sh sm)) =
     set sh \<union> (\<Union>e \<in> {e \<in> set es. ev_type e = EventCompact \<and> ev_seq e \<notin> set r}.
                 set (compact_replaces e))"
proof (induction es arbitrary: sh sm)
  case Nil
  then show ?case by simp
next
  case (Cons e es)
  show ?case
  proof (cases "ev_type e = EventCompact \<and> ev_seq e \<notin> set r")
    case False
    then have eq: "{x \<in> set (e # es). ev_type x = EventCompact \<and> ev_seq x \<notin> set r}
        = {x \<in> set es. ev_type x = EventCompact \<and> ev_seq x \<notin> set r}" by auto
    have "collect_compacts r (e # es) sh sm = collect_compacts r es sh sm"
      using False by auto
    with Cons show ?thesis unfolding eq by simp
  next
    case True
    then have eq: "{x \<in> set (e # es). ev_type x = EventCompact \<and> ev_seq x \<notin> set r}
        = insert e {x \<in> set es. ev_type x = EventCompact \<and> ev_seq x \<notin> set r}" by auto
    show ?thesis
      using True Cons unfolding eq by (cases "compact_replaces e") auto
  qed
qed

lemma collect_compacts_summary:
  "map_of (snd (collect_compacts r es sh sm)) s = Some c \<Longrightarrow>
   map_of sm s = Some c \<or>
   (c \<in> set es \<and> ev_type c = EventCompact \<and> ev_seq c \<notin> set r \<and> compact_replaces c \<noteq> [] \<and>
    s = min_seq (hd (compact_replaces c)) (compact_replaces c))"
proof (induction es arbitrary: sh sm)
  case Nil
  then show ?case by simp
next
  case (Cons e es)
  show ?case
  proof (cases "ev_type e = EventCompact \<and> ev_seq e \<notin> set r \<and> compact_replaces e \<noteq> []")
    case False
    then have "collect_compacts r (e # es) sh sm = collect_compacts r es sh sm"
      by (auto split: list.splits)
    with Cons.IH [of sh sm] Cons.prems show ?thesis by auto
  next
    case True
    then obtain t ts where ts: "compact_replaces e = t # ts" by (cases "compact_replaces e") auto
    with Cons.prems True
    have "map_of (snd (collect_compacts r es (sh @ t # ts)
        (AList.update (min_seq t (t # ts)) e sm))) s = Some c" by simp
    from Cons.IH [OF this] True ts show ?thesis
      by (auto simp: map_of_update_iff split: if_splits)
  qed
qed

lemma collect_compacts_has_summary:
  "c \<in> set es \<Longrightarrow> ev_type c = EventCompact \<Longrightarrow> ev_seq c \<notin> set r \<Longrightarrow> compact_replaces c \<noteq> [] \<Longrightarrow>
   map_of (snd (collect_compacts r es sh sm))
     (min_seq (hd (compact_replaces c)) (compact_replaces c)) \<noteq> None"
proof -
  have keep: "map_of sm s \<noteq> None \<Longrightarrow> map_of (snd (collect_compacts r es sh sm)) s \<noteq> None" for es sh sm s
  proof (induction es arbitrary: sh sm)
    case Nil
    then show ?case by simp
  next
    case (Cons e es)
    then show ?case
      by (auto simp: map_of_update_iff split: list.splits if_splits)
  qed
  show "c \<in> set es \<Longrightarrow> ev_type c = EventCompact \<Longrightarrow> ev_seq c \<notin> set r \<Longrightarrow> compact_replaces c \<noteq> [] \<Longrightarrow>
    map_of (snd (collect_compacts r es sh sm))
     (min_seq (hd (compact_replaces c)) (compact_replaces c)) \<noteq> None"
  proof (induction es arbitrary: sh sm)
    case Nil
    then show ?case by simp
  next
    case (Cons e es)
    show ?case
    proof (cases "e = c")
      case True
      with Cons.prems obtain t ts where ts: "compact_replaces c = t # ts"
        by (cases "compact_replaces c") auto
      have "map_of (snd (collect_compacts r es (sh @ t # ts)
         (AList.update (min_seq t (t # ts)) c sm))) (min_seq t (t # ts)) \<noteq> None"
        by (rule keep) (simp add: map_of_update_iff)
      with True ts Cons.prems show ?thesis by simp
    next
      case False
      with Cons show ?thesis by (auto split: list.splits)
    qed
  qed
qed

lemma collect_compacts_shadowed_seqs:
  "set (fst (collect_compacts (collect_revoked es) es [] [])) = shadowed_seqs es"
  by (auto simp: collect_compacts_shadowed shadowed_seqs_def active_compact_def)

section \<open>What is in the effective stream\<close>

lemma emit_effective_types:
  "e \<in> set (emit_effective sh sm es) \<Longrightarrow> ev_type e \<noteq> EventCompact \<and> ev_type e \<noteq> EventRevert"
  by (induction es) (auto simp: summary_event_def split: if_splits option.splits)

lemma emit_effective_append [simp]:
  "emit_effective sh sm (es @ fs) = emit_effective sh sm es @ emit_effective sh sm fs"
  by (induction es) (auto split: option.splits)

lemma no_mutations_collect:
  assumes "\<And>e. e \<in> set es \<Longrightarrow> ev_type e \<noteq> EventCompact"
  shows "collect_compacts r es sh sm = (sh, sm)"
  using assms by (induction es) auto

lemma emit_effective_none:
  assumes "\<And>e. e \<in> set es \<Longrightarrow> ev_type e \<noteq> EventCompact \<and> ev_type e \<noteq> EventRevert"
  shows "emit_effective [] [] es = es"
  using assms by (induction es) auto

lemma apply_mutations_types:
  "e \<in> set (apply_mutations es) \<Longrightarrow> ev_type e \<noteq> EventCompact \<and> ev_type e \<noteq> EventRevert"
  by (auto simp: apply_mutations_def split: prod.splits dest: emit_effective_types)

lemma apply_mutations_none:
  assumes "\<And>e. e \<in> set es \<Longrightarrow> ev_type e \<noteq> EventCompact \<and> ev_type e \<noteq> EventRevert"
  shows "apply_mutations es = es"
  using no_mutations_collect [of es "collect_revoked es" "[]" "[]"] emit_effective_none [of es] assms
  by (simp add: apply_mutations_def)

lemma set_emit_effective:
  "set (emit_effective sh sm es) =
     {e \<in> set es. ev_type e \<noteq> EventCompact \<and> ev_type e \<noteq> EventRevert \<and>
        map_of sm (ev_seq e) = None \<and> ev_seq e \<notin> set sh} \<union>
     {summary_event c | c e. e \<in> set es \<and> ev_type e \<noteq> EventCompact \<and> ev_type e \<noteq> EventRevert \<and>
        map_of sm (ev_seq e) = Some c}"
  by (induction es) (auto split: option.splits)

text \<open>The events that survive unchanged are the ones no active compact replaces.\<close>

lemma mem_apply_mutations_event:
  assumes "ev_type e \<noteq> EventSummary"
  shows "e \<in> set (apply_mutations es) \<longleftrightarrow>
    e \<in> set es \<and> ev_type e \<noteq> EventCompact \<and> ev_type e \<noteq> EventRevert \<and>
    ev_seq e \<notin> shadowed_seqs es"
proof -
  define sh sm where "sh = fst (collect_compacts (collect_revoked es) es [] [])"
    and "sm = snd (collect_compacts (collect_revoked es) es [] [])"
  have eq: "apply_mutations es = emit_effective sh sm es"
    by (simp add: apply_mutations_def sh_def sm_def split: prod.splits)
  have shs: "set sh = shadowed_seqs es" by (simp add: sh_def collect_compacts_shadowed_seqs)
  have "map_of sm s = None" if "s \<notin> set sh" for s
  proof (rule ccontr)
    assume "map_of sm s \<noteq> None"
    then obtain c where "map_of sm s = Some c" by auto
    then have c: "c \<in> set es" "ev_type c = EventCompact" "ev_seq c \<notin> set (collect_revoked es)"
      "compact_replaces c \<noteq> []" "s = min_seq (hd (compact_replaces c)) (compact_replaces c)"
      using collect_compacts_summary [of "collect_revoked es" es "[]" "[]" s c]
      by (auto simp: sm_def)
    have "s \<in> set (compact_replaces c)"
      using c(4,5) min_seq_in [of "hd (compact_replaces c)" "compact_replaces c"]
      by (auto simp: hd_in_set)
    with c have "s \<in> set sh" by (auto simp: shs shadowed_seqs_def active_compact_def)
    with that show False by simp
  qed
  with shs show ?thesis
    using assms by (auto simp: eq set_emit_effective summary_event_def)
qed

lemma apply_mutations_use_iff:
  "is_use e \<Longrightarrow> e \<in> set (apply_mutations es) \<longleftrightarrow> e \<in> set es \<and> ev_seq e \<notin> shadowed_seqs es"
  by (subst mem_apply_mutations_event) auto

lemma apply_mutations_result_iff:
  "is_result e \<Longrightarrow> e \<in> set (apply_mutations es) \<longleftrightarrow> e \<in> set es \<and> ev_seq e \<notin> shadowed_seqs es"
  by (subst mem_apply_mutations_event) auto

text \<open>Tool uses and results keep their order: the stream restricted to them is a filter.\<close>

lemma filter_tools_apply_mutations:
  assumes P: "\<And>e. P e \<Longrightarrow> is_use e \<or> is_result e"
  shows "filter P (apply_mutations es) = filter (\<lambda>e. P e \<and> ev_seq e \<notin> shadowed_seqs es) es"
proof -
  define sh sm where "sh = fst (collect_compacts (collect_revoked es) es [] [])"
    and "sm = snd (collect_compacts (collect_revoked es) es [] [])"
  have eq: "apply_mutations es = emit_effective sh sm es"
    by (simp add: apply_mutations_def sh_def sm_def split: prod.splits)
  have shs: "set sh = shadowed_seqs es" by (simp add: sh_def collect_compacts_shadowed_seqs)
  have sm: "map_of sm s = Some c \<Longrightarrow> s \<in> set sh" for s c
    using collect_compacts_summary [of "collect_revoked es" es "[]" "[]" s c]
      min_seq_in [of "hd (compact_replaces c)" "compact_replaces c"]
    by (auto simp: sm_def shs shadowed_seqs_def active_compact_def hd_in_set)
  have notP: "\<not> P (summary_event c)" for c
    using P [of "summary_event c"] by (auto simp: summary_event_def)
  have "filter P (emit_effective sh sm fs) = filter (\<lambda>e. P e \<and> ev_seq e \<notin> set sh) fs" for fs
    by (induction fs) (auto simp: notP sm dest: P split: option.splits)
  with eq shs show ?thesis by simp
qed

section \<open>Idempotence and reversal\<close>

lemma apply_mutations_idem: "apply_mutations (apply_mutations es) = apply_mutations es"
  by (rule apply_mutations_none) (rule apply_mutations_types)

text \<open>A compact event followed by its own revert leaves the stream as it was.\<close>

lemma apply_mutations_compact_revert:
  assumes c: "ev_type c = EventCompact" and r: "ev_type r = EventRevert"
    and rev: "asInt (pget (ev_payload r) ''revokes'') = ev_seq c"
    and fresh: "\<And>e. e \<in> set es \<Longrightarrow> ev_seq e \<noteq> ev_seq c"
  shows "apply_mutations (es @ [c, r]) = apply_mutations es"
proof -
  have rv: "set (collect_revoked (es @ [c, r])) = insert (ev_seq c) (set (collect_revoked es))"
    using c r rev by auto
  have "collect_compacts (collect_revoked (es @ [c, r])) es [] [] =
        collect_compacts (collect_revoked es) es [] []"
    by (rule collect_compacts_cong) (use rv fresh in auto)
  then have "collect_compacts (collect_revoked (es @ [c, r])) (es @ [c, r]) [] [] =
        collect_compacts (collect_revoked es) es [] []"
    using rv c r by (simp add: collect_compacts_append split: prod.splits)
  then show ?thesis
    using c r by (simp add: apply_mutations_def split: prod.splits)
qed

end
