(* ===== verification/Session.thy ===== *)
theory Session
  imports EventLog
begin

text \<open>
  \<^verbatim>\<open>session.go\<close> (sessions and forks) and \<^verbatim>\<open>persistent_log.go\<close> (binding a session to a storage
  adapter, restoring it from one).  The header half of the \<^verbatim>\<open>StorageAdapter\<close> contract extends
  the row half of theory Storage.  The Hooks and Observation of a session are modelled with
  the agent loop; the random part of a fresh session id is an argument.
\<close>

record 'st session =
  ss_id :: string
  ss_log :: "'st slog"
  ss_metadata :: payload
  ss_parent :: string
  ss_root :: string
  ss_spawn :: string
  ss_spawned_by :: string
  ss_chain :: "payload list"

definition NewSession :: "string \<Rightarrow> 'st slog option \<Rightarrow> payload \<Rightarrow> 'st session" where
  "NewSession sid lg metadata =
     \<lparr>ss_id = sid, ss_log = (case lg of None \<Rightarrow> NewLog | Some l \<Rightarrow> l), ss_metadata = metadata,
      ss_parent = [], ss_root = [], ss_spawn = [], ss_spawned_by = [], ss_chain = []\<rparr>"

definition CreateSession :: "string \<Rightarrow> payload \<Rightarrow> 'st session" where
  "CreateSession uuid metadata = NewSession (''ses_'' @ uuid) (Some NewLog) metadata"

section \<open>Fork\<close>

fun restore_until :: "int \<Rightarrow> event list \<Rightarrow> 'st slog \<Rightarrow> 'st slog" where
  "restore_until atSeq [] lg = lg"
| "restore_until atSeq (e # es) lg =
     (if ev_seq e > atSeq then lg else restore_until atSeq es (Restore e lg))"

definition Fork :: "string \<Rightarrow> int \<Rightarrow> 'st session \<Rightarrow> 'st session" where
  "Fork uuid atSeq s =
     (let forkedLog = restore_until atSeq (lg_events (ss_log s)) NewLog;
          metadata = pset ''forked_at_seq'' (VFloat (float_of_int atSeq))
                       (pset ''forked_from'' (VStr (ss_id s)) (ss_metadata s))
      in (NewSession (''ses_'' @ uuid) (Some forkedLog) metadata)
           \<lparr>ss_parent := ss_parent s, ss_root := ss_root s, ss_spawn := ss_spawn s,
            ss_spawned_by := ss_spawned_by s, ss_chain := cloneDelegationChain (ss_chain s)\<rparr>)"

lemma restore_until_events:
  "lg_events (restore_until n es lg) = lg_events lg @ takeWhile (\<lambda>e. ev_seq e \<le> n) es \<and>
   lg_storage (restore_until n es lg) = lg_storage lg \<and>
   lg_err (restore_until n es lg) = lg_err lg"
  by (induction es arbitrary: lg) (auto simp: Restore_def)

lemma takeWhile_dense:
  assumes "dense es"
  shows "takeWhile (\<lambda>e. ev_seq e \<le> n) es = take (nat (n + 1)) es"
proof (rule takeWhile_eq_take_P_nth)
  fix i
  assume "i < nat (n + 1)" "i < length es"
  then show "ev_seq (es ! i) \<le> n" using assms by (simp add: dense_nth)
next
  assume "nat (n + 1) < length es"
  then show "\<not> ev_seq (es ! nat (n + 1)) \<le> n" using assms by (simp add: dense_nth)
qed

lemma Fork_log:
  assumes "dense (lg_events (ss_log s))"
  shows "lg_events (ss_log (Fork uuid n s)) = take (nat (n + 1)) (lg_events (ss_log s)) \<and>
    lg_storage (ss_log (Fork uuid n s)) = None \<and> lg_err (ss_log (Fork uuid n s)) = None"
  using restore_until_events [of n "lg_events (ss_log s)" NewLog] takeWhile_dense [OF assms]
  by (simp add: Fork_def NewSession_def NewLog_def Let_def)

section \<open>The storage adapter of a session\<close>

record 'st adapter =
  ad_load :: "'st \<Rightarrow> storage_error + session_header option"
  ad_save :: "'st \<Rightarrow> session_header \<Rightarrow> (storage_error + unit) \<times> 'st"
  ad_append :: "'st append_fn"
  ad_append_one :: "'st \<Rightarrow> event_draft \<Rightarrow> int option \<Rightarrow> (storage_error + event_row) \<times> 'st"
  ad_since :: "'st \<Rightarrow> int option \<Rightarrow> storage_error + event_row list"

definition header_of_session :: "'st session \<Rightarrow> session_header" where
  "header_of_session s =
     \<lparr>sh_id = ss_id s, sh_metadata = ss_metadata s, sh_parent = ss_parent s, sh_root = ss_root s,
      sh_spawn = ss_spawn s, sh_spawned_by = ss_spawned_by s, sh_chain = ss_chain s\<rparr>"

text \<open>The prefix comparison of \<^verbatim>\<open>BindStorage\<close>.\<close>

fun rows_mismatch :: "event_row list \<Rightarrow> event list \<Rightarrow> string option" where
  "rows_mismatch (r # rs) (e # es) =
     (if rw_seq r \<noteq> ev_seq e \<or> rw_type r \<noteq> ev_type e
      then Some (''BindStorage: storage event at seq '' @ show_int (rw_seq r)
             @ '' does not match the in-memory log (storage '' @ event_type_string (rw_type r)
             @ '', log '' @ event_type_string (ev_type e) @ '')'')
      else rows_mismatch rs es)"
| "rows_mismatch rs es = None"

text \<open>The backfill loop: each missing event is appended behind the fence of its own number.\<close>

fun backfill :: "'st adapter \<Rightarrow> event list \<Rightarrow> 'st \<Rightarrow> (string + unit) \<times> 'st" where
  "backfill ad [] st = (Inr (), st)"
| "backfill ad (e # es) st =
     (case ad_append_one ad st (draft_of_event e) (Some (ev_seq e)) of
        (Inl err, st') \<Rightarrow>
          (Inl (''BindStorage: backfilling event seq '' @ show_int (ev_seq e) @ '': ''
                @ storage_error_message err), st')
      | (Inr row, st') \<Rightarrow> backfill ad es st')"

text \<open>The adapter is a shared object: its state is returned on every path.\<close>

definition BindStorage ::
    "'st adapter \<Rightarrow> 'st option \<Rightarrow> 'st session \<Rightarrow> (string + 'st session) \<times> 'st option" where
  "BindStorage ad adapter s =
     (case adapter of
        None \<Rightarrow> (Inl ''BindStorage requires a non-nil StorageAdapter'', None)
      | Some st0 \<Rightarrow>
        (case ad_save ad st0 (header_of_session s) of
           (Inl err, st1) \<Rightarrow>
             (Inl (''BindStorage: saving session header: '' @ storage_error_message err), Some st1)
         | (Inr u, st1) \<Rightarrow>
           (case ad_since ad st1 None of
              Inl err \<Rightarrow>
                (Inl (''BindStorage: reading existing events: '' @ storage_error_message err), Some st1)
            | Inr rows \<Rightarrow>
                let events = lg_events (ss_log s)
                in if length rows > length events
                   then (Inl (''BindStorage: storage has '' @ show_nat (length rows)
                          @ '' events but the log has '' @ show_nat (length events)
                          @ ''; load the session from storage instead''), Some st1)
                   else case rows_mismatch rows events of
                          Some msg \<Rightarrow> (Inl msg, Some st1)
                        | None \<Rightarrow>
                          (case backfill ad (drop (length rows) events) st1 of
                             (Inl msg, st2) \<Rightarrow> (Inl msg, Some st2)
                           | (Inr u, st2) \<Rightarrow>
                               (Inr (s\<lparr>ss_log := log_BindStorage st2 (ss_log s)\<rparr>), Some st2)))))"

section \<open>LoadSessionFromStorage\<close>

definition event_of_row :: "event_row \<Rightarrow> event" where
  "event_of_row r =
     \<lparr>ev_id = rw_id r, ev_seq = rw_seq r, ev_timestamp = rw_timestamp r, ev_type = rw_type r,
      ev_payload = rw_payload r, ev_hash = rw_hash r\<rparr>"

fun restore_rows :: "nat \<Rightarrow> event_row list \<Rightarrow> 'st slog \<Rightarrow> string + 'st slog" where
  "restore_rows i [] lg = Inr lg"
| "restore_rows i (r # rs) lg =
     (if rw_seq r \<noteq> int i
      then Inl (''invalid event seq in storage: got '' @ show_int (rw_seq r) @ '', want '' @ show_nat i)
      else restore_rows (Suc i) rs (Restore (event_of_row r) lg))"

definition LoadSessionFromStorage :: "'st adapter \<Rightarrow> 'st option \<Rightarrow> string + 'st session" where
  "LoadSessionFromStorage ad adapter =
     (case adapter of
        None \<Rightarrow> Inl ''LoadSessionFromStorage requires a non-nil StorageAdapter''
      | Some st \<Rightarrow>
        (case ad_load ad st of
           Inl err \<Rightarrow> Inl (storage_error_message err)
         | Inr None \<Rightarrow> Inl ''storage adapter has no session header''
         | Inr (Some h) \<Rightarrow>
           (case ad_since ad st None of
              Inl err \<Rightarrow> Inl (storage_error_message err)
            | Inr rows \<Rightarrow>
              (case restore_rows 0 rows NewLog of
                 Inl msg \<Rightarrow> Inl msg
               | Inr lg \<Rightarrow>
                   Inr ((NewSession (sh_id h) (Some (log_BindStorage st lg)) (sh_metadata h))
                     \<lparr>ss_parent := sh_parent h, ss_root := sh_root h, ss_spawn := sh_spawn h,
                      ss_spawned_by := sh_spawned_by h,
                      ss_chain := cloneDelegationChain (sh_chain h)\<rparr>)))))"

section \<open>Restoring what was bound\<close>

text \<open>The header half of the adapter contract.\<close>

locale session_store = storage_adapter "ad_append ad" "ad_since ad" rows_of invar
  for ad :: "'st adapter" and rows_of :: "'st \<Rightarrow> event_row list" and invar :: "'st \<Rightarrow> bool" +
  fixes header_of :: "'st \<Rightarrow> session_header option"
  assumes append_one_batch: "ad_append_one ad = append_one (ad_append ad)"
    and append_header: "invar st \<Longrightarrow> ad_append ad st ds ex = (r, st') \<Longrightarrow> header_of st' = header_of st"
    and save_ok: "invar st \<Longrightarrow> ad_save ad st h = (Inr u, st') \<Longrightarrow>
        invar st' \<and> rows_of st' = rows_of st \<and> header_of st' = Some h"
    and load_header: "invar st \<Longrightarrow> ad_load ad st = Inr ho \<Longrightarrow> ho = header_of st"
begin

lemma append_one_ok:
  assumes "invar st" and "ad_append_one ad st d ex = (Inr row, st')"
  shows "invar st' \<and> header_of st' = header_of st \<and>
    (\<exists>r. rows_of st' = rows_of st @ [r] \<and> row_matches r (row_of_draft (int (length (rows_of st))) d))"
proof -
  obtain rs where ap: "ad_append ad st [d] ex = (Inr rs, st')" "row = hd rs"
    using assms(2) by (auto simp: append_one_batch append_one_def split: prod.splits sum.splits)
  have "length rs = 1" using append_length [OF assms(1) ap(1)] by simp
  then obtain r where "rs = [r]" by (cases rs) auto
  with append_ok [OF assms(1) ap(1)] append_header [OF assms(1) ap(1)] show ?thesis by simp
qed

lemma append_one_seq:
  assumes "invar st" and "ad_append_one ad st d (Some n) = (Inr row, st')"
  shows "n = int (length (rows_of st))"
proof -
  obtain rs where "ad_append ad st [d] (Some n) = (Inr rs, st')"
    using assms(2) by (auto simp: append_one_batch append_one_def split: prod.splits sum.splits)
  then show ?thesis by (rule append_fenced [OF assms(1)])
qed

lemma row_of_draft_event:
  "row_of_draft (ev_seq e) (draft_of_event e) = (row_of_event e)\<lparr>rw_hash := []\<rparr>"
  by (simp add: row_of_draft_def draft_of_event_def row_of_event_def)

lemma backfill_ok:
  "invar st \<Longrightarrow> backfill ad es st = (Inr u, st') \<Longrightarrow>
   invar st' \<and> header_of st' = header_of st \<and>
   (\<exists>rs. rows_of st' = rows_of st @ rs \<and> list_all2 (\<lambda>e r. row_matches (row_of_event e) r) es rs)"
proof (induction es arbitrary: st)
  case Nil
  then show ?case by simp
next
  case (Cons e es)
  then obtain row st1 where
    one: "ad_append_one ad st (draft_of_event e) (Some (ev_seq e)) = (Inr row, st1)"
    and rest: "backfill ad es st1 = (Inr u, st')"
    by (auto split: prod.splits sum.splits)
  have seq: "ev_seq e = int (length (rows_of st))" by (rule append_one_seq [OF Cons.prems(1) one])
  from append_one_ok [OF Cons.prems(1) one] obtain r where
    st1: "invar st1" "header_of st1 = header_of st" "rows_of st1 = rows_of st @ [r]"
    and r: "row_matches r (row_of_draft (int (length (rows_of st))) (draft_of_event e))" by blast
  have "row_matches (row_of_event e) r"
    using r unfolding seq [symmetric] row_of_draft_event by (simp add: row_matches_def)
  with Cons.IH [OF st1(1) rest] st1 show ?case by auto
qed

lemma restore_rows_ok:
  "restore_rows i rs lg = Inr lg' \<Longrightarrow>
   lg_events lg' = lg_events lg @ map event_of_row rs \<and> lg_err lg' = lg_err lg \<and>
   (\<forall>j < length rs. rw_seq (rs ! j) = int (i + j))"
proof (induction rs arbitrary: i lg)
  case Nil
  then show ?case by simp
next
  case (Cons r rs)
  then have r: "rw_seq r = int i" and a: "restore_rows (Suc i) rs (Restore (event_of_row r) lg) = Inr lg'"
    by (auto split: if_splits)
  from Cons.IH [OF a] r show ?case by (auto simp: Restore_def nth_Cons' less_Suc_eq_0_disj)
qed

text \<open>
  A session restored from an adapter has its header and exactly its rows; its log is dense,
  unlatched and in step with the adapter it is bound to.
\<close>

lemma LoadSessionFromStorage_ok:
  assumes "invar st" and "LoadSessionFromStorage ad (Some st) = Inr s"
  shows "header_of st = Some (header_of_session s) \<and> synced rows_of invar (ss_log s) \<and>
    lg_events (ss_log s) = map event_of_row (rows_of st) \<and> dense (lg_events (ss_log s)) \<and>
    lg_err (ss_log s) = None"
proof -
  obtain h rows lg where l: "ad_load ad st = Inr (Some h)" "ad_since ad st None = Inr rows"
    "restore_rows 0 rows NewLog = Inr lg"
    and s: "s = (NewSession (sh_id h) (Some (log_BindStorage st lg)) (sh_metadata h))
       \<lparr>ss_parent := sh_parent h, ss_root := sh_root h, ss_spawn := sh_spawn h,
        ss_spawned_by := sh_spawned_by h, ss_chain := cloneDelegationChain (sh_chain h)\<rparr>"
    using assms(2) by (auto simp: LoadSessionFromStorage_def split: sum.splits option.splits)
  have rows: "rows = rows_of st" by (rule since_all [OF assms(1) l(2)])
  note lg = restore_rows_ok [OF l(3)]
  have rt: "row_of_event (event_of_row r) = r" for r
    by (simp add: row_of_event_def event_of_row_def)
  have "list_all2 (\<lambda>e r. row_matches (row_of_event e) r) (map event_of_row rows) rows"
    by (simp add: list_all2_conv_all_nth rt)
  with lg rows assms(1) have "synced rows_of invar (log_BindStorage st lg)"
    by (simp add: synced_def log_BindStorage_def NewLog_def)
  moreover have "header_of st = Some h" using load_header [OF assms(1) l(1)] by simp
  ultimately show ?thesis using lg rows s
    by (auto simp: NewSession_def header_of_session_def log_BindStorage_def NewLog_def dense_nth
        event_of_row_def)
qed

lemma rows_mismatch_None:
  "rows_mismatch rs es = None \<Longrightarrow> length rs \<le> length es \<Longrightarrow>
   list_all2 (\<lambda>r e. rw_seq r = ev_seq e \<and> rw_type r = ev_type e) rs (take (length rs) es)"
  by (induction rs es rule: rows_mismatch.induct) (auto split: if_splits)

text \<open>
  Binding succeeds only when the adapter's rows agree with a prefix of the log in number and
  type; afterwards the adapter holds the header and, beyond that prefix, the log's events.
\<close>

lemma BindStorage_ok:
  assumes "invar st" and "BindStorage ad (Some st) s = (Inr s', Some st')"
  shows "invar st' \<and> header_of st' = Some (header_of_session s) \<and>
    lg_storage (ss_log s') = Some st' \<and> lg_events (ss_log s') = lg_events (ss_log s) \<and>
    (\<exists>new. rows_of st' = rows_of st @ new \<and>
       list_all2 (\<lambda>e r. row_matches (row_of_event e) r)
         (drop (length (rows_of st)) (lg_events (ss_log s))) new \<and>
       list_all2 (\<lambda>r e. rw_seq r = ev_seq e \<and> rw_type r = ev_type e) (rows_of st)
         (take (length (rows_of st)) (lg_events (ss_log s))))"
proof -
  obtain u st1 rows where b: "ad_save ad st (header_of_session s) = (Inr u, st1)"
    "ad_since ad st1 None = Inr rows" "length rows \<le> length (lg_events (ss_log s))"
    "rows_mismatch rows (lg_events (ss_log s)) = None"
    "backfill ad (drop (length rows) (lg_events (ss_log s))) st1 = (Inr (), st')"
    and s': "s' = s\<lparr>ss_log := log_BindStorage st' (ss_log s)\<rparr>"
    using assms(2)
    by (auto simp: BindStorage_def Let_def split: sum.splits option.splits prod.splits if_splits)
  note sv = save_ok [OF assms(1) b(1)]
  then have inv1: "invar st1" by simp
  have rows: "rows = rows_of st" using since_all [OF inv1 b(2)] sv by simp
  from backfill_ok [OF inv1 b(5)] rows_mismatch_None [OF b(4,3)] sv s' rows
  show ?thesis by (auto simp: log_BindStorage_def)
qed

text \<open>Binding a fresh adapter puts the session in step with it.\<close>

lemma BindStorage_fresh_synced:
  assumes "invar st" and "rows_of st = []" and "BindStorage ad (Some st) s = (Inr s', Some st')"
  shows "synced rows_of invar (ss_log s')"
  using BindStorage_ok [OF assms(1,3)] assms(2) by (auto simp: synced_def)

lemma row_matches_event:
  "row_matches (row_of_event e) r \<Longrightarrow> e\<lparr>ev_hash := []\<rparr> = (event_of_row r)\<lparr>ev_hash := []\<rparr>"
  by (cases e; cases r) (simp add: row_matches_def row_of_event_def event_of_row_def)

text \<open>So a session that was bound to a fresh adapter is restored from it, whatever its events.\<close>

lemma Bind_Load_roundtrip:
  assumes "invar st" and "rows_of st = []" and "BindStorage ad (Some st) s = (Inr s', Some st')"
    and "LoadSessionFromStorage ad (Some st') = Inr s2"
  shows "header_of_session s2 = header_of_session s \<and>
    map (\<lambda>e. e\<lparr>ev_hash := []\<rparr>) (lg_events (ss_log s2)) =
      map (\<lambda>e. e\<lparr>ev_hash := []\<rparr>) (lg_events (ss_log s))"
proof -
  note b = BindStorage_ok [OF assms(1,3)]
  then have inv': "invar st'" by simp
  note l = LoadSessionFromStorage_ok [OF inv' assms(4)]
  have "list_all2 (\<lambda>e r. row_matches (row_of_event e) r) (lg_events (ss_log s)) (rows_of st')"
    using b assms(2) by auto
  then have "map (\<lambda>e. e\<lparr>ev_hash := []\<rparr>) (lg_events (ss_log s)) =
      map (\<lambda>r. (event_of_row r)\<lparr>ev_hash := []\<rparr>) (rows_of st')"
    by (induction rule: list_all2_induct) (auto simp: row_matches_event)
  with l b show ?thesis by (simp add: o_def)
qed

end

section \<open>The memory adapter\<close>

definition memory_adapter :: "mem_adapter adapter" where
  "memory_adapter =
     \<lparr>ad_load = mem_LoadSession, ad_save = mem_SaveHeader, ad_append = mem_AppendEvents,
      ad_append_one = mem_AppendEvent, ad_since = mem_EventsSince\<rparr>"

lemma memory_adapter_simps [simp]:
  "ad_load memory_adapter = mem_LoadSession" "ad_save memory_adapter = mem_SaveHeader"
  "ad_append memory_adapter = mem_AppendEvents" "ad_append_one memory_adapter = mem_AppendEvent"
  "ad_since memory_adapter = mem_EventsSince"
  by (simp_all add: memory_adapter_def)

lemma map_option_cloneSessionHeader: "map_option cloneSessionHeader h = h"
  by (cases h) simp_all

interpretation memory_store: session_store memory_adapter ma_rows mem_inv ma_header
proof (unfold session_store_def memory_adapter_simps, rule conjI)
  show "storage_adapter mem_AppendEvents mem_EventsSince ma_rows mem_inv"
    by (rule memory.storage_adapter_axioms)
  show "session_store_axioms memory_adapter ma_rows mem_inv ma_header"
    by unfold_locales
      (auto simp: mem_AppendEvent_def mem_AppendEvents_def mem_SaveHeader_def mem_LoadSession_def
        mem_inv_def Let_def map_option_cloneSessionHeader split: option.splits if_splits)
qed

end
