(* ===== verification/Integrity.thy ===== *)
theory Integrity
  imports Mutations Session
begin

text \<open>
  \<^verbatim>\<open>integrity.go\<close>: referential integrity of tool uses and tool results, and the gate
  \<^verbatim>\<open>PrepareProviderCall\<close> every provider call passes.  \<open>well_referenced\<close> and \<open>all_resolved\<close>
  say what the analysis is for; the analysis is shown to find a violation exactly when they
  fail.
\<close>

datatype integrity_domain = IntegrityDomainDurableLog | IntegrityDomainEffectiveTranscript

fun domain_string :: "integrity_domain \<Rightarrow> string" where
  "domain_string IntegrityDomainDurableLog = ''durable_log''"
| "domain_string IntegrityDomainEffectiveTranscript = ''effective_transcript''"

datatype integrity_code =
    IntegrityMissingToolUseID
  | IntegrityDuplicateToolUseID
  | IntegrityMissingToolResultID
  | IntegrityOrphanToolResult
  | IntegrityToolResultBeforeUse
  | IntegrityDuplicateToolResult
  | IntegrityUnresolvedToolUse
  | IntegrityResolvedApprovalOpen
  | IntegrityPreparedTranscriptStale

fun code_string :: "integrity_code \<Rightarrow> string" where
  "code_string IntegrityMissingToolUseID = ''missing_tool_use_id''"
| "code_string IntegrityDuplicateToolUseID = ''duplicate_tool_use_id''"
| "code_string IntegrityMissingToolResultID = ''missing_tool_result_reference''"
| "code_string IntegrityOrphanToolResult = ''orphan_tool_result''"
| "code_string IntegrityToolResultBeforeUse = ''tool_result_before_tool_use''"
| "code_string IntegrityDuplicateToolResult = ''duplicate_tool_result''"
| "code_string IntegrityUnresolvedToolUse = ''unresolved_tool_use''"
| "code_string IntegrityResolvedApprovalOpen = ''resolved_approval_missing_result''"
| "code_string IntegrityPreparedTranscriptStale = ''prepared_transcript_stale''"

record violation =
  vi_domain :: integrity_domain
  vi_code :: integrity_code
  vi_seq :: int
  vi_use_id :: string
  vi_message :: string

text \<open>\<^verbatim>\<open>TranscriptIntegrityError.Error\<close>.\<close>

definition violation_part :: "violation \<Rightarrow> string" where
  "violation_part v =
     domain_string (vi_domain v) @ ''/'' @ code_string (vi_code v) @ '': '' @ vi_message v"

definition integrity_message :: "violation list \<Rightarrow> string" where
  "integrity_message vs =
     (if vs = [] then ''transcript integrity violation''
      else ''transcript integrity violation: '' @ str_join (map violation_part vs) ''; '')"

section \<open>analyzeToolReferences\<close>

text \<open>First loop: the tool uses by id.\<close>

fun collect_uses ::
    "integrity_domain \<Rightarrow> event list \<Rightarrow> (string \<times> event) list \<Rightarrow> violation list \<Rightarrow>
     (string \<times> event) list \<times> violation list"
where
  "collect_uses dn [] uses vs = (uses, vs)"
| "collect_uses dn (e # es) uses vs =
     (if ev_type e \<noteq> EventToolUse then collect_uses dn es uses vs
      else
        let eid = use_id e
        in if eid = []
           then collect_uses dn es uses
                  (vs @ [\<lparr>vi_domain = dn, vi_code = IntegrityMissingToolUseID, vi_seq = ev_seq e,
                          vi_use_id = [], vi_message = ''tool_use has no id''\<rparr>])
           else case map_of uses eid of
                  Some original \<Rightarrow>
                    collect_uses dn es uses
                      (vs @ [\<lparr>vi_domain = dn, vi_code = IntegrityDuplicateToolUseID,
                              vi_seq = ev_seq e, vi_use_id = eid,
                              vi_message = ''tool_use id '' @ go_quote eid @ '' duplicates seq ''
                                @ show_int (ev_seq original)\<rparr>])
                | None \<Rightarrow> collect_uses dn es (AList.update eid e uses) vs)"

text \<open>Second loop: the tool results against the uses and against each other.\<close>

fun check_results ::
    "integrity_domain \<Rightarrow> (string \<times> event) list \<Rightarrow> event list \<Rightarrow> (string \<times> event) list \<Rightarrow>
     violation list \<Rightarrow> violation list"
where
  "check_results dn uses [] results vs = vs"
| "check_results dn uses (e # es) results vs =
     (if ev_type e \<noteq> EventToolResult then check_results dn uses es results vs
      else
        let eid = result_id e
        in if eid = []
           then check_results dn uses es results
                  (vs @ [\<lparr>vi_domain = dn, vi_code = IntegrityMissingToolResultID, vi_seq = ev_seq e,
                          vi_use_id = [], vi_message = ''tool_result has no tool_use_id''\<rparr>])
           else
             let vs1 =
               (case map_of uses eid of
                  None \<Rightarrow>
                    vs @ [\<lparr>vi_domain = dn, vi_code = IntegrityOrphanToolResult, vi_seq = ev_seq e,
                           vi_use_id = eid,
                           vi_message = ''tool_result references unknown tool_use id '' @ go_quote eid\<rparr>]
                | Some u \<Rightarrow>
                    if ev_seq e \<le> ev_seq u
                    then vs @ [\<lparr>vi_domain = dn, vi_code = IntegrityToolResultBeforeUse,
                                vi_seq = ev_seq e, vi_use_id = eid,
                                vi_message = ''tool_result for '' @ go_quote eid
                                  @ '' occurs before its tool_use''\<rparr>]
                    else vs)
             in case map_of results eid of
                  Some original \<Rightarrow>
                    check_results dn uses es results
                      (vs1 @ [\<lparr>vi_domain = dn, vi_code = IntegrityDuplicateToolResult,
                               vi_seq = ev_seq e, vi_use_id = eid,
                               vi_message = ''tool_result for '' @ go_quote eid @ '' duplicates seq ''
                                 @ show_int (ev_seq original)\<rparr>])
                | None \<Rightarrow> check_results dn uses es (AList.update eid e results) vs1)"

definition analyzeToolReferences :: "event list \<Rightarrow> integrity_domain \<Rightarrow> violation list" where
  "analyzeToolReferences es dn =
     (let (uses, vs) = collect_uses dn es [] [] in check_results dn uses es [] vs)"

definition AnalyzeDurableLog :: "'st slog option \<Rightarrow> violation list" where
  "AnalyzeDurableLog lo =
     (case lo of
        None \<Rightarrow> [\<lparr>vi_domain = IntegrityDomainDurableLog, vi_code = IntegrityUnresolvedToolUse,
                  vi_seq = -1, vi_use_id = [], vi_message = ''log is nil''\<rparr>]
      | Some lg \<Rightarrow> analyzeToolReferences (lg_events lg) IntegrityDomainDurableLog)"

section \<open>unresolvedToolViolations\<close>

fun fulfilled_ids :: "event list \<Rightarrow> string list" where
  "fulfilled_ids [] = []"
| "fulfilled_ids (e # es) =
     (if ev_type e = EventToolResult then result_id e # fulfilled_ids es else fulfilled_ids es)"

fun unresolved_loop :: "string list \<Rightarrow> event list \<Rightarrow> violation list" where
  "unresolved_loop fulfilled [] = []"
| "unresolved_loop fulfilled (e # es) =
     (if ev_type e \<noteq> EventToolUse then unresolved_loop fulfilled es
      else if use_id e \<noteq> [] \<and> use_id e \<notin> set fulfilled
      then \<lparr>vi_domain = IntegrityDomainEffectiveTranscript, vi_code = IntegrityUnresolvedToolUse,
            vi_seq = ev_seq e, vi_use_id = use_id e,
            vi_message = ''tool_use '' @ go_quote (use_id e) @ '' has no provider-visible tool_result''\<rparr>
           # unresolved_loop fulfilled es
      else unresolved_loop fulfilled es)"

definition unresolvedToolViolations :: "event list \<Rightarrow> violation list" where
  "unresolvedToolViolations es = unresolved_loop (fulfilled_ids es) es"

section \<open>What the analysis decides\<close>

definition uses_of :: "event list \<Rightarrow> event list" where
  "uses_of es = filter is_use es"

definition results_of :: "event list \<Rightarrow> event list" where
  "results_of es = filter is_result es"

text \<open>Ids are present and unique, and every result follows its use.\<close>

definition well_referenced :: "event list \<Rightarrow> bool" where
  "well_referenced es \<longleftrightarrow>
     (\<forall>u \<in> set (uses_of es). use_id u \<noteq> []) \<and> distinct (map use_id (uses_of es)) \<and>
     (\<forall>r \<in> set (results_of es). result_id r \<noteq> [] \<and>
        (\<exists>u \<in> set (uses_of es). use_id u = result_id r \<and> ev_seq u < ev_seq r)) \<and>
     distinct (map result_id (results_of es))"

definition all_resolved :: "event list \<Rightarrow> bool" where
  "all_resolved es \<longleftrightarrow>
     (\<forall>u \<in> set (uses_of es). use_id u \<noteq> [] \<longrightarrow>
        (\<exists>r \<in> set (results_of es). result_id r = use_id u))"

text \<open>Both conditions depend on the tool uses and results only.\<close>

lemma uses_results_of_append [simp]:
  "uses_of (es @ fs) = uses_of es @ uses_of fs"
  "results_of (es @ fs) = results_of es @ results_of fs"
  by (simp_all add: uses_of_def results_of_def)

lemma uses_results_of_simps [simp]:
  "uses_of [] = []" "results_of [] = []"
  "uses_of (e # es) = (if is_use e then e # uses_of es else uses_of es)"
  "results_of (e # es) = (if is_result e then e # results_of es else results_of es)"
  by (simp_all add: uses_of_def results_of_def)

lemma set_uses_of: "set (uses_of es) = {e \<in> set es. is_use e}"
  by (auto simp: uses_of_def)

lemma set_results_of: "set (results_of es) = {e \<in> set es. is_result e}"
  by (auto simp: results_of_def)

lemma well_referenced_cong:
  "uses_of es = uses_of fs \<Longrightarrow> results_of es = results_of fs \<Longrightarrow>
   well_referenced es = well_referenced fs"
  by (simp add: well_referenced_def)

lemma all_resolved_cong:
  "uses_of es = uses_of fs \<Longrightarrow> results_of es = results_of fs \<Longrightarrow>
   all_resolved es = all_resolved fs"
  by (simp add: all_resolved_def)

lemma well_referenced_Nil [simp]: "well_referenced []"
  by (simp add: well_referenced_def)

lemma set_fulfilled_ids: "set (fulfilled_ids es) = result_id ` set (results_of es)"
  by (induction es) auto

lemma unresolved_loop_Nil_iff:
  "unresolved_loop ful es = [] \<longleftrightarrow> (\<forall>u \<in> set (uses_of es). use_id u \<noteq> [] \<longrightarrow> use_id u \<in> set ful)"
  by (induction es) auto

lemma unresolvedToolViolations_Nil_iff: "unresolvedToolViolations es = [] \<longleftrightarrow> all_resolved es"
  by (force simp: unresolvedToolViolations_def unresolved_loop_Nil_iff set_fulfilled_ids
      all_resolved_def)

text \<open>The first loop: no violation is added exactly when the ids are present and fresh.\<close>

definition uses_fine :: "(string \<times> event) list \<Rightarrow> event list \<Rightarrow> bool" where
  "uses_fine uses es \<longleftrightarrow>
     (\<forall>u \<in> set (uses_of es). use_id u \<noteq> [] \<and> map_of uses (use_id u) = None) \<and>
     distinct (map use_id (uses_of es))"

lemma uses_fine_Nil [simp]: "uses_fine uses []"
  by (simp add: uses_fine_def)

lemma uses_fine_Cons:
  "uses_fine uses (e # es) \<longleftrightarrow>
     (if is_use e
      then use_id e \<noteq> [] \<and> map_of uses (use_id e) = None \<and>
           uses_fine (AList.update (use_id e) e uses) es
      else uses_fine uses es)"
  by (auto simp: uses_fine_def map_of_update_iff image_iff split: if_splits)

lemma collect_uses_mono: "\<exists>ws. snd (collect_uses dn es uses vs) = vs @ ws"
proof (induction es arbitrary: uses vs)
  case Nil
  then show ?case by simp
next
  case (Cons e es)
  have "\<exists>ws. snd (collect_uses dn es uses (vs @ xs)) = vs @ ws" for uses xs
    using Cons [of uses "vs @ xs"] by auto
  with Cons show ?case by (auto simp: Let_def split: option.splits)
qed

lemma collect_uses_grow [simp]: "snd (collect_uses dn es uses (vs @ [v])) \<noteq> vs"
  using collect_uses_mono [of dn es uses "vs @ [v]"] by auto

lemma collect_uses_same_iff: "snd (collect_uses dn es uses vs) = vs \<longleftrightarrow> uses_fine uses es"
proof (induction es arbitrary: uses vs)
  case Nil
  then show ?case by simp
next
  case (Cons e es)
  show ?case
  proof (cases "is_use e \<and> (use_id e = [] \<or> map_of uses (use_id e) \<noteq> None)")
    case True
    then have "snd (collect_uses dn (e # es) uses vs) \<noteq> vs"
      by (cases "use_id e = []") (auto simp: Let_def)
    moreover have "\<not> uses_fine uses (e # es)" using True by (auto simp: uses_fine_Cons)
    ultimately show ?thesis by simp
  next
    case False
    then show ?thesis by (cases "is_use e") (auto simp: Cons uses_fine_Cons Let_def)
  qed
qed

lemma collect_uses_map:
  "uses_fine uses es \<Longrightarrow>
   map_of (fst (collect_uses dn es uses vs)) k =
     (case find (\<lambda>u. use_id u = k) (uses_of es) of Some u \<Rightarrow> Some u | None \<Rightarrow> map_of uses k)"
proof (induction es arbitrary: uses vs)
  case Nil
  then show ?case by simp
next
  case (Cons e es)
  show ?case
  proof (cases "is_use e")
    case False
    with Cons show ?thesis by (simp add: uses_fine_Cons)
  next
    case True
    with Cons.prems have f: "use_id e \<noteq> []" "map_of uses (use_id e) = None"
      "uses_fine (AList.update (use_id e) e uses) es" by (auto simp: uses_fine_Cons)
    have "find (\<lambda>u. use_id u = use_id e) (uses_of es) = None"
      using Cons.prems True by (auto simp: uses_fine_def find_None_iff image_iff)
    with True f Cons.IH [OF f(3)] show ?thesis
      by (auto simp: map_of_update_iff split: option.splits)
  qed
qed

text \<open>The second loop, in the same way.\<close>

definition result_fine :: "(string \<times> event) list \<Rightarrow> event \<Rightarrow> bool" where
  "result_fine uses r \<longleftrightarrow>
     result_id r \<noteq> [] \<and> (\<exists>u. map_of uses (result_id r) = Some u \<and> ev_seq u < ev_seq r)"

definition results_fine :: "(string \<times> event) list \<Rightarrow> (string \<times> event) list \<Rightarrow> event list \<Rightarrow> bool" where
  "results_fine uses results es \<longleftrightarrow>
     (\<forall>r \<in> set (results_of es). result_fine uses r \<and> map_of results (result_id r) = None) \<and>
     distinct (map result_id (results_of es))"

lemma results_fine_Cons:
  "results_fine uses results (e # es) \<longleftrightarrow>
     (if is_result e
      then result_fine uses e \<and> map_of results (result_id e) = None \<and>
           results_fine uses (AList.update (result_id e) e results) es
      else results_fine uses results es)"
  by (auto simp: results_fine_def map_of_update_iff image_iff split: if_splits)

lemma check_results_mono: "\<exists>ws. check_results dn uses es results vs = vs @ ws"
proof (induction es arbitrary: results vs)
  case Nil
  then show ?case by simp
next
  case (Cons e es)
  have "\<exists>ws. check_results dn uses es results (vs @ xs) = vs @ ws" for results xs
    using Cons [of results "vs @ xs"] by auto
  with Cons show ?case by (auto simp: Let_def split: option.splits)
qed

lemma check_results_grow [simp]:
  "check_results dn uses es results (vs @ [v]) \<noteq> vs"
  "check_results dn uses es results (vs @ [v, w]) \<noteq> vs"
  using check_results_mono [of dn uses es results "vs @ [v]"]
    check_results_mono [of dn uses es results "vs @ [v, w]"] by auto

lemma check_results_same_iff:
  "check_results dn uses es results vs = vs \<longleftrightarrow> results_fine uses results es"
proof (induction es arbitrary: results vs)
  case Nil
  then show ?case by (simp add: results_fine_def)
next
  case (Cons e es)
  show ?case
  proof (cases "is_result e")
    case False
    then show ?thesis by (simp add: Cons results_fine_Cons)
  next
    case r: True
    show ?thesis
    proof (cases "result_fine uses e \<and> map_of results (result_id e) = None")
      case True
      with r show ?thesis by (auto simp: Cons results_fine_Cons Let_def result_fine_def)
    next
      case False
      then have "check_results dn uses (e # es) results vs \<noteq> vs"
        using r by (auto simp: Let_def result_fine_def split: option.splits)
      with r False show ?thesis by (auto simp: results_fine_Cons)
    qed
  qed
qed

lemma analyzeToolReferences_Nil_iff: "analyzeToolReferences es dn = [] \<longleftrightarrow> well_referenced es"
proof -
  obtain uses vs where c: "collect_uses dn es [] [] = (uses, vs)" by fastforce
  obtain ws where w: "check_results dn uses es [] vs = vs @ ws" using check_results_mono by blast
  have "analyzeToolReferences es dn = [] \<longleftrightarrow> vs = [] \<and> check_results dn uses es [] [] = []"
    using w c by (auto simp: analyzeToolReferences_def)
  also have "vs = [] \<longleftrightarrow> uses_fine [] es"
    using collect_uses_same_iff [of dn es "[]" "[]"] c by simp
  also have "check_results dn uses es [] [] = [] \<longleftrightarrow> results_fine uses [] es"
    by (rule check_results_same_iff)
  also have "uses_fine [] es \<and> results_fine uses [] es \<longleftrightarrow> well_referenced es"
  proof -
    have "result_fine uses r \<longleftrightarrow> result_id r \<noteq> [] \<and>
        (\<exists>u \<in> set (uses_of es). use_id u = result_id r \<and> ev_seq u < ev_seq r)"
      if f: "uses_fine [] es" for r
    proof -
      have m: "map_of uses k = find (\<lambda>u. use_id u = k) (uses_of es)" for k
        using collect_uses_map [OF f, of dn "[]" k] c by (auto split: option.splits)
      have d: "distinct (map use_id (uses_of es))" using f by (simp add: uses_fine_def)
      show ?thesis by (auto simp: result_fine_def m find_key_iff [OF d])
    qed
    then show ?thesis by (auto simp: uses_fine_def results_fine_def well_referenced_def)
  qed
  finally show ?thesis .
qed

section \<open>PrepareProviderCall\<close>

text \<open>
  The rows that are hashed.  The argument \<open>dg\<close> of the definitions below stands for
  \<^verbatim>\<open>json.Marshal\<close>, \<^verbatim>\<open>CanonicalizeJCSV1JSON\<close> and hex SHA-256 of those rows.
\<close>

definition transcript_row :: "event \<Rightarrow> val" where
  "transcript_row e =
     VMap [(''seq'', VInt (ev_seq e)), (''id'', VStr (ev_id e)),
           (''type'', VStr (event_type_string (ev_type e))), (''payload'', VMap (ev_payload e))]"

definition effectiveTranscriptHash :: "(val \<Rightarrow> string + string) \<Rightarrow> event list \<Rightarrow> string + string" where
  "effectiveTranscriptHash dg es = dg (VList (map transcript_row es))"

record prepared_transcript =
  pt_sessionID :: string
  pt_nextSeq :: int
  pt_effectiveHash :: string
  pt_log :: "event list option"

definition zero_prepared :: prepared_transcript where
  "zero_prepared = \<lparr>pt_sessionID = [], pt_nextSeq = 0, pt_effectiveHash = [], pt_log = None\<rparr>"

datatype prepare_error =
    TranscriptIntegrity "violation list"
  | HashFailure string

fun prepare_error_message :: "prepare_error \<Rightarrow> string" where
  "prepare_error_message (TranscriptIntegrity vs) = integrity_message vs"
| "prepare_error_message (HashFailure m) = m"

definition nil_session_violation :: violation where
  "nil_session_violation =
     \<lparr>vi_domain = IntegrityDomainDurableLog, vi_code = IntegrityUnresolvedToolUse, vi_seq = -1,
      vi_use_id = [], vi_message = ''session or log is nil''\<rparr>"

definition PrepareProviderCall ::
    "(val \<Rightarrow> string + string) \<Rightarrow> 'st session option \<Rightarrow> prepare_error + prepared_transcript" where
  "PrepareProviderCall dg so =
     (case so of
        None \<Rightarrow> Inl (TranscriptIntegrity [nil_session_violation])
      | Some s \<Rightarrow>
          let lg = ss_log s;
              effective = ApplyMutations lg;
              violations = AnalyzeDurableLog (Some lg)
                @ analyzeToolReferences effective IntegrityDomainEffectiveTranscript
                @ unresolvedToolViolations effective
          in if violations \<noteq> [] then Inl (TranscriptIntegrity violations)
             else case effectiveTranscriptHash dg effective of
                    Inl err \<Rightarrow> Inl (HashFailure err)
                  | Inr hash \<Rightarrow>
                      Inr \<lparr>pt_sessionID = ss_id s, pt_nextSeq = int (length (lg_events lg)),
                           pt_effectiveHash = hash,
                           pt_log = Some (map (\<lambda>e. e\<lparr>ev_payload := clonePayload (ev_payload e)\<rparr>)
                                            effective)\<rparr>)"

text \<open>\<^verbatim>\<open>PreparedTranscript.Project\<close>: a projection reads the prepared log's events.\<close>

definition pt_Project ::
    "(event list \<Rightarrow> 'e + payload) \<Rightarrow> prepared_transcript \<Rightarrow> (prepare_error + 'e) + payload" where
  "pt_Project project p =
     (case pt_log p of
        None \<Rightarrow> Inl (Inl (TranscriptIntegrity
            [\<lparr>vi_domain = IntegrityDomainEffectiveTranscript, vi_code = IntegrityUnresolvedToolUse,
              vi_seq = -1, vi_use_id = [],
              vi_message = ''PreparedTranscript was not created by PrepareProviderCall''\<rparr>]))
      | Some es \<Rightarrow> (case project es of Inl err \<Rightarrow> Inl (Inr err) | Inr req \<Rightarrow> Inr req))"

definition pt_current :: "(val \<Rightarrow> string + string) \<Rightarrow> prepared_transcript \<Rightarrow> 'st session option \<Rightarrow> bool" where
  "pt_current dg p so =
     (case so of
        None \<Rightarrow> False
      | Some s \<Rightarrow>
          if ss_id s \<noteq> pt_sessionID p then False
          else if int (length (lg_events (ss_log s))) \<noteq> pt_nextSeq p then False
          else case effectiveTranscriptHash dg (ApplyMutations (ss_log s)) of
                 Inl err \<Rightarrow> False
               | Inr hash \<Rightarrow> hash = pt_effectiveHash p)"

text \<open>A transcript is ready for a provider when both streams are referentially sound and every
  visible tool use has its result.\<close>

definition provider_ready :: "event list \<Rightarrow> bool" where
  "provider_ready es \<longleftrightarrow>
     well_referenced es \<and> well_referenced (apply_mutations es) \<and> all_resolved (apply_mutations es)"

lemma clone_payload_event [simp]: "e\<lparr>ev_payload := clonePayload (ev_payload e)\<rparr> = e"
  by simp

lemma PrepareProviderCall_Inr_iff:
  "PrepareProviderCall dg (Some s) = Inr p \<longleftrightarrow>
     provider_ready (lg_events (ss_log s)) \<and>
     effectiveTranscriptHash dg (apply_mutations (lg_events (ss_log s))) = Inr (pt_effectiveHash p) \<and>
     pt_sessionID p = ss_id s \<and> pt_nextSeq p = int (length (lg_events (ss_log s))) \<and>
     pt_log p = Some (apply_mutations (lg_events (ss_log s)))"
  by (cases p)
    (auto simp: PrepareProviderCall_def Let_def provider_ready_def ApplyMutations_def
      AnalyzeDurableLog_def analyzeToolReferences_Nil_iff unresolvedToolViolations_Nil_iff
      map_idI split: sum.splits)

lemma PrepareProviderCall_Inl_violations:
  assumes "\<not> provider_ready (lg_events (ss_log s))"
  shows "\<exists>vs. vs \<noteq> [] \<and> PrepareProviderCall dg (Some s) = Inl (TranscriptIntegrity vs)"
  using assms
  by (auto simp: PrepareProviderCall_def Let_def provider_ready_def ApplyMutations_def
      AnalyzeDurableLog_def analyzeToolReferences_Nil_iff unresolvedToolViolations_Nil_iff)

lemma prepared_is_current:
  "PrepareProviderCall dg (Some s) = Inr p \<Longrightarrow> pt_current dg p (Some s)"
  by (simp add: PrepareProviderCall_Inr_iff pt_current_def ApplyMutations_def)

text \<open>Any event appended after the preparation makes the prepared transcript stale.\<close>

lemma prepared_stale:
  assumes "PrepareProviderCall dg (Some s) = Inr p"
    and "length (lg_events (ss_log s')) \<noteq> length (lg_events (ss_log s))"
  shows "\<not> pt_current dg p (Some s')"
  using assms by (simp add: PrepareProviderCall_Inr_iff pt_current_def)

text \<open>Applying the mutations to the prepared events again changes nothing, so a projection that
  does so reads exactly the validated stream.\<close>

lemma prepared_log_stable:
  assumes "PrepareProviderCall dg (Some s) = Inr p" and "pt_log p = Some es"
  shows "apply_mutations es = es \<and> well_referenced es \<and> all_resolved es"
  using assms by (auto simp: PrepareProviderCall_Inr_iff provider_ready_def apply_mutations_idem)

section \<open>How the conditions behave under appends\<close>

lemma well_referenced_append_other:
  "\<not> is_use e \<Longrightarrow> \<not> is_result e \<Longrightarrow> well_referenced (es @ [e]) = well_referenced es"
  by (rule well_referenced_cong) simp_all

lemma well_referenced_append_use:
  assumes "well_referenced es" and "is_use e" and "use_id e \<noteq> []"
    and "use_id e \<notin> use_id ` set (uses_of es)"
  shows "well_referenced (es @ [e])"
  using assms by (auto simp: well_referenced_def)

lemma well_referenced_append_result:
  assumes "well_referenced es" and "is_result e" and "u \<in> set (uses_of es)"
    and "use_id u = result_id e" and "ev_seq u < ev_seq e"
    and "result_id e \<notin> result_id ` set (results_of es)"
  shows "well_referenced (es @ [e])"
proof -
  have "result_id e \<noteq> []" using assms(1,3,4) by (auto simp: well_referenced_def)
  with assms show ?thesis by (auto simp: well_referenced_def)
qed

lemma well_referenced_prefix:
  assumes "well_referenced (es @ fs)" and "dense (es @ fs)"
  shows "well_referenced es"
proof -
  have seq: "ev_seq u < ev_seq r \<Longrightarrow> r \<in> set es \<Longrightarrow> u \<in> set (es @ fs) \<Longrightarrow> u \<in> set es" for u r
  proof -
    assume a: "ev_seq u < ev_seq r" "r \<in> set es" "u \<in> set (es @ fs)"
    obtain i where i: "i < length es" "r = es ! i" using a(2) by (auto simp: in_set_conv_nth)
    obtain j where j: "j < length (es @ fs)" "u = (es @ fs) ! j" using a(3) by (metis in_set_conv_nth)
    have "r = (es @ fs) ! i" using i by (simp add: nth_append)
    then have "int j < int i" using a(1) i j assms(2) unfolding dense_nth by simp
    then show "u \<in> set es" using i j by (simp add: nth_append)
  qed
  have "\<exists>u \<in> set (uses_of es). use_id u = result_id r \<and> ev_seq u < ev_seq r"
    if r: "r \<in> set (results_of es)" for r
  proof -
    have "r \<in> set (results_of (es @ fs))" using r by simp
    then obtain u where u: "u \<in> set (uses_of (es @ fs))" "use_id u = result_id r" "ev_seq u < ev_seq r"
      using assms(1) unfolding well_referenced_def by blast
    have "u \<in> set es" by (rule seq [OF u(3)]) (use r u(1) in \<open>auto simp: set_results_of set_uses_of\<close>)
    with u show ?thesis by (auto simp: set_uses_of)
  qed
  with assms(1) show ?thesis by (simp add: well_referenced_def)
qed

end
