(* ===== verification/Hooks.thy ===== *)
theory Hooks
  imports Integrity
begin

text \<open>
  \<^verbatim>\<open>hooks.go\<close>: the registry of hook handlers, their error policy and their invocation.  A
  handler is a value of a type \<open>'h\<close>; \<open>he_code\<close> is \<^verbatim>\<open>funcValuePointer\<close>, the code pointer that
  keys the registry's metadata (the closures of one function literal share it), and \<open>he_run\<close>
  runs a handler, which may change the world or panic.  The world is what the handlers of a
  session can reach: the session with its log, the hook registry, the child sessions of the
  runner, and a component \<open>'w\<close> for everything outside (captured variables, devices).
\<close>

section \<open>The world\<close>

record hook_options =
  ho_on_error :: string
  ho_name :: string
  ho_source :: string

definition HookErrorIsolate :: string where "HookErrorIsolate = ''isolate''"

definition HookErrorFailTurn :: string where "HookErrorFailTurn = ''fail_turn''"

definition no_options :: hook_options where
  "no_options = \<lparr>ho_on_error = [], ho_name = [], ho_source = []\<rparr>"

record 'h hooks =
  hk_handlers :: "(string \<times> 'h list) list"
  hk_metadata :: "(nat \<times> hook_options) list"

record ('h, 'st, 'w) world =
  w_session :: "'st session"
  w_hooks :: "'h hooks"
  w_children :: "(string \<times> 'st session) list"
  w_ext :: 'w

abbreviation w_log :: "('h, 'st, 'w) world \<Rightarrow> 'st slog" where
  "w_log w \<equiv> ss_log (w_session w)"

abbreviation w_events :: "('h, 'st, 'w) world \<Rightarrow> event list" where
  "w_events w \<equiv> lg_events (w_log w)"

definition on_log :: "('st slog \<Rightarrow> 'st slog) \<Rightarrow> ('h, 'st, 'w) world \<Rightarrow> ('h, 'st, 'w) world" where
  "on_log f w = w\<lparr>w_session := (w_session w)\<lparr>ss_log := f (w_log w)\<rparr>\<rparr>"

lemma on_log_simps [simp]:
  "w_log (on_log f w) = f (w_log w)" "w_hooks (on_log f w) = w_hooks w"
  "w_ext (on_log f w) = w_ext w" "w_children (on_log f w) = w_children w"
  "ss_id (w_session (on_log f w)) = ss_id (w_session w)"
  "header_of_session (w_session (on_log f w)) = header_of_session (w_session w)"
  by (simp_all add: on_log_def header_of_session_def)

text \<open>The contexts the library passes to handlers; the session is part of the world.\<close>

datatype hook_ctx =
    CtxSession
  | CtxRequest payload
  | CtxResponse payload "payload option"
  | CtxToolUse event
  | CtxToolResult event "event option" bool

text \<open>What a Go panic carries, as far as \<^verbatim>\<open>recoveredMessage\<close> looks at it.\<close>

datatype panic_value =
    PTurnFailed string
  | PError string
  | PText string
  | POther

record ('h, 'st, 'w) hook_env =
  he_log :: "'st log_env"
  he_code :: "'h \<Rightarrow> nat"
  he_run :: "'h \<Rightarrow> hook_ctx \<Rightarrow> ('h, 'st, 'w) world \<Rightarrow> (panic_value + val) \<times> ('h, 'st, 'w) world"

text \<open>A step of the loop: a \<^verbatim>\<open>TurnFailed\<close> panic on its way up (\<open>Inl\<close>, with its message), or a
  value, and the world it leaves.\<close>

type_synonym ('h, 'st, 'w, 'a) act = "('h, 'st, 'w) world \<Rightarrow> (string + 'a) \<times> ('h, 'st, 'w) world"

definition returnA :: "'a \<Rightarrow> ('h, 'st, 'w, 'a) act" where
  "returnA a w = (Inr a, w)"

definition bindA :: "('h, 'st, 'w, 'a) act \<Rightarrow> ('a \<Rightarrow> ('h, 'st, 'w, 'b) act) \<Rightarrow> ('h, 'st, 'w, 'b) act" where
  "bindA m f w = (case m w of (Inl msg, w') \<Rightarrow> (Inl msg, w') | (Inr a, w') \<Rightarrow> f a w')"

definition thenA :: "(('h, 'st, 'w) world \<Rightarrow> ('h, 'st, 'w) world) \<Rightarrow> ('h, 'st, 'w, 'b) act \<Rightarrow> ('h, 'st, 'w, 'b) act" where
  "thenA g f w = f (g w)"

definition withA :: "(('h, 'st, 'w) world \<Rightarrow> 'a) \<Rightarrow> ('a \<Rightarrow> ('h, 'st, 'w, 'b) act) \<Rightarrow> ('h, 'st, 'w, 'b) act" where
  "withA g f w = f (g w) w"

section \<open>Registration\<close>

definition NewHooks :: "'h hooks" where
  "NewHooks = \<lparr>hk_handlers = [], hk_metadata = []\<rparr>"

definition handlers_at :: "'h hooks \<Rightarrow> string \<Rightarrow> 'h list" where
  "handlers_at hk point = aget [] (hk_handlers hk) point"

definition OnWithOptions ::
    "('h \<Rightarrow> nat) \<Rightarrow> string \<Rightarrow> 'h \<Rightarrow> hook_options \<Rightarrow> 'h hooks \<Rightarrow> 'h hooks" where
  "OnWithOptions code point h options hk =
     (let o1 = (if ho_on_error options = [] then options\<lparr>ho_on_error := HookErrorIsolate\<rparr> else options);
          o2 = (if ho_name o1 = [] then o1\<lparr>ho_name := ''harnas.HookHandler''\<rparr> else o1);
          o3 = (if ho_source o2 = [] then o2\<lparr>ho_source := ''hook''\<rparr> else o2)
      in hk\<lparr>hk_handlers := AList.update point (handlers_at hk point @ [h]) (hk_handlers hk),
            hk_metadata := AList.update (code h) o3 (hk_metadata hk)\<rparr>)"

definition On :: "('h \<Rightarrow> nat) \<Rightarrow> string \<Rightarrow> 'h \<Rightarrow> 'h hooks \<Rightarrow> 'h hooks" where
  "On code point h hk = OnWithOptions code point h no_options hk"

fun remove_first :: "('a \<Rightarrow> bool) \<Rightarrow> 'a list \<Rightarrow> 'a list" where
  "remove_first P [] = []"
| "remove_first P (x # xs) = (if P x then xs else x # remove_first P xs)"

definition Off :: "('h \<Rightarrow> nat) \<Rightarrow> string \<Rightarrow> 'h \<Rightarrow> 'h hooks \<Rightarrow> 'h hooks" where
  "Off code point h hk =
     (if \<exists>x \<in> set (handlers_at hk point). code x = code h
      then hk\<lparr>hk_handlers := AList.update point
                (remove_first (\<lambda>x. code x = code h) (handlers_at hk point)) (hk_handlers hk),
              hk_metadata := AList.delete (code h) (hk_metadata hk)\<rparr>
      else hk)"

definition hooks_Reset :: "'h hooks \<Rightarrow> 'h hooks" where
  "hooks_Reset hk = NewHooks"

section \<open>Invocation\<close>

definition recoveredMessage :: "panic_value \<Rightarrow> string" where
  "recoveredMessage p =
     (case p of PTurnFailed m \<Rightarrow> m | PError m \<Rightarrow> m | PText m \<Rightarrow> m | POther \<Rightarrow> ''hook handler failed'')"

definition recoveredClass :: "panic_value \<Rightarrow> string" where
  "recoveredClass p = ''RuntimeError''"

definition runtime_error_payload :: "hook_options \<Rightarrow> panic_value \<Rightarrow> payload" where
  "runtime_error_payload options p =
     [(''source'', VStr (ho_source options)), (''handler'', VStr (ho_name options)),
      (''error_class'', VStr (recoveredClass p)), (''message'', VStr (recoveredMessage p)),
      (''terminal'', VBool True)]"

text \<open>\<^verbatim>\<open>(value, ok)\<close> is \<open>Some value\<close> or, when a panic was swallowed, \<open>None\<close>.\<close>

definition invokeHookHandler ::
    "('h, 'st, 'w, 'x) hook_env_scheme \<Rightarrow> string \<Rightarrow> 'h \<Rightarrow> hook_ctx \<Rightarrow> hook_options \<Rightarrow>
     ('h, 'st, 'w, val option) act"
where
  "invokeHookHandler env point h ctx options w =
     (case he_run env h ctx w of
        (Inr v, w1) \<Rightarrow> (Inr (Some v), w1)
      | (Inl p, w1) \<Rightarrow>
          let w2 = on_log (emit (ObsHookHandlerFailed point (ho_name options) (recoveredMessage p))) w1
          in if ho_on_error options = HookErrorFailTurn
             then (Inl (recoveredMessage p),
                   on_log (append_ev (he_log env) EventRuntimeError (runtime_error_payload options p)) w2)
             else (Inr None, w2))"

fun invoke_all ::
    "('h, 'st, 'w, 'x) hook_env_scheme \<Rightarrow> string \<Rightarrow> hook_ctx \<Rightarrow> (nat \<times> hook_options) list \<Rightarrow>
     'h list \<Rightarrow> ('h, 'st, 'w, val list) act"
where
  "invoke_all env point ctx metadata [] w = (Inr [], w)"
| "invoke_all env point ctx metadata (h # hs) w =
     bindA (invokeHookHandler env point h ctx (aget no_options metadata (he_code env h)))
       (\<lambda>value. bindA (invoke_all env point ctx metadata hs)
         (\<lambda>values. returnA
            (case value of None \<Rightarrow> values | Some VNil \<Rightarrow> values | Some v \<Rightarrow> v # values))) w"

text \<open>The handlers and the metadata are copied before the first handler runs.\<close>

definition Invoke ::
    "('h, 'st, 'w, 'x) hook_env_scheme \<Rightarrow> string \<Rightarrow> hook_ctx \<Rightarrow> ('h, 'st, 'w, val list) act" where
  "Invoke env point ctx w =
     invoke_all env point ctx (hk_metadata (w_hooks w)) (handlers_at (w_hooks w) point) w"

section \<open>Steps that only extend the log\<close>

text \<open>
  \<open>extends w w'\<close>: the events of \<open>w\<close> are a prefix of the events of \<open>w'\<close>, density and the
  latch are respected.  Every step of the loop has this property when the handlers, tools and
  providers do, so it is stated once for the combinators.
\<close>

definition extends :: "('h, 'st, 'w) world \<Rightarrow> ('h, 'st, 'w) world \<Rightarrow> bool" where
  "extends w w' \<longleftrightarrow> (\<exists>es. w_events w' = w_events w @ es) \<and>
     (dense (w_events w) \<longrightarrow> dense (w_events w')) \<and>
     (lg_err (w_log w) \<noteq> None \<longrightarrow> w_events w' = w_events w \<and> lg_err (w_log w') \<noteq> None)"

lemma extends_refl [simp]: "extends w w"
  by (simp add: extends_def)

lemma extends_trans [trans]: "extends u v \<Longrightarrow> extends v w \<Longrightarrow> extends u w"
  by (auto simp: extends_def)

lemma extends_prefix: "extends w w' \<Longrightarrow> prefix (w_events w) (w_events w')"
  by (auto simp: extends_def)

lemma extends_append_ev [simp]: "extends w (on_log (append_ev le t p) w)"
proof -
  have "\<exists>es. lg_events (append_ev le t p (w_log w)) = w_events w @ es" by (rule append_ev_extends)
  then show ?thesis
    by (auto simp: extends_def append_ev_dense append_ev_latched)
qed

lemma extends_AppendBatch [simp]: "extends w (on_log (\<lambda>lg. snd (AppendBatch le args lg)) w)"
proof -
  have "\<exists>es. lg_events (snd (AppendBatch le args (w_log w))) = w_events w @ es"
    by (rule AppendBatch_extends)
  then show ?thesis
    by (auto simp: extends_def AppendBatch_dense AppendBatch_latched)
qed

lemma extends_emit [simp]: "extends w (on_log (emit ob) w)"
  by (simp add: extends_def)

text \<open>
  \<open>quiet w w'\<close>: the log grew, but not by tool uses or tool results.  Hook handlers and tools
  are expected to be quiet: pairing uses with results is the business of the loop.
\<close>

definition quiet :: "('h, 'st, 'w) world \<Rightarrow> ('h, 'st, 'w) world \<Rightarrow> bool" where
  "quiet w w' \<longleftrightarrow> extends w w' \<and>
     uses_of (w_events w') = uses_of (w_events w) \<and> results_of (w_events w') = results_of (w_events w)"

lemma quiet_extends: "quiet w w' \<Longrightarrow> extends w w'"
  by (simp add: quiet_def)

definition act_rel ::
    "(('h, 'st, 'w) world \<Rightarrow> ('h, 'st, 'w) world \<Rightarrow> bool) \<Rightarrow> ('h, 'st, 'w, 'a) act \<Rightarrow> bool" where
  "act_rel R m \<longleftrightarrow> (\<forall>w. R w (snd (m w)))"

definition handlers_rel ::
    "(('h, 'st, 'w) world \<Rightarrow> ('h, 'st, 'w) world \<Rightarrow> bool) \<Rightarrow> ('h, 'st, 'w, 'x) hook_env_scheme \<Rightarrow> bool" where
  "handlers_rel R env \<longleftrightarrow> (\<forall>h ctx w. R w (snd (he_run env h ctx w)))"

lemma act_relI: "(\<And>w. R w (snd (m w))) \<Longrightarrow> act_rel R m"
  by (simp add: act_rel_def)

lemma act_rel_apply: "act_rel R m \<Longrightarrow> R w (snd (m w))"
  by (simp add: act_rel_def)

lemma act_relD: "act_rel R m \<Longrightarrow> m w = (r, w') \<Longrightarrow> R w w'"
  by (metis act_rel_def snd_conv)

text \<open>
  The contract of a relation between the worlds before and after a step: what it takes for
  the relation to hold of every step built by the combinators and by the hook registry, once
  it holds of the handlers.  \<open>log_step\<close> is for relations that look at the log only.
\<close>

locale hook_step =
  fixes R :: "('h, 'st, 'w) world \<Rightarrow> ('h, 'st, 'w) world \<Rightarrow> bool"
  assumes R_refl: "R w w"
    and R_trans: "R u v \<Longrightarrow> R v w \<Longrightarrow> R u w"
    and R_append: "t \<noteq> EventToolUse \<Longrightarrow> t \<noteq> EventToolResult \<Longrightarrow> R w (on_log (append_ev le t p) w)"
    and R_emit: "R w (on_log (emit ob) w)"
begin

lemma act_return: "act_rel R (returnA a)"
  by (simp add: act_rel_def returnA_def R_refl)

lemma act_bind:
  assumes "act_rel R m" and "\<And>a. act_rel R (f a)"
  shows "act_rel R (bindA m f)"
proof (rule act_relI)
  fix w
  obtain r w1 where m: "m w = (r, w1)" by fastforce
  have e1: "R w w1" by (rule act_relD [OF assms(1) m])
  have "R w1 (snd (f a w1))" for a by (rule act_rel_apply [OF assms(2)])
  with m e1 show "R w (snd (bindA m f w))" by (cases r) (auto simp: bindA_def intro: R_trans)
qed

lemma act_then: "(\<And>w. R w (g w)) \<Longrightarrow> act_rel R f \<Longrightarrow> act_rel R (thenA g f)"
  unfolding act_rel_def thenA_def by (blast intro: R_trans)

lemma act_with: "(\<And>a. act_rel R (f a)) \<Longrightarrow> act_rel R (withA g f)"
  by (simp add: act_rel_def withA_def)

lemma fold_R: "(\<And>x w. R w (f x w)) \<Longrightarrow> R w (fold f xs w)"
  by (induction xs arbitrary: w) (auto intro: R_refl R_trans)

lemma act_invokeHookHandler:
  assumes "handlers_rel R env"
  shows "act_rel R (invokeHookHandler env point h ctx options)"
proof (rule act_relI)
  fix w
  obtain r w1 where run: "he_run env h ctx w = (r, w1)" by fastforce
  have "R w w1" using assms run unfolding handlers_rel_def by (metis snd_conv)
  then have "R w (on_log (emit ob) w1)"
    and "R w (on_log (append_ev le EventRuntimeError p) (on_log (emit ob) w1))" for ob le p
    using R_emit R_append [of EventRuntimeError] R_trans by blast+
  with \<open>R w w1\<close> show "R w (snd (invokeHookHandler env point h ctx options w))"
    using run by (auto simp: invokeHookHandler_def Let_def split: sum.splits)
qed

lemma act_invoke_all: "handlers_rel R env \<Longrightarrow> act_rel R (invoke_all env point ctx metadata hs)"
proof (induction hs)
  case Nil
  then show ?case by (simp add: act_rel_def R_refl)
next
  case (Cons h hs)
  have eq: "invoke_all env point ctx metadata (h # hs) =
     bindA (invokeHookHandler env point h ctx (aget no_options metadata (he_code env h)))
       (\<lambda>value. bindA (invoke_all env point ctx metadata hs)
         (\<lambda>values. returnA
            (case value of None \<Rightarrow> values | Some VNil \<Rightarrow> values | Some v \<Rightarrow> v # values)))"
    by (rule ext) simp
  show ?case unfolding eq by (intro act_bind act_return act_invokeHookHandler Cons)
qed

lemma act_Invoke: "handlers_rel R env \<Longrightarrow> act_rel R (Invoke env point ctx)"
  using act_invoke_all unfolding act_rel_def Invoke_def by blast

end

locale log_step = hook_step R
  for R :: "('h, 'st, 'w) world \<Rightarrow> ('h, 'st, 'w) world \<Rightarrow> bool" +
  assumes R_same: "w_events w' = w_events w \<Longrightarrow> lg_err (w_log w') = lg_err (w_log w) \<Longrightarrow> R w w'"

lemma extends_same:
  "w_events w' = w_events w \<Longrightarrow> lg_err (w_log w') = lg_err (w_log w) \<Longrightarrow> extends w w'"
  by (simp add: extends_def)

lemma quiet_append:
  assumes "t \<noteq> EventToolUse" and "t \<noteq> EventToolResult"
  shows "quiet w (on_log (append_ev le t p) w)"
  using assms by (auto simp: quiet_def intro: append_ev_cases [of le t p "w_log w"])

interpretation growing: log_step extends
  by unfold_locales (auto simp: extends_same intro: extends_trans)

lemma quiet_trans: "quiet u v \<Longrightarrow> quiet v w \<Longrightarrow> quiet u w"
  by (auto simp: quiet_def intro: extends_trans)

lemma quiet_same:
  "w_events w' = w_events w \<Longrightarrow> lg_err (w_log w') = lg_err (w_log w) \<Longrightarrow> quiet w w'"
  by (simp add: quiet_def extends_same)

lemma quiet_emit: "quiet w (on_log (emit ob) w)"
  by (rule quiet_same) simp_all

interpretation quiet: log_step quiet
  by unfold_locales (simp add: quiet_same, fact quiet_trans, rule quiet_append, assumption+,
    fact quiet_emit, fact quiet_same)

abbreviation act_extends :: "('h, 'st, 'w, 'a) act \<Rightarrow> bool" where
  "act_extends \<equiv> act_rel extends"

abbreviation handlers_extend :: "('h, 'st, 'w, 'x) hook_env_scheme \<Rightarrow> bool" where
  "handlers_extend \<equiv> handlers_rel extends"

section \<open>Isolation\<close>

text \<open>Without a \<^verbatim>\<open>fail_turn\<close> policy no panic leaves \<^verbatim>\<open>Invoke\<close>, whatever the handlers do.\<close>

lemma invokeHookHandler_isolated:
  "ho_on_error options \<noteq> HookErrorFailTurn \<Longrightarrow>
   \<exists>v w'. invokeHookHandler env point h ctx options w = (Inr v, w')"
  by (auto simp: invokeHookHandler_def Let_def split: prod.splits sum.splits)

lemma invoke_all_isolated:
  assumes "\<And>h. h \<in> set hs \<Longrightarrow> ho_on_error (aget no_options metadata (he_code env h)) \<noteq> HookErrorFailTurn"
  shows "\<exists>vs w'. invoke_all env point ctx metadata hs w = (Inr vs, w')"
  using assms
proof (induction hs arbitrary: w)
  case Nil
  then show ?case by simp
next
  case (Cons h hs)
  obtain v w1 where "invokeHookHandler env point h ctx (aget no_options metadata (he_code env h)) w = (Inr v, w1)"
    using invokeHookHandler_isolated [of "aget no_options metadata (he_code env h)"] Cons.prems by fastforce
  moreover obtain vs w2 where "invoke_all env point ctx metadata hs w1 = (Inr vs, w2)"
    using Cons.IH [of w1] Cons.prems by auto
  ultimately show ?case by (simp add: bindA_def returnA_def)
qed

definition isolating :: "('h \<Rightarrow> nat) \<Rightarrow> 'h hooks \<Rightarrow> bool" where
  "isolating code hk \<longleftrightarrow>
     (\<forall>k v. map_of (hk_metadata hk) k = Some v \<longrightarrow> ho_on_error v \<noteq> HookErrorFailTurn)"

lemma Invoke_isolated:
  assumes "isolating (he_code env) (w_hooks w)"
  shows "\<exists>vs w'. Invoke env point ctx w = (Inr vs, w')"
  unfolding Invoke_def
proof (rule invoke_all_isolated)
  fix h
  show "ho_on_error (aget no_options (hk_metadata (w_hooks w)) (he_code env h)) \<noteq> HookErrorFailTurn"
    using assms
    by (auto simp: isolating_def aget_def no_options_def HookErrorFailTurn_def split: option.splits)
qed

text \<open>A panic that leaves \<^verbatim>\<open>Invoke\<close> was appended as a terminal runtime error, unless the write
  failed and latched the log.\<close>

definition terminal_event :: "event \<Rightarrow> bool" where
  "terminal_event e \<longleftrightarrow> ev_type e = EventRuntimeError \<and> pget (ev_payload e) ''terminal'' = VBool True"

lemma invokeHookHandler_panic:
  assumes "invokeHookHandler env point h ctx options w = (Inl msg, w')"
  shows "ho_on_error options = HookErrorFailTurn \<and>
    ((\<exists>e \<in> set (w_events w'). terminal_event e \<and> ev_str e ''message'' = msg) \<or>
     lg_err (w_log w') \<noteq> None)"
proof -
  obtain p w1 where run: "he_run env h ctx w = (Inl p, w1)"
    using assms by (auto simp: invokeHookHandler_def Let_def split: prod.splits sum.splits)
  define w2 where "w2 = on_log (emit (ObsHookHandlerFailed point (ho_name options) (recoveredMessage p))) w1"
  have pol: "ho_on_error options = HookErrorFailTurn" and msg: "msg = recoveredMessage p"
    and w': "w' = on_log (append_ev (he_log env) EventRuntimeError (runtime_error_payload options p)) w2"
    using assms run by (auto simp: invokeHookHandler_def Let_def w2_def split: if_splits)
  show ?thesis
    by (rule append_ev_cases [of "he_log env" EventRuntimeError "runtime_error_payload options p" "w_log w2"])
      (auto simp: pol msg w' terminal_event_def runtime_error_payload_def)
qed

lemma invoke_all_panic:
  "invoke_all env point ctx metadata hs w = (Inl msg, w') \<Longrightarrow>
   (\<exists>e \<in> set (w_events w'). terminal_event e \<and> ev_str e ''message'' = msg) \<or>
   lg_err (w_log w') \<noteq> None"
proof (induction hs arbitrary: w)
  case Nil
  then show ?case by simp
next
  case (Cons h hs)
  then show ?case
    by (auto simp: bindA_def returnA_def split: prod.splits sum.splits dest: invokeHookHandler_panic)
qed

lemma Invoke_panic:
  "Invoke env point ctx w = (Inl msg, w') \<Longrightarrow>
   (\<exists>e \<in> set (w_events w'). terminal_event e \<and> ev_str e ''message'' = msg) \<or>
   lg_err (w_log w') \<noteq> None"
  unfolding Invoke_def by (rule invoke_all_panic)

section \<open>The metadata is keyed by code\<close>

text \<open>
  Registering a second handler with the same code pointer replaces the options of the first.
\<close>

lemma OnWithOptions_overrides:
  assumes "code h1 = code h2" and "ho_on_error o2 \<noteq> []"
  shows "ho_on_error (aget no_options
           (hk_metadata (OnWithOptions code p2 h2 o2 (OnWithOptions code p1 h1 o1 hk))) (code h1))
         = ho_on_error o2"
  using assms by (simp add: OnWithOptions_def Let_def)

lemma On_handlers_at [simp]:
  "handlers_at (OnWithOptions code point h options hk) point' =
     (if point' = point then handlers_at hk point @ [h] else handlers_at hk point')"
  by (auto simp: OnWithOptions_def Let_def handlers_at_def)

lemma Off_other_handler:
  assumes "handlers_at hk point = [h1, h2]" and "code h1 = code h2"
  shows "handlers_at (Off code point h2 hk) point = [h2] \<and>
    map_of (hk_metadata (Off code point h2 hk)) (code h2) = None"
  using assms by (simp add: Off_def handlers_at_def map_of_delete_iff)

end
