(* ===== verification/Tools.thy ===== *)
theory Tools
  imports Hooks "HOL-Library.List_Lexorder" "HOL-Library.Char_ord"
begin

text \<open>
  \<^verbatim>\<open>tools.go\<close> and the host side of \<^verbatim>\<open>approval.go\<close>: the tool registry, the runner that executes a
  tool use and appends its result, the spawning of child sessions, and the resolution of
  pending approvals.  A tool's function may change the world and returns an output or an
  error text.  Names are compared as Go compares strings, bytewise.
\<close>

section \<open>Tools and the registry\<close>

record tool_context =
  tc_session_id :: string
  tc_tool_use_id :: string
  tc_source_tool_use_id :: string
  tc_config :: payload
  tc_extra :: payload

type_synonym ('h, 'st, 'w) tool_fn =
  "('h, 'st, 'w) world \<Rightarrow> (string + string) \<times> ('h, 'st, 'w) world"

record ('h, 'st, 'w) tool =
  tl_name :: string
  tl_handler :: string
  tl_description :: string
  tl_schema :: payload
  tl_config :: payload
  tl_call :: "(payload \<Rightarrow> ('h, 'st, 'w) tool_fn) option"
  tl_call_config :: "(payload \<Rightarrow> payload \<Rightarrow> ('h, 'st, 'w) tool_fn) option"
  tl_call_context :: "(payload \<Rightarrow> tool_context \<Rightarrow> ('h, 'st, 'w) tool_fn) option"

type_synonym ('h, 'st, 'w) registry = "(string \<times> ('h, 'st, 'w) tool) list"

definition NewRegistry :: "('h, 'st, 'w) registry" where
  "NewRegistry = []"

definition Register ::
    "('h, 'st, 'w) tool \<Rightarrow> ('h, 'st, 'w) registry \<Rightarrow> (string + unit) \<times> ('h, 'st, 'w) registry" where
  "Register t r =
     (if tl_name t = [] then (Inl ''tool name must not be empty'', r)
      else if ahas r (tl_name t) then (Inl (''tool already registered: '' @ tl_name t), r)
      else (Inr (), AList.update (tl_name t) t r))"

definition Find :: "('h, 'st, 'w) registry \<Rightarrow> string \<Rightarrow> ('h, 'st, 'w) tool option" where
  "Find r name = map_of r name"

definition registry_Size :: "('h, 'st, 'w) registry \<Rightarrow> int" where
  "registry_Size r = int (length r)"

definition registry_Tools :: "('h, 'st, 'w) registry \<Rightarrow> ('h, 'st, 'w) tool list" where
  "registry_Tools r = sort_key tl_name (map snd r)"

text \<open>Every registry built by \<^verbatim>\<open>Register\<close> has distinct keys, each tool under its own name.\<close>

definition registry_inv :: "('h, 'st, 'w) registry \<Rightarrow> bool" where
  "registry_inv r \<longleftrightarrow> distinct (map fst r) \<and> (\<forall>(n, t) \<in> set r. tl_name t = n \<and> n \<noteq> [])"

lemma registry_inv_New [simp]: "registry_inv NewRegistry"
  by (simp add: registry_inv_def NewRegistry_def)

lemma update_fresh: "\<not> ahas r k \<Longrightarrow> AList.update k v r = r @ [(k, v)]"
  by (induction r) (auto simp: ahas_def split: if_splits)

lemma Register_inv: "registry_inv r \<Longrightarrow> Register t r = (res, r') \<Longrightarrow> registry_inv r'"
  by (auto simp: Register_def registry_inv_def update_fresh ahas_def map_of_eq_None_iff
      split: if_splits)

lemma Register_Find:
  "Register t r = (Inr u, r') \<Longrightarrow>
   Find r' name = (if name = tl_name t then Some t else Find r name) \<and>
   Find r (tl_name t) = None \<and> registry_Size r' = registry_Size r + 1"
  by (auto simp: Register_def Find_def map_of_update_iff registry_Size_def update_fresh ahas_def
      map_add_def split: if_splits option.splits)

lemma Register_Inl: "Register t r = (Inl e, r') \<Longrightarrow> r' = r"
  by (auto simp: Register_def split: if_splits)

lemma sorted_strict_of_distinct:
  fixes xs :: "'a::linorder list"
  shows "sorted xs \<Longrightarrow> distinct xs \<Longrightarrow> sorted_wrt (<) xs"
  by (induction xs) (auto simp: order.order_iff_strict)

text \<open>\<^verbatim>\<open>Tools\<close> lists exactly the registered tools, by strictly increasing name.\<close>

lemma registry_Tools_spec:
  assumes "registry_inv r"
  shows "set (registry_Tools r) = {t. \<exists>n. Find r n = Some t} \<and>
    sorted_wrt (<) (map tl_name (registry_Tools r))"
proof -
  have names: "map tl_name (map snd r) = map fst r"
    using assms by (auto simp: registry_inv_def)
  have "distinct (map tl_name (registry_Tools r))"
  proof -
    have "distinct (map tl_name (map snd r))" unfolding names using assms by (simp add: registry_inv_def)
    then show ?thesis by (simp only: registry_Tools_def distinct_map distinct_sort set_sort)
  qed
  moreover have "sorted (map tl_name (registry_Tools r))" by (simp add: registry_Tools_def)
  moreover have "set (registry_Tools r) = {t. \<exists>n. Find r n = Some t}"
    using assms by (force simp: registry_Tools_def Find_def registry_inv_def map_of_eq_Some_iff)
  ultimately show ?thesis by (simp add: sorted_strict_of_distinct)
qed

section \<open>The runner\<close>

text \<open>\<open>re_newID\<close> is \<^verbatim>\<open>newID\<close> (crypto/rand) and \<open>re_marshal\<close> is \<^verbatim>\<open>json.Marshal\<close>.\<close>

record ('h, 'st, 'w) run_env = "('h, 'st, 'w) hook_env" +
  re_registry :: "('h, 'st, 'w) registry option"
  re_extra :: payload
  re_newID :: "'w \<Rightarrow> string \<times> 'w"
  re_marshal :: "val \<Rightarrow> string"

definition tool_result_payload :: "string \<Rightarrow> val \<Rightarrow> val \<Rightarrow> payload" where
  "tool_result_payload tid out err = [(''tool_use_id'', VStr tid), (''output'', out), (''error'', err)]"

definition append_w ::
    "('h, 'st, 'w, 'x) hook_env_scheme \<Rightarrow> event_type \<Rightarrow> payload \<Rightarrow> ('h, 'st, 'w) world \<Rightarrow> ('h, 'st, 'w) world" where
  "append_w env t p w = on_log (append_ev (he_log env) t p) w"

definition toolContext ::
    "('h, 'st, 'w, 'x) run_env_scheme \<Rightarrow> ('h, 'st, 'w) world \<Rightarrow> string \<Rightarrow> payload \<Rightarrow> tool_context" where
  "toolContext env w tid config =
     \<lparr>tc_session_id = ss_id (w_session w), tc_tool_use_id = tid, tc_source_tool_use_id = tid,
      tc_config = config, tc_extra = re_extra env\<rparr>"

text \<open>The common tail of the three ways to call a tool.\<close>

definition finish_call ::
    "('h, 'st, 'w, 'x) run_env_scheme \<Rightarrow> string \<Rightarrow> (string + string) \<times> ('h, 'st, 'w) world \<Rightarrow>
     ('h, 'st, 'w) world"
where
  "finish_call env tid res =
     (case res of
        (Inl err, w) \<Rightarrow> append_w env EventToolResult (tool_result_payload tid VNil (VStr err)) w
      | (Inr out, w) \<Rightarrow> append_w env EventToolResult (tool_result_payload tid (VStr out) VNil) w)"

text \<open>A child session starts with the task as its first user message.\<close>

definition spawn_child ::
    "('h, 'st, 'w, 'x) run_env_scheme \<Rightarrow> ('h, 'st, 'w) world \<Rightarrow> event \<Rightarrow> string \<Rightarrow> string \<Rightarrow> string \<Rightarrow>
     payload \<Rightarrow> 'st session"
where
  "spawn_child env w toolUse spawnID childID task metadata =
     (let parent = w_session w;
          root = (if ss_root parent = [] then ss_id parent else ss_root parent);
          chain = cloneDelegationChain (ss_chain parent)
            @ [[(''session_id'', VStr (ss_id parent)), (''spawn_id'', VStr (ss_spawn parent))]];
          child = (NewSession childID (Some NewLog) metadata)
            \<lparr>ss_parent := ss_id parent, ss_root := root, ss_spawn := spawnID,
             ss_spawned_by := ev_id toolUse, ss_chain := chain\<rparr>
      in child\<lparr>ss_log := append_ev (he_log env) EventUserMessage [(''text'', VStr task)] (ss_log child)\<rparr>)"

definition optional_string :: "string \<Rightarrow> payload \<Rightarrow> payload \<Rightarrow> payload" where
  "optional_string k args m =
     (if stringValue (pget args k) \<noteq> [] then pset k (VStr (stringValue (pget args k))) m else m)"

definition runSpawnAgent ::
    "('h, 'st, 'w, 'x) run_env_scheme \<Rightarrow> event \<Rightarrow> payload \<Rightarrow> ('h, 'st, 'w) world \<Rightarrow> ('h, 'st, 'w) world" where
  "runSpawnAgent env toolUse args w =
     (let tid = use_id toolUse; task = stringValue (pget args ''task'')
      in if task = []
         then append_w env EventToolResult
                (tool_result_payload tid VNil (VStr ''missing required argument: task'')) w
         else
           let (u1, ext1) = re_newID env (w_ext w);
               (u2, ext2) = re_newID env ext1;
               spawnID = ''spn_'' @ u1;
               childID = ''ses_'' @ u2;
               metadata = optional_string ''role'' args (optional_string ''label'' args []);
               overrides = (if phas args ''tools_deny''
                            then [(''tools_deny'', pget args ''tools_deny'')] else []);
               joinPolicy = (if stringValue (pget args ''join_policy'') \<noteq> []
                             then stringValue (pget args ''join_policy'') else ''async'');
               child = spawn_child env w toolUse spawnID childID task metadata;
               w1 = w\<lparr>w_ext := ext2, w_children := AList.update childID child (w_children w)\<rparr>;
               w2 = append_w env EventAgentSpawn
                      [(''spawn_id'', VStr spawnID), (''child_session_id'', VStr childID),
                       (''spawned_by_event_id'', VStr (ev_id toolUse)), (''spawn_mode'', VStr ''new''),
                       (''task'', VStr task),
                       (''capabilities'', VMap [(''inherit'', VBool True), (''overrides'', VMap overrides)]),
                       (''join_policy'', VStr joinPolicy), (''metadata'', VMap metadata),
                       (''retry_of_spawn_id'', VNil)] w1;
               output = re_marshal env
                 (VMap [(''spawn_id'', VStr spawnID), (''child_session_id'', VStr childID),
                        (''status'', VStr ''spawned'')])
           in append_w env EventToolResult (tool_result_payload tid (VStr output) VNil) w2)"

definition Runner_Run ::
    "('h, 'st, 'w, 'x) run_env_scheme \<Rightarrow> ('h, 'st, 'w) registry \<Rightarrow> event \<Rightarrow>
     ('h, 'st, 'w) world \<Rightarrow> ('h, 'st, 'w) world"
where
  "Runner_Run env registry toolUse w =
     (let name = stringValue (pget (ev_payload toolUse) ''name'');
          tid = use_id toolUse;
          args = asMap (pget (ev_payload toolUse) ''arguments'')
      in case Find registry name of
           None \<Rightarrow> append_w env EventToolResult
                     (tool_result_payload tid VNil (VStr (''unknown tool: '' @ name))) w
         | Some t \<Rightarrow>
             if tl_handler t = ''harnas.builtin.spawn_agent'' then runSpawnAgent env toolUse args w
             else if tl_handler t = ''conformance.raise_error''
             then append_w env EventToolResult
                    (tool_result_payload tid VNil (VStr ''RuntimeError: conformance tool error'')) w
             else if tl_handler t = ''conformance.echo_config''
             then append_w env EventToolResult
                    (tool_result_payload tid
                       (VStr (''[conformance config: '' @ re_marshal env (VMap (tl_config t)) @ '']'')) VNil) w
             else case tl_call_context t of
                    Some f \<Rightarrow> finish_call env tid (f args (toolContext env w tid (tl_config t)) w)
                  | None \<Rightarrow>
                    (case tl_call_config t of
                       Some f \<Rightarrow> finish_call env tid (f args (tl_config t) w)
                     | None \<Rightarrow>
                       (case tl_call t of
                          Some f \<Rightarrow> finish_call env tid (f args w)
                        | None \<Rightarrow>
                            append_w env EventToolResult
                              (tool_result_payload tid VNil
                                 (VStr (''unresolved tool handler: '' @ tl_handler t))) w)))"

section \<open>What running a tool does\<close>

definition fn_rel ::
    "(('h, 'st, 'w) world \<Rightarrow> ('h, 'st, 'w) world \<Rightarrow> bool) \<Rightarrow> ('h, 'st, 'w) tool_fn \<Rightarrow> bool" where
  "fn_rel R f \<longleftrightarrow> (\<forall>w. R w (snd (f w)))"

definition tool_rel ::
    "(('h, 'st, 'w) world \<Rightarrow> ('h, 'st, 'w) world \<Rightarrow> bool) \<Rightarrow> ('h, 'st, 'w) tool \<Rightarrow> bool" where
  "tool_rel R t \<longleftrightarrow>
     (\<forall>f args. tl_call t = Some f \<longrightarrow> fn_rel R (f args)) \<and>
     (\<forall>f args c. tl_call_config t = Some f \<longrightarrow> fn_rel R (f args c)) \<and>
     (\<forall>f args c. tl_call_context t = Some f \<longrightarrow> fn_rel R (f args c))"

definition tools_rel ::
    "(('h, 'st, 'w) world \<Rightarrow> ('h, 'st, 'w) world \<Rightarrow> bool) \<Rightarrow> ('h, 'st, 'w) registry \<Rightarrow> bool" where
  "tools_rel R r \<longleftrightarrow> (\<forall>n t. Find r n = Some t \<longrightarrow> tool_rel R t)"

abbreviation tools_extend :: "('h, 'st, 'w) registry \<Rightarrow> bool" where
  "tools_extend \<equiv> tools_rel extends"

lemma append_w_simps [simp]:
  "w_events (append_w env t p w) = lg_events (append_ev (he_log env) t p (w_log w))"
  "w_log (append_w env t p w) = append_ev (he_log env) t p (w_log w)"
  "w_hooks (append_w env t p w) = w_hooks w" "w_ext (append_w env t p w) = w_ext w"
  "w_children (append_w env t p w) = w_children w"
  by (simp_all add: append_w_def)

lemma extends_append_w [simp]: "extends w (append_w env t p w)"
  by (simp add: append_w_def)

text \<open>The last thing \<^verbatim>\<open>Run\<close> does is to append one result for the id of the use.\<close>

definition result_for :: "string \<Rightarrow> payload \<Rightarrow> bool" where
  "result_for tid p \<longleftrightarrow> (\<exists>out err. p = tool_result_payload tid out err)"

definition ends_with_result ::
    "(('h, 'st, 'w) world \<Rightarrow> ('h, 'st, 'w) world \<Rightarrow> bool) \<Rightarrow> ('h, 'st, 'w, 'x) hook_env_scheme \<Rightarrow>
     string \<Rightarrow> ('h, 'st, 'w) world \<Rightarrow> ('h, 'st, 'w) world \<Rightarrow> bool"
where
  "ends_with_result R env tid w w' \<longleftrightarrow>
     (\<exists>w1 p. R w w1 \<and> result_for tid p \<and> w' = append_w env EventToolResult p w1)"

context log_step
begin

lemma ends_after:
  "R w w1 \<Longrightarrow>
   ends_with_result R env tid w (append_w env EventToolResult (tool_result_payload tid out err) w1)"
  unfolding ends_with_result_def result_for_def by blast

lemma ends_plain:
  "ends_with_result R env tid w (append_w env EventToolResult (tool_result_payload tid out err) w)"
  by (rule ends_after [OF R_refl])

lemma ends_call: "fn_rel R f \<Longrightarrow> ends_with_result R env tid w (finish_call env tid (f w))"
proof -
  assume f: "fn_rel R f"
  obtain r w1 where fw: "f w = (r, w1)" by fastforce
  have "R w w1" using f fw by (metis fn_rel_def snd_conv)
  with fw show ?thesis by (cases r) (auto simp: finish_call_def intro: ends_after)
qed

lemma ends_spawn: "ends_with_result R env (use_id toolUse) w (runSpawnAgent env toolUse args w)"
proof -
  have ext: "R w (append_w env EventAgentSpawn p (w\<lparr>w_ext := x, w_children := c\<rparr>))" for p x c
    unfolding append_w_def by (rule R_trans [OF R_same R_append]) simp_all
  show ?thesis
    unfolding runSpawnAgent_def Let_def
    by (auto split: prod.splits simp del: append_w_simps intro: ends_plain ends_after ext)
qed

lemma Runner_Run_ends:
  assumes "tools_rel R registry"
  shows "ends_with_result R env (use_id toolUse) w (Runner_Run env registry toolUse w)"
proof (cases "Find registry (stringValue (pget (ev_payload toolUse) ''name''))")
  case None
  then show ?thesis by (simp add: Runner_Run_def Let_def ends_plain)
next
  case (Some t)
  then have te: "tool_rel R t" using assms by (auto simp: tools_rel_def)
  have "ends_with_result R env (use_id toolUse) w
    (case tl_call_context t of
       Some f \<Rightarrow> finish_call env (use_id toolUse) (f args (toolContext env w (use_id toolUse) (tl_config t)) w)
     | None \<Rightarrow>
       (case tl_call_config t of
          Some f \<Rightarrow> finish_call env (use_id toolUse) (f args (tl_config t) w)
        | None \<Rightarrow>
          (case tl_call t of
             Some f \<Rightarrow> finish_call env (use_id toolUse) (f args w)
           | None \<Rightarrow> append_w env EventToolResult
                (tool_result_payload (use_id toolUse) VNil (VStr m)) w)))" for args m
    using te by (auto simp: tool_rel_def ends_plain intro: ends_call split: option.split)
  then show ?thesis
    unfolding Runner_Run_def Let_def Some by (simp add: ends_plain ends_spawn)
qed

end

lemma Runner_Run_extends: "tools_extend registry \<Longrightarrow> extends w (Runner_Run env registry toolUse w)"
  using growing.Runner_Run_ends [of registry env toolUse w]
  by (auto simp: ends_with_result_def intro: extends_trans [OF _ extends_append_w])

text \<open>After \<^verbatim>\<open>Run\<close> the log ends with a result for the use, or it is latched.\<close>

lemma Runner_Run_result:
  assumes "tools_extend registry"
  shows "lg_err (w_log (Runner_Run env registry toolUse w)) \<noteq> None \<or>
    (\<exists>es r. w_events (Runner_Run env registry toolUse w) = w_events w @ es @ [r] \<and>
       is_result r \<and> pget (ev_payload r) ''tool_use_id'' = VStr (use_id toolUse))"
proof -
  obtain w1 p where w1: "extends w w1" and p: "result_for (use_id toolUse) p"
    and run: "Runner_Run env registry toolUse w = append_w env EventToolResult p w1"
    using growing.Runner_Run_ends [OF assms] unfolding ends_with_result_def by blast
  obtain es where es: "w_events w1 = w_events w @ es" using w1 by (auto simp: extends_def)
  show ?thesis
    by (rule append_ev_cases [of "he_log env" EventToolResult p "w_log w1"])
      (use p es in \<open>auto simp: run result_for_def tool_result_payload_def\<close>)
qed

section \<open>Resolving approvals\<close>

record approval_resolution =
  ar_reason :: string
  ar_resolved_by :: string

datatype approval_error =
    ApproveNeedsRunner
  | AlreadyResolved string
  | NoSuchToolUse string
  | ApprovalStorage storage_error

fun approval_error_message :: "approval_error \<Rightarrow> string" where
  "approval_error_message ApproveNeedsRunner = ''ApproveToolUse requires a Runner''"
| "approval_error_message (AlreadyResolved tid) =
     ''tool_use '' @ go_quote tid @ '' already has a tool_result; approvals resolve exactly once''"
| "approval_error_message (NoSuchToolUse tid) =
     ''no tool_use with id '' @ go_quote tid @ '' in the session log''"
| "approval_error_message (ApprovalStorage e) =
     ''storage write-through failed: '' @ storage_error_message e"

fun unresolved_scan :: "string \<Rightarrow> event list \<Rightarrow> event option \<Rightarrow> approval_error + event" where
  "unresolved_scan tid [] found =
     (case found of None \<Rightarrow> Inl (NoSuchToolUse tid) | Some u \<Rightarrow> Inr u)"
| "unresolved_scan tid (e # es) found =
     (let found' = (if is_use e \<and> pget (ev_payload e) ''id'' = VStr tid then Some e else found)
      in if is_result e \<and> pget (ev_payload e) ''tool_use_id'' = VStr tid then Inl (AlreadyResolved tid)
         else unresolved_scan tid es found')"

definition unresolvedToolUse :: "'st session \<Rightarrow> string \<Rightarrow> approval_error + event" where
  "unresolvedToolUse s tid = unresolved_scan tid (lg_events (ss_log s)) None"

definition approvalResolvedPayload :: "string \<Rightarrow> string \<Rightarrow> approval_resolution \<Rightarrow> payload" where
  "approvalResolvedPayload tid decision r =
     [(''tool_use_id'', VStr tid), (''decision'', VStr decision),
      (''reason'', if ar_reason r \<noteq> [] then VStr (ar_reason r) else VNil),
      (''resolved_by'', if ar_resolved_by r \<noteq> [] then VStr (ar_resolved_by r) else VNil)]"

definition ApproveToolUse ::
    "('h, 'st, 'w, 'x) run_env_scheme \<Rightarrow> string \<Rightarrow> approval_resolution \<Rightarrow> ('h, 'st, 'w) world \<Rightarrow>
     (approval_error + unit) \<times> ('h, 'st, 'w) world"
where
  "ApproveToolUse env tid r w =
     (case re_registry env of
        None \<Rightarrow> (Inl ApproveNeedsRunner, w)
      | Some registry \<Rightarrow>
        (case unresolvedToolUse (w_session w) tid of
           Inl err \<Rightarrow> (Inl err, w)
         | Inr toolUse \<Rightarrow>
             let w1 = append_w env EventApprovalResolved (approvalResolvedPayload tid ''approved'' r) w
             in case lg_err (w_log w1) of
                  Some err \<Rightarrow> (Inl (ApprovalStorage err), w1)
                | None \<Rightarrow>
                    let w2 = Runner_Run env registry toolUse w1
                    in (case lg_err (w_log w2) of
                          Some err \<Rightarrow> (Inl (ApprovalStorage err), w2)
                        | None \<Rightarrow> (Inr (), w2))))"

definition DenyToolUse ::
    "('h, 'st, 'w, 'x) run_env_scheme \<Rightarrow> string \<Rightarrow> approval_resolution \<Rightarrow> ('h, 'st, 'w) world \<Rightarrow>
     (approval_error + unit) \<times> ('h, 'st, 'w) world"
where
  "DenyToolUse env tid r w =
     (case unresolvedToolUse (w_session w) tid of
        Inl err \<Rightarrow> (Inl err, w)
      | Inr toolUse \<Rightarrow>
          let w1 = append_w env EventApprovalResolved (approvalResolvedPayload tid ''denied'' r) w;
              w2 = append_w env EventToolResult
                     [(''tool_use_id'', VStr tid), (''output'', VNil),
                      (''error'', VStr (''denied by approval: '' @ ar_reason r)),
                      (''approval'', VMap [(''decision'', VStr ''rejected''),
                         (''rule_matched'', VStr (ar_reason r)), (''applied_diff'', VNil)])] w1
          in case lg_err (w_log w2) of
               Some err \<Rightarrow> (Inl (ApprovalStorage err), w2)
             | None \<Rightarrow> (Inr (), w2))"

text \<open>A tool use is open when its id is in the log without a result.\<close>

definition open_use :: "event list \<Rightarrow> string \<Rightarrow> bool" where
  "open_use es tid \<longleftrightarrow>
     (\<exists>u \<in> set es. is_use u \<and> pget (ev_payload u) ''id'' = VStr tid) \<and>
     \<not> (\<exists>r \<in> set es. is_result r \<and> pget (ev_payload r) ''tool_use_id'' = VStr tid)"

lemma unresolved_scan_Inr_iff:
  "(\<exists>u. unresolved_scan tid es found = Inr u) \<longleftrightarrow>
     (found \<noteq> None \<or> (\<exists>u \<in> set es. is_use u \<and> pget (ev_payload u) ''id'' = VStr tid)) \<and>
     \<not> (\<exists>r \<in> set es. is_result r \<and> pget (ev_payload r) ''tool_use_id'' = VStr tid)"
  by (induction es arbitrary: found) (auto simp: Let_def split: option.splits)

lemma unresolvedToolUse_Inr_iff:
  "(\<exists>u. unresolvedToolUse s tid = Inr u) \<longleftrightarrow> open_use (lg_events (ss_log s)) tid"
  by (simp add: unresolvedToolUse_def unresolved_scan_Inr_iff open_use_def)

lemma unresolved_scan_use:
  "unresolved_scan tid es found = Inr u \<Longrightarrow>
   (\<And>f. found = Some f \<Longrightarrow> use_id f = tid) \<Longrightarrow> use_id u = tid"
proof (induction es arbitrary: found)
  case Nil
  then show ?case by (auto split: option.splits)
next
  case (Cons e es)
  let ?f = "if is_use e \<and> pget (ev_payload e) ''id'' = VStr tid then Some e else found"
  have "unresolved_scan tid es ?f = Inr u"
    using Cons.prems(1) by (auto simp: Let_def split: if_splits)
  moreover have "use_id f = tid" if "?f = Some f" for f
    using that Cons.prems(2) by (auto split: if_splits)
  ultimately show ?case by (rule Cons.IH)
qed

text \<open>
  A successful resolution needs an open use and closes it; so it happens at most once, and a
  failed resolution of a use that is not open leaves the world alone.
\<close>

lemma ApproveToolUse_ok:
  assumes "\<And>registry. re_registry env = Some registry \<Longrightarrow> tools_extend registry"
    and "ApproveToolUse env tid r w = (Inr u, w')"
  shows "open_use (w_events w) tid \<and> \<not> open_use (w_events w') tid \<and> lg_err (w_log w') = None"
proof -
  define w1 where "w1 = append_w env EventApprovalResolved (approvalResolvedPayload tid ''approved'' r) w"
  obtain registry toolUse where reg: "re_registry env = Some registry"
    and tu: "unresolvedToolUse (w_session w) tid = Inr toolUse"
    and w': "w' = Runner_Run env registry toolUse w1" and ok: "lg_err (w_log w') = None"
    using assms(2)
    by (auto simp: ApproveToolUse_def Let_def w1_def split: option.splits sum.splits)
  have id: "use_id toolUse = tid"
    using tu unresolved_scan_use [of tid "w_events w" None toolUse] by (simp add: unresolvedToolUse_def)
  obtain es x where "w_events w' = w_events w1 @ es @ [x]" "is_result x"
    "pget (ev_payload x) ''tool_use_id'' = VStr tid"
    using Runner_Run_result [OF assms(1) [OF reg], of env toolUse w1] ok w' id by auto
  then have "\<not> open_use (w_events w') tid" by (simp add: open_use_def)
  moreover have "open_use (w_events w) tid" using tu unresolvedToolUse_Inr_iff by blast
  ultimately show ?thesis using ok by simp
qed

lemma DenyToolUse_ok:
  assumes "DenyToolUse env tid r w = (Inr u, w')"
  shows "open_use (w_events w) tid \<and> \<not> open_use (w_events w') tid"
proof -
  define w1 where "w1 = append_w env EventApprovalResolved (approvalResolvedPayload tid ''denied'' r) w"
  define p where "p = [(''tool_use_id'', VStr tid), (''output'', VNil),
      (''error'', VStr (''denied by approval: '' @ ar_reason r)),
      (''approval'', VMap [(''decision'', VStr ''rejected''),
         (''rule_matched'', VStr (ar_reason r)), (''applied_diff'', VNil)])]"
  obtain toolUse where tu: "unresolvedToolUse (w_session w) tid = Inr toolUse"
    and w': "w' = append_w env EventToolResult p w1" and ok: "lg_err (w_log w') = None"
    using assms
    by (auto simp: DenyToolUse_def Let_def w1_def p_def split: option.splits sum.splits)
  have "\<exists>x \<in> set (w_events w'). is_result x \<and> pget (ev_payload x) ''tool_use_id'' = VStr tid"
    by (rule append_ev_cases [of "he_log env" EventToolResult p "w_log w1"])
      (use ok w' in \<open>auto simp: p_def\<close>)
  then have "\<not> open_use (w_events w') tid" by (auto simp: open_use_def)
  moreover have "open_use (w_events w) tid" using tu unresolvedToolUse_Inr_iff by blast
  ultimately show ?thesis by simp
qed

lemma Approve_not_open:
  "\<not> open_use (w_events w) tid \<Longrightarrow>
   (\<exists>err. ApproveToolUse env tid r w = (Inl err, w)) \<and> (\<exists>err. DenyToolUse env tid r w = (Inl err, w))"
  using unresolvedToolUse_Inr_iff [of "w_session w" tid]
  by (auto simp: ApproveToolUse_def DenyToolUse_def split: option.splits sum.splits)

end
