(* ===== verification/Provider.thy ===== *)
theory Provider
  imports Hooks
begin

text \<open>
  What the loop needs to know of a provider: the errors a call can return
  (\<open>perr\<close>, one field per interface the code asks of an \<^verbatim>\<open>error\<close>), \<^verbatim>\<open>retry_policy.go\<close>,
  \<^verbatim>\<open>usage.go\<close> and the mock provider of \<^verbatim>\<open>provider.go\<close>.
\<close>

section \<open>Provider errors\<close>

text \<open>
  \<open>pe_status\<close>: the error is a \<^verbatim>\<open>statusError\<close>; \<open>pe_retryable\<close>: it has \<^verbatim>\<open>ProviderRetryable\<close>;
  \<open>pe_net\<close>: it is a \<^verbatim>\<open>net.Error\<close> with these \<^verbatim>\<open>Timeout\<close> and \<^verbatim>\<open>Temporary\<close>; \<open>pe_class\<close>: it is a
  \<^verbatim>\<open>providerClassError\<close>; \<open>pe_type\<close> is its \<^verbatim>\<open>%T\<close>.
\<close>

record perr =
  pe_status :: "int option"
  pe_retryable :: "bool option"
  pe_net :: "(bool \<times> bool) option"
  pe_class :: "string option"
  pe_type :: string
  pe_message :: string

definition providerStatus :: "perr \<Rightarrow> int" where
  "providerStatus err = (case pe_status err of Some s \<Rightarrow> s | None \<Rightarrow> 0)"

definition providerStatusPayload :: "perr \<Rightarrow> val" where
  "providerStatusPayload err =
     (if 0 < providerStatus err then VFloat (float_of_int (providerStatus err)) else VNil)"

definition providerErrorClass :: "perr \<Rightarrow> string" where
  "providerErrorClass err =
     (case pe_class err of
        Some c \<Rightarrow> c
      | None \<Rightarrow> if pe_status err \<noteq> None then ''Harnas::Providers::HTTPError'' else pe_type err)"

text \<open>\<^verbatim>\<open>ProviderResponseIntegrityError\<close> as a provider error.\<close>

definition response_integrity_error :: "string \<Rightarrow> string \<Rightarrow> perr" where
  "response_integrity_error reason message =
     \<lparr>pe_status = None, pe_retryable = Some False, pe_net = None, pe_class = None,
      pe_type = ''*harnas.ProviderResponseIntegrityError'',
      pe_message = ''provider response integrity violation ('' @ reason @ ''): '' @ message\<rparr>"

section \<open>RetryPolicy\<close>

record retry_decision =
  rd_retry :: bool
  rd_delay :: int

record retry_policy =
  rp_max :: int
  rp_http :: "(int \<times> bool) list option"
  rp_backoff :: "(int \<Rightarrow> int) option"

text \<open>\<^verbatim>\<open>time.Duration(250*(1<<(attempt-1))) * time.Millisecond\<close>, in nanoseconds.  A shift by a
  negative count panics; attempts count from 1.\<close>

definition default_backoff :: "int \<Rightarrow> int" where
  "default_backoff attempt = wrap64 (wrap64 (250 * wrap64 (2 ^ nat (attempt - 1))) * 1000000)"

definition default_retryable_http :: "(int \<times> bool) list" where
  "default_retryable_http =
     [(408, True), (429, True), (500, True), (502, True), (503, True), (504, True), (529, True)]"

definition DefaultRetryPolicy :: retry_policy where
  "DefaultRetryPolicy =
     \<lparr>rp_max = 3, rp_http = Some default_retryable_http, rp_backoff = Some default_backoff\<rparr>"

definition retryable :: "retry_policy \<Rightarrow> perr \<Rightarrow> bool" where
  "retryable p err =
     (let status = providerStatus err
      in if 0 < status
         then aget False (case rp_http p of None \<Rightarrow> default_retryable_http | Some m \<Rightarrow> m) status
         else case pe_retryable err of
                Some b \<Rightarrow> b
              | None \<Rightarrow>
                  if (case pe_net err of Some (t, tmp) \<Rightarrow> t \<or> tmp | None \<Rightarrow> False) then True
                  else let name = to_lower (pe_message err)
                       in str_contains name ''connection reset'' \<or>
                          str_contains name ''connection refused'' \<or> str_contains name ''timeout'')"

definition max_attempts :: "retry_policy \<Rightarrow> int" where
  "max_attempts p = (if rp_max p = 0 then 3 else rp_max p)"

definition Decide :: "retry_policy \<Rightarrow> perr \<Rightarrow> int \<Rightarrow> retry_decision" where
  "Decide p err attempt =
     (if attempt \<ge> max_attempts p \<or> \<not> retryable p err then \<lparr>rd_retry = False, rd_delay = 0\<rparr>
      else \<lparr>rd_retry = True,
            rd_delay = (case rp_backoff p of None \<Rightarrow> default_backoff attempt | Some f \<Rightarrow> f attempt)\<rparr>)"

lemma Decide_bound: "rd_retry (Decide p err attempt) \<Longrightarrow> attempt < max_attempts p \<and> retryable p err"
  by (auto simp: Decide_def split: if_splits)

text \<open>A malformed provider response is never retried.\<close>

lemma Decide_response_integrity: "\<not> rd_retry (Decide p (response_integrity_error r m) attempt)"
  by (auto simp: Decide_def retryable_def providerStatus_def response_integrity_error_def Let_def)

text \<open>The default delays: 250 ms, doubled at each attempt, without overflow up to attempt 35.\<close>

lemma default_backoff_exact:
  assumes "1 \<le> attempt" and "attempt \<le> 35"
  shows "default_backoff attempt = 250000000 * 2 ^ nat (attempt - 1)"
proof -
  have "nat (attempt - 1) \<le> 34" using assms by simp
  then have le: "(2::int) ^ nat (attempt - 1) \<le> 2 ^ 34" by (rule power_increasing) simp
  define x :: int where "x = 2 ^ nat (attempt - 1)"
  have x: "0 < x" "x \<le> 2 ^ 34" using le by (simp_all add: x_def)
  have "wrap64 x = x" and "wrap64 (250 * x) = 250 * x"
    and "wrap64 (250 * x * 1000000) = 250 * x * 1000000"
    using x by (auto intro: wrap64_id)
  then show ?thesis by (simp add: default_backoff_def x_def [symmetric])
qed

section \<open>Usage\<close>

definition isCanonicalUsage :: "payload \<Rightarrow> bool" where
  "isCanonicalUsage usage \<longleftrightarrow>
     usage \<noteq> [] \<and> phas usage ''input_tokens'' \<and> phas usage ''output_tokens'' \<and>
     phas usage ''total_tokens'' \<and> phas usage ''provenance'' \<and> phas usage ''provider_raw''"

definition cloneProviderRaw :: "payload \<Rightarrow> val" where
  "cloneProviderRaw usage = (if usage = [] then VNil else VMap usage)"

definition usageProvenance :: "payload \<Rightarrow> string" where
  "usageProvenance usage = (if usage = [] then ''unavailable'' else ''provider_reported'')"

definition NormalizeUsage :: "val \<Rightarrow> payload" where
  "NormalizeUsage value =
     (let usage = asMap value
      in if isCanonicalUsage usage
         then [(''input_tokens'', VInt (asInt (pget usage ''input_tokens''))),
               (''output_tokens'', VInt (asInt (pget usage ''output_tokens''))),
               (''total_tokens'', VInt (asInt (pget usage ''total_tokens''))),
               (''cache_read_input_tokens'', optionalInt (pget usage ''cache_read_input_tokens'')),
               (''cache_write_input_tokens'', optionalInt (pget usage ''cache_write_input_tokens'')),
               (''reasoning_tokens'', optionalInt (pget usage ''reasoning_tokens'')),
               (''provider_raw'', pget usage ''provider_raw''),
               (''provenance'', VStr (stringValue (pget usage ''provenance'')))]
         else
           let input = asInt (firstNonEmptyAny [pget usage ''input_tokens'', pget usage ''prompt_tokens'',
                         pget usage ''promptTokenCount'']);
               output = asInt (firstNonEmptyAny [pget usage ''output_tokens'',
                          pget usage ''completion_tokens'', pget usage ''candidatesTokenCount'']);
               total0 = asInt (firstNonEmptyAny [pget usage ''total_tokens'', pget usage ''totalTokenCount'']);
               total = (if total0 = 0 \<and> (0 < input \<or> 0 < output) then wrap64 (input + output) else total0)
           in [(''input_tokens'', VInt input), (''output_tokens'', VInt output),
               (''total_tokens'', VInt total),
               (''cache_read_input_tokens'', optionalInt (firstNonEmptyAny
                  [nestedValue usage [''prompt_tokens_details'', ''cached_tokens''],
                   nestedValue usage [''input_token_details'', ''cache_read''],
                   pget usage ''cache_read_input_tokens''])),
               (''cache_write_input_tokens'', optionalInt (firstNonEmptyAny
                  [nestedValue usage [''cache_creation'', ''input_tokens''],
                   pget usage ''cache_write_input_tokens''])),
               (''reasoning_tokens'', optionalInt (firstNonEmptyAny
                  [nestedValue usage [''completion_tokens_details'', ''reasoning_tokens''],
                   pget usage ''reasoning_tokens''])),
               (''provider_raw'', cloneProviderRaw usage),
               (''provenance'', VStr (usageProvenance usage))])"

text \<open>The payload map is updated in place and returned.\<close>

definition normalizeAssistantPayload :: "payload \<Rightarrow> string \<Rightarrow> string \<Rightarrow> payload" where
  "normalizeAssistantPayload p provider model =
     (let p1 = (if phas p ''usage'' then pset ''usage'' (VMap (NormalizeUsage (pget p ''usage''))) p
                else pset ''usage'' (VMap (NormalizeUsage VNil)) p);
          p2 = (if provider \<noteq> [] then pset ''provider'' (VStr provider) p1 else p1);
          p3 = (if stringValue (pget p2 ''model'') = [] \<and> model \<noteq> []
                then pset ''model'' (VStr model) p2 else p2)
      in p3)"

lemma NormalizeUsage_canonical: "isCanonicalUsage (NormalizeUsage v)"
  by (simp add: NormalizeUsage_def isCanonicalUsage_def Let_def)

lemma normalizeAssistantPayload_usage:
  "pget (normalizeAssistantPayload p provider model) ''usage'' =
     VMap (NormalizeUsage (if phas p ''usage'' then pget p ''usage'' else VNil))"
  by (simp add: normalizeAssistantPayload_def Let_def)

lemma normalizeAssistantPayload_other:
  "k \<noteq> ''usage'' \<Longrightarrow> k \<noteq> ''provider'' \<Longrightarrow> k \<noteq> ''model'' \<Longrightarrow>
   pget (normalizeAssistantPayload p provider model) k = pget p k"
  by (simp add: normalizeAssistantPayload_def Let_def)

text \<open>Normalising a normalised usage changes nothing, as long as the counts are integers a
  float64 represents exactly (they are read back through \<^verbatim>\<open>asFloat\<close>).\<close>

definition exact_field :: "val \<Rightarrow> bool" where
  "exact_field v = (case v of VInt n \<Rightarrow> \<bar>n\<bar> \<le> 2 ^ 53 | _ \<Rightarrow> True)"

definition usage_exact :: "payload \<Rightarrow> bool" where
  "usage_exact u \<longleftrightarrow>
     list_all (\<lambda>k. exact_field (pget u k))
       [''input_tokens'', ''output_tokens'', ''total_tokens'', ''cache_read_input_tokens'',
        ''cache_write_input_tokens'', ''reasoning_tokens'']"

lemma optionalInt_idem: "exact_field (optionalInt v) \<Longrightarrow> optionalInt (optionalInt v) = optionalInt v"
  by (auto simp: optionalInt_def exact_field_def)

lemma asInt_exact: "exact_field (VInt n) \<Longrightarrow> asInt (VInt n) = n"
  by (simp add: exact_field_def)

lemma NormalizeUsage_shape:
  obtains a b c d e f g h where
    "NormalizeUsage v = [(''input_tokens'', VInt a), (''output_tokens'', VInt b),
      (''total_tokens'', VInt c), (''cache_read_input_tokens'', optionalInt d),
      (''cache_write_input_tokens'', optionalInt e), (''reasoning_tokens'', optionalInt f),
      (''provider_raw'', g), (''provenance'', VStr h)]"
  by (cases "isCanonicalUsage (asMap v)") (simp_all add: NormalizeUsage_def Let_def)

lemma NormalizeUsage_idem:
  assumes "usage_exact (NormalizeUsage v)"
  shows "NormalizeUsage (VMap (NormalizeUsage v)) = NormalizeUsage v"
proof (rule NormalizeUsage_shape [of v])
  fix a b c d e f g h
  assume eq: "NormalizeUsage v = [(''input_tokens'', VInt a), (''output_tokens'', VInt b),
      (''total_tokens'', VInt c), (''cache_read_input_tokens'', optionalInt d),
      (''cache_write_input_tokens'', optionalInt e), (''reasoning_tokens'', optionalInt f),
      (''provider_raw'', g), (''provenance'', VStr h)]"
  have ex: "exact_field (VInt a)" "exact_field (VInt b)" "exact_field (VInt c)"
    "exact_field (optionalInt d)" "exact_field (optionalInt e)" "exact_field (optionalInt f)"
    using assms by (simp_all add: usage_exact_def eq)
  show ?thesis
    unfolding eq
    by (simp add: NormalizeUsage_def isCanonicalUsage_def Let_def asInt_exact [OF ex(1)]
        asInt_exact [OF ex(2)] asInt_exact [OF ex(3)] optionalInt_idem ex)
qed

section \<open>MockProvider\<close>

definition MockProvider_Call :: "string \<Rightarrow> payload \<Rightarrow> payload" where
  "MockProvider_Call text request =
     (let t = (if text = [] then ''ok'' else text)
      in [(''content'', VList [VMap [(''type'', VStr ''text''), (''text'', VStr t)]]),
          (''stop_reason'', VStr ''end_turn''),
          (''usage'', VMap [(''input_tokens'', VFloat 0), (''output_tokens'', VFloat 0)])])"

end
