(* ===== verification/AgentLoop.thy ===== *)
theory AgentLoop
  imports Tools Provider
begin

text \<open>
  \<^verbatim>\<open>agent_loop.go\<close>: one run of the agent.  A run checks the log, settles what an earlier run
  left open, then alternates provider steps and tool batches.  The projection, the provider
  (plain or streaming), the ingestor and the callbacks are fields of the environment; a
  \<^verbatim>\<open>TurnFailed\<close> panic travels as the left side of an \<open>act\<close> and ends the run.  Delays between
  attempts and durations are left out.
\<close>

section \<open>The environment\<close>

datatype projection_error = CapabilityMismatch string | ProjectionFailed string

record ('h, 'st, 'w) loop_env = "('h, 'st, 'w) run_env" +
  al_project :: "event list \<Rightarrow> 'w \<Rightarrow> projection_error + payload"
  al_projection_name :: string
  al_digest :: "val \<Rightarrow> string + string"
  al_provider :: "payload \<Rightarrow> 'w \<Rightarrow> (perr + payload) \<times> 'w"
  al_stream :: "(payload \<Rightarrow> 'w \<Rightarrow> (event_args list \<times> perr option) \<times> 'w) option"
  al_ProviderKind :: string
  al_provider_name :: string
  al_ingest :: "payload \<Rightarrow> 'w \<Rightarrow> (perr + event_args list) \<times> 'w"
  al_retry :: "retry_policy option"
  al_MaxTurns :: int
  al_on_stream :: "(event \<Rightarrow> 'w \<Rightarrow> 'w) option"

datatype run_error =
    RunStorage storage_error
  | RunIntegrity "violation list"
  | RunHash string
  | RunResponse string string
  | RunProjection projection_error

fun run_error_of_prepare :: "prepare_error \<Rightarrow> run_error" where
  "run_error_of_prepare (TranscriptIntegrity vs) = RunIntegrity vs"
| "run_error_of_prepare (HashFailure m) = RunHash m"

datatype attempt_error = AttemptIntegrity "violation list" | AttemptProvider perr

record provider_turn =
  tn_stopReason :: string
  tn_reason :: string

definition turn_reason :: "string \<Rightarrow> provider_turn" where
  "turn_reason r = \<lparr>tn_stopReason = [], tn_reason = r\<rparr>"

definition RunReasonIncompleteToolBatch :: string where
  "RunReasonIncompleteToolBatch = ''incomplete_tool_batch''"

definition providerKind :: "('h, 'st, 'w, 'x) loop_env_scheme \<Rightarrow> string" where
  "providerKind env = (if al_ProviderKind env \<noteq> [] then al_ProviderKind env else al_provider_name env)"

section \<open>Reading the log\<close>

definition terminalRuntimeError :: "event list \<Rightarrow> bool" where
  "terminalRuntimeError es = list_ex terminal_event es"

fun string_result_ids :: "event list \<Rightarrow> string list" where
  "string_result_ids [] = []"
| "string_result_ids (e # es) =
     (if ev_type e = EventToolResult
      then case as_string (pget (ev_payload e) ''tool_use_id'') of
             Some tid \<Rightarrow> tid # string_result_ids es
           | None \<Rightarrow> string_result_ids es
      else string_result_ids es)"

definition pendingToolUses :: "event list \<Rightarrow> event list" where
  "pendingToolUses es =
     (let fulfilled = string_result_ids es
      in filter (\<lambda>e. ev_type e = EventToolUse \<and> use_id e \<notin> set fulfilled) es)"

definition matchingToolResult :: "event list \<Rightarrow> event \<Rightarrow> event option" where
  "matchingToolResult es toolUse =
     find_last (\<lambda>e. ev_type e = EventToolResult \<and>
        pget (ev_payload e) ''tool_use_id'' = VStr (use_id toolUse)) es"

section \<open>closeProviderStep\<close>

record step_scan =
  sc_staged :: "event_args list"
  sc_uses :: "event_args list"
  sc_ids :: "string list"
  sc_count :: int
  sc_seen :: bool
  sc_stop :: string

definition close_event :: "event_args \<Rightarrow> step_scan \<Rightarrow> (string \<times> string) + step_scan" where
  "close_event e sc =
     (let stage = (\<lambda>s. s\<lparr>sc_staged := sc_staged s @ [e]\<rparr>); tid = ea_str e ''id''
      in if ea_type e = EventAssistantMessage
         then Inr (stage (sc\<lparr>sc_count := sc_count sc + 1, sc_seen := True,
                             sc_stop := ea_str e ''stop_reason''\<rparr>))
         else if ea_type e = EventToolUse
         then if \<not> sc_seen sc
              then Inl (''tool_use_before_assistant'', ''provider emitted tool_use before its assistant message'')
              else if tid = []
              then Inl (code_string IntegrityMissingToolUseID, ''provider emitted a tool_use without an id'')
              else if tid \<in> set (sc_ids sc)
              then Inl (code_string IntegrityDuplicateToolUseID,
                        ''provider emitted duplicate tool_use id '' @ go_quote tid)
              else if ea_str e ''name'' = []
              then Inl (''missing_tool_name'', ''provider tool_use '' @ go_quote tid @ '' has no name'')
              else Inr (stage (sc\<lparr>sc_ids := sc_ids sc @ [tid], sc_uses := sc_uses sc @ [e]\<rparr>))
         else if ea_type e = EventToolResult
         then Inl (code_string IntegrityOrphanToolResult,
                   ''provider response unexpectedly contained a tool_result'')
         else Inr (stage sc))"

fun close_scan :: "event_args list \<Rightarrow> step_scan \<Rightarrow> (string \<times> string) + step_scan" where
  "close_scan [] sc = Inr sc"
| "close_scan (e # es) sc =
     (case close_event e sc of Inl err \<Rightarrow> Inl err | Inr sc' \<Rightarrow> close_scan es sc')"

definition start_scan :: step_scan where
  "start_scan =
     \<lparr>sc_staged = [], sc_uses = [], sc_ids = [], sc_count = 0, sc_seen = False, sc_stop = []\<rparr>"

definition incomplete_result :: "string \<Rightarrow> event_args \<Rightarrow> event_args" where
  "incomplete_result stopReason u =
     \<lparr>ea_type = EventToolResult,
      ea_payload =
        [(''tool_use_id'', VStr (ea_str u ''id'')), (''output'', VNil),
         (''error'', VStr (''tool '' @ ea_str u ''name''
            @ '' did not complete: assistant turn ended with stop_reason '' @ stopReason
            @ '' before a tool result was recorded'')),
         (''error_class'', VStr ''IncompleteToolResult''), (''reason'', VStr ''incomplete_tool_result''),
         (''stop_reason'', VStr stopReason)]\<rparr>"

definition closeProviderStep ::
    "event_args list \<Rightarrow> (string \<times> string) + (provider_turn \<times> event_args list)" where
  "closeProviderStep events =
     (case close_scan events start_scan of
        Inl err \<Rightarrow> Inl err
      | Inr sc \<Rightarrow>
          if sc_count sc \<noteq> 1
          then Inl (''assistant_message_count'', ''provider step produced '' @ show_int (sc_count sc)
                      @ '' assistant messages, want exactly one'')
          else if sc_stop sc = []
          then Inl (''missing_stop_reason'', ''provider assistant message has no normalized stop_reason'')
          else if sc_stop sc = ''tool_use'' \<and> sc_uses sc = []
          then Inl (''missing_tool_use'', ''provider ended with tool_use but emitted no complete tool calls'')
          else if sc_uses sc = [] \<or> sc_stop sc = ''tool_use''
          then Inr (\<lparr>tn_stopReason = sc_stop sc, tn_reason = []\<rparr>, sc_staged sc)
          else Inr (\<lparr>tn_stopReason = sc_stop sc, tn_reason = RunReasonIncompleteToolBatch\<rparr>,
                    sc_staged sc @ map (incomplete_result (sc_stop sc)) (sc_uses sc)))"

section \<open>Provider attempts\<close>

definition appendProviderError ::
    "('h, 'st, 'w, 'x) loop_env_scheme \<Rightarrow> perr \<Rightarrow> int \<Rightarrow> bool \<Rightarrow> ('h, 'st, 'w) world \<Rightarrow> ('h, 'st, 'w) world"
where
  "appendProviderError env err attempt terminal w =
     append_w env EventProviderError
       [(''provider'', VStr (providerKind env)), (''status'', providerStatusPayload err),
        (''error_class'', VStr (providerErrorClass err)), (''message'', VStr (pe_message err)),
        (''attempt'', VFloat (float_of_int attempt)), (''terminal'', VBool terminal)] w"

definition appendRuntimeError ::
    "('h, 'st, 'w, 'x) loop_env_scheme \<Rightarrow> string \<Rightarrow> string \<Rightarrow> ('h, 'st, 'w) world \<Rightarrow> ('h, 'st, 'w) world"
where
  "appendRuntimeError env reason message w =
     append_w env EventRuntimeError
       [(''source'', VStr ''projection''), (''handler'', VStr (al_projection_name env)),
        (''error_class'', VStr ''CapabilityMismatchError''), (''message'', VStr message),
        (''reason'', VStr reason), (''terminal'', VBool True)] w"

text \<open>The stream branch of \<^verbatim>\<open>handleStreamEventWithIdentity\<close>: only observers see the event.\<close>

definition handleStreamEvent ::
    "('h, 'st, 'w, 'x) loop_env_scheme \<Rightarrow> event_args \<Rightarrow> ('h, 'st, 'w) world \<Rightarrow> ('h, 'st, 'w) world"
where
  "handleStreamEvent env a w =
     (if isStreamObservationEvent (ea_type a)
      then
        let e = zero_event\<lparr>ev_seq := -1, ev_id := ''stream'', ev_type := ea_type a, ev_payload := ea_payload a\<rparr>;
            w1 = on_log (emit (ObsStreamEvent e)) w
        in case al_on_stream env of
             None \<Rightarrow> w1
           | Some f \<Rightarrow> if isDeltaEvent (ea_type a) then w1\<lparr>w_ext := f e (w_ext w1)\<rparr> else w1
      else w)"

text \<open>The callback of the stream call: what it stages, in order.\<close>

definition stage_stream :: "string \<Rightarrow> string \<Rightarrow> event_args list \<Rightarrow> event_args list" where
  "stage_stream kind model events =
     map (\<lambda>e. if ea_type e = EventAssistantMessage
              then e\<lparr>ea_payload := normalizeAssistantPayload (ea_payload e) kind model\<rparr> else e)
       (filter (\<lambda>e. \<not> isStreamObservationEvent (ea_type e)) events)"

definition stage_ingested :: "string \<Rightarrow> payload \<Rightarrow> event_args list \<Rightarrow> event_args list" where
  "stage_ingested kind request events =
     map (\<lambda>e. if ea_type e = EventAssistantMessage
              then e\<lparr>ea_payload := normalizeAssistantPayload (ea_payload e) kind
                       (stringValue (firstNonEmptyAny [pget (ea_payload e) ''model'', pget request ''model'']))\<rparr>
              else e) events"

definition stale_violation :: "int \<Rightarrow> violation" where
  "stale_violation n =
     \<lparr>vi_domain = IntegrityDomainEffectiveTranscript, vi_code = IntegrityPreparedTranscriptStale,
      vi_seq = n, vi_use_id = [], vi_message = ''session changed after provider preparation''\<rparr>"

definition stream_attempt ::
    "('h, 'st, 'w, 'x) loop_env_scheme \<Rightarrow> (payload \<Rightarrow> 'w \<Rightarrow> (event_args list \<times> perr option) \<times> 'w) \<Rightarrow>
     payload \<Rightarrow> ('h, 'st, 'w, attempt_error + event_args list) act"
where
  "stream_attempt env call request w =
     (case call request (w_ext w) of
        ((events, err), ext) \<Rightarrow>
          let kind = providerKind env;
              staged = stage_stream kind (stringValue (pget request ''model'')) events;
              w1 = fold (handleStreamEvent env) events (w\<lparr>w_ext := ext\<rparr>)
          in case err of
               Some e \<Rightarrow> (Inr (Inl (AttemptProvider e)),
                          on_log (emit (ObsProviderFailed kind (pe_message e))) w1)
             | None \<Rightarrow>
                 bindA (Invoke env ''post_provider_call'' (CtxResponse request None))
                   (\<lambda>_. thenA (on_log (emit (ObsProviderResponded kind None))) (returnA (Inr staged))) w1)"

definition plain_attempt ::
    "('h, 'st, 'w, 'x) loop_env_scheme \<Rightarrow> payload \<Rightarrow> ('h, 'st, 'w, attempt_error + event_args list) act"
where
  "plain_attempt env request w =
     (case al_provider env request (w_ext w) of
        (Inl e, ext) \<Rightarrow>
          (Inr (Inl (AttemptProvider e)),
           on_log (emit (ObsProviderFailed (providerKind env) (pe_message e))) (w\<lparr>w_ext := ext\<rparr>))
      | (Inr response, ext) \<Rightarrow>
          bindA (Invoke env ''post_provider_call'' (CtxResponse request (Some response)))
            (\<lambda>_. thenA (on_log (emit (ObsProviderResponded (providerKind env) (Some response))))
               (\<lambda>w1. case al_ingest env response (w_ext w1) of
                        (Inl e, ext1) \<Rightarrow> (Inr (Inl (AttemptProvider e)), w1\<lparr>w_ext := ext1\<rparr>)
                      | (Inr events, ext1) \<Rightarrow>
                          (Inr (Inr (stage_ingested (providerKind env) request events)), w1\<lparr>w_ext := ext1\<rparr>)))
            (w\<lparr>w_ext := ext\<rparr>))"

definition runOneProviderAttempt ::
    "('h, 'st, 'w, 'x) loop_env_scheme \<Rightarrow> prepared_transcript \<Rightarrow> payload \<Rightarrow>
     ('h, 'st, 'w, attempt_error + event_args list) act"
where
  "runOneProviderAttempt env prepared request =
     bindA (Invoke env ''pre_provider_call'' (CtxRequest request))
       (\<lambda>_ w.
          if \<not> pt_current (al_digest env) prepared (Some (w_session w))
          then (Inr (Inl (AttemptIntegrity [stale_violation (pt_nextSeq prepared)])), w)
          else
            let w1 = on_log (emit (ObsProviderCalled (providerKind env) request)) w
            in case al_stream env of
                 Some call \<Rightarrow> stream_attempt env call request w1
               | None \<Rightarrow> plain_attempt env request w1)"

text \<open>\<^verbatim>\<open>callProviderWithRetry\<close>: \<open>Inr None\<close> is "no response, the failure is in the log".  The
  loop ends because \<^verbatim>\<open>Decide\<close> never retries at or after the last attempt.\<close>

definition prepare_again ::
    "('h, 'st, 'w, 'x) loop_env_scheme \<Rightarrow> ('h, 'st, 'w) world \<Rightarrow> run_error + (prepared_transcript \<times> payload)"
where
  "prepare_again env w =
     (case PrepareProviderCall (al_digest env) (Some (w_session w)) of
        Inl err \<Rightarrow> Inl (run_error_of_prepare err)
      | Inr prepared \<Rightarrow>
          (case pt_Project (\<lambda>es. al_project env es (w_ext w)) prepared of
             Inl (Inl err) \<Rightarrow> Inl (run_error_of_prepare err)
           | Inl (Inr err) \<Rightarrow> Inl (RunProjection err)
           | Inr request \<Rightarrow> Inr (prepared, request)))"

function call_loop ::
    "('h, 'st, 'w, 'x) loop_env_scheme \<Rightarrow> retry_policy \<Rightarrow> prepared_transcript \<Rightarrow> payload \<Rightarrow> int \<Rightarrow>
     ('h, 'st, 'w, run_error + event_args list option) act"
where
  "call_loop env policy prepared request attempt w =
     (case runOneProviderAttempt env prepared request w of
        (Inl panic, w1) \<Rightarrow> (Inl panic, w1)
      | (Inr (Inr events), w1) \<Rightarrow> (Inr (Inr (Some events)), w1)
      | (Inr (Inl (AttemptIntegrity vs)), w1) \<Rightarrow> (Inr (Inl (RunIntegrity vs)), w1)
      | (Inr (Inl (AttemptProvider err)), w1) \<Rightarrow>
          let decision = Decide policy err attempt
          in if \<not> rd_retry decision
             then
               let w2 = appendProviderError env err attempt True w1
               in (case lg_err (w_log w2) of
                     Some serr \<Rightarrow> (Inr (Inl (RunStorage serr)), w2)
                   | None \<Rightarrow> (Inr (Inr None), w2))
             else
               let w2 = appendProviderError env err attempt False w1
               in (case lg_err (w_log w2) of
                     Some serr \<Rightarrow> (Inr (Inl (RunStorage serr)), w2)
                   | None \<Rightarrow>
                       (case prepare_again env w2 of
                          Inl rerr \<Rightarrow> (Inr (Inl rerr), w2)
                        | Inr (prepared', request') \<Rightarrow>
                            call_loop env policy prepared' request' (attempt + 1) w2)))"
  by pat_completeness auto
termination
  by (relation "measure (\<lambda>(env, policy, prepared, request, attempt, w). nat (max_attempts policy - attempt))")
    (auto dest: Decide_bound)

declare call_loop.simps [simp del]

definition callProviderWithRetry ::
    "('h, 'st, 'w, 'x) loop_env_scheme \<Rightarrow> prepared_transcript \<Rightarrow> payload \<Rightarrow>
     ('h, 'st, 'w, run_error + event_args list option) act"
where
  "callProviderWithRetry env prepared request =
     call_loop env (case al_retry env of None \<Rightarrow> DefaultRetryPolicy | Some p \<Rightarrow> p) prepared request 1"

section \<open>runTurn\<close>

text \<open>The end of a turn: the step is closed and its events become durable together.\<close>

definition commit_step ::
    "('h, 'st, 'w, 'x) loop_env_scheme \<Rightarrow> event_args list \<Rightarrow>
     ('h, 'st, 'w, run_error + provider_turn) act"
where
  "commit_step env events w =
     (case closeProviderStep events of
        Inl (r, m) \<Rightarrow> (Inr (Inl (RunResponse r m)), w)
      | Inr (turn, staged) \<Rightarrow>
          (case AppendBatch (he_log env) staged (w_log w) of
             (Inl err, lg) \<Rightarrow> (Inr (Inl (RunStorage err)), on_log (\<lambda>_. lg) w)
           | (Inr es, lg) \<Rightarrow> (Inr (Inr turn), on_log (\<lambda>_. lg) w)))"

definition request_turn ::
    "('h, 'st, 'w, 'x) loop_env_scheme \<Rightarrow> prepared_transcript \<Rightarrow> payload \<Rightarrow>
     ('h, 'st, 'w, run_error + provider_turn) act"
where
  "request_turn env prepared request =
     bindA (Invoke env ''post_projection'' (CtxRequest request))
       (\<lambda>_. thenA (\<lambda>w. on_log (emit (ObsProjectionInvoked (al_projection_name env)
                                 (int (length (w_events w))) request)) w)
         (bindA (callProviderWithRetry env prepared request)
           (\<lambda>res w.
              case res of
                Inl err \<Rightarrow> (Inr (Inl err), w)
              | Inr events \<Rightarrow>
                  (case lg_err (w_log w) of
                     Some serr \<Rightarrow> (Inr (Inl (RunStorage serr)), w)
                   | None \<Rightarrow>
                       (case events of
                          None \<Rightarrow> (Inr (Inr (turn_reason ''provider_failed'')), w)
                        | Some evs \<Rightarrow> commit_step env evs w)))))"

definition runTurn ::
    "('h, 'st, 'w, 'x) loop_env_scheme \<Rightarrow> ('h, 'st, 'w, run_error + provider_turn) act"
where
  "runTurn env =
     bindA (Invoke env ''pre_projection'' CtxSession)
       (\<lambda>_ w.
          if terminalRuntimeError (w_events w) then (Inr (Inr (turn_reason ''runtime_failed'')), w)
          else
            case PrepareProviderCall (al_digest env) (Some (w_session w)) of
              Inl err \<Rightarrow> (Inr (Inl (run_error_of_prepare err)), w)
            | Inr prepared \<Rightarrow>
                (case pt_Project (\<lambda>es. al_project env es (w_ext w)) prepared of
                   Inl (Inl err) \<Rightarrow> (Inr (Inl (run_error_of_prepare err)), w)
                 | Inl (Inr (CapabilityMismatch m)) \<Rightarrow>
                     (Inr (Inr (turn_reason ''runtime_failed'')),
                      appendRuntimeError env ''capability_mismatch'' m w)
                 | Inl (Inr (ProjectionFailed m)) \<Rightarrow> (Inr (Inl (RunProjection (ProjectionFailed m))), w)
                 | Inr request \<Rightarrow> request_turn env prepared request w))"

section \<open>Dispatching tools\<close>

fun deniedByHook :: "val list \<Rightarrow> string option" where
  "deniedByHook [] = None"
| "deniedByHook (d # ds) =
     (case as_map d of
        None \<Rightarrow> deniedByHook ds
      | Some result \<Rightarrow>
          (case as_bool (pget result ''allow'') of
             Some False \<Rightarrow> Some (stringValue (pget result ''reason''))
           | _ \<Rightarrow> deniedByHook ds))"

fun pendingApprovalByHook :: "val list \<Rightarrow> (string \<times> string) option" where
  "pendingApprovalByHook [] = None"
| "pendingApprovalByHook (d # ds) =
     (case as_map d of
        None \<Rightarrow> pendingApprovalByHook ds
      | Some result \<Rightarrow>
          (case as_bool (pget result ''pending_approval'') of
             Some True \<Rightarrow> Some (stringValue (pget result ''reason''), stringValue (pget result ''requested_by''))
           | _ \<Rightarrow> pendingApprovalByHook ds))"

fun toolUseWithArgumentOverrides :: "event \<Rightarrow> val list \<Rightarrow> event" where
  "toolUseWithArgumentOverrides toolUse [] = toolUse"
| "toolUseWithArgumentOverrides toolUse (d # ds) =
     (case as_map d of
        None \<Rightarrow> toolUseWithArgumentOverrides toolUse ds
      | Some result \<Rightarrow>
          (case as_map (pget result ''arguments'') of
             None \<Rightarrow> toolUseWithArgumentOverrides toolUse ds
           | Some arguments \<Rightarrow>
               zero_event\<lparr>ev_seq := ev_seq toolUse, ev_id := ev_id toolUse, ev_type := ev_type toolUse,
                 ev_payload := pset ''arguments'' (VMap arguments) (ev_payload toolUse)\<rparr>))"

text \<open>First pass: the decisions of the hooks for every pending use.\<close>

fun decide_all ::
    "('h, 'st, 'w, 'x) hook_env_scheme \<Rightarrow> event list \<Rightarrow> ('h, 'st, 'w, (event \<times> val list) list) act"
where
  "decide_all env [] w = (Inr [], w)"
| "decide_all env (u # us) w =
     bindA (Invoke env ''pre_tool_use'' (CtxToolUse u))
       (\<lambda>ds. bindA (decide_all env us) (\<lambda>rest. returnA ((u, ds) # rest))) w"

fun approval_requests :: "(event \<times> val list) list \<Rightarrow> (event \<times> string \<times> string) list" where
  "approval_requests [] = []"
| "approval_requests ((u, ds) # rest) =
     (if deniedByHook ds \<noteq> None then approval_requests rest
      else case pendingApprovalByHook ds of
             Some (reason, by) \<Rightarrow> (u, reason, by) # approval_requests rest
           | None \<Rightarrow> approval_requests rest)"

definition request_payload :: "event \<times> string \<times> string \<Rightarrow> payload" where
  "request_payload r =
     (case r of (u, reason, by) \<Rightarrow>
        [(''tool_use_id'', pget (ev_payload u) ''id''),
         (''reason'', if reason \<noteq> [] then VStr reason else VNil),
         (''requested_by'', if by \<noteq> [] then VStr by else VNil)])"

definition denial_payload :: "event \<Rightarrow> string \<Rightarrow> payload" where
  "denial_payload u reason =
     [(''tool_use_id'', pget (ev_payload u) ''id''), (''output'', VNil),
      (''error'', VStr (''denied by hook: '' @ reason)),
      (''approval'', VMap [(''decision'', VStr ''rejected''), (''rule_matched'', VStr reason),
                           (''applied_diff'', VNil)])]"

text \<open>One tool use of the second pass: it is refused or run, then the hooks see its result.\<close>

definition dispatch_one ::
    "('h, 'st, 'w, 'x) run_env_scheme \<Rightarrow> ('h, 'st, 'w) registry \<Rightarrow> event \<Rightarrow> val list \<Rightarrow>
     ('h, 'st, 'w, val list) act"
where
  "dispatch_one env registry u ds w =
     (let denied = deniedByHook ds;
          w1 = (case denied of
                  Some reason0 \<Rightarrow>
                    let reason = (if reason0 = [] then ''no reason given'' else reason0)
                    in append_w env EventToolResult (denial_payload u reason) w
                | None \<Rightarrow> Runner_Run env registry (toolUseWithArgumentOverrides u ds) w)
      in Invoke env ''post_tool_use''
           (CtxToolResult u (matchingToolResult (w_events w1) u) (denied \<noteq> None)) w1)"

fun dispatch_all ::
    "('h, 'st, 'w, 'x) run_env_scheme \<Rightarrow> ('h, 'st, 'w) registry \<Rightarrow> (event \<times> val list) list \<Rightarrow>
     ('h, 'st, 'w, unit) act"
where
  "dispatch_all env registry [] w = (Inr (), w)"
| "dispatch_all env registry ((u, ds) # rest) w =
     bindA (dispatch_one env registry u ds) (\<lambda>_. dispatch_all env registry rest) w"

definition dispatchPendingTools ::
    "('h, 'st, 'w, 'x) run_env_scheme \<Rightarrow> ('h, 'st, 'w, event list \<times> bool) act"
where
  "dispatchPendingTools env w =
     (let pending = pendingToolUses (w_events w)
      in case re_registry env of
           None \<Rightarrow> (Inr (pending, False), w)
         | Some registry \<Rightarrow>
             bindA (decide_all env pending)
               (\<lambda>decisions.
                  let requests = approval_requests decisions
                  in if requests \<noteq> []
                     then thenA (fold (\<lambda>r. append_w env EventApprovalRequested (request_payload r)) requests)
                            (returnA (pending, True))
                     else bindA (dispatch_all env registry decisions) (\<lambda>_. returnA (pending, False))) w)"

section \<open>Entering a run\<close>

text \<open>The scan of \<^verbatim>\<open>prepareRunEntry\<close>: the ids that wait for a host decision and the ids that were
  resolved without a result.\<close>

fun entry_scan :: "string list \<Rightarrow> event list \<Rightarrow> string list \<Rightarrow> string list \<Rightarrow> string list \<times> string list" where
  "entry_scan pendingIDs [] awaiting resolved = (awaiting, resolved)"
| "entry_scan pendingIDs (e # es) awaiting resolved =
     (let tid = result_id e
      in if tid \<notin> set pendingIDs then entry_scan pendingIDs es awaiting resolved
         else if ev_type e = EventApprovalRequested
         then entry_scan pendingIDs es (List.insert tid awaiting) resolved
         else if ev_type e = EventApprovalResolved
         then entry_scan pendingIDs es (removeAll tid awaiting) (List.insert tid resolved)
         else if ev_type e = EventToolResult
         then entry_scan pendingIDs es (removeAll tid awaiting) (removeAll tid resolved)
         else entry_scan pendingIDs es awaiting resolved)"

definition resolved_violation :: "string \<Rightarrow> violation" where
  "resolved_violation tid =
     \<lparr>vi_domain = IntegrityDomainDurableLog, vi_code = IntegrityResolvedApprovalOpen, vi_seq = -1,
      vi_use_id = tid,
      vi_message = ''approval for tool_use '' @ go_quote tid @ '' was resolved but no result became durable''\<rparr>"

text \<open>\<open>Inr None\<close>: go on; \<open>Inr (Some r)\<close>: blocked with reason \<open>r\<close>.\<close>

definition prepareRunEntry ::
    "('h, 'st, 'w, 'x) loop_env_scheme \<Rightarrow> ('h, 'st, 'w, run_error + string option) act"
where
  "prepareRunEntry env w =
     (let pending = pendingToolUses (w_events w)
      in if pending = [] then (Inr (Inr None), w)
         else
           let (awaiting, resolved) = entry_scan (map use_id pending) (w_events w) [] []
           in if awaiting \<noteq> [] then (Inr (Inr (Some ''awaiting_approval'')), w)
              else if resolved \<noteq> []
              then (Inr (Inl (RunIntegrity (map resolved_violation resolved))), w)
              else
                let stop = (case LastAssistantMessage (w_log w) of
                              None \<Rightarrow> [] | Some m \<Rightarrow> ev_str m ''stop_reason'')
                in if stop \<noteq> ''tool_use''
                   then (case PrepareProviderCall (al_digest env) (Some (w_session w)) of
                           Inl err \<Rightarrow> (Inr (Inl (run_error_of_prepare err)), w)
                         | Inr p \<Rightarrow> (Inr (Inr None), w))
                   else
                     bindA (dispatchPendingTools env)
                       (\<lambda>(_, nowAwaiting) w1.
                          case lg_err (w_log w1) of
                            Some serr \<Rightarrow> (Inr (Inl (RunStorage serr)), w1)
                          | None \<Rightarrow>
                              if nowAwaiting then (Inr (Inr (Some ''awaiting_approval'')), w1)
                              else if pendingToolUses (w_events w1) \<noteq> []
                              then (case PrepareProviderCall (al_digest env) (Some (w_session w1)) of
                                      Inl err \<Rightarrow> (Inr (Inl (run_error_of_prepare err)), w1)
                                    | Inr p \<Rightarrow> (Inr (Inr None), w1))
                              else if terminalRuntimeError (w_events w1)
                              then (Inr (Inr (Some ''runtime_failed'')), w1)
                              else (Inr (Inr None), w1)) w)"

section \<open>Run\<close>

text \<open>
  The result is an error or a pair of a reason and, where Go returns an empty reason with a
  nil error, the empty string.  \<^verbatim>\<open>PrepareProviderCall\<close> after a batch can only be nil when the
  pending uses are not in the effective stream.
\<close>

fun run_turns ::
    "('h, 'st, 'w, 'x) loop_env_scheme \<Rightarrow> nat \<Rightarrow> ('h, 'st, 'w, run_error + string) act"
where
  "run_turns env 0 w = (Inr (Inr ''max_turns_reached''), w)"
| "run_turns env (Suc n) w =
     bindA (runTurn env)
       (\<lambda>res w1.
          case res of
            Inl err \<Rightarrow> (Inr (Inl err), w1)
          | Inr turn \<Rightarrow>
              if tn_reason turn \<noteq> [] then (Inr (Inr (tn_reason turn)), w1)
              else if tn_stopReason turn \<noteq> ''tool_use'' then (Inr (Inr ''end_turn''), w1)
              else
                bindA (dispatchPendingTools env)
                  (\<lambda>(pending, awaiting) w2.
                     case lg_err (w_log w2) of
                       Some serr \<Rightarrow> (Inr (Inl (RunStorage serr)), w2)
                     | None \<Rightarrow>
                         if awaiting then (Inr (Inr ''awaiting_approval''), w2)
                         else if pendingToolUses (w_events w2) \<noteq> []
                         then (case PrepareProviderCall (al_digest env) (Some (w_session w2)) of
                                 Inl err \<Rightarrow> (Inr (Inl (run_error_of_prepare err)), w2)
                               | Inr p \<Rightarrow> (Inr (Inr []), w2))
                         else if pending = [] then (Inr (Inr ''no_pending_tools''), w2)
                         else if terminalRuntimeError (w_events w2) then (Inr (Inr ''runtime_failed''), w2)
                         else run_turns env n w2) w1) w"

definition run_body :: "('h, 'st, 'w, 'x) loop_env_scheme \<Rightarrow> ('h, 'st, 'w, run_error + string) act" where
  "run_body env w =
     (let maxTurns = (if al_MaxTurns env = 0 then 10 else al_MaxTurns env)
      in case StorageErr (w_log w) of
           Some serr \<Rightarrow> (Inr (Inl (RunStorage serr)), w)
         | None \<Rightarrow>
             let violations = AnalyzeDurableLog (Some (w_log w))
             in if violations \<noteq> [] then (Inr (Inl (RunIntegrity violations)), w)
                else if terminalRuntimeError (w_events w) then (Inr (Inr ''runtime_failed''), w)
                else
                  bindA (prepareRunEntry env)
                    (\<lambda>res w1.
                       case res of
                         Inl err \<Rightarrow> (Inr (Inl err), w1)
                       | Inr (Some reason) \<Rightarrow> (Inr (Inr reason), w1)
                       | Inr None \<Rightarrow> run_turns env (nat maxTurns) w1) w)"

text \<open>The deferred \<^verbatim>\<open>recover\<close> turns a \<^verbatim>\<open>TurnFailed\<close> panic into a reason.\<close>

definition Run ::
    "('h, 'st, 'w, 'x) loop_env_scheme \<Rightarrow> ('h, 'st, 'w) world \<Rightarrow> (run_error + string) \<times> ('h, 'st, 'w) world"
where
  "Run env w =
     (case run_body env w of
        (Inl panic, w') \<Rightarrow> (Inr ''runtime_failed'', w')
      | (Inr res, w') \<Rightarrow> (res, w'))"

end
