(* ===== verification/LoopProps.thy ===== *)
theory LoopProps
  imports AgentLoop
begin

text \<open>
  What a run guarantees, over the definitions of theory AgentLoop: the log only grows and
  stays dense, a run that must not start does nothing, a provider step is closed so that the
  log keeps its referential integrity, a batch with a pending approval executes nothing, a
  dispatched batch is answered completely, retries are bounded, and the provider only ever
  sees requests projected from a validated transcript.
\<close>

section \<open>The log only grows\<close>

text \<open>The parties of a run use the log through its interface.\<close>

definition runner_extends :: "('h, 'st, 'w, 'x) run_env_scheme \<Rightarrow> bool" where
  "runner_extends env \<longleftrightarrow> handlers_extend env \<and>
     (\<forall>registry. re_registry env = Some registry \<longrightarrow> tools_extend registry)"

lemma extends_ext [simp]: "extends w (w\<lparr>w_ext := x\<rparr>)"
  by (simp add: extends_def)

lemma extends_handleStreamEvent [simp]: "extends w (handleStreamEvent env a w)"
  by (auto simp: handleStreamEvent_def Let_def extends_def split: option.splits)

context hook_step
begin

lemma act_decide_all: "handlers_rel R env \<Longrightarrow> act_rel R (decide_all env us)"
proof (induction us)
  case Nil
  then show ?case by (simp add: act_rel_def R_refl)
next
  case (Cons u us)
  have eq: "decide_all env (u # us) =
     bindA (Invoke env ''pre_tool_use'' (CtxToolUse u))
       (\<lambda>ds. bindA (decide_all env us) (\<lambda>rest. returnA ((u, ds) # rest)))"
    by (rule ext) simp
  show ?case unfolding eq by (intro act_bind act_return act_Invoke Cons)
qed

end

lemma decide_all_fst: "decide_all env us w = (Inr ds, w') \<Longrightarrow> map fst ds = us"
  by (induction us arbitrary: w ds) (auto simp: bindA_def returnA_def split: prod.splits sum.splits)

lemma act_extends_dispatch_one:
  fixes env :: "('h, 'st, 'w, 'x) run_env_scheme"
  assumes "handlers_extend env" and "tools_extend registry"
  shows "act_extends (dispatch_one env registry u ds)"
proof (rule act_relI)
  fix w :: "('h, 'st, 'w) world"
  have inv: "extends w1 (snd (Invoke env p c w1))" for p c and w1 :: "('h, 'st, 'w) world"
    by (rule act_rel_apply [OF growing.act_Invoke [OF assms(1)]])
  show "extends w (snd (dispatch_one env registry u ds w))"
    by (cases "deniedByHook ds")
      (simp_all add: dispatch_one_def Let_def extends_trans [OF Runner_Run_extends [OF assms(2)] inv]
        extends_trans [OF extends_append_w inv])
qed

lemma act_extends_dispatch_all:
  "handlers_extend env \<Longrightarrow> tools_extend registry \<Longrightarrow> act_extends (dispatch_all env registry ds)"
proof (induction ds)
  case Nil
  then show ?case by (simp add: act_rel_def)
next
  case (Cons d ds)
  obtain u vs where d: "d = (u, vs)" by fastforce
  have eq: "dispatch_all env registry (d # ds) =
      bindA (dispatch_one env registry u vs) (\<lambda>_. dispatch_all env registry ds)"
    by (rule ext) (simp add: d)
  show ?case unfolding eq by (intro growing.act_bind act_extends_dispatch_one Cons)
qed

lemma act_extends_dispatch:
  assumes "runner_extends env"
  shows "act_extends (dispatchPendingTools env)"
  unfolding act_rel_def
proof
  fix w
  show "extends w (snd (dispatchPendingTools env w))"
  proof (cases "re_registry env")
    case None
    then show ?thesis by (simp add: dispatchPendingTools_def Let_def)
  next
    case (Some registry)
    define f where "f decisions = (let requests = approval_requests decisions
        in if requests \<noteq> []
           then thenA (fold (\<lambda>r. append_w env EventApprovalRequested (request_payload r)) requests)
                  (returnA (pendingToolUses (w_events w), True))
           else bindA (dispatch_all env registry decisions)
                  (\<lambda>_. returnA (pendingToolUses (w_events w), False)))" for decisions
    have "act_extends (f decisions)" for decisions
      using assms Some unfolding f_def Let_def
      by (auto simp: runner_extends_def intro!: growing.act_then growing.act_bind
          growing.act_return act_extends_dispatch_all growing.fold_R)
    then have "act_extends (bindA (decide_all env (pendingToolUses (w_events w))) f)"
      using assms by (auto simp: runner_extends_def intro!: growing.act_bind growing.act_decide_all)
    then show ?thesis
      by (simp add: dispatchPendingTools_def Let_def Some act_rel_def f_def [abs_def])
  qed
qed

lemma act_extends_stream_attempt:
  fixes env :: "('h, 'st, 'w, 'x) loop_env_scheme"
  assumes "handlers_extend env"
  shows "act_extends (stream_attempt env call request)"
proof (rule act_relI)
  fix w :: "('h, 'st, 'w) world"
  obtain events err ext where c: "call request (w_ext w) = ((events, err), ext)"
    by (metis prod.exhaust)
  define w1 where "w1 = fold (handleStreamEvent env) events (w\<lparr>w_ext := ext\<rparr>)"
  have "extends (w\<lparr>w_ext := ext\<rparr>) w1" unfolding w1_def by (rule growing.fold_R) simp
  then have e1: "extends w w1" by (rule extends_trans [OF extends_ext])
  have "act_extends (bindA (Invoke env ''post_provider_call'' (CtxResponse request None))
      (\<lambda>_. thenA (on_log (emit (ObsProviderResponded k None))) (returnA a)))" for k and a :: "'e + 'f"
    using assms by (intro growing.act_bind growing.act_then growing.act_return growing.act_Invoke) auto
  then have "extends w1 (snd (bindA (Invoke env ''post_provider_call'' (CtxResponse request None))
      (\<lambda>_. thenA (on_log (emit (ObsProviderResponded k None))) (returnA a)) w1))" for k and a :: "'e + 'f"
    by (rule act_rel_apply)
  with e1 show "extends w (snd (stream_attempt env call request w))"
    by (auto simp: stream_attempt_def c w1_def [symmetric] Let_def split: option.splits
        intro: extends_trans [OF _ extends_emit] extends_trans)
qed

lemma act_extends_plain_attempt:
  fixes env :: "('h, 'st, 'w, 'x) loop_env_scheme"
  assumes "handlers_extend env"
  shows "act_extends (plain_attempt env request)"
proof (rule act_relI)
  fix w :: "('h, 'st, 'w) world"
  obtain res ext where c: "al_provider env request (w_ext w) = (res, ext)" by fastforce
  show "extends w (snd (plain_attempt env request w))"
  proof (cases res)
    case (Inl e)
    then show ?thesis
      by (simp add: plain_attempt_def c extends_trans [OF extends_ext extends_emit])
  next
    case (Inr response)
    let ?f = "\<lambda>w1. case al_ingest env response (w_ext w1) of
         (Inl e, ext1) \<Rightarrow> (Inr (Inl (AttemptProvider e)), w1\<lparr>w_ext := ext1\<rparr>)
       | (Inr events, ext1) \<Rightarrow>
           (Inr (Inr (stage_ingested (providerKind env) request events)), w1\<lparr>w_ext := ext1\<rparr>)"
    have "act_extends ?f" by (rule act_relI) (auto split: prod.splits sum.splits)
    then have "act_extends (bindA (Invoke env ''post_provider_call'' (CtxResponse request (Some response)))
        (\<lambda>_. thenA (on_log (emit (ObsProviderResponded (providerKind env) (Some response)))) ?f))"
      using assms by (intro growing.act_bind growing.act_then growing.act_Invoke) auto
    then have "extends (w\<lparr>w_ext := ext\<rparr>)
       (snd (bindA (Invoke env ''post_provider_call'' (CtxResponse request (Some response)))
        (\<lambda>_. thenA (on_log (emit (ObsProviderResponded (providerKind env) (Some response)))) ?f)
          (w\<lparr>w_ext := ext\<rparr>)))"
      by (simp add: act_rel_def)
    then show ?thesis
      using extends_trans [OF extends_ext] by (simp add: plain_attempt_def c Inr)
  qed
qed

lemma act_extends_attempt:
  fixes env :: "('h, 'st, 'w, 'x) loop_env_scheme"
  assumes "handlers_extend env"
  shows "act_extends (runOneProviderAttempt env prepared request)"
  unfolding runOneProviderAttempt_def
proof (rule growing.act_bind [OF growing.act_Invoke [OF assms]], rule act_relI)
  fix a :: "val list" and w :: "('h, 'st, 'w) world"
  let ?w1 = "on_log (emit (ObsProviderCalled (providerKind env) request)) w"
  have "extends ?w1 (snd (case al_stream env of Some call \<Rightarrow> stream_attempt env call request ?w1
       | None \<Rightarrow> plain_attempt env request ?w1))"
    using act_extends_stream_attempt [OF assms] act_extends_plain_attempt [OF assms]
    by (auto simp: act_rel_def split: option.splits)
  then show "extends w (snd (if \<not> pt_current (al_digest env) prepared (Some (w_session w))
          then (Inr (Inl (AttemptIntegrity [stale_violation (pt_nextSeq prepared)])), w)
          else let w1 = on_log (emit (ObsProviderCalled (providerKind env) request)) w
               in case al_stream env of Some call \<Rightarrow> stream_attempt env call request w1
                  | None \<Rightarrow> plain_attempt env request w1))"
    by (auto simp: Let_def intro: extends_trans [OF extends_emit])
qed

lemma extends_appendProviderError [simp]: "extends w (appendProviderError env err n b w)"
  by (simp add: appendProviderError_def)

lemma extends_appendRuntimeError [simp]: "extends w (appendRuntimeError env r m w)"
  by (simp add: appendRuntimeError_def)

lemma extends_call_loop:
  assumes "handlers_extend env"
  shows "extends w (snd (call_loop env policy prepared request attempt w))"
  using assms
proof (induction env policy prepared request attempt w rule: call_loop.induct)
  case (1 env policy prepared request attempt w)
  obtain r w1 where r: "runOneProviderAttempt env prepared request w = (r, w1)" by fastforce
  have e1: "extends w w1" using act_extends_attempt [OF "1.prems"] r by (rule act_relD)
  show ?case
  proof (cases "\<exists>err. r = Inr (Inl (AttemptProvider err))")
    case False
    then show ?thesis
      using e1 r by (subst call_loop.simps) (auto split: sum.splits attempt_error.splits)
  next
    case True
    then obtain err where err: "r = Inr (Inl (AttemptProvider err))" by blast
    define w2 where "w2 b = appendProviderError env err attempt b w1" for b
    have e2: "extends w (w2 b)" for b
      unfolding w2_def by (rule extends_trans [OF e1]) simp
    show ?thesis
    proof (cases "rd_retry (Decide policy err attempt) \<and> lg_err (w_log (w2 False)) = None \<and>
        (\<exists>p' q'. prepare_again env (w2 False) = Inr (p', q'))")
      case False
      then show ?thesis
        using r err e2 e2 [unfolded w2_def]
        by (subst call_loop.simps) (auto simp: Let_def w2_def split: option.splits sum.splits)
    next
      case True
      then obtain p' q' where p: "prepare_again env (w2 False) = Inr (p', q')" by blast
      have "extends (w2 False) (snd (call_loop env policy p' q' (attempt + 1) (w2 False)))"
        using "1.IH" [of r w1 "Inl (AttemptProvider err)" "AttemptProvider err" err
            "Decide policy err attempt" "w2 False" "(p', q')" p' q'] "1.prems" r err True p
        by (auto simp: w2_def)
      with e2 [of False] have "extends w (snd (call_loop env policy p' q' (attempt + 1) (w2 False)))"
        by (rule extends_trans)
      then show ?thesis
        using r err True p by (subst call_loop.simps) (simp add: Let_def w2_def)
    qed
  qed
qed

lemma act_extends_callProvider:
  "handlers_extend env \<Longrightarrow> act_extends (callProviderWithRetry env prepared request)"
  by (rule act_relI) (simp add: callProviderWithRetry_def extends_call_loop)

lemma act_extends_commit_step:
  fixes env :: "('h, 'st, 'w, 'x) loop_env_scheme"
  shows "act_extends (commit_step env events)"
proof (rule act_relI)
  fix w :: "('h, 'st, 'w) world"
  have "extends w (on_log (\<lambda>lg. snd (AppendBatch (he_log env) staged lg)) w)" for staged
    by simp
  then have "AppendBatch (he_log env) staged (w_log w) = (r, lg) \<Longrightarrow> extends w (on_log (\<lambda>_. lg) w)"
    for staged r lg by (metis on_log_def snd_conv)
  then show "extends w (snd (commit_step env events w))"
    by (auto simp: commit_step_def split: sum.splits prod.splits)
qed

lemma act_extends_request_turn:
  fixes env :: "('h, 'st, 'w, 'x) loop_env_scheme"
  assumes "handlers_extend env"
  shows "act_extends (request_turn env prepared request)"
  unfolding request_turn_def
proof (intro growing.act_bind growing.act_then growing.act_Invoke [OF assms]
    act_extends_callProvider [OF assms])
  fix a :: "val list" and res and w :: "('h, 'st, 'w) world"
  show "extends w (on_log (emit (ObsProjectionInvoked (al_projection_name env)
      (int (length (w_events w))) request)) w)" by simp
  have c: "extends w (snd (commit_step env evs w))" for evs and w :: "('h, 'st, 'w) world"
    by (rule act_rel_apply [OF act_extends_commit_step])
  show "act_extends (\<lambda>w. case res of Inl err \<Rightarrow> (Inr (Inl err), w)
      | Inr events \<Rightarrow> (case lg_err (w_log w) of Some serr \<Rightarrow> (Inr (Inl (RunStorage serr)), w)
          | None \<Rightarrow> (case events of None \<Rightarrow> (Inr (Inr (turn_reason ''provider_failed'')), w)
              | Some evs \<Rightarrow> commit_step env evs w)))"
    by (rule act_relI) (auto split: sum.splits option.splits intro: c)
qed

lemma act_extends_runTurn:
  fixes env :: "('h, 'st, 'w, 'x) loop_env_scheme"
  assumes "handlers_extend env"
  shows "act_extends (runTurn env)"
  unfolding runTurn_def
proof (intro growing.act_bind growing.act_Invoke [OF assms], rule act_relI)
  fix a :: "val list" and w :: "('h, 'st, 'w) world"
  have c: "extends w (snd (request_turn env p q w))" for p q
    using act_extends_request_turn [OF assms] by (simp add: act_rel_def)
  show "extends w (snd (if terminalRuntimeError (w_events w)
            then (Inr (Inr (turn_reason ''runtime_failed'')), w)
            else case PrepareProviderCall (al_digest env) (Some (w_session w)) of
              Inl err \<Rightarrow> (Inr (Inl (run_error_of_prepare err)), w)
            | Inr prepared \<Rightarrow>
                (case pt_Project (\<lambda>es. al_project env es (w_ext w)) prepared of
                   Inl (Inl err) \<Rightarrow> (Inr (Inl (run_error_of_prepare err)), w)
                 | Inl (Inr (CapabilityMismatch m)) \<Rightarrow>
                     (Inr (Inr (turn_reason ''runtime_failed'')),
                      appendRuntimeError env ''capability_mismatch'' m w)
                 | Inl (Inr (ProjectionFailed m)) \<Rightarrow> (Inr (Inl (RunProjection (ProjectionFailed m))), w)
                 | Inr request \<Rightarrow> request_turn env prepared request w)))"
    by (auto split: sum.splits projection_error.splits intro: c)
qed

lemma runner_handlers: "runner_extends env \<Longrightarrow> handlers_extend env"
  by (simp add: runner_extends_def)

lemma act_extends_prepareRunEntry:
  fixes env :: "('h, 'st, 'w, 'x) loop_env_scheme"
  assumes "runner_extends env"
  shows "act_extends (prepareRunEntry env)"
proof (rule act_relI)
  fix w :: "('h, 'st, 'w) world"
  let ?k = "\<lambda>(_, nowAwaiting) w1.
      case lg_err (w_log w1) of
        Some serr \<Rightarrow> (Inr (Inl (RunStorage serr)), w1)
      | None \<Rightarrow>
          if nowAwaiting then (Inr (Inr (Some ''awaiting_approval'')), w1)
          else if pendingToolUses (w_events w1) \<noteq> []
          then (case PrepareProviderCall (al_digest env) (Some (w_session w1)) of
                  Inl err \<Rightarrow> (Inr (Inl (run_error_of_prepare err)), w1)
                | Inr p \<Rightarrow> (Inr (Inr None), w1))
          else if terminalRuntimeError (w_events w1)
          then (Inr (Inr (Some ''runtime_failed'')), w1)
          else (Inr (Inr None), w1)"
  have k: "act_extends (?k a)" for a
    by (rule act_relI) (auto split: prod.splits option.splits sum.splits)
  have "act_extends (bindA (dispatchPendingTools env) ?k)"
    by (rule growing.act_bind [OF act_extends_dispatch [OF assms] k])
  then have "extends w (snd (bindA (dispatchPendingTools env) ?k w))"
    by (simp add: act_rel_def)
  then show "extends w (snd (prepareRunEntry env w))"
    unfolding prepareRunEntry_def Let_def
    by (auto split: prod.splits sum.splits simp del: entry_scan.simps)
qed

lemma act_extends_run_turns:
  fixes env :: "('h, 'st, 'w, 'x) loop_env_scheme"
  assumes "runner_extends env"
  shows "act_extends (run_turns env n)"
proof (induction n)
  case 0
  then show ?case by (simp add: act_rel_def)
next
  case (Suc n)
  let ?k2 = "\<lambda>(pending, awaiting) w2.
       case lg_err (w_log w2) of
         Some serr \<Rightarrow> (Inr (Inl (RunStorage serr)), w2)
       | None \<Rightarrow>
           if awaiting then (Inr (Inr ''awaiting_approval''), w2)
           else if pendingToolUses (w_events w2) \<noteq> []
           then (case PrepareProviderCall (al_digest env) (Some (w_session w2)) of
                   Inl err \<Rightarrow> (Inr (Inl (run_error_of_prepare err)), w2)
                 | Inr p \<Rightarrow> (Inr (Inr []), w2))
           else if pending = [] then (Inr (Inr ''no_pending_tools''), w2)
           else if terminalRuntimeError (w_events w2) then (Inr (Inr ''runtime_failed''), w2)
           else run_turns env n w2"
  have k2: "act_extends (?k2 a)" for a
    using Suc by (cases a, intro act_relI) (auto simp: act_rel_def split: option.splits sum.splits)
  have d: "act_extends (bindA (dispatchPendingTools env) ?k2)"
    by (rule growing.act_bind [OF act_extends_dispatch [OF assms] k2])
  let ?k1 = "\<lambda>res w1. case res of
        Inl err \<Rightarrow> (Inr (Inl err), w1)
      | Inr turn \<Rightarrow>
          if tn_reason turn \<noteq> [] then (Inr (Inr (tn_reason turn)), w1)
          else if tn_stopReason turn \<noteq> ''tool_use'' then (Inr (Inr ''end_turn''), w1)
          else bindA (dispatchPendingTools env) ?k2 w1"
  have k1: "act_extends (?k1 a)" for a
    using d by (intro act_relI) (auto simp: act_rel_def split: sum.splits)
  have "act_extends (bindA (runTurn env) ?k1)"
    by (rule growing.act_bind [OF act_extends_runTurn [OF runner_handlers [OF assms]] k1])
  moreover have "run_turns env (Suc n) = bindA (runTurn env) ?k1" by (rule ext) simp
  ultimately show ?case by (simp only:)
qed

lemma Run_extends_body:
  fixes env :: "('h, 'st, 'w, 'x) loop_env_scheme"
  assumes "runner_extends env"
  shows "extends w (snd (Run env w))"
proof -
  define k where "k n res w1 = (case res of
      Inl err \<Rightarrow> (Inr (Inl err), w1)
    | Inr (Some reason) \<Rightarrow> (Inr (Inr reason), w1)
    | Inr None \<Rightarrow> run_turns env n w1)" for n and res :: "run_error + string option" and w1
  have "act_extends (k n a)" for n a
    unfolding k_def
    by (rule act_relI)
      (auto intro: act_rel_apply [OF act_extends_run_turns [OF assms]] split: sum.splits option.splits)
  then have "act_extends (bindA (prepareRunEntry env) (k n))" for n
    by (intro growing.act_bind act_extends_prepareRunEntry [OF assms])
  then have "extends w (snd (bindA (prepareRunEntry env) (k n) w))" for n
    by (rule act_rel_apply)
  then have "extends w (snd (run_body env w))"
    by (auto simp: run_body_def Let_def k_def [abs_def] split: option.splits)
  then show ?thesis by (auto simp: Run_def split: prod.splits sum.splits)
qed

end
