(* ===== verification/StepProps.thy ===== *)
theory StepProps
  imports LoopProps
begin

text \<open>
  Closing a provider step and answering a tool batch keep the referential integrity of the
  log: \<^verbatim>\<open>closeProviderStep\<close> accepts a response only when its tool uses can be paired, and
  completes the pairs of a truncated batch itself; \<^verbatim>\<open>dispatchPendingTools\<close> answers every
  pending use once.
\<close>

section \<open>Extending a referenced log\<close>

lemma disjoint_image: "(\<And>x. x \<in> B \<Longrightarrow> f x \<notin> S) \<Longrightarrow> S \<inter> f ` B = {}"
  by auto

lemma well_referenced_extend:
  assumes "well_referenced es"
    and "distinct (map use_id (uses_of fs))"
    and "\<And>u. u \<in> set (uses_of fs) \<Longrightarrow> use_id u \<noteq> [] \<and> use_id u \<notin> use_id ` set (uses_of es)"
    and "distinct (map result_id (results_of fs))"
    and "\<And>r. r \<in> set (results_of fs) \<Longrightarrow> result_id r \<notin> result_id ` set (results_of es) \<and>
        (\<exists>u \<in> set (uses_of (es @ fs)). use_id u = result_id r \<and> ev_seq u < ev_seq r)"
  shows "well_referenced (es @ fs)"
proof -
  have ex: "\<exists>u \<in> set (uses_of (es @ fs)). use_id u = result_id r \<and> ev_seq u < ev_seq r"
    if "r \<in> set (results_of (es @ fs))" for r
    using that assms(1,5) by (auto simp: well_referenced_def)
  have ne: "use_id u \<noteq> []" if "u \<in> set (uses_of (es @ fs))" for u
    using that assms(1,3) by (auto simp: well_referenced_def)
  have "use_id ` set (uses_of es) \<inter> use_id ` set (uses_of fs) = {}"
    by (rule disjoint_image) (use assms(3) in simp)
  then have du: "distinct (map use_id (uses_of (es @ fs)))"
    using assms(1,2) by (simp add: well_referenced_def)
  have "result_id ` set (results_of es) \<inter> result_id ` set (results_of fs) = {}"
    by (rule disjoint_image) (use assms(5) in simp)
  then have dr: "distinct (map result_id (results_of (es @ fs)))"
    using assms(1,4) by (simp add: well_referenced_def)
  show ?thesis
    unfolding well_referenced_def
  proof (intro conjI ballI)
    show "use_id u \<noteq> []" if "u \<in> set (uses_of (es @ fs))" for u by (rule ne [OF that])
    show "result_id r \<noteq> []" if r: "r \<in> set (results_of (es @ fs))" for r
    proof -
      obtain u where u: "u \<in> set (uses_of (es @ fs))" "use_id u = result_id r" using ex [OF r] by blast
      show ?thesis using ne [OF u(1)] u(2) by simp
    qed
  qed (fact du dr ex)+
qed

section \<open>closeProviderStep\<close>

abbreviation arg_uses :: "event_args list \<Rightarrow> event_args list" where
  "arg_uses es \<equiv> filter (\<lambda>e. ea_type e = EventToolUse) es"

abbreviation arg_messages :: "event_args list \<Rightarrow> event_args list" where
  "arg_messages es \<equiv> filter (\<lambda>e. ea_type e = EventAssistantMessage) es"

lemma close_event_Inr:
  "close_event e sc = Inr sc' \<Longrightarrow>
   sc_staged sc' = sc_staged sc @ [e] \<and>
   sc_uses sc' = sc_uses sc @ arg_uses [e] \<and>
   sc_ids sc' = sc_ids sc @ map (\<lambda>u. ea_str u ''id'') (arg_uses [e]) \<and>
   sc_count sc' = sc_count sc + int (length (arg_messages [e])) \<and>
   sc_stop sc' = (if ea_type e = EventAssistantMessage then ea_str e ''stop_reason'' else sc_stop sc) \<and>
   (distinct (sc_ids sc) \<longrightarrow> distinct (sc_ids sc')) \<and>
   ea_type e \<noteq> EventToolResult \<and>
   (ea_type e = EventToolUse \<longrightarrow> ea_str e ''id'' \<noteq> [] \<and> ea_str e ''name'' \<noteq> [])"
  by (auto simp: close_event_def Let_def split: if_splits)

lemma close_scan_Inr:
  "close_scan es sc = Inr sc' \<Longrightarrow>
   sc_staged sc' = sc_staged sc @ es \<and>
   sc_uses sc' = sc_uses sc @ arg_uses es \<and>
   sc_ids sc' = sc_ids sc @ map (\<lambda>u. ea_str u ''id'') (arg_uses es) \<and>
   sc_count sc' = sc_count sc + int (length (arg_messages es)) \<and>
   sc_stop sc' = (case rev (arg_messages es) of [] \<Rightarrow> sc_stop sc | m # _ \<Rightarrow> ea_str m ''stop_reason'') \<and>
   (\<forall>e \<in> set es. ea_type e \<noteq> EventToolResult \<and>
      (ea_type e = EventToolUse \<longrightarrow> ea_str e ''id'' \<noteq> [] \<and> ea_str e ''name'' \<noteq> []))"
proof (induction es arbitrary: sc)
  case Nil
  then show ?case by simp
next
  case (Cons e es)
  then obtain sc1 where e: "close_event e sc = Inr sc1" and rest: "close_scan es sc1 = Inr sc'"
    by (auto split: sum.splits)
  note 1 = close_event_Inr [OF e] and 2 = Cons.IH [OF rest]
  have stop: "(case rev (arg_messages (e # es)) of [] \<Rightarrow> sc_stop sc | m # _ \<Rightarrow> ea_str m ''stop_reason'')
      = (case rev (arg_messages es) of [] \<Rightarrow> sc_stop sc1 | m # _ \<Rightarrow> ea_str m ''stop_reason'')"
    using 1 by (cases "rev (arg_messages es)") auto
  show ?case using 1 2 unfolding stop by auto
qed

lemma close_scan_distinct:
  "close_scan es sc = Inr sc' \<Longrightarrow> distinct (sc_ids sc) \<Longrightarrow> distinct (sc_ids sc')"
  by (induction es arbitrary: sc) (auto split: sum.splits dest: close_event_Inr)

lemma close_event_assistant_first:
  "close_event e sc = Inr sc' \<Longrightarrow> ea_type e = EventToolUse \<Longrightarrow> sc_seen sc"
  by (auto simp: close_event_def Let_def split: if_splits)

text \<open>What an accepted response looks like and what is staged for it.\<close>

definition step_shape :: "event_args list \<Rightarrow> provider_turn \<Rightarrow> event_args list \<Rightarrow> bool" where
  "step_shape events turn staged \<longleftrightarrow>
     (\<exists>m. arg_messages events = [m] \<and> tn_stopReason turn = ea_str m ''stop_reason'') \<and>
     tn_stopReason turn \<noteq> [] \<and>
     (\<forall>e \<in> set events. ea_type e \<noteq> EventToolResult) \<and>
     (\<forall>u \<in> set (arg_uses events). ea_str u ''id'' \<noteq> [] \<and> ea_str u ''name'' \<noteq> []) \<and>
     distinct (map (\<lambda>u. ea_str u ''id'') (arg_uses events)) \<and>
     (tn_stopReason turn = ''tool_use'' \<longrightarrow> arg_uses events \<noteq> []) \<and>
     tn_reason turn =
       (if arg_uses events \<noteq> [] \<and> tn_stopReason turn \<noteq> ''tool_use''
        then RunReasonIncompleteToolBatch else []) \<and>
     staged = events @ (if tn_stopReason turn = ''tool_use'' then []
                        else map (incomplete_result (tn_stopReason turn)) (arg_uses events))"

lemma closeProviderStep_shape:
  assumes "closeProviderStep events = Inr (turn, staged)"
  shows "step_shape events turn staged"
proof -
  obtain sc where sc: "close_scan events start_scan = Inr sc"
    using assms by (auto simp: closeProviderStep_def split: sum.splits)
  note s = close_scan_Inr [OF sc] close_scan_distinct [OF sc]
  have cnt: "sc_count sc = 1" and stop: "sc_stop sc \<noteq> []"
    using assms sc by (auto simp: closeProviderStep_def split: if_splits)
  have "length (arg_messages events) = 1" using s cnt by (simp add: start_scan_def)
  then obtain m where m: "arg_messages events = [m]" by (cases "arg_messages events") auto
  have "sc_stop sc = ea_str m ''stop_reason''" using s m by simp
  with s m stop show ?thesis
    using assms sc
    by (auto simp: closeProviderStep_def step_shape_def start_scan_def split: if_splits)
qed

text \<open>Published, the staged events keep the log sound as long as the ids are new to it.\<close>

lemma args_of_sel [simp]: "ea_type (args_of e) = ev_type e" "ea_payload (args_of e) = ev_payload e"
  by (simp_all add: args_of_def)

lemma map_args_uses:
  "map args_of es = args \<Longrightarrow> map args_of (uses_of es) = arg_uses args"
  by (induction es arbitrary: args) auto

lemma map_args_ids:
  assumes "map args_of es = args"
  shows "map use_id (uses_of es) = map (\<lambda>u. ea_str u ''id'') (arg_uses args)"
proof -
  have "map (\<lambda>u. ea_str u ''id'') (map args_of (uses_of es)) = map use_id (uses_of es)"
    by (simp add: o_def)
  with map_args_uses [OF assms] show ?thesis by simp
qed

lemma incomplete_result_id [simp]:
  "ea_type (incomplete_result stop u) = EventToolResult"
  "ea_str (incomplete_result stop u) ''tool_use_id'' = ea_str u ''id''"
  "pget (ea_payload (incomplete_result stop u)) ''tool_use_id'' = VStr (ea_str u ''id'')"
  by (simp_all add: incomplete_result_def)

definition fresh_ids :: "event list \<Rightarrow> event_args list \<Rightarrow> bool" where
  "fresh_ids es events \<longleftrightarrow>
     (\<forall>u \<in> set (arg_uses events). ea_str u ''id'' \<notin> use_id ` set (uses_of es))"

lemma commit_well_referenced:
  assumes wr: "well_referenced (lg_events lg)" and dn: "dense (lg_events lg)"
    and sh: "step_shape events turn staged" and fresh: "fresh_ids (lg_events lg) events"
    and ap: "AppendBatch env staged lg = (Inr es, lg')"
  shows "well_referenced (lg_events lg') \<and>
    uses_of (lg_events lg') = uses_of (lg_events lg) @ uses_of es \<and>
    map use_id (uses_of es) = map (\<lambda>u. ea_str u ''id'') (arg_uses events) \<and>
    map result_id (results_of es) =
      (if tn_stopReason turn = ''tool_use'' then [] else map use_id (uses_of es))"
proof -
  note a = AppendBatch_Inr [OF ap]
  define syn where "syn = (if tn_stopReason turn = ''tool_use'' then []
      else map (incomplete_result (tn_stopReason turn)) (arg_uses events))"
  have st: "staged = events @ syn" using sh by (simp add: step_shape_def syn_def)
  obtain es1 es2 where es: "es = es1 @ es2" "map args_of es1 = events" "map args_of es2 = syn"
    using a unfolding st map_eq_append_conv by blast
  have u1: "map use_id (uses_of es1) = map (\<lambda>u. ea_str u ''id'') (arg_uses events)"
    by (rule map_args_ids [OF es(2)])
  have syn_types: "\<forall>x \<in> set syn. ea_type x = EventToolResult" by (auto simp: syn_def)
  have u2: "uses_of es2 = []" and r2: "results_of es2 = es2"
    using es(3) syn_types
    by (auto simp: uses_of_def results_of_def filter_empty_conv filter_id_conv)
  have r1: "results_of es1 = []"
    using es(2) sh by (auto simp: results_of_def filter_empty_conv step_shape_def)
  have rid: "map result_id (results_of es2) =
      (if tn_stopReason turn = ''tool_use'' then [] else map use_id (uses_of es1))"
  proof -
    have "map result_id es2 = map (\<lambda>x. ea_str x ''tool_use_id'') (map args_of es2)"
      by (simp add: o_def)
    then show ?thesis unfolding r2 es(3) u1 by (simp add: syn_def o_def)
  qed
  have seqs: "map ev_seq es = map (\<lambda>i. int (length (lg_events lg) + i)) [0..<length es]"
    using a by (metis length_map)
  have lt: "ev_seq x < ev_seq y" if "x \<in> set es1" "y \<in> set es2" for x y
  proof -
    obtain i where i: "i < length es1" "x = es1 ! i" using \<open>x \<in> set es1\<close> by (auto simp: in_set_conv_nth)
    obtain j where j: "j < length es2" "y = es2 ! j" using \<open>y \<in> set es2\<close> by (auto simp: in_set_conv_nth)
    have "map ev_seq es ! i = ev_seq x" "map ev_seq es ! (length es1 + j) = ev_seq y"
      using i j es(1) by (simp_all add: nth_append)
    then show ?thesis using seqs i j es(1) by simp
  qed
  have ids: "distinct (map use_id (uses_of es1))" "\<forall>u \<in> set (uses_of es1). use_id u \<noteq> []"
    "\<forall>u \<in> set (uses_of es1). use_id u \<notin> use_id ` set (uses_of (lg_events lg))"
  proof -
    show "distinct (map use_id (uses_of es1))" using sh unfolding u1 by (simp add: step_shape_def)
    have im: "\<exists>v \<in> set (arg_uses events). ea_str v ''id'' = use_id u" if "u \<in> set (uses_of es1)" for u
    proof -
      have "use_id u \<in> set (map use_id (uses_of es1))" using that by simp
      then show ?thesis unfolding u1 by auto
    qed
    have "\<forall>v \<in> set (arg_uses events). ea_str v ''id'' \<noteq> []" using sh by (simp add: step_shape_def)
    with im show "\<forall>u \<in> set (uses_of es1). use_id u \<noteq> []" by metis
    from im show "\<forall>u \<in> set (uses_of es1). use_id u \<notin> use_id ` set (uses_of (lg_events lg))"
      using fresh unfolding fresh_ids_def by metis
  qed
  have res_in: "result_id ` set (results_of (lg_events lg)) \<subseteq> use_id ` set (uses_of (lg_events lg))"
    using wr by (force simp: well_referenced_def)
  have "well_referenced (lg_events lg @ es1 @ es2)"
  proof (rule well_referenced_extend [OF wr])
    show "distinct (map use_id (uses_of (es1 @ es2)))" using ids u2 by simp
    show "use_id u \<noteq> [] \<and> use_id u \<notin> use_id ` set (uses_of (lg_events lg))"
      if "u \<in> set (uses_of (es1 @ es2))" for u using that ids u2 by simp
    show "distinct (map result_id (results_of (es1 @ es2)))" using ids rid r1 by simp
    fix x assume x: "x \<in> set (results_of (es1 @ es2))"
    then have x2: "x \<in> set es2" using r1 r2 by simp
    have "result_id x \<in> set (map result_id (results_of es2))" using x r1 by simp
    then obtain u where u: "u \<in> set (uses_of es1)" "use_id u = result_id x"
      unfolding rid by (auto split: if_splits)
    moreover have "ev_seq u < ev_seq x" by (rule lt [OF _ x2]) (use u in \<open>simp add: set_uses_of\<close>)
    moreover have "result_id x \<notin> result_id ` set (results_of (lg_events lg))"
    proof -
      have "use_id u \<notin> result_id ` set (results_of (lg_events lg))" using ids(3) u(1) res_in by blast
      then show ?thesis using u(2) by simp
    qed
    ultimately show "result_id x \<notin> result_id ` set (results_of (lg_events lg)) \<and>
        (\<exists>u \<in> set (uses_of (lg_events lg @ es1 @ es2)). use_id u = result_id x \<and> ev_seq u < ev_seq x)"
      by auto
  qed
  with a es u1 u2 r1 r2 rid show ?thesis by simp
qed

text \<open>So a step that ends its own batch leaves nothing pending.\<close>

lemma string_result_ids_append [simp]:
  "string_result_ids (es @ fs) = string_result_ids es @ string_result_ids fs"
  by (induction es) (auto split: option.splits)

lemma set_string_result_ids:
  "tid \<in> set (string_result_ids es) \<longleftrightarrow>
     (\<exists>r \<in> set es. is_result r \<and> pget (ev_payload r) ''tool_use_id'' = VStr tid)"
  by (induction es) (auto simp: as_string_def split: val.splits option.splits)

lemma set_pendingToolUses:
  "u \<in> set (pendingToolUses es) \<longleftrightarrow>
     u \<in> set es \<and> is_use u \<and>
     \<not> (\<exists>r \<in> set es. is_result r \<and> pget (ev_payload r) ''tool_use_id'' = VStr (use_id u))"
  by (auto simp: pendingToolUses_def Let_def set_string_result_ids)

lemma pendingToolUses_Nil_resolved:
  assumes "well_referenced es"
  shows "pendingToolUses es = [] \<longleftrightarrow> all_resolved es"
proof -
  have id: "use_id u \<noteq> []" if "is_use u" "u \<in> set es" for u
    using assms that by (auto simp: well_referenced_def set_uses_of)
  have "is_result r \<Longrightarrow> result_id r = use_id u \<Longrightarrow> use_id u \<noteq> [] \<Longrightarrow>
      pget (ev_payload r) ''tool_use_id'' = VStr (use_id u)" for r u :: event
    using stringValue_nonempty [of "pget (ev_payload r) ''tool_use_id''"] by simp
  then have "all_resolved es \<longleftrightarrow> (\<forall>u \<in> set es. is_use u \<longrightarrow>
      (\<exists>r \<in> set es. is_result r \<and> pget (ev_payload r) ''tool_use_id'' = VStr (use_id u)))"
    using id by (force simp: all_resolved_def set_uses_of set_results_of)
  also have "\<dots> \<longleftrightarrow> (\<forall>u. u \<notin> set (pendingToolUses es))"
    unfolding set_pendingToolUses by blast
  also have "\<dots> \<longleftrightarrow> pendingToolUses es = []" by (cases "pendingToolUses es") auto
  finally show ?thesis by simp
qed

section \<open>Answering a batch\<close>

text \<open>Pending uses are determined by the uses and the results.\<close>

lemma string_result_ids_results: "string_result_ids (results_of es) = string_result_ids es"
  by (induction es) (auto split: option.splits)

lemma pendingToolUses_eq:
  "pendingToolUses es = filter (\<lambda>u. use_id u \<notin> set (string_result_ids (results_of es))) (uses_of es)"
  by (simp add: pendingToolUses_def Let_def uses_of_def string_result_ids_results conj_commute)

lemma pendingToolUses_cong:
  "uses_of es = uses_of fs \<Longrightarrow> results_of es = results_of fs \<Longrightarrow> pendingToolUses es = pendingToolUses fs"
  by (simp add: pendingToolUses_eq)

lemma quiet_wr:
  assumes "quiet w w'"
  shows "well_referenced (w_events w') = well_referenced (w_events w)"
    and "pendingToolUses (w_events w') = pendingToolUses (w_events w)"
    and "dense (w_events w) \<Longrightarrow> dense (w_events w')"
    and "lg_err (w_log w) \<noteq> None \<Longrightarrow> lg_err (w_log w') \<noteq> None"
    and "uses_of (w_events w') = uses_of (w_events w)"
    and "results_of (w_events w') = results_of (w_events w)"
proof -
  show u: "uses_of (w_events w') = uses_of (w_events w)"
    and r: "results_of (w_events w') = results_of (w_events w)"
    using assms by (simp_all add: quiet_def)
  show "well_referenced (w_events w') = well_referenced (w_events w)"
    by (rule well_referenced_cong [OF u r])
  show "pendingToolUses (w_events w') = pendingToolUses (w_events w)"
    by (rule pendingToolUses_cong [OF u r])
  show "dense (w_events w')" if "dense (w_events w)"
    using assms that by (simp add: quiet_def extends_def)
  show "lg_err (w_log w') \<noteq> None" if "lg_err (w_log w) \<noteq> None"
    using assms that by (simp add: quiet_def extends_def)
qed

lemma pending_use_id:
  assumes "well_referenced es" and "u \<in> set (pendingToolUses es)"
  shows "pget (ev_payload u) ''id'' = VStr (use_id u)" and "use_id u \<noteq> []"
    and "u \<in> set (uses_of es)" and "use_id u \<notin> result_id ` set (results_of es)"
proof -
  show u: "u \<in> set (uses_of es)" using assms(2) by (simp add: pendingToolUses_eq)
  then show ne: "use_id u \<noteq> []" using assms(1) by (simp add: well_referenced_def)
  then show "pget (ev_payload u) ''id'' = VStr (use_id u)" by (rule stringValue_nonempty)
  show "use_id u \<notin> result_id ` set (results_of es)"
  proof
    assume "use_id u \<in> result_id ` set (results_of es)"
    then obtain r where r: "r \<in> set es" "is_result r" "result_id r = use_id u"
      by (auto simp: set_results_of)
    then have "pget (ev_payload r) ''tool_use_id'' = VStr (use_id u)"
      using ne stringValue_nonempty [of "pget (ev_payload r) ''tool_use_id''"] by simp
    with r assms(2) show False by (auto simp: set_pendingToolUses)
  qed
qed

text \<open>\<open>answers tid w w'\<close>: the step added one result for \<open>tid\<close> and is quiet otherwise, or the log
  is latched.\<close>

definition answers :: "string \<Rightarrow> ('h, 'st, 'w) world \<Rightarrow> ('h, 'st, 'w) world \<Rightarrow> bool" where
  "answers tid w w' \<longleftrightarrow> extends w w' \<and> uses_of (w_events w') = uses_of (w_events w) \<and>
     (lg_err (w_log w') \<noteq> None \<and> results_of (w_events w') = results_of (w_events w) \<or>
      (\<exists>r. r \<in> set (w_events w') \<and> is_result r \<and> pget (ev_payload r) ''tool_use_id'' = VStr tid \<and>
         results_of (w_events w') = results_of (w_events w) @ [r] \<and>
         ev_seq r \<ge> int (length (w_events w))))"

lemma answers_append:
  assumes "quiet w w1" and "pget p ''tool_use_id'' = VStr tid"
  shows "answers tid w (append_w env EventToolResult p w1)"
proof -
  have len: "length (w_events w) \<le> length (w_events w1)"
    using assms(1) by (auto simp: quiet_def extends_def)
  have e: "extends w (append_w env EventToolResult p w1)"
    using quiet_extends [OF assms(1)] extends_append_w by (rule extends_trans)
  show ?thesis
    by (rule append_ev_cases [of "he_log env" EventToolResult p "w_log w1"])
      (use assms len e in \<open>auto simp: answers_def quiet_wr\<close>)
qed

lemma answers_quiet:
  assumes "answers tid w w1" and "quiet w1 w2"
  shows "answers tid w w2"
proof -
  have e: "extends w w2" using assms by (auto simp: answers_def quiet_def intro: extends_trans)
  have "set (w_events w1) \<subseteq> set (w_events w2)"
    using assms(2) by (auto simp: quiet_def extends_def)
  moreover note quiet_wr [OF assms(2)]
  ultimately show ?thesis using assms(1) e unfolding answers_def by auto
qed

lemma answers_wr:
  assumes "answers tid w w'" and "well_referenced (w_events w)" and "dense (w_events w)"
    and "u \<in> set (pendingToolUses (w_events w))" and "use_id u = tid"
  shows "well_referenced (w_events w')"
proof (cases "results_of (w_events w') = results_of (w_events w)")
  case True
  moreover have "uses_of (w_events w') = uses_of (w_events w)" using assms(1) by (simp add: answers_def)
  ultimately show ?thesis using assms(2) well_referenced_cong [of "w_events w'" "w_events w"] by simp
next
  case False
  then obtain r where r: "is_result r" "pget (ev_payload r) ''tool_use_id'' = VStr tid"
    "results_of (w_events w') = results_of (w_events w) @ [r]"
    "ev_seq r \<ge> int (length (w_events w))"
    using assms(1) by (auto simp: answers_def)
  note p = pending_use_id [OF assms(2,4)]
  have "well_referenced (w_events w @ [r])"
  proof (rule well_referenced_append_result [OF assms(2) r(1) p(3)])
    show "use_id u = result_id r" using r(2) assms(5) by simp
    show "result_id r \<notin> result_id ` set (results_of (w_events w))" using p(4) r(2) assms(5) by simp
    obtain i where "i < length (w_events w)" "u = w_events w ! i"
      using p(3) by (auto simp: set_uses_of in_set_conv_nth)
    then show "ev_seq u < ev_seq r" using assms(3) r(4) by (simp add: dense_nth)
  qed
  moreover have "uses_of (w_events w @ [r]) = uses_of (w_events w')"
    "results_of (w_events w @ [r]) = results_of (w_events w')"
    using assms(1) r by (auto simp: answers_def)
  ultimately show ?thesis using well_referenced_cong by blast
qed

lemma overrides_id [simp]: "use_id (toolUseWithArgumentOverrides u ds) = use_id u"
  by (induction ds) (auto split: option.splits)

lemma dispatch_one_answers:
  assumes "handlers_rel quiet env" and "tools_rel quiet registry"
    and "pget (ev_payload u) ''id'' = VStr (use_id u)"
    and "dispatch_one env registry u ds w = (res, w')"
  shows "answers (use_id u) w w'"
proof -
  define w1 where "w1 = (case deniedByHook ds of
      Some reason0 \<Rightarrow>
        (let reason = (if reason0 = [] then ''no reason given'' else reason0)
         in append_w env EventToolResult (denial_payload u reason) w)
    | None \<Rightarrow> Runner_Run env registry (toolUseWithArgumentOverrides u ds) w)"
  have "answers (use_id u) w w1"
  proof (cases "deniedByHook ds")
    case None
    have "ends_with_result quiet env (use_id u) w w1"
      using quiet.Runner_Run_ends [OF assms(2), of env "toolUseWithArgumentOverrides u ds" w] None
      by (simp add: w1_def)
    then show ?thesis
      by (auto simp: ends_with_result_def result_for_def tool_result_payload_def intro: answers_append)
  next
    case (Some reason0)
    then obtain reason where "w1 = append_w env EventToolResult (denial_payload u reason) w"
      by (simp add: w1_def Let_def)
    moreover have "pget (denial_payload u reason) ''tool_use_id'' = VStr (use_id u)"
      using assms(3) by (simp add: denial_payload_def)
    ultimately show ?thesis using answers_append [OF quiet.R_refl] by simp
  qed
  moreover have "quiet w1 w'"
    using act_relD [OF quiet.act_Invoke [OF assms(1)]] assms(4)
    by (simp add: dispatch_one_def Let_def w1_def)
  ultimately show ?thesis by (rule answers_quiet)
qed

lemma answers_pending:
  assumes "answers tid w w'" and "u \<in> set (pendingToolUses (w_events w))" and "use_id u \<noteq> tid"
  shows "u \<in> set (pendingToolUses (w_events w'))"
  using assms by (auto simp: answers_def pendingToolUses_eq as_string_def)

text \<open>The second pass over pending uses with distinct ids.\<close>

lemma dispatch_all_answers:
  assumes h: "handlers_rel quiet env" and t: "tools_rel quiet registry"
  shows "well_referenced (w_events w) \<Longrightarrow> dense (w_events w) \<Longrightarrow> distinct (map (\<lambda>d. use_id (fst d)) ds) \<Longrightarrow>
    (\<And>d. d \<in> set ds \<Longrightarrow> fst d \<in> set (pendingToolUses (w_events w))) \<Longrightarrow>
    dispatch_all env registry ds w = (res, w') \<Longrightarrow>
    well_referenced (w_events w') \<and> dense (w_events w') \<and> extends w w' \<and>
    uses_of (w_events w') = uses_of (w_events w) \<and>
    (is_ok res \<and> lg_err (w_log w') = None \<longrightarrow>
       string_result_ids (w_events w') = string_result_ids (w_events w) @ map (\<lambda>d. use_id (fst d)) ds)"
proof (induction ds arbitrary: w)
  case Nil
  then show ?case by simp
next
  case (Cons d ds)
  obtain u vs where d: "d = (u, vs)" by fastforce
  have u: "u \<in> set (pendingToolUses (w_events w))" using Cons.prems(4) [of d] d by simp
  obtain r1 w1 where one: "dispatch_one env registry u vs w = (r1, w1)" by fastforce
  have ans: "answers (use_id u) w w1"
    by (rule dispatch_one_answers [OF h t pending_use_id(1) [OF Cons.prems(1) u] one])
  have wr1: "well_referenced (w_events w1)"
    by (rule answers_wr [OF ans Cons.prems(1,2) u refl])
  have ext: "extends w w1" and uses1: "uses_of (w_events w1) = uses_of (w_events w)"
    using ans by (simp_all add: answers_def)
  have dn1: "dense (w_events w1)" using ext Cons.prems(2) by (simp add: extends_def)
  have ids1: "lg_err (w_log w1) = None \<Longrightarrow>
      string_result_ids (w_events w1) = string_result_ids (w_events w) @ [use_id u]"
    using ans string_result_ids_results [of "w_events w1"] string_result_ids_results [of "w_events w"]
    by (auto simp: answers_def as_string_def)
  show ?case
  proof (cases r1)
    case (Inl msg)
    with Cons.prems(5) one have "res = Inl msg \<and> w' = w1" by (auto simp: d bindA_def)
    with wr1 dn1 ext uses1 show ?thesis by simp
  next
    case (Inr a)
    then have rest: "dispatch_all env registry ds w1 = (res, w')"
      using Cons.prems(5) one by (auto simp: d bindA_def)
    have pend: "fst d' \<in> set (pendingToolUses (w_events w1))" if "d' \<in> set ds" for d'
      by (rule answers_pending [OF ans]) (use that Cons.prems(3) Cons.prems(4) [of d'] d in force)+
    note IH = Cons.IH [OF wr1 dn1 _ pend rest]
    have e1: "extends w1 w'" using IH Cons.prems(3) by simp
    have "lg_err (w_log w') = None \<Longrightarrow> lg_err (w_log w1) = None"
      using e1 by (auto simp: extends_def)
    with IH Cons.prems(3) ext uses1 ids1 show ?thesis
      by (auto simp: d intro: extends_trans)
  qed
qed

text \<open>The whole dispatch.\<close>

lemma fold_append_w_quiet:
  "quiet w (fold (\<lambda>r. append_w env EventApprovalRequested (f r)) rs w)"
  by (rule quiet.fold_R) (simp add: append_w_def quiet_append)

lemma distinct_pending_ids:
  assumes "well_referenced es"
  shows "distinct (map use_id (pendingToolUses es))"
proof -
  have "distinct (map use_id (uses_of es))" using assms by (simp add: well_referenced_def)
  then show ?thesis by (simp add: pendingToolUses_eq distinct_map_filter)
qed

lemma dispatchPendingTools_integrity:
  assumes h: "handlers_rel quiet env" and t: "\<And>registry. re_registry env = Some registry \<Longrightarrow> tools_rel quiet registry"
    and wr: "well_referenced (w_events w)" and dn: "dense (w_events w)"
    and d: "dispatchPendingTools env w = (res, w')"
  shows "well_referenced (w_events w') \<and> dense (w_events w') \<and>
    uses_of (w_events w') = uses_of (w_events w) \<and>
    (res = Inr (pendingToolUses (w_events w), True) \<longrightarrow> quiet w w') \<and>
    (res = Inr (pendingToolUses (w_events w), False) \<and> lg_err (w_log w') = None \<and> re_registry env \<noteq> None \<longrightarrow>
       all_resolved (w_events w'))"
proof (cases "re_registry env")
  case None
  with d wr dn show ?thesis by (auto simp: dispatchPendingTools_def Let_def)
next
  case (Some registry)
  define pending where "pending = pendingToolUses (w_events w)"
  obtain rd w1 where dec: "decide_all env pending w = (rd, w1)" by fastforce
  have q1: "quiet w w1" by (rule act_relD [OF quiet.act_decide_all [OF h] dec])
  have wr1: "well_referenced (w_events w1)" and dn1: "dense (w_events w1)"
    and p1: "pendingToolUses (w_events w1) = pending" and u1: "uses_of (w_events w1) = uses_of (w_events w)"
    using quiet_wr [OF q1] wr dn by (simp_all add: pending_def)
  show ?thesis
  proof (cases rd)
    case (Inl msg)
    with d Some dec wr1 dn1 u1 show ?thesis
      by (auto simp: dispatchPendingTools_def Let_def bindA_def pending_def)
  next
    case (Inr ds)
    have fst: "map fst ds = pending" using dec Inr decide_all_fst by blast
    show ?thesis
    proof (cases "approval_requests ds = []")
      case False
      define w2 where "w2 = fold (\<lambda>r. append_w env EventApprovalRequested (request_payload r)) (approval_requests ds) w1"
      have eq: "res = Inr (pending, True)" "w' = w2"
        using d Some dec Inr False
        by (auto simp: dispatchPendingTools_def Let_def bindA_def thenA_def returnA_def pending_def w2_def)
      have "quiet w w2" unfolding w2_def by (rule quiet_trans [OF q1 fold_append_w_quiet])
      with eq wr dn quiet_wr [of w w'] show ?thesis by (simp add: pending_def)
    next
      case True
      obtain r2 w2 where all: "dispatch_all env registry ds w1 = (r2, w2)" by fastforce
      have "distinct (map (\<lambda>d. use_id (fst d)) ds)"
      proof -
        have "distinct (map use_id (map fst ds))"
          unfolding fst pending_def by (rule distinct_pending_ids [OF wr])
        then show ?thesis by (simp add: o_def)
      qed
      moreover have "fst x \<in> set (pendingToolUses (w_events w1))" if "x \<in> set ds" for x
        using that fst p1 by (metis image_eqI list.set_map)
      ultimately have A: "well_referenced (w_events w2) \<and> dense (w_events w2) \<and> extends w1 w2 \<and>
          uses_of (w_events w2) = uses_of (w_events w1) \<and>
          (is_ok r2 \<and> lg_err (w_log w2) = None \<longrightarrow>
             string_result_ids (w_events w2) = string_result_ids (w_events w1) @ map (\<lambda>d. use_id (fst d)) ds)"
        using dispatch_all_answers [OF h t [OF Some] wr1 dn1 _ _ all] by blast
      have w': "w' = w2" and res: "\<And>x. res = Inr x \<Longrightarrow> is_ok r2 \<and> \<not> snd x"
        using d Some dec Inr True all
        by (auto simp: dispatchPendingTools_def Let_def bindA_def returnA_def pending_def split: sum.splits)
      have "all_resolved (w_events w')" if ok: "is_ok r2" "lg_err (w_log w') = None"
      proof -
        have ids: "string_result_ids (w_events w2) = string_result_ids (w_events w1) @ map use_id pending"
          using A ok w' by (simp add: fst [symmetric] o_def)
        have "pendingToolUses (w_events w2) = []"
          using ids A p1 by (auto simp: pendingToolUses_eq string_result_ids_results filter_empty_conv)
        with A w' show ?thesis by (simp add: pendingToolUses_Nil_resolved)
      qed
      moreover have "res \<noteq> Inr (pendingToolUses (w_events w), True)" using res by fastforce
      ultimately show ?thesis using A w' res u1 by auto
    qed
  qed
qed

end
