(* ===== verification/RunProps.thy ===== *)
theory RunProps
  imports StepProps
begin

text \<open>
  Properties of whole runs: the entry checks, the reasons a run can end with, the bound on
  provider attempts, the atomic pause of a batch that needs an approval, and the gate in
  front of the provider.
\<close>

section \<open>Entering a run\<close>

text \<open>An approval is awaited when a request for the id has no later resolution or result.\<close>

definition awaits :: "event list \<Rightarrow> string \<Rightarrow> bool" where
  "awaits es tid \<longleftrightarrow>
     (\<exists>es1 e es2. es = es1 @ e # es2 \<and> ev_type e = EventApprovalRequested \<and> result_id e = tid \<and>
        (\<forall>e' \<in> set es2. result_id e' = tid \<longrightarrow>
           ev_type e' \<noteq> EventApprovalResolved \<and> ev_type e' \<noteq> EventToolResult))"

definition settles :: "string \<Rightarrow> event \<Rightarrow> bool" where
  "settles tid e \<longleftrightarrow> result_id e = tid \<and> ev_type e \<in> {EventApprovalResolved, EventToolResult}"

lemma awaits_Cons:
  "awaits (e # es) tid \<longleftrightarrow>
     awaits es tid \<or>
     (ev_type e = EventApprovalRequested \<and> result_id e = tid \<and> (\<forall>e' \<in> set es. \<not> settles tid e'))"
  unfolding awaits_def settles_def
  by (auto simp: Cons_eq_append_conv)

lemma entry_scan_awaiting:
  "tid \<in> set P \<Longrightarrow>
   tid \<in> set (fst (entry_scan P es A S)) \<longleftrightarrow>
     awaits es tid \<or> (tid \<in> set A \<and> (\<forall>e \<in> set es. \<not> settles tid e))"
proof (induction es arbitrary: A S)
  case Nil
  then show ?case by (simp add: awaits_def)
next
  case (Cons e es)
  have "ev_type e = EventApprovalRequested \<or> ev_type e = EventApprovalResolved \<or>
      ev_type e = EventToolResult \<or> ev_type e \<notin> {EventApprovalRequested, EventApprovalResolved, EventToolResult}"
    by blast
  then show ?case
    using Cons by (auto simp: awaits_Cons settles_def Let_def split: if_splits)
qed

text \<open>A run refuses to start, and changes nothing, on a latched or corrupt or finished log.\<close>

lemma Run_latched: "lg_err (w_log w) = Some err \<Longrightarrow> Run env w = (Inl (RunStorage err), w)"
  by (simp add: Run_def run_body_def StorageErr_def)

lemma Run_corrupt:
  assumes "lg_err (w_log w) = None" and "\<not> well_referenced (w_events w)"
  shows "\<exists>vs. vs \<noteq> [] \<and> Run env w = (Inl (RunIntegrity vs), w)"
  using assms
  by (auto simp: Run_def run_body_def StorageErr_def Let_def AnalyzeDurableLog_def
      analyzeToolReferences_Nil_iff)

lemma Run_terminal:
  assumes "lg_err (w_log w) = None" and "well_referenced (w_events w)"
    and "terminalRuntimeError (w_events w)"
  shows "Run env w = (Inr ''runtime_failed'', w)"
  using assms
  by (simp add: Run_def run_body_def StorageErr_def Let_def AnalyzeDurableLog_def
      analyzeToolReferences_Nil_iff)

text \<open>While an approval is awaited no provider, hook or tool runs.\<close>

lemma Run_awaiting:
  assumes "lg_err (w_log w) = None" and "well_referenced (w_events w)"
    and "\<not> terminalRuntimeError (w_events w)"
    and u: "u \<in> set (pendingToolUses (w_events w))" and a: "awaits (w_events w) (use_id u)"
  shows "Run env w = (Inr ''awaiting_approval'', w)"
proof -
  obtain A S where scan: "entry_scan (map use_id (pendingToolUses (w_events w))) (w_events w) [] [] = (A, S)"
    by fastforce
  have "use_id u \<in> set (map use_id (pendingToolUses (w_events w)))" using u by simp
  from entry_scan_awaiting [OF this, of "w_events w" "[]" "[]"] a scan have "A \<noteq> []" by auto
  with u scan have "prepareRunEntry env w = (Inr (Inr (Some ''awaiting_approval'')), w)"
    by (auto simp: prepareRunEntry_def Let_def)
  with assms(1-3) show ?thesis
    by (simp add: Run_def run_body_def StorageErr_def Let_def AnalyzeDurableLog_def
        analyzeToolReferences_Nil_iff bindA_def)
qed

section \<open>How a run ends\<close>

definition run_reasons :: "string set" where
  "run_reasons = {''end_turn'', ''awaiting_approval'', ''runtime_failed'', ''max_turns_reached'',
     ''provider_failed'', ''incomplete_tool_batch'', ''no_pending_tools''}"

lemma closeProviderStep_reason:
  "closeProviderStep events = Inr (turn, staged) \<Longrightarrow> tn_reason turn \<in> {[], ''incomplete_tool_batch''}"
  using closeProviderStep_shape [of events turn staged]
  by (auto simp: step_shape_def RunReasonIncompleteToolBatch_def)

lemma runTurn_reason:
  assumes "runTurn env w = (Inr (Inr turn), w')"
  shows "tn_reason turn \<in> {[], ''incomplete_tool_batch'', ''provider_failed'', ''runtime_failed''}"
  using assms
  by (auto simp: runTurn_def request_turn_def commit_step_def bindA_def thenA_def turn_reason_def
      split: prod.splits sum.splits if_splits option.splits projection_error.splits
      dest: closeProviderStep_reason)

lemma run_turns_reason:
  "run_turns env n w = (Inr (Inr reason), w') \<Longrightarrow> reason \<in> insert [] run_reasons"
proof (induction n arbitrary: w)
  case 0
  then show ?case by (simp add: run_reasons_def)
next
  case (Suc n)
  obtain r1 w1 where t: "runTurn env w = (r1, w1)" by fastforce
  show ?case
  proof (cases "\<exists>turn. r1 = Inr (Inr turn) \<and> tn_reason turn = [] \<and> tn_stopReason turn = ''tool_use''")
    case False
    with Suc.prems t runTurn_reason [of env w _ w1] show ?thesis
      by (auto simp: bindA_def run_reasons_def split: sum.splits if_splits)
  next
    case True
    obtain r2 w2 where d: "dispatchPendingTools env w1 = (r2, w2)" by fastforce
    show ?thesis
    proof (cases r2)
      case (Inl msg)
      with Suc.prems t True d show ?thesis by (auto simp: bindA_def)
    next
      case (Inr pa)
      obtain pending awaiting where pa: "pa = (pending, awaiting)" by fastforce
      show ?thesis
        using Suc.prems t True d Inr pa Suc.IH [of w2]
        by (auto simp: bindA_def run_reasons_def split: option.splits sum.splits if_splits)
    qed
  qed
qed

lemma prepareRunEntry_reason:
  "prepareRunEntry env w = (Inr (Inr (Some reason)), w') \<Longrightarrow>
   reason \<in> {''awaiting_approval'', ''runtime_failed''}"
  by (auto simp: prepareRunEntry_def Let_def bindA_def
      split: prod.splits sum.splits if_splits option.splits)

lemma Run_reason:
  assumes "Run env w = (Inr reason, w')"
  shows "reason \<in> insert [] run_reasons"
proof -
  obtain r1 w1 where e: "prepareRunEntry env w = (r1, w1)" by fastforce
  show ?thesis
    using assms e prepareRunEntry_reason [of env w _ w1] run_turns_reason [of env _ w1 reason w']
    by (auto simp: Run_def run_body_def Let_def bindA_def run_reasons_def
        split: prod.splits sum.splits option.splits if_splits)
qed

section \<open>An approval pauses the batch\<close>

text \<open>Two environments that differ in the tools only treat hooks alike.\<close>

definition same_hooks ::
    "('h, 'st, 'w, 'x) hook_env_scheme \<Rightarrow> ('h, 'st, 'w, 'y) hook_env_scheme \<Rightarrow> bool" where
  "same_hooks env env' \<longleftrightarrow>
     he_log env = he_log env' \<and> he_code env = he_code env' \<and> he_run env = he_run env'"

lemma invokeHookHandler_cong:
  "same_hooks env env' \<Longrightarrow> invokeHookHandler env p h c opts w = invokeHookHandler env' p h c opts w"
  by (auto simp: same_hooks_def invokeHookHandler_def Let_def split: prod.split sum.split)

lemma invoke_all_cong:
  assumes "same_hooks env env'"
  shows "invoke_all env p c m hs w = invoke_all env' p c m hs w"
proof (induction hs arbitrary: w)
  case Nil
  then show ?case by simp
next
  case (Cons h hs)
  then have eq: "invoke_all env p c m hs = invoke_all env' p c m hs" by auto
  have code: "he_code env = he_code env'" using assms by (simp add: same_hooks_def)
  show ?case by (simp add: bindA_def invokeHookHandler_cong [OF assms] eq code)
qed

lemma Invoke_cong: "same_hooks env env' \<Longrightarrow> Invoke env p c = Invoke env' p c"
  by (rule ext) (simp add: Invoke_def invoke_all_cong)

lemma decide_all_cong:
  assumes "same_hooks env env'"
  shows "decide_all env us = decide_all env' us"
proof (induction us)
  case Nil
  show ?case by (rule ext) simp
next
  case (Cons u us)
  show ?case
  proof
    fix w
    show "decide_all env (u # us) w = decide_all env' (u # us) w"
      by (simp add: Cons Invoke_cong [OF assms])
  qed
qed

lemma append_w_cong: "same_hooks env env' \<Longrightarrow> append_w env t p w = append_w env' t p w"
  by (simp add: same_hooks_def append_w_def)

text \<open>When a batch pauses, the tools of the registry had no part in what happened.\<close>

lemma dispatch_paused_any_registry:
  assumes "dispatchPendingTools env w = (Inr (pending, True), w')"
  shows "dispatchPendingTools (env\<lparr>re_registry := Some registry\<rparr>) w = (Inr (pending, True), w')"
proof -
  obtain r0 where reg: "re_registry env = Some r0"
    using assms by (auto simp: dispatchPendingTools_def Let_def split: option.splits)
  have sh: "same_hooks (env\<lparr>re_registry := Some registry\<rparr>) env" by (simp add: same_hooks_def)
  have dec: "decide_all (env\<lparr>re_registry := Some registry\<rparr>) us = decide_all env us" for us
    by (rule decide_all_cong [OF sh])
  have app: "append_w (env\<lparr>re_registry := Some registry\<rparr>) t p = append_w env t p" for t p
    using append_w_cong [OF sh] by (auto simp: fun_eq_iff)
  obtain rd w1 where d: "decide_all env (pendingToolUses (w_events w)) w = (rd, w1)" by fastforce
  show ?thesis
    using assms reg d
    by (auto simp: dispatchPendingTools_def Let_def bindA_def dec app returnA_def thenA_def
        split: sum.splits if_splits prod.splits)
qed

text \<open>With handlers that leave the log alone, a paused batch appends one approval request per
  held use and nothing else.\<close>

definition handlers_silent :: "('h, 'st, 'w, 'x) hook_env_scheme \<Rightarrow> bool" where
  "handlers_silent env \<longleftrightarrow>
     (\<forall>h ctx w r w'. he_run env h ctx w = (r, w') \<longrightarrow> is_ok r \<and> w_log w' = w_log w)"

lemma invoke_all_silent:
  assumes "handlers_silent env"
  shows "invoke_all env p c m hs w = (r, w') \<Longrightarrow> is_ok r \<and> w_log w' = w_log w"
proof (induction hs arbitrary: w r w')
  case Nil
  then show ?case by auto
next
  case (Cons h hs)
  obtain r0 w0 where run: "he_run env h c w = (r0, w0)" by fastforce
  with assms have "is_ok r0" "w_log w0 = w_log w" by (auto simp: handlers_silent_def)
  then obtain v where v: "invokeHookHandler env p h c (aget no_options m (he_code env h)) w = (Inr (Some v), w0)"
    using run by (cases r0) (auto simp: invokeHookHandler_def)
  obtain r1 w1 where rest: "invoke_all env p c m hs w0 = (r1, w1)" by fastforce
  with Cons.IH [OF rest] \<open>w_log w0 = w_log w\<close> Cons.prems v show ?case
    by (cases r1) (auto simp: bindA_def returnA_def)
qed

lemma decide_all_silent:
  assumes "handlers_silent env"
  shows "decide_all env us w = (r, w') \<Longrightarrow> is_ok r \<and> w_log w' = w_log w"
proof (induction us arbitrary: w r w')
  case Nil
  then show ?case by auto
next
  case (Cons u us)
  obtain r0 w0 where inv: "Invoke env ''pre_tool_use'' (CtxToolUse u) w = (r0, w0)" by fastforce
  then have 0: "is_ok r0" "w_log w0 = w_log w"
    using invoke_all_silent [OF assms] by (auto simp: Invoke_def)
  obtain r1 w1 where rest: "decide_all env us w0 = (r1, w1)" by fastforce
  with Cons.IH [OF rest] 0 Cons.prems inv show ?case
    by (cases r0; cases r1) (auto simp: bindA_def returnA_def)
qed

definition request_args :: "event \<times> string \<times> string \<Rightarrow> event_args" where
  "request_args r = \<lparr>ea_type = EventApprovalRequested, ea_payload = request_payload r\<rparr>"

lemma fold_append_w_args:
  assumes "lg_err (w_log (fold (\<lambda>r. append_w env EventApprovalRequested (request_payload r)) rs w)) = None"
  shows "\<exists>es. w_events (fold (\<lambda>r. append_w env EventApprovalRequested (request_payload r)) rs w)
      = w_events w @ es \<and> map args_of es = map request_args rs"
  using assms
proof (induction rs arbitrary: w)
  case Nil
  then show ?case by simp
next
  case (Cons r rs)
  define w1 where "w1 = append_w env EventApprovalRequested (request_payload r) w"
  obtain es where es: "w_events (fold (\<lambda>r. append_w env EventApprovalRequested (request_payload r)) rs w1)
      = w_events w1 @ es" "map args_of es = map request_args rs"
    using Cons.IH [of w1] Cons.prems by (auto simp: w1_def)
  have "extends w1 (fold (\<lambda>r. append_w env EventApprovalRequested (request_payload r)) rs w1)"
    by (rule growing.fold_R) simp
  then have ok: "lg_err (w_log w1) = None"
    using Cons.prems by (auto simp: w1_def extends_def)
  obtain e where e: "w_events w1 = w_events w @ [e]" "args_of e = request_args r"
    by (rule append_ev_cases [of "he_log env" EventApprovalRequested "request_payload r" "w_log w"])
      (use ok in \<open>auto simp: w1_def request_args_def args_of_def\<close>)
  have "w_events (fold (\<lambda>r. append_w env EventApprovalRequested (request_payload r)) (r # rs) w)
      = w_events w @ e # es" using es e by (simp add: w1_def)
  moreover have "map args_of (e # es) = map request_args (r # rs)" using es e by simp
  ultimately show ?case by blast
qed

lemma dispatch_paused_events:
  assumes "handlers_silent env" and "dispatchPendingTools env w = (Inr (pending, True), w')"
    and "lg_err (w_log w') = None"
  shows "\<exists>ds es. map fst ds = pendingToolUses (w_events w) \<and> approval_requests ds \<noteq> [] \<and>
     w_events w' = w_events w @ es \<and> map args_of es = map request_args (approval_requests ds)"
proof -
  obtain r0 where reg: "re_registry env = Some r0"
    using assms(2) by (auto simp: dispatchPendingTools_def Let_def split: option.splits)
  obtain rd w1 where d: "decide_all env (pendingToolUses (w_events w)) w = (rd, w1)" by fastforce
  with decide_all_silent [OF assms(1) d] obtain ds where rd: "rd = Inr ds" and w1: "w_log w1 = w_log w"
    by (cases rd) auto
  have fst: "map fst ds = pendingToolUses (w_events w)" using d rd decide_all_fst by blast
  have ne: "approval_requests ds \<noteq> []"
    and w': "w' = fold (\<lambda>r. append_w env EventApprovalRequested (request_payload r)) (approval_requests ds) w1"
    using assms(2) reg d rd
    by (auto simp: dispatchPendingTools_def Let_def bindA_def returnA_def thenA_def
        split: if_splits prod.splits sum.splits)
  obtain es where "w_events w' = w_events w1 @ es" "map args_of es = map request_args (approval_requests ds)"
    using fold_append_w_args [OF assms(3) [unfolded w']] unfolding w' by blast
  with fst ne w1 show ?thesis by auto
qed

text \<open>Refuse beats RequestApproval: a denied use is never in the list of requests, and a use is
  in it exactly when some decision asks for approval and none refuses.\<close>

lemma set_approval_requests:
  "(u, reason, by) \<in> set (approval_requests ds) \<longleftrightarrow>
     (\<exists>vs. (u, vs) \<in> set ds \<and> deniedByHook vs = None \<and> pendingApprovalByHook vs = Some (reason, by))"
  by (induction ds rule: approval_requests.induct) (auto split: option.splits)

definition refuses :: "val \<Rightarrow> bool" where
  "refuses d \<longleftrightarrow> (\<exists>m. d = VMap m \<and> pget m ''allow'' = VBool False)"

definition asks_approval :: "val \<Rightarrow> bool" where
  "asks_approval d \<longleftrightarrow> (\<exists>m. d = VMap m \<and> pget m ''pending_approval'' = VBool True)"

lemma deniedByHook_None_iff: "deniedByHook ds = None \<longleftrightarrow> (\<forall>d \<in> set ds. \<not> refuses d)"
  by (induction ds) (auto simp: refuses_def as_map_def as_bool_def split: val.splits option.splits bool.splits)

lemma pendingApprovalByHook_None_iff:
  "pendingApprovalByHook ds = None \<longleftrightarrow> (\<forall>d \<in> set ds. \<not> asks_approval d)"
  by (induction ds)
    (auto simp: asks_approval_def as_map_def as_bool_def split: val.splits option.splits bool.splits)

lemma approval_requests_Nil_iff:
  "approval_requests ds = [] \<longleftrightarrow>
     (\<forall>(u, vs) \<in> set ds. (\<exists>d \<in> set vs. refuses d) \<or> (\<forall>d \<in> set vs. \<not> asks_approval d))"
  by (induction ds rule: approval_requests.induct)
    (auto simp: deniedByHook_None_iff pendingApprovalByHook_None_iff [symmetric]
      split: option.splits dest: deniedByHook_None_iff [THEN iffD1])

end
