(* ===== verification/ProviderGate.thy ===== *)
theory ProviderGate
  imports RunProps
begin

text \<open>
  Two properties of the way a run uses its provider: how often it calls it, and with what.
\<close>

section \<open>Counting provider calls\<close>

text \<open>
  The provider counts its calls in the outside state; nobody else changes the count.  Then
  one step makes at most as many calls as the policy allows attempts, and a run at most that
  times its number of turns.
\<close>

definition same_calls :: "('w \<Rightarrow> nat) \<Rightarrow> ('h, 'st, 'w) world \<Rightarrow> ('h, 'st, 'w) world \<Rightarrow> bool" where
  "same_calls calls w w' \<longleftrightarrow> calls (w_ext w') = calls (w_ext w)"

interpretation counting: hook_step "same_calls calls" for calls
  by unfold_locales (auto simp: same_calls_def)

definition counts_calls :: "('w \<Rightarrow> nat) \<Rightarrow> ('h, 'st, 'w, 'x) loop_env_scheme \<Rightarrow> bool" where
  "counts_calls calls env \<longleftrightarrow>
     handlers_rel (same_calls calls) env \<and>
     (\<forall>registry. re_registry env = Some registry \<longrightarrow> tools_rel (same_calls calls) registry) \<and>
     (\<forall>x. calls (snd (re_newID env x)) = calls x) \<and>
     (\<forall>q x. calls (snd (al_provider env q x)) = Suc (calls x)) \<and>
     (\<forall>f q x. al_stream env = Some f \<longrightarrow> calls (snd (f q x)) = Suc (calls x)) \<and>
     (\<forall>q x. calls (snd (al_ingest env q x)) = calls x) \<and>
     (\<forall>f e x. al_on_stream env = Some f \<longrightarrow> calls (f e x) = calls x)"

lemma Invoke_calls:
  "counts_calls calls env \<Longrightarrow> Invoke env p c w = (r, w') \<Longrightarrow> calls (w_ext w') = calls (w_ext w)"
  using act_relD [OF counting.act_Invoke, of calls env p c w r w']
  by (simp add: counts_calls_def same_calls_def)

lemma handleStreamEvent_calls:
  "counts_calls calls env \<Longrightarrow> calls (w_ext (handleStreamEvent env a w)) = calls (w_ext w)"
  by (auto simp: handleStreamEvent_def Let_def counts_calls_def split: option.splits)

lemma fold_stream_calls:
  "counts_calls calls env \<Longrightarrow>
   calls (w_ext (fold (handleStreamEvent env) events w)) = calls (w_ext w)"
  by (induction events arbitrary: w) (simp_all add: handleStreamEvent_calls)

lemma stream_attempt_calls:
  assumes c: "counts_calls calls env" and s: "al_stream env = Some call"
    and r: "stream_attempt env call request w = (r, w')"
  shows "calls (w_ext w') = Suc (calls (w_ext w))"
proof -
  obtain events err ext where call: "call request (w_ext w) = ((events, err), ext)"
    by (metis prod.exhaust)
  then have "calls ext = Suc (calls (w_ext w))"
    using c s unfolding counts_calls_def by (metis snd_conv)
  with r call c show ?thesis
    by (auto simp: stream_attempt_def Let_def bindA_def thenA_def returnA_def fold_stream_calls [OF c]
        split: option.splits prod.splits sum.splits dest!: Invoke_calls [OF c])
qed

lemma plain_attempt_calls:
  assumes c: "counts_calls calls env" and r: "plain_attempt env request w = (r, w')"
  shows "calls (w_ext w') = Suc (calls (w_ext w))"
proof -
  obtain res ext where call: "al_provider env request (w_ext w) = (res, ext)" by fastforce
  then have ext: "calls ext = Suc (calls (w_ext w))"
    using c unfolding counts_calls_def by (metis snd_conv)
  have ing: "al_ingest env x y = (a, b) \<Longrightarrow> calls b = calls y" for x y a b
    using c unfolding counts_calls_def by (metis snd_conv)
  show ?thesis
    using r call ext c
    by (auto simp: plain_attempt_def bindA_def thenA_def split: prod.splits sum.splits
        dest!: Invoke_calls ing)
qed

lemma attempt_calls:
  assumes c: "counts_calls calls env" and r: "runOneProviderAttempt env prepared request w = (r, w')"
  shows "calls (w_ext w') \<le> Suc (calls (w_ext w))"
proof -
  obtain r0 w0 where i: "Invoke env ''pre_provider_call'' (CtxRequest request) w = (r0, w0)" by fastforce
  have w0: "calls (w_ext w0) = calls (w_ext w)" by (rule Invoke_calls [OF c i])
  show ?thesis
    using r i w0 c
    by (auto simp: runOneProviderAttempt_def bindA_def Let_def
        split: sum.splits if_splits option.splits dest: stream_attempt_calls plain_attempt_calls)
qed

definition attempt_budget :: "retry_policy \<Rightarrow> int \<Rightarrow> nat" where
  "attempt_budget policy attempt = nat (max 1 (max_attempts policy - attempt + 1))"

lemma call_loop_calls:
  assumes "counts_calls calls env"
  shows "calls (w_ext (snd (call_loop env policy prepared request attempt w)))
    \<le> calls (w_ext w) + attempt_budget policy attempt"
  using assms
proof (induction env policy prepared request attempt w rule: call_loop.induct)
  case (1 env policy prepared request attempt w)
  obtain r w1 where r: "runOneProviderAttempt env prepared request w = (r, w1)" by fastforce
  have c1: "calls (w_ext w1) \<le> Suc (calls (w_ext w))" by (rule attempt_calls [OF "1.prems" r])
  have b: "1 \<le> attempt_budget policy attempt" by (simp add: attempt_budget_def)
  have c2: "calls (w_ext w1) \<le> calls (w_ext w) + attempt_budget policy attempt" using c1 b by simp
  show ?case
  proof (cases "\<exists>err. r = Inr (Inl (AttemptProvider err))")
    case False
    then show ?thesis
      using c2 r by (subst call_loop.simps) (auto split: sum.splits attempt_error.splits)
  next
    case True
    then obtain err where err: "r = Inr (Inl (AttemptProvider err))" by blast
    define w2 where "w2 t = appendProviderError env err attempt t w1" for t
    have e2: "w_ext (w2 t) = w_ext w1" for t by (simp add: w2_def appendProviderError_def)
    show ?thesis
    proof (cases "rd_retry (Decide policy err attempt) \<and> lg_err (w_log (w2 False)) = None \<and>
        (\<exists>p' q'. prepare_again env (w2 False) = Inr (p', q'))")
      case False
      then show ?thesis
        using r err c2 e2 [unfolded w2_def]
        by (subst call_loop.simps) (auto simp: Let_def w2_def split: option.splits sum.splits)
    next
      case True
      then obtain p' q' where p: "prepare_again env (w2 False) = Inr (p', q')" by blast
      have "calls (w_ext (snd (call_loop env policy p' q' (attempt + 1) (w2 False))))
          \<le> calls (w_ext (w2 False)) + attempt_budget policy (attempt + 1)"
        using "1.IH" [of r w1 "Inl (AttemptProvider err)" "AttemptProvider err" err
            "Decide policy err attempt" "w2 False" "(p', q')" p' q'] "1.prems" r err True p
        by (auto simp: w2_def)
      moreover have "attempt < max_attempts policy" using True Decide_bound by blast
      then have "attempt_budget policy attempt = Suc (attempt_budget policy (attempt + 1))"
        by (simp add: attempt_budget_def)
      ultimately have "calls (w_ext (snd (call_loop env policy p' q' (attempt + 1) (w2 False))))
          \<le> calls (w_ext w) + attempt_budget policy attempt"
        using c1 e2 [of False] by simp
      then show ?thesis
        using r err True p by (subst call_loop.simps) (simp add: Let_def w2_def)
    qed
  qed
qed

definition step_budget :: "('h, 'st, 'w, 'x) loop_env_scheme \<Rightarrow> nat" where
  "step_budget env =
     attempt_budget (case al_retry env of None \<Rightarrow> DefaultRetryPolicy | Some p \<Rightarrow> p) 1"

lemma commit_step_ext [simp]: "w_ext (snd (commit_step env events w)) = w_ext w"
  by (auto simp: commit_step_def split: sum.splits prod.splits)

lemma runTurn_calls:
  assumes c: "counts_calls calls env"
  shows "calls (w_ext (snd (runTurn env w))) \<le> calls (w_ext w) + step_budget env"
proof -
  have req: "calls (w_ext (snd (request_turn env p q v))) \<le> calls (w_ext v) + step_budget env" for p q v
  proof -
    obtain r0 w0 where i: "Invoke env ''post_projection'' (CtxRequest q) v = (r0, w0)" by fastforce
    have w0: "calls (w_ext w0) = calls (w_ext v)" by (rule Invoke_calls [OF c i])
    define w1 where "w1 = on_log (emit (ObsProjectionInvoked (al_projection_name env)
        (int (length (w_events w0))) q)) w0"
    obtain r2 w2 where cl: "callProviderWithRetry env p q w1 = (r2, w2)" by fastforce
    have w2: "calls (w_ext w2) \<le> calls (w_ext v) + step_budget env"
      using call_loop_calls [OF c, of "case al_retry env of None \<Rightarrow> DefaultRetryPolicy | Some p \<Rightarrow> p"
          p q 1 w1] cl w0
      by (simp add: callProviderWithRetry_def step_budget_def w1_def)
    show ?thesis
      using w0 w2 i cl
      by (cases r0; cases r2)
        (auto simp: request_turn_def bindA_def thenA_def w1_def [symmetric]
          split: sum.splits option.splits)
  qed
  obtain r0 w0 where i: "Invoke env ''pre_projection'' CtxSession w = (r0, w0)" by fastforce
  have w0: "calls (w_ext w0) = calls (w_ext w)" by (rule Invoke_calls [OF c i])
  show ?thesis
    using i w0 req [of _ _ w0]
    by (cases r0)
      (auto simp: runTurn_def bindA_def appendRuntimeError_def split: sum.splits projection_error.splits)
qed

lemma Runner_Run_calls:
  assumes "tools_rel (same_calls calls) registry" and "\<And>x. calls (snd (re_newID env x)) = calls x"
  shows "calls (w_ext (Runner_Run env registry u w)) = calls (w_ext w)"
proof -
  have id: "re_newID env x = (a, y) \<Longrightarrow> calls y = calls x" for x a y
    using assms(2) by (metis snd_conv)
  have spawn: "calls (w_ext (runSpawnAgent env u args w)) = calls (w_ext w)" for args
    by (auto simp: runSpawnAgent_def Let_def split: prod.splits dest!: id)
  have fin: "w_ext (finish_call env tid rw) = w_ext (snd rw)" for tid rw
    by (auto simp: finish_call_def split: prod.splits sum.splits)
  show ?thesis
    using assms(1)
    by (auto simp: Runner_Run_def Let_def spawn fin tools_rel_def tool_rel_def fn_rel_def same_calls_def
        split: option.splits)
qed

lemma dispatch_calls:
  assumes c: "counts_calls calls env"
  shows "calls (w_ext (snd (dispatchPendingTools env w))) = calls (w_ext w)"
proof (cases "re_registry env")
  case None
  then show ?thesis by (simp add: dispatchPendingTools_def Let_def)
next
  case (Some registry)
  have h: "handlers_rel (same_calls calls) env" and t: "tools_rel (same_calls calls) registry"
    and n: "calls (snd (re_newID env x)) = calls x" for x
    using c Some by (auto simp: counts_calls_def)
  have dec: "decide_all env us w = (r, w1) \<Longrightarrow> calls (w_ext w1) = calls (w_ext w)" for us r w1
    using act_relD [OF counting.act_decide_all [OF h]] by (fastforce simp: same_calls_def)
  have one: "dispatch_one env registry u vs w = (r, w1) \<Longrightarrow> calls (w_ext w1) = calls (w_ext w)"
    for u vs w r w1
    by (cases "deniedByHook vs")
      (auto simp: dispatch_one_def Let_def Runner_Run_calls [OF t n] dest!: Invoke_calls [OF c])
  have all: "dispatch_all env registry ds w = (r, w1) \<Longrightarrow> calls (w_ext w1) = calls (w_ext w)" for ds w r w1
  proof (induction ds arbitrary: w)
    case Nil
    then show ?case by simp
  next
    case (Cons d ds)
    obtain u vs where d: "d = (u, vs)" by fastforce
    obtain r0 w0 where o: "dispatch_one env registry u vs w = (r0, w0)" by fastforce
    show ?case
      using Cons one [OF o] o by (cases r0) (auto simp: d bindA_def)
  qed
  have fold: "w_ext (fold (\<lambda>r. append_w env EventApprovalRequested (request_payload r)) rs w) = w_ext w" for rs w
    by (induction rs arbitrary: w) simp_all
  obtain rd w1 where d: "decide_all env (pendingToolUses (w_events w)) w = (rd, w1)" by fastforce
  show ?thesis
    using Some d dec [OF d]
    by (auto simp: dispatchPendingTools_def Let_def bindA_def thenA_def returnA_def fold
        split: sum.splits prod.splits dest!: all)
qed

lemma run_turns_calls:
  assumes c: "counts_calls calls env"
  shows "calls (w_ext (snd (run_turns env n w))) \<le> calls (w_ext w) + n * step_budget env"
proof (induction n arbitrary: w)
  case 0
  then show ?case by simp
next
  case (Suc n)
  obtain r1 w1 where t: "runTurn env w = (r1, w1)" by fastforce
  have w1: "calls (w_ext w1) \<le> calls (w_ext w) + step_budget env"
    using runTurn_calls [OF c, of w] t by simp
  obtain r2 w2 where d: "dispatchPendingTools env w1 = (r2, w2)" by fastforce
  have w2: "calls (w_ext w2) = calls (w_ext w1)" using dispatch_calls [OF c, of w1] d by simp
  have "calls (w_ext (snd (run_turns env n w2))) \<le> calls (w_ext w2) + n * step_budget env" by (rule Suc)
  with w1 w2 t d show ?case
    by (cases r1; cases r2) (auto simp: bindA_def split: sum.splits option.splits prod.splits)
qed

lemma Run_calls:
  assumes c: "counts_calls calls env"
  shows "calls (w_ext (snd (Run env w)))
    \<le> calls (w_ext w) + nat (if al_MaxTurns env = 0 then 10 else al_MaxTurns env) * step_budget env"
proof -
  obtain r1 w1 where e: "prepareRunEntry env w = (r1, w1)" by fastforce
  have w1: "calls (w_ext w1) = calls (w_ext w)"
    using e dispatch_calls [OF c, of w]
    by (auto simp: prepareRunEntry_def Let_def bindA_def
        split: prod.splits sum.splits if_splits option.splits)
  have rt: "run_turns env n w1 = (r2, w2) \<Longrightarrow>
      calls (w_ext w2) \<le> calls (w_ext w) + n * step_budget env" for n r2 w2
    using run_turns_calls [OF c, of n w1] w1 by simp
  show ?thesis
    using e w1
    by (auto simp: Run_def run_body_def Let_def bindA_def split: prod.splits sum.splits option.splits if_splits
        dest!: rt)
qed

section \<open>What the provider is asked\<close>

text \<open>
  A request is ready when it is the projection of a stream that is referentially sound, fully
  resolved and free of pending mutations.  A run never looks at what its provider answers to
  any other request: replacing the provider by one that agrees on ready requests changes
  nothing.
\<close>

definition ready_request :: "('h, 'st, 'w, 'x) loop_env_scheme \<Rightarrow> payload \<Rightarrow> bool" where
  "ready_request env request \<longleftrightarrow>
     (\<exists>es x. well_referenced es \<and> all_resolved es \<and> apply_mutations es = es \<and>
        al_project env es x = Inr request)"

definition with_provider ::
    "(payload \<Rightarrow> 'w \<Rightarrow> (perr + payload) \<times> 'w) \<Rightarrow>
     (payload \<Rightarrow> 'w \<Rightarrow> (event_args list \<times> perr option) \<times> 'w) option \<Rightarrow>
     ('h, 'st, 'w, 'x) loop_env_scheme \<Rightarrow> ('h, 'st, 'w, 'x) loop_env_scheme" where
  "with_provider p s env = env\<lparr>al_provider := p, al_stream := s\<rparr>"

definition agree_on_ready ::
    "('h, 'st, 'w, 'x) loop_env_scheme \<Rightarrow> (payload \<Rightarrow> 'w \<Rightarrow> (perr + payload) \<times> 'w) \<Rightarrow>
     (payload \<Rightarrow> 'w \<Rightarrow> (event_args list \<times> perr option) \<times> 'w) option \<Rightarrow> bool" where
  "agree_on_ready env p s \<longleftrightarrow>
     (\<forall>q x. ready_request env q \<longrightarrow> p q x = al_provider env q x) \<and>
     (s = None \<longleftrightarrow> al_stream env = None) \<and>
     (\<forall>f g q x. s = Some f \<longrightarrow> al_stream env = Some g \<longrightarrow> ready_request env q \<longrightarrow> f q x = g q x)"

lemma with_provider_simps [simp]:
  "he_log (with_provider p s env) = he_log env" "he_code (with_provider p s env) = he_code env"
  "he_run (with_provider p s env) = he_run env" "re_registry (with_provider p s env) = re_registry env"
  "re_extra (with_provider p s env) = re_extra env" "re_newID (with_provider p s env) = re_newID env"
  "re_marshal (with_provider p s env) = re_marshal env"
  "al_project (with_provider p s env) = al_project env"
  "al_projection_name (with_provider p s env) = al_projection_name env"
  "al_digest (with_provider p s env) = al_digest env" "al_provider (with_provider p s env) = p"
  "al_stream (with_provider p s env) = s" "al_ingest (with_provider p s env) = al_ingest env"
  "al_retry (with_provider p s env) = al_retry env" "al_MaxTurns (with_provider p s env) = al_MaxTurns env"
  "al_on_stream (with_provider p s env) = al_on_stream env"
  "providerKind (with_provider p s env) = providerKind env"
  by (simp_all add: with_provider_def providerKind_def)

lemma with_provider_Invoke [simp]: "Invoke (with_provider p s env) = Invoke env"
  by (intro ext) (metis Invoke_cong same_hooks_def with_provider_simps(1-3))

lemma with_provider_append_w [simp]: "append_w (with_provider p s env) = append_w env"
  by (intro ext) (simp add: append_w_def)

lemma with_provider_stream [simp]: "handleStreamEvent (with_provider p s env) = handleStreamEvent env"
  by (intro ext) (simp add: handleStreamEvent_def)

lemma with_provider_prepare_again [simp]: "prepare_again (with_provider p s env) = prepare_again env"
  by (intro ext) (unfold prepare_again_def with_provider_simps, rule refl)

lemma with_provider_errors [simp]:
  "appendProviderError (with_provider p s env) = appendProviderError env"
  "appendRuntimeError (with_provider p s env) = appendRuntimeError env"
  by (intro ext, simp add: appendProviderError_def, intro ext, simp add: appendRuntimeError_def)

lemma with_provider_commit [simp]: "commit_step (with_provider p s env) = commit_step env"
  by (intro ext) (unfold commit_step_def with_provider_simps, rule refl)

lemma attempt_ready:
  assumes "agree_on_ready env p s" and "ready_request env q"
  shows "runOneProviderAttempt (with_provider p s env) t q = runOneProviderAttempt env t q"
proof -
  have pq: "p q x = al_provider env q x" for x using assms by (simp add: agree_on_ready_def)
  have pl: "plain_attempt (with_provider p s env) q = plain_attempt env q"
    by (intro ext) (unfold plain_attempt_def with_provider_simps with_provider_Invoke pq, rule refl)
  have "stream_attempt (with_provider p s env) f q = stream_attempt env g q"
    if fg: "s = Some f" "al_stream env = Some g" for f g
  proof -
    have "f q x = g q x" for x using assms fg by (simp add: agree_on_ready_def)
    then show ?thesis
      by (intro ext) (simp only: stream_attempt_def with_provider_simps with_provider_Invoke with_provider_stream)
  qed
  then have br: "(case s of Some call \<Rightarrow> stream_attempt (with_provider p s env) call q w
       | None \<Rightarrow> plain_attempt (with_provider p s env) q w) =
      (case al_stream env of Some call \<Rightarrow> stream_attempt env call q w | None \<Rightarrow> plain_attempt env q w)" for w
    using assms(1) pl by (auto simp: agree_on_ready_def split: option.splits)
  show ?thesis
    unfolding runOneProviderAttempt_def Let_def with_provider_simps with_provider_Invoke br by (rule refl)
qed

text \<open>Requests that come out of a prepared transcript are ready.\<close>

lemma prepared_request_ready:
  assumes "PrepareProviderCall dg (Some ses) = Inr prepared"
    and "pt_Project (\<lambda>es. al_project env es x) prepared = Inr request"
  shows "ready_request env request"
proof -
  obtain es where es: "pt_log prepared = Some es" and p: "al_project env es x = Inr request"
    using assms(2) by (auto simp: pt_Project_def split: option.splits sum.splits)
  with prepared_log_stable [OF assms(1) es] show ?thesis unfolding ready_request_def by blast
qed

lemma prepare_again_ready: "prepare_again env w = Inr (prepared, request) \<Longrightarrow> ready_request env request"
  by (auto simp: prepare_again_def split: sum.splits intro: prepared_request_ready)

lemma call_loop_ready:
  assumes "agree_on_ready env p s" and "ready_request env request"
  shows "call_loop (with_provider p s env) policy prepared request attempt w =
    call_loop env policy prepared request attempt w"
  using assms
proof (induction env policy prepared request attempt w rule: call_loop.induct)
  case (1 env policy prepared request attempt w)
  note at = attempt_ready [OF "1.prems"]
  obtain r w1 where r: "runOneProviderAttempt env prepared request w = (r, w1)" by fastforce
  show ?case
  proof (cases "\<exists>err. r = Inr (Inl (AttemptProvider err))")
    case False
    then show ?thesis
      by (subst (1 2) call_loop.simps) (auto simp: at r split: sum.splits attempt_error.splits)
  next
    case True
    then obtain err where err: "r = Inr (Inl (AttemptProvider err))" by blast
    define w2 where "w2 = appendProviderError env err attempt False w1"
    have "call_loop (with_provider p s env) policy p' q' (attempt + 1) w2 =
        call_loop env policy p' q' (attempt + 1) w2"
      if "rd_retry (Decide policy err attempt)" "lg_err (w_log w2) = None"
        "prepare_again env w2 = Inr (p', q')" for p' q'
      using "1.IH" [of r w1 "Inl (AttemptProvider err)" "AttemptProvider err" err
          "Decide policy err attempt" w2 "(p', q')" p' q'] "1.prems" r err that prepare_again_ready
      by (auto simp: w2_def)
    then show ?thesis
      by (subst (1 2) call_loop.simps)
        (auto simp: at r err Let_def w2_def [symmetric] split: option.splits sum.splits)
  qed
qed

lemma runTurn_ready:
  assumes "agree_on_ready env p s"
  shows "runTurn (with_provider p s env) = runTurn env"
proof -
  have req: "request_turn (with_provider p s env) t q = request_turn env t q" if "ready_request env q" for t q
  proof -
    have cl: "call_loop (with_provider p s env) po t q n = call_loop env po t q n" for po n
      by (rule ext) (rule call_loop_ready [OF assms that])
    show ?thesis
      by (intro ext)
        (unfold request_turn_def callProviderWithRetry_def with_provider_simps with_provider_Invoke
          with_provider_commit cl, rule refl)
  qed
  have rq: "PrepareProviderCall (al_digest env) (Some ses) = Inr t \<Longrightarrow>
      pt_Project (\<lambda>es. al_project env es x) t = Inr q \<Longrightarrow>
      request_turn (with_provider p s env) t q = request_turn env t q" for ses t x q
    by (rule req [OF prepared_request_ready])
  have br: "(case PrepareProviderCall (al_digest env) (Some (w_session w)) of
        Inl err \<Rightarrow> (Inr (Inl (run_error_of_prepare err)), w)
      | Inr t \<Rightarrow>
          (case pt_Project (\<lambda>es. al_project env es (w_ext w)) t of
             Inl (Inl err) \<Rightarrow> (Inr (Inl (run_error_of_prepare err)), w)
           | Inl (Inr (CapabilityMismatch m)) \<Rightarrow>
               (Inr (Inr (turn_reason ''runtime_failed'')), appendRuntimeError env ''capability_mismatch'' m w)
           | Inl (Inr (ProjectionFailed m)) \<Rightarrow> (Inr (Inl (RunProjection (ProjectionFailed m))), w)
           | Inr q \<Rightarrow> request_turn (with_provider p s env) t q w)) =
      (case PrepareProviderCall (al_digest env) (Some (w_session w)) of
        Inl err \<Rightarrow> (Inr (Inl (run_error_of_prepare err)), w)
      | Inr t \<Rightarrow>
          (case pt_Project (\<lambda>es. al_project env es (w_ext w)) t of
             Inl (Inl err) \<Rightarrow> (Inr (Inl (run_error_of_prepare err)), w)
           | Inl (Inr (CapabilityMismatch m)) \<Rightarrow>
               (Inr (Inr (turn_reason ''runtime_failed'')), appendRuntimeError env ''capability_mismatch'' m w)
           | Inl (Inr (ProjectionFailed m)) \<Rightarrow> (Inr (Inl (RunProjection (ProjectionFailed m))), w)
           | Inr q \<Rightarrow> request_turn env t q w))" for w
    by (auto split: sum.split projection_error.split intro: fun_cong [OF rq])
  show ?thesis
    unfolding runTurn_def with_provider_Invoke with_provider_simps with_provider_errors br by (rule refl)
qed

lemma with_provider_runner [simp]:
  "toolContext (with_provider p s env) = toolContext env"
  "finish_call (with_provider p s env) = finish_call env"
  "spawn_child (with_provider p s env) = spawn_child env"
  by (intro ext, unfold toolContext_def with_provider_simps, rule refl)
    (intro ext, unfold finish_call_def with_provider_append_w, rule refl,
     intro ext, unfold spawn_child_def with_provider_simps, rule refl)

lemma with_provider_spawn [simp]: "runSpawnAgent (with_provider p s env) = runSpawnAgent env"
  by (intro ext)
    (unfold runSpawnAgent_def with_provider_runner with_provider_simps with_provider_append_w, rule refl)

lemma Runner_Run_ready [simp]: "Runner_Run (with_provider p s env) = Runner_Run env"
  by (intro ext)
    (unfold Runner_Run_def with_provider_spawn with_provider_runner with_provider_simps
      with_provider_append_w, rule refl)

lemma dispatch_ready [simp]: "dispatchPendingTools (with_provider p s env) = dispatchPendingTools env"
proof -
  have dec: "decide_all (with_provider p s env) us = decide_all env us" for us
    by (rule decide_all_cong) (simp add: same_hooks_def)
  have all: "dispatch_all (with_provider p s env) registry ds = dispatch_all env registry ds" for registry ds
  proof (induction ds)
    case Nil
    show ?case by (rule ext) simp
  next
    case (Cons d ds)
    obtain u vs where "d = (u, vs)" by fastforce
    moreover have "dispatch_one (with_provider p s env) = dispatch_one env"
      by (intro ext)
        (unfold dispatch_one_def Runner_Run_ready with_provider_append_w with_provider_Invoke, rule refl)
    ultimately show ?case by (intro ext) (simp add: Cons)
  qed
  show ?thesis
    by (intro ext)
      (unfold dispatchPendingTools_def dec all with_provider_simps with_provider_append_w, rule refl)
qed

lemma run_turns_ready:
  assumes "agree_on_ready env p s"
  shows "run_turns (with_provider p s env) n = run_turns env n"
proof (induction n)
  case 0
  show ?case by (rule ext) simp
next
  case (Suc n)
  show ?case
    by (rule ext)
      (unfold run_turns.simps Suc runTurn_ready [OF assms] dispatch_ready with_provider_simps, rule refl)
qed

lemma Run_ready:
  assumes "agree_on_ready env p s"
  shows "Run (with_provider p s env) w = Run env w"
proof -
  have pe: "prepareRunEntry (with_provider p s env) = prepareRunEntry env"
    by (intro ext) (unfold prepareRunEntry_def dispatch_ready with_provider_simps, rule refl)
  show ?thesis
    unfolding Run_def run_body_def run_turns_ready [OF assms] with_provider_simps pe by (rule refl)
qed

text \<open>And at the moment of the call the session is the one that was prepared: after hooks that
  changed it, no provider is asked.\<close>

lemma attempt_stale:
  assumes "Invoke env ''pre_provider_call'' (CtxRequest q) w = (Inr vs, w1)"
    and "\<not> pt_current (al_digest env) t (Some (w_session w1))"
  shows "runOneProviderAttempt (with_provider p s env) t q w =
    (Inr (Inl (AttemptIntegrity [stale_violation (pt_nextSeq t)])), w1)"
  using assms by (simp add: runOneProviderAttempt_def bindA_def)

end
