(* ===== verification/Observe.thy ===== *)
theory Observe
  imports Hooks
begin

text \<open>
  \<^verbatim>\<open>observation.go\<close>: the subscriber list, \<^verbatim>\<open>Emit\<close>, and the subscribers the file defines: the
  collector, the delta logger and the cost tracker.  A subscriber is a value with a code
  pointer (as in theory Hooks) that acts on a state \<open>'w\<close>; it may panic, and \<^verbatim>\<open>Emit\<close> recovers.
\<close>

section \<open>Subscribers\<close>

text \<open>The list of subscribers; \<open>None\<close> stands for the nil subscriber \<^verbatim>\<open>Subscribe\<close> ignores.\<close>

definition Subscribe :: "'s option \<Rightarrow> 's list \<Rightarrow> 's list" where
  "Subscribe s subs = (case s of None \<Rightarrow> subs | Some x \<Rightarrow> subs @ [x])"

definition Unsubscribe :: "('s \<Rightarrow> nat) \<Rightarrow> 's \<Rightarrow> 's list \<Rightarrow> 's list" where
  "Unsubscribe code s subs = remove_first (\<lambda>x. code x = code s) subs"

text \<open>\<open>run s ob w\<close> is the state a subscriber leaves and whether it panicked; the deferred
  \<^verbatim>\<open>recover\<close> drops the panic.\<close>

fun obs_Emit :: "('s \<Rightarrow> observation \<Rightarrow> 'w \<Rightarrow> bool \<times> 'w) \<Rightarrow> 's list \<Rightarrow> observation \<Rightarrow> 'w \<Rightarrow> 'w" where
  "obs_Emit run [] ob w = w"
| "obs_Emit run (s # subs) ob w = (case run s ob w of (panicked, w') \<Rightarrow> obs_Emit run subs ob w')"

text \<open>A panicking subscriber does not keep the later ones from running.\<close>

lemma obs_Emit_append:
  "obs_Emit run (ss @ ts) ob w = obs_Emit run ts ob (obs_Emit run ss ob w)"
  by (induction ss arbitrary: w) (auto split: prod.splits)

lemma Unsubscribe_Subscribe:
  "code s \<notin> code ` set subs \<Longrightarrow> Unsubscribe code s (Subscribe (Some s) subs) = subs"
  by (induction subs) (auto simp: Unsubscribe_def Subscribe_def)

section \<open>ObservationCollector\<close>

text \<open>The name under which an observation is emitted.\<close>

fun obs_name :: "observation \<Rightarrow> string" where
  "obs_name (ObsStorageWriteFailed s c m) = ''storage_write_failed''"
| "obs_name (ObsEventAppended e n) = ''event_appended''"
| "obs_name (ObsProjectionInvoked p n r) = ''projection_invoked''"
| "obs_name (ObsProviderCalled p r) = ''provider_called''"
| "obs_name (ObsProviderFailed p m) = ''provider_failed''"
| "obs_name (ObsProviderResponded p r) = ''provider_responded''"
| "obs_name (ObsStreamEvent e) = ''stream_event''"
| "obs_name (ObsHookHandlerFailed p h m) = ''hook_handler_failed''"
| "obs_name (ObsStrategyStarted s p) = ''strategy_started''"
| "obs_name (ObsStrategyCompleted s p st) = ''strategy_completed''"

definition collector_Call :: "observation \<Rightarrow> observation list \<Rightarrow> observation list" where
  "collector_Call ob c = c @ [ob]"

definition collector_Of :: "string \<Rightarrow> observation list \<Rightarrow> observation list" where
  "collector_Of name c = filter (\<lambda>ob. obs_name ob = name) c"

definition collector_Count :: "string \<Rightarrow> observation list \<Rightarrow> nat" where
  "collector_Count name c = length (collector_Of name c)"

definition collector_Reset :: "observation list \<Rightarrow> observation list" where
  "collector_Reset c = []"

section \<open>DeltaLogger\<close>

record delta_logger =
  dl_index :: int
  dl_lines :: "(int \<times> string \<times> payload) list"

text \<open>\<open>opened\<close> says whether the log file could be opened for this call.\<close>

definition delta_Call :: "bool \<Rightarrow> observation \<Rightarrow> delta_logger \<Rightarrow> delta_logger" where
  "delta_Call opened ob l =
     (case ob of
        ObsStreamEvent e \<Rightarrow>
          if \<not> isStreamObservationEvent (ev_type e) then l
          else if \<not> opened then l
          else l\<lparr>dl_lines := dl_lines l @ [(dl_index l, event_type_string (ev_type e), ev_payload e)],
                dl_index := dl_index l + 1\<rparr>
      | _ \<Rightarrow> l)"

definition delta_run :: "(bool \<times> observation) list \<Rightarrow> delta_logger \<Rightarrow> delta_logger" where
  "delta_run obs l = fold (\<lambda>(opened, ob). delta_Call opened ob) obs l"

text \<open>The line numbers of the file are 0, 1, 2, ... also when some writes were lost.\<close>

definition delta_inv :: "delta_logger \<Rightarrow> bool" where
  "delta_inv l \<longleftrightarrow> map fst (dl_lines l) = map int [0..<length (dl_lines l)] \<and>
     dl_index l = int (length (dl_lines l))"

lemma delta_Call_inv: "delta_inv l \<Longrightarrow> delta_inv (delta_Call opened ob l)"
  by (auto simp: delta_inv_def delta_Call_def split: observation.splits)

lemma delta_run_inv: "delta_inv l \<Longrightarrow> delta_inv (delta_run obs l)"
proof (induction obs arbitrary: l)
  case Nil
  then show ?case by (simp add: delta_run_def)
next
  case (Cons x obs)
  obtain opened ob where x: "x = (opened, ob)" by fastforce
  have "delta_run (x # obs) l = delta_run obs (delta_Call opened ob l)"
    by (simp add: delta_run_def x)
  with Cons delta_Call_inv show ?case by simp
qed

section \<open>CostTracker\<close>

record cost_tracker =
  ct_input :: int
  ct_output :: int
  ct_turns :: int
  ct_threshold :: int
  ct_callback :: bool
  ct_fired :: bool

definition NewCostTracker :: "int \<Rightarrow> bool \<Rightarrow> cost_tracker" where
  "NewCostTracker threshold callback =
     \<lparr>ct_input = 0, ct_output = 0, ct_turns = 0, ct_threshold = threshold, ct_callback = callback,
      ct_fired = False\<rparr>"

definition TotalTokens :: "cost_tracker \<Rightarrow> int" where
  "TotalTokens c = wrap64 (ct_input c + ct_output c)"

text \<open>\<^verbatim>\<open>usageLocked\<close>: the snapshot handed to the callback.\<close>

definition usageLocked :: "cost_tracker \<Rightarrow> (string \<times> int) list" where
  "usageLocked c =
     [(''input_tokens'', ct_input c), (''output_tokens'', ct_output c),
      (''total_tokens'', wrap64 (ct_input c + ct_output c)), (''turns'', ct_turns c)]"

definition message_usage :: "observation \<Rightarrow> payload option" where
  "message_usage ob =
     (case ob of
        ObsEventAppended e n \<Rightarrow>
          if ev_type e \<noteq> EventAssistantMessage then None else as_map (pget (ev_payload e) ''usage'')
      | _ \<Rightarrow> None)"

definition cost_Call :: "observation \<Rightarrow> cost_tracker \<Rightarrow> (string \<times> int) list option \<times> cost_tracker" where
  "cost_Call ob c =
     (case message_usage ob of
        None \<Rightarrow> (None, c)
      | Some usage \<Rightarrow>
          let c1 = c\<lparr>ct_input := wrap64 (ct_input c + asInt (pget usage ''input_tokens'')),
                     ct_output := wrap64 (ct_output c + asInt (pget usage ''output_tokens'')),
                     ct_turns := wrap64 (ct_turns c + 1)\<rparr>;
              shouldFire = (0 < ct_threshold c1 \<and> \<not> ct_fired c1 \<and>
                ct_threshold c1 \<le> wrap64 (ct_input c1 + ct_output c1) \<and> ct_callback c1);
              c2 = (if shouldFire then c1\<lparr>ct_fired := True\<rparr> else c1)
          in (if shouldFire then Some (usageLocked c2) else None, c2))"

fun cost_run :: "observation list \<Rightarrow> cost_tracker \<Rightarrow> (string \<times> int) list list \<times> cost_tracker" where
  "cost_run [] c = ([], c)"
| "cost_run (ob # obs) c =
     (case cost_Call ob c of
        (fired, c1) \<Rightarrow>
          (case cost_run obs c1 of
             (rest, c2) \<Rightarrow> (case fired of None \<Rightarrow> rest | Some u \<Rightarrow> u # rest, c2)))"

lemma cost_Call_fired:
  "cost_Call ob c = (fired, c') \<Longrightarrow>
   (ct_fired c \<longrightarrow> fired = None \<and> ct_fired c') \<and> (fired \<noteq> None \<longrightarrow> ct_fired c') \<and>
   ct_threshold c' = ct_threshold c \<and> ct_callback c' = ct_callback c"
  by (auto simp: cost_Call_def Let_def split: option.splits if_splits)

lemma cost_run_fired: "ct_fired c \<Longrightarrow> fst (cost_run obs c) = []"
proof (induction obs arbitrary: c)
  case Nil
  then show ?case by simp
next
  case (Cons ob obs)
  obtain f c1 where f: "cost_Call ob c = (f, c1)" by fastforce
  have "f = None \<and> ct_fired c1" using cost_Call_fired [OF f] Cons.prems by simp
  with f Cons.IH [of c1] show ?case by (auto split: prod.splits)
qed

text \<open>The callback runs at most once.\<close>

lemma cost_run_once: "length (fst (cost_run obs c)) \<le> 1"
proof (induction obs arbitrary: c)
  case Nil
  then show ?case by simp
next
  case (Cons ob obs)
  obtain f c1 where f: "cost_Call ob c = (f, c1)" by fastforce
  show ?case
  proof (cases f)
    case None
    with f Cons.IH [of c1] show ?thesis by (auto split: prod.splits)
  next
    case (Some u)
    then have "ct_fired c1" using cost_Call_fired [OF f] by simp
    with f Some cost_run_fired [of c1 obs] show ?thesis by (auto split: prod.splits)
  qed
qed

text \<open>The counters are the sums over the assistant messages with usage, modulo \<open>2 ^ 64\<close>.\<close>

definition usages_of :: "observation list \<Rightarrow> payload list" where
  "usages_of obs = List.map_filter message_usage obs"

definition sum_field :: "string \<Rightarrow> payload list \<Rightarrow> int" where
  "sum_field k us = sum_list (map (\<lambda>u. asInt (pget u k)) us)"

lemma usages_of_simps [simp]:
  "usages_of [] = []"
  "usages_of (ob # obs) = (case message_usage ob of None \<Rightarrow> usages_of obs | Some u \<Rightarrow> u # usages_of obs)"
  by (simp_all add: usages_of_def map_filter_simps split: option.splits)

lemma cost_run_counts:
  "wrap64 (ct_input c) = ct_input c \<Longrightarrow> wrap64 (ct_output c) = ct_output c \<Longrightarrow>
   ct_input (snd (cost_run obs c)) = wrap64 (ct_input c + sum_field ''input_tokens'' (usages_of obs)) \<and>
   ct_output (snd (cost_run obs c)) = wrap64 (ct_output c + sum_field ''output_tokens'' (usages_of obs))"
proof (induction obs arbitrary: c)
  case Nil
  then show ?case by (simp add: sum_field_def)
next
  case (Cons ob obs)
  obtain f c1 where f: "cost_Call ob c = (f, c1)" by fastforce
  have w: "wrap64 (wrap64 n) = wrap64 n" for n using wrap64_add [of n 0] by simp
  show ?case
  proof (cases "message_usage ob")
    case None
    with f have "c1 = c \<and> f = None" by (simp add: cost_Call_def)
    with Cons f None show ?thesis by (auto split: prod.splits)
  next
    case (Some u)
    with f have "ct_input c1 = wrap64 (ct_input c + asInt (pget u ''input_tokens''))"
      "ct_output c1 = wrap64 (ct_output c + asInt (pget u ''output_tokens''))"
      by (auto simp: cost_Call_def Let_def split: if_splits)
    with Cons.IH [of c1] Some f show ?thesis
      by (auto simp: sum_field_def w wrap64_add algebra_simps split: prod.splits)
  qed
qed

end
