(* ===== verification/GoText.thy ===== *)
theory GoText
  imports Prelude
begin

text \<open>
  More of Go's library on byte strings: \<^verbatim>\<open>unicode/utf8\<close> (the decoding that \<^verbatim>\<open>[]rune\<close>,
  \<^verbatim>\<open>range\<close> and \<^verbatim>\<open>utf8.ValidString\<close> share) and the part of \<^verbatim>\<open>path/filepath\<close> the sandboxes use,
  on rooted Unix paths.
\<close>

section \<open>UTF-8\<close>

definition byte :: "char \<Rightarrow> nat" where
  "byte c = of_char c"

definition in_range :: "nat \<Rightarrow> nat \<Rightarrow> char \<Rightarrow> bool" where
  "in_range lo hi c \<longleftrightarrow> lo \<le> byte c \<and> byte c \<le> hi"

text \<open>The continuation bytes a leading byte asks for, each with its range.\<close>

definition continuation :: "char \<Rightarrow> (nat \<times> nat) list option" where
  "continuation c =
     (let b = byte c
      in if b < 128 then Some []
         else if 194 \<le> b \<and> b \<le> 223 then Some [(128, 191)]
         else if b = 224 then Some [(160, 191), (128, 191)]
         else if b = 237 then Some [(128, 159), (128, 191)]
         else if 225 \<le> b \<and> b \<le> 239 then Some [(128, 191), (128, 191)]
         else if b = 240 then Some [(144, 191), (128, 191), (128, 191)]
         else if b = 244 then Some [(128, 143), (128, 191), (128, 191)]
         else if 241 \<le> b \<and> b \<le> 243 then Some [(128, 191), (128, 191), (128, 191)]
         else None)"

fun matches :: "(nat \<times> nat) list \<Rightarrow> string \<Rightarrow> bool" where
  "matches [] s = True"
| "matches ((lo, hi) # rs) [] = False"
| "matches ((lo, hi) # rs) (c # s) \<longleftrightarrow> in_range lo hi c \<and> matches rs s"

text \<open>The size of the first rune and whether it is valid; an invalid byte counts as one rune.\<close>

fun decode_rune :: "string \<Rightarrow> nat \<times> bool" where
  "decode_rune [] = (0, False)"
| "decode_rune (c # s) =
     (case continuation c of
        None \<Rightarrow> (1, False)
      | Some rs \<Rightarrow> if matches rs s then (Suc (length rs), True) else (1, False))"

lemma decode_rune_pos: "s \<noteq> [] \<Longrightarrow> fst (decode_rune s) > 0"
  by (cases s) (auto split: option.splits)

lemma matches_length: "matches rs s \<Longrightarrow> length rs \<le> length s"
  by (induction rs s rule: matches.induct) auto

lemma decode_rune_le: "fst (decode_rune s) \<le> length s"
  by (cases s) (auto split: option.splits dest: matches_length)

function rune_count :: "string \<Rightarrow> nat" where
  "rune_count s = (if s = [] then 0 else Suc (rune_count (drop (fst (decode_rune s)) s)))"
  by pat_completeness auto
termination
proof (relation "measure length")
  fix s :: string
  assume "s \<noteq> []"
  then have "fst (decode_rune s) > 0" by (rule decode_rune_pos)
  with \<open>s \<noteq> []\<close> show "(drop (fst (decode_rune s)) s, s) \<in> measure length" by simp
qed simp

declare rune_count.simps [simp del]

function valid_utf8 :: "string \<Rightarrow> bool" where
  "valid_utf8 s =
     (if s = [] then True else snd (decode_rune s) \<and> valid_utf8 (drop (fst (decode_rune s)) s))"
  by pat_completeness auto
termination
proof (relation "measure length")
  fix s :: string
  assume "s \<noteq> []"
  then have "fst (decode_rune s) > 0" by (rule decode_rune_pos)
  with \<open>s \<noteq> []\<close> show "(drop (fst (decode_rune s)) s, s) \<in> measure length" by simp
qed simp

declare valid_utf8.simps [simp del]

lemma valid_utf8_Nil [simp]: "valid_utf8 []"
  by (simp add: valid_utf8.simps)

lemma rune_count_le: "rune_count s \<le> length s"
proof (induction s rule: rune_count.induct)
  case (1 s)
  show ?case
  proof (cases "s = []")
    case True
    then show ?thesis by (simp add: rune_count.simps)
  next
    case False
    then have p: "fst (decode_rune s) > 0" by (rule decode_rune_pos)
    have "rune_count (drop (fst (decode_rune s)) s) \<le> length s - fst (decode_rune s)"
      using 1 False by simp
    moreover have "fst (decode_rune s) \<le> length s" by (rule decode_rune_le)
    ultimately have "Suc (rune_count (drop (fst (decode_rune s)) s)) \<le> length s"
      using p by linarith
    with False show ?thesis by (subst rune_count.simps) simp
  qed
qed

text \<open>ASCII text: every byte is a rune.\<close>

definition ascii :: "string \<Rightarrow> bool" where
  "ascii s \<longleftrightarrow> list_all (\<lambda>c. byte c < 128) s"

lemma ascii_rune_count: "ascii s \<Longrightarrow> rune_count s = length s \<and> valid_utf8 s"
proof (induction s)
  case Nil
  then show ?case by (simp add: rune_count.simps)
next
  case (Cons c s)
  then have "continuation c = Some []" by (simp add: ascii_def continuation_def)
  with Cons show ?case
    by (subst rune_count.simps, subst valid_utf8.simps) (simp add: ascii_def)
qed

lemma ascii_utf8: "ascii s \<Longrightarrow> valid_utf8 s"
  by (simp add: ascii_rune_count)

section \<open>Rooted paths\<close>

text \<open>\<^verbatim>\<open>filepath.Clean\<close> of a rooted path: the components are processed from the left with a
  stack (its top first); empty components and dots vanish, a double dot pops.\<close>

definition dot :: string where "dot = ''.''"
definition dotdot :: string where "dotdot = ''..''"

fun clean_stack :: "string list \<Rightarrow> string list \<Rightarrow> string list" where
  "clean_stack stack [] = rev stack"
| "clean_stack stack (x # xs) =
     (if x = [] \<or> x = dot then clean_stack stack xs
      else if x = dotdot then clean_stack (tl stack) xs
      else clean_stack (x # stack) xs)"

definition render_path :: "string list \<Rightarrow> string" where
  "render_path xs = (if xs = [] then ''/'' else concat (map (\<lambda>x. CHR ''/'' # x) xs))"

definition path_components :: "string \<Rightarrow> string list" where
  "path_components p = clean_stack [] (str_split p (CHR ''/''))"

definition path_clean :: "string \<Rightarrow> string" where
  "path_clean p = render_path (path_components p)"

definition is_abs :: "string \<Rightarrow> bool" where
  "is_abs p \<longleftrightarrow> has_prefix p ''/''"

text \<open>\<^verbatim>\<open>filepath.Join\<close> of a rooted directory and a path; empty elements are dropped.\<close>

definition path_join :: "string \<Rightarrow> string \<Rightarrow> string" where
  "path_join a b = (if b = [] then path_clean a else path_clean (a @ CHR ''/'' # b))"

text \<open>A component list as \<^verbatim>\<open>Clean\<close> leaves it.\<close>

definition clean_components :: "string list \<Rightarrow> bool" where
  "clean_components xs \<longleftrightarrow>
     (\<forall>x \<in> set xs. x \<noteq> [] \<and> x \<noteq> dot \<and> x \<noteq> dotdot \<and> CHR ''/'' \<notin> set x)"

lemma clean_components_simps [simp]:
  "clean_components []"
  "clean_components (x # xs) \<longleftrightarrow>
     x \<noteq> [] \<and> x \<noteq> dot \<and> x \<noteq> dotdot \<and> CHR ''/'' \<notin> set x \<and> clean_components xs"
  by (auto simp: clean_components_def)

lemma clean_components_tl: "clean_components xs \<Longrightarrow> clean_components (tl xs)"
  by (cases xs) auto

lemma clean_stack_clean:
  "clean_components stack \<Longrightarrow> (\<And>x. x \<in> set xs \<Longrightarrow> CHR ''/'' \<notin> set x) \<Longrightarrow>
   clean_components (clean_stack stack xs)"
proof (induction stack xs rule: clean_stack.induct)
  case (1 stack)
  then show ?case by (simp add: clean_components_def)
next
  case (2 stack x xs)
  then show ?case by (auto simp: clean_components_tl)
qed

lemma path_components_clean: "clean_components (path_components p)"
  unfolding path_components_def
  by (rule clean_stack_clean) (auto dest: str_split_no_sep)

lemma clean_stack_id: "clean_components xs \<Longrightarrow> clean_stack stack xs = rev stack @ xs"
  by (induction xs arbitrary: stack) auto

text \<open>Cleaning a rendered clean path changes nothing.\<close>

lemma str_split_append:
  "CHR ''/'' \<notin> set x \<Longrightarrow> str_split (x @ CHR ''/'' # s) (CHR ''/'') = x # str_split s (CHR ''/'')"
  by (induction x) auto

lemma str_split_no: "CHR ''/'' \<notin> set x \<Longrightarrow> str_split x (CHR ''/'') = [x]"
  by (induction x) auto

lemma split_render:
  "clean_components xs \<Longrightarrow> xs \<noteq> [] \<Longrightarrow>
   str_split (concat (map (\<lambda>x. CHR ''/'' # x) xs)) (CHR ''/'') = [] # xs"
proof (induction xs)
  case Nil
  then show ?case by simp
next
  case (Cons x xs)
  show ?case
  proof (cases xs)
    case Nil
    with Cons show ?thesis by (simp add: str_split_no)
  next
    case (Cons y ys)
    with Cons.IH Cons.prems have "str_split (concat (map (\<lambda>x. CHR ''/'' # x) xs)) (CHR ''/'') = [] # xs"
      by simp
    moreover obtain s where s: "concat (map (\<lambda>x. CHR ''/'' # x) xs) = CHR ''/'' # s"
      using Cons by simp
    ultimately have "str_split s (CHR ''/'') = xs" by simp
    with Cons.prems s show ?thesis by (simp add: str_split_append)
  qed
qed

lemma path_components_render: "clean_components xs \<Longrightarrow> path_components (render_path xs) = xs"
  using split_render [of xs] clean_stack_id [of xs "[]"]
  by (auto simp: path_components_def render_path_def)

lemma path_clean_idem: "path_clean (path_clean p) = path_clean p"
  unfolding path_clean_def [of p]
  by (simp add: path_clean_def path_components_render path_components_clean)

lemma render_path_inject:
  "clean_components xs \<Longrightarrow> clean_components ys \<Longrightarrow> render_path xs = render_path ys \<longleftrightarrow> xs = ys"
  by (metis path_components_render)

text \<open>A rendered path lies under another one, textually, exactly when its components do.\<close>

lemma render_path_prefix:
  assumes "clean_components xs" and "clean_components ps" and "ps \<noteq> []"
  shows "has_prefix (render_path xs) (render_path ps @ ''/'') \<longleftrightarrow>
    (\<exists>ys. ys \<noteq> [] \<and> xs = ps @ ys)"
proof
  assume "has_prefix (render_path xs) (render_path ps @ ''/'')"
  then obtain s where s: "render_path xs = render_path ps @ CHR ''/'' # s"
    unfolding has_prefix_def by (metis append_Cons append_Nil append_assoc append_take_drop_id)
  have ne: "xs \<noteq> []"
  proof
    assume "xs = []"
    with s assms(3) show False by (cases ps) (auto simp: render_path_def)
  qed
  have "str_split (concat (map (\<lambda>x. CHR ''/'' # x) ps) @ CHR ''/'' # s) (CHR ''/'')
      = [] # ps @ str_split s (CHR ''/'')"
    using assms(2,3)
  proof (induction ps)
    case Nil
    then show ?case by simp
  next
    case (Cons p ps)
    show ?case
    proof (cases ps)
      case Nil
      with Cons.prems show ?thesis by (simp add: str_split_append)
    next
      case (Cons q qs)
      with Cons.IH Cons.prems
      have "str_split (concat (map (\<lambda>x. CHR ''/'' # x) ps) @ CHR ''/'' # s) (CHR ''/'')
          = [] # ps @ str_split s (CHR ''/'')" by simp
      moreover obtain t where t: "concat (map (\<lambda>x. CHR ''/'' # x) ps) = CHR ''/'' # t"
        using Cons by simp
      ultimately have "str_split (t @ CHR ''/'' # s) (CHR ''/'') = ps @ str_split s (CHR ''/'')" by simp
      with Cons.prems t show ?thesis by (simp add: str_split_append)
    qed
  qed
  then have "[] # xs = [] # ps @ str_split s (CHR ''/'')"
    using split_render [OF assms(1) ne] s ne assms(3) by (simp add: render_path_def)
  then show "\<exists>ys. ys \<noteq> [] \<and> xs = ps @ ys" by simp
next
  assume "\<exists>ys. ys \<noteq> [] \<and> xs = ps @ ys"
  then obtain y ys where "xs = ps @ y # ys" by (metis neq_Nil_conv)
  with assms(3) show "has_prefix (render_path xs) (render_path ps @ ''/'')"
    by (simp add: render_path_def has_prefix_def)
qed

section \<open>Lines\<close>

text \<open>\<^verbatim>\<open>bufio.Scanner\<close> with \<^verbatim>\<open>ScanLines\<close>: lines end at a newline, one carriage return before it is
  dropped, and a line of \<open>limit\<close> bytes or more stops the scan with an error.\<close>

definition raw_lines :: "string \<Rightarrow> string list" where
  "raw_lines s =
     (let xs = str_split s (CHR 0x0A) in if List.last xs = [] then butlast xs else xs)"

definition drop_cr :: "string \<Rightarrow> string" where
  "drop_cr l = (if l \<noteq> [] \<and> List.last l = CHR 0x0D then butlast l else l)"

definition scan_lines :: "nat \<Rightarrow> string \<Rightarrow> string list \<times> bool" where
  "scan_lines limit s =
     (let xs = raw_lines s; ok = takeWhile (\<lambda>l. length l < limit) xs
      in (map drop_cr ok, length ok < length xs))"

definition too_long :: string where
  "too_long = ''bufio.Scanner: token too long''"

end
