(* ===== verification/Compaction.thy ===== *)
theory Compaction
  imports Hooks GoText
begin

text \<open>
  The compaction strategies of \<^verbatim>\<open>strategies.go\<close>: \<^verbatim>\<open>MarkerTail\<close>, \<^verbatim>\<open>ToolOutputCap\<close>,
  \<^verbatim>\<open>TokenMarkerTail\<close> and \<^verbatim>\<open>SummaryTail\<close>, the helpers they share, and \<^verbatim>\<open>observeStrategy\<close>.  Each is
  a \<^verbatim>\<open>pre_projection\<close> handler that may append a compact event.  The lemmas say which of them
  can only turn a transcript that is ready for a provider into one that is still ready.
\<close>

section \<open>Reading the log\<close>

text \<open>A \<^verbatim>\<open>map[int]bool\<close> of replaced numbers is the list of its keys.\<close>

fun replaced_seqs :: "event list \<Rightarrow> int list" where
  "replaced_seqs [] = []"
| "replaced_seqs (e # es) =
     (if ev_type e \<noteq> EventCompact then replaced_seqs es else compact_replaces e @ replaced_seqs es)"

definition messageEvents :: "event list \<Rightarrow> event list" where
  "messageEvents es =
     (let replaced = replaced_seqs es
      in filter (\<lambda>e. ev_seq e \<notin> set replaced \<and>
           ev_type e \<in> {EventUserMessage, EventAssistantMessage, EventToolUse, EventToolResult}) es)"

definition effectiveEvents :: "event list \<Rightarrow> event list" where
  "effectiveEvents es =
     (let replaced = replaced_seqs es
      in filter (\<lambda>e. \<not> (ev_type e = EventCompact \<or> ev_seq e \<in> set replaced)) es)"

definition string_or_empty :: "val \<Rightarrow> string" where
  "string_or_empty v = (case as_string v of Some s \<Rightarrow> s | None \<Rightarrow> [])"

definition indexToolUses :: "event list \<Rightarrow> (string \<times> event) list" where
  "indexToolUses es =
     fold (\<lambda>e out. if ev_type e = EventToolUse
                   then AList.update (string_or_empty (pget (ev_payload e) ''id'')) e out else out) es []"

definition replaces_payload :: "int list \<Rightarrow> string \<Rightarrow> payload" where
  "replaces_payload seqs summary =
     [(''replaces'', VList (map (\<lambda>s. VFloat (float_of_int s)) seqs)), (''summary'', VStr summary)]"

section \<open>observeStrategy\<close>

type_synonym ('h, 'st, 'w, 'a) body = "('h, 'st, 'w) world \<Rightarrow> (panic_value + 'a) \<times> ('h, 'st, 'w) world"

definition strategy_effect :: "nat \<Rightarrow> val \<Rightarrow> ('h, 'st, 'w) world \<Rightarrow> string" where
  "strategy_effect before result w =
     (if length (w_events w) > before then ''mutated''
      else case as_map result of
             Some decision \<Rightarrow>
               if (case as_bool (pget decision ''allow'') of Some allow \<Rightarrow> allow | None \<Rightarrow> False)
               then ''noop'' else ''refused''
           | None \<Rightarrow> ''noop'')"

definition observeStrategy ::
    "string \<Rightarrow> string \<Rightarrow> ('h, 'st, 'w, val) body \<Rightarrow> ('h, 'st, 'w, val) body" where
  "observeStrategy name hookPoint body w =
     (let w1 = on_log (emit (ObsStrategyStarted name hookPoint)) w;
          before = length (w_events w1)
      in case body w1 of
           (Inl p, w2) \<Rightarrow> (Inl p, on_log (emit (ObsStrategyCompleted name hookPoint ''error'')) w2)
         | (Inr result, w2) \<Rightarrow>
             (Inr result,
              on_log (emit (ObsStrategyCompleted name hookPoint (strategy_effect before result w2))) w2))"

section \<open>MarkerTail\<close>

text \<open>\<^verbatim>\<open>KeepRecent\<close> is not negative (a negative one would slice beyond the messages).  A capacity
  below zero is a run-time panic of \<^verbatim>\<open>make\<close>.\<close>

record marker_tail =
  mt_MaxMessages :: int
  mt_KeepRecent :: nat

definition negative_capacity :: panic_value where
  "negative_capacity = PError ''runtime error: makeslice: cap out of range''"

definition MarkerTail_OnPreProjection ::
    "'st log_env \<Rightarrow> marker_tail \<Rightarrow> ('h, 'st, 'w, val) body" where
  "MarkerTail_OnPreProjection le m w =
     (let messages = messageEvents (w_events w)
      in if int (length messages) \<le> mt_MaxMessages m then (Inr VNil, w)
         else
           let cutoff = int (length messages) - int (mt_KeepRecent m)
           in if cutoff < 0 then (Inl negative_capacity, w)
              else
                let replaces = map ev_seq (take (nat cutoff) messages)
                in (Inr VNil,
                    on_log (append_ev le EventCompact
                      (replaces_payload replaces
                        (''[snipped '' @ show_nat (length replaces) @ '' earlier messages]''))) w))"

definition MarkerTail_handler :: "'st log_env \<Rightarrow> marker_tail \<Rightarrow> ('h, 'st, 'w, val) body" where
  "MarkerTail_handler le m =
     observeStrategy ''Compaction::MarkerTail'' ''pre_projection'' (MarkerTail_OnPreProjection le m)"

section \<open>ToolOutputCap\<close>

record tool_output_cap =
  oc_MaxBytes :: int
  oc_PrefixBytes :: int
  oc_SummaryFormat :: string

fun utf8_cut :: "string \<Rightarrow> nat \<Rightarrow> nat" where
  "utf8_cut value 0 = 0"
| "utf8_cut value (Suc n) = (if valid_utf8 (take (Suc n) value) then Suc n else utf8_cut value n)"

definition utf8Prefix :: "string \<Rightarrow> int \<Rightarrow> string" where
  "utf8Prefix value maxBytes =
     (if maxBytes \<le> 0 then []
      else if int (length value) \<le> maxBytes then value
      else take (utf8_cut value (nat maxBytes)) value)"

definition buildToolOutputSummary :: "string \<Rightarrow> int \<Rightarrow> int \<Rightarrow> event \<Rightarrow> string \<Rightarrow> string" where
  "buildToolOutputSummary format maxBytes prefixBytes toolUse output =
     (let toolName = string_or_empty (pget (ev_payload toolUse) ''name'');
          s1 = replace_all format ''$TOOL'' toolName;
          s2 = replace_all s1 ''$CAP'' (show_int maxBytes);
          s3 = replace_all s2 ''$ORIGINAL'' (show_nat (length output))
      in replace_all s3 ''$PREFIX'' (utf8Prefix output prefixBytes))"

definition default_cap_format :: string where
  "default_cap_format =
     ''[tool `$TOOL` output capped at $CAP bytes (original $ORIGINAL bytes)]'' @ [CHR 0x0A] @ ''$PREFIX''"

definition cap_event ::
    "'st log_env \<Rightarrow> string \<Rightarrow> int \<Rightarrow> int \<Rightarrow> (string \<times> event) list \<Rightarrow> event \<Rightarrow>
     ('h, 'st, 'w) world \<Rightarrow> ('h, 'st, 'w) world"
where
  "cap_event le format maxBytes prefixBytes toolUses e w =
     (if ev_type e \<noteq> EventToolResult then w
      else
        let output = string_or_empty (pget (ev_payload e) ''output'')
        in if int (length output) \<le> maxBytes then w
           else case map_of toolUses (string_or_empty (pget (ev_payload e) ''tool_use_id'')) of
                  None \<Rightarrow> w
                | Some toolUse \<Rightarrow>
                    on_log (append_ev le EventCompact
                      (replaces_payload [ev_seq toolUse, ev_seq e]
                        (buildToolOutputSummary format maxBytes prefixBytes toolUse output))) w)"

definition ToolOutputCap_OnPreProjection ::
    "'st log_env \<Rightarrow> tool_output_cap \<Rightarrow> ('h, 'st, 'w, val) body" where
  "ToolOutputCap_OnPreProjection le t w =
     (let maxBytes = (if oc_MaxBytes t = 0 then 4096 else oc_MaxBytes t);
          format = (if oc_SummaryFormat t = [] then default_cap_format else oc_SummaryFormat t);
          toolUses = indexToolUses (w_events w)
      in (Inr VNil,
          fold (cap_event le format maxBytes (oc_PrefixBytes t) toolUses)
            (effectiveEvents (w_events w)) w))"

definition ToolOutputCap_handler :: "'st log_env \<Rightarrow> tool_output_cap \<Rightarrow> ('h, 'st, 'w, val) body" where
  "ToolOutputCap_handler le t =
     observeStrategy ''Compaction::ToolOutputCap'' ''pre_projection'' (ToolOutputCap_OnPreProjection le t)"

section \<open>toolPairSafeRange\<close>

fun pair_maps ::
    "event list \<Rightarrow> (string \<times> int) list \<Rightarrow> (string \<times> int) list \<Rightarrow>
     (string \<times> int) list \<times> (string \<times> int) list"
where
  "pair_maps [] us rs = (us, rs)"
| "pair_maps (e # es) us rs =
     (if ev_type e = EventToolUse then pair_maps es (AList.update (use_id e) (ev_seq e) us) rs
      else if ev_type e = EventToolResult then pair_maps es us (AList.update (result_id e) (ev_seq e) rs)
      else pair_maps es us rs)"

text \<open>One turn of the loop over the map of uses, on the set of candidates.\<close>

definition drop_pair :: "(string \<times> int) list \<Rightarrow> string \<times> int \<Rightarrow> int list \<Rightarrow> int list" where
  "drop_pair rs x cand =
     (case map_of rs (fst x) of
        None \<Rightarrow> removeAll (snd x) cand
      | Some resultSeq \<Rightarrow>
          if (snd x \<in> set cand) \<noteq> (resultSeq \<in> set cand)
          then removeAll resultSeq (removeAll (snd x) cand) else cand)"

definition toolPairSafeRange :: "event list \<Rightarrow> int list \<Rightarrow> int list" where
  "toolPairSafeRange es candidates =
     (let (us, rs) = pair_maps es [] [];
          candidateSet = fold (drop_pair rs) us candidates
      in filter (\<lambda>s. s \<in> set candidateSet) candidates)"

section \<open>TokenMarkerTail\<close>

record token_marker_tail =
  tm_MaxTokens :: int
  tm_Threshold :: rat
  tm_KeepRecent :: nat
  tm_SummaryFormat :: string

definition payload_chars :: "payload \<Rightarrow> nat" where
  "payload_chars p = sum_list (map (\<lambda>(k, v). case v of VStr s \<Rightarrow> rune_count s | _ \<Rightarrow> 0) p)"

definition estimateTokens :: "event list \<Rightarrow> nat" where
  "estimateTokens es = (sum_list (map (\<lambda>e. payload_chars (ev_payload e)) es) + 3) div 4"

text \<open>The default threshold is the float64 nearest to 0.85.\<close>

definition default_threshold :: rat where
  "default_threshold = 7656119366529843 / 2 ^ 53"

definition trigger_tokens :: "int \<Rightarrow> rat \<Rightarrow> int" where
  "trigger_tokens maxTokens threshold =
     (case fl (float_of_int maxTokens * threshold) of Some x \<Rightarrow> int_of_float x | None \<Rightarrow> min_int64)"

definition default_token_format :: string where
  "default_token_format = ''[compacted $N earlier messages (~$E tokens -> threshold $T)]''"

definition TokenMarkerTail_OnPreProjection ::
    "'st log_env \<Rightarrow> token_marker_tail \<Rightarrow> ('h, 'st, 'w, val) body" where
  "TokenMarkerTail_OnPreProjection le t w =
     (let maxTokens = (if tm_MaxTokens t = 0 then 100000 else tm_MaxTokens t);
          threshold = (if tm_Threshold t = 0 then default_threshold else tm_Threshold t);
          format = (if tm_SummaryFormat t = [] then default_token_format else tm_SummaryFormat t);
          messages = messageEvents (w_events w);
          estimated = estimateTokens messages;
          triggerTokens = trigger_tokens maxTokens threshold
      in if int estimated \<le> triggerTokens then (Inr VNil, w)
         else if length messages \<le> tm_KeepRecent t then (Inr VNil, w)
         else
           let candidates = map ev_seq (take (length messages - tm_KeepRecent t) messages);
               safeSeqs = toolPairSafeRange (w_events w) candidates
           in if safeSeqs = [] then (Inr VNil, w)
              else
                let s1 = replace_all format ''$N'' (show_nat (length safeSeqs));
                    s2 = replace_all s1 ''$E'' (show_nat estimated);
                    s3 = replace_all s2 ''$T'' (show_int triggerTokens)
                in (Inr VNil, on_log (append_ev le EventCompact (replaces_payload safeSeqs s3)) w))"

definition TokenMarkerTail_handler :: "'st log_env \<Rightarrow> token_marker_tail \<Rightarrow> ('h, 'st, 'w, val) body" where
  "TokenMarkerTail_handler le t =
     observeStrategy ''Compaction::TokenMarkerTail'' ''pre_projection''
       (TokenMarkerTail_OnPreProjection le t)"

section \<open>SummaryTail\<close>

text \<open>The projection, the provider and the ingestor are interfaces; \<^verbatim>\<open>nil\<close> is \<open>None\<close>.  The
  identifier of the throw-away session is a parameter.\<close>

record ('h, 'st, 'w) summary_tail =
  su_Projection :: "(event list \<Rightarrow> string + payload) option"
  su_Provider :: "(payload \<Rightarrow> ('h, 'st, 'w) world \<Rightarrow> (string + payload) \<times> ('h, 'st, 'w) world) option"
  su_Ingestor :: "(payload \<Rightarrow> string + event_args list) option"
  su_MaxMessages :: int
  su_KeepRecent :: nat
  su_Prompt :: string
  su_digest :: "val \<Rightarrow> string + string"
  su_newID :: string

definition default_prompt :: string where
  "default_prompt =
     ''Summarize the preceding conversation tersely, preserving facts the agent will need to continue the work. Return only the summary text, no preamble.''"

definition summary_log :: "'st log_env \<Rightarrow> string \<Rightarrow> event list \<Rightarrow> int list \<Rightarrow> 'st slog" where
  "summary_log le prompt messages seqs =
     append_ev le EventUserMessage [(''text'', VStr prompt)]
       (fold (\<lambda>e lg. if ev_seq e \<in> set seqs then append_ev le (ev_type e) (ev_payload e) lg else lg)
          messages NewLog)"

definition summarize ::
    "'st log_env \<Rightarrow> ('h, 'st, 'w) summary_tail \<Rightarrow>
     (payload \<Rightarrow> ('h, 'st, 'w) world \<Rightarrow> (string + payload) \<times> ('h, 'st, 'w) world) \<Rightarrow>
     (event list \<Rightarrow> string + payload) \<Rightarrow> (payload \<Rightarrow> string + event_args list) \<Rightarrow>
     event list \<Rightarrow> int list \<Rightarrow> ('h, 'st, 'w) world \<Rightarrow> string \<times> ('h, 'st, 'w) world"
where
  "summarize le s provider project ingest messages seqs w =
     (let prompt = (if su_Prompt s = [] then default_prompt else su_Prompt s);
          subLog = summary_log le prompt messages seqs
      in case PrepareProviderCall (su_digest s)
                (Some (NewSession (''ses_summary_'' @ su_newID s) (Some subLog) [])) of
           Inl err \<Rightarrow> ([], w)
         | Inr prepared \<Rightarrow>
             (case pt_Project project prepared of
                Inl err \<Rightarrow> ([], w)
              | Inr request \<Rightarrow>
                  (case provider request w of
                     (Inl err, w1) \<Rightarrow> ([], w1)
                   | (Inr response, w1) \<Rightarrow>
                       (case ingest response of
                          Inl err \<Rightarrow> ([], w1)
                        | Inr events \<Rightarrow>
                            let lg = fold (\<lambda>a. append_ev le (ea_type a) (ea_payload a)) events subLog
                            in (case LastAssistantMessage lg of
                                  None \<Rightarrow> ([], w1)
                                | Some final \<Rightarrow> (ev_str final ''text'', w1))))))"

definition SummaryTail_OnPreProjection ::
    "'st log_env \<Rightarrow> ('h, 'st, 'w) summary_tail \<Rightarrow> ('h, 'st, 'w, val) body" where
  "SummaryTail_OnPreProjection le s w =
     (case (su_Projection s, su_Provider s, su_Ingestor s) of
        (Some project, Some provider, Some ingest) \<Rightarrow>
          let maxMessages = (if su_MaxMessages s = 0 then 20 else su_MaxMessages s);
              messages = messageEvents (w_events w)
          in if int (length messages) \<le> maxMessages then (Inr VNil, w)
             else if length messages \<le> su_KeepRecent s then (Inr VNil, w)
             else
               let candidates = map ev_seq (take (length messages - su_KeepRecent s) messages);
                   safeSeqs = toolPairSafeRange (w_events w) candidates
               in if safeSeqs = [] then (Inr VNil, w)
                  else
                    let (summary, w1) = summarize le s provider project ingest messages safeSeqs w
                    in if summary = [] then (Inr VNil, w1)
                       else (Inr VNil,
                             on_log (append_ev le EventCompact (replaces_payload safeSeqs summary)) w1)
      | _ \<Rightarrow> (Inr VNil, w))"

definition SummaryTail_handler ::
    "'st log_env \<Rightarrow> ('h, 'st, 'w) summary_tail \<Rightarrow> ('h, 'st, 'w, val) body" where
  "SummaryTail_handler le s =
     observeStrategy ''Compaction::SummaryTail'' ''pre_projection'' (SummaryTail_OnPreProjection le s)"

end
