(* ===== verification/CompactionProps.thy ===== *)
theory CompactionProps
  imports Compaction
begin

text \<open>
  What the compaction strategies do to the pairing of tool uses and tool results.  A set of
  sequence numbers is \<open>pair_closed\<close> when it never separates a use from its result; compacting
  such a set keeps a transcript ready for a provider, and \<^verbatim>\<open>toolPairSafeRange\<close> computes one,
  whatever the iteration order of its map.
\<close>

section \<open>The two maps\<close>

lemma find_no_key: "k \<notin> f ` set xs \<Longrightarrow> find (\<lambda>x. f x = k) xs = None"
  by (induction xs) auto

lemma find_key_lookup:
  assumes "distinct (map f xs)"
  shows "(case find (\<lambda>x. f x = k) xs of Some x \<Rightarrow> Some (g x) | None \<Rightarrow> None) = Some s \<longleftrightarrow>
    (\<exists>x \<in> set xs. f x = k \<and> g x = s)"
proof -
  have "(case find (\<lambda>x. f x = k) xs of Some x \<Rightarrow> Some (g x) | None \<Rightarrow> None) = Some s \<longleftrightarrow>
      (\<exists>x. find (\<lambda>x. f x = k) xs = Some x \<and> g x = s)" by (auto split: option.splits)
  with find_key_iff [OF assms] show ?thesis by auto
qed

lemma pair_maps_uses:
  "distinct (map use_id (uses_of es)) \<Longrightarrow>
   map_of (fst (pair_maps es us rs)) i =
     (case find (\<lambda>u. use_id u = i) (uses_of es) of Some u \<Rightarrow> Some (ev_seq u) | None \<Rightarrow> map_of us i)"
proof (induction es arbitrary: us rs)
  case Nil
  then show ?case by simp
next
  case (Cons e es)
  have n: "use_id e \<notin> use_id ` set (uses_of es) \<Longrightarrow> find (\<lambda>u. use_id u = use_id e) (uses_of es) = None"
    by (rule find_no_key)
  show ?case
    using Cons n by (auto simp: map_of_update_iff split: option.splits)
qed

lemma pair_maps_results:
  "distinct (map result_id (results_of es)) \<Longrightarrow>
   map_of (snd (pair_maps es us rs)) i =
     (case find (\<lambda>r. result_id r = i) (results_of es) of Some r \<Rightarrow> Some (ev_seq r) | None \<Rightarrow> map_of rs i)"
proof (induction es arbitrary: us rs)
  case Nil
  then show ?case by simp
next
  case (Cons e es)
  have n: "result_id e \<notin> result_id ` set (results_of es) \<Longrightarrow>
      find (\<lambda>r. result_id r = result_id e) (results_of es) = None"
    by (rule find_no_key)
  show ?case
    using Cons n by (auto simp: map_of_update_iff split: option.splits)
qed

lemma pair_maps_distinct:
  "distinct (map fst us) \<Longrightarrow> distinct (map fst (fst (pair_maps es us rs)))"
  by (induction es arbitrary: us rs) (simp_all add: distinct_update)

lemma pair_maps_use_entry:
  assumes "well_referenced es"
  shows "(i, s) \<in> set (fst (pair_maps es [] [])) \<longleftrightarrow> (\<exists>u \<in> set (uses_of es). use_id u = i \<and> ev_seq u = s)"
proof -
  have d: "distinct (map use_id (uses_of es))" using assms by (simp add: well_referenced_def)
  have "(i, s) \<in> set (fst (pair_maps es [] [])) \<longleftrightarrow> map_of (fst (pair_maps es [] [])) i = Some s"
    using pair_maps_distinct [of "[]" es "[]"] by simp
  also have "\<dots> \<longleftrightarrow> (\<exists>u \<in> set (uses_of es). use_id u = i \<and> ev_seq u = s)"
    unfolding pair_maps_uses [OF d] map_of.simps by (rule find_key_lookup [OF d])
  finally show ?thesis .
qed

lemma pair_maps_result_lookup:
  assumes "well_referenced es"
  shows "map_of (snd (pair_maps es [] [])) i = Some s \<longleftrightarrow>
    (\<exists>r \<in> set (results_of es). result_id r = i \<and> ev_seq r = s)"
proof -
  have d: "distinct (map result_id (results_of es))" using assms by (simp add: well_referenced_def)
  show ?thesis
    unfolding pair_maps_results [OF d] map_of.simps by (rule find_key_lookup [OF d])
qed

section \<open>The loop over the uses\<close>

definition footprint :: "(string \<times> int) list \<Rightarrow> string \<times> int \<Rightarrow> int set" where
  "footprint rs x = insert (snd x) (set_option (map_of rs (fst x)))"

definition pair_good :: "(string \<times> int) list \<Rightarrow> string \<times> int \<Rightarrow> int set \<Rightarrow> bool" where
  "pair_good rs x c = (case map_of rs (fst x) of None \<Rightarrow> False | Some r \<Rightarrow> (snd x \<in> c) = (r \<in> c))"

lemma set_drop_pair:
  "s \<in> set (drop_pair rs x c) \<longleftrightarrow> s \<in> set c \<and> (s \<in> footprint rs x \<longrightarrow> pair_good rs x (set c))"
  by (auto simp: drop_pair_def footprint_def pair_good_def split: option.splits)

lemma pair_good_cong:
  "(\<And>s. s \<in> footprint rs x \<Longrightarrow> s \<in> c \<longleftrightarrow> s \<in> d) \<Longrightarrow> pair_good rs x c = pair_good rs x d"
  by (auto simp: pair_good_def footprint_def split: option.splits)

text \<open>With disjoint footprints the result does not depend on the order of the entries.\<close>

lemma fold_drop_pair:
  assumes "distinct us"
    and "\<And>x y. x \<in> set us \<Longrightarrow> y \<in> set us \<Longrightarrow> x \<noteq> y \<Longrightarrow> footprint rs x \<inter> footprint rs y = {}"
  shows "s \<in> set (fold (drop_pair rs) us c) \<longleftrightarrow>
    s \<in> set c \<and> (\<forall>x \<in> set us. s \<in> footprint rs x \<longrightarrow> pair_good rs x (set c))"
  using assms
proof (induction us arbitrary: c)
  case Nil
  then show ?case by simp
next
  case (Cons x us)
  have keep: "pair_good rs y (set (drop_pair rs x c)) = pair_good rs y (set c)" if y: "y \<in> set us" for y
  proof (rule pair_good_cong)
    fix s
    assume s: "s \<in> footprint rs y"
    have "x \<noteq> y" using Cons.prems(1) y by auto
    then have "footprint rs x \<inter> footprint rs y = {}" using Cons.prems(2) y by simp
    with s show "s \<in> set (drop_pair rs x c) \<longleftrightarrow> s \<in> set c" by (auto simp: set_drop_pair)
  qed
  have "s \<in> set (fold (drop_pair rs) us (drop_pair rs x c)) \<longleftrightarrow>
      s \<in> set (drop_pair rs x c) \<and>
      (\<forall>y \<in> set us. s \<in> footprint rs y \<longrightarrow> pair_good rs y (set (drop_pair rs x c)))"
    by (rule Cons.IH) (use Cons.prems in auto)
  with keep show ?case by (auto simp: set_drop_pair)
qed

section \<open>toolPairSafeRange\<close>

text \<open>A number is safe when, if it belongs to a tool use or to its result, the use has a
  result and both are candidates or neither is.\<close>

definition pair_safe :: "event list \<Rightarrow> int set \<Rightarrow> int \<Rightarrow> bool" where
  "pair_safe es c s \<longleftrightarrow>
     (\<forall>u \<in> set (uses_of es).
        (s = ev_seq u \<or> (\<exists>r \<in> set (results_of es). result_id r = use_id u \<and> s = ev_seq r)) \<longrightarrow>
        (\<exists>r \<in> set (results_of es). result_id r = use_id u \<and> (ev_seq u \<in> c) = (ev_seq r \<in> c)))"

definition pair_closed :: "event list \<Rightarrow> int set \<Rightarrow> bool" where
  "pair_closed es c \<longleftrightarrow>
     (\<forall>u \<in> set (uses_of es). \<forall>r \<in> set (results_of es).
        use_id u = result_id r \<longrightarrow> (ev_seq u \<in> c \<longleftrightarrow> ev_seq r \<in> c))"

lemma seq_inject:
  assumes "dense es" and "e \<in> set es" and "f \<in> set es" and "ev_seq e = ev_seq f"
  shows "e = f"
  using dense_distinct [OF assms(1)] assms(2-) by (auto simp: distinct_map inj_on_def)

lemma footprint_iff:
  assumes "well_referenced es" and "u \<in> set (uses_of es)"
  shows "s \<in> footprint (snd (pair_maps es [] [])) (use_id u, ev_seq u) \<longleftrightarrow>
    s = ev_seq u \<or> (\<exists>r \<in> set (results_of es). result_id r = use_id u \<and> s = ev_seq r)"
proof -
  have "s \<in> set_option (map_of (snd (pair_maps es [] [])) (use_id u)) \<longleftrightarrow>
      map_of (snd (pair_maps es [] [])) (use_id u) = Some s" by (auto simp: elem_set)
  then show ?thesis
    unfolding footprint_def pair_maps_result_lookup [OF assms(1)] by auto
qed

lemma pair_good_iff:
  assumes "well_referenced es"
  shows "pair_good (snd (pair_maps es [] [])) (i, s) c \<longleftrightarrow>
    (\<exists>r \<in> set (results_of es). result_id r = i \<and> (s \<in> c) = (ev_seq r \<in> c))"
proof -
  have "pair_good (snd (pair_maps es [] [])) (i, s) c \<longleftrightarrow>
      (\<exists>t. map_of (snd (pair_maps es [] [])) i = Some t \<and> (s \<in> c) = (t \<in> c))"
    by (auto simp: pair_good_def split: option.splits)
  then show ?thesis
    unfolding pair_maps_result_lookup [OF assms] by blast
qed

lemma footprints_disjoint:
  assumes "well_referenced es" and "dense es"
    and "u \<in> set (uses_of es)" and "v \<in> set (uses_of es)" and "u \<noteq> v"
  shows "footprint (snd (pair_maps es [] [])) (use_id u, ev_seq u) \<inter>
         footprint (snd (pair_maps es [] [])) (use_id v, ev_seq v) = {}"
proof -
  let ?f = "\<lambda>u. {u} \<union> {r \<in> set (results_of es). result_id r = use_id u}"
  have ne: "use_id u \<noteq> use_id v"
    using assms(1,3-5) by (auto simp: well_referenced_def distinct_map inj_on_def)
  have fp: "footprint (snd (pair_maps es [] [])) (use_id x, ev_seq x) = ev_seq ` ?f x"
    if "x \<in> set (uses_of es)" for x
    using footprint_iff [OF assms(1) that] by (simp only: set_eq_iff) auto
  have sub: "?f x \<subseteq> set es" if "x \<in> set (uses_of es)" for x
    using that by (auto simp: set_uses_of set_results_of)
  have "?f u \<inter> ?f v = {}"
    using assms(3-5) ne by (auto simp: set_uses_of set_results_of)
  moreover have "inj_on ev_seq (set es)"
    using dense_distinct [OF assms(2)] by (simp add: distinct_map)
  ultimately show ?thesis
    unfolding fp [OF assms(3)] fp [OF assms(4)]
    using inj_on_image_Int [of ev_seq "set es" "?f u" "?f v"] sub [OF assms(3)] sub [OF assms(4)]
    by simp
qed

lemma toolPairSafeRange_spec:
  assumes wr: "well_referenced es" and d: "dense es"
  shows "toolPairSafeRange es c = filter (pair_safe es (set c)) c"
proof -
  define us rs where "us = fst (pair_maps es [] [])" and "rs = snd (pair_maps es [] [])"
  have entry: "\<exists>u \<in> set (uses_of es). x = (use_id u, ev_seq u)" if "x \<in> set us" for x
    using that pair_maps_use_entry [OF wr, of "fst x" "snd x"] unfolding us_def by (metis prod.collapse)
  have "distinct us"
    using pair_maps_distinct [of "[]" es "[]"] by (auto simp: us_def distinct_map)
  then have mem: "s \<in> set (fold (drop_pair rs) us c) \<longleftrightarrow>
      s \<in> set c \<and> (\<forall>x \<in> set us. s \<in> footprint rs x \<longrightarrow> pair_good rs x (set c))" for s
  proof (rule fold_drop_pair)
    fix x y
    assume "x \<in> set us" and "y \<in> set us" and "x \<noteq> y"
    then obtain u v where "u \<in> set (uses_of es)" "v \<in> set (uses_of es)" "u \<noteq> v"
      "x = (use_id u, ev_seq u)" "y = (use_id v, ev_seq v)" by (metis entry)
    then show "footprint rs x \<inter> footprint rs y = {}"
      unfolding rs_def by (simp add: footprints_disjoint [OF wr d])
  qed
  have "(\<forall>x \<in> set us. s \<in> footprint rs x \<longrightarrow> pair_good rs x (set c)) \<longleftrightarrow> pair_safe es (set c) s" for s
  proof -
    have "(\<forall>x \<in> set us. s \<in> footprint rs x \<longrightarrow> pair_good rs x (set c)) \<longleftrightarrow>
        (\<forall>u \<in> set (uses_of es). s \<in> footprint rs (use_id u, ev_seq u) \<longrightarrow>
           pair_good rs (use_id u, ev_seq u) (set c))"
      using entry pair_maps_use_entry [OF wr] unfolding us_def by blast
    also have "\<dots> \<longleftrightarrow> pair_safe es (set c) s"
      unfolding rs_def pair_safe_def by (simp add: footprint_iff [OF wr] pair_good_iff [OF wr])
    finally show ?thesis .
  qed
  with mem have "s \<in> set (fold (drop_pair rs) us c) \<longleftrightarrow> s \<in> set c \<and> pair_safe es (set c) s" for s
    by simp
  then show ?thesis
    unfolding toolPairSafeRange_def us_def rs_def
    by (auto simp: Let_def split: prod.splits intro: filter_cong)
qed

lemma toolPairSafeRange_closed:
  assumes "well_referenced es" and "dense es"
  shows "pair_closed es (set (toolPairSafeRange es c))"
  unfolding pair_closed_def
proof (intro ballI impI)
  fix u r
  assume u: "u \<in> set (uses_of es)" and r: "r \<in> set (results_of es)" and ur: "use_id u = result_id r"
  have only: "r' = r" if "r' \<in> set (results_of es)" "result_id r' = use_id u" for r'
    using assms(1) r ur that by (auto simp: well_referenced_def distinct_map inj_on_def)
  have same: "v = u" if v: "v \<in> set (uses_of es)" and s: "ev_seq u = ev_seq v \<or>
      (\<exists>r \<in> set (results_of es). result_id r = use_id v \<and> ev_seq u = ev_seq r)" for v
  proof -
    have "ev_seq u \<noteq> ev_seq r'" if "r' \<in> set (results_of es)" for r'
      using seq_inject [OF assms(2), of u r'] u that by (auto simp: set_uses_of set_results_of)
    with s have "ev_seq u = ev_seq v" by auto
    then show ?thesis using seq_inject [OF assms(2), of v u] u v by (auto simp: set_uses_of)
  qed
  have same': "v = u" if v: "v \<in> set (uses_of es)" and s: "ev_seq r = ev_seq v \<or>
      (\<exists>r' \<in> set (results_of es). result_id r' = use_id v \<and> ev_seq r = ev_seq r')" for v
  proof -
    have "ev_seq r \<noteq> ev_seq v"
      using seq_inject [OF assms(2), of v r] r v by (auto simp: set_uses_of set_results_of)
    with s obtain r' where r': "r' \<in> set (results_of es)" "result_id r' = use_id v" "ev_seq r = ev_seq r'"
      by auto
    then have "r' = r" using seq_inject [OF assms(2), of r' r] r by (auto simp: set_results_of)
    with r' ur have "use_id v = use_id u" by simp
    with u v assms(1) show ?thesis by (auto simp: well_referenced_def distinct_map inj_on_def)
  qed
  have su: "pair_safe es (set c) (ev_seq u) \<longleftrightarrow> (ev_seq u \<in> set c) = (ev_seq r \<in> set c)"
    unfolding pair_safe_def using u r ur only same by metis
  have sr: "pair_safe es (set c) (ev_seq r) \<longleftrightarrow> (ev_seq u \<in> set c) = (ev_seq r \<in> set c)"
    unfolding pair_safe_def using u r ur only same' by metis
  show "ev_seq u \<in> set (toolPairSafeRange es c) \<longleftrightarrow> ev_seq r \<in> set (toolPairSafeRange es c)"
    unfolding toolPairSafeRange_spec [OF assms] using su sr by auto
qed

section \<open>Compacting a pair-closed set\<close>

lemma pair_closed_of_event:
  assumes "well_referenced es" and "dense es"
    and "u \<in> set (uses_of es)" and "r \<in> set (results_of es)" and "use_id u = result_id r"
  shows "pair_closed es {ev_seq u, ev_seq r}"
  unfolding pair_closed_def
proof (intro ballI impI)
  fix v t
  assume v: "v \<in> set (uses_of es)" and t: "t \<in> set (results_of es)" and vt: "use_id v = result_id t"
  have in_es: "u \<in> set es" "v \<in> set es" "r \<in> set es" "t \<in> set es"
    using assms(3,4) v t by (auto simp: set_uses_of set_results_of)
  have ty: "is_use u" "is_use v" "is_result r" "is_result t"
    using assms(3,4) v t by (auto simp: set_uses_of set_results_of)
  have "ev_seq v \<in> {ev_seq u, ev_seq r} \<longleftrightarrow> v = u"
    using seq_inject [OF assms(2)] in_es ty by (metis event_type.distinct insert_iff singletonD)
  moreover have "ev_seq t \<in> {ev_seq u, ev_seq r} \<longleftrightarrow> t = r"
    using seq_inject [OF assms(2)] in_es ty by (metis event_type.distinct insert_iff singletonD)
  moreover have "v = u \<longleftrightarrow> t = r"
    using assms(1,3,4,5) v t vt by (auto simp: well_referenced_def distinct_map inj_on_def)
  ultimately show "ev_seq v \<in> {ev_seq u, ev_seq r} \<longleftrightarrow> ev_seq t \<in> {ev_seq u, ev_seq r}" by simp
qed

lemma uses_of_apply: "uses_of (apply_mutations es) = filter (\<lambda>e. is_use e \<and> ev_seq e \<notin> shadowed_seqs es) es"
  unfolding uses_of_def by (rule filter_tools_apply_mutations) simp

lemma results_of_apply:
  "results_of (apply_mutations es) = filter (\<lambda>e. is_result e \<and> ev_seq e \<notin> shadowed_seqs es) es"
  unfolding results_of_def by (rule filter_tools_apply_mutations) simp

lemma shadowed_snoc_compact:
  assumes "ev_type c = EventCompact"
  shows "shadowed_seqs (es @ [c]) = shadowed_seqs es \<or>
         shadowed_seqs (es @ [c]) = shadowed_seqs es \<union> set (compact_replaces c)"
proof -
  have r: "collect_revoked (es @ [c]) = collect_revoked es" using assms by simp
  show ?thesis
  proof (cases "ev_seq c \<in> set (collect_revoked es) \<or> compact_replaces c = []")
    case True
    then have "active_compact (es @ [c]) e \<longleftrightarrow> active_compact es e" for e
      unfolding active_compact_def r by auto
    then show ?thesis by (simp add: shadowed_seqs_def)
  next
    case False
    with assms have "active_compact (es @ [c]) e \<longleftrightarrow> active_compact es e \<or> e = c" for e
      unfolding active_compact_def r by auto
    then show ?thesis by (auto simp: shadowed_seqs_def)
  qed
qed

lemma compact_keeps_ready:
  assumes ready: "provider_ready es" and c: "ev_type c = EventCompact"
    and closed: "pair_closed es (set (compact_replaces c))"
  shows "provider_ready (es @ [c])"
proof -
  define sh sh' where "sh = shadowed_seqs es" and "sh' = shadowed_seqs (es @ [c])"
  have wr: "well_referenced es" and wra: "well_referenced (apply_mutations es)"
    and res: "all_resolved (apply_mutations es)" using ready by (simp_all add: provider_ready_def)
  have u0: "set (uses_of (apply_mutations es)) = {u \<in> set (uses_of es). ev_seq u \<notin> sh}"
    and r0: "set (results_of (apply_mutations es)) = {r \<in> set (results_of es). ev_seq r \<notin> sh}"
    by (auto simp: uses_of_apply results_of_apply sh_def set_uses_of set_results_of)
  have uf: "uses_of (apply_mutations (es @ [c])) = filter (\<lambda>e. ev_seq e \<notin> sh') (uses_of es)"
    and rf: "results_of (apply_mutations (es @ [c])) = filter (\<lambda>e. ev_seq e \<notin> sh') (results_of es)"
    unfolding uses_of_apply results_of_apply sh'_def
    using c by (simp_all add: uses_of_def results_of_def conj_commute)
  have sub: "sh \<subseteq> sh'" and new: "sh' - sh \<subseteq> set (compact_replaces c)"
    and all_or: "sh' = sh \<or> sh' = sh \<union> set (compact_replaces c)"
    using shadowed_snoc_compact [OF c, of es] by (auto simp: sh_def sh'_def)
  have pair: "ev_seq u \<in> sh' \<longleftrightarrow> ev_seq r \<in> sh'"
    if "u \<in> set (uses_of es)" "r \<in> set (results_of es)" "use_id u = result_id r"
      "ev_seq u \<notin> sh" "ev_seq r \<notin> sh" for u r
  proof -
    have "ev_seq u \<in> set (compact_replaces c) \<longleftrightarrow> ev_seq r \<in> set (compact_replaces c)"
      using closed that(1-3) by (simp add: pair_closed_def)
    with all_or that(4,5) show ?thesis by auto
  qed
  have "well_referenced (apply_mutations (es @ [c]))"
    unfolding well_referenced_def uf rf
  proof (intro conjI ballI)
    show "distinct (map use_id (filter (\<lambda>e. ev_seq e \<notin> sh') (uses_of es)))"
      using wr by (simp add: well_referenced_def distinct_map_filter)
    show "distinct (map result_id (filter (\<lambda>e. ev_seq e \<notin> sh') (results_of es)))"
      using wr by (simp add: well_referenced_def distinct_map_filter)
  next
    fix u
    assume "u \<in> set (filter (\<lambda>e. ev_seq e \<notin> sh') (uses_of es))"
    then show "use_id u \<noteq> []" using wr by (simp add: well_referenced_def)
  next
    fix r
    assume r: "r \<in> set (filter (\<lambda>e. ev_seq e \<notin> sh') (results_of es))"
    then show "result_id r \<noteq> []" using wr by (simp add: well_referenced_def)
    from r sub have "r \<in> set (results_of (apply_mutations es))" by (auto simp: r0)
    then obtain u where u: "u \<in> set (uses_of (apply_mutations es))" "use_id u = result_id r"
      "ev_seq u < ev_seq r" using wra by (auto simp: well_referenced_def)
    with r sub pair [of u r] have "u \<in> set (filter (\<lambda>e. ev_seq e \<notin> sh') (uses_of es))"
      by (auto simp: u0)
    with u show "\<exists>u \<in> set (filter (\<lambda>e. ev_seq e \<notin> sh') (uses_of es)). use_id u = result_id r \<and> ev_seq u < ev_seq r"
      by blast
  qed
  moreover have "all_resolved (apply_mutations (es @ [c]))"
    unfolding all_resolved_def uf rf
  proof (intro ballI impI)
    fix u
    assume u: "u \<in> set (filter (\<lambda>e. ev_seq e \<notin> sh') (uses_of es))" and ne: "use_id u \<noteq> []"
    from u sub have "u \<in> set (uses_of (apply_mutations es))" by (auto simp: u0)
    then obtain r where r: "r \<in> set (results_of (apply_mutations es))" "result_id r = use_id u"
      using res ne unfolding all_resolved_def by blast
    with u sub pair [of u r] have "r \<in> set (filter (\<lambda>e. ev_seq e \<notin> sh') (results_of es))"
      by (auto simp: r0)
    with r show "\<exists>r \<in> set (filter (\<lambda>e. ev_seq e \<notin> sh') (results_of es)). result_id r = use_id u"
      by blast
  qed
  moreover have "well_referenced (es @ [c])"
    using wr c by (simp add: well_referenced_append_other)
  ultimately show ?thesis by (simp add: provider_ready_def)
qed

lemma compact_replaces_payload:
  assumes "ev_payload c = replaces_payload seqs summary" and "\<And>s. s \<in> set seqs \<Longrightarrow> \<bar>s\<bar> \<le> 2 ^ 53"
  shows "compact_replaces c = seqs"
proof -
  have "map (asInt \<circ> (\<lambda>s. VFloat (float_of_int s))) seqs = seqs"
    by (rule map_idI) (simp only: o_apply, rule asInt_float_of_int, rule assms(2))
  with assms(1) show ?thesis
    by (simp add: compact_replaces_def replaces_payload_def pget_def aget_def)
qed

section \<open>The strategies\<close>

text \<open>The logs a strategy is asked about: dense, ready, and short enough for their sequence
  numbers to be exact as float64 values.\<close>

definition settled :: "event list \<Rightarrow> bool" where
  "settled es \<longleftrightarrow> dense es \<and> provider_ready es"

definition float_exact :: "event list \<Rightarrow> bool" where
  "float_exact es \<longleftrightarrow> length es \<le> 2 ^ 53"

lemma seq_bound:
  assumes "dense es" and "float_exact es" and "s \<in> ev_seq ` set es"
  shows "\<bar>s\<bar> \<le> 2 ^ 53"
proof -
  obtain e where e: "e \<in> set es" "s = ev_seq e" using assms(3) by blast
  then obtain i where i: "i < length es" "e = es ! i" by (auto simp: in_set_conv_nth)
  with assms e have "s = int i" "i < 2 ^ 53" by (auto simp: dense_nth float_exact_def)
  then show ?thesis by simp
qed

lemma settled_compact:
  fixes w :: "('h, 'st, 'w) world"
  assumes "settled (w_events w)" and "pair_closed (w_events w) (set seqs)"
    and "\<And>s. s \<in> set seqs \<Longrightarrow> \<bar>s\<bar> \<le> 2 ^ 53"
  shows "settled (w_events (on_log (append_ev le EventCompact (replaces_payload seqs summary)) w))"
proof (cases rule: append_ev_cases [of le EventCompact "replaces_payload seqs summary" "w_log w"])
  case (published e)
  then have "compact_replaces e = seqs" using assms(3) by (intro compact_replaces_payload) auto
  with published assms(1,2) have "provider_ready (w_events w @ [e])"
    by (intro compact_keeps_ready) (simp_all add: settled_def)
  moreover have "dense (lg_events (append_ev le EventCompact (replaces_payload seqs summary) (w_log w)))"
    using assms(1) by (intro append_ev_dense) (simp add: settled_def)
  ultimately show ?thesis using published(1) by (simp add: settled_def)
next
  case refused
  with assms(1) show ?thesis by simp
qed

lemma toolPairSafeRange_subset: "set (toolPairSafeRange es c) \<subseteq> set c"
  by (auto simp: toolPairSafeRange_def split: prod.splits)

lemma set_messageEvents: "set (messageEvents es) \<subseteq> set es"
  by (auto simp: messageEvents_def)

lemma safe_range_bound:
  assumes "settled es" and "float_exact es"
    and "s \<in> set (toolPairSafeRange es (map ev_seq (take n (messageEvents es))))"
  shows "\<bar>s\<bar> \<le> 2 ^ 53"
proof -
  have "s \<in> ev_seq ` set es"
    using assms(3) toolPairSafeRange_subset set_messageEvents set_take_subset by fastforce
  with assms(1,2) show ?thesis by (intro seq_bound) (simp_all add: settled_def)
qed

lemma settled_compact_safe:
  fixes w :: "('h, 'st, 'w) world"
  assumes "settled (w_events w)" and "float_exact (w_events w)"
  shows "settled (w_events (on_log (append_ev le EventCompact
    (replaces_payload (toolPairSafeRange (w_events w) (map ev_seq (take n (messageEvents (w_events w))))) summary)) w))"
proof (rule settled_compact [OF assms(1)])
  show "pair_closed (w_events w)
      (set (toolPairSafeRange (w_events w) (map ev_seq (take n (messageEvents (w_events w))))))"
    using assms(1) by (intro toolPairSafeRange_closed) (simp_all add: settled_def provider_ready_def)
qed (rule safe_range_bound [OF assms])

lemma observeStrategy_events:
  "w_events (snd (observeStrategy name hookPoint body w)) =
   w_events (snd (body (on_log (emit (ObsStrategyStarted name hookPoint)) w)))"
  by (auto simp: observeStrategy_def Let_def split: prod.splits sum.splits)

lemma TokenMarkerTail_cases:
  "snd (TokenMarkerTail_OnPreProjection le t w) = w \<or>
   (\<exists>summary. snd (TokenMarkerTail_OnPreProjection le t w) =
      on_log (append_ev le EventCompact (replaces_payload
        (toolPairSafeRange (w_events w)
          (map ev_seq (take (length (messageEvents (w_events w)) - tm_KeepRecent t)
            (messageEvents (w_events w))))) summary)) w)"
  unfolding TokenMarkerTail_OnPreProjection_def Let_def by (simp only: if_distrib [of snd] snd_conv split: if_split) blast

lemma TokenMarkerTail_settled:
  fixes w :: "('h, 'st, 'w) world"
  assumes "settled (w_events w)" and "float_exact (w_events w)"
  shows "settled (w_events (snd (TokenMarkerTail_handler le t w)))"
proof -
  have "settled (w_events (snd (TokenMarkerTail_OnPreProjection le t v)))"
    if v: "settled (w_events v)" "float_exact (w_events v)" for v :: "('h, 'st, 'w) world"
    using TokenMarkerTail_cases [of le t v] settled_compact_safe [OF v] v(1) by metis
  with assms show ?thesis by (simp add: TokenMarkerTail_handler_def observeStrategy_events)
qed

lemma summarize_events:
  assumes "\<And>req v. w_events (snd (provider req v)) = w_events v"
  shows "w_events (snd (summarize le s provider project ingest messages seqs w)) = w_events w"
proof -
  have h: "w_events v' = w_events v" if "provider req v = (x, v')" for req v x v'
    using assms [of req v] that by simp
  show ?thesis
    by (auto simp: summarize_def Let_def split: prod.splits sum.splits option.splits dest: h)
qed

lemma SummaryTail_settled:
  fixes w :: "('h, 'st, 'w) world"
  assumes "settled (w_events w)" and "float_exact (w_events w)"
    and "\<And>p req v. su_Provider s = Some p \<Longrightarrow> w_events (snd (p req v)) = w_events v"
  shows "settled (w_events (snd (SummaryTail_handler le s w)))"
proof -
  have "settled (w_events (snd (SummaryTail_OnPreProjection le s v)))"
    if v: "settled (w_events v)" "float_exact (w_events v)" for v :: "('h, 'st, 'w) world"
  proof (cases "su_Projection s = None \<or> su_Provider s = None \<or> su_Ingestor s = None")
    case True
    with v show ?thesis by (auto simp: SummaryTail_OnPreProjection_def split: option.splits)
  next
    case False
    then obtain project p ingest where some: "su_Projection s = Some project"
      "su_Provider s = Some p" "su_Ingestor s = Some ingest" by auto
    define messages where "messages = messageEvents (w_events v)"
    define safe where "safe = toolPairSafeRange (w_events v)
      (map ev_seq (take (length messages - su_KeepRecent s) messages))"
    obtain summary w1 where sm: "summarize le s p project ingest messages safe v = (summary, w1)"
      by fastforce
    have "w_events w1 = w_events v"
      using summarize_events [of p le s project ingest messages safe v] assms(3) [OF some(2)] sm by simp
    moreover have "pair_closed (w_events v) (set safe)"
      unfolding safe_def using v(1)
      by (intro toolPairSafeRange_closed) (simp_all add: settled_def provider_ready_def)
    moreover have "\<bar>x\<bar> \<le> 2 ^ 53" if "x \<in> set safe" for x
      using safe_range_bound [OF v] that unfolding safe_def messages_def by blast
    ultimately have "settled (w_events (on_log (append_ev le EventCompact (replaces_payload safe summary)) w1))"
      using v(1) by (intro settled_compact) simp_all
    with v(1) \<open>w_events w1 = w_events v\<close> show ?thesis
      unfolding SummaryTail_OnPreProjection_def some Let_def messages_def [symmetric] safe_def [symmetric]
      by (simp add: sm messages_def [symmetric] safe_def [symmetric])
  qed
  with assms show ?thesis by (simp add: SummaryTail_handler_def observeStrategy_events)
qed

lemma string_or_empty_stringValue [simp]: "string_or_empty v = stringValue v"
  by (cases v) (simp_all add: string_or_empty_def as_string_def)

lemma indexToolUses_lookup:
  "map_of (indexToolUses es) i = Some u \<Longrightarrow> u \<in> set (uses_of es) \<and> use_id u = i"
  unfolding indexToolUses_def
  by (induction es rule: rev_induct) (auto simp: map_of_update_iff split: if_splits)

lemma cap_event_settled:
  fixes w :: "('h, 'st, 'w) world"
  assumes "settled (w_events w)" and "set es \<subseteq> set (w_events w)" and "e \<in> set es"
    and "dense es" and "float_exact es"
  shows "settled (w_events (cap_event le format mb pb (indexToolUses es) e w)) \<and>
    set es \<subseteq> set (w_events (cap_event le format mb pb (indexToolUses es) e w))"
proof (cases "cap_event le format mb pb (indexToolUses es) e w = w")
  case True
  with assms show ?thesis by simp
next
  case False
  then obtain u where r: "is_result e" and u: "map_of (indexToolUses es) (result_id e) = Some u"
    by (auto simp: cap_event_def Let_def split: if_splits option.splits)
  obtain summary where eq: "cap_event le format mb pb (indexToolUses es) e w =
      on_log (append_ev le EventCompact (replaces_payload [ev_seq u, ev_seq e] summary)) w"
    using False r u by (auto simp: cap_event_def Let_def split: if_splits)
  have u': "u \<in> set (uses_of es)" "use_id u = result_id e" using indexToolUses_lookup [OF u] by auto
  then have ue: "u \<in> set es" by (simp add: set_uses_of)
  have "pair_closed (w_events w) {ev_seq u, ev_seq e}"
    using assms(1,2,3) u' ue r
    by (intro pair_closed_of_event) (auto simp: settled_def provider_ready_def set_uses_of set_results_of)
  moreover have "\<bar>x\<bar> \<le> 2 ^ 53" if "x \<in> set [ev_seq u, ev_seq e]" for x
    using that ue assms(3) by (intro seq_bound [OF assms(4,5)]) auto
  ultimately have "settled (w_events (cap_event le format mb pb (indexToolUses es) e w))"
    unfolding eq by (intro settled_compact [OF assms(1)]) simp_all
  moreover have "set (w_events w) \<subseteq> set (w_events (cap_event le format mb pb (indexToolUses es) e w))"
    unfolding eq using append_ev_extends [of le EventCompact _ "w_log w"] by (metis on_log_simps(1) prefixI set_mono_prefix)
  ultimately show ?thesis using assms(2) by blast
qed

lemma fold_cap_event_settled:
  fixes w :: "('h, 'st, 'w) world"
  assumes "dense es" and "float_exact es"
  shows "settled (w_events w) \<Longrightarrow> set es \<subseteq> set (w_events w) \<Longrightarrow> set xs \<subseteq> set es \<Longrightarrow>
    settled (w_events (fold (cap_event le format mb pb (indexToolUses es)) xs w))"
proof (induction xs arbitrary: w)
  case Nil
  then show ?case by simp
next
  case (Cons x xs)
  have "x \<in> set es" using Cons.prems by simp
  from cap_event_settled [OF Cons.prems(1,2) this assms] Cons.prems show ?case
    by (simp add: Cons.IH)
qed

lemma ToolOutputCap_settled:
  fixes w :: "('h, 'st, 'w) world"
  assumes "settled (w_events w)" and "float_exact (w_events w)"
  shows "settled (w_events (snd (ToolOutputCap_handler le t w)))"
proof -
  have "settled (w_events (snd (ToolOutputCap_OnPreProjection le t v)))"
    if v: "settled (w_events v)" "float_exact (w_events v)" for v :: "('h, 'st, 'w) world"
    unfolding ToolOutputCap_OnPreProjection_def Let_def snd_conv
    using v by (intro fold_cap_event_settled) (auto simp: settled_def effectiveEvents_def)
  with assms show ?thesis by (simp add: ToolOutputCap_handler_def observeStrategy_events)
qed

section \<open>What survives\<close>

lemma shadowed_subset_replaced: "shadowed_seqs es \<subseteq> set (replaced_seqs es)"
proof -
  have "set (replaced_seqs es) = (\<Union>e \<in> {e \<in> set es. ev_type e = EventCompact}. set (compact_replaces e))"
    by (induction es) auto
  then show ?thesis by (auto simp: shadowed_seqs_def active_compact_def)
qed

text \<open>A message the strategy reads is visible to the provider.\<close>

lemma messageEvents_visible: "e \<in> set (messageEvents es) \<Longrightarrow> e \<in> set (apply_mutations es)"
  using shadowed_subset_replaced [of es]
  by (subst mem_apply_mutations_event) (auto simp: messageEvents_def)

text \<open>A compaction of candidates taken from the front leaves the recent messages alone.\<close>

lemma recent_visible:
  fixes w :: "('h, 'st, 'w) world"
  assumes "dense (w_events w)" and "float_exact (w_events w)"
    and e: "e \<in> set (drop n (messageEvents (w_events w)))"
    and seqs: "set seqs \<subseteq> ev_seq ` set (take n (messageEvents (w_events w)))"
  shows "e \<in> set (apply_mutations (w_events (on_log (append_ev le EventCompact (replaces_payload seqs summary)) w)))"
proof -
  let ?es = "w_events w" and ?ms = "messageEvents (w_events w)"
  have em: "e \<in> set ?ms" using e by (rule in_set_dropD)
  have ee: "e \<in> set ?es" using em set_messageEvents by blast
  have ty: "ev_type e \<noteq> EventSummary" "ev_type e \<noteq> EventCompact" "ev_type e \<noteq> EventRevert"
    using em by (auto simp: messageEvents_def)
  have "distinct (map ev_seq ?ms)"
    using dense_distinct [OF assms(1)] by (simp add: messageEvents_def distinct_map_filter)
  then have "distinct (map ev_seq (take n ?ms @ drop n ?ms))" by simp
  then have fresh: "ev_seq e \<notin> set seqs"
    using e seqs unfolding map_append distinct_append by auto
  have old: "ev_seq e \<notin> shadowed_seqs ?es"
    using messageEvents_visible [OF em] mem_apply_mutations_event [OF ty(1), of ?es] by simp
  show ?thesis
  proof (cases rule: append_ev_cases [of le EventCompact "replaces_payload seqs summary" "w_log w"])
    case (published c)
    have "\<bar>x\<bar> \<le> 2 ^ 53" if "x \<in> set seqs" for x
    proof (rule seq_bound [OF assms(1,2)])
      show "x \<in> ev_seq ` set ?es"
        using that seqs set_messageEvents [of ?es] set_take_subset [of n ?ms] by blast
    qed
    with published have "compact_replaces c = seqs" by (intro compact_replaces_payload) auto
    with shadowed_snoc_compact [of c ?es] published fresh old
    have "ev_seq e \<notin> shadowed_seqs (?es @ [c])" by auto
    with published ee ty show ?thesis by (simp add: mem_apply_mutations_event)
  next
    case refused
    with messageEvents_visible [OF em] show ?thesis by simp
  qed
qed

lemma TokenMarkerTail_keeps_recent:
  fixes w :: "('h, 'st, 'w) world"
  assumes "dense (w_events w)" and "float_exact (w_events w)"
    and e: "e \<in> set (drop (length (messageEvents (w_events w)) - tm_KeepRecent t) (messageEvents (w_events w)))"
  shows "e \<in> set (apply_mutations (w_events (snd (TokenMarkerTail_handler le t w))))"
proof -
  define v where "v = on_log (emit (ObsStrategyStarted ''Compaction::TokenMarkerTail'' ''pre_projection'')) w"
  have vw: "w_events v = w_events w" by (simp add: v_def)
  let ?k = "length (messageEvents (w_events v)) - tm_KeepRecent t"
  have e': "e \<in> set (drop ?k (messageEvents (w_events v)))" using e vw by simp
  have sub: "set (toolPairSafeRange (w_events v) (map ev_seq (take ?k (messageEvents (w_events v)))))
      \<subseteq> ev_seq ` set (take ?k (messageEvents (w_events v)))"
    using toolPairSafeRange_subset [of "w_events v" "map ev_seq (take ?k (messageEvents (w_events v)))"]
    by simp
  have "e \<in> set (apply_mutations (w_events (snd (TokenMarkerTail_OnPreProjection le t v))))"
    using TokenMarkerTail_cases [of le t v] messageEvents_visible [OF in_set_dropD [OF e']]
      recent_visible [of v e ?k, OF _ _ e' sub] assms(1,2) vw by metis
  then show ?thesis by (simp add: TokenMarkerTail_handler_def observeStrategy_events v_def)
qed

end
