(* ===== verification/Guards.thy ===== *)
theory Guards
  imports Compaction
begin

text \<open>
  The permission strategies and guards of \<^verbatim>\<open>strategies.go\<close> and \<^verbatim>\<open>approval.go\<close>.  A guard is a
  closure with captured counters: a function of the counters, of the tool use in the context
  (a failed type assertion leaves the zero event) and of the world.  The file system, the
  environment variables, \<^verbatim>\<open>url.Parse\<close>, \<^verbatim>\<open>path.Match\<close>, the clock and the shell are parameters.
\<close>

type_synonym ('h, 'st, 'w, 'c) guard =
  "'c \<Rightarrow> event \<Rightarrow> ('h, 'st, 'w) world \<Rightarrow> (panic_value + val) \<times> 'c \<times> ('h, 'st, 'w) world"

definition allow_decision :: val where
  "allow_decision = VMap [(''allow'', VBool True)]"

definition deny_decision :: "string \<Rightarrow> val" where
  "deny_decision reason = VMap [(''allow'', VBool False), (''reason'', VStr reason)]"

definition ctx_tool_use :: "hook_ctx \<Rightarrow> event" where
  "ctx_tool_use ctx =
     (case ctx of CtxToolUse e \<Rightarrow> e | CtxToolResult e r b \<Rightarrow> e | _ \<Rightarrow> zero_event)"

text \<open>A guard as a hook handler: its counters live in the outer component of the world.\<close>

definition run_guard ::
    "('h, 'st, 'c, 'c) guard \<Rightarrow> hook_ctx \<Rightarrow> ('h, 'st, 'c) world \<Rightarrow>
     (panic_value + val) \<times> ('h, 'st, 'c) world"
where
  "run_guard g ctx w =
     (let (r, c, w') = g (w_ext w) (ctx_tool_use ctx) w in (r, w'\<lparr>w_ext := c\<rparr>))"

definition tool_name :: "event \<Rightarrow> string" where
  "tool_name e = string_or_empty (pget (ev_payload e) ''name'')"

definition tool_arguments :: "event \<Rightarrow> payload" where
  "tool_arguments e = asMap (pget (ev_payload e) ''arguments'')"

text \<open>The runtime error of a strategy, with its extra fields before the terminal flag.\<close>

definition strategy_error :: "string \<Rightarrow> string \<Rightarrow> string \<Rightarrow> payload \<Rightarrow> bool \<Rightarrow> payload" where
  "strategy_error handler cls msg extra term =
     [(''source'', VStr ''strategy''), (''handler'', VStr handler), (''error_class'', VStr cls),
      (''message'', VStr msg), (''reason'', VStr msg)] @ extra @ [(''terminal'', VBool term)]"

definition strategy_fail ::
    "'st log_env \<Rightarrow> payload \<Rightarrow> ('h, 'st, 'w) world \<Rightarrow> ('h, 'st, 'w) world" where
  "strategy_fail le p w = on_log (append_ev le EventRuntimeError p) w"

section \<open>Decisions by name\<close>

definition AlwaysAllow_handler :: "event \<Rightarrow> val" where
  "AlwaysAllow_handler toolUse = allow_decision"

record name_policy =
  np_Names :: "string list"
  np_ReasonFormat :: string

definition containsString :: "string list \<Rightarrow> string \<Rightarrow> bool" where
  "containsString vs target = list_ex (\<lambda>v. v = target) vs"

definition stringInSlice :: "string \<Rightarrow> string list \<Rightarrow> bool" where
  "stringInSlice v vs = list_ex (\<lambda>i. i = v) vs"

definition replaceName :: "string \<Rightarrow> string \<Rightarrow> string" where
  "replaceName format name = replace_all format ''$NAME'' (go_quote name)"

definition DenyByName_handler :: "name_policy \<Rightarrow> event \<Rightarrow> val" where
  "DenyByName_handler d toolUse =
     (let name = tool_name toolUse
      in if \<not> containsString (np_Names d) name then allow_decision
         else
           let format = (if np_ReasonFormat d = [] then ''tool $NAME is on the deny-list''
                         else np_ReasonFormat d)
           in deny_decision (replaceName format name))"

text \<open>\<^verbatim>\<open>RequestApproval\<close> and \<^verbatim>\<open>RequireApproval\<close> (approval.go).\<close>

definition RequestApproval :: "string \<Rightarrow> val" where
  "RequestApproval reason = VMap [(''pending_approval'', VBool True), (''reason'', VStr reason)]"

definition RequireApproval_handler :: "name_policy \<Rightarrow> event \<Rightarrow> val" where
  "RequireApproval_handler s toolUse =
     (let name = tool_name toolUse
      in if \<not> containsString (np_Names s) name then allow_decision
         else
           let format = (if np_ReasonFormat s = [] then ''tool $NAME requires approval''
                         else np_ReasonFormat s)
           in VMap [(''pending_approval'', VBool True), (''reason'', VStr (replaceName format name)),
                    (''requested_by'', VStr ''Permission::RequireApproval'')])"

text \<open>The prompt is a callback of the host; it may change the world.\<close>

record ('h, 'st, 'w) human_approval =
  hu_Prompt :: "(event \<Rightarrow> ('h, 'st, 'w) world \<Rightarrow> bool \<times> ('h, 'st, 'w) world) option"
  hu_DenialReason :: string

definition HumanApproval_decide ::
    "('h, 'st, 'w) human_approval \<Rightarrow> event \<Rightarrow> ('h, 'st, 'w, val) body" where
  "HumanApproval_decide h toolUse w =
     (let (granted, w1) = (case hu_Prompt h of None \<Rightarrow> (False, w) | Some prompt \<Rightarrow> prompt toolUse w)
      in if granted then (Inr allow_decision, w1)
         else (Inr (deny_decision
                 (if hu_DenialReason h = [] then ''human declined'' else hu_DenialReason h)), w1))"

definition HumanApproval_handler ::
    "('h, 'st, 'w) human_approval \<Rightarrow> event \<Rightarrow> ('h, 'st, 'w, val) body" where
  "HumanApproval_handler h toolUse =
     observeStrategy ''Permission::HumanApproval'' ''pre_tool_use'' (HumanApproval_decide h toolUse)"

section \<open>WriteSandbox\<close>

text \<open>The file system as \<^verbatim>\<open>normalizeSandboxPath\<close> sees it: a rooted working directory and
  \<^verbatim>\<open>filepath.EvalSymlinks\<close> (\<open>None\<close> for an error).\<close>

record file_system =
  fs_wd :: string
  fs_evalSymlinks :: "string \<Rightarrow> string option"

text \<open>The loop of \<^verbatim>\<open>normalizeSandboxPath\<close> over the parents, nearest first.  \<^verbatim>\<open>Join\<close> of two
  clean relative parts is their concatenation with a separator.\<close>

fun resolve_parent :: "file_system \<Rightarrow> string list \<Rightarrow> string \<Rightarrow> string option" where
  "resolve_parent fs [] base = None"
| "resolve_parent fs (p # ps) base =
     (case fs_evalSymlinks fs (render_path (rev (p # ps))) of
        Some resolvedParent \<Rightarrow> Some (path_join resolvedParent base)
      | None \<Rightarrow> resolve_parent fs ps (p @ CHR ''/'' # base))"

definition normalizeSandboxPath :: "file_system \<Rightarrow> string \<Rightarrow> string" where
  "normalizeSandboxPath fs value =
     (let cleaned = (if is_abs value then path_clean value else path_join (fs_wd fs) value)
      in case fs_evalSymlinks fs cleaned of
           Some resolved \<Rightarrow> resolved
         | None \<Rightarrow>
             (case rev (path_components cleaned) of
                [] \<Rightarrow> cleaned
              | base # parents \<Rightarrow>
                  (case resolve_parent fs parents base of Some p \<Rightarrow> p | None \<Rightarrow> cleaned)))"

definition normalizeSandboxPaths :: "file_system \<Rightarrow> string list \<Rightarrow> string list" where
  "normalizeSandboxPaths fs vs = map (normalizeSandboxPath fs) vs"

definition sandboxPathAllowed :: "string \<Rightarrow> string list \<Rightarrow> bool" where
  "sandboxPathAllowed path roots =
     list_ex (\<lambda>p. path = p \<or> has_prefix path (p @ ''/'')) roots"

definition quotedList :: "string list \<Rightarrow> string" where
  "quotedList vs =
     ''['' @ str_join (map (\<lambda>v. [CHR 0x27] @ v @ [CHR 0x27]) vs) '', '' @ '']''"

definition sandboxWriteMessage :: "string \<Rightarrow> string list \<Rightarrow> string list \<Rightarrow> string" where
  "sandboxWriteMessage path allow deny =
     ''Write to '' @ [CHR 0x27] @ path @ [CHR 0x27] @ '' is not permitted. Allowed paths: ''
       @ quotedList allow @ ''. Denied paths: '' @ quotedList deny @ ''.''"

record sandbox =
  sb_Allow :: "string list option"
  sb_Deny :: "string list"

definition write_prefixes :: "file_system \<Rightarrow> sandbox \<Rightarrow> string list \<times> string list" where
  "write_prefixes fs sb =
     (normalizeSandboxPaths fs (case sb_Allow sb of None \<Rightarrow> [''.''] | Some a \<Rightarrow> a),
      normalizeSandboxPaths fs (sb_Deny sb))"

text \<open>\<^verbatim>\<open>allow\<close> and \<^verbatim>\<open>deny\<close> are normalised when the strategy is installed; the path of a call is
  normalised with the file system of that moment.\<close>

definition WriteSandbox_step ::
    "'st log_env \<Rightarrow> file_system \<Rightarrow> sandbox \<Rightarrow> string list \<times> string list \<Rightarrow> ('h, 'st, 'w, int) guard"
where
  "WriteSandbox_step le fs sb roots violations toolUse w =
     (let name = tool_name toolUse
      in if name \<noteq> ''write_file'' \<and> name \<noteq> ''edit_file'' then (Inr allow_decision, violations, w)
         else
           let path = stringValue (pget (tool_arguments toolUse) ''path'')
           in if path = [] then (Inr allow_decision, violations, w)
              else
                let normalized = normalizeSandboxPath fs path
                in if sandboxPathAllowed normalized (fst roots) \<and>
                      \<not> sandboxPathAllowed normalized (snd roots)
                   then (Inr allow_decision, 0, w)
                   else if violations + 1 \<ge> 3
                   then (Inl (PTurnFailed ''sandbox_violation_limit''), violations + 1,
                         strategy_fail le
                           (strategy_error ''sandbox/write'' ''Harnas::SandboxViolation''
                              ''sandbox_violation_limit'' [] True) w)
                   else (Inr (deny_decision
                           (sandboxWriteMessage path
                              (case sb_Allow sb of None \<Rightarrow> [''.''] | Some a \<Rightarrow> a) (sb_Deny sb))),
                         violations + 1, w))"

section \<open>NetworkSandbox\<close>

definition sandboxNetworkMessage :: "string \<Rightarrow> string list \<Rightarrow> string" where
  "sandboxNetworkMessage host allow =
     ''Network call to '' @ [CHR 0x27] @ host @ [CHR 0x27] @ '' is not permitted. Allowed hosts: ''
       @ quotedList allow @ ''.''"

record network_sandbox =
  nw_Allow :: "string list"
  nw_Deny :: "string list"

text \<open>\<open>hostOf\<close> is \<^verbatim>\<open>networkSandboxHost\<close>: the host name \<^verbatim>\<open>url.Parse\<close> finds, if it finds one.\<close>

definition network_violation ::
    "'st log_env \<Rightarrow> int \<Rightarrow> string \<Rightarrow> ('h, 'st, 'w) world \<Rightarrow>
     (panic_value + val) \<times> int \<times> ('h, 'st, 'w) world"
where
  "network_violation le violations reason w =
     (if violations + 1 \<ge> 3
      then (Inl (PTurnFailed ''sandbox_network_violation_limit''), violations + 1,
            strategy_fail le
              (strategy_error ''sandbox/network'' ''Harnas::SandboxViolation''
                 ''sandbox_network_violation_limit'' [] True) w)
      else (Inr (deny_decision reason), violations + 1, w))"

definition NetworkSandbox_step ::
    "'st log_env \<Rightarrow> (string \<Rightarrow> string option) \<Rightarrow> network_sandbox \<Rightarrow> ('h, 'st, 'w, int) guard"
where
  "NetworkSandbox_step le hostOf sb violations toolUse w =
     (if tool_name toolUse \<noteq> ''fetch_url'' then (Inr allow_decision, violations, w)
      else case hostOf (stringValue (pget (tool_arguments toolUse) ''url'')) of
             None \<Rightarrow>
               network_violation le violations
                 ''Network call has an unparseable URL and is not permitted.'' w
           | Some host \<Rightarrow>
               if stringInSlice host (nw_Allow sb) \<and> \<not> stringInSlice host (nw_Deny sb)
               then (Inr allow_decision, 0, w)
               else network_violation le violations (sandboxNetworkMessage host (nw_Allow sb)) w)"

section \<open>CredentialProxy\<close>

record credential =
  cr_From :: string
  cr_Name :: string
  cr_Value :: string

record credential_route =
  rt_Tool :: string
  rt_URLHost :: string
  rt_URLHostGlob :: string
  rt_Into :: string
  rt_Key :: string
  rt_Value :: string
  rt_Index :: nat

record credential_proxy =
  cp_Credentials :: "(string \<times> credential) list"
  cp_Routes :: "credential_route list"

definition anySlice :: "val \<Rightarrow> val list" where
  "anySlice v = (case v of VList xs \<Rightarrow> xs | _ \<Rightarrow> [])"

fun read_credentials :: "payload \<Rightarrow> string + (string \<times> credential) list" where
  "read_credentials [] = Inr []"
| "read_credentials ((name, raw) # rest) =
     (let from' = stringValue (pget (asMap raw) ''from'')
      in if from' \<noteq> ''env'' \<and> from' \<noteq> ''literal''
         then Inl (''credential/proxy credential '' @ go_quote name @ '' has unknown from '' @ go_quote from')
         else bind_res (read_credentials rest)
                (\<lambda>cs. Inr ((name, \<lparr>cr_From = from', cr_Name = stringValue (pget (asMap raw) ''name''),
                                   cr_Value = stringValue (pget (asMap raw) ''value'')\<rparr>) # cs)))"

definition read_route :: "nat \<Rightarrow> val \<Rightarrow> credential_route" where
  "read_route index raw =
     (let m = asMap raw; mt = asMap (pget m ''match''); ij = asMap (pget m ''inject'')
      in \<lparr>rt_Tool = stringValue (pget m ''tool''), rt_URLHost = stringValue (pget mt ''url_host''),
          rt_URLHostGlob = stringValue (pget mt ''url_host_glob''),
          rt_Into = stringValue (pget ij ''into''), rt_Key = stringValue (pget ij ''key''),
          rt_Value = stringValue (pget ij ''value''), rt_Index = index\<rparr>)"

fun read_routes :: "nat \<Rightarrow> val list \<Rightarrow> string + credential_route list" where
  "read_routes index [] = Inr []"
| "read_routes index (raw # rest) =
     (let r = read_route index raw
      in if rt_Tool r = [] \<or> rt_Into r = [] \<or> rt_Key r = []
         then Inl (''credential/proxy route '' @ show_nat index @ '' is malformed'')
         else if rt_Into r \<noteq> ''headers''
         then Inl (''credential/proxy route '' @ show_nat index @ '' has unsupported inject.into ''
                     @ go_quote (rt_Into r))
         else if rt_URLHost r \<noteq> [] \<and> rt_URLHostGlob r \<noteq> []
         then Inl (''credential/proxy route '' @ show_nat index @ '' must specify only one URL host matcher'')
         else bind_res (read_routes (Suc index) rest) (\<lambda>rs. Inr (r # rs)))"

text \<open>Only the error matters to a caller that gets one, so the partial proxy is dropped.\<close>

definition NewCredentialProxy :: "payload \<Rightarrow> string + credential_proxy" where
  "NewCredentialProxy config =
     bind_res (read_credentials (asMap (pget config ''credentials'')))
       (\<lambda>cs. bind_res (read_routes 0 (anySlice (pget config ''routes'')))
         (\<lambda>rs. Inr \<lparr>cp_Credentials = cs, cp_Routes = rs\<rparr>))"

definition cred_Resolve :: "(string \<Rightarrow> string option) \<Rightarrow> credential \<Rightarrow> string option" where
  "cred_Resolve envLookup c =
     (if cr_From c = ''literal'' then Some (cr_Value c)
      else if cr_From c = ''env'' then envLookup (cr_Name c)
      else None)"

text \<open>One pass of the loop of \<^verbatim>\<open>resolveTemplate\<close>: it stops with an answer, or goes on with a
  new value.  The answer is the value (\<open>None\<close> when a credential is missing) and the names.\<close>

datatype template_step =
    TStop "string option" "string list"
  | TGo string "string list"

definition credential_open :: string where
  "credential_open = ''{credential.''"

definition template_pass ::
    "(string \<Rightarrow> string option) \<Rightarrow> (string \<times> credential) list \<Rightarrow> string \<Rightarrow> string list \<Rightarrow> template_step"
where
  "template_pass envLookup creds value names =
     (case str_index value credential_open of
        None \<Rightarrow> TStop (Some value) names
      | Some start \<Rightarrow>
          (case str_index (drop start value) ''}'' of
             None \<Rightarrow> TStop (Some value) names
           | Some len \<Rightarrow>
               let fin = start + len;
                   from' = start + length credential_open;
                   name = drop from' (take fin value);
                   names' = names @ [name]
               in case map_of creds name of
                    None \<Rightarrow> TStop None names'
                  | Some c \<Rightarrow>
                      (case cred_Resolve envLookup c of
                         None \<Rightarrow> TStop None names'
                       | Some resolved \<Rightarrow>
                           TGo (take start value @ resolved @ drop (fin + 1) value) names')))"

text \<open>The loop may not end; the outer \<open>option\<close> says whether it does.\<close>

partial_function (option) resolveTemplate ::
    "(string \<Rightarrow> string option) \<Rightarrow> (string \<times> credential) list \<Rightarrow> string \<Rightarrow> string list \<Rightarrow>
     (string option \<times> string list) option"
where
  "resolveTemplate envLookup creds value names =
     (case template_pass envLookup creds value names of
        TStop r ns \<Rightarrow> Some (r, ns)
      | TGo value' names' \<Rightarrow> resolveTemplate envLookup creds value' names')"

definition credentialRouteMatches ::
    "(string \<Rightarrow> string option) \<Rightarrow> (string \<Rightarrow> string \<Rightarrow> bool option) \<Rightarrow> credential_route \<Rightarrow> payload \<Rightarrow> bool"
where
  "credentialRouteMatches hostOf globMatch r args =
     (if rt_URLHost r = [] \<and> rt_URLHostGlob r = [] then True
      else case hostOf (stringValue (pget args ''url'')) of
             None \<Rightarrow> False
           | Some host \<Rightarrow>
               if rt_URLHost r \<noteq> [] then host = rt_URLHost r
               else globMatch (rt_URLHostGlob r) host = Some True)"

definition credentialMissingReason :: "string list \<Rightarrow> string \<Rightarrow> string" where
  "credentialMissingReason names tool =
     (let name = (case names of [] \<Rightarrow> [] | n # ns \<Rightarrow> n)
      in ''credential '' @ [CHR 0x27] @ name @ [CHR 0x27]
         @ '' is not available; required by credential/proxy route matching tool ''
         @ [CHR 0x27] @ tool @ [CHR 0x27])"

definition copyStringMap :: "payload \<Rightarrow> payload" where
  "copyStringMap m = map (\<lambda>(k, v). (k, VStr (stringValue v))) m"

definition anyStringSlice :: "string list \<Rightarrow> val list" where
  "anyStringSlice vs = map VStr vs"

record proxy_env =
  pe_hostOf :: "string \<Rightarrow> string option"
  pe_globMatch :: "string \<Rightarrow> string \<Rightarrow> bool option"
  pe_envLookup :: "string \<Rightarrow> string option"

text \<open>The loop over the routes; \<open>None\<close> when a template never resolves.\<close>

primrec proxy_routes ::
    "'st log_env \<Rightarrow> proxy_env \<Rightarrow> (string \<times> credential) list \<Rightarrow> string \<Rightarrow> payload \<Rightarrow>
     credential_route list \<Rightarrow> payload \<Rightarrow> bool \<Rightarrow> int \<Rightarrow> ('h, 'st, 'w) world \<Rightarrow>
     ((panic_value + val) \<times> int \<times> ('h, 'st, 'w) world) option"
where
  "proxy_routes le pe creds name args [] rewritten changed missing w =
     Some (Inr (if changed then VMap [(''allow'', VBool True), (''arguments'', VMap rewritten)]
                else allow_decision), missing, w)"
| "proxy_routes le pe creds name args (r # rs) rewritten changed missing w =
     (if rt_Tool r \<noteq> name \<or> \<not> credentialRouteMatches (pe_hostOf pe) (pe_globMatch pe) r args
      then proxy_routes le pe creds name args rs rewritten changed missing w
      else if rt_Into r \<noteq> ''headers'' \<or> name \<noteq> ''fetch_url''
      then Some (Inr (deny_decision ''credential_proxy_unsupported_tool''), missing,
                 strategy_fail le
                   (strategy_error ''credential/proxy'' ''Harnas::CredentialProxy''
                      ''credential_proxy_unsupported_tool'' [] False) w)
      else case resolveTemplate (pe_envLookup pe) creds (rt_Value r) [] of
             None \<Rightarrow> None
           | Some (None, names) \<Rightarrow>
               if missing + 1 \<ge> 3
               then Some (Inl (PTurnFailed ''credential_proxy_missing_persistent''), missing + 1,
                          strategy_fail le
                            (strategy_error ''credential/proxy'' ''Harnas::CredentialProxy''
                               ''credential_proxy_missing_persistent'' [] True) w)
               else Some (Inr (deny_decision (credentialMissingReason names name)), missing + 1, w)
           | Some (Some value, names) \<Rightarrow>
               let headers = pset (rt_Key r) (VStr value) (copyStringMap (asMap (pget rewritten ''headers'')))
               in proxy_routes le pe creds name args rs (pset ''headers'' (VMap headers) rewritten) True 0
                    (on_log (append_ev le EventAnnotation
                       [(''kind'', VStr ''credential_injected''), (''tool'', VStr name),
                        (''route_index'', VFloat (float_of_int (int (rt_Index r)))),
                        (''credentials_used'', VList (anyStringSlice names))]) w))"

definition CredentialProxy_step ::
    "'st log_env \<Rightarrow> proxy_env \<Rightarrow> credential_proxy \<Rightarrow> int \<Rightarrow> event \<Rightarrow> ('h, 'st, 'w) world \<Rightarrow>
     ((panic_value + val) \<times> int \<times> ('h, 'st, 'w) world) option"
where
  "CredentialProxy_step le pe c missing toolUse w =
     (let args = tool_arguments toolUse
      in proxy_routes le pe (cp_Credentials c) (tool_name toolUse) args (cp_Routes c) args False missing w)"

section \<open>RepetitionGuard\<close>

record repetition_guard =
  rg_MaxConsecutiveFailures :: int
  rg_MaxIdenticalCalls :: int
  rg_MaxConsecutiveRejections :: int

record repetition_state =
  rs_failures :: int
  rs_rejections :: int
  rs_calls :: "(string \<times> int) list"

definition or_default :: "int \<Rightarrow> int \<Rightarrow> int" where
  "or_default n d = (if n = 0 then d else n)"

text \<open>\<open>hash\<close> stands for the hex SHA-256 of the marshalled arguments.\<close>

definition repetitionCallKey :: "(payload \<Rightarrow> string) \<Rightarrow> event \<Rightarrow> string" where
  "repetitionCallKey hash toolUse =
     stringValue (pget (ev_payload toolUse) ''name'') @ '':'' @ hash (tool_arguments toolUse)"

definition repetition_error :: "string \<Rightarrow> event \<Rightarrow> int \<Rightarrow> payload" where
  "repetition_error trigger toolUse count =
     strategy_error ''guard/repetition'' ''Harnas::RepetitionGuard'' ''repetition_guard''
       [(''trigger'', VStr trigger), (''tool'', VStr (stringValue (pget (ev_payload toolUse) ''name''))),
        (''count'', VFloat (float_of_int count))] True"

definition RepetitionGuard_pre ::
    "'st log_env \<Rightarrow> (payload \<Rightarrow> string) \<Rightarrow> repetition_guard \<Rightarrow> ('h, 'st, 'w, repetition_state) guard"
where
  "RepetitionGuard_pre le hash g rs toolUse w =
     (let key = repetitionCallKey hash toolUse;
          n = aget 0 (rs_calls rs) key + 1;
          rs' = rs\<lparr>rs_calls := AList.update key n (rs_calls rs)\<rparr>
      in (Inr VNil, rs',
          if n \<ge> or_default (rg_MaxIdenticalCalls g) 5
          then strategy_fail le (repetition_error ''identical_calls'' toolUse n) w else w))"

definition result_failed :: "event option \<Rightarrow> bool" where
  "result_failed r = (case r of None \<Rightarrow> False | Some e \<Rightarrow> pget (ev_payload e) ''error'' \<noteq> VNil)"

definition result_rejected :: "event option \<Rightarrow> bool" where
  "result_rejected r =
     (let approval = (case r of None \<Rightarrow> [] | Some e \<Rightarrow> asMap (pget (ev_payload e) ''approval''))
      in stringValue (pget approval ''decision'') = ''rejected'')"

definition RepetitionGuard_post ::
    "'st log_env \<Rightarrow> repetition_guard \<Rightarrow> repetition_state \<Rightarrow> event \<Rightarrow> event option \<Rightarrow>
     ('h, 'st, 'w) world \<Rightarrow> (panic_value + val) \<times> repetition_state \<times> ('h, 'st, 'w) world"
where
  "RepetitionGuard_post le g rs toolUse toolResult w =
     (let f = (if result_failed toolResult then rs_failures rs + 1 else 0);
          w1 = (if result_failed toolResult \<and> f \<ge> or_default (rg_MaxConsecutiveFailures g) 3
                then strategy_fail le (repetition_error ''consecutive_failures'' toolUse f) w else w);
          j = (if result_rejected toolResult then rs_rejections rs + 1 else 0);
          w2 = (if result_rejected toolResult \<and> j \<ge> or_default (rg_MaxConsecutiveRejections g) 3
                then strategy_fail le (repetition_error ''consecutive_rejections'' toolUse j) w1 else w1)
      in (Inr VNil, rs\<lparr>rs_failures := f, rs_rejections := j\<rparr>, w2))"

section \<open>TimeoutGuard, CostBudgetGuard, HealthGuard\<close>

text \<open>\<open>elapsed\<close> is \<^verbatim>\<open>time.Since(started)\<close> in nanoseconds.\<close>

definition TimeoutGuard_step ::
    "'st log_env \<Rightarrow> int \<Rightarrow> int \<Rightarrow> int \<Rightarrow> ('h, 'st, 'w) world \<Rightarrow> int \<times> ('h, 'st, 'w) world" where
  "TimeoutGuard_step le timeoutSeconds elapsed checks w =
     (let timeout = wrap64 (timeoutSeconds * 1000000000)
      in if timeout = 0 \<and> checks + 1 = 1 then (checks + 1, w)
         else if elapsed < timeout then (checks + 1, w)
         else (checks + 1,
               strategy_fail le
                 (strategy_error ''guard/timeout'' ''Harnas::TimeoutGuard'' ''timeout'' [] True) w))"

fun usage_loop :: "event list \<Rightarrow> int \<Rightarrow> int \<Rightarrow> int \<times> int" where
  "usage_loop [] i j = (i, j)"
| "usage_loop (e # es) i j =
     (if ev_type e \<noteq> EventAssistantMessage then usage_loop es i j
      else
        let usage = asMap (pget (ev_payload e) ''usage'')
        in usage_loop es (wrap64 (i + asInt (pget usage ''input_tokens'')))
             (wrap64 (j + asInt (pget usage ''output_tokens''))))"

definition usageTotals :: "event list \<Rightarrow> int \<times> int" where
  "usageTotals es = usage_loop es 0 0"

record cost_budget =
  cb_MaxInputTokens :: int
  cb_MaxOutputTokens :: int

definition within_budget :: "cost_budget \<Rightarrow> event list \<Rightarrow> bool" where
  "within_budget c es =
     (let (inputTokens, outputTokens) = usageTotals es
      in (cb_MaxInputTokens c = 0 \<or> inputTokens \<le> cb_MaxInputTokens c) \<and>
         (cb_MaxOutputTokens c = 0 \<or> outputTokens \<le> cb_MaxOutputTokens c))"

definition CostBudgetGuard_handler ::
    "'st log_env \<Rightarrow> cost_budget \<Rightarrow> ('h, 'st, 'w, val) body" where
  "CostBudgetGuard_handler le c w =
     (if within_budget c (w_events w) then (Inr VNil, w)
      else
        let (inputTokens, outputTokens) = usageTotals (w_events w)
        in (Inr VNil,
            strategy_fail le
              (strategy_error ''guard/cost_budget'' ''Harnas::BudgetExceeded'' ''budget_exceeded''
                 [(''input_tokens'', VFloat (float_of_int inputTokens)),
                  (''max_input_tokens'', nullableInt (cb_MaxInputTokens c)),
                  (''output_tokens'', VFloat (float_of_int outputTokens)),
                  (''max_output_tokens'', nullableInt (cb_MaxOutputTokens c))] True) w))"

text \<open>\<open>run\<close> stands for the shell process: its output streams and how it ended.\<close>

datatype process_end = Exited int | DeadlineExceeded | StartFailed string

record health_check =
  hc_success :: bool
  hc_output :: string
  hc_exitCode :: int

definition nonEmptyStrings :: "string list \<Rightarrow> string list" where
  "nonEmptyStrings vs = filter (\<lambda>v. v \<noteq> []) vs"

definition runHealthCheck ::
    "(string \<Rightarrow> int \<Rightarrow> string \<times> string \<times> process_end) \<Rightarrow> string \<Rightarrow> int \<Rightarrow> health_check" where
  "runHealthCheck run command timeoutSeconds =
     (let (stdout, stderr, fin) = run command timeoutSeconds;
          output = str_join (nonEmptyStrings [stderr, stdout]) [CHR 0x0A]
      in case fin of
           DeadlineExceeded \<Rightarrow>
             \<lparr>hc_success = False,
              hc_output = (if output = [] then ''health check timed out after '' @ show_int timeoutSeconds @ ''s''
                           else output), hc_exitCode = 0\<rparr>
         | Exited code \<Rightarrow>
             if code = 0 then \<lparr>hc_success = True, hc_output = output, hc_exitCode = 0\<rparr>
             else \<lparr>hc_success = False, hc_output = output, hc_exitCode = code\<rparr>
         | StartFailed msg \<Rightarrow> \<lparr>hc_success = False, hc_output = msg, hc_exitCode = 0\<rparr>)"

record health_guard =
  hg_Command :: string
  hg_TimeoutSeconds :: int
  hg_OnFailure :: string

definition HealthGuard_step ::
    "'st log_env \<Rightarrow> (string \<Rightarrow> int \<Rightarrow> string \<times> string \<times> process_end) \<Rightarrow> health_guard \<Rightarrow> int \<Rightarrow>
     ('h, 'st, 'w) world \<Rightarrow> int \<times> ('h, 'st, 'w) world"
where
  "HealthGuard_step le run h checks w =
     (let timeoutSeconds = or_default (hg_TimeoutSeconds h) 60;
          onFailure = (if hg_OnFailure h = [] then ''refuse_turn'' else hg_OnFailure h)
      in if checks + 1 = 1 then (checks + 1, w)
         else
           let result = runHealthCheck run (hg_Command h) timeoutSeconds
           in if hc_success result then (checks + 1, w)
              else if onFailure = ''warn_only''
              then (checks + 1,
                    on_log (append_ev le EventAnnotation
                      [(''kind'', VStr ''guard.health_failed''),
                       (''data'', VMap [(''output'', VStr (hc_output result)),
                                        (''exit_code'', nullableInt (hc_exitCode result))])]) w)
              else (checks + 1,
                    strategy_fail le
                      (strategy_error ''guard/health'' ''Harnas::HealthGuard'' ''health_check_failed''
                         [(''output'', VStr (hc_output result)),
                          (''exit_code'', nullableInt (hc_exitCode result))] True) w))"

end
