(* ===== verification/GuardProps.thy ===== *)
theory GuardProps
  imports Guards
begin

text \<open>
  The guards keep out of the conversation: they append runtime errors and annotations only, so
  a hook registry made of them meets the \<open>quiet\<close> contract the loop's theorems ask for.  The
  write sandbox decides by path components; the counters of the repetition guard are the
  lengths of the current runs; a credential template resolves when no credential value can
  open another reference, and may loop otherwise.
\<close>

section \<open>Quietness\<close>

definition guard_quiet :: "('h, 'st, 'w, 'c) guard \<Rightarrow> bool" where
  "guard_quiet g \<longleftrightarrow> (\<forall>c e w. quiet w (snd (snd (g c e w))))"

lemma quiet_strategy_fail [simp]: "quiet w (strategy_fail le p w)"
  unfolding strategy_fail_def by (rule quiet_append) simp_all

lemma quiet_annotation [simp]: "quiet w (on_log (append_ev le EventAnnotation p) w)"
  by (rule quiet_append) simp_all

lemma quiet_refl [simp]: "quiet w w"
  by (rule quiet_same) simp_all

lemma WriteSandbox_quiet: "guard_quiet (WriteSandbox_step le fs sb roots)"
  by (auto simp: guard_quiet_def WriteSandbox_step_def Let_def)

lemma NetworkSandbox_quiet: "guard_quiet (NetworkSandbox_step le hostOf sb)"
  by (auto simp: guard_quiet_def NetworkSandbox_step_def network_violation_def split: option.splits)

lemma proxy_routes_quiet:
  "proxy_routes le pe creds name args rs rewritten changed missing w = Some (r, m, w') \<Longrightarrow> quiet w w'"
proof (induction rs arbitrary: rewritten changed missing w name)
  case Nil
  then show ?case by simp
next
  case (Cons x rs)
  from Cons.prems show ?case
    by (auto simp: Let_def intro: quiet_trans [OF quiet_annotation] dest!: Cons.IH
        split: if_splits option.splits prod.splits)
qed

lemma CredentialProxy_quiet:
  "CredentialProxy_step le pe c missing e w = Some (r, m, w') \<Longrightarrow> quiet w w'"
  unfolding CredentialProxy_step_def Let_def by (rule proxy_routes_quiet)

lemma quiet_strategy_fail2 [simp]: "quiet w (strategy_fail le p (strategy_fail le q w))"
  by (rule quiet_trans [OF quiet_strategy_fail quiet_strategy_fail])

lemma RepetitionGuard_quiet:
  "guard_quiet (RepetitionGuard_pre le hash g)"
  "quiet w (snd (snd (RepetitionGuard_post le g rs u r w)))"
  by (auto simp: guard_quiet_def RepetitionGuard_pre_def RepetitionGuard_post_def Let_def)

lemma TimeoutGuard_quiet: "quiet w (snd (TimeoutGuard_step le n elapsed checks w))"
  by (simp add: TimeoutGuard_step_def Let_def)

lemma CostBudgetGuard_quiet: "quiet w (snd (CostBudgetGuard_handler le c w))"
  by (simp add: CostBudgetGuard_handler_def split: prod.splits)

lemma HealthGuard_quiet: "quiet w (snd (HealthGuard_step le run h checks w))"
  by (simp add: HealthGuard_step_def Let_def)

lemma run_guard_quiet: "guard_quiet g \<Longrightarrow> quiet w (snd (run_guard g ctx w))"
proof -
  assume g: "guard_quiet g"
  obtain r c w' where s: "g (w_ext w) (ctx_tool_use ctx) w = (r, c, w')" by (metis prod_cases3)
  with g have "quiet w w'" unfolding guard_quiet_def by (metis snd_conv)
  moreover have "quiet w' (w'\<lparr>w_ext := c\<rparr>)" by (rule quiet_same) simp_all
  ultimately show ?thesis using s by (simp add: run_guard_def quiet_trans)
qed

section \<open>Path containment\<close>

lemma sandboxPathAllowed_components:
  assumes "clean_components xs" and "\<And>ps. ps \<in> set roots \<Longrightarrow> clean_components ps \<and> ps \<noteq> []"
  shows "sandboxPathAllowed (render_path xs) (map render_path roots) \<longleftrightarrow>
    (\<exists>ps \<in> set roots. prefix ps xs)"
proof -
  have "render_path xs = render_path ps \<or> has_prefix (render_path xs) (render_path ps @ ''/'')
      \<longleftrightarrow> prefix ps xs" if "ps \<in> set roots" for ps
    using assms that render_path_inject [of xs ps] render_path_prefix [of xs ps]
    by (auto simp: prefix_def)
  then show ?thesis by (auto simp: sandboxPathAllowed_def list_ex_iff)
qed

lemma sandboxPathAllowed_root:
  assumes "clean_components (x # xs)"
  shows "\<not> sandboxPathAllowed (render_path (x # xs)) [render_path []]"
proof
  assume "sandboxPathAllowed (render_path (x # xs)) [render_path []]"
  then have "has_prefix (render_path (x # xs)) ''//'' \<or> render_path (x # xs) = ''/''"
    by (auto simp: sandboxPathAllowed_def render_path_def)
  with assms show False by (cases x) (auto simp: render_path_def has_prefix_def)
qed

definition clean_path :: "string \<Rightarrow> bool" where
  "clean_path p \<longleftrightarrow> (\<exists>xs. clean_components xs \<and> p = render_path xs)"

lemma clean_path_iff: "clean_path p \<longleftrightarrow> p = render_path (path_components p)"
  unfolding clean_path_def by (metis path_components_clean path_components_render)

lemma path_clean_clean_path [simp]: "clean_path (path_clean p)" "clean_path (path_join a b)"
  using path_components_clean by (auto simp: clean_path_def path_clean_def path_join_def)

text \<open>What the code relies on: links resolve to clean rooted paths.\<close>

definition resolves_clean :: "file_system \<Rightarrow> bool" where
  "resolves_clean fs \<longleftrightarrow> (\<forall>p r. fs_evalSymlinks fs p = Some r \<longrightarrow> clean_path r)"

lemma resolve_parent_clean: "resolve_parent fs ps base = Some r \<Longrightarrow> clean_path r"
  by (induction fs ps base rule: resolve_parent.induct) (auto split: option.splits)

lemma normalizeSandboxPath_clean:
  "resolves_clean fs \<Longrightarrow> clean_path (normalizeSandboxPath fs p)"
  by (auto simp: normalizeSandboxPath_def Let_def resolves_clean_def
      split: option.splits list.splits intro: resolve_parent_clean)

text \<open>A path is under a root when the root's components are a prefix of its own.\<close>

definition under_some :: "string list \<Rightarrow> string \<Rightarrow> bool" where
  "under_some roots p \<longleftrightarrow> (\<exists>r \<in> set roots. prefix (path_components r) (path_components p))"

lemma sandboxPathAllowed_under:
  assumes "clean_path p" and "\<And>r. r \<in> set roots \<Longrightarrow> clean_path r \<and> r \<noteq> ''/''"
  shows "sandboxPathAllowed p roots \<longleftrightarrow> under_some roots p"
proof -
  have eq: "map render_path (map path_components roots) = roots"
    using assms(2) by (simp add: map_idI clean_path_iff)
  have "path_components r \<noteq> []" if "r \<in> set roots" for r
  proof
    assume "path_components r = []"
    with assms(2) [OF that] have "r = ''/''" unfolding clean_path_iff by (simp add: render_path_def)
    with assms(2) [OF that] show False by simp
  qed
  then have "sandboxPathAllowed (render_path (path_components p))
      (map render_path (map path_components roots)) \<longleftrightarrow> under_some roots p"
    by (subst sandboxPathAllowed_components) (auto simp: under_some_def path_components_clean)
  then show ?thesis unfolding eq clean_path_iff [THEN iffD1, OF assms(1), symmetric] .
qed

text \<open>What the sandbox decides for a write.\<close>

definition write_permitted :: "file_system \<Rightarrow> string list \<times> string list \<Rightarrow> string \<Rightarrow> bool" where
  "write_permitted fs roots path \<longleftrightarrow>
     under_some (fst roots) (normalizeSandboxPath fs path) \<and>
     \<not> under_some (snd roots) (normalizeSandboxPath fs path)"

definition proper_roots :: "string list \<times> string list \<Rightarrow> bool" where
  "proper_roots roots \<longleftrightarrow> (\<forall>r \<in> set (fst roots) \<union> set (snd roots). clean_path r \<and> r \<noteq> ''/'')"

lemma write_prefixes_clean:
  "resolves_clean fs \<Longrightarrow> r \<in> set (fst (write_prefixes fs sb)) \<union> set (snd (write_prefixes fs sb)) \<Longrightarrow>
   clean_path r"
  by (auto simp: write_prefixes_def normalizeSandboxPaths_def intro: normalizeSandboxPath_clean)

lemma WriteSandbox_decision:
  assumes "resolves_clean fs" and "proper_roots roots"
    and "tool_name u = ''write_file'' \<or> tool_name u = ''edit_file''"
    and "path = stringValue (pget (tool_arguments u) ''path'')" and "path \<noteq> []"
  shows "WriteSandbox_step le fs sb roots n u w =
    (if write_permitted fs roots path then (Inr allow_decision, 0, w)
     else if n + 1 \<ge> 3
     then (Inl (PTurnFailed ''sandbox_violation_limit''), n + 1,
           strategy_fail le (strategy_error ''sandbox/write'' ''Harnas::SandboxViolation''
             ''sandbox_violation_limit'' [] True) w)
     else (Inr (deny_decision (sandboxWriteMessage path
             (case sb_Allow sb of None \<Rightarrow> [''.''] | Some a \<Rightarrow> a) (sb_Deny sb))), n + 1, w))"
proof -
  have c: "clean_path (normalizeSandboxPath fs path)" by (rule normalizeSandboxPath_clean [OF assms(1)])
  have "sandboxPathAllowed (normalizeSandboxPath fs path) (fst roots) \<and>
        \<not> sandboxPathAllowed (normalizeSandboxPath fs path) (snd roots) \<longleftrightarrow> write_permitted fs roots path"
    using assms(2) by (simp add: write_permitted_def proper_roots_def sandboxPathAllowed_under [OF c])
  then show ?thesis
    unfolding WriteSandbox_step_def Let_def assms(4) [symmetric] using assms(3,5) by auto
qed

section \<open>Credential templates\<close>

lemma str_index_Some:
  "str_index s p = Some i \<Longrightarrow> take (length p) (drop i s) = p"
proof (induction s arbitrary: i)
  case Nil
  then show ?case by (auto split: if_splits)
next
  case (Cons c s)
  then show ?case by (auto simp: has_prefix_def split: if_splits)
qed

lemma count_list_take_drop: "count_list s c = count_list (take n s) c + count_list (drop n s) c"
  by (metis append_take_drop_id count_list_append)

lemma count_list_drop_le: "count_list (drop n s) c \<le> count_list s c"
  using count_list_take_drop [of s c n] by simp

definition inert :: "(string \<Rightarrow> string option) \<Rightarrow> (string \<times> credential) list \<Rightarrow> bool" where
  "inert envLookup creds \<longleftrightarrow>
     (\<forall>name c r. map_of creds name = Some c \<longrightarrow> cred_Resolve envLookup c = Some r \<longrightarrow> CHR 0x7B \<notin> set r)"

lemma template_pass_decreases:
  assumes "inert envLookup creds" and "template_pass envLookup creds value names = TGo value' names'"
  shows "count_list value' (CHR 0x7B) < count_list value (CHR 0x7B)"
proof -
  from assms(2) obtain start len c r where start: "str_index value credential_open = Some start"
    and len: "str_index (drop start value) ''}'' = Some len"
    and c: "map_of creds (drop (start + length credential_open) (take (start + len) value)) = Some c"
    and r: "cred_Resolve envLookup c = Some r"
    and v: "value' = take start value @ r @ drop (start + len + 1) value"
    by (auto simp: template_pass_def Let_def split: option.splits)
  have r0: "count_list r (CHR 0x7B) = 0"
    using assms(1) c r unfolding inert_def by (simp add: count_list_0_iff)
  have "take (length credential_open) (drop start value) = credential_open"
    by (rule str_index_Some [OF start])
  then obtain t where t: "drop start value = CHR 0x7B # t"
    by (cases "drop start value") (auto simp: credential_open_def)
  then have tl: "drop (start + len + 1) value = drop len t"
    by (metis add.assoc add.commute drop_Suc_Cons drop_drop plus_1_eq_Suc)
  have "count_list (drop (start + len + 1) value) (CHR 0x7B) < count_list (drop start value) (CHR 0x7B)"
    unfolding tl t using count_list_drop_le [of len t "CHR 0x7B"] by simp
  then show ?thesis
    unfolding v using r0 count_list_take_drop [of "value" "CHR 0x7B" start] by simp
qed

lemma resolveTemplate_returns:
  assumes "inert envLookup creds"
  shows "\<exists>r. resolveTemplate envLookup creds v names = Some r"
proof (induction "count_list v (CHR 0x7B)" arbitrary: v names rule: less_induct)
  case less
  show ?case
  proof (cases "template_pass envLookup creds v names")
    case (TStop r ns)
    then show ?thesis by (simp add: resolveTemplate.simps)
  next
    case (TGo value' names')
    with less template_pass_decreases [OF assms TGo] show ?thesis
      by (subst resolveTemplate.simps) simp
  qed
qed

text \<open>A credential that mentions itself: every pass reproduces the value.\<close>

definition self_creds :: "(string \<times> credential) list" where
  "self_creds = [(''a'', \<lparr>cr_From = ''literal'', cr_Name = [], cr_Value = ''{credential.a}''\<rparr>)]"

lemma self_pass: "template_pass envLookup self_creds ''{credential.a}'' names = TGo ''{credential.a}'' (names @ [''a''])"
  by (simp add: template_pass_def self_creds_def credential_open_def has_prefix_def cred_Resolve_def)

lemma resolveTemplate_loops: "resolveTemplate envLookup self_creds ''{credential.a}'' names = None"
proof -
  have never: "v \<noteq> ''{credential.a}'' \<or> creds \<noteq> self_creds"
    if "resolveTemplate el creds v ns = Some r" for el creds v ns r
  proof (rule resolveTemplate.raw_induct [OF _ that])
    fix rt :: "(string \<Rightarrow> string option) \<Rightarrow> (string \<times> credential) list \<Rightarrow> string \<Rightarrow> string list \<Rightarrow>
      (string option \<times> string list) option"
    fix el creds v ns r
    assume ih: "\<And>el creds v ns r. rt el creds v ns = Some r \<Longrightarrow>
        v \<noteq> ''{credential.a}'' \<or> creds \<noteq> self_creds"
      and eq: "(case template_pass el creds v ns of TStop r ns \<Rightarrow> Some (r, ns)
        | TGo value' names' \<Rightarrow> rt el creds value' names') = Some r"
    show "v \<noteq> ''{credential.a}'' \<or> creds \<noteq> self_creds"
      using eq ih [of el self_creds "''{credential.a}''" "ns @ [''a'']" r] by (auto simp: self_pass)
  qed
  show ?thesis
    using never [of envLookup self_creds "''{credential.a}''" names]
    by (cases "resolveTemplate envLookup self_creds ''{credential.a}'' names") blast+
qed

section \<open>The counters of the repetition guard\<close>

text \<open>The state after a list of tool results: the two counters are the lengths of the current
  runs of failures and of rejections.\<close>

definition after_results ::
    "'st log_env \<Rightarrow> repetition_guard \<Rightarrow> (event \<times> event option) list \<Rightarrow>
     repetition_state \<times> ('h, 'st, 'w) world \<Rightarrow> repetition_state \<times> ('h, 'st, 'w) world"
where
  "after_results le g rs s =
     fold (\<lambda>(u, r) (c, w). snd (RepetitionGuard_post le g c u r w)) rs s"

definition run_length :: "('a \<Rightarrow> bool) \<Rightarrow> 'a list \<Rightarrow> int" where
  "run_length P xs = int (length (takeWhile P (rev xs)))"

lemma run_length_snoc: "run_length P (xs @ [x]) = (if P x then run_length P xs + 1 else 0)"
  by (simp add: run_length_def)

lemma after_results_counters:
  assumes "rs_failures c = 0" and "rs_rejections c = 0"
  shows "rs_failures (fst (after_results le g rs (c, w))) = run_length (\<lambda>x. result_failed (snd x)) rs \<and>
    rs_rejections (fst (after_results le g rs (c, w))) = run_length (\<lambda>x. result_rejected (snd x)) rs"
proof (induction rs rule: rev_induct)
  case Nil
  with assms show ?case by (simp add: after_results_def run_length_def)
next
  case (snoc x rs)
  then show ?case
    by (auto simp: after_results_def RepetitionGuard_post_def Let_def run_length_snoc
        split: prod.splits)
qed

text \<open>The number of earlier calls with a key.\<close>

definition after_calls ::
    "'st log_env \<Rightarrow> (payload \<Rightarrow> string) \<Rightarrow> repetition_guard \<Rightarrow> event list \<Rightarrow>
     repetition_state \<times> ('h, 'st, 'w) world \<Rightarrow> repetition_state \<times> ('h, 'st, 'w) world"
where
  "after_calls le hash g us s = fold (\<lambda>u (c, w). snd (RepetitionGuard_pre le hash g c u w)) us s"

lemma after_calls_counter:
  assumes "rs_calls c = []"
  shows "aget 0 (rs_calls (fst (after_calls le hash g us (c, w)))) key =
    int (count_list (map (repetitionCallKey hash) us) key)"
proof (induction us rule: rev_induct)
  case Nil
  with assms show ?case by (simp add: after_calls_def aget_def)
next
  case (snoc u us)
  then show ?case
    by (auto simp: after_calls_def RepetitionGuard_pre_def Let_def split: prod.splits)
qed

end
