(* ===== verification/Examples.thy ===== *)
theory Examples
  imports ProviderGate Observe CompactionProps GuardProps
begin

text \<open>
  Concrete data for the examples of the root theory: small logs, a provider that asks for one
  tool and then answers, a registry with one tool, hooks that allow, hold or refuse.
\<close>

definition ex_log_env :: "mem_adapter log_env" where
  "ex_log_env = \<lparr>le_append = mem_AppendEvents, le_now = (\<lambda>n. ''t''), le_digest = (\<lambda>p. ''d'')\<rparr>"

definition mk_ev :: "int \<Rightarrow> event_type \<Rightarrow> payload \<Rightarrow> event" where
  "mk_ev i t p = \<lparr>ev_id = ''e'', ev_seq = i, ev_timestamp = ''t'', ev_type = t, ev_payload = p, ev_hash = []\<rparr>"

definition ex_user :: "int \<Rightarrow> event" where
  "ex_user i = mk_ev i EventUserMessage [(''text'', VStr ''hi'')]"

definition ex_assistant :: "int \<Rightarrow> string \<Rightarrow> event" where
  "ex_assistant i stop = mk_ev i EventAssistantMessage [(''text'', VStr ''ok''), (''stop_reason'', VStr stop)]"

definition ex_use :: "int \<Rightarrow> string \<Rightarrow> event" where
  "ex_use i tid = mk_ev i EventToolUse [(''id'', VStr tid), (''name'', VStr ''echo''), (''arguments'', VMap [])]"

definition ex_result :: "int \<Rightarrow> string \<Rightarrow> event" where
  "ex_result i tid = mk_ev i EventToolResult (tool_result_payload tid (VStr ''out'') VNil)"

definition ex_open :: "event list" where
  "ex_open = [ex_user 0, ex_assistant 1 ''tool_use'', ex_use 2 ''a'', ex_use 3 ''b'']"

definition ex_closed :: "event list" where
  "ex_closed = ex_open @ [ex_result 4 ''a'', ex_result 5 ''b'']"

definition ex_log :: "event list \<Rightarrow> mem_adapter slog" where
  "ex_log es = NewLog\<lparr>lg_events := es\<rparr>"

definition ex_bound :: "mem_adapter slog" where
  "ex_bound = NewLog\<lparr>lg_storage := Some NewMemoryStorageAdapter\<rparr>"

definition ex_session :: "event list \<Rightarrow> mem_adapter session" where
  "ex_session es = NewSession ''ses_1'' (Some (ex_log es)) [(''k'', VStr ''v'')]"

text \<open>A handler is a number; number 0 allows, 1 holds, 2 refuses, 3 panics.\<close>

fun ex_run :: "nat \<Rightarrow> hook_ctx \<Rightarrow> (nat, mem_adapter, nat) world \<Rightarrow>
    (panic_value + val) \<times> (nat, mem_adapter, nat) world" where
  "ex_run n ctx w =
     (if n = 0 then (Inr VNil, w)
      else if n = 1 then (Inr (VMap [(''pending_approval'', VBool True), (''reason'', VStr ''ask'')]), w)
      else if n = 2 then (Inr (VMap [(''allow'', VBool False), (''reason'', VStr ''no'')]), w)
      else (Inl (PText ''boom''), w))"

definition ex_tool :: "(nat, mem_adapter, nat) tool" where
  "ex_tool =
     \<lparr>tl_name = ''echo'', tl_handler = ''echo'', tl_description = [], tl_schema = [], tl_config = [],
      tl_call = Some (\<lambda>args w. (Inr ''out'', w)), tl_call_config = None, tl_call_context = None\<rparr>"

definition ex_registry :: "(nat, mem_adapter, nat) registry" where
  "ex_registry = [(''echo'', ex_tool)]"

text \<open>The provider counts its calls: the first answer asks for a tool, the others end the turn.\<close>

definition ex_provider :: "payload \<Rightarrow> nat \<Rightarrow> (perr + payload) \<times> nat" where
  "ex_provider request n =
     (Inr (if n = 0 then [(''tool'', VBool True)] else []), Suc n)"

definition ex_message :: "string \<Rightarrow> event_args" where
  "ex_message stop =
     \<lparr>ea_type = EventAssistantMessage,
      ea_payload = [(''text'', VStr ''ok''), (''stop_reason'', VStr stop)]\<rparr>"

definition ex_use_args :: "string \<Rightarrow> event_args" where
  "ex_use_args tid =
     \<lparr>ea_type = EventToolUse,
      ea_payload = [(''id'', VStr tid), (''name'', VStr ''echo''), (''arguments'', VMap [])]\<rparr>"

definition ex_ingest :: "payload \<Rightarrow> nat \<Rightarrow> (perr + event_args list) \<times> nat" where
  "ex_ingest response n =
     (Inr (if response = [] then [ex_message ''end_turn''] else [ex_message ''tool_use'', ex_use_args ''c'']), n)"

definition ex_env :: "(nat, mem_adapter, nat) loop_env" where
  "ex_env =
     \<lparr>he_log = ex_log_env, he_code = (\<lambda>n. n), he_run = ex_run, re_registry = Some ex_registry,
      re_extra = [], re_newID = (\<lambda>n. (''u'', n)), re_marshal = (\<lambda>v. ''{}''),
      al_project = (\<lambda>es n. Inr [(''n'', VInt (int (length es)))]), al_projection_name = ''p'',
      al_digest = (\<lambda>v. Inr ''h''), al_provider = ex_provider, al_stream = None, al_ProviderKind = ''k'',
      al_provider_name = ''k'', al_ingest = ex_ingest, al_retry = None, al_MaxTurns = 5,
      al_on_stream = None\<rparr>"

definition ex_world :: "(string \<times> nat list) list \<Rightarrow> event list \<Rightarrow> (nat, mem_adapter, nat) world" where
  "ex_world handlers es =
     \<lparr>w_session = ex_session es, w_hooks = \<lparr>hk_handlers = handlers, hk_metadata = []\<rparr>,
      w_children = [], w_ext = 0\<rparr>"

lemmas ex_defs = ex_log_env_def mk_ev_def ex_user_def ex_assistant_def ex_use_def ex_result_def
  ex_open_def ex_closed_def ex_log_def ex_bound_def ex_session_def ex_tool_def ex_registry_def
  ex_message_def ex_use_args_def ex_env_def ex_world_def

lemma ex_env_simps [simp]:
  "he_log ex_env = ex_log_env" "he_code ex_env = (\<lambda>n. n)" "he_run ex_env = ex_run"
  "re_registry ex_env = Some ex_registry" "re_newID ex_env = (\<lambda>n. (''u'', n))"
  "al_provider ex_env = ex_provider" "al_stream ex_env = None" "al_ingest ex_env = ex_ingest"
  "al_on_stream ex_env = None" "al_MaxTurns ex_env = 5" "al_retry ex_env = None"
  by (simp_all add: ex_env_def)

lemma ex_handlers_quiet: "handlers_rel quiet ex_env"
  by (auto simp: handlers_rel_def intro: quiet.R_refl)

lemma ex_handlers_extend: "handlers_extend ex_env"
  by (simp add: handlers_rel_def)

lemma ex_tools_quiet: "tools_rel quiet ex_registry"
  by (auto simp: tools_rel_def tool_rel_def fn_rel_def Find_def ex_registry_def ex_tool_def
      intro: quiet.R_refl split: if_splits)

lemma ex_tools_extend: "tools_extend ex_registry"
  by (auto simp: tools_rel_def tool_rel_def fn_rel_def Find_def ex_registry_def ex_tool_def
      split: if_splits)

lemma ex_runner_extends: "runner_extends ex_env"
  using ex_handlers_extend ex_tools_extend by (simp add: runner_extends_def)

lemma ex_counts_calls: "counts_calls (\<lambda>n. n) ex_env"
  by (auto simp: counts_calls_def handlers_rel_def tools_rel_def tool_rel_def fn_rel_def same_calls_def
      Find_def ex_registry_def ex_tool_def ex_provider_def ex_ingest_def split: if_splits)

section \<open>Strategies\<close>

definition ex_token_tail :: token_marker_tail where
  "ex_token_tail = \<lparr>tm_MaxTokens = 1, tm_Threshold = 0, tm_KeepRecent = 2, tm_SummaryFormat = []\<rparr>"

definition ex_summary_tail :: "('h, 'st, 'w) summary_tail" where
  "ex_summary_tail = \<lparr>su_Projection = None, su_Provider = None, su_Ingestor = None, su_MaxMessages = 0,
     su_KeepRecent = 0, su_Prompt = [], su_digest = (\<lambda>v. Inr ''h''), su_newID = ''n''\<rparr>"

text \<open>A file system without links, working in \<^verbatim>\<open>/work\<close>, and a sandbox for the working directory.\<close>

definition ex_fs :: file_system where
  "ex_fs = \<lparr>fs_wd = ''/work'', fs_evalSymlinks = (\<lambda>p. None)\<rparr>"

definition ex_sandbox :: sandbox where
  "ex_sandbox = \<lparr>sb_Allow = None, sb_Deny = []\<rparr>"

definition ex_write :: "int \<Rightarrow> string \<Rightarrow> string \<Rightarrow> event" where
  "ex_write i tid path = mk_ev i EventToolUse
     [(''id'', VStr tid), (''name'', VStr ''write_file''), (''arguments'', VMap [(''path'', VStr path)])]"

text \<open>A session with the sandbox as its only hook, installed by \<^verbatim>\<open>On\<close>, and three pending writes.\<close>

definition ex_write_tool :: "(unit, mem_adapter, int) tool" where
  "ex_write_tool =
     \<lparr>tl_name = ''write_file'', tl_handler = ''write_file'', tl_description = [], tl_schema = [],
      tl_config = [], tl_call = Some (\<lambda>args w. (Inr ''written'', w)), tl_call_config = None,
      tl_call_context = None\<rparr>"

definition ex_sandbox_env :: "(unit, mem_adapter, int) run_env" where
  "ex_sandbox_env =
     \<lparr>he_log = ex_log_env, he_code = (\<lambda>h. 0),
      he_run = (\<lambda>h. run_guard (WriteSandbox_step ex_log_env ex_fs ex_sandbox (write_prefixes ex_fs ex_sandbox))),
      re_registry = Some [(''write_file'', ex_write_tool)], re_extra = [], re_newID = (\<lambda>n. (''u'', n)),
      re_marshal = (\<lambda>v. ''{}'')\<rparr>"

definition ex_sandbox_world :: "(unit, mem_adapter, int) world" where
  "ex_sandbox_world =
     \<lparr>w_session = ex_session [ex_user 0, ex_assistant 1 ''tool_use'', ex_write 2 ''a'' ''/etc/passwd'',
        ex_write 3 ''b'' ''/etc/shadow'', ex_write 4 ''c'' ''/etc/hosts''],
      w_hooks = On (\<lambda>h. 0) ''pre_tool_use'' () NewHooks, w_children = [], w_ext = 0\<rparr>"

end
