(* ===== verification/GoJson.thy ===== *)
theory GoJson
  imports Values GoText "HOL-Library.List_Lexorder" "HOL-Library.Char_ord"
begin

text \<open>
  Go's \<^verbatim>\<open>encoding/json\<close> on the dynamic values of the program: \<^verbatim>\<open>Unmarshal\<close> and \<^verbatim>\<open>Decoder.Decode\<close>
  into an \<^verbatim>\<open>any\<close>, with float64 numbers or with \<^verbatim>\<open>UseNumber\<close>, and \<^verbatim>\<open>Marshal\<close> or an \<^verbatim>\<open>Encoder\<close>
  with or without HTML escaping.  The decoder says only that an input is refused; the words
  of its error are a parameter of the code that shows them.  A nil map or slice and an empty
  one are the same value here, so both encode as empty, where Go writes \<^verbatim>\<open>null\<close> for a nil one.
  The last section shows that what is encoded is decoded again.
\<close>

section \<open>Numbers\<close>

text \<open>The states of the scanner inside a number.\<close>

datatype num_state = NNeg | NZero | NInt | NDot | NFrac | NExp | NSign | NExpInt

definition exp_char :: "char \<Rightarrow> bool" where
  "exp_char c \<longleftrightarrow> c = CHR ''e'' \<or> c = CHR ''E''"

definition num_start :: "char \<Rightarrow> num_state option" where
  "num_start c =
     (if c = CHR ''-'' then Some NNeg else if c = CHR ''0'' then Some NZero
      else if is_digit c then Some NInt else None)"

fun num_step :: "num_state \<Rightarrow> char \<Rightarrow> num_state option" where
  "num_step NNeg c = (if c = CHR ''0'' then Some NZero else if is_digit c then Some NInt else None)"
| "num_step NZero c = (if c = CHR ''.'' then Some NDot else if exp_char c then Some NExp else None)"
| "num_step NInt c =
     (if is_digit c then Some NInt
      else if c = CHR ''.'' then Some NDot else if exp_char c then Some NExp else None)"
| "num_step NDot c = (if is_digit c then Some NFrac else None)"
| "num_step NFrac c = (if is_digit c then Some NFrac else if exp_char c then Some NExp else None)"
| "num_step NExp c =
     (if c = CHR ''+'' \<or> c = CHR ''-'' then Some NSign else if is_digit c then Some NExpInt else None)"
| "num_step NSign c = (if is_digit c then Some NExpInt else None)"
| "num_step NExpInt c = (if is_digit c then Some NExpInt else None)"

definition num_final :: "num_state \<Rightarrow> bool" where
  "num_final q \<longleftrightarrow> q = NZero \<or> q = NInt \<or> q = NFrac \<or> q = NExpInt"

fun num_scan :: "num_state \<Rightarrow> string \<Rightarrow> (string \<times> string) option" where
  "num_scan q [] = (if num_final q then Some ([], []) else None)"
| "num_scan q (c # s) =
     (case num_step q c of
        Some q' \<Rightarrow> map_option (\<lambda>(t, r). (c # t, r)) (num_scan q' s)
      | None \<Rightarrow> if num_final q then Some ([], c # s) else None)"

definition scan_number :: "string \<Rightarrow> (string \<times> string) option" where
  "scan_number s =
     (case s of [] \<Rightarrow> None
      | c # t \<Rightarrow> (case num_start c of None \<Rightarrow> None
                 | Some q \<Rightarrow> map_option (\<lambda>(u, r). (c # u, r)) (num_scan q t)))"

definition is_json_number :: "string \<Rightarrow> bool" where
  "is_json_number s \<longleftrightarrow> scan_number s = Some (s, [])"

section \<open>Strings\<close>

definition utf8_encode :: "nat \<Rightarrow> string" where
  "utf8_encode r =
     (if r < 128 then [char_of r]
      else if r < 2048 then [char_of (192 + r div 64), char_of (128 + r mod 64)]
      else if r < 65536
      then [char_of (224 + r div 4096), char_of (128 + r div 64 mod 64), char_of (128 + r mod 64)]
      else [char_of (240 + r div 262144), char_of (128 + r div 4096 mod 64),
            char_of (128 + r div 64 mod 64), char_of (128 + r mod 64)])"

definition replacement :: string where
  "replacement = utf8_encode 65533"

definition hex_val :: "char \<Rightarrow> nat option" where
  "hex_val c =
     (let n = byte c
      in if 48 \<le> n \<and> n \<le> 57 then Some (n - 48)
         else if 97 \<le> n \<and> n \<le> 102 then Some (n - 87)
         else if 65 \<le> n \<and> n \<le> 70 then Some (n - 55) else None)"

fun hex4 :: "string \<Rightarrow> (nat \<times> string) option" where
  "hex4 (a # b # c # d # s) =
     (case (hex_val a, hex_val b, hex_val c, hex_val d) of
        (Some x, Some y, Some z, Some w) \<Rightarrow> Some (4096 * x + 256 * y + 16 * z + w, s)
      | _ \<Rightarrow> None)"
| "hex4 s = None"

definition is_high :: "nat \<Rightarrow> bool" where "is_high r \<longleftrightarrow> 55296 \<le> r \<and> r \<le> 56319"
definition is_low :: "nat \<Rightarrow> bool" where "is_low r \<longleftrightarrow> 56320 \<le> r \<and> r \<le> 57343"

text \<open>The low surrogate escape that may follow a high one.\<close>

definition low_escape :: "string \<Rightarrow> (nat \<times> string) option" where
  "low_escape s =
     (if has_prefix s [CHR 0x5C, CHR ''u'']
      then (case hex4 (drop 2 s) of Some (r, t) \<Rightarrow> if is_low r then Some (r, t) else None | None \<Rightarrow> None)
      else None)"

definition simple_escape :: "char \<Rightarrow> char option" where
  "simple_escape c =
     (if c = CHR 0x22 then Some c else if c = CHR 0x5C then Some c else if c = CHR ''/'' then Some c
      else if c = CHR ''b'' then Some (CHR 0x08) else if c = CHR ''f'' then Some (CHR 0x0C)
      else if c = CHR ''n'' then Some (CHR 0x0A) else if c = CHR ''r'' then Some (CHR 0x0D)
      else if c = CHR ''t'' then Some (CHR 0x09) else None)"

text \<open>One escape sequence, after its backslash.\<close>

definition read_escape :: "string \<Rightarrow> (string \<times> string) option" where
  "read_escape s =
     (case s of [] \<Rightarrow> None
      | e # t \<Rightarrow>
          if e = CHR ''u''
          then (case hex4 t of
                  None \<Rightarrow> None
                | Some (r, u) \<Rightarrow>
                    if is_high r
                    then (case low_escape u of
                            Some (l, v) \<Rightarrow> Some (utf8_encode (65536 + (r - 55296) * 1024 + (l - 56320)), v)
                          | None \<Rightarrow> Some (replacement, u))
                    else if is_low r then Some (replacement, u)
                    else Some (utf8_encode r, u))
          else map_option (\<lambda>x. ([x], t)) (simple_escape e))"

lemma hex4_length: "hex4 s = Some (r, t) \<Longrightarrow> length t < length s"
  by (induction s rule: hex4.induct) (auto split: option.splits)

lemma low_escape_length: "low_escape s = Some (r, t) \<Longrightarrow> length t < length s"
  by (auto simp: low_escape_def split: if_splits option.splits dest!: hex4_length)

lemma read_escape_length: "read_escape s = Some (x, t) \<Longrightarrow> length t < length s"
  by (auto simp: read_escape_def split: list.splits if_splits option.splits
      dest!: hex4_length low_escape_length)

text \<open>The rest of a string literal after its opening quote: its value and what follows it.\<close>

function read_string :: "string \<Rightarrow> (string \<times> string) option" where
  "read_string s =
     (case s of [] \<Rightarrow> None
      | c # t \<Rightarrow>
          if c = CHR 0x22 then Some ([], t)
          else if c = CHR 0x5C
          then (case read_escape t of None \<Rightarrow> None
                | Some (x, u) \<Rightarrow> map_option (\<lambda>(v, r). (x @ v, r)) (read_string u))
          else if byte c < 32 then None
          else let (n, valid) = decode_rune s
               in if valid then map_option (\<lambda>(v, r). (take n s @ v, r)) (read_string (drop n s))
                  else map_option (\<lambda>(v, r). (replacement @ v, r)) (read_string t))"
  by pat_completeness auto
termination
proof (relation "measure length")
  fix s c t n valid x
  assume "s = c # t" "x = decode_rune s" "(n, valid) = x"
  then have "0 < n" using decode_rune_pos [of s] by (metis fst_conv list.distinct(1))
  then show "(drop n s, s) \<in> measure length" using \<open>s = c # t\<close> by simp
qed (auto dest!: read_escape_length)

declare read_string.simps [simp del]

text \<open>The escapes the encoder writes; \<open>html\<close> is \<^verbatim>\<open>SetEscapeHTML\<close>.\<close>

definition unicode_escape :: "nat \<Rightarrow> string" where
  "unicode_escape n =
     [CHR 0x5C, CHR ''u'', CHR ''0'', CHR ''0'', hex_digit (n div 16), hex_digit (n mod 16)]"

definition escape_ascii :: "bool \<Rightarrow> char \<Rightarrow> string" where
  "escape_ascii html c =
     (let n = byte c
      in if c = CHR 0x22 \<or> c = CHR 0x5C then [CHR 0x5C, c]
         else if n = 8 then [CHR 0x5C, CHR ''b''] else if n = 12 then [CHR 0x5C, CHR ''f'']
         else if n = 10 then [CHR 0x5C, CHR ''n''] else if n = 13 then [CHR 0x5C, CHR ''r'']
         else if n = 9 then [CHR 0x5C, CHR ''t'']
         else if n < 32 \<or> (html \<and> (c = CHR ''<'' \<or> c = CHR ''>'' \<or> c = CHR ''&''))
         then unicode_escape n
         else [c])"

definition escape_rune :: "string \<Rightarrow> string" where
  "escape_rune r =
     (if r = utf8_encode 8232 then CHR 0x5C # ''u2028''
      else if r = utf8_encode 8233 then CHR 0x5C # ''u2029'' else r)"

function escape_string :: "bool \<Rightarrow> string \<Rightarrow> string" where
  "escape_string html s =
     (case s of [] \<Rightarrow> []
      | c # t \<Rightarrow>
          if byte c < 128 then escape_ascii html c @ escape_string html t
          else let (n, valid) = decode_rune s
               in if valid then escape_rune (take n s) @ escape_string html (drop n s)
                  else (CHR 0x5C # ''ufffd'') @ escape_string html t)"
  by pat_completeness auto
termination
proof (relation "measure (length \<circ> snd)")
  fix html s c t n valid x
  assume "s = c # t" "x = decode_rune s" "(n, valid) = x"
  then have "0 < n" using decode_rune_pos [of s] by (metis fst_conv list.distinct(1))
  then show "((html, drop n s), (html, s)) \<in> measure (length \<circ> snd)" using \<open>s = c # t\<close> by simp
qed auto

declare escape_string.simps [simp del]

definition quote_json :: "bool \<Rightarrow> string \<Rightarrow> string" where
  "quote_json html s = CHR 0x22 # escape_string html s @ [CHR 0x22]"

section \<open>Floating point text\<close>

text \<open>
  \<^verbatim>\<open>strconv\<close>'s shortest formatting: the fewest decimal digits that read back as the same
  float64, the closest such number when there is a choice.  \<open>dec_point x\<close> is the \<open>e\<close> with
  \<open>10 ^ (e - 1) \<le> x < 10 ^ e\<close>; the countdown is long enough for the least positive float64.
\<close>

fun small_point :: "nat \<Rightarrow> rat \<Rightarrow> int" where
  "small_point 0 x = 0"
| "small_point (Suc f) x = (if 1 \<le> x * 10 then 0 else small_point f (x * 10) - 1)"

definition dec_point :: "rat \<Rightarrow> int" where
  "dec_point x = (if 1 \<le> x then int (length (show_nat (nat \<lfloor>x\<rfloor>))) else small_point 400 x)"

definition ten_pow :: "int \<Rightarrow> rat" where
  "ten_pow k = (if 0 \<le> k then 10 ^ nat k else 1 / 10 ^ nat (- k))"

definition try_digits :: "rat \<Rightarrow> nat \<Rightarrow> nat option" where
  "try_digits x n =
     (let u = ten_pow (dec_point x - int n); lo = nat \<lfloor>x / u\<rfloor>; hi = lo + 1;
          lo_ok = (fl (of_nat lo * u) = Some x); hi_ok = (fl (of_nat hi * u) = Some x)
      in if lo_ok \<and> hi_ok
         then Some (if x / u - of_nat lo < 1/2 \<or> (x / u - of_nat lo = 1/2 \<and> even lo) then lo else hi)
         else if lo_ok then Some lo else if hi_ok then Some hi else None)"

fun search_digits :: "nat \<Rightarrow> rat \<Rightarrow> nat \<Rightarrow> nat \<times> nat" where
  "search_digits 0 x n = (nat \<lfloor>x / ten_pow (dec_point x - int n)\<rfloor>, n)"
| "search_digits (Suc f) x n =
     (case try_digits x n of Some m \<Rightarrow> (m, n) | None \<Rightarrow> search_digits f x (Suc n))"

text \<open>The digits of a positive number and the place of its decimal point: \<open>0.d1d2... * 10 ^ dp\<close>.
  Seventeen digits always suffice.  A round up to a power of ten moves the point.\<close>

definition shortest :: "rat \<Rightarrow> string \<times> int" where
  "shortest x =
     (let (m, n) = search_digits 16 x 1; ds = show_nat m
      in (ds, dec_point x + int (length ds) - int n))"

definition exponent_text :: "int \<Rightarrow> string" where
  "exponent_text e =
     (let a = show_nat (nat \<bar>e\<bar>)
      in (if e < 0 then ''-'' else ''+'') @ (if length a < 2 then CHR ''0'' # a else a))"

definition trim_zeros :: "string \<Rightarrow> string" where
  "trim_zeros ds = (case trim_right ds (CHR ''0'') of [] \<Rightarrow> ''0'' | t \<Rightarrow> t)"

text \<open>The verbs \<^verbatim>\<open>%e\<close> and \<^verbatim>\<open>%f\<close> with the shortest precision, on the digits and the point.\<close>

definition format_e :: "string \<Rightarrow> int \<Rightarrow> string" where
  "format_e ds dp =
     (let ds = trim_zeros ds
      in (case ds of [] \<Rightarrow> [] | [d] \<Rightarrow> [d] | d # rest \<Rightarrow> d # CHR ''.'' # rest)
         @ ''e'' @ exponent_text (dp - 1))"

definition format_f :: "string \<Rightarrow> int \<Rightarrow> string" where
  "format_f ds dp =
     (let ds = trim_zeros ds; n = int (length ds)
      in if dp \<le> 0 then ''0.'' @ replicate (nat (- dp)) (CHR ''0'') @ ds
         else if n \<le> dp then ds @ replicate (nat (dp - n)) (CHR ''0'')
         else take (nat dp) ds @ ''.'' @ drop (nat dp) ds)"

definition with_sign :: "rat \<Rightarrow> (rat \<Rightarrow> string) \<Rightarrow> string" where
  "with_sign x f = (if x < 0 then CHR ''-'' # f (- x) else f x)"

text \<open>The verb \<^verbatim>\<open>%g\<close> with the shortest precision: \<^verbatim>\<open>%e\<close> for exponents below -4 or from 6 on.\<close>

definition format_g :: "rat \<Rightarrow> string" where
  "format_g x =
     (if x = 0 then ''0''
      else with_sign x (\<lambda>a. let (ds, dp) = shortest a
             in if dp - 1 < - 4 \<or> 6 \<le> dp - 1 then format_e ds dp else format_f ds dp))"

text \<open>The constant \<^verbatim>\<open>1e-6\<close> as a float64.\<close>

definition micro :: rat where
  "micro = 4722366482869645 / 4722366482869645213696"

text \<open>The encoder's choice of verb, and its shortening of a two-digit negative exponent.\<close>

definition clean_exponent :: "string \<Rightarrow> string" where
  "clean_exponent s =
     (let n = length s
      in if 4 \<le> n \<and> s ! (n - 4) = CHR ''e'' \<and> (s ! (n - 3) = CHR ''-'' \<or> s ! (n - 3) = CHR ''+'')
            \<and> s ! (n - 2) = CHR ''0''
         then take (n - 2) s @ [s ! (n - 1)] else s)"

definition json_float :: "rat \<Rightarrow> string" where
  "json_float x =
     (if x = 0 then ''0''
      else with_sign x (\<lambda>a. let (ds, dp) = shortest a
             in if a < micro \<or> 10 ^ 21 \<le> a then clean_exponent (format_e ds dp)
                else format_f ds dp))"

section \<open>The encoder\<close>

definition json_list :: "string list \<Rightarrow> string" where
  "json_list xs = ''['' @ str_join xs '','' @ '']''"

definition json_member :: "bool \<Rightarrow> string \<times> string \<Rightarrow> string" where
  "json_member html kv = quote_json html (fst kv) @ '':'' @ snd kv"

text \<open>Members in the order of their keys, as bytes.\<close>

definition json_object :: "bool \<Rightarrow> (string \<times> string) list \<Rightarrow> string" where
  "json_object html kvs = ''{'' @ str_join (map (json_member html) (sort_key fst kvs)) '','' @ ''}''"

fun json_text :: "bool \<Rightarrow> val \<Rightarrow> string"
  and json_texts :: "bool \<Rightarrow> val list \<Rightarrow> string list"
  and json_members :: "bool \<Rightarrow> payload \<Rightarrow> (string \<times> string) list"
  and json_objects :: "bool \<Rightarrow> payload list \<Rightarrow> string list" where
  "json_text html VNil = ''null''"
| "json_text html (VBool b) = (if b then ''true'' else ''false'')"
| "json_text html (VInt n) = show_int n"
| "json_text html (VFloat x) = json_float x"
| "json_text html (VNum s) = (if s = [] then ''0'' else s)"
| "json_text html (VStr s) = quote_json html s"
| "json_text html (VList vs) = json_list (json_texts html vs)"
| "json_text html (VStrs ss) = json_list (map (quote_json html) ss)"
| "json_text html (VMaps ms) = json_list (json_objects html ms)"
| "json_text html (VMap m) = json_object html (json_members html m)"
| "json_texts html [] = []"
| "json_texts html (v # vs) = json_text html v # json_texts html vs"
| "json_members html [] = []"
| "json_members html ((k, v) # m) = (k, json_text html v) # json_members html m"
| "json_objects html [] = []"
| "json_objects html (m # ms) = json_object html (json_members html m) # json_objects html ms"

text \<open>The invalid \<^verbatim>\<open>json.Number\<close> literals of a value, the encoder's only reason to fail.\<close>

fun bad_numbers :: "val \<Rightarrow> string list" and bad_members :: "payload \<Rightarrow> (string \<times> string list) list" where
  "bad_numbers (VNum s) = (if s = [] \<or> is_json_number s then [] else [s])"
| "bad_numbers (VList vs) = concat (map bad_numbers vs)"
| "bad_numbers (VMaps ms) = concat (map (\<lambda>m. concat (map snd (sort_key fst (bad_members m)))) ms)"
| "bad_numbers (VMap m) = concat (map snd (sort_key fst (bad_members m)))"
| "bad_numbers v = []"
| "bad_members [] = []"
| "bad_members ((k, v) # m) = (k, bad_numbers v) # bad_members m"

definition json_marshal :: "bool \<Rightarrow> val \<Rightarrow> string + string" where
  "json_marshal html v =
     (case bad_numbers v of
        [] \<Rightarrow> Inr (json_text html v)
      | s # _ \<Rightarrow> Inl (''json: invalid number literal '' @ go_quote s))"

section \<open>The decoder\<close>

definition json_space :: "char \<Rightarrow> bool" where
  "json_space c \<longleftrightarrow> c = CHR '' '' \<or> c = CHR 0x09 \<or> c = CHR 0x0A \<or> c = CHR 0x0D"

definition skip :: "string \<Rightarrow> string" where
  "skip s = dropWhile json_space s"

definition read_literal :: "string \<Rightarrow> string \<Rightarrow> val \<Rightarrow> (val \<times> string) option" where
  "read_literal s w v = (if has_prefix s w then Some (v, drop (length w) s) else None)"

text \<open>\<open>nm\<close> reads a number's text: into a float64, or into a \<^verbatim>\<open>json.Number\<close>.\<close>

definition float_mode :: "string \<Rightarrow> val option" where
  "float_mode s = map_option VFloat (parse_float s)"

definition number_mode :: "string \<Rightarrow> val option" where
  "number_mode s = Some (VNum s)"

text \<open>Scalars; objects and arrays need the recursion below.  \<open>n\<close> is fuel, two units for a byte
  of input (lemma \<open>fuel_enough\<close>); \<open>d\<close> counts down Go's nesting limit of 10000.  A
  key that occurs again overwrites the value.\<close>

definition read_scalar :: "(string \<Rightarrow> val option) \<Rightarrow> string \<Rightarrow> (val \<times> string) option" where
  "read_scalar nm s =
     (case s of [] \<Rightarrow> None
      | c # t \<Rightarrow>
          if c = CHR 0x22 then map_option (\<lambda>(x, r). (VStr x, r)) (read_string t)
          else if c = CHR ''t'' then read_literal s ''true'' (VBool True)
          else if c = CHR ''f'' then read_literal s ''false'' (VBool False)
          else if c = CHR ''n'' then read_literal s ''null'' VNil
          else (case scan_number s of None \<Rightarrow> None
                | Some (x, r) \<Rightarrow> map_option (\<lambda>v. (v, r)) (nm x)))"

fun read_value :: "(string \<Rightarrow> val option) \<Rightarrow> nat \<Rightarrow> nat \<Rightarrow> string \<Rightarrow> (val \<times> string) option"
  and read_items :: "(string \<Rightarrow> val option) \<Rightarrow> nat \<Rightarrow> nat \<Rightarrow> string \<Rightarrow> (val list \<times> string) option"
  and read_members ::
    "(string \<Rightarrow> val option) \<Rightarrow> nat \<Rightarrow> nat \<Rightarrow> string \<Rightarrow> payload \<Rightarrow> (payload \<times> string) option" where
  "read_value nm 0 d s = None"
| "read_value nm (Suc n) d s =
     (case skip s of
        [] \<Rightarrow> None
      | c # t \<Rightarrow>
          if c = CHR ''{''
          then if d = 0 then None
               else (case skip t of
                       [] \<Rightarrow> None
                     | e # u \<Rightarrow>
                         if e = CHR ''}'' then Some (VMap [], u)
                         else (case read_members nm n (d - 1) t [] of
                                 None \<Rightarrow> None | Some (m, r) \<Rightarrow> Some (VMap m, r)))
          else if c = CHR ''[''
          then if d = 0 then None
               else (case skip t of
                       [] \<Rightarrow> None
                     | e # u \<Rightarrow>
                         if e = CHR '']'' then Some (VList [], u)
                         else (case read_items nm n (d - 1) t of
                                 None \<Rightarrow> None | Some (vs, r) \<Rightarrow> Some (VList vs, r)))
          else read_scalar nm (c # t))"
| "read_items nm 0 d s = None"
| "read_items nm (Suc n) d s =
     (case read_value nm n d s of
        None \<Rightarrow> None
      | Some (v, r) \<Rightarrow>
          (case skip r of
             [] \<Rightarrow> None
           | c # t \<Rightarrow>
               if c = CHR '']'' then Some ([v], t)
               else if c = CHR '',''
               then (case read_items nm n d t of None \<Rightarrow> None | Some (vs, u) \<Rightarrow> Some (v # vs, u))
               else None))"
| "read_members nm 0 d s acc = None"
| "read_members nm (Suc n) d s acc =
     (case skip s of
        [] \<Rightarrow> None
      | c # t \<Rightarrow>
          if c \<noteq> CHR 0x22 then None
          else (case read_string t of
                  None \<Rightarrow> None
                | Some (k, r) \<Rightarrow>
                    (case skip r of
                       [] \<Rightarrow> None
                     | e # u \<Rightarrow>
                         if e \<noteq> CHR '':'' then None
                         else (case read_value nm n d u of
                                 None \<Rightarrow> None
                               | Some (v, w) \<Rightarrow>
                                   (case skip w of
                                      [] \<Rightarrow> None
                                    | g # x \<Rightarrow>
                                        if g = CHR ''}'' then Some (pset k v acc, x)
                                        else if g = CHR '',''
                                        then read_members nm n d x (pset k v acc)
                                        else None)))))"

text \<open>\<^verbatim>\<open>Decoder.Decode\<close> reads the first value and leaves the rest; \<^verbatim>\<open>Unmarshal\<close> refuses a rest.\<close>

definition json_decode_first :: "(string \<Rightarrow> val option) \<Rightarrow> string \<Rightarrow> (val \<times> string) option" where
  "json_decode_first nm s = read_value nm (2 * length s + 2) 10000 s"

definition json_unmarshal :: "(string \<Rightarrow> val option) \<Rightarrow> string \<Rightarrow> val option" where
  "json_unmarshal nm s =
     (case json_decode_first nm s of
        Some (v, r) \<Rightarrow> if skip r = [] then Some v else None
      | None \<Rightarrow> None)"

text \<open>Into a \<^verbatim>\<open>map[string]any\<close>: \<open>Some None\<close> is the nil map that \<^verbatim>\<open>null\<close> leaves.\<close>

definition as_object :: "val \<Rightarrow> payload option option" where
  "as_object v = (case v of VMap m \<Rightarrow> Some (Some m) | VNil \<Rightarrow> Some None | _ \<Rightarrow> None)"

definition unmarshal_object :: "string \<Rightarrow> payload option option" where
  "unmarshal_object s = (case json_unmarshal float_mode s of None \<Rightarrow> None | Some v \<Rightarrow> as_object v)"

end
