(* ===== verification/Streams.thy ===== *)
theory Streams
  imports Provider GoJson
begin

text \<open>
  The streaming providers: provider\_stream.go and the error types and helpers of
  provider\_http.go.  A handler is a state and the operations of the interface \<^verbatim>\<open>sseHandler\<close>; what it
  emits is collected in \<open>st_out\<close>, in order.  \<^verbatim>\<open>streamSSE\<close> reads the response line by line.  The
  HTTP client, the URL parser, fresh identifiers and the words of JSON errors are parameters;
  JSON itself is theory GoJson.
\<close>

section \<open>Errors\<close>

datatype stream_error =
    ProviderProtocolError string string string
  | ProviderStreamError string string string string int
  | HTTPError int val
  | ProviderErr string
  | TransportError perr

text \<open>The verb \<^verbatim>\<open>%v\<close> on the values of a decoded body.\<close>

fun go_any :: "val \<Rightarrow> string" and go_any_members :: "payload \<Rightarrow> (string \<times> string) list" where
  "go_any VNil = ''<nil>''"
| "go_any (VBool b) = (if b then ''true'' else ''false'')"
| "go_any (VInt n) = show_int n"
| "go_any (VFloat x) = format_g x"
| "go_any (VNum s) = s"
| "go_any (VStr s) = s"
| "go_any (VList vs) = ''['' @ str_join (map go_any vs) '' '' @ '']''"
| "go_any (VStrs ss) = ''['' @ str_join ss '' '' @ '']''"
| "go_any (VMaps ms) =
     ''['' @ str_join (map (\<lambda>m. ''map['' @ str_join (map (\<lambda>kv. fst kv @ '':'' @ snd kv)
       (sort_key fst (go_any_members m))) '' '' @ '']'') ms) '' '' @ '']''"
| "go_any (VMap m) =
     ''map['' @ str_join (map (\<lambda>kv. fst kv @ '':'' @ snd kv) (sort_key fst (go_any_members m))) '' '' @ '']''"
| "go_any_members [] = []"
| "go_any_members ((k, v) # m) = (k, go_any v) # go_any_members m"

definition stream_error_text :: "string \<Rightarrow> string \<Rightarrow> string \<Rightarrow> string \<Rightarrow> string" where
  "stream_error_text provider errorType message requestID =
     or_else provider ''provider'' @ '' stream error '' @ or_else errorType ''stream_error''
     @ (if requestID \<noteq> [] then '' (request_id='' @ requestID @ '')'' else [])
     @ '': '' @ or_else message ''stream returned an error event''"

definition protocol_error_text :: "string \<Rightarrow> string \<Rightarrow> string" where
  "protocol_error_text provider message =
     or_else provider ''provider'' @ '' stream protocol error: '' @ message"

definition http_error_text :: "int \<Rightarrow> val \<Rightarrow> string" where
  "http_error_text status body = ''HTTP '' @ show_int status @ '': '' @ go_any body"

text \<open>What the retry policy and the loop see of each.\<close>

fun stream_perr :: "stream_error \<Rightarrow> perr" where
  "stream_perr (ProviderProtocolError p r m) =
     \<lparr>pe_status = None, pe_retryable = Some True, pe_net = None,
      pe_class = Some ''Harnas::Providers::ProtocolError'', pe_type = ''harnas.ProviderProtocolError'',
      pe_message = protocol_error_text p m\<rparr>"
| "stream_perr (ProviderStreamError p t m rid st) =
     \<lparr>pe_status = Some st, pe_retryable = None, pe_net = None,
      pe_class = Some ''Harnas::Providers::StreamError'', pe_type = ''harnas.ProviderStreamError'',
      pe_message = stream_error_text p t m rid\<rparr>"
| "stream_perr (HTTPError st body) =
     \<lparr>pe_status = Some st, pe_retryable = None, pe_net = None, pe_class = None,
      pe_type = ''harnas.HTTPError'', pe_message = http_error_text st body\<rparr>"
| "stream_perr (ProviderErr m) =
     \<lparr>pe_status = None, pe_retryable = None, pe_net = None, pe_class = None,
      pe_type = ''harnas.ProviderError'', pe_message = m\<rparr>"
| "stream_perr (TransportError e) = e"

definition protocolError :: "string \<Rightarrow> string \<Rightarrow> string \<Rightarrow> stream_error" where
  "protocolError provider reason message = ProviderProtocolError provider reason message"

section \<open>The shared part of the handlers\<close>

record stream_state =
  st_out :: "event_args list"
  st_turnID :: string
  st_textParts :: "string list"
  st_stop :: string
  st_usage :: payload

definition emit_ev :: "event_type \<Rightarrow> payload \<Rightarrow> ('x) stream_state_scheme \<Rightarrow> ('x) stream_state_scheme" where
  "emit_ev t p s = s\<lparr>st_out := st_out s @ [\<lparr>ea_type = t, ea_payload = p\<rparr>]\<rparr>"

definition newStreamState :: "string \<Rightarrow> stream_state" where
  "newStreamState fresh =
     \<lparr>st_out = [], st_turnID = ''turn_'' @ fresh, st_textParts = [], st_stop = ''other'',
      st_usage = [(''input_tokens'', VFloat 0), (''output_tokens'', VFloat 0)]\<rparr>"

definition st_Start :: "('x) stream_state_scheme \<Rightarrow> ('x) stream_state_scheme" where
  "st_Start s = emit_ev EventAssistantTurnStarted [(''turn_id'', VStr (st_turnID s))] s"

definition emitText :: "string \<Rightarrow> ('x) stream_state_scheme \<Rightarrow> ('x) stream_state_scheme" where
  "emitText chunk s =
     (if chunk = [] then s
      else emit_ev EventAssistantTextDelta [(''turn_id'', VStr (st_turnID s)), (''chunk'', VStr chunk)]
             (s\<lparr>st_textParts := st_textParts s @ [chunk]\<rparr>))"

definition st_Complete :: "('x) stream_state_scheme \<Rightarrow> ('x) stream_state_scheme" where
  "st_Complete s =
     emit_ev EventAssistantMessage
       [(''text'', VStr (str_join (st_textParts s) [])), (''stop_reason'', VStr (st_stop s)),
        (''usage'', VMap (NormalizeUsage (VMap (st_usage s))))]
      (emit_ev EventAssistantTurnDone
       [(''turn_id'', VStr (st_turnID s)), (''stop_reason'', VStr (st_stop s)),
        (''usage'', VMap (st_usage s))] s)"

definition st_Fail :: "stream_error \<Rightarrow> ('x) stream_state_scheme \<Rightarrow> ('x) stream_state_scheme" where
  "st_Fail e s =
     emit_ev EventAssistantTurnFailed
       [(''turn_id'', VStr (st_turnID s)), (''error'', VStr (pe_message (stream_perr e)))] s"

text \<open>The events about one tool use.\<close>

definition emit_begin :: "string \<Rightarrow> string \<Rightarrow> ('x) stream_state_scheme \<Rightarrow> ('x) stream_state_scheme" where
  "emit_begin tid name s =
     emit_ev EventToolUseBegin
       [(''turn_id'', VStr (st_turnID s)), (''tool_use_id'', VStr tid), (''name'', VStr name)] s"

definition emit_chunk :: "string \<Rightarrow> string \<Rightarrow> ('x) stream_state_scheme \<Rightarrow> ('x) stream_state_scheme" where
  "emit_chunk tid chunk s =
     emit_ev EventToolUseArgumentDelta
       [(''turn_id'', VStr (st_turnID s)), (''tool_use_id'', VStr tid), (''chunk'', VStr chunk)] s"

definition emit_end :: "string \<Rightarrow> payload \<Rightarrow> ('x) stream_state_scheme \<Rightarrow> ('x) stream_state_scheme" where
  "emit_end tid args s =
     emit_ev EventToolUseEnd
       [(''turn_id'', VStr (st_turnID s)), (''tool_use_id'', VStr tid), (''arguments'', VMap args)] s"

definition emit_use :: "string \<Rightarrow> string \<Rightarrow> payload \<Rightarrow> ('x) stream_state_scheme \<Rightarrow> ('x) stream_state_scheme" where
  "emit_use tid name args s =
     emit_ev EventToolUse [(''id'', VStr tid), (''name'', VStr name), (''arguments'', VMap args)] s"

definition parseArgumentsStrict :: "(string \<Rightarrow> string) \<Rightarrow> string list \<Rightarrow> string + payload" where
  "parseArgumentsStrict je chunks =
     (let joined = str_join chunks []
      in if joined = [] then Inr []
         else case unmarshal_object joined of
                None \<Rightarrow> Inl (''tool arguments are not valid JSON: '' @ je joined)
              | Some None \<Rightarrow> Inl ''tool arguments must be a JSON object''
              | Some (Some m) \<Rightarrow> Inr m)"

text \<open>An operation that may fail returns its error and the state it leaves.\<close>

type_synonym 's stream_op = "'s \<Rightarrow> stream_error option \<times> 's"

definition fails :: "stream_error \<Rightarrow> 's stream_op" where "fails e s = (Some e, s)"
definition goes :: "'s stream_op" where "goes s = (None, s)"

section \<open>Anthropic\<close>

record anthropic_tool =
  at_ID :: string
  at_Name :: string
  at_ArgChunks :: "string list"
  at_Arguments :: payload

record anthropic_state = stream_state +
  an_tools :: "(rat \<times> anthropic_tool) list"
  an_open :: "(rat \<times> string) list"
  an_started :: bool
  an_stopped :: bool
  an_stopSeen :: bool

definition newAnthropicStreamState :: "string \<Rightarrow> anthropic_state" where
  "newAnthropicStreamState fresh =
     stream_state.extend (newStreamState fresh)
       \<lparr>an_tools = [], an_open = [], an_started = False, an_stopped = False, an_stopSeen = False\<rparr>"

definition an_fail :: "string \<Rightarrow> string \<Rightarrow> anthropic_state stream_op" where
  "an_fail reason message = fails (protocolError ''anthropic'' reason message)"

definition anthropicErrorStatus :: "string \<Rightarrow> int" where
  "anthropicErrorStatus t =
     aget 0 [(''invalid_request_error'', 400), (''authentication_error'', 401), (''billing_error'', 402),
       (''permission_error'', 403), (''not_found_error'', 404), (''request_too_large'', 413),
       (''rate_limit_error'', 429), (''api_error'', 500), (''timeout_error'', 504), (''overloaded_error'', 529)] t"

definition anthropicStopReason :: "string \<Rightarrow> string" where
  "anthropicStopReason stop =
     (if stop \<in> {''end_turn'', ''max_tokens'', ''tool_use'', ''stop_sequence'', ''refusal''} then stop else ''other'')"

definition requireActive :: "string \<Rightarrow> anthropic_state \<Rightarrow> stream_error option" where
  "requireActive eventType s =
     (if \<not> an_started s
      then Some (protocolError ''anthropic'' ''invalid_order'' (eventType @ '' arrived before message_start''))
      else if an_stopped s
      then Some (protocolError ''anthropic'' ''invalid_order'' (eventType @ '' arrived after message_stop''))
      else None)"

definition an_mergeUsage :: "payload \<Rightarrow> anthropic_state \<Rightarrow> anthropic_state" where
  "an_mergeUsage usage s =
     (if usage = [] then s
      else let s1 = (if phas usage ''input_tokens''
                     then s\<lparr>st_usage := pset ''input_tokens'' (pget usage ''input_tokens'') (st_usage s)\<rparr> else s)
           in if phas usage ''output_tokens''
              then s1\<lparr>st_usage := pset ''output_tokens'' (pget usage ''output_tokens'') (st_usage s1)\<rparr> else s1)"

definition an_message_start :: "payload \<Rightarrow> anthropic_state stream_op" where
  "an_message_start p s =
     (if an_started s then an_fail ''duplicate_start'' ''duplicate message_start event'' s
      else if an_stopped s then an_fail ''invalid_order'' ''message_start arrived after message_stop'' s
      else goes (an_mergeUsage (asMap (pget (asMap (pget p ''message'')) ''usage'')) (s\<lparr>an_started := True\<rparr>)))"

definition an_block_start :: "payload \<Rightarrow> anthropic_state stream_op" where
  "an_block_start p s =
     (case requireActive ''content_block_start'' s of Some e \<Rightarrow> fails e s
      | None \<Rightarrow>
          let index = asFloat (pget p ''index''); cb = asMap (pget p ''content_block'');
              blockType = stringValue (pget cb ''type'')
          in if ahas (an_open s) index
             then an_fail ''duplicate_block_start'' ''duplicate content_block_start index'' s
             else if blockType = []
             then an_fail ''invalid_frame'' ''content_block_start is missing content_block.type'' s
             else let s1 = s\<lparr>an_open := AList.update index blockType (an_open s)\<rparr>;
                      tid = stringValue (pget cb ''id''); name = stringValue (pget cb ''name'')
                  in if blockType \<noteq> ''tool_use'' then goes s1
                     else if tid = [] \<or> name = []
                     then an_fail ''invalid_tool'' ''tool_use block requires id and name'' s1
                     else goes (emit_begin tid name
                            (s1\<lparr>an_tools := AList.update index
                                 \<lparr>at_ID = tid, at_Name = name, at_ArgChunks = [], at_Arguments = []\<rparr> (an_tools s1)\<rparr>)))"

definition an_block_delta :: "payload \<Rightarrow> anthropic_state stream_op" where
  "an_block_delta p s =
     (case requireActive ''content_block_delta'' s of Some e \<Rightarrow> fails e s
      | None \<Rightarrow>
          let index = asFloat (pget p ''index''); delta = asMap (pget p ''delta'')
          in case map_of (an_open s) index of
               None \<Rightarrow> an_fail ''invalid_order'' ''content_block_delta has no open block'' s
             | Some blockType \<Rightarrow>
                 if pget delta ''type'' = VStr ''text_delta''
                 then if blockType = ''tool_use''
                      then an_fail ''invalid_frame'' ''text delta arrived for tool_use block'' s
                      else goes (emitText (stringValue (pget delta ''text'')) s)
                 else if pget delta ''type'' = VStr ''input_json_delta''
                 then (case map_of (an_tools s) index of
                         None \<Rightarrow> an_fail ''invalid_frame'' ''input_json_delta arrived outside tool_use block'' s
                       | Some tool \<Rightarrow>
                           let chunk = stringValue (pget delta ''partial_json'')
                           in goes (emit_chunk (at_ID tool) chunk
                                (s\<lparr>an_tools := AList.update index
                                     (tool\<lparr>at_ArgChunks := at_ArgChunks tool @ [chunk]\<rparr>) (an_tools s)\<rparr>)))
                 else an_fail ''invalid_frame'' ''content_block_delta has unknown delta.type'' s)"

definition an_block_stop :: "(string \<Rightarrow> string) \<Rightarrow> payload \<Rightarrow> anthropic_state stream_op" where
  "an_block_stop je p s =
     (case requireActive ''content_block_stop'' s of Some e \<Rightarrow> fails e s
      | None \<Rightarrow>
          let index = asFloat (pget p ''index'')
          in if \<not> ahas (an_open s) index
             then an_fail ''invalid_order'' ''content_block_stop has no open block'' s
             else let s1 = s\<lparr>an_open := AList.delete index (an_open s)\<rparr>
                  in case map_of (an_tools s1) index of
                       None \<Rightarrow> goes s1
                     | Some tool \<Rightarrow>
                         (case parseArgumentsStrict je (at_ArgChunks tool) of
                            Inl m \<Rightarrow> an_fail ''invalid_tool_arguments'' m s1
                          | Inr args \<Rightarrow>
                              goes (emit_end (at_ID tool) args
                                (s1\<lparr>an_tools := AList.update index (tool\<lparr>at_Arguments := args\<rparr>) (an_tools s1)\<rparr>))))"

definition an_message_delta :: "payload \<Rightarrow> anthropic_state stream_op" where
  "an_message_delta p s =
     (case requireActive ''message_delta'' s of Some e \<Rightarrow> fails e s
      | None \<Rightarrow>
          let stop = stringValue (pget (asMap (pget p ''delta'')) ''stop_reason'');
              usage = asMap (pget p ''usage'')
          in if stop \<noteq> [] \<and> an_stopSeen s
             then an_fail ''duplicate_terminal'' ''duplicate stop_reason'' s
             else goes (an_mergeUsage usage
                    (if stop \<noteq> [] then s\<lparr>st_stop := anthropicStopReason stop, an_stopSeen := True\<rparr> else s)))"

definition an_message_stop :: "anthropic_state stream_op" where
  "an_message_stop s =
     (if \<not> an_started s then an_fail ''invalid_order'' ''message_stop arrived before message_start'' s
      else if an_stopped s then an_fail ''duplicate_terminal'' ''duplicate message_stop event'' s
      else if an_open s \<noteq> [] then an_fail ''incomplete_block'' ''message_stop arrived with an open content block'' s
      else if \<not> an_stopSeen s then an_fail ''missing_stop_reason'' ''message_stop arrived without a stop_reason'' s
      else goes (s\<lparr>an_stopped := True\<rparr>))"

definition an_event :: "(string \<Rightarrow> string) \<Rightarrow> payload \<Rightarrow> anthropic_state stream_op" where
  "an_event je p s =
     (let eventType = stringValue (pget p ''type'')
      in if eventType = [] then an_fail ''invalid_frame'' ''SSE event is missing type'' s
         else if eventType = ''error''
         then let providerError = asMap (pget p ''error''); errorType = stringValue (pget providerError ''type'')
              in fails (ProviderStreamError ''anthropic'' errorType (stringValue (pget providerError ''message''))
                   (stringValue (pget p ''request_id'')) (anthropicErrorStatus errorType)) s
         else if eventType = ''ping'' then goes s
         else if eventType = ''message_start'' then an_message_start p s
         else if eventType = ''content_block_start'' then an_block_start p s
         else if eventType = ''content_block_delta'' then an_block_delta p s
         else if eventType = ''content_block_stop'' then an_block_stop je p s
         else if eventType = ''message_delta'' then an_message_delta p s
         else if eventType = ''message_stop'' then an_message_stop s
         else goes s)"

definition opt_payload :: "payload option \<Rightarrow> payload" where
  "opt_payload m = (case m of None \<Rightarrow> [] | Some p \<Rightarrow> p)"

definition an_Data :: "(string \<Rightarrow> string) \<Rightarrow> string \<Rightarrow> anthropic_state stream_op" where
  "an_Data je data s =
     (case unmarshal_object data of
        None \<Rightarrow> an_fail ''invalid_json'' (''invalid SSE JSON: '' @ je data) s
      | Some m \<Rightarrow> an_event je (opt_payload m) s)"

text \<open>The tools in the order of their indices.\<close>

definition an_Complete :: "anthropic_state stream_op" where
  "an_Complete s =
     (if \<not> an_started s then an_fail ''missing_start'' ''stream ended before message_start'' s
      else if \<not> an_stopped s then an_fail ''missing_terminal'' ''stream ended before message_stop'' s
      else if \<not> an_stopSeen s then an_fail ''missing_stop_reason'' ''stream ended without a stop_reason'' s
      else goes (fold (\<lambda>(i, tool). emit_use (at_ID tool) (at_Name tool) (at_Arguments tool))
             (sort_key fst (an_tools s)) (st_Complete s)))"

section \<open>OpenAI\<close>

record openai_tool =
  ot_ID :: string
  ot_Name :: string
  ot_ArgChunks :: "string list"
  ot_Arguments :: payload
  ot_EmittedBegin :: bool

record openai_state = stream_state +
  oa_tools :: "(rat \<times> openai_tool) list"
  oa_finishSeen :: bool
  oa_doneSeen :: bool

definition newOpenAIStreamState :: "string \<Rightarrow> openai_state" where
  "newOpenAIStreamState fresh =
     stream_state.extend (newStreamState fresh) \<lparr>oa_tools = [], oa_finishSeen = False, oa_doneSeen = False\<rparr>"

definition oa_fail :: "string \<Rightarrow> string \<Rightarrow> openai_state stream_op" where
  "oa_fail reason message = fails (protocolError ''openai'' reason message)"

definition openAIStopReason :: "string \<Rightarrow> string" where
  "openAIStopReason stop =
     (if stop = ''stop'' then ''end_turn'' else if stop = ''length'' then ''max_tokens''
      else if stop = ''tool_calls'' \<or> stop = ''function_call'' then ''tool_use''
      else if stop = ''content_filter'' then ''refusal'' else ''other'')"

definition zero_openai_tool :: openai_tool where
  "zero_openai_tool =
     \<lparr>ot_ID = [], ot_Name = [], ot_ArgChunks = [], ot_Arguments = [], ot_EmittedBegin = False\<rparr>"

text \<open>One element of \<^verbatim>\<open>delta.tool_calls\<close>; the tool is reached through its pointer, so every change
  is a change of the map.\<close>

definition oa_call :: "payload \<Rightarrow> openai_state stream_op" where
  "oa_call call s =
     (let index = asFloat (pget call ''index'');
          t0 = aget zero_openai_tool (oa_tools s) index;
          fn = asMap (pget call ''function'');
          cid = stringValue (pget call ''id''); cname = stringValue (pget fn ''name'');
          t1 = (if cid \<noteq> [] then t0\<lparr>ot_ID := cid\<rparr> else t0);
          t2 = (if cname \<noteq> [] then t1\<lparr>ot_Name := cname\<rparr> else t1);
          begins = (ot_ID t2 \<noteq> [] \<and> ot_Name t2 \<noteq> [] \<and> \<not> ot_EmittedBegin t2);
          t3 = (if begins then t2\<lparr>ot_EmittedBegin := True\<rparr> else t2);
          s1 = s\<lparr>oa_tools := AList.update index t3 (oa_tools s)\<rparr>;
          s2 = (if begins then emit_begin (ot_ID t3) (ot_Name t3) s1 else s1);
          chunk = stringValue (pget fn ''arguments'')
      in if chunk = [] then goes s2
         else if \<not> ot_EmittedBegin t3
         then oa_fail ''invalid_tool'' ''tool arguments arrived before id and name'' s2
         else goes (emit_chunk (ot_ID t3) chunk
                (s2\<lparr>oa_tools := AList.update index (t3\<lparr>ot_ArgChunks := ot_ArgChunks t3 @ [chunk]\<rparr>) (oa_tools s2)\<rparr>)))"

fun oa_calls :: "val list \<Rightarrow> openai_state stream_op" where
  "oa_calls [] s = (None, s)"
| "oa_calls (raw # rest) s =
     (case oa_call (asMap raw) s of (Some e, s') \<Rightarrow> (Some e, s') | (None, s') \<Rightarrow> oa_calls rest s')"

definition oa_handleDelta :: "payload \<Rightarrow> openai_state stream_op" where
  "oa_handleDelta delta s =
     oa_calls (asSlice (pget delta ''tool_calls'')) (emitText (stringValue (pget delta ''content'')) s)"

text \<open>The loop over the tools when the turn finishes, in the map's iteration order.\<close>

fun oa_finish_tools :: "(string \<Rightarrow> string) \<Rightarrow> (rat \<times> openai_tool) list \<Rightarrow> openai_state stream_op" where
  "oa_finish_tools je [] s = (None, s)"
| "oa_finish_tools je ((i, tool) # rest) s =
     (if \<not> ot_EmittedBegin tool
      then oa_fail ''invalid_tool'' ''tool call completed without id and name'' s
      else case parseArgumentsStrict je (ot_ArgChunks tool) of
             Inl m \<Rightarrow> oa_fail ''invalid_tool_arguments'' m s
           | Inr args \<Rightarrow>
               oa_finish_tools je rest
                 (emit_end (ot_ID tool) args
                   (s\<lparr>oa_tools := AList.update i (tool\<lparr>ot_Arguments := args\<rparr>) (oa_tools s)\<rparr>)))"

definition oa_finish :: "(string \<Rightarrow> string) \<Rightarrow> string \<Rightarrow> openai_state stream_op" where
  "oa_finish je finish s =
     (if finish = [] then goes s
      else if oa_finishSeen s then oa_fail ''duplicate_terminal'' ''duplicate finish_reason'' s
      else let s1 = s\<lparr>oa_finishSeen := True, st_stop := openAIStopReason finish\<rparr>
           in oa_finish_tools je (oa_tools s1) s1)"

definition oa_choice :: "(string \<Rightarrow> string) \<Rightarrow> payload \<Rightarrow> openai_state stream_op" where
  "oa_choice je choice s =
     (let delta = asMap (pget choice ''delta'');
          finish = stringValue (pget choice ''finish_reason'')
      in if delta = [] then oa_finish je finish s
         else if oa_finishSeen s then oa_fail ''invalid_order'' ''delta arrived after finish_reason'' s
         else case oa_handleDelta delta s of
                (Some e, s1) \<Rightarrow> (Some e, s1)
              | (None, s1) \<Rightarrow> oa_finish je finish s1)"

definition oa_usage :: "payload \<Rightarrow> openai_state \<Rightarrow> openai_state" where
  "oa_usage usage s =
     (if usage = [] then s
      else s\<lparr>st_usage := pset ''output_tokens'' (pget usage ''completion_tokens'')
               (pset ''input_tokens'' (pget usage ''prompt_tokens'') (st_usage s))\<rparr>)"

definition oa_Data :: "(string \<Rightarrow> string) \<Rightarrow> string \<Rightarrow> openai_state stream_op" where
  "oa_Data je data s =
     (if data = ''[DONE]''
      then if oa_doneSeen s then oa_fail ''duplicate_terminal'' ''duplicate [DONE] sentinel'' s
           else goes (s\<lparr>oa_doneSeen := True\<rparr>)
      else if oa_doneSeen s then oa_fail ''invalid_order'' ''data arrived after [DONE]'' s
      else case unmarshal_object data of
             None \<Rightarrow> oa_fail ''invalid_json'' (''invalid SSE JSON: '' @ je data) s
           | Some m \<Rightarrow>
               let p = opt_payload m; rawError = asMap (pget p ''error'');
                   choice = firstMap (pget p ''choices'')
               in if rawError \<noteq> []
                  then fails (ProviderStreamError ''openai''
                         (or_else (stringValue (pget rawError ''type'')) (stringValue (pget rawError ''code'')))
                         (stringValue (pget rawError ''message'')) (stringValue (pget p ''request_id''))
                         (asInt (pget rawError ''status''))) s
                  else let s1 = oa_usage (asMap (pget p ''usage'')) s
                       in if choice = [] then goes s1 else oa_choice je choice s1)"

definition oa_Complete :: "openai_state stream_op" where
  "oa_Complete s =
     (if \<not> oa_doneSeen s then oa_fail ''missing_terminal'' ''stream ended before [DONE]'' s
      else if \<not> oa_finishSeen s then oa_fail ''missing_finish_reason'' ''stream ended without finish_reason'' s
      else goes (fold (\<lambda>(i, tool). emit_use (ot_ID tool) (ot_Name tool) (ot_Arguments tool))
             (sort_key fst (oa_tools s)) (st_Complete s)))"

section \<open>Gemini\<close>

record gemini_tool =
  gt_ID :: string
  gt_Name :: string
  gt_Arguments :: payload

record gemini_state = stream_state +
  ge_tools :: "gemini_tool list"
  ge_finishSeen :: bool

definition newGeminiStreamState :: "string \<Rightarrow> gemini_state" where
  "newGeminiStreamState fresh =
     stream_state.extend (newStreamState fresh) \<lparr>ge_tools = [], ge_finishSeen = False\<rparr>"

definition ge_fail :: "string \<Rightarrow> string \<Rightarrow> gemini_state stream_op" where
  "ge_fail reason message = fails (protocolError ''gemini'' reason message)"

definition geminiStopReason :: "string \<Rightarrow> string" where
  "geminiStopReason stop =
     (if stop = ''STOP'' then ''end_turn'' else if stop = ''MAX_TOKENS'' then ''max_tokens''
      else if stop = ''SAFETY'' \<or> stop = ''RECITATION'' then ''refusal'' else ''other'')"

definition gemini_id :: "nat \<Rightarrow> string" where
  "gemini_id n = ''gemini_fc_'' @ show_nat n"

definition ge_part :: "payload \<Rightarrow> gemini_state stream_op" where
  "ge_part part s =
     (let text = stringValue (pget part ''text''); functionCall = asMap (pget part ''functionCall'');
          s1 = (if text \<noteq> [] then emitText text s else s);
          name = stringValue (pget functionCall ''name'');
          tid = gemini_id (length (ge_tools s1)); args = asMap (pget functionCall ''args'')
      in if functionCall = [] then goes s1
         else if name = [] then ge_fail ''invalid_tool'' ''functionCall requires name'' s1
         else goes (emit_end tid args (emit_begin tid name
                (s1\<lparr>ge_tools := ge_tools s1 @ [\<lparr>gt_ID = tid, gt_Name = name, gt_Arguments = args\<rparr>]\<rparr>))))"

fun ge_parts :: "val list \<Rightarrow> gemini_state stream_op" where
  "ge_parts [] s = (None, s)"
| "ge_parts (raw # rest) s =
     (case ge_part (asMap raw) s of (Some e, s') \<Rightarrow> (Some e, s') | (None, s') \<Rightarrow> ge_parts rest s')"

definition ge_usage :: "payload \<Rightarrow> gemini_state \<Rightarrow> gemini_state" where
  "ge_usage usage s =
     (if usage = [] then s
      else s\<lparr>st_usage := pset ''output_tokens'' (pget usage ''candidatesTokenCount'')
               (pset ''input_tokens'' (pget usage ''promptTokenCount'') (st_usage s))\<rparr>)"

definition ge_Data :: "(string \<Rightarrow> string) \<Rightarrow> string \<Rightarrow> gemini_state stream_op" where
  "ge_Data je data s =
     (case unmarshal_object data of
        None \<Rightarrow> ge_fail ''invalid_json'' (''invalid SSE JSON: '' @ je data) s
      | Some m \<Rightarrow>
          let p = opt_payload m; rawError = asMap (pget p ''error'');
              candidate = firstMap (pget p ''candidates'');
              finish = stringValue (pget candidate ''finishReason'')
          in if rawError \<noteq> []
             then fails (ProviderStreamError ''gemini''
                    (or_else (stringValue (pget rawError ''status'')) (stringValue (pget rawError ''type'')))
                    (stringValue (pget rawError ''message'')) (stringValue (pget p ''request_id''))
                    (asInt (pget rawError ''code''))) s
             else if ge_finishSeen s then ge_fail ''invalid_order'' ''data arrived after finishReason'' s
             else case ge_parts (asSlice (pget (asMap (pget candidate ''content'')) ''parts'')) s of
                    (Some e, s1) \<Rightarrow> (Some e, s1)
                  | (None, s1) \<Rightarrow>
                      goes (ge_usage (asMap (pget p ''usageMetadata''))
                        (if finish \<noteq> [] then s1\<lparr>ge_finishSeen := True, st_stop := geminiStopReason finish\<rparr> else s1)))"

definition ge_Complete :: "gemini_state stream_op" where
  "ge_Complete s =
     (if \<not> ge_finishSeen s then ge_fail ''missing_terminal'' ''stream ended before finishReason'' s
      else goes (fold (\<lambda>tool. emit_use (gt_ID tool) (gt_Name tool) (gt_Arguments tool)) (ge_tools s) (st_Complete s)))"

section \<open>The event stream\<close>

record 's sse_handler =
  hs_Start :: "'s \<Rightarrow> 's"
  hs_Data :: "string \<Rightarrow> 's stream_op"
  hs_Complete :: "'s stream_op"
  hs_Fail :: "stream_error \<Rightarrow> 's \<Rightarrow> 's"

definition data_line :: "string \<Rightarrow> string" where
  "data_line line =
     (let data = trim_prefix line ''data:'' in if has_prefix data '' '' then drop 1 data else data)"

definition dispatchSSEBlock :: "string list \<Rightarrow> 's sse_handler \<Rightarrow> 's stream_op" where
  "dispatchSSEBlock ls h s =
     (let dataLines = map data_line (filter (\<lambda>l. has_prefix l ''data:'') ls);
          data = str_join dataLines [CHR 0x0A]
      in if dataLines = [] then (None, s) else if data = [] then (None, s) else hs_Data h data s)"

text \<open>The loop over the lines; it returns the block that is still open.\<close>

fun sse_loop :: "'s sse_handler \<Rightarrow> string list \<Rightarrow> string list \<Rightarrow> 's \<Rightarrow> (stream_error option \<times> string list) \<times> 's" where
  "sse_loop h [] block s = ((None, block), s)"
| "sse_loop h (raw # ls) block s =
     (let line = trim_right raw (CHR 0x0D)
      in if line = []
         then (case dispatchSSEBlock block h s of
                 (Some e, s') \<Rightarrow> ((Some e, []), s')
               | (None, s') \<Rightarrow> sse_loop h ls [] s')
         else sse_loop h ls (block @ [line]) s)"

record http_response =
  hr_status :: int
  hr_body :: string
  hr_read_err :: "perr option"

record http_request =
  hq_url :: string
  hq_headers :: "(string \<times> string) list"
  hq_body :: string

text \<open>The HTTP client, the URL check of \<^verbatim>\<open>NewRequest\<close>, fresh identifiers, the words of JSON errors
  (of a text; of a body that may also fail to be read).\<close>

record 'w http_env =
  hx_do :: "http_request \<Rightarrow> 'w \<Rightarrow> (perr + http_response) \<times> 'w"
  hx_url_error :: "string \<Rightarrow> perr option"
  hx_fresh :: "'w \<Rightarrow> string \<times> 'w"
  hx_json_error :: "string \<Rightarrow> string"
  hx_body_error :: "http_response \<Rightarrow> string"

definition plain_error :: "string \<Rightarrow> string \<Rightarrow> perr" where
  "plain_error t m =
     \<lparr>pe_status = None, pe_retryable = None, pe_net = None, pe_class = None, pe_type = t, pe_message = m\<rparr>"

definition marshal_error :: "string \<Rightarrow> perr" where
  "marshal_error m = plain_error ''*fmt.wrapError'' m"

definition parseJSONBody :: "'w http_env \<Rightarrow> http_response \<Rightarrow> stream_error + payload" where
  "parseJSONBody hx r =
     (case json_decode_first float_mode (hr_body r) of
        None \<Rightarrow> Inl (ProviderErr (''invalid JSON response: '' @ hx_body_error hx r))
      | Some (v, rest) \<Rightarrow>
          (case as_object v of
             None \<Rightarrow> Inl (ProviderErr (''invalid JSON response: '' @ hx_body_error hx r))
           | Some m \<Rightarrow> Inr (opt_payload m)))"

definition stream_limit :: nat where "stream_limit = 1024 * 1024"

text \<open>The response to the handler: what \<^verbatim>\<open>streamSSE\<close> does once it has an answer, up to \<^verbatim>\<open>Fail\<close>.\<close>

definition consume :: "'w http_env \<Rightarrow> http_response \<Rightarrow> 's sse_handler \<Rightarrow> 's stream_op" where
  "consume hx r h s =
     (if hr_status r \<noteq> 200
      then (let parsed = (case parseJSONBody hx r of
                   Inl e \<Rightarrow> [(''raw'', VStr (pe_message (stream_perr e)))] | Inr p \<Rightarrow> p)
            in fails (HTTPError (hr_status r) (VMap parsed)) s)
      else let (ls, long) = scan_lines stream_limit (hr_body r)
           in case sse_loop h ls [] s of
                ((Some e, _), s1) \<Rightarrow> (Some e, s1)
              | ((None, block), s1) \<Rightarrow>
                  if long then fails (TransportError (plain_error ''*errors.errorString'' too_long)) s1
                  else case hr_read_err r of
                         Some e \<Rightarrow> fails (TransportError e) s1
                       | None \<Rightarrow>
                           (case (if block \<noteq> [] then dispatchSSEBlock block h s1 else (None, s1)) of
                              (Some e, s2) \<Rightarrow> (Some e, s2)
                            | (None, s2) \<Rightarrow> hs_Complete h s2))"

definition streamSSE ::
    "'w http_env \<Rightarrow> string \<Rightarrow> (string \<times> string) list \<Rightarrow> payload \<Rightarrow> 's sse_handler \<Rightarrow> 's \<Rightarrow> 'w \<Rightarrow>
     (stream_error option \<times> 's) \<times> 'w" where
  "streamSSE hx endpoint headers body h s w =
     (case json_marshal True (VMap body) of
        Inl m \<Rightarrow> ((Some (TransportError (marshal_error m)), s), w)
      | Inr text \<Rightarrow>
          (case hx_url_error hx endpoint of
             Some e \<Rightarrow> ((Some (TransportError e), s), w)
           | None \<Rightarrow>
               let s1 = hs_Start h s;
                   (answer, w1) = hx_do hx \<lparr>hq_url = endpoint, hq_headers = headers, hq_body = text\<rparr> w;
                   (err, s2) = (case answer of
                        Inl e \<Rightarrow> (Some (TransportError e), s1) | Inr r \<Rightarrow> consume hx r h s1)
               in case err of
                    Some e \<Rightarrow> ((Some e, hs_Fail h e s2), w1)
                  | None \<Rightarrow> ((None, s2), w1)))"

section \<open>The providers\<close>

definition anthropic_handler :: "(string \<Rightarrow> string) \<Rightarrow> anthropic_state sse_handler" where
  "anthropic_handler je = \<lparr>hs_Start = st_Start, hs_Data = an_Data je, hs_Complete = an_Complete, hs_Fail = st_Fail\<rparr>"

definition openai_handler :: "(string \<Rightarrow> string) \<Rightarrow> openai_state sse_handler" where
  "openai_handler je = \<lparr>hs_Start = st_Start, hs_Data = oa_Data je, hs_Complete = oa_Complete, hs_Fail = st_Fail\<rparr>"

definition gemini_handler :: "(string \<Rightarrow> string) \<Rightarrow> gemini_state sse_handler" where
  "gemini_handler je = \<lparr>hs_Start = st_Start, hs_Data = ge_Data je, hs_Complete = ge_Complete, hs_Fail = st_Fail\<rparr>"

definition copyMap :: "payload \<Rightarrow> payload" where
  "copyMap input = map (\<lambda>(k, v). (k, v)) input"

text \<open>What the loop gets from a stream provider: the events it emitted, and its error.\<close>

definition emitted ::
    "(stream_error option \<times> ('x) stream_state_scheme) \<times> 'w \<Rightarrow> (event_args list \<times> perr option) \<times> 'w" where
  "emitted r = (let ((e, s), w) = r in ((st_out s, map_option stream_perr e), w))"

record provider_config =
  pc_APIKey :: string
  pc_APIVersion :: string
  pc_Endpoint :: string
  pc_NoAuth :: bool

definition AnthropicStream_Call ::
    "'w http_env \<Rightarrow> provider_config \<Rightarrow> payload \<Rightarrow> 'w \<Rightarrow> (event_args list \<times> perr option) \<times> 'w" where
  "AnthropicStream_Call hx p request w =
     (let body = pset ''stream'' (VBool True) (copyMap request); (fresh, w1) = hx_fresh hx w
      in emitted (streamSSE hx (or_else (pc_Endpoint p) ''https://api.anthropic.com/v1/messages'')
           [(''x-api-key'', pc_APIKey p), (''anthropic-version'', or_else (pc_APIVersion p) ''2023-06-01''),
            (''content-type'', ''application/json''), (''accept'', ''text/event-stream'')]
           body (anthropic_handler (hx_json_error hx)) (newAnthropicStreamState fresh) w1))"

definition openai_headers :: "provider_config \<Rightarrow> string \<Rightarrow> (string \<times> string) list" where
  "openai_headers p accept =
     [(''content-type'', ''application/json''), (''accept'', accept)]
     @ (if \<not> pc_NoAuth p then [(''authorization'', ''Bearer '' @ pc_APIKey p)] else [])"

definition OpenAIEndpoint :: string where
  "OpenAIEndpoint = ''https://api.openai.com/v1/chat/completions''"

definition OpenAIStream_Call ::
    "'w http_env \<Rightarrow> provider_config \<Rightarrow> payload \<Rightarrow> 'w \<Rightarrow> (event_args list \<times> perr option) \<times> 'w" where
  "OpenAIStream_Call hx p request w =
     (let body = pset ''stream_options'' (VMap [(''include_usage'', VBool True)])
            (pset ''stream'' (VBool True) (copyMap request));
          (fresh, w1) = hx_fresh hx w
      in emitted (streamSSE hx (or_else (pc_Endpoint p) OpenAIEndpoint) (openai_headers p ''text/event-stream'')
           body (openai_handler (hx_json_error hx)) (newOpenAIStreamState fresh) w1))"

text \<open>A trailing slash run is cut; a base that is empty then is the default.\<close>

definition ollamaChatEndpoint :: "string \<Rightarrow> string" where
  "ollamaChatEndpoint baseURL =
     (let base = or_else (trim_right baseURL (CHR ''/'')) ''http://localhost:11434/v1''
      in if has_suffix base ''/v1'' then base @ ''/chat/completions'' else base @ ''/v1/chat/completions'')"

definition ollama_config :: "string \<Rightarrow> provider_config" where
  "ollama_config baseURL =
     \<lparr>pc_APIKey = [], pc_APIVersion = [], pc_Endpoint = ollamaChatEndpoint baseURL, pc_NoAuth = True\<rparr>"

definition OllamaStream_Call ::
    "'w http_env \<Rightarrow> string \<Rightarrow> payload \<Rightarrow> 'w \<Rightarrow> (event_args list \<times> perr option) \<times> 'w" where
  "OllamaStream_Call hx baseURL = OpenAIStream_Call hx (ollama_config baseURL)"

definition GeminiEndpointBase :: string where
  "GeminiEndpointBase = ''https://generativelanguage.googleapis.com/v1beta/models''"

definition gemini_headers :: "provider_config \<Rightarrow> string \<Rightarrow> (string \<times> string) list" where
  "gemini_headers p accept =
     [(''x-goog-api-key'', pc_APIKey p), (''content-type'', ''application/json''), (''accept'', accept)]"

definition no_model :: stream_error where
  "no_model = ProviderErr (''Gemini request must include '' @ [CHR 0x27] @ ''model'' @ [CHR 0x27])"

definition GeminiStream_Call ::
    "'w http_env \<Rightarrow> provider_config \<Rightarrow> payload \<Rightarrow> 'w \<Rightarrow> (event_args list \<times> perr option) \<times> 'w" where
  "GeminiStream_Call hx p request w =
     (let model = stringValue (pget request ''model'')
      in if model = [] then (([], Some (stream_perr no_model)), w)
         else let body = pdel ''model'' (copyMap request); (fresh, w1) = hx_fresh hx w
              in emitted (streamSSE hx
                   (or_else (pc_Endpoint p) GeminiEndpointBase @ ''/'' @ model @ '':streamGenerateContent?alt=sse'')
                   (gemini_headers p ''text/event-stream'') body (gemini_handler (hx_json_error hx))
                   (newGeminiStreamState fresh) w1))"

section \<open>The plain providers\<close>

definition postJSON ::
    "'w http_env \<Rightarrow> string \<Rightarrow> (string \<times> string) list \<Rightarrow> payload \<Rightarrow> 'w \<Rightarrow> (perr + payload) \<times> 'w" where
  "postJSON hx endpoint headers body w =
     (case json_marshal True (VMap body) of
        Inl m \<Rightarrow> (Inl (marshal_error m), w)
      | Inr text \<Rightarrow>
          (case hx_url_error hx endpoint of
             Some e \<Rightarrow> (Inl e, w)
           | None \<Rightarrow>
               (case hx_do hx \<lparr>hq_url = endpoint, hq_headers = headers, hq_body = text\<rparr> w of
                  (Inl e, w1) \<Rightarrow> (Inl e, w1)
                | (Inr r, w1) \<Rightarrow>
                    (case parseJSONBody hx r of
                       Inl e \<Rightarrow> (Inl (stream_perr e), w1)
                     | Inr parsed \<Rightarrow>
                         if hr_status r \<noteq> 200 then (Inl (stream_perr (HTTPError (hr_status r) (VMap parsed))), w1)
                         else (Inr parsed, w1)))))"

definition AnthropicProvider_Call ::
    "'w http_env \<Rightarrow> provider_config \<Rightarrow> payload \<Rightarrow> 'w \<Rightarrow> (perr + payload) \<times> 'w" where
  "AnthropicProvider_Call hx p request w =
     postJSON hx (or_else (pc_Endpoint p) ''https://api.anthropic.com/v1/messages'')
       [(''x-api-key'', pc_APIKey p), (''anthropic-version'', or_else (pc_APIVersion p) ''2023-06-01''),
        (''content-type'', ''application/json''), (''accept'', ''application/json'')] request w"

definition OpenAIProvider_Call ::
    "'w http_env \<Rightarrow> provider_config \<Rightarrow> payload \<Rightarrow> 'w \<Rightarrow> (perr + payload) \<times> 'w" where
  "OpenAIProvider_Call hx p request w =
     postJSON hx (or_else (pc_Endpoint p) OpenAIEndpoint) (openai_headers p ''application/json'') request w"

definition OllamaProvider_Call ::
    "'w http_env \<Rightarrow> string \<Rightarrow> payload \<Rightarrow> 'w \<Rightarrow> (perr + payload) \<times> 'w" where
  "OllamaProvider_Call hx baseURL = OpenAIProvider_Call hx (ollama_config baseURL)"

definition GeminiProvider_Call ::
    "'w http_env \<Rightarrow> provider_config \<Rightarrow> payload \<Rightarrow> 'w \<Rightarrow> (perr + payload) \<times> 'w" where
  "GeminiProvider_Call hx p request w =
     (let model = stringValue (pget request ''model'')
      in if model = [] then (Inl (stream_perr no_model), w)
         else postJSON hx (or_else (pc_Endpoint p) GeminiEndpointBase @ ''/'' @ model @ '':generateContent'')
                (gemini_headers p ''application/json'') (pdel ''model'' (copyMap request)) w)"

text \<open>The name of a provider: what its \<^verbatim>\<open>Kind\<close> says, else by its type.\<close>

datatype provider_type = TypeAnthropic | TypeOpenAI | TypeGemini | TypeOther

definition providerName :: "(string option \<times> provider_type) option \<Rightarrow> string" where
  "providerName provider =
     (case provider of
        None \<Rightarrow> ''unknown''
      | Some (kind, t) \<Rightarrow>
          if (case kind of Some k \<Rightarrow> k \<noteq> [] | None \<Rightarrow> False) then the kind
          else (case t of TypeAnthropic \<Rightarrow> ''anthropic'' | TypeOpenAI \<Rightarrow> ''openai''
                | TypeGemini \<Rightarrow> ''gemini'' | TypeOther \<Rightarrow> ''unknown''))"

end
