(* ===== verification/StreamProps.thy ===== *)
theory StreamProps
  imports Streams StepProps
begin

text \<open>
  Nothing durable leaves a stream before it is valid.  The contract of a handler is the locale
  \<open>sse_contract\<close>: its data steps emit transient events only, its completion emits the assistant
  message and the tool uses or nothing, its failure one failure event.  The three handlers meet
  it.  The Anthropic handler accepts a stream only along the lifecycle of a message.
\<close>

section \<open>Outcomes of a stream\<close>

definition transient :: "event_args \<Rightarrow> bool" where
  "transient e \<longleftrightarrow>
     ea_type e \<in> {EventAssistantTurnStarted, EventAssistantTextDelta, EventToolUseBegin,
                   EventToolUseArgumentDelta, EventToolUseEnd}"

definition durable_batch :: "event_args list \<Rightarrow> bool" where
  "durable_batch es \<longleftrightarrow>
     (\<exists>d m us. es = d # m # us \<and> ea_type d = EventAssistantTurnDone \<and> ea_type m = EventAssistantMessage \<and>
        ea_str m ''stop_reason'' \<noteq> [] \<and>
        (\<forall>u \<in> set us. ea_type u = EventToolUse \<and> ea_str u ''id'' \<noteq> [] \<and> ea_str u ''name'' \<noteq> []))"

definition failure_of :: "string \<Rightarrow> event_args \<Rightarrow> bool" where
  "failure_of m e \<longleftrightarrow> ea_type e = EventAssistantTurnFailed \<and> ea_str e ''error'' = m"

text \<open>What a stream call returns: the events and the error.\<close>

definition stream_outcome :: "event_args list \<Rightarrow> perr option \<Rightarrow> bool" where
  "stream_outcome events err \<longleftrightarrow>
     (case err of
        None \<Rightarrow> (\<exists>ts fin. events = ts @ fin \<and> list_all transient ts \<and> durable_batch fin)
      | Some e \<Rightarrow> events = [] \<or>
          (\<exists>ts f. events = ts @ [f] \<and> list_all transient ts \<and> failure_of (pe_message e) f))"

definition grows :: "('s \<Rightarrow> event_args list) \<Rightarrow> 's \<Rightarrow> 's \<Rightarrow> bool" where
  "grows out s s' \<longleftrightarrow> (\<exists>es. out s' = out s @ es \<and> list_all transient es)"

lemma grows_refl [simp, intro]: "grows out s s"
  by (simp add: grows_def)

lemma grows_trans: "grows out s t \<Longrightarrow> grows out t u \<Longrightarrow> grows out s u"
  by (auto simp: grows_def)

section \<open>The contract of a handler\<close>

locale sse_contract =
  fixes h :: "'s sse_handler" and out :: "'s \<Rightarrow> event_args list" and good :: "'s \<Rightarrow> bool"
  assumes start: "good s \<Longrightarrow> good (hs_Start h s) \<and> grows out s (hs_Start h s)"
    and data: "good s \<Longrightarrow> hs_Data h d s = (r, s') \<Longrightarrow> (r = None \<longrightarrow> good s') \<and> grows out s s'"
    and complete_error: "hs_Complete h s = (Some e, s') \<Longrightarrow> s' = s"
    and complete_ok: "good s \<Longrightarrow> hs_Complete h s = (None, s') \<Longrightarrow> \<exists>fin. out s' = out s @ fin \<and> durable_batch fin"
    and fail: "\<exists>f. out (hs_Fail h e s) = out s @ [f] \<and> failure_of (pe_message (stream_perr e)) f"
begin

lemma dispatch_grows:
  "good s \<Longrightarrow> dispatchSSEBlock b h s = (e, s') \<Longrightarrow> (e = None \<longrightarrow> good s') \<and> grows out s s'"
  by (auto simp: dispatchSSEBlock_def Let_def split: if_splits dest: data)

lemma loop_grows:
  "good s \<Longrightarrow> sse_loop h ls b s = (r, s') \<Longrightarrow> (fst r = None \<longrightarrow> good s') \<and> grows out s s'"
proof (induction ls arbitrary: b s)
  case (Cons raw ls)
  show ?case
  proof (cases "trim_right raw (CHR 0x0D) = []")
    case False
    with Cons show ?thesis by (simp add: Let_def)
  next
    case True
    obtain e s1 where d: "dispatchSSEBlock b h s = (e, s1)" by (cases "dispatchSSEBlock b h s")
    note g = dispatch_grows [OF Cons.prems(1) d]
    show ?thesis
    proof (cases e)
      case None
      with Cons.prems(2) True d have "sse_loop h ls [] s1 = (r, s')" by simp
      with Cons.IH [of s1 "[]"] g None show ?thesis by (auto intro: grows_trans)
    next
      case (Some x)
      with Cons.prems(2) True d g show ?thesis by auto
    qed
  qed
qed auto

lemma consume_outcome:
  assumes "good s" and "consume hx r h s = (e, s')"
  shows "(e \<noteq> None \<longrightarrow> grows out s s') \<and>
    (e = None \<longrightarrow> (\<exists>s2. good s2 \<and> grows out s s2 \<and> hs_Complete h s2 = (None, s')))"
proof (cases "hr_status r = 200")
  case False
  with assms(2) show ?thesis by (auto simp: consume_def fails_def Let_def)
next
  case True
  obtain ls long where sc: "scan_lines stream_limit (hr_body r) = (ls, long)"
    by (cases "scan_lines stream_limit (hr_body r)")
  obtain e1 block s1 where l: "sse_loop h ls [] s = ((e1, block), s1)"
    by (cases "sse_loop h ls [] s") auto
  note l1 = loop_grows [OF assms(1) l]
  obtain e2 s2 where d: "(if block \<noteq> [] then dispatchSSEBlock block h s1 else (None, s1)) = (e2, s2)"
    by (cases "if block \<noteq> [] then dispatchSSEBlock block h s1 else (None, s1)")
  have l2: "(e2 = None \<longrightarrow> good s2) \<and> grows out s s2" if "e1 = None"
    using l1 d dispatch_grows [of s1 block e2 s2] that by (auto split: if_splits intro: grows_trans)
  consider x where "e = Some x" "s' = s1" | "e1 = None" "e = e2" "s' = s2" "e2 \<noteq> None"
    | "e1 = None" "e2 = None" "hs_Complete h s2 = (e, s')"
    using assms(2) True sc l d
    by (auto simp: consume_def fails_def split: option.splits if_splits prod.splits)
  then show ?thesis
  proof cases
    case 1
    with l1 show ?thesis by simp
  next
    case 2
    with l2 show ?thesis by auto
  next
    case 3
    show ?thesis
    proof (cases e)
      case None
      with 3 l2 show ?thesis by auto
    next
      case (Some x)
      with 3 l2 complete_error [of s2 x s'] show ?thesis by simp
    qed
  qed
qed

text \<open>A call that succeeds ends with a completion in a good state.\<close>

lemma streamSSE_completed:
  assumes "good s" and "streamSSE hx endpoint headers body h s w = ((None, s'), w')"
  shows "\<exists>s2. good s2 \<and> grows out s s2 \<and> hs_Complete h s2 = (None, s')"
proof -
  have st: "good (hs_Start h s)" "grows out s (hs_Start h s)" using start [OF assms(1)] by auto
  obtain r where "consume hx r h (hs_Start h s) = (None, s')"
    using assms(2) by (auto simp: streamSSE_def Let_def split: sum.splits option.splits prod.splits)
  from consume_outcome [OF st(1) this] st(2) show ?thesis by (auto intro: grows_trans)
qed

lemma streamSSE_outcome:
  assumes "good s" and "out s = []" and "streamSSE hx endpoint headers body h s w = ((e, s'), w')"
  shows "stream_outcome (out s') (map_option stream_perr e)"
proof -
  have failed: "stream_outcome (out (hs_Fail h x t)) (Some (stream_perr x))" if "grows out s t" for x t
    using that fail [of x t] assms(2) by (auto simp: stream_outcome_def grows_def)
  have st: "good (hs_Start h s)" "grows out s (hs_Start h s)" using start [OF assms(1)] by auto
  consider x where "e = Some x" "s' = s"
    | x where "e = Some x" "s' = hs_Fail h x (hs_Start h s)"
    | r x t where "consume hx r h (hs_Start h s) = (Some x, t)" "e = Some x" "s' = hs_Fail h x t"
    | "e = None"
    using assms(3)
    by (auto simp: streamSSE_def Let_def split: sum.splits option.splits prod.splits)
  then show ?thesis
  proof cases
    case 1
    with assms(2) show ?thesis by (simp add: stream_outcome_def)
  next
    case 2
    with failed [OF st(2)] show ?thesis by simp
  next
    case 3
    with consume_outcome [OF st(1) 3(1)] st(2) have "grows out s t" by (auto intro: grows_trans)
    with failed 3 show ?thesis by simp
  next
    case 4
    with assms(3) have "streamSSE hx endpoint headers body h s w = ((None, s'), w')" by simp
    from streamSSE_completed [OF assms(1) this] obtain s2 where
      "good s2" "grows out s s2" "hs_Complete h s2 = (None, s')" by blast
    then obtain es fin where "out s2 = out s @ es" "list_all transient es" "out s' = out s2 @ fin" "durable_batch fin"
      using complete_ok unfolding grows_def by blast
    then have "\<exists>ts fin. out s' = ts @ fin \<and> list_all transient ts \<and> durable_batch fin"
      using assms(2) by auto
    then show ?thesis by (simp add: 4 stream_outcome_def)
  qed
qed

end

section \<open>The steps the handlers share\<close>

lemma st_out_simps [simp]:
  "st_out (emit_ev t p s) = st_out s @ [\<lparr>ea_type = t, ea_payload = p\<rparr>]"
  by (simp add: emit_ev_def)

lemma emit_ev_sel [simp]:
  "st_stop (emit_ev t p s) = st_stop s" "st_turnID (emit_ev t p s) = st_turnID s"
  "stream_state.more (emit_ev t p s) = stream_state.more s"
  by (simp_all add: emit_ev_def)

lemma emits_grow:
  "grows st_out s (st_Start s)" "grows st_out s (emitText c s)" "grows st_out s (emit_begin i n s)"
  "grows st_out s (emit_chunk i c s)" "grows st_out s (emit_end i a s)"
  by (auto simp: grows_def st_Start_def emitText_def emit_begin_def emit_chunk_def emit_end_def transient_def)

lemma emits_stop [simp]:
  "st_stop (st_Start s) = st_stop s" "st_stop (emitText c s) = st_stop s" "st_stop (emit_begin i n s) = st_stop s"
  "st_stop (emit_chunk i c s) = st_stop s" "st_stop (emit_end i a s) = st_stop s"
  by (simp_all add: st_Start_def emitText_def emit_begin_def emit_chunk_def emit_end_def)

lemma fail_emits: "\<exists>f. st_out (st_Fail e s) = st_out s @ [f] \<and> failure_of (pe_message (stream_perr e)) f"
  by (simp add: st_Fail_def failure_of_def)

definition use_args :: "string \<Rightarrow> string \<Rightarrow> payload \<Rightarrow> event_args" where
  "use_args i n a = \<lparr>ea_type = EventToolUse, ea_payload = [(''id'', VStr i), (''name'', VStr n), (''arguments'', VMap a)]\<rparr>"

lemma fold_emit_use:
  "st_out (fold (\<lambda>x. emit_use (f x) (g x) (k x)) xs s) = st_out s @ map (\<lambda>x. use_args (f x) (g x) (k x)) xs"
  by (induction xs arbitrary: s) (simp_all add: emit_use_def use_args_def)

lemma complete_out:
  assumes "st_stop s \<noteq> []" and "\<And>x. x \<in> set xs \<Longrightarrow> f x \<noteq> [] \<and> g x \<noteq> []"
  shows "\<exists>fin. st_out (fold (\<lambda>x. emit_use (f x) (g x) (k x)) xs (st_Complete s)) = st_out s @ fin \<and> durable_batch fin"
  using assms by (auto simp: fold_emit_use st_Complete_def durable_batch_def use_args_def)

section \<open>Anthropic\<close>

definition an_good :: "anthropic_state \<Rightarrow> bool" where
  "an_good s \<longleftrightarrow>
     st_stop s \<noteq> [] \<and> (\<forall>t \<in> snd ` set (an_tools s). at_ID t \<noteq> [] \<and> at_Name t \<noteq> [])"

lemma grows_more: "st_out s' = st_out s \<Longrightarrow> grows st_out s s'"
  by (simp add: grows_def)

lemma an_good_more:
  "an_tools s' = an_tools s \<Longrightarrow> st_stop s' = st_stop s \<Longrightarrow> an_good s \<Longrightarrow> an_good s'"
  by (simp add: an_good_def)

lemma an_emit_sel [simp]:
  "an_tools (emit_begin i n s) = an_tools s" "an_tools (emit_chunk i c s) = an_tools s"
  "an_tools (emit_end i a s) = an_tools s" "an_tools (emitText c s) = an_tools s" "an_tools (st_Start s) = an_tools s"
  "an_started (emit_begin i n s) = an_started s" "an_started (emit_chunk i c s) = an_started s"
  "an_started (emit_end i a s) = an_started s" "an_started (emitText c s) = an_started s"
  "an_stopped (emit_begin i n s) = an_stopped s" "an_stopped (emit_chunk i c s) = an_stopped s"
  "an_stopped (emit_end i a s) = an_stopped s" "an_stopped (emitText c s) = an_stopped s"
  by (simp_all add: emit_begin_def emit_chunk_def emit_end_def emitText_def st_Start_def emit_ev_def)

lemma emit_out [simp]:
  "st_out (emit_begin i n s) = st_out s @ [\<lparr>ea_type = EventToolUseBegin,
     ea_payload = [(''turn_id'', VStr (st_turnID s)), (''tool_use_id'', VStr i), (''name'', VStr n)]\<rparr>]"
  "st_out (emit_chunk i c s) = st_out s @ [\<lparr>ea_type = EventToolUseArgumentDelta,
     ea_payload = [(''turn_id'', VStr (st_turnID s)), (''tool_use_id'', VStr i), (''chunk'', VStr c)]\<rparr>]"
  "st_out (emit_end i a s) = st_out s @ [\<lparr>ea_type = EventToolUseEnd,
     ea_payload = [(''turn_id'', VStr (st_turnID s)), (''tool_use_id'', VStr i), (''arguments'', VMap a)]\<rparr>]"
  by (simp_all add: emit_begin_def emit_chunk_def emit_end_def)

lemma set_update_subset: "set (AList.update k v m) \<subseteq> insert (k, v) (set m)"
  by (induction m) auto

lemma an_good_update:
  assumes "an_good s" and "at_ID t \<noteq> []" and "at_Name t \<noteq> []"
  shows "an_good (s\<lparr>an_tools := AList.update i t (an_tools s)\<rparr>)"
  using assms set_update_subset [of i t "an_tools s"] by (fastforce simp: an_good_def)

lemma an_good_lookup: "an_good s \<Longrightarrow> map_of (an_tools s) i = Some t \<Longrightarrow> at_ID t \<noteq> [] \<and> at_Name t \<noteq> []"
  by (fastforce simp: an_good_def dest: map_of_SomeD)

lemmas an_ops = an_message_start_def an_block_start_def an_block_delta_def an_block_stop_def
  an_message_delta_def an_message_stop_def an_fail_def fails_def goes_def

lemma an_mergeUsage_sel [simp]:
  "st_out (an_mergeUsage u s) = st_out s" "an_tools (an_mergeUsage u s) = an_tools s"
  "st_stop (an_mergeUsage u s) = st_stop s" "an_started (an_mergeUsage u s) = an_started s"
  "an_stopped (an_mergeUsage u s) = an_stopped s"
  by (simp_all add: an_mergeUsage_def Let_def)

lemma an_stop_not_Nil [simp]: "anthropicStopReason r \<noteq> []"
  by (auto simp: anthropicStopReason_def)

definition an_step_ok :: "anthropic_state \<Rightarrow> stream_error option \<times> anthropic_state \<Rightarrow> bool" where
  "an_step_ok s r \<longleftrightarrow> an_good (snd r) \<and> grows st_out s (snd r)"

lemma an_good_emit [simp]:
  "an_good (emit_begin i n s) = an_good s" "an_good (emit_chunk i c s) = an_good s"
  "an_good (emit_end i a s) = an_good s" "an_good (emitText c s) = an_good s" "an_good (st_Start s) = an_good s"
  by (simp_all add: an_good_def)

lemma an_good_other [simp]:
  "an_good (s\<lparr>an_open := x\<rparr>) = an_good s" "an_good (s\<lparr>an_started := b\<rparr>) = an_good s"
  "an_good (s\<lparr>an_stopped := b\<rparr>) = an_good s" "an_good (s\<lparr>an_stopSeen := b\<rparr>) = an_good s"
  by (simp_all add: an_good_def)

lemma grows_emit:
  "st_out s' = st_out s \<Longrightarrow> grows st_out s (emit_begin i n s')" "st_out s' = st_out s \<Longrightarrow> grows st_out s (emit_chunk i c s')"
  "st_out s' = st_out s \<Longrightarrow> grows st_out s (emit_end i a s')" "st_out s' = st_out s \<Longrightarrow> grows st_out s (emitText c s')"
  using emits_grow(2-5) [of s'] by (auto simp: grows_def)

lemma an_steps:
  assumes "an_good s"
  shows "an_step_ok s (an_message_start p s)" "an_step_ok s (an_block_start p s)"
    "an_step_ok s (an_block_delta p s)" "an_step_ok s (an_block_stop je p s)"
    "an_step_ok s (an_message_delta p s)" "an_step_ok s (an_message_stop s)"
proof -
  note good = an_good_more [OF _ _ assms]
  note upd = an_good_update [of "s\<lparr>an_open := x\<rparr>" for x]
  show "an_step_ok s (an_message_start p s)" "an_step_ok s (an_message_stop s)"
    using assms by (auto simp: an_step_ok_def an_ops intro!: good grows_more)
  show "an_step_ok s (an_message_delta p s)"
    using assms by (auto simp: an_step_ok_def an_ops Let_def an_good_def intro!: grows_more split: option.splits)
  show "an_step_ok s (an_block_start p s)"
    using assms upd
    by (auto simp: an_step_ok_def an_ops Let_def intro!: grows_more grows_emit split: option.splits)
  show "an_step_ok s (an_block_delta p s)"
    using assms an_good_lookup [OF assms]
    by (auto simp: an_step_ok_def an_ops Let_def intro!: grows_more grows_emit an_good_update split: option.splits)
  show "an_step_ok s (an_block_stop je p s)"
    using assms an_good_lookup [OF assms] upd
    by (auto simp: an_step_ok_def an_ops Let_def intro!: grows_more grows_emit split: option.splits sum.splits)
qed

lemma an_event_ok: "an_good s \<Longrightarrow> an_step_ok s (an_event je p s)"
  by (auto simp: an_event_def Let_def an_steps an_fail_def fails_def goes_def an_step_ok_def)
    (use an_steps in \<open>auto simp: an_step_ok_def\<close>)

interpretation anthropic: sse_contract "anthropic_handler je" st_out an_good for je
proof
  fix s
  assume "an_good s"
  then show "an_good (hs_Start (anthropic_handler je) s) \<and> grows st_out s (hs_Start (anthropic_handler je) s)"
    by (simp add: anthropic_handler_def emits_grow)
next
  fix s d r s'
  assume "an_good s" and "hs_Data (anthropic_handler je) d s = (r, s')"
  then show "(r = None \<longrightarrow> an_good s') \<and> grows st_out s s'"
    using an_event_ok [of s je]
    by (auto simp: anthropic_handler_def an_Data_def an_fail_def fails_def an_step_ok_def
        split: option.splits) (metis snd_conv)+
next
  fix s x s'
  assume "hs_Complete (anthropic_handler je) s = (Some x, s')"
  then show "s' = s"
    by (auto simp: anthropic_handler_def an_Complete_def an_fail_def fails_def goes_def split: if_splits)
next
  fix s s'
  assume g: "an_good s" and "hs_Complete (anthropic_handler je) s = (None, s')"
  then have "s' = fold (\<lambda>x. emit_use (at_ID (snd x)) (at_Name (snd x)) (at_Arguments (snd x)))
      (sort_key fst (an_tools s)) (st_Complete s)"
    by (auto simp: anthropic_handler_def an_Complete_def an_fail_def fails_def goes_def split_beta' split: if_splits)
  then show "\<exists>fin. st_out s' = st_out s @ fin \<and> durable_batch fin"
    using g by (auto simp: an_good_def intro!: complete_out)
qed (simp add: anthropic_handler_def fail_emits)

section \<open>OpenAI\<close>

definition tool_named :: "openai_tool \<Rightarrow> bool" where
  "tool_named t \<longleftrightarrow> (ot_EmittedBegin t \<longrightarrow> ot_ID t \<noteq> [] \<and> ot_Name t \<noteq> [])"

definition oa_named :: "openai_state \<Rightarrow> bool" where
  "oa_named s \<longleftrightarrow> st_stop s \<noteq> [] \<and> (\<forall>t \<in> snd ` set (oa_tools s). tool_named t)"

definition oa_begun :: "openai_state \<Rightarrow> bool" where
  "oa_begun s \<longleftrightarrow> (\<forall>t \<in> snd ` set (oa_tools s). ot_EmittedBegin t)"

definition oa_good :: "openai_state \<Rightarrow> bool" where
  "oa_good s \<longleftrightarrow> oa_named s \<and> (oa_finishSeen s \<longrightarrow> oa_begun s)"

lemma oa_emit_sel [simp]:
  "oa_tools (emit_begin i n s) = oa_tools s" "oa_tools (emit_chunk i c s) = oa_tools s"
  "oa_tools (emit_end i a s) = oa_tools s" "oa_tools (emitText c s) = oa_tools s" "oa_tools (st_Start s) = oa_tools s"
  "oa_finishSeen (emit_begin i n s) = oa_finishSeen s" "oa_finishSeen (emit_chunk i c s) = oa_finishSeen s"
  "oa_finishSeen (emit_end i a s) = oa_finishSeen s" "oa_finishSeen (emitText c s) = oa_finishSeen s"
  "oa_finishSeen (st_Start s) = oa_finishSeen s"
  by (simp_all add: emit_begin_def emit_chunk_def emit_end_def emitText_def st_Start_def emit_ev_def)

lemma oa_named_update:
  "oa_named s \<Longrightarrow> tool_named t \<Longrightarrow> oa_named (s\<lparr>oa_tools := AList.update i t (oa_tools s)\<rparr>)"
  using set_update_subset [of i t "oa_tools s"] by (fastforce simp: oa_named_def)

lemma oa_named_cong:
  "oa_tools s' = oa_tools s \<Longrightarrow> st_stop s' = st_stop s \<Longrightarrow> oa_named s' = oa_named s"
  by (simp add: oa_named_def)

lemma tool_named_aget: "oa_named s \<Longrightarrow> tool_named (aget zero_openai_tool (oa_tools s) i)"
  by (auto simp: aget_def oa_named_def tool_named_def zero_openai_tool_def split: option.splits
      dest!: map_of_SomeD)

lemma oa_call_ok:
  assumes "oa_named s" and "oa_call c s = (r, s')"
  shows "oa_named s' \<and> grows st_out s s' \<and> oa_finishSeen s' = oa_finishSeen s"
proof -
  define index where "index = asFloat (pget c ''index'')"
  define t0 where "t0 = aget zero_openai_tool (oa_tools s) index"
  define fn where "fn = asMap (pget c ''function'')"
  define t1 where "t1 = (if stringValue (pget c ''id'') \<noteq> [] then t0\<lparr>ot_ID := stringValue (pget c ''id'')\<rparr> else t0)"
  define t2 where "t2 = (if stringValue (pget fn ''name'') \<noteq> [] then t1\<lparr>ot_Name := stringValue (pget fn ''name'')\<rparr> else t1)"
  define b where "b \<longleftrightarrow> ot_ID t2 \<noteq> [] \<and> ot_Name t2 \<noteq> [] \<and> \<not> ot_EmittedBegin t2"
  define t3 where "t3 = (if b then t2\<lparr>ot_EmittedBegin := True\<rparr> else t2)"
  define s1 where "s1 = s\<lparr>oa_tools := AList.update index t3 (oa_tools s)\<rparr>"
  define s2 where "s2 = (if b then emit_begin (ot_ID t3) (ot_Name t3) s1 else s1)"
  define chunk where "chunk = stringValue (pget fn ''arguments'')"
  have call: "oa_call c s =
     (if chunk = [] then goes s2
      else if \<not> ot_EmittedBegin t3 then oa_fail ''invalid_tool'' ''tool arguments arrived before id and name'' s2
      else goes (emit_chunk (ot_ID t3) chunk
             (s2\<lparr>oa_tools := AList.update index (t3\<lparr>ot_ArgChunks := ot_ArgChunks t3 @ [chunk]\<rparr>) (oa_tools s2)\<rparr>)))"
    by (simp only: oa_call_def Let_def index_def t0_def fn_def t1_def t2_def b_def t3_def s1_def s2_def chunk_def)
  have "tool_named t0" unfolding t0_def by (rule tool_named_aget [OF assms(1)])
  then have t3: "tool_named t3" by (auto simp: t3_def t2_def t1_def b_def tool_named_def)
  have s1: "oa_named s1" "st_out s1 = st_out s" "oa_finishSeen s1 = oa_finishSeen s"
    using oa_named_update [OF assms(1) t3] by (simp_all add: s1_def)
  have s2: "oa_named s2" "grows st_out s s2" "oa_finishSeen s2 = oa_finishSeen s"
    using s1 by (cases b; simp add: s2_def oa_named_def grows_emit grows_more)+
  have "tool_named (t3\<lparr>ot_ArgChunks := ot_ArgChunks t3 @ [chunk]\<rparr>)" using t3 by (simp add: tool_named_def)
  from oa_named_update [OF s2(1) this, of index]
  have s3: "oa_named (s2\<lparr>oa_tools := AList.update index (t3\<lparr>ot_ArgChunks := ot_ArgChunks t3 @ [chunk]\<rparr>) (oa_tools s2)\<rparr>)" .
  show ?thesis
    using assms(2) s2 s3 unfolding call
    by (auto simp: goes_def oa_fail_def fails_def oa_named_def split: if_splits
        intro: grows_trans [OF s2(2) grows_emit(2)])
qed

lemma oa_calls_ok:
  "oa_named s \<Longrightarrow> oa_calls cs s = (r, s') \<Longrightarrow>
   oa_named s' \<and> grows st_out s s' \<and> oa_finishSeen s' = oa_finishSeen s"
proof (induction cs arbitrary: s)
  case (Cons raw cs)
  obtain e s1 where c: "oa_call (asMap raw) s = (e, s1)" by (cases "oa_call (asMap raw) s")
  note ok = oa_call_ok [OF Cons.prems(1) c]
  show ?case
  proof (cases e)
    case None
    with Cons.prems(2) c have "oa_calls cs s1 = (r, s')" by simp
    with Cons.IH ok show ?thesis by (auto intro: grows_trans)
  next
    case (Some x)
    with Cons.prems(2) c ok show ?thesis by simp
  qed
qed simp

lemma oa_finish_tools_ok:
  assumes "oa_named s" and "\<And>i t. (i, t) \<in> set rest \<Longrightarrow> tool_named t"
    and "\<And>i t. (i, t) \<in> set (oa_tools s) \<Longrightarrow> (i, t) \<in> set rest \<or> ot_EmittedBegin t"
    and "oa_finish_tools je rest s = (r, s')"
  shows "oa_named s' \<and> grows st_out s s' \<and> oa_finishSeen s' = oa_finishSeen s \<and> (r = None \<longrightarrow> oa_begun s')"
  using assms
proof (induction rest arbitrary: s)
  case Nil
  then show ?case by (auto simp: oa_begun_def)
next
  case (Cons it rest)
  obtain i tool where it: "it = (i, tool)" by (cases it)
  show ?case
  proof (cases "ot_EmittedBegin tool")
    case False
    with Cons.prems it show ?thesis by (auto simp: oa_fail_def fails_def)
  next
    case b: True
    show ?thesis
    proof (cases "parseArgumentsStrict je (ot_ArgChunks tool)")
      case (Inl m)
      with Cons.prems it b show ?thesis by (auto simp: oa_fail_def fails_def)
    next
      case (Inr args)
      let ?s = "emit_end (ot_ID tool) args (s\<lparr>oa_tools := AList.update i (tool\<lparr>ot_Arguments := args\<rparr>) (oa_tools s)\<rparr>)"
      have "tool_named (tool\<lparr>ot_Arguments := args\<rparr>)"
        using Cons.prems(2) [of i tool] it by (simp add: tool_named_def)
      from oa_named_update [OF Cons.prems(1) this, of i] have n: "oa_named ?s" by (simp add: oa_named_def)
      have sub: "(j, t) \<in> set rest \<or> ot_EmittedBegin t" if "(j, t) \<in> set (oa_tools ?s)" for j t
      proof -
        have "(j, t) = (i, tool\<lparr>ot_Arguments := args\<rparr>) \<or> (j, t) \<in> set (oa_tools s)"
          using that set_update_subset [of i "tool\<lparr>ot_Arguments := args\<rparr>" "oa_tools s"] by auto
        then show ?thesis using Cons.prems(3) [of j t] it b by auto
      qed
      have "oa_finish_tools je rest ?s = (r, s')" using Cons.prems(4) it b Inr by simp
      from Cons.IH [OF n _ sub this] Cons.prems(2)
      have "oa_named s' \<and> grows st_out ?s s' \<and> oa_finishSeen s' = oa_finishSeen ?s \<and> (r = None \<longrightarrow> oa_begun s')"
        by auto
      moreover have "grows st_out s ?s" by (rule grows_emit(3)) simp
      ultimately show ?thesis by (auto intro: grows_trans)
    qed
  qed
qed

lemma oa_stop_not_Nil [simp]: "openAIStopReason r \<noteq> []"
  by (simp add: openAIStopReason_def)

lemma oa_finish_ok:
  assumes "oa_good s" and "oa_finish je f s = (r, s')"
  shows "(r = None \<longrightarrow> oa_good s') \<and> grows st_out s s'"
proof (cases "f = [] \<or> oa_finishSeen s")
  case True
  with assms show ?thesis by (auto simp: oa_finish_def goes_def oa_fail_def fails_def split: if_splits)
next
  case False
  let ?s = "s\<lparr>oa_finishSeen := True, st_stop := openAIStopReason f\<rparr>"
  have n: "oa_named ?s" using assms(1) by (simp add: oa_good_def oa_named_def)
  have "oa_finish_tools je (oa_tools ?s) ?s = (r, s')" using assms(2) False by (simp add: oa_finish_def)
  from oa_finish_tools_ok [OF n _ _ this] n
  have "oa_named s' \<and> grows st_out ?s s' \<and> oa_finishSeen s' = oa_finishSeen ?s \<and> (r = None \<longrightarrow> oa_begun s')"
    by (fastforce simp: oa_named_def)
  then show ?thesis by (auto simp: oa_good_def grows_def)
qed

lemma oa_usage_ok: "oa_good s \<Longrightarrow> oa_good (oa_usage u s) \<and> st_out (oa_usage u s) = st_out s"
  by (simp add: oa_usage_def oa_good_def oa_named_def oa_begun_def)

lemma oa_choice_ok:
  assumes "oa_good s" and "oa_choice je c s = (r, s')"
  shows "(r = None \<longrightarrow> oa_good s') \<and> grows st_out s s'"
proof (cases "asMap (pget c ''delta'') = [] \<or> oa_finishSeen s")
  case True
  with assms oa_finish_ok [OF assms(1)] show ?thesis
    by (auto simp: oa_choice_def Let_def oa_fail_def fails_def split: if_splits)
next
  case False
  define delta where "delta = asMap (pget c ''delta'')"
  obtain e s1 where d: "oa_handleDelta delta s = (e, s1)" by (cases "oa_handleDelta delta s")
  have n: "oa_named (emitText x s)" for x using assms(1) by (simp add: oa_good_def oa_named_def)
  have "oa_named s1 \<and> grows st_out (emitText (stringValue (pget delta ''content'')) s) s1 \<and> \<not> oa_finishSeen s1"
    using oa_calls_ok [OF n] d False by (auto simp: oa_handleDelta_def)
  then have s1: "oa_good s1" "grows st_out s s1"
    by (auto simp: oa_good_def intro: grows_trans [OF emits_grow(2)])
  show ?thesis
  proof (cases e)
    case None
    then have "oa_finish je (stringValue (pget c ''finish_reason'')) s1 = (r, s')"
      using assms(2) False d by (simp add: oa_choice_def Let_def delta_def)
    from oa_finish_ok [OF s1(1) this] s1(2) show ?thesis by (auto intro: grows_trans)
  next
    case (Some x)
    then show ?thesis using assms(2) False d s1 by (auto simp: oa_choice_def Let_def delta_def)
  qed
qed

lemma oa_Data_ok:
  assumes "oa_good s" and "oa_Data je d s = (r, s')"
  shows "(r = None \<longrightarrow> oa_good s') \<and> grows st_out s s'"
proof -
  have dn: "oa_good (s\<lparr>oa_doneSeen := True\<rparr>)"
    using assms(1) by (simp add: oa_good_def oa_named_def oa_begun_def)
  have choice: "(r = None \<longrightarrow> oa_good s') \<and> grows st_out s s'"
    if "oa_choice je c (oa_usage u s) = (r, s')" for c u
    using oa_choice_ok [OF _ that] oa_usage_ok [OF assms(1), of u] by (auto simp: grows_def)
  show ?thesis
    using assms dn choice oa_usage_ok [OF assms(1)]
    by (auto simp: oa_Data_def Let_def goes_def oa_fail_def fails_def grows_more split: if_splits option.splits)
qed

interpretation openai: sse_contract "openai_handler je" st_out oa_good for je
proof
  fix s
  assume "oa_good s"
  then show "oa_good (hs_Start (openai_handler je) s) \<and> grows st_out s (hs_Start (openai_handler je) s)"
    by (simp add: openai_handler_def emits_grow oa_good_def oa_named_def oa_begun_def)
next
  fix s d r s'
  assume "oa_good s" and "hs_Data (openai_handler je) d s = (r, s')"
  then show "(r = None \<longrightarrow> oa_good s') \<and> grows st_out s s'"
    by (intro oa_Data_ok) (simp_all add: openai_handler_def)
next
  fix s x s'
  assume "hs_Complete (openai_handler je) s = (Some x, s')"
  then show "s' = s"
    by (auto simp: openai_handler_def oa_Complete_def oa_fail_def fails_def goes_def split: if_splits)
next
  fix s s'
  assume g: "oa_good s" and "hs_Complete (openai_handler je) s = (None, s')"
  then have "oa_begun s" and "s' = fold (\<lambda>x. emit_use (ot_ID (snd x)) (ot_Name (snd x)) (ot_Arguments (snd x)))
      (sort_key fst (oa_tools s)) (st_Complete s)"
    by (auto simp: openai_handler_def oa_Complete_def oa_fail_def fails_def goes_def oa_good_def split_beta'
        split: if_splits)
  then show "\<exists>fin. st_out s' = st_out s @ fin \<and> durable_batch fin"
    using g by (auto simp: oa_good_def oa_named_def oa_begun_def tool_named_def intro!: complete_out)
qed (simp add: openai_handler_def fail_emits)

section \<open>Gemini\<close>

text \<open>The tool identifiers number the function calls of one stream from zero.\<close>

definition ge_good :: "gemini_state \<Rightarrow> bool" where
  "ge_good s \<longleftrightarrow>
     st_stop s \<noteq> [] \<and> st_stop s \<noteq> ''tool_use'' \<and> (\<forall>t \<in> set (ge_tools s). gt_Name t \<noteq> []) \<and>
     map gt_ID (ge_tools s) = map gemini_id [0..<length (ge_tools s)]"

lemma ge_emit_sel [simp]:
  "ge_tools (emit_begin i n s) = ge_tools s" "ge_tools (emit_end i a s) = ge_tools s"
  "ge_tools (emitText c s) = ge_tools s" "ge_tools (st_Start s) = ge_tools s"
  by (simp_all add: emit_begin_def emit_end_def emitText_def st_Start_def emit_ev_def)

lemma ge_good_emit [simp]:
  "ge_good (emit_begin i n s) = ge_good s" "ge_good (emit_end i a s) = ge_good s"
  "ge_good (emitText c s) = ge_good s" "ge_good (st_Start s) = ge_good s"
  by (simp_all add: ge_good_def)

lemma ge_part_ok:
  assumes "ge_good s" and "ge_part p s = (r, s')"
  shows "ge_good s' \<and> grows st_out s s'"
proof -
  let ?t = "stringValue (pget p ''text'')"
  define s1 where "s1 = (if ?t \<noteq> [] then emitText ?t s else s)"
  have s1: "ge_good s1" "grows st_out s s1" using assms(1) emits_grow(2) [of s ?t] by (simp_all add: s1_def)
  have "ge_good s' \<and> grows st_out s1 s'"
    using assms(2) s1(1) unfolding ge_part_def Let_def s1_def [symmetric]
    by (auto simp: goes_def ge_fail_def fails_def ge_good_def grows_def transient_def split: if_splits)
  with s1(2) show ?thesis by (auto intro: grows_trans)
qed

lemma ge_parts_ok:
  "ge_good s \<Longrightarrow> ge_parts ps s = (r, s') \<Longrightarrow> ge_good s' \<and> grows st_out s s'"
proof (induction ps arbitrary: s)
  case (Cons raw ps)
  obtain e s1 where c: "ge_part (asMap raw) s = (e, s1)" by (cases "ge_part (asMap raw) s")
  note ok = ge_part_ok [OF Cons.prems(1) c]
  show ?case
  proof (cases e)
    case None
    with Cons.prems(2) c have "ge_parts ps s1 = (r, s')" by simp
    with Cons.IH ok show ?thesis by (auto intro: grows_trans)
  next
    case (Some x)
    with Cons.prems(2) c ok show ?thesis by simp
  qed
qed simp

lemma ge_stop_not_Nil [simp]: "geminiStopReason r \<noteq> []" "geminiStopReason r \<noteq> ''tool_use''"
  by (simp_all add: geminiStopReason_def)

lemma ge_usage_sel [simp]:
  "st_out (ge_usage u s) = st_out s" "st_stop (ge_usage u s) = st_stop s" "ge_tools (ge_usage u s) = ge_tools s"
  by (simp_all add: ge_usage_def)

lemma ge_Data_ok:
  assumes "ge_good s" and "ge_Data je d s = (r, s')"
  shows "(r = None \<longrightarrow> ge_good s') \<and> grows st_out s s'"
proof (cases "unmarshal_object d")
  case None
  with assms show ?thesis by (simp add: ge_Data_def ge_fail_def fails_def)
next
  case (Some m)
  define p where "p = opt_payload m"
  define c where "c = firstMap (pget p ''candidates'')"
  obtain e s1 where g: "ge_parts (asSlice (pget (asMap (pget c ''content'')) ''parts'')) s = (e, s1)"
    by (cases "ge_parts (asSlice (pget (asMap (pget c ''content'')) ''parts'')) s")
  note ok = ge_parts_ok [OF assms(1) g]
  show ?thesis
    using assms ok Some g
    by (auto simp: ge_Data_def Let_def p_def [symmetric] c_def [symmetric] goes_def ge_fail_def fails_def
        ge_good_def grows_def split: if_splits option.splits)
qed

interpretation gemini: sse_contract "gemini_handler je" st_out ge_good for je
proof
  fix s
  assume "ge_good s"
  then show "ge_good (hs_Start (gemini_handler je) s) \<and> grows st_out s (hs_Start (gemini_handler je) s)"
    by (simp add: gemini_handler_def emits_grow)
next
  fix s d r s'
  assume "ge_good s" and "hs_Data (gemini_handler je) d s = (r, s')"
  then show "(r = None \<longrightarrow> ge_good s') \<and> grows st_out s s'"
    by (intro ge_Data_ok) (simp_all add: gemini_handler_def)
next
  fix s x s'
  assume "hs_Complete (gemini_handler je) s = (Some x, s')"
  then show "s' = s"
    by (auto simp: gemini_handler_def ge_Complete_def ge_fail_def fails_def goes_def split: if_splits)
next
  fix s s'
  assume g: "ge_good s" and "hs_Complete (gemini_handler je) s = (None, s')"
  then have s': "s' = fold (\<lambda>t. emit_use (gt_ID t) (gt_Name t) (gt_Arguments t)) (ge_tools s) (st_Complete s)"
    by (auto simp: gemini_handler_def ge_Complete_def ge_fail_def fails_def goes_def split: if_splits)
  have "gt_ID t \<noteq> []" if "t \<in> set (ge_tools s)" for t
  proof -
    have "gt_ID t \<in> set (map gt_ID (ge_tools s))" using that by simp
    also have "\<dots> = set (map gemini_id [0..<length (ge_tools s)])" using g by (simp only: ge_good_def)
    finally show ?thesis by (auto simp: gemini_id_def)
  qed
  then show "\<exists>fin. st_out s' = st_out s @ fin \<and> durable_batch fin"
    using g unfolding s' by (intro complete_out) (auto simp: ge_good_def)
qed (simp add: gemini_handler_def fail_emits)

section \<open>The calls\<close>

lemma emitted_outcome:
  assumes "emitted (streamSSE hx e hs b h s w) = ((events, err), w')"
    and "\<And>r s' w'. streamSSE hx e hs b h s w = ((r, s'), w') \<Longrightarrow> stream_outcome (st_out s') (map_option stream_perr r)"
  shows "stream_outcome events err"
  using assms by (auto simp: emitted_def split: prod.splits)

lemma fresh_states:
  "an_good (newAnthropicStreamState f)" "st_out (newAnthropicStreamState f) = []"
  "oa_good (newOpenAIStreamState f)" "st_out (newOpenAIStreamState f) = []"
  "ge_good (newGeminiStreamState f)" "st_out (newGeminiStreamState f) = []"
  by (simp_all add: newAnthropicStreamState_def newOpenAIStreamState_def newGeminiStreamState_def
      newStreamState_def stream_state.defs an_good_def oa_good_def oa_named_def ge_good_def)

lemma AnthropicStream_outcome:
  "AnthropicStream_Call hx p request w = ((events, err), w') \<Longrightarrow> stream_outcome events err"
  by (auto simp: AnthropicStream_Call_def Let_def split: prod.splits
      elim!: emitted_outcome intro!: anthropic.streamSSE_outcome simp: fresh_states)

lemma OpenAIStream_outcome:
  "OpenAIStream_Call hx p request w = ((events, err), w') \<Longrightarrow> stream_outcome events err"
  by (auto simp: OpenAIStream_Call_def Let_def split: prod.splits
      elim!: emitted_outcome intro!: openai.streamSSE_outcome simp: fresh_states)

lemma GeminiStream_outcome:
  "GeminiStream_Call hx p request w = ((events, err), w') \<Longrightarrow> stream_outcome events err"
  by (auto simp: GeminiStream_Call_def Let_def stream_outcome_def [of "[]"] split: prod.splits if_splits
      elim!: emitted_outcome intro!: gemini.streamSSE_outcome simp: fresh_states)

section \<open>Closing the step\<close>

lemma close_scan_uses:
  assumes "\<forall>u \<in> set us. ea_type u = EventToolUse \<and> ea_str u ''id'' \<noteq> [] \<and> ea_str u ''name'' \<noteq> []"
    and "distinct (sc_ids sc @ map (\<lambda>u. ea_str u ''id'') us)" and "sc_seen sc"
  shows "\<exists>sc'. close_scan us sc = Inr sc' \<and> sc_count sc' = sc_count sc \<and> sc_stop sc' = sc_stop sc \<and>
    sc_uses sc' = sc_uses sc @ us \<and> sc_staged sc' = sc_staged sc @ us"
  using assms
proof (induction us arbitrary: sc)
  case (Cons u us)
  let ?sc = "sc\<lparr>sc_ids := sc_ids sc @ [ea_str u ''id''], sc_uses := sc_uses sc @ [u], sc_staged := sc_staged sc @ [u]\<rparr>"
  have "close_event u sc = Inr ?sc"
    using Cons.prems by (simp add: close_event_def Let_def)
  moreover obtain sc' where "close_scan us ?sc = Inr sc'" "sc_count sc' = sc_count ?sc" "sc_stop sc' = sc_stop ?sc"
    "sc_uses sc' = sc_uses ?sc @ us" "sc_staged sc' = sc_staged ?sc @ us"
    using Cons.IH [of ?sc] Cons.prems by auto
  ultimately show ?case by simp
qed simp

lemma stage_outcome:
  assumes "list_all transient ts" and "durable_batch fin"
  obtains m us where "stage_stream kind model (ts @ fin) = m # us" "ea_type m = EventAssistantMessage"
    "ea_str m ''stop_reason'' \<noteq> []" "us = arg_uses (ts @ fin)"
    "\<forall>u \<in> set us. ea_type u = EventToolUse \<and> ea_str u ''id'' \<noteq> [] \<and> ea_str u ''name'' \<noteq> []"
proof -
  obtain d m us where fin: "fin = d # m # us" "ea_type d = EventAssistantTurnDone"
    "ea_type m = EventAssistantMessage" "ea_str m ''stop_reason'' \<noteq> []"
    and us: "\<forall>u \<in> set us. ea_type u = EventToolUse \<and> ea_str u ''id'' \<noteq> [] \<and> ea_str u ''name'' \<noteq> []"
    using assms(2) by (auto simp: durable_batch_def)
  have ts: "filter (\<lambda>e. \<not> isStreamObservationEvent (ea_type e)) ts = []" "arg_uses ts = []"
    using assms(1) by (auto simp: filter_empty_conv list_all_iff transient_def isStreamObservationEvent_def)
  have us': "filter (\<lambda>e. \<not> isStreamObservationEvent (ea_type e)) us = us" "arg_uses us = us"
    "map (\<lambda>e. if ea_type e = EventAssistantMessage
              then e\<lparr>ea_payload := normalizeAssistantPayload (ea_payload e) kind model\<rparr> else e) us = us"
    using us by (auto simp: filter_id_conv isStreamObservationEvent_def intro!: map_idI)
  let ?m = "m\<lparr>ea_payload := normalizeAssistantPayload (ea_payload m) kind model\<rparr>"
  have a: "stage_stream kind model (ts @ fin) = ?m # us"
    using fin ts us' by (simp add: stage_stream_def isStreamObservationEvent_def)
  have b: "ea_str ?m ''stop_reason'' \<noteq> []" using fin(4) by (simp add: normalizeAssistantPayload_other)
  have c: "us = arg_uses (ts @ fin)" using fin ts us' by simp
  show thesis by (rule that [OF a _ b c us]) (simp add: fin(3))
qed

text \<open>The step check of the loop on a stream that succeeded with distinct identifiers.\<close>

lemma stream_step:
  assumes "stream_outcome events None" and "distinct (map (\<lambda>u. ea_str u ''id'') (arg_uses events))"
  obtains m m' us stop where "stage_stream kind model events = m # us" and "us = arg_uses events"
    and "m' \<in> set events" and "ea_type m' = EventAssistantMessage" and "stop = ea_str m' ''stop_reason''"
    and "stop = ea_str m ''stop_reason''" and "closeProviderStep (m # us) =
      (if us = [] \<and> stop = ''tool_use''
       then Inl (''missing_tool_use'', ''provider ended with tool_use but emitted no complete tool calls'')
       else if us = [] \<or> stop = ''tool_use'' then Inr (\<lparr>tn_stopReason = stop, tn_reason = []\<rparr>, m # us)
       else Inr (\<lparr>tn_stopReason = stop, tn_reason = RunReasonIncompleteToolBatch\<rparr>,
                 m # us @ map (incomplete_result stop) us))"
proof -
  obtain ts fin where ev: "events = ts @ fin" "list_all transient ts" "durable_batch fin"
    using assms(1) by (auto simp: stream_outcome_def)
  obtain m us where st: "stage_stream kind model (ts @ fin) = m # us" "ea_type m = EventAssistantMessage"
    "ea_str m ''stop_reason'' \<noteq> []" "us = arg_uses (ts @ fin)"
    "\<forall>u \<in> set us. ea_type u = EventToolUse \<and> ea_str u ''id'' \<noteq> [] \<and> ea_str u ''name'' \<noteq> []"
    by (rule stage_outcome [OF ev(2,3)])
  have "m \<in> set (stage_stream kind model events)" using st(1) ev(1) by simp
  then obtain m' where m': "m' \<in> set events" "ea_type m' = EventAssistantMessage"
    "ea_str m' ''stop_reason'' = ea_str m ''stop_reason''"
    using st(2) by (auto simp: stage_stream_def normalizeAssistantPayload_other split: if_splits)
  let ?sc = "start_scan\<lparr>sc_count := 1, sc_seen := True, sc_stop := ea_str m ''stop_reason'', sc_staged := [m]\<rparr>"
  have "close_event m start_scan = Inr ?sc" using st(2) by (simp add: close_event_def start_scan_def Let_def)
  moreover obtain sc' where sc': "close_scan us ?sc = Inr sc'" "sc_count sc' = 1" "sc_stop sc' = ea_str m ''stop_reason''"
    "sc_uses sc' = us" "sc_staged sc' = m # us"
    using close_scan_uses [OF st(5), of ?sc] assms(2) st(4) ev(1) by (auto simp: start_scan_def)
  ultimately have "close_scan (m # us) start_scan = Inr sc'" by simp
  then have close: "closeProviderStep (m # us) =
      (if us = [] \<and> ea_str m ''stop_reason'' = ''tool_use''
       then Inl (''missing_tool_use'', ''provider ended with tool_use but emitted no complete tool calls'')
       else if us = [] \<or> ea_str m ''stop_reason'' = ''tool_use''
       then Inr (\<lparr>tn_stopReason = ea_str m ''stop_reason'', tn_reason = []\<rparr>, m # us)
       else Inr (\<lparr>tn_stopReason = ea_str m ''stop_reason'', tn_reason = RunReasonIncompleteToolBatch\<rparr>,
                 m # us @ map (incomplete_result (ea_str m ''stop_reason'')) us))"
    using st(3) unfolding closeProviderStep_def by (simp add: sc'(2-5))
  show thesis
    by (rule that [OF _ _ m'(1,2) m'(3) [symmetric] refl close]) (use st(1,4) ev(1) in simp_all)
qed

text \<open>So such a stream passes it, unless it ends for tools without naming one.\<close>

lemma stream_closes:
  assumes "stream_outcome events None" and "distinct (map (\<lambda>u. ea_str u ''id'') (arg_uses events))"
    and "arg_uses events \<noteq> [] \<or> (\<forall>m \<in> set events. ea_type m = EventAssistantMessage \<longrightarrow> ea_str m ''stop_reason'' \<noteq> ''tool_use'')"
  shows "is_ok (closeProviderStep (stage_stream kind model events))"
  by (rule stream_step [OF assms(1,2), of kind model]) (use assms(3) in \<open>auto split: if_splits\<close>)

section \<open>Identifiers of Gemini function calls\<close>

lemma GeminiStream_completed:
  assumes "GeminiStream_Call hx p request w = ((events, None), w')"
  obtains s2 ts where "ge_good s2" and "list_all transient ts"
    and "events = ts @ st_out (st_Complete (s2\<lparr>st_out := []\<rparr>)) @
      map (\<lambda>t. use_args (gt_ID t) (gt_Name t) (gt_Arguments t)) (ge_tools s2)"
proof -
  obtain e hs b f w1 s' where call: "streamSSE hx e hs b (gemini_handler (hx_json_error hx)) (newGeminiStreamState f) w1
      = ((None, s'), w')" and ev: "events = st_out s'"
    using assms by (auto simp: GeminiStream_Call_def emitted_def Let_def split: prod.splits if_splits)
  obtain s2 where s2: "ge_good s2" "grows st_out (newGeminiStreamState f) s2"
    "hs_Complete (gemini_handler (hx_json_error hx)) s2 = (None, s')"
    using gemini.streamSSE_completed [OF _ call] fresh_states by blast
  then have s': "s' = fold (\<lambda>t. emit_use (gt_ID t) (gt_Name t) (gt_Arguments t)) (ge_tools s2) (st_Complete s2)"
    by (auto simp: gemini_handler_def ge_Complete_def ge_fail_def fails_def goes_def split: if_splits)
  obtain ts where ts: "st_out s2 = ts" "list_all transient ts" using s2(2) fresh_states(6) by (auto simp: grows_def)
  show thesis
    by (rule that [OF s2(1) ts(2)]) (simp add: ev s' fold_emit_use ts(1) st_Complete_def emit_ev_def)
qed

lemma transient_no_uses: "list_all transient ts \<Longrightarrow> arg_uses ts = []"
  by (auto simp: filter_empty_conv list_all_iff transient_def)

lemma GeminiStream_ids:
  assumes "GeminiStream_Call hx p request w = ((events, None), w')"
  shows "map (\<lambda>u. ea_str u ''id'') (arg_uses events) = map gemini_id [0..<length (arg_uses events)]"
proof -
  obtain s2 ts where s2: "ge_good s2" "list_all transient ts"
    "events = ts @ st_out (st_Complete (s2\<lparr>st_out := []\<rparr>)) @
      map (\<lambda>t. use_args (gt_ID t) (gt_Name t) (gt_Arguments t)) (ge_tools s2)"
    by (rule GeminiStream_completed [OF assms])
  then have "arg_uses events = map (\<lambda>t. use_args (gt_ID t) (gt_Name t) (gt_Arguments t)) (ge_tools s2)"
    by (simp add: transient_no_uses st_Complete_def emit_ev_def use_args_def filter_id_conv)
  then show ?thesis using s2(1) by (simp add: ge_good_def use_args_def o_def)
qed

text \<open>A Gemini stream never ends for tools, so the loop synthesises a result for every use.\<close>

lemma GeminiStream_stop:
  assumes "GeminiStream_Call hx p request w = ((events, None), w')"
    and "m \<in> set events" and "ea_type m = EventAssistantMessage"
  shows "ea_str m ''stop_reason'' \<noteq> ''tool_use''"
proof -
  obtain s2 ts where s2: "ge_good s2" "list_all transient ts"
    "events = ts @ st_out (st_Complete (s2\<lparr>st_out := []\<rparr>)) @
      map (\<lambda>t. use_args (gt_ID t) (gt_Name t) (gt_Arguments t)) (ge_tools s2)"
    by (rule GeminiStream_completed [OF assms(1)])
  then show ?thesis using assms(2,3)
    by (auto simp: st_Complete_def emit_ev_def use_args_def list_all_iff transient_def ge_good_def)
qed

lemma gemini_id_inject: "gemini_id i = gemini_id j \<longleftrightarrow> i = j"
  by (simp add: gemini_id_def show_nat_inject)

lemma gemini_tools_incomplete:
  assumes "GeminiStream_Call hx p request w = ((events, None), w')" and "arg_uses events \<noteq> []"
  shows "\<exists>stop m. closeProviderStep (stage_stream kind model events) =
    Inr (\<lparr>tn_stopReason = stop, tn_reason = RunReasonIncompleteToolBatch\<rparr>,
         m # arg_uses events @ map (incomplete_result stop) (arg_uses events))"
proof -
  have o: "stream_outcome events None" by (rule GeminiStream_outcome [OF assms(1)])
  have d: "distinct (map (\<lambda>u. ea_str u ''id'') (arg_uses events))"
    unfolding GeminiStream_ids [OF assms(1)] by (simp add: distinct_map inj_on_def gemini_id_inject)
  show ?thesis
    by (rule stream_step [OF o d, of kind model]) (use assms(2) GeminiStream_stop [OF assms(1)] in auto)
qed

lemma duplicate_use_refused:
  assumes "i < length es" "j < length es" "i \<noteq> j" "es = lg_events (ss_log s)"
    and "ev_type (es ! i) = EventToolUse" "ev_type (es ! j) = EventToolUse"
    and "use_id (es ! i) = use_id (es ! j)"
  shows "\<not> is_ok (PrepareProviderCall dg (Some s))"
proof
  assume "is_ok (PrepareProviderCall dg (Some s))"
  then obtain p where "PrepareProviderCall dg (Some s) = Inr p" by (cases "PrepareProviderCall dg (Some s)") auto
  then have "provider_ready es" using assms(4) by (simp add: PrepareProviderCall_Inr_iff)
  then have d: "distinct (map use_id (uses_of es))" by (simp add: provider_ready_def well_referenced_def)
  have "\<not> distinct (map use_id (filter (\<lambda>e. ev_type e = EventToolUse) es))"
    if "i < j" "i < length es" "j < length es" "ev_type (es ! i) = EventToolUse" "ev_type (es ! j) = EventToolUse"
      "use_id (es ! i) = use_id (es ! j)" for i j
  proof -
    have split: "es = take j es @ es ! j # drop (Suc j) es" using that(3) by (rule id_take_nth_drop)
    have "es ! i \<in> set (filter (\<lambda>e. ev_type e = EventToolUse) (take j es))"
      using that by (auto simp: in_set_conv_nth intro!: exI [of _ i])
    then have "use_id (es ! j) \<in> use_id ` set (filter (\<lambda>e. ev_type e = EventToolUse) (take j es))"
      using that(6) by (metis imageI)
    then show ?thesis using that(5) by (subst split) auto
  qed
  moreover have "uses_of es = filter (\<lambda>e. ev_type e = EventToolUse) es"
    by (induction es) auto
  ultimately show False using d assms by (metis linorder_neqE_nat)
qed

section \<open>The lifecycle of an Anthropic message\<close>

datatype phase = Awaiting | Running | Stopped

definition an_phase :: "anthropic_state \<Rightarrow> phase" where
  "an_phase s = (if an_stopped s then Stopped else if an_started s then Running else Awaiting)"

definition body_kinds :: "string list" where
  "body_kinds = [''content_block_start'', ''content_block_delta'', ''content_block_stop'', ''message_delta'']"

definition core_kind :: "string \<Rightarrow> bool" where
  "core_kind k \<longleftrightarrow> k \<in> set body_kinds \<or> k = ''message_start'' \<or> k = ''message_stop''"

inductive lifecycle :: "phase \<Rightarrow> string \<Rightarrow> phase \<Rightarrow> bool" where
  lc_start: "lifecycle Awaiting ''message_start'' Running"
| lc_body: "k \<in> set body_kinds \<Longrightarrow> lifecycle Running k Running"
| lc_stop: "lifecycle Running ''message_stop'' Stopped"
| lc_other: "\<not> core_kind k \<Longrightarrow> lifecycle p k p"

inductive_simps lifecycle_from_Awaiting: "lifecycle Awaiting k p"
inductive_simps lifecycle_from_Running: "lifecycle Running k p"
inductive_cases lifecycle_from_Stopped [elim!]: "lifecycle Stopped k p"

inductive accepted :: "phase \<Rightarrow> string list \<Rightarrow> phase \<Rightarrow> bool" where
  acc_done: "accepted p [] p"
| acc_step: "lifecycle p k q \<Longrightarrow> accepted q ks r \<Longrightarrow> accepted p (k # ks) r"

lemma core_ends: "core_kind ''message_start''" "core_kind ''message_stop''"
  by (simp_all add: core_kind_def)

lemma core_body: "k \<in> set body_kinds \<Longrightarrow> core_kind k"
  by (simp add: core_kind_def)

lemma accepted_Stopped: "accepted p ks q \<Longrightarrow> p = Stopped \<Longrightarrow> q = Stopped \<and> filter core_kind ks = []"
  by (induction rule: accepted.induct) auto

lemma accepted_Running:
  "accepted p ks q \<Longrightarrow> p = Running \<Longrightarrow> q = Stopped \<Longrightarrow>
   \<exists>mid. filter core_kind ks = mid @ [''message_stop''] \<and> set mid \<subseteq> set body_kinds"
proof (induction rule: accepted.induct)
  case (acc_step p k q ks r)
  then consider (body) "k \<in> set body_kinds" "q = Running" | (stop) "k = ''message_stop''" "q = Stopped"
    | (other) "\<not> core_kind k" "q = Running"
    by (auto simp: lifecycle_from_Running)
  then show ?case
  proof cases
    case body
    with acc_step.IH acc_step.prems obtain mid where
      "filter core_kind ks = mid @ [''message_stop'']" "set mid \<subseteq> set body_kinds" by auto
    with body have "filter core_kind (k # ks) = (k # mid) @ [''message_stop''] \<and> set (k # mid) \<subseteq> set body_kinds"
      by (simp add: core_body)
    then show ?thesis by blast
  next
    case stop
    with acc_step.hyps(2) accepted_Stopped [of q ks r]
    have "filter core_kind (k # ks) = [] @ [''message_stop'']" by (simp add: core_ends)
    then show ?thesis by fastforce
  next
    case other
    with acc_step show ?thesis by auto
  qed
qed simp

lemma accepted_Awaiting:
  "accepted p ks q \<Longrightarrow> p = Awaiting \<Longrightarrow> q = Stopped \<Longrightarrow>
   \<exists>mid. filter core_kind ks = ''message_start'' # mid @ [''message_stop''] \<and> set mid \<subseteq> set body_kinds"
proof (induction rule: accepted.induct)
  case (acc_step p k q ks r)
  then consider "k = ''message_start''" "q = Running" | "\<not> core_kind k" "q = Awaiting"
    by (auto simp: lifecycle_from_Awaiting)
  then show ?case
  proof cases
    case 1
    with accepted_Running [OF acc_step.hyps(2)] acc_step.prems core_ends show ?thesis by auto
  next
    case 2
    with acc_step show ?thesis by auto
  qed
qed simp

text \<open>The handler follows the lifecycle; a stopped message was started.\<close>

definition an_kind :: "payload \<Rightarrow> string" where
  "an_kind p = stringValue (pget p ''type'')"

lemma an_merge_phase [simp]: "an_phase (an_mergeUsage u s) = an_phase s"
  by (simp add: an_phase_def)

lemma an_emit_phase [simp]:
  "an_phase (emit_begin i n s) = an_phase s" "an_phase (emit_chunk i c s) = an_phase s"
  "an_phase (emit_end i a s) = an_phase s" "an_phase (emitText c s) = an_phase s"
  "an_phase (s\<lparr>an_tools := x\<rparr>) = an_phase s" "an_phase (s\<lparr>an_open := y\<rparr>) = an_phase s"
  "an_phase (s\<lparr>st_stop := z, an_stopSeen := b\<rparr>) = an_phase s"
  by (simp_all add: an_phase_def)

lemma requireActive_phase: "requireActive k s = None \<longleftrightarrow> an_phase s = Running"
  by (auto simp: requireActive_def an_phase_def)

lemma body_step:
  "an_block_start p s = (None, s') \<Longrightarrow> an_phase s = Running \<and> an_phase s' = Running"
  "an_block_delta p s = (None, s') \<Longrightarrow> an_phase s = Running \<and> an_phase s' = Running"
  "an_block_stop je p s = (None, s') \<Longrightarrow> an_phase s = Running \<and> an_phase s' = Running"
  "an_message_delta p s = (None, s') \<Longrightarrow> an_phase s = Running \<and> an_phase s' = Running"
  by (auto simp: an_ops Let_def requireActive_phase split: option.splits if_splits sum.splits)

lemma ends_step:
  "an_message_start p s = (None, s') \<Longrightarrow> an_phase s = Awaiting \<and> an_phase s' = Running"
  "an_message_stop s = (None, s') \<Longrightarrow> an_phase s = Running \<and> an_phase s' = Stopped"
  by (auto simp: an_ops an_phase_def split: if_splits)

lemma an_event_lifecycle:
  assumes "an_event je p s = (None, s')"
  shows "lifecycle (an_phase s) (an_kind p) (an_phase s')"
proof -
  define k where "k = an_kind p"
  note def = assms [unfolded an_event_def Let_def, folded an_kind_def, folded k_def]
  consider "k = ''message_start''" | "k = ''message_stop''" | "k \<in> set body_kinds" | "\<not> core_kind k"
    by (auto simp: core_kind_def)
  then have "lifecycle (an_phase s) k (an_phase s')"
  proof cases
    case 1
    with def ends_step(1) show ?thesis by (auto intro: lc_start)
  next
    case 2
    with def ends_step(2) show ?thesis by (auto intro: lc_stop)
  next
    case 3
    then have "an_phase s = Running \<and> an_phase s' = Running"
      using def body_step by (auto simp: body_kinds_def)
    with 3 show ?thesis by (auto intro: lc_body)
  next
    case 4
    then have "s' = s" using def
      by (auto simp: core_kind_def body_kinds_def an_fail_def fails_def goes_def split: if_splits)
    with 4 show ?thesis by (auto intro: lc_other)
  qed
  then show ?thesis by (simp only: k_def)
qed

fun an_run :: "(string \<Rightarrow> string) \<Rightarrow> payload list \<Rightarrow> anthropic_state stream_op" where
  "an_run je [] s = (None, s)"
| "an_run je (p # ps) s =
     (case an_event je p s of (Some e, s') \<Rightarrow> (Some e, s') | (None, s') \<Rightarrow> an_run je ps s')"

lemma an_run_accepted:
  "an_run je ps s = (None, s') \<Longrightarrow> accepted (an_phase s) (map an_kind ps) (an_phase s')"
proof (induction ps arbitrary: s)
  case (Cons p ps)
  then obtain s1 where "an_event je p s = (None, s1)" "an_run je ps s1 = (None, s')"
    by (auto split: prod.splits option.splits)
  then show ?case using acc_step [OF an_event_lifecycle Cons.IH] by simp
qed (simp add: acc_done)

lemma an_lifecycle:
  assumes "an_run je ps (newAnthropicStreamState f) = (None, s)" and "an_Complete s = (None, s')"
  shows "\<exists>mid. filter core_kind (map an_kind ps) = ''message_start'' # mid @ [''message_stop''] \<and>
    set mid \<subseteq> set body_kinds"
proof (rule accepted_Awaiting)
  show "accepted (an_phase (newAnthropicStreamState f)) (map an_kind ps) (an_phase s)"
    by (rule an_run_accepted [OF assms(1)])
  show "an_phase (newAnthropicStreamState f) = Awaiting"
    by (simp add: an_phase_def newAnthropicStreamState_def newStreamState_def stream_state.defs)
  show "an_phase s = Stopped"
    using assms(2) by (auto simp: an_Complete_def an_fail_def fails_def an_phase_def split: if_splits)
qed

end
