(* ===== verification/Jcs.thy ===== *)
theory Jcs
  imports GoJson Storage
begin

text \<open>
  Canonical JSON (jcs.go), the text that content hashes are computed from: members ordered by
  the UTF-16 code units of their keys, strings escaped as little as possible, numbers in the
  notation of ECMAScript.  SHA-256 is a parameter.
\<close>

datatype jcs_error = ErrInvalidUnicode | InvalidNumber string | Unsupported string | JsonError

section \<open>UTF-16\<close>

text \<open>The code point of the bytes of one valid rune.\<close>

fun rune_value :: "string \<Rightarrow> nat" where
  "rune_value [a] = byte a"
| "rune_value [a, b] = (byte a - 192) * 64 + (byte b - 128)"
| "rune_value [a, b, c] = (byte a - 224) * 4096 + (byte b - 128) * 64 + (byte c - 128)"
| "rune_value [a, b, c, d] =
     (byte a - 240) * 262144 + (byte b - 128) * 4096 + (byte c - 128) * 64 + (byte d - 128)"
| "rune_value s = 0"

definition rune_units :: "nat \<Rightarrow> nat list" where
  "rune_units r =
     (if r < 65536 then [r] else [55296 + (r - 65536) div 1024, 56320 + (r - 65536) mod 1024])"

text \<open>\<^verbatim>\<open>utf16.Encode([]rune(s))\<close>: an invalid byte becomes the replacement character.\<close>

function utf16_units :: "string \<Rightarrow> nat list" where
  "utf16_units s =
     (if s = [] then []
      else let (n, valid) = decode_rune s
           in rune_units (if valid then rune_value (take n s) else 65533) @ utf16_units (drop n s))"
  by pat_completeness auto
termination
proof (relation "measure length")
  fix s :: string and x n valid
  assume "s \<noteq> []" "x = decode_rune s" "(n, valid) = x"
  then have "0 < n" using decode_rune_pos [of s] by (metis fst_conv)
  with \<open>s \<noteq> []\<close> show "(drop n s, s) \<in> measure length" by simp
qed simp

declare utf16_units.simps [simp del]

fun compare_units :: "nat list \<Rightarrow> nat list \<Rightarrow> int" where
  "compare_units (x # xs) (y # ys) =
     (if x < y then - 1 else if y < x then 1 else compare_units xs ys)"
| "compare_units [] (y # ys) = - 1"
| "compare_units (x # xs) [] = 1"
| "compare_units [] [] = 0"

definition compareUTF16 :: "string \<Rightarrow> string \<Rightarrow> int" where
  "compareUTF16 a b = compare_units (utf16_units a) (utf16_units b)"

text \<open>Keys under this comparison are a linear order.\<close>

datatype utf16_key = Utf16Key (units_of: "nat list")

lemma compare_units_less: "compare_units xs ys < 0 \<longleftrightarrow> xs < ys"
  by (induction xs ys rule: compare_units.induct) auto

lemma compare_units_eq: "compare_units xs ys = 0 \<longleftrightarrow> xs = ys"
  by (induction xs ys rule: compare_units.induct) auto

lemma compare_units_le: "compare_units xs ys \<le> 0 \<longleftrightarrow> xs \<le> ys"
  using compare_units_less [of xs ys] compare_units_eq [of xs ys] by auto

instantiation utf16_key :: linorder
begin

definition less_eq_utf16_key :: "utf16_key \<Rightarrow> utf16_key \<Rightarrow> bool" where
  "a \<le> b \<longleftrightarrow> compare_units (units_of a) (units_of b) \<le> 0"

definition less_utf16_key :: "utf16_key \<Rightarrow> utf16_key \<Rightarrow> bool" where
  "a < b \<longleftrightarrow> compare_units (units_of a) (units_of b) < 0"

instance
  by standard
    (auto simp: less_eq_utf16_key_def less_utf16_key_def compare_units_less compare_units_le utf16_key.expand)

end

definition key_order :: "string \<Rightarrow> utf16_key" where
  "key_order k = Utf16Key (utf16_units k)"

section \<open>Numbers\<close>

definition str_cut :: "string \<Rightarrow> char \<Rightarrow> string \<times> string" where
  "str_cut s c = (takeWhile (\<lambda>x. x \<noteq> c) s, drop 1 (dropWhile (\<lambda>x. x \<noteq> c) s))"

definition exponentToDecimal :: "string \<Rightarrow> int \<Rightarrow> string" where
  "exponentToDecimal mantissa0 exponent =
     (let negative = has_prefix mantissa0 ''-'';
          mantissa = trim_prefix mantissa0 ''-'';
          digits = filter (\<lambda>c. c \<noteq> CHR ''.'') mantissa;
          decimalPlaces = (case str_index mantissa ''.'' of Some d \<Rightarrow> length mantissa - d - 1 | None \<Rightarrow> 0);
          point = int (length digits) - int decimalPlaces + exponent;
          text =
            (if point \<le> 0 then ''0.'' @ replicate (nat (- point)) (CHR ''0'') @ digits
             else if int (length digits) \<le> point
             then digits @ replicate (nat point - length digits) (CHR ''0'')
             else take (nat point) digits @ ''.'' @ drop (nat point) digits);
          trimmed = trim_right (trim_right text (CHR ''0'')) (CHR ''.'')
      in if negative then CHR ''-'' # trimmed else trimmed)"

definition normalizeExponent :: "string \<Rightarrow> int \<Rightarrow> string" where
  "normalizeExponent mantissa exponent =
     (if 0 \<le> exponent then mantissa @ ''e+'' @ show_int exponent else mantissa @ ''e'' @ show_int exponent)"

definition es6Number :: "rat \<Rightarrow> jcs_error + string" where
  "es6Number f =
     (if f = 0 then Inr ''0''
      else let raw = format_g f
           in if CHR ''e'' \<notin> set raw then Inr raw
              else let (mantissa, exponent) = str_cut raw (CHR ''e'')
                   in case atoi exponent of
                        None \<Rightarrow> Inl (InvalidNumber exponent)
                      | Some e \<Rightarrow>
                          if micro \<le> \<bar>f\<bar> \<and> \<bar>f\<bar> < 10 ^ 21 then Inr (exponentToDecimal mantissa e)
                          else Inr (normalizeExponent mantissa e))"

definition canonicalNumber :: "string \<Rightarrow> jcs_error + string" where
  "canonicalNumber raw =
     (if list_ex (\<lambda>c. c = CHR ''.'' \<or> c = CHR ''e'' \<or> c = CHR ''E'') raw
      then (case parse_float raw of None \<Rightarrow> Inl (InvalidNumber raw) | Some f \<Rightarrow> es6Number f)
      else if raw = ''-0'' then Inr ''0''
      else Inr raw)"

section \<open>Strings\<close>

definition jcs_rune :: "char \<Rightarrow> string" where
  "jcs_rune c =
     (let n = byte c
      in if c = CHR 0x22 then [CHR 0x5C, CHR 0x22] else if c = CHR 0x5C then [CHR 0x5C, CHR 0x5C]
         else if n = 8 then [CHR 0x5C, CHR ''b''] else if n = 9 then [CHR 0x5C, CHR ''t'']
         else if n = 10 then [CHR 0x5C, CHR ''n''] else if n = 12 then [CHR 0x5C, CHR ''f'']
         else if n = 13 then [CHR 0x5C, CHR ''r'']
         else if n < 32 then unicode_escape n
         else [c])"

function jcs_escape :: "string \<Rightarrow> string" where
  "jcs_escape s =
     (case s of [] \<Rightarrow> []
      | c # t \<Rightarrow>
          if byte c < 128 then jcs_rune c @ jcs_escape t
          else let (n, valid) = decode_rune s
               in if valid then take n s @ jcs_escape (drop n s) else replacement @ jcs_escape t)"
  by pat_completeness auto
termination
proof (relation "measure length")
  fix s c t n valid x
  assume "s = c # t" "x = decode_rune s" "(n, valid) = x"
  then have "0 < n" using decode_rune_pos [of s] by (metis fst_conv list.distinct(1))
  then show "(drop n s, s) \<in> measure length" using \<open>s = c # t\<close> by simp
qed auto

declare jcs_escape.simps [simp del]

definition writeJCSString :: "string \<Rightarrow> string" where
  "writeJCSString s = CHR 0x22 # jcs_escape s @ [CHR 0x22]"

section \<open>Values\<close>

text \<open>The texts in writing order up to the first error.\<close>

fun join_ok :: "(jcs_error + string) list \<Rightarrow> jcs_error + string list" where
  "join_ok [] = Inr []"
| "join_ok (Inl e # xs) = Inl e"
| "join_ok (Inr t # xs) = (case join_ok xs of Inl e \<Rightarrow> Inl e | Inr ts \<Rightarrow> Inr (t # ts))"

definition jcs_list :: "(jcs_error + string) list \<Rightarrow> jcs_error + string" where
  "jcs_list xs = (case join_ok xs of Inl e \<Rightarrow> Inl e | Inr ts \<Rightarrow> Inr (''['' @ str_join ts '','' @ '']''))"

text \<open>An object: every key must be valid before anything is written, the members follow in key order.\<close>

definition jcs_member :: "string \<times> (jcs_error + string) \<Rightarrow> jcs_error + string" where
  "jcs_member kv =
     (case snd kv of Inl e \<Rightarrow> Inl e | Inr t \<Rightarrow> Inr (writeJCSString (fst kv) @ '':'' @ t))"

definition jcs_object :: "(string \<times> (jcs_error + string)) list \<Rightarrow> jcs_error + string" where
  "jcs_object kvs =
     (if \<not> list_all (\<lambda>kv. valid_utf8 (fst kv)) kvs then Inl ErrInvalidUnicode
      else case join_ok (map jcs_member (sort_key (\<lambda>kv. key_order (fst kv)) kvs)) of
             Inl e \<Rightarrow> Inl e
           | Inr ts \<Rightarrow> Inr (''{'' @ str_join ts '','' @ ''}''))"

fun writeJCSV1 :: "val \<Rightarrow> jcs_error + string"
  and jcs_members :: "payload \<Rightarrow> (string \<times> (jcs_error + string)) list" where
  "writeJCSV1 VNil = Inr ''null''"
| "writeJCSV1 (VBool b) = Inr (if b then ''true'' else ''false'')"
| "writeJCSV1 (VStr s) = (if \<not> valid_utf8 s then Inl ErrInvalidUnicode else Inr (writeJCSString s))"
| "writeJCSV1 (VNum s) = canonicalNumber s"
| "writeJCSV1 (VFloat x) = es6Number x"
| "writeJCSV1 (VInt n) = Inr (show_int n)"
| "writeJCSV1 (VList vs) = jcs_list (map writeJCSV1 vs)"
| "writeJCSV1 (VMaps ms) = jcs_list (map (\<lambda>m. jcs_object (jcs_members m)) ms)"
| "writeJCSV1 (VMap m) = jcs_object (jcs_members m)"
| "writeJCSV1 (VStrs ss) = Inl (Unsupported ''[]string'')"
| "jcs_members [] = []"
| "jcs_members ((k, v) # m) = (k, writeJCSV1 v) # jcs_members m"

section \<open>Escapes of surrogates\<close>

definition readHex4 :: "string \<Rightarrow> nat option" where
  "readHex4 s = (case hex4 s of Some (r, t) \<Rightarrow> Some r | None \<Rightarrow> None)"

text \<open>The scan of \<^verbatim>\<open>validateSurrogateEscapes\<close>, inside and outside of a string literal.\<close>

function escapes_ok :: "bool \<Rightarrow> string \<Rightarrow> bool" where
  "escapes_ok inString s =
     (case s of [] \<Rightarrow> True
      | b # t \<Rightarrow>
          if \<not> inString then escapes_ok (b = CHR 0x22) t
          else if b = CHR 0x22 then escapes_ok False t
          else if b \<noteq> CHR 0x5C then escapes_ok True t
          else (case t of [] \<Rightarrow> True
                | e # u \<Rightarrow>
                    if e \<noteq> CHR ''u'' then escapes_ok True u
                    else (case readHex4 u of
                            None \<Rightarrow> escapes_ok True u
                          | Some code \<Rightarrow>
                              if is_high code
                              then if \<not> has_prefix (drop 4 u) [CHR 0x5C, CHR ''u''] then False
                                   else (case readHex4 (drop 6 u) of
                                           Some next_code \<Rightarrow> is_low next_code \<and> escapes_ok True (drop 10 u)
                                         | None \<Rightarrow> False)
                              else if is_low code then False
                              else escapes_ok True (drop 4 u))))"
  by pat_completeness auto
termination by (relation "measure (length \<circ> snd)") auto

declare escapes_ok.simps [simp del]

definition validateSurrogateEscapes :: "string \<Rightarrow> jcs_error option" where
  "validateSurrogateEscapes data = (if escapes_ok False data then None else Some ErrInvalidUnicode)"

section \<open>Documents and event rows\<close>

definition exclude_keys :: "string list \<Rightarrow> val \<Rightarrow> val" where
  "exclude_keys keys v = (case v of VMap m \<Rightarrow> VMap (filter (\<lambda>kv. fst kv \<notin> set keys) m) | _ \<Rightarrow> v)"

definition CanonicalizeJCSV1JSON :: "string \<Rightarrow> string list \<Rightarrow> jcs_error + string" where
  "CanonicalizeJCSV1JSON data excludeKeys =
     (case validateSurrogateEscapes data of
        Some e \<Rightarrow> Inl e
      | None \<Rightarrow>
          (case json_decode_first number_mode data of
             None \<Rightarrow> Inl JsonError
           | Some (v, rest) \<Rightarrow> writeJCSV1 (exclude_keys excludeKeys v)))"

definition ContentHashForEventRowJSON :: "(string \<Rightarrow> string) \<Rightarrow> string \<Rightarrow> jcs_error + string" where
  "ContentHashForEventRowJSON sha256 data =
     (case CanonicalizeJCSV1JSON data [''content_hash''] of Inl e \<Rightarrow> Inl e | Inr c \<Rightarrow> Inr (sha256 c))"

definition hashed_members :: "event_row \<Rightarrow> payload" where
  "hashed_members r =
     [(''seq'', VInt (rw_seq r)), (''id'', VStr (rw_id r)), (''timestamp'', VStr (rw_timestamp r)),
      (''type'', VStr (event_type_string (rw_type r))), (''payload'', VMap (rw_payload r))]"

definition ContentHashForEventRow :: "(string \<Rightarrow> string) \<Rightarrow> event_row \<Rightarrow> jcs_error + string" where
  "ContentHashForEventRow sha256 r =
     (case writeJCSV1 (VMap (hashed_members r)) of Inl e \<Rightarrow> Inl e | Inr c \<Rightarrow> Inr (sha256 c))"

end
