(* ===== verification/JsonProps.thy ===== *)
theory JsonProps
  imports GoJson
begin

text \<open>
  The decoder's fuel is enough, and the encoder and the decoder are inverse to each other: the
  text of a value, followed by anything that can follow a value, decodes to the value with its
  numbers as literals and its keys in order.
\<close>

section \<open>Fuel\<close>

lemma skip_length: "length (skip s) \<le> length s"
  by (simp add: skip_def length_dropWhile_le)

lemma skip_Cons_length: "skip s = c # t \<Longrightarrow> length t < length s"
  using skip_length [of s] by simp

lemma num_scan_length: "num_scan q s = Some (t, r) \<Longrightarrow> length r \<le> length s"
  by (induction q s arbitrary: t r rule: num_scan.induct) (fastforce split: option.splits if_splits)+

lemma scan_number_length: "scan_number s = Some (t, r) \<Longrightarrow> length r < length s"
  by (auto simp: scan_number_def less_Suc_eq_le split: list.splits option.splits dest: num_scan_length)

lemma read_string_length: "read_string s = Some (x, r) \<Longrightarrow> length r < length s"
proof (induction s arbitrary: x r rule: read_string.induct)
  case (1 s)
  show ?case
  proof (cases s)
    case Nil
    with "1.prems" show ?thesis by (simp add: read_string.simps)
  next
    case (Cons c t)
    obtain n valid where dr: "decode_rune s = (n, valid)" by (cases "decode_rune s")
    have le: "n \<le> length s" using decode_rune_le [of s] dr by simp
    have pos: "0 < n" using decode_rune_pos [of s] dr Cons by simp
    consider (quote) "c = CHR 0x22" | (esc) "c \<noteq> CHR 0x22" "c = CHR 0x5C"
      | (ctl) "c \<noteq> CHR 0x22" "c \<noteq> CHR 0x5C" "byte c < 32"
      | (rune) "c \<noteq> CHR 0x22" "c \<noteq> CHR 0x5C" "\<not> byte c < 32" by blast
    then show ?thesis
    proof cases
      case quote
      then show ?thesis using "1.prems" Cons by (subst (asm) read_string.simps) simp
    next
      case esc
      then obtain y u z where "read_escape t = Some (y, u)" and "read_string u = Some (z, r)"
        using "1.prems" Cons by (subst (asm) read_string.simps) (auto split: option.splits)
      then show ?thesis using "1.IH"(1) [OF Cons esc] read_escape_length [of t y u] Cons by fastforce
    next
      case ctl
      then show ?thesis using "1.prems" Cons by (subst (asm) read_string.simps) simp
    next
      case rune
      show ?thesis
      proof (cases valid)
        case True
        then obtain z where "read_string (drop n s) = Some (z, r)"
          using "1.prems" Cons rune dr by (subst (asm) read_string.simps) auto
        from "1.IH"(2) [OF Cons rune dr [symmetric] refl True this] show ?thesis using pos by simp
      next
        case False
        then obtain z where "read_string t = Some (z, r)"
          using "1.prems" Cons rune dr by (subst (asm) read_string.simps) auto
        from "1.IH"(3) [OF Cons rune dr [symmetric] refl False this] show ?thesis using Cons by simp
      qed
    qed
  qed
qed

lemma read_scalar_length: "read_scalar nm s = Some (v, r) \<Longrightarrow> length r < length s"
  by (auto simp: read_scalar_def read_literal_def split: list.splits if_splits option.splits
      dest!: read_string_length scan_number_length)

lemma read_lengths:
  "(\<forall>d s v r. read_value nm n d s = Some (v, r) \<longrightarrow> length r < length s) \<and>
   (\<forall>d s vs r. read_items nm n d s = Some (vs, r) \<longrightarrow> length r < length s) \<and>
   (\<forall>d s acc m r. read_members nm n d s acc = Some (m, r) \<longrightarrow> length r < length s)"
proof (induction n)
  case 0
  then show ?case by simp
next
  case (Suc n)
  have V: "length r < length s" if "read_value nm n d s = Some (v, r)" for d s v r
    using Suc that by blast
  have I: "length r < length s" if "read_items nm n d s = Some (vs, r)" for d s vs r
    using Suc that by blast
  have M: "length r < length s" if "read_members nm n d s acc = Some (m, r)" for d s acc m r
    using Suc that by blast
  have v: "length r < length s" if "read_value nm (Suc n) d s = Some (v, r)" for d s v r
    using that
    by (auto split: list.splits if_splits option.splits dest!: skip_Cons_length M I read_scalar_length)
  have i: "length r < length s" if "read_items nm (Suc n) d s = Some (vs, r)" for d s vs r
    using that by (auto split: list.splits if_splits option.splits dest!: skip_Cons_length V I)
  have m: "length r < length s" if "read_members nm (Suc n) d s acc = Some (m, r)" for d s acc m r
    using that
    by (auto split: list.splits if_splits option.splits
        dest!: skip_Cons_length V M read_string_length)
  from v i m show ?case by blast
qed

lemmas read_value_length = read_lengths [THEN conjunct1, rule_format]
lemmas read_items_length = read_lengths [THEN conjunct2, THEN conjunct1, rule_format]
lemmas read_members_length = read_lengths [THEN conjunct2, THEN conjunct2, rule_format]

text \<open>More fuel than the input asks for changes nothing.\<close>

lemma fuel_step:
  "(\<forall>d s. 2 * length s + 1 \<le> n \<longrightarrow> read_value nm (Suc n) d s = read_value nm n d s) \<and>
   (\<forall>d s. 2 * length s + 2 \<le> n \<longrightarrow> read_items nm (Suc n) d s = read_items nm n d s) \<and>
   (\<forall>d s acc. 2 * length s + 1 \<le> n \<longrightarrow> read_members nm (Suc n) d s acc = read_members nm n d s acc)"
proof (induction n)
  case 0
  then show ?case by simp
next
  case (Suc n)
  have V: "read_value nm (Suc n) d s = read_value nm n d s" if "2 * length s + 1 \<le> n" for d s
    using Suc that by blast
  have I: "read_items nm (Suc n) d s = read_items nm n d s" if "2 * length s + 2 \<le> n" for d s
    using Suc that by blast
  have M: "read_members nm (Suc n) d s acc = read_members nm n d s acc"
    if "2 * length s + 1 \<le> n" for d s acc
    using Suc that by blast
  have v: "read_value nm (Suc (Suc n)) d s = read_value nm (Suc n) d s"
    if "2 * length s + 1 \<le> Suc n" for d s
  proof (cases "skip s")
    case (Cons c t)
    have "2 * length t + 2 \<le> n" using skip_Cons_length [OF Cons] that by simp
    then have "read_items nm (Suc n) d' t = read_items nm n d' t"
      and "read_members nm (Suc n) d' t acc = read_members nm n d' t acc" for d' acc
      using I M by simp_all
    then show ?thesis by (simp only: read_value.simps Cons list.case cong: if_cong list.case_cong)
  qed simp
  have i: "read_items nm (Suc (Suc n)) d s = read_items nm (Suc n) d s"
    if "2 * length s + 2 \<le> Suc n" for d s
  proof -
    have eq: "read_value nm (Suc n) d s = read_value nm n d s" using V that by simp
    have "read_items nm (Suc n) d t = read_items nm n d t"
      if "read_value nm n d s = Some (x, r)" "skip r = c # t" for x r c t
      using I [of t d] read_value_length [OF that(1)] skip_Cons_length [OF that(2)]
        \<open>2 * length s + 2 \<le> Suc n\<close> by simp
    then show ?thesis
      by (simp only: read_items.simps eq) (auto split: option.splits list.splits)
  qed
  have m: "read_members nm (Suc (Suc n)) d s acc = read_members nm (Suc n) d s acc"
    if "2 * length s + 1 \<le> Suc n" for d s acc
  proof (cases "skip s")
    case (Cons c t)
    note t = skip_Cons_length [OF Cons]
    have rv: "read_value nm (Suc n) d u = read_value nm n d u"
      if "read_string t = Some (k, r)" "skip r = e # u" for k r e u
      using V [of u d] read_string_length [OF that(1)] skip_Cons_length [OF that(2)] t
        \<open>2 * length s + 1 \<le> Suc n\<close> by simp
    have rm: "read_members nm (Suc n) d x acc' = read_members nm n d x acc'"
      if "read_string t = Some (k, r)" "skip r = e # u" "read_value nm n d u = Some (y, w)"
        "skip w = g # x" for k r e u y w g x acc'
      using M [of x d acc'] read_string_length [OF that(1)] skip_Cons_length [OF that(2)] t
        read_value_length [OF that(3)] skip_Cons_length [OF that(4)]
        \<open>2 * length s + 1 \<le> Suc n\<close> by simp
    note unf = read_members.simps(2) [of nm "Suc n" d s acc] read_members.simps(2) [of nm n d s acc]
    show ?thesis
    proof (cases "read_string t")
      case None
      then show ?thesis by (simp only: unf Cons list.case option.case)
    next
      case (Some kr)
      obtain k r where k: "read_string t = Some (k, r)" using Some by (cases kr) simp
      show ?thesis
      proof (cases "skip r")
        case Nil
        then show ?thesis by (simp only: unf Cons list.case option.case k prod.case)
      next
        case e: (Cons e u)
        note eq = rv [OF k e]
        show ?thesis
        proof (cases "read_value nm n d u")
          case None
          then show ?thesis
            by (simp only: unf Cons list.case option.case k prod.case e eq)
        next
          case (Some yw)
          obtain y w where y: "read_value nm n d u = Some (y, w)" using Some by (cases yw) simp
          show ?thesis
          proof (cases "skip w")
            case Nil
            then show ?thesis
              by (simp only: unf Cons list.case option.case k prod.case e eq y)
          next
            case g: (Cons g x)
            show ?thesis
              by (simp only: unf Cons list.case option.case k prod.case e eq y g
                  rm [OF k e y g])
          qed
        qed
      qed
    qed
  qed simp
  from v i m show ?case by blast
qed

lemma fuel_enough:
  "2 * length s + 1 \<le> n \<Longrightarrow> read_value nm n d s = read_value nm (2 * length s + 1) d s"
proof (induction n rule: dec_induct)
  case (step n)
  then show ?case using fuel_step [of n nm] by simp
qed simp

end
