(* ===== verification/JsonRoundtrip.thy ===== *)
theory JsonRoundtrip
  imports JsonProps
begin

text \<open>
  What \<^verbatim>\<open>Marshal\<close> writes, a decoder with \<^verbatim>\<open>UseNumber\<close> reads: the same value, with its numbers as
  literals, its keys in byte order, and every slice an \<^verbatim>\<open>[]any\<close>.
\<close>

section \<open>Numbers\<close>

text \<open>What can follow a value: the end, or a byte no number goes on with.\<close>

definition delim :: "string \<Rightarrow> bool" where
  "delim r \<longleftrightarrow> (case r of [] \<Rightarrow> True | c # _ \<Rightarrow> c = CHR '','' \<or> c = CHR '']'' \<or> c = CHR ''}'' \<or> c = CHR 0x0A)"

lemma num_step_delim:
  "c = CHR '','' \<or> c = CHR '']'' \<or> c = CHR ''}'' \<or> c = CHR 0x0A \<Longrightarrow> num_step q c = None"
  by (cases q) (auto simp: exp_char_def is_digit_def)

lemma num_scan_append:
  "num_scan q s = Some (s, []) \<Longrightarrow> delim r \<Longrightarrow> num_scan q (s @ r) = Some (s, r)"
proof (induction s arbitrary: q)
  case Nil
  then show ?case
    by (cases r) (auto simp: delim_def num_step_delim split: if_splits)
next
  case (Cons c s)
  then obtain q' where q': "num_step q c = Some q'" and "num_scan q' s = Some (s, [])"
    by (auto split: option.splits if_splits)
  with Cons show ?case by simp
qed

lemma scan_number_append:
  assumes "is_json_number s" and "delim r"
  shows "scan_number (s @ r) = Some (s, r)"
proof (cases s)
  case Nil
  with assms show ?thesis by (simp add: is_json_number_def scan_number_def)
next
  case (Cons c t)
  with assms obtain q where "num_start c = Some q" and "num_scan q t = Some (t, [])"
    by (auto simp: is_json_number_def scan_number_def split: option.splits)
  with Cons num_scan_append [OF _ assms(2)] show ?thesis by (simp add: scan_number_def)
qed

lemma num_scan_digits: "list_all is_digit s \<Longrightarrow> num_scan NInt s = Some (s, [])"
  by (induction s) (auto simp: num_final_def)

lemma show_nat_hd_pos: "0 < n \<Longrightarrow> hd (show_nat n) \<noteq> CHR ''0''"
proof (induction n rule: show_nat.induct)
  case (1 n)
  show ?case
  proof (cases "n < 10")
    case True
    with "1.prems" have "digit_val (digit_char n) \<noteq> digit_val (CHR ''0'')"
      by (simp add: digit_val_char) (simp add: digit_val_def)
    with True show ?thesis by (subst show_nat.simps) auto
  next
    case False
    with 1 show ?thesis by (subst show_nat.simps) (simp add: hd_append)
  qed
qed

lemma show_nat_number: "is_json_number (show_nat n)" "0 < n \<Longrightarrow> is_json_number (CHR ''-'' # show_nat n)"
proof -
  obtain c t where ct: "show_nat n = c # t" by (cases "show_nat n") auto
  then have d: "is_digit c" "list_all is_digit t" using show_nat_all_digits [of n] by simp_all
  have nm: "c \<noteq> CHR ''-''" using d(1) by (auto simp: is_digit_def)
  have pos: "c \<noteq> CHR ''0''" if "0 < n" using show_nat_hd_pos [OF that] ct by simp
  show "is_json_number (show_nat n)"
  proof (cases "n = 0")
    case True
    moreover have "digit_char 0 = CHR ''0''" by code_simp
    ultimately show ?thesis
      by (subst show_nat.simps) (simp add: is_json_number_def scan_number_def num_start_def num_final_def)
  next
    case False
    then show ?thesis using ct d nm pos num_scan_digits [of t]
      by (simp add: is_json_number_def scan_number_def num_start_def)
  qed
  show "is_json_number (CHR ''-'' # show_nat n)" if "0 < n"
    using ct d pos [OF that] num_scan_digits [of t]
    by (simp add: is_json_number_def scan_number_def num_start_def)
qed

lemma show_int_number: "is_json_number (show_int n)"
  by (simp add: show_int_def show_nat_number)

section \<open>Strings\<close>

lemma hex_val_digit: "d < 16 \<Longrightarrow> hex_val (hex_digit d) = Some d"
  by (auto simp: hex_val_def hex_digit_def byte_def Let_def)

lemma hex4_small: "n < 256 \<Longrightarrow>
    hex4 (CHR ''0'' # CHR ''0'' # hex_digit (n div 16) # hex_digit (n mod 16) # s) = Some (n, s)"
  by (auto simp: hex_val_digit hex_val_def [of "CHR ''0''"] byte_def Let_def)

lemma char_of_byte [simp]: "char_of (byte c) = c"
  by (simp add: byte_def)

lemma read_escape_unicode:
  assumes "byte c < 128"
  shows "read_string (unicode_escape (byte c) @ s) = map_option (\<lambda>(v, r). (c # v, r)) (read_string s)"
proof -
  have "read_escape (CHR ''u'' # CHR ''0'' # CHR ''0'' # hex_digit (byte c div 16) #
      hex_digit (byte c mod 16) # s) = Some ([c], s)"
    using assms by (simp add: read_escape_def hex4_small is_high_def is_low_def utf8_encode_def del: hex4.simps)
  then show ?thesis
    by (subst read_string.simps) (simp add: unicode_escape_def)
qed

lemma read_simple_escape:
  assumes "simple_escape e = Some x" and "e \<noteq> CHR ''u''"
  shows "read_string (CHR 0x5C # e # s) = map_option (\<lambda>(v, r). (x # v, r)) (read_string s)"
  using assms by (subst read_string.simps) (simp add: read_escape_def)

lemma read_plain:
  assumes "byte c < 128" "32 \<le> byte c" "c \<noteq> CHR 0x22" "c \<noteq> CHR 0x5C"
  shows "read_string (c # s) = map_option (\<lambda>(v, r). (c # v, r)) (read_string s)"
  using assms by (subst read_string.simps) (simp add: continuation_def)

lemma byte_inject: "byte c = byte d \<longleftrightarrow> c = d"
  by (metis char_of_byte)

lemma byte_controls:
  "byte (CHR 0x08) = 8" "byte (CHR 0x09) = 9" "byte (CHR 0x0A) = 10" "byte (CHR 0x0C) = 12"
  "byte (CHR 0x0D) = 13"
  by (simp_all add: byte_def)

lemma escape_ascii_controls:
  "escape_ascii html (CHR 0x08) = [CHR 0x5C, CHR ''b'']" "escape_ascii html (CHR 0x09) = [CHR 0x5C, CHR ''t'']"
  "escape_ascii html (CHR 0x0A) = [CHR 0x5C, CHR ''n'']" "escape_ascii html (CHR 0x0C) = [CHR 0x5C, CHR ''f'']"
  "escape_ascii html (CHR 0x0D) = [CHR 0x5C, CHR ''r'']"
  by (simp_all add: escape_ascii_def byte_controls)

lemma read_escape_ascii:
  assumes "byte c < 128"
  shows "read_string (escape_ascii html c @ s) = map_option (\<lambda>(v, r). (c # v, r)) (read_string s)"
proof -
  consider (q) "c = CHR 0x22 \<or> c = CHR 0x5C" | (b) "byte c \<in> {8, 12, 10, 13, 9}"
    | (u) "escape_ascii html c = unicode_escape (byte c)"
    | (p) "escape_ascii html c = [c]" "32 \<le> byte c" "c \<noteq> CHR 0x22" "c \<noteq> CHR 0x5C"
    by (cases "c = CHR 0x22 \<or> c = CHR 0x5C"; cases "byte c \<in> {8, 12, 10, 13, 9}";
        cases "byte c < 32 \<or> (html \<and> (c = CHR ''<'' \<or> c = CHR ''>'' \<or> c = CHR ''&''))")
      (auto simp: escape_ascii_def Let_def split: if_splits)
  then show ?thesis
  proof cases
    case q
    then show ?thesis
      by (auto simp: escape_ascii_def simple_escape_def read_simple_escape)
  next
    case b
    then have "c \<in> {CHR 0x08, CHR 0x0C, CHR 0x0A, CHR 0x0D, CHR 0x09}"
      by (simp add: byte_inject [symmetric] byte_controls)
    then obtain e where "escape_ascii html c = [CHR 0x5C, e]" "simple_escape e = Some c" "e \<noteq> CHR ''u''"
      by (auto simp: escape_ascii_controls simple_escape_def)
    then show ?thesis by (simp add: read_simple_escape)
  next
    case u
    then show ?thesis using read_escape_unicode [OF assms] by simp
  next
    case p
    then show ?thesis using read_plain [OF assms] by simp
  qed
qed

lemma matches_take: "matches rs s \<Longrightarrow> matches rs (take (length rs) s @ t)"
  by (induction rs s rule: matches.induct) auto

lemma decode_rune_take:
  assumes "decode_rune s = (n, True)"
  shows "decode_rune (take n s @ t) = (n, True)"
proof (cases s)
  case Nil
  with assms show ?thesis by simp
next
  case (Cons c u)
  with assms obtain rs where rs: "continuation c = Some rs" "matches rs u" "n = Suc (length rs)"
    by (auto split: option.splits if_splits)
  then show ?thesis using Cons matches_take [OF rs(2)] by simp
qed

lemma read_rune:
  assumes "decode_rune s = (n, True)" and "s = c # u" and "\<not> byte c < 128"
  shows "read_string (take n s @ t) = map_option (\<lambda>(v, r). (take n s @ v, r)) (read_string t)"
proof -
  have n: "0 < n" using decode_rune_pos [of s] assms by simp
  have le: "n \<le> length s" using decode_rune_le [of s] assms(1) by simp
  obtain w where w: "take n s = c # w" using n assms(2) by (cases n) auto
  have len: "length (c # w) = n" using le w by (metis length_take min.absorb2)
  have dec: "decode_rune (c # w @ t) = (n, True)" using decode_rune_take [OF assms(1), of t] w by simp
  have c: "c \<noteq> CHR 0x22" "c \<noteq> CHR 0x5C" "\<not> byte c < 32" using assms(3) by (auto simp: byte_def)
  have tk: "take n (c # w @ t) = c # w" "drop n (c # w @ t) = t" using len by auto
  show ?thesis
    unfolding w by (subst read_string.simps) (simp add: c dec tk del: decode_rune.simps)
qed

lemma hex4_2028: "hex4 (''2028'' @ s) = Some (8232, s)" "hex4 (''2029'' @ s) = Some (8233, s)"
  by (simp_all add: hex_val_def byte_def)

lemma read_escape_rune:
  assumes "decode_rune s = (n, True)" and "s = c # u" and "\<not> byte c < 128"
  shows "read_string (escape_rune (take n s) @ t) = map_option (\<lambda>(v, r). (take n s @ v, r)) (read_string t)"
proof -
  have esc: "read_string (CHR 0x5C # CHR ''u'' # h @ t) = map_option (\<lambda>(v, r). (utf8_encode m @ v, r)) (read_string t)"
    if "hex4 (h @ t) = Some (m, t)" "\<not> is_high m" "\<not> is_low m" for h m
    using that by (subst read_string.simps) (simp add: read_escape_def)
  have h: "\<not> is_high 8232" "\<not> is_low 8232" "\<not> is_high 8233" "\<not> is_low 8233"
    by (simp_all add: is_high_def is_low_def)
  show ?thesis
    using esc [of "''2028''" 8232] esc [of "''2029''" 8233] h hex4_2028 [of t] read_rune [OF assms]
    by (simp add: escape_rune_def)
qed

lemma read_escape_string:
  "valid_utf8 s \<Longrightarrow> read_string (escape_string html s @ CHR 0x22 # r) = Some (s, r)"
proof (induction html s rule: escape_string.induct)
  case (1 html s)
  show ?case
  proof (cases s)
    case Nil
    then show ?thesis by (simp add: escape_string.simps read_string.simps)
  next
    case (Cons c t)
    obtain n valid where dr: "decode_rune s = (n, valid)" by (cases "decode_rune s")
    have v: "valid" "valid_utf8 (drop n s)"
      using "1.prems" Cons dr by (simp_all add: valid_utf8.simps [of "c # t"] del: decode_rune.simps)
    show ?thesis
    proof (cases "byte c < 128")
      case True
      then have "n = 1" using dr Cons by (simp add: continuation_def)
      then have "valid_utf8 t" using v Cons by simp
      with "1.IH"(1) [OF Cons True] have "read_string (escape_string html t @ CHR 0x22 # r) = Some (t, r)"
        by simp
      then show ?thesis using Cons True read_escape_ascii [OF True]
        by (subst escape_string.simps) simp
    next
      case False
      have "read_string (escape_string html (drop n s) @ CHR 0x22 # r) = Some (drop n s, r)"
        using "1.IH"(2) [OF Cons False dr [symmetric] refl v(1)] v(2) by simp
      then show ?thesis using Cons False read_escape_rune [OF _ Cons False, of n] dr v(1)
        by (subst escape_string.simps) (simp del: decode_rune.simps)
    qed
  qed
qed

section \<open>Values\<close>

text \<open>What a value decodes to.\<close>

definition number_of :: "(string \<Rightarrow> val option) \<Rightarrow> string \<Rightarrow> val" where
  "number_of nm s = (case nm s of Some v \<Rightarrow> v | None \<Rightarrow> VNil)"

fun decoded :: "(string \<Rightarrow> val option) \<Rightarrow> val \<Rightarrow> val"
  and decoded_members :: "(string \<Rightarrow> val option) \<Rightarrow> payload \<Rightarrow> payload" where
  "decoded nm (VInt n) = number_of nm (show_int n)"
| "decoded nm (VFloat x) = number_of nm (json_float x)"
| "decoded nm (VNum s) = number_of nm (if s = [] then ''0'' else s)"
| "decoded nm (VList vs) = VList (map (decoded nm) vs)"
| "decoded nm (VStrs ss) = VList (map VStr ss)"
| "decoded nm (VMaps ms) = VList (map (\<lambda>m. VMap (sort_key fst (decoded_members nm m))) ms)"
| "decoded nm (VMap m) = VMap (sort_key fst (decoded_members nm m))"
| "decoded nm v = v"
| "decoded_members nm [] = []"
| "decoded_members nm ((k, v) # m) = (k, decoded nm v) # decoded_members nm m"

text \<open>The values that survive: strings are UTF-8, literals and printed floats are JSON numbers,
  keys are distinct, the nesting is at most \<open>d\<close>.\<close>

definition reads_as :: "(string \<Rightarrow> val option) \<Rightarrow> string \<Rightarrow> bool" where
  "reads_as nm s \<longleftrightarrow> is_json_number s \<and> nm s \<noteq> None"

fun json_ok :: "(string \<Rightarrow> val option) \<Rightarrow> nat \<Rightarrow> val \<Rightarrow> bool"
  and json_ok_members :: "(string \<Rightarrow> val option) \<Rightarrow> nat \<Rightarrow> payload \<Rightarrow> bool" where
  "json_ok nm d (VInt n) \<longleftrightarrow> reads_as nm (show_int n)"
| "json_ok nm d (VFloat x) \<longleftrightarrow> reads_as nm (json_float x)"
| "json_ok nm d (VNum s) \<longleftrightarrow> reads_as nm (if s = [] then ''0'' else s)"
| "json_ok nm d (VStr s) \<longleftrightarrow> valid_utf8 s"
| "json_ok nm d (VList vs) \<longleftrightarrow> 0 < d \<and> list_all (json_ok nm (d - 1)) vs"
| "json_ok nm d (VStrs ss) \<longleftrightarrow> 0 < d \<and> list_all valid_utf8 ss"
| "json_ok nm d (VMaps ms) \<longleftrightarrow>
     1 < d \<and> list_all (\<lambda>m. distinct (map fst m) \<and> json_ok_members nm (d - 2) m) ms"
| "json_ok nm d (VMap m) \<longleftrightarrow> 0 < d \<and> distinct (map fst m) \<and> json_ok_members nm (d - 1) m"
| "json_ok nm d v \<longleftrightarrow> True"
| "json_ok_members nm d [] \<longleftrightarrow> True"
| "json_ok_members nm d ((k, v) # m) \<longleftrightarrow> valid_utf8 k \<and> json_ok nm d v \<and> json_ok_members nm d m"

text \<open>\<open>reads nm d s v r\<close>: with some fuel the decoder finds \<open>v\<close> at the head of \<open>s\<close> and leaves \<open>r\<close>.\<close>

definition reads :: "(string \<Rightarrow> val option) \<Rightarrow> nat \<Rightarrow> string \<Rightarrow> val \<Rightarrow> string \<Rightarrow> bool" where
  "reads nm d s v r \<longleftrightarrow> read_value nm (2 * length s + 2) d s = Some (v, r)"

lemma reads_fuel:
  "reads nm d s v r \<longleftrightarrow> read_value nm n d s = Some (v, r)" if "2 * length s + 1 \<le> n"
  using that fuel_enough [of s n nm d] fuel_enough [of s "2 * length s + 2" nm d]
  by (simp add: reads_def)

text \<open>The text of \<open>v\<close>, whatever follows it.\<close>

definition decodes :: "(string \<Rightarrow> val option) \<Rightarrow> nat \<Rightarrow> string \<Rightarrow> val \<Rightarrow> bool" where
  "decodes nm d t v \<longleftrightarrow> (\<forall>r. delim r \<longrightarrow> reads nm d (t @ r) v r)"

definition value_start :: "char \<Rightarrow> bool" where
  "value_start c \<longleftrightarrow>
     \<not> json_space c \<and> c \<noteq> CHR '']'' \<and> c \<noteq> CHR ''}'' \<and> c \<noteq> CHR '','' \<and> c \<noteq> CHR '':''"

definition starts :: "string \<Rightarrow> bool" where
  "starts t \<longleftrightarrow> (case t of [] \<Rightarrow> False | c # _ \<Rightarrow> value_start c)"

lemma skip_starts [simp]: "starts t \<Longrightarrow> skip (t @ r) = t @ r"
  by (cases t) (auto simp: starts_def value_start_def skip_def)

lemma skip_quote [simp]: "skip (CHR 0x22 # t) = CHR 0x22 # t"
  by (simp add: skip_def json_space_def)

lemma skip_punct [simp]:
  "skip (CHR '']'' # t) = CHR '']'' # t" "skip (CHR ''}'' # t) = CHR ''}'' # t"
  "skip (CHR '','' # t) = CHR '','' # t" "skip (CHR '':'' # t) = CHR '':'' # t"
  "skip (CHR ''['' # t) = CHR ''['' # t" "skip (CHR ''{'' # t) = CHR ''{'' # t"
  by (simp_all add: skip_def json_space_def)

lemma decodes_scalar:
  assumes "starts t" and "\<And>r. delim r \<Longrightarrow> read_scalar nm (t @ r) = Some (v, r)"
    and "hd t \<noteq> CHR ''{''" and "hd t \<noteq> CHR ''[''"
  shows "decodes nm d t v"
proof -
  have "reads nm d (t @ r) v r" if "delim r" for r
  proof -
    obtain c u where t: "t = c # u" using assms(1) by (cases t) (auto simp: starts_def)
    have "skip (t @ r) = c # u @ r" using skip_starts [OF assms(1), of r] t by simp
    then show ?thesis using assms(2) [OF that] assms(3,4) t by (simp add: reads_def)
  qed
  then show ?thesis by (simp add: decodes_def)
qed

lemma is_json_number_start: "is_json_number s \<Longrightarrow> \<exists>c u. s = c # u \<and> (c = CHR ''-'' \<or> is_digit c)"
  by (cases s) (auto simp: is_json_number_def scan_number_def num_start_def is_digit_def
      split: option.splits if_splits)

lemma decodes_number:
  assumes "reads_as nm s"
  shows "starts s" and "decodes nm d s (number_of nm s)"
proof -
  obtain y where num: "is_json_number s" and y: "nm s = Some y" using assms by (auto simp: reads_as_def)
  obtain c u where s: "s = c # u" and c: "c = CHR ''-'' \<or> is_digit c"
    using is_json_number_start [OF num] by blast
  have c': "value_start c" "c \<noteq> CHR 0x22" "c \<noteq> CHR ''t''" "c \<noteq> CHR ''f''" "c \<noteq> CHR ''n''"
    "c \<noteq> CHR ''{''" "c \<noteq> CHR ''[''"
    using c by (auto simp: value_start_def json_space_def is_digit_def)
  show st: "starts s" using s c'(1) by (simp add: starts_def)
  show "decodes nm d s (number_of nm s)"
  proof (rule decodes_scalar [OF st])
    fix r assume "delim r"
    from scan_number_append [OF num this] show "read_scalar nm (s @ r) = Some (number_of nm s, r)"
      using s c' y by (simp add: read_scalar_def number_of_def)
  qed (use s c' in simp_all)
qed

lemma decodes_string:
  assumes "valid_utf8 s"
  shows "starts (quote_json html s)" and "decodes nm d (quote_json html s) (VStr s)"
proof -
  show st: "starts (quote_json html s)"
    by (simp add: starts_def quote_json_def value_start_def json_space_def)
  show "decodes nm d (quote_json html s) (VStr s)"
    by (rule decodes_scalar [OF st])
      (simp_all add: quote_json_def read_scalar_def read_escape_string [OF assms])
qed

lemma decodes_word:
  "starts ''null''" "starts ''true''" "starts ''false''"
  "decodes nm d ''null'' VNil" "decodes nm d ''true'' (VBool True)" "decodes nm d ''false'' (VBool False)"
proof -
  show st: "starts ''null''" "starts ''true''" "starts ''false''"
    by (simp_all add: starts_def value_start_def json_space_def)
  show "decodes nm d ''null'' VNil" "decodes nm d ''true'' (VBool True)" "decodes nm d ''false'' (VBool False)"
    by (rule decodes_scalar; simp add: st read_scalar_def read_literal_def has_prefix_def)+
qed

lemma json_list_starts: "starts (json_list ts)"
  by (simp add: json_list_def starts_def value_start_def json_space_def)

lemma json_object_starts: "starts (json_object html kvs)"
  by (simp add: json_object_def starts_def value_start_def json_space_def)

text \<open>Items, by induction on the list; the fuel is what the text asks for.\<close>

lemma read_items_texts:
  assumes "list_all2 (decodes nm d) ts vs" and "list_all starts ts" and "ts \<noteq> []"
    and "2 * length (str_join ts '','' @ '']'' @ r) + 2 \<le> n"
  shows "read_items nm n d (str_join ts '','' @ '']'' @ r) = Some (vs, r)"
  using assms
proof (induction ts arbitrary: vs n)
  case (Cons t ts)
  then obtain v vs' where vs: "vs = v # vs'" "decodes nm d t v" "list_all2 (decodes nm d) ts vs'"
    by (auto simp: list_all2_Cons1)
  obtain m where n: "n = Suc m" using Cons.prems(4) by (cases n) auto
  show ?case
  proof (cases ts)
    case Nil
    have "reads nm d (t @ '']'' @ r) v ('']'' @ r)" using vs(2) by (simp add: decodes_def delim_def)
    then have "read_value nm m d (t @ '']'' @ r) = Some (v, '']'' @ r)"
      using Cons.prems(4) n Nil by (subst (asm) reads_fuel [of _ m]) auto
    then show ?thesis using Nil vs n by simp
  next
    case c: (Cons t2 ts2)
    let ?r = "'','' @ str_join ts '','' @ '']'' @ r"
    have eq: "str_join (t # ts) '','' @ '']'' @ r = t @ ?r" using c by simp
    have "reads nm d (t @ ?r) v ?r" using vs(2) by (simp add: decodes_def delim_def)
    then have rv: "read_value nm m d (t @ ?r) = Some (v, ?r)"
      using Cons.prems(4) n eq by (subst (asm) reads_fuel [of _ m]) auto
    have "read_items nm m d (str_join ts '','' @ '']'' @ r) = Some (vs', r)"
      using Cons.prems(2,4) n eq c vs(3) by (intro Cons.IH) auto
    with rv show ?thesis unfolding eq n by (simp add: vs(1) del: str_join.simps)
  qed
qed simp

lemma decodes_list:
  assumes "list_all2 (decodes nm d) ts vs" and "list_all starts ts"
  shows "decodes nm (Suc d) (json_list ts) (VList vs)"
proof -
  have "reads nm (Suc d) (json_list ts @ r) (VList vs) r" if "delim r" for r
  proof (cases ts)
    case Nil
    then show ?thesis using assms(1) by (simp add: reads_def json_list_def)
  next
    case (Cons t ts')
    then have st: "starts (str_join ts '','' @ '']'' @ r)" "starts t"
      using assms(2) by (cases ts'; cases t; simp add: starts_def)+
    then obtain e u where e: "str_join ts '','' @ '']'' @ r = e # u" "e \<noteq> CHR '']''"
      by (cases "str_join ts '','' @ '']'' @ r") (auto simp: starts_def value_start_def)
    have sk: "skip (e # u) = e # u" using skip_starts [OF st(1), of "[]"] e by simp
    have "read_items nm (2 * length (e # u) + 2) d (e # u) = Some (vs, r)"
      using read_items_texts [OF assms] Cons e by (metis le_refl list.distinct(1))
    moreover have "json_list ts @ r = CHR ''['' # e # u"
      using e by (simp add: json_list_def)
    ultimately show ?thesis
      using e(2) sk
      by (simp add: reads_fuel [of _ "Suc (2 * length (e # u) + 2)"] del: read_items.simps)
  qed
  then show ?thesis by (simp add: decodes_def)
qed

text \<open>Members.\<close>

definition member_ok :: "(string \<Rightarrow> val option) \<Rightarrow> nat \<Rightarrow> string \<times> string \<Rightarrow> string \<times> val \<Rightarrow> bool" where
  "member_ok nm d kt kv \<longleftrightarrow> fst kt = fst kv \<and> valid_utf8 (fst kt) \<and> starts (snd kt) \<and> decodes nm d (snd kt) (snd kv)"

definition put_all :: "payload \<Rightarrow> payload \<Rightarrow> payload" where
  "put_all kvs acc = fold (\<lambda>kv. pset (fst kv) (snd kv)) kvs acc"

lemma put_all_simps [simp]:
  "put_all [] acc = acc" "put_all (kv # kvs) acc = put_all kvs (pset (fst kv) (snd kv) acc)"
  by (simp_all add: put_all_def)

lemma pset_fresh: "k \<notin> fst ` set m \<Longrightarrow> pset k v m = m @ [(k, v)]"
  by (simp add: pset_def update_conv')
    (induction m; force)

lemma put_all_distinct:
  "distinct (map fst kvs) \<Longrightarrow> fst ` set kvs \<inter> fst ` set acc = {} \<Longrightarrow> put_all kvs acc = acc @ kvs"
proof (induction kvs arbitrary: acc)
  case (Cons kv kvs)
  then have "pset (fst kv) (snd kv) acc = acc @ [kv]" by (simp add: pset_fresh)
  with Cons show ?case by (cases kv) auto
qed simp

lemma read_member_step:
  assumes "valid_utf8 k" and "read_value nm n d u = Some (v, w)"
  shows "read_members nm (Suc n) d (quote_json html k @ '':'' @ u) acc =
    (case skip w of
       [] \<Rightarrow> None
     | g # x \<Rightarrow>
         if g = CHR ''}'' then Some (pset k v acc, x)
         else if g = CHR '','' then read_members nm n d x (pset k v acc) else None)"
proof -
  have "read_string (escape_string html k @ CHR 0x22 # CHR '':'' # u) = Some (k, CHR '':'' # u)"
    by (rule read_escape_string [OF assms(1)])
  then show ?thesis using assms(2) by (simp add: quote_json_def)
qed

lemma read_members_texts:
  assumes "list_all2 (member_ok nm d) kts kvs" and "kts \<noteq> []"
    and "2 * length (str_join (map (json_member html) kts) '','' @ ''}'' @ r) + 1 \<le> n"
  shows "read_members nm n d (str_join (map (json_member html) kts) '','' @ ''}'' @ r) acc =
    Some (put_all kvs acc, r)"
  using assms
proof (induction kts arbitrary: kvs n acc)
  case (Cons kt kts)
  obtain k t where kt: "kt = (k, t)" by (cases kt)
  obtain kv kvs' where eq1: "kvs = kv # kvs'" "member_ok nm d kt kv" and all: "list_all2 (member_ok nm d) kts kvs'"
    using Cons.prems(1) by (auto simp: list_all2_Cons1)
  obtain v where kvs: "kvs = (k, v) # kvs'" "list_all2 (member_ok nm d) kts kvs'"
    and ok: "valid_utf8 k" "decodes nm d t v"
    using eq1 all kt by (cases kv) (simp add: member_ok_def)
  obtain m where n: "n = Suc m" using Cons.prems(3) by (cases n) auto
  let ?q = "quote_json html k @ '':''"
  show ?case
  proof (cases kts)
    case Nil
    have eq: "str_join (map (json_member html) (kt # kts)) '','' @ ''}'' @ r = quote_json html k @ '':'' @ t @ ''}'' @ r"
      using Nil kt by (simp add: json_member_def)
    have "reads nm d (t @ ''}'' @ r) v (''}'' @ r)" using ok(2) by (simp add: decodes_def delim_def)
    then have rv: "read_value nm m d (t @ ''}'' @ r) = Some (v, ''}'' @ r)"
      using Cons.prems(3) unfolding eq n by (subst (asm) reads_fuel [of _ m]) auto
    show ?thesis unfolding eq n by (subst read_member_step [OF ok(1) rv]) (use Nil kvs in simp)
  next
    case c: (Cons kt2 kts2)
    let ?s = "str_join (map (json_member html) kts) '','' @ ''}'' @ r"
    have eq: "str_join (map (json_member html) (kt # kts)) '','' @ ''}'' @ r = quote_json html k @ '':'' @ t @ '','' @ ?s"
      using c kt by (simp add: json_member_def)
    have "reads nm d (t @ '','' @ ?s) v ('','' @ ?s)" using ok(2) by (simp add: decodes_def delim_def)
    then have rv: "read_value nm m d (t @ '','' @ ?s) = Some (v, '','' @ ?s)"
      using Cons.prems(3) unfolding eq n by (subst (asm) reads_fuel [of _ m]) auto
    have "read_members nm m d ?s (pset k v acc) = Some (put_all kvs' (pset k v acc), r)"
      using Cons.prems(3) c kvs(2) unfolding eq n by (intro Cons.IH) auto
    then show ?thesis unfolding eq n by (subst read_member_step [OF ok(1) rv]) (simp add: kvs(1))
  qed
qed simp

lemma decodes_object:
  assumes "list_all2 (member_ok nm d) (sort_key fst kts) kvs" and "distinct (map fst kvs)"
  shows "decodes nm (Suc d) (json_object html kts) (VMap kvs)"
proof -
  let ?kts = "sort_key fst kts"
  have "reads nm (Suc d) (json_object html kts @ r) (VMap kvs) r" if "delim r" for r
  proof (cases ?kts)
    case Nil
    then show ?thesis using assms(1) by (simp add: reads_def json_object_def del: sort_key_simps)
  next
    case (Cons kt kts')
    let ?s = "str_join (map (json_member html) ?kts) '','' @ ''}'' @ r"
    obtain u where u: "?s = CHR 0x22 # u"
      unfolding Cons by (cases kts') (simp_all add: json_member_def quote_json_def)
    have "read_members nm (2 * length ?s + 2) d ?s [] = Some (put_all kvs [], r)"
      using Cons by (intro read_members_texts [OF assms(1)]) auto
    then have "read_members nm (2 * length ?s + 2) d ?s [] = Some (kvs, r)"
      using put_all_distinct [OF assms(2), of "[]"] by simp
    moreover have "json_object html kts @ r = CHR ''{'' # ?s" by (simp add: json_object_def)
    ultimately have "read_value nm (Suc (2 * length ?s + 2)) (Suc d) (json_object html kts @ r) = Some (VMap kvs, r)"
      unfolding u by (simp del: read_members.simps)
    then show ?thesis
      by (rule reads_fuel [THEN iffD2, rotated]) (simp add: json_object_def)
  qed
  then show ?thesis by (simp add: decodes_def)
qed

section \<open>The round trip\<close>

lemma sort_key_map: "sort_key f (map g xs) = map g (sort_key (f \<circ> g) xs)"
proof -
  have "insort_key f (g x) (map g ys) = map g (insort_key (f \<circ> g) x ys)" for x ys
    by (induction ys) auto
  then show ?thesis by (induction xs) simp_all
qed

lemma json_members_map: "json_members html m = map (\<lambda>(k, v). (k, json_text html v)) m"
  by (induction m) auto

lemma decoded_members_map: "decoded_members nm m = map (\<lambda>(k, v). (k, decoded nm v)) m"
  by (induction m) auto

lemma decodes_members:
  assumes "distinct (map fst m)"
    and "\<And>k v. (k, v) \<in> set m \<Longrightarrow> valid_utf8 k \<and> starts (json_text html v) \<and> decodes nm d (json_text html v) (decoded nm v)"
  shows "decodes nm (Suc d) (json_object html (json_members html m)) (VMap (sort_key fst (decoded_members nm m)))"
proof (rule decodes_object)
  have fst_eq: "(fst \<circ> (\<lambda>(k, v). (k, h v))) = fst" for h :: "val \<Rightarrow> 'x" by auto
  show "list_all2 (member_ok nm d) (sort_key fst (json_members html m)) (sort_key fst (decoded_members nm m))"
    unfolding json_members_map decoded_members_map sort_key_map fst_eq list_all2_map1 list_all2_map2
    unfolding list_all2_same by (rule ballI)
      (use assms(2) in \<open>auto simp: member_ok_def\<close>)
  have "distinct (map fst (sort_key fst m))" using assms(1) by (simp add: distinct_map)
  then show "distinct (map fst (sort_key fst (decoded_members nm m)))"
    unfolding decoded_members_map sort_key_map fst_eq by (simp add: fst_eq)
qed

lemma json_texts_map: "json_texts html vs = map (json_text html) vs"
  by (induction vs) auto

lemma json_objects_map: "json_objects html ms = map (\<lambda>m. json_object html (json_members html m)) ms"
  by (induction ms) auto

lemma json_ok_members_iff: "json_ok_members nm d m \<longleftrightarrow> (\<forall>(k, v) \<in> set m. valid_utf8 k \<and> json_ok nm d v)"
  by (induction m) auto

lemma decodes_texts:
  assumes "\<And>x. x \<in> set xs \<Longrightarrow> starts (f x) \<and> decodes nm d (f x) (g x)"
  shows "decodes nm (Suc d) (json_list (map f xs)) (VList (map g xs))"
proof (rule decodes_list)
  show "list_all2 (decodes nm d) (map f xs) (map g xs)"
    using assms by (simp add: list_all2_map1 list_all2_map2 list_all2_same)
  show "list_all starts (map f xs)" using assms by (simp add: list_all_iff)
qed

lemma zero_number: "is_json_number ''0''"
  by (simp add: is_json_number_def scan_number_def num_start_def num_final_def)

lemma json_roundtrip_aux:
  "json_ok nm d v \<Longrightarrow> starts (json_text html v) \<and> decodes nm d (json_text html v) (decoded nm v)"
  "json_ok_members nm d m \<Longrightarrow> (k, x) \<in> set m \<Longrightarrow>
     starts (json_text html x) \<and> decodes nm d (json_text html x) (decoded nm x)"
proof (induction nm d v and nm d m arbitrary: and k x rule: json_ok_json_ok_members.induct)
  case (5 nm d vs)
  then obtain e where d: "d = Suc e" by (cases d) auto
  have "decodes nm (Suc e) (json_list (map (json_text html) vs)) (VList (map (decoded nm) vs))"
    using 5 d by (intro decodes_texts) (auto simp: list_all_iff)
  then show ?case by (simp add: d json_texts_map json_list_starts)
next
  case (6 nm d ss)
  then obtain e where d: "d = Suc e" by (cases d) auto
  have "decodes nm (Suc e) (json_list (map (quote_json html) ss)) (VList (map VStr ss))"
    using 6 by (intro decodes_texts) (auto simp: list_all_iff decodes_string)
  then show ?case by (simp add: d json_list_starts)
next
  case (7 nm d ms)
  then obtain e where d: "d = Suc (Suc e)" by (cases d; cases "d - 1") auto
  have "decodes nm (Suc (Suc e)) (json_list (map (\<lambda>m. json_object html (json_members html m)) ms))
      (VList (map (\<lambda>m. VMap (sort_key fst (decoded_members nm m))) ms))"
  proof (rule decodes_texts)
    fix m assume m: "m \<in> set ms"
    then have "distinct (map fst m)" "json_ok_members nm e m" using 7(2) d by (auto simp: list_all_iff)
    then show "starts (json_object html (json_members html m)) \<and>
        decodes nm (Suc e) (json_object html (json_members html m)) (VMap (sort_key fst (decoded_members nm m)))"
      using 7(1) m d by (auto intro!: decodes_members simp: json_object_starts json_ok_members_iff)
  qed
  then show ?case by (simp add: d json_objects_map json_list_starts)
next
  case (8 nm d m)
  then obtain e where d: "d = Suc e" by (cases d) auto
  have "decodes nm (Suc e) (json_object html (json_members html m)) (VMap (sort_key fst (decoded_members nm m)))"
    using 8 d by (intro decodes_members) (auto simp: json_ok_members_iff)
  then show ?case by (simp add: d json_object_starts)
qed (auto simp: decodes_number decodes_string decodes_word show_int_number zero_number)

text \<open>Any text in place of what follows, and the whole input for \<^verbatim>\<open>Unmarshal\<close>.\<close>

lemma json_roundtrip:
  assumes "json_ok nm 10000 v"
  shows "delim r \<Longrightarrow> json_decode_first nm (json_text html v @ r) = Some (decoded nm v, r)"
    and "json_unmarshal nm (json_text html v) = Some (decoded nm v)"
proof -
  have d: "decodes nm 10000 (json_text html v) (decoded nm v)" using json_roundtrip_aux(1) [OF assms] by blast
  have *: "json_decode_first nm (json_text html v @ r) = Some (decoded nm v, r)" if "delim r" for r
    using d that by (simp add: json_decode_first_def decodes_def reads_def)
  then show "delim r \<Longrightarrow> json_decode_first nm (json_text html v @ r) = Some (decoded nm v, r)" .
  show "json_unmarshal nm (json_text html v) = Some (decoded nm v)"
    using * [of "[]"] by (simp add: json_unmarshal_def delim_def skip_def)
qed

end
