(* ===== verification/FileStorage.thy ===== *)
theory FileStorage
  imports JsonRoundtrip Session
begin

text \<open>
  The JSONL adapter of \<^verbatim>\<open>storage.go\<close>: a file with a header line and a line per event row, read as a
  whole before every operation and rewritten through a temporary file and a rename.  The file
  is a byte string (\<open>None\<close> while it does not exist); every step of the file system may fail, as
  \<open>fa_fault\<close> says, and the words of a JSON error are a parameter.  The adapter meets the weaker
  contract \<open>row_store\<close>: what is read back is what was appended, in its JSON form.
\<close>

section \<open>Structs from JSON\<close>

text \<open>The decoder finds a struct's field by its exact name, else by its name up to case: ASCII
  letters, and the two other letters that fold to ASCII ones.\<close>

fun fold_name :: "string \<Rightarrow> string" where
  "fold_name [] = []"
| "fold_name (c # s) =
     (if c = CHR 0xC5 \<and> has_prefix s [CHR 0xBF] then CHR ''S'' # fold_name (drop 1 s)
      else if c = CHR 0xE2 \<and> has_prefix s [CHR 0x84, CHR 0xAA] then CHR ''K'' # fold_name (drop 2 s)
      else (if 97 \<le> byte c \<and> byte c \<le> 122 then char_of (byte c - 32) else c) # fold_name s)"

definition match_field :: "string list \<Rightarrow> string \<Rightarrow> string option" where
  "match_field names k =
     (if k \<in> set names then Some k else find (\<lambda>f. fold_name f = fold_name k) names)"

text \<open>Setting a field of each type; \<open>None\<close> is the decoder's type error, \<^verbatim>\<open>null\<close> changes nothing.\<close>

definition set_string :: "val \<Rightarrow> string \<Rightarrow> string option" where
  "set_string v old = (case v of VNil \<Rightarrow> Some old | VStr s \<Rightarrow> Some s | _ \<Rightarrow> None)"

definition set_bool :: "val \<Rightarrow> bool \<Rightarrow> bool option" where
  "set_bool v old = (case v of VNil \<Rightarrow> Some old | VBool b \<Rightarrow> Some b | _ \<Rightarrow> None)"

definition set_int :: "val \<Rightarrow> int \<Rightarrow> int option" where
  "set_int v old = (case v of VNil \<Rightarrow> Some old | VNum s \<Rightarrow> atoi s | _ \<Rightarrow> None)"

definition set_map :: "val \<Rightarrow> payload option" where
  "set_map v = (case v of VNil \<Rightarrow> Some [] | VMap m \<Rightarrow> Some m | _ \<Rightarrow> None)"

fun all_maps :: "val list \<Rightarrow> payload list option" where
  "all_maps [] = Some []"
| "all_maps (v # vs) =
     (case (set_map v, all_maps vs) of (Some m, Some ms) \<Rightarrow> Some (m # ms) | _ \<Rightarrow> None)"

definition set_maps :: "val \<Rightarrow> payload list option" where
  "set_maps v = (case v of VNil \<Rightarrow> Some [] | VList vs \<Rightarrow> all_maps vs | _ \<Rightarrow> None)"

fun fold_fields :: "(string \<Rightarrow> val \<Rightarrow> 'r \<Rightarrow> 'r option) \<Rightarrow> payload \<Rightarrow> 'r \<Rightarrow> 'r option" where
  "fold_fields f [] r = Some r"
| "fold_fields f ((k, v) # m) r = (case f k v r of None \<Rightarrow> None | Some r' \<Rightarrow> fold_fields f m r')"

text \<open>A struct from any value: \<^verbatim>\<open>null\<close> leaves the zero struct.\<close>

definition decode_struct :: "(string \<Rightarrow> val \<Rightarrow> 'r \<Rightarrow> 'r option) \<Rightarrow> 'r \<Rightarrow> val \<Rightarrow> 'r option" where
  "decode_struct f zero v =
     (case v of VNil \<Rightarrow> Some zero | VMap m \<Rightarrow> fold_fields f m zero | _ \<Rightarrow> None)"

section \<open>Rows and headers as JSON\<close>

definition row_fields :: "string list" where
  "row_fields = [''seq'', ''id'', ''timestamp'', ''type'', ''payload'', ''content_hash'']"

definition zero_row :: event_row where
  "zero_row = \<lparr>rw_seq = 0, rw_id = [], rw_timestamp = [], rw_type = event_type_of [], rw_payload = [], rw_hash = []\<rparr>"

definition set_row_field :: "string \<Rightarrow> val \<Rightarrow> event_row \<Rightarrow> event_row option" where
  "set_row_field k v r =
     (case match_field row_fields k of
        None \<Rightarrow> Some r
      | Some f \<Rightarrow>
          if f = ''seq'' then map_option (\<lambda>n. r\<lparr>rw_seq := n\<rparr>) (set_int v (rw_seq r))
          else if f = ''id'' then map_option (\<lambda>s. r\<lparr>rw_id := s\<rparr>) (set_string v (rw_id r))
          else if f = ''timestamp'' then map_option (\<lambda>s. r\<lparr>rw_timestamp := s\<rparr>) (set_string v (rw_timestamp r))
          else if f = ''type''
          then map_option (\<lambda>s. r\<lparr>rw_type := event_type_of s\<rparr>) (set_string v (event_type_string (rw_type r)))
          else if f = ''payload'' then map_option (\<lambda>m. r\<lparr>rw_payload := m\<rparr>) (set_map v)
          else map_option (\<lambda>s. r\<lparr>rw_hash := s\<rparr>) (set_string v (rw_hash r)))"

definition decodeEventRow :: "(string \<Rightarrow> string) \<Rightarrow> string \<Rightarrow> string + event_row" where
  "decodeEventRow json_error data =
     (case json_decode_first number_mode data of
        None \<Rightarrow> Inl (json_error data)
      | Some (v, r) \<Rightarrow>
          (case decode_struct set_row_field zero_row v of
             None \<Rightarrow> Inl (json_error data) | Some row \<Rightarrow> Inr row))"

definition header_fields :: "string list" where
  "header_fields =
     [''__session__'', ''id'', ''metadata'', ''parent_session_id'', ''root_session_id'', ''spawn_id'',
      ''spawned_by_event_id'', ''delegation_chain'']"

definition zero_header :: "bool \<times> session_header" where
  "zero_header =
     (False, \<lparr>sh_id = [], sh_metadata = [], sh_parent = [], sh_root = [], sh_spawn = [],
       sh_spawned_by = [], sh_chain = []\<rparr>)"

definition set_header_field ::
    "string \<Rightarrow> val \<Rightarrow> bool \<times> session_header \<Rightarrow> (bool \<times> session_header) option" where
  "set_header_field k v bh =
     (let (b, h) = bh
      in case match_field header_fields k of
           None \<Rightarrow> Some bh
         | Some f \<Rightarrow>
             if f = ''__session__'' then map_option (\<lambda>x. (x, h)) (set_bool v b)
             else if f = ''id'' then map_option (\<lambda>s. (b, h\<lparr>sh_id := s\<rparr>)) (set_string v (sh_id h))
             else if f = ''metadata'' then map_option (\<lambda>m. (b, h\<lparr>sh_metadata := m\<rparr>)) (set_map v)
             else if f = ''parent_session_id''
             then map_option (\<lambda>s. (b, h\<lparr>sh_parent := s\<rparr>)) (set_string v (sh_parent h))
             else if f = ''root_session_id''
             then map_option (\<lambda>s. (b, h\<lparr>sh_root := s\<rparr>)) (set_string v (sh_root h))
             else if f = ''spawn_id'' then map_option (\<lambda>s. (b, h\<lparr>sh_spawn := s\<rparr>)) (set_string v (sh_spawn h))
             else if f = ''spawned_by_event_id''
             then map_option (\<lambda>s. (b, h\<lparr>sh_spawned_by := s\<rparr>)) (set_string v (sh_spawned_by h))
             else map_option (\<lambda>ms. (b, h\<lparr>sh_chain := ms\<rparr>)) (set_maps v))"

definition decodeSessionHeader :: "(string \<Rightarrow> string) \<Rightarrow> string \<Rightarrow> string + session_header" where
  "decodeSessionHeader json_error data =
     (case json_unmarshal float_mode data of
        None \<Rightarrow> Inl (json_error data)
      | Some v \<Rightarrow>
          (case decode_struct set_header_field zero_header v of
             None \<Rightarrow> Inl (json_error data)
           | Some (session, h) \<Rightarrow> if \<not> session then Inl ''missing session header'' else Inr h))"

definition headerMap :: "session_header \<Rightarrow> payload" where
  "headerMap h =
     [(''__session__'', VBool True), (''id'', VStr (sh_id h)), (''metadata'', VMap (sh_metadata h))]
     @ (if sh_parent h \<noteq> [] then [(''parent_session_id'', VStr (sh_parent h))] else [])
     @ (if sh_root h \<noteq> [] then [(''root_session_id'', VStr (sh_root h))] else [])
     @ (if sh_spawn h \<noteq> [] then [(''spawn_id'', VStr (sh_spawn h))] else [])
     @ (if sh_spawned_by h \<noteq> [] then [(''spawned_by_event_id'', VStr (sh_spawned_by h))] else [])
     @ (if sh_chain h \<noteq> [] then [(''delegation_chain'', VMaps (sh_chain h))] else [])"

definition eventRowMap :: "event_row \<Rightarrow> bool \<Rightarrow> payload" where
  "eventRowMap r includeContentHash =
     [(''seq'', VInt (rw_seq r)), (''id'', VStr (rw_id r)), (''timestamp'', VStr (rw_timestamp r)),
      (''type'', VStr (event_type_string (rw_type r))), (''payload'', VMap (rw_payload r))]
     @ (if includeContentHash then [(''content_hash'', VStr (rw_hash r))] else [])"

section \<open>FileStorageAdapter\<close>

datatype fs_step = FsOpen | FsCreateTemp | FsChmod | FsWrite | FsSync | FsClose | FsRename

record file_adapter =
  fa_file :: "string option"
  fa_fault :: "fs_step \<Rightarrow> string option"
  fa_read_fault :: "(nat \<times> string) option"
  fa_json_error :: "string \<Rightarrow> string"

datatype read_error = NotExist | ReadFailed string

fun read_lines ::
    "(string \<Rightarrow> string) \<Rightarrow> string list \<Rightarrow> nat \<Rightarrow> session_header option \<Rightarrow> event_row list \<Rightarrow>
     string + (session_header option \<times> event_row list)" where
  "read_lines je [] lineNo h rows = Inr (h, rows)"
| "read_lines je (l # ls) lineNo h rows =
     (if l = [] then read_lines je ls lineNo h rows
      else if lineNo = 0
      then (case decodeSessionHeader je l of
              Inl e \<Rightarrow> Inl e | Inr parsed \<Rightarrow> read_lines je ls (Suc lineNo) (Some parsed) rows)
      else (case decodeEventRow je l of
              Inl e \<Rightarrow> Inl e
            | Inr row \<Rightarrow>
                if rw_seq row \<noteq> int (length rows)
                then Inl (''invalid event seq at row '' @ show_nat lineNo @ '': got '' @ show_int (rw_seq row)
                       @ '', want '' @ show_nat (length rows))
                else read_lines je ls (Suc lineNo) h (rows @ [row])))"

definition line_limit :: nat where "line_limit = 16 * 1024 * 1024"

text \<open>The scan of a text that ends normally (\<open>None\<close>) or with a read error.\<close>

definition parse_file ::
    "(string \<Rightarrow> string) \<Rightarrow> string \<Rightarrow> string option \<Rightarrow> string + (session_header \<times> event_row list)" where
  "parse_file je contents read_err =
     (let (ls, long) = scan_lines line_limit contents
      in case read_lines je ls 0 None [] of
           Inl e \<Rightarrow> Inl e
         | Inr (h, rows) \<Rightarrow>
             if long then Inl too_long
             else (case read_err of
                     Some m \<Rightarrow> Inl m
                   | None \<Rightarrow> (case h of None \<Rightarrow> Inl ''session file is empty'' | Some x \<Rightarrow> Inr (x, rows))))"

definition readAll :: "file_adapter \<Rightarrow> read_error + (session_header \<times> event_row list)" where
  "readAll a =
     (case fa_fault a FsOpen of
        Some m \<Rightarrow> Inl (ReadFailed m)
      | None \<Rightarrow>
          (case fa_file a of
             None \<Rightarrow> Inl NotExist
           | Some contents \<Rightarrow>
               (case (case fa_read_fault a of
                        None \<Rightarrow> parse_file (fa_json_error a) contents None
                      | Some (n, m) \<Rightarrow> parse_file (fa_json_error a) (take n contents) (Some m)) of
                  Inl e \<Rightarrow> Inl (ReadFailed e)
                | Inr hr \<Rightarrow> Inr hr)))"

fun encode_records :: "string option \<Rightarrow> payload list \<Rightarrow> string + string" where
  "encode_records fault [] = Inr []"
| "encode_records fault (m # ms) =
     (case json_marshal False (VMap m) of
        Inl e \<Rightarrow> Inl e
      | Inr t \<Rightarrow>
          (case fault of
             Some e \<Rightarrow> Inl e
           | None \<Rightarrow>
               (case encode_records fault ms of
                  Inl e \<Rightarrow> Inl e | Inr rest \<Rightarrow> Inr (t @ CHR 0x0A # rest))))"

definition file_records :: "session_header option \<Rightarrow> event_row list \<Rightarrow> payload list" where
  "file_records h rows =
     (case h of None \<Rightarrow> [] | Some x \<Rightarrow> [headerMap x]) @ map (\<lambda>r. eventRowMap r (rw_hash r \<noteq> [])) rows"

text \<open>Either the file is replaced as a whole or nothing happens to it.\<close>

definition writeAll ::
    "file_adapter \<Rightarrow> session_header option \<Rightarrow> event_row list \<Rightarrow> (string + unit) \<times> file_adapter" where
  "writeAll a h rows =
     (case fa_fault a FsCreateTemp of Some m \<Rightarrow> (Inl m, a)
      | None \<Rightarrow>
     (case fa_fault a FsChmod of Some m \<Rightarrow> (Inl m, a)
      | None \<Rightarrow>
     (case encode_records (fa_fault a FsWrite) (file_records h rows) of Inl m \<Rightarrow> (Inl m, a)
      | Inr contents \<Rightarrow>
     (case fa_fault a FsSync of Some m \<Rightarrow> (Inl m, a)
      | None \<Rightarrow>
     (case fa_fault a FsClose of Some m \<Rightarrow> (Inl m, a)
      | None \<Rightarrow>
     (case fa_fault a FsRename of Some m \<Rightarrow> (Inl m, a)
      | None \<Rightarrow> (Inr (), a\<lparr>fa_file := Some contents\<rparr>)))))))"

definition file_LoadSession :: "file_adapter \<Rightarrow> storage_error + session_header option" where
  "file_LoadSession a =
     (case readAll a of
        Inl NotExist \<Rightarrow> Inr None
      | Inl (ReadFailed e) \<Rightarrow> Inl (StorageFailure e)
      | Inr (h, rows) \<Rightarrow> Inr (Some h))"

definition file_SaveHeader ::
    "file_adapter \<Rightarrow> session_header \<Rightarrow> (storage_error + unit) \<times> file_adapter" where
  "file_SaveHeader a h =
     (case readAll a of
        Inl (ReadFailed e) \<Rightarrow> (Inl (StorageFailure e), a)
      | r \<Rightarrow>
          let rows = (case r of Inr (_, rows) \<Rightarrow> rows | _ \<Rightarrow> [])
          in case writeAll a (Some h) rows of
               (Inl e, a') \<Rightarrow> (Inl (StorageFailure e), a')
             | (Inr u, a') \<Rightarrow> (Inr u, a'))"

definition file_AppendEvents :: "file_adapter append_fn" where
  "file_AppendEvents a drafts expectedNextSeq =
     (case readAll a of
        Inl (ReadFailed e) \<Rightarrow> (Inl (StorageFailure e), a)
      | r \<Rightarrow>
          let (header, rows) = (case r of Inr (h, rows) \<Rightarrow> (Some h, rows) | _ \<Rightarrow> (None, []));
              nextSeq = int (length rows);
              appended = rows_of_drafts nextSeq drafts
          in if (case expectedNextSeq of Some n \<Rightarrow> n \<noteq> nextSeq | None \<Rightarrow> False)
             then (Inl (StorageConflict StorageConflictReason
                     (case expectedNextSeq of Some n \<Rightarrow> n | None \<Rightarrow> 0) nextSeq), a)
             else (case writeAll a header (rows @ appended) of
                     (Inl e, a') \<Rightarrow> (Inl (StorageFailure e), a')
                   | (Inr u, a') \<Rightarrow> (Inr appended, a')))"

definition file_AppendEvent ::
    "file_adapter \<Rightarrow> event_draft \<Rightarrow> int option \<Rightarrow> (storage_error + event_row) \<times> file_adapter" where
  "file_AppendEvent = append_one file_AppendEvents"

definition file_EventsSince :: "file_adapter \<Rightarrow> int option \<Rightarrow> storage_error + event_row list" where
  "file_EventsSince a cursor =
     (case readAll a of
        Inl NotExist \<Rightarrow> Inr []
      | Inl (ReadFailed e) \<Rightarrow> Inl (StorageFailure e)
      | Inr (h, rows) \<Rightarrow> Inr (rows_since rows cursor))"

definition file_adapter_methods :: "file_adapter adapter" where
  "file_adapter_methods =
     \<lparr>ad_load = file_LoadSession, ad_save = file_SaveHeader, ad_append = file_AppendEvents,
      ad_append_one = file_AppendEvent, ad_since = file_EventsSince\<rparr>"

end
