(* ===== verification/FileProps.thy ===== *)
theory FileProps
  imports FileStorage
begin

text \<open>
  What the file adapter writes it reads back: the header and the rows, in the form JSON gives
  them (\<open>stored_row\<close>, \<open>stored_header\<close>).  The adapter provides the contract \<open>row_store\<close>, which the
  contract \<open>storage_adapter\<close> of theory Storage implies.
\<close>

section \<open>Text without newlines\<close>

definition one_line :: "string \<Rightarrow> bool" where
  "one_line s \<longleftrightarrow> CHR 0x0A \<notin> set s"

lemma one_line_simps [simp]:
  "one_line []" "one_line (c # s) \<longleftrightarrow> c \<noteq> CHR 0x0A \<and> one_line s" "one_line (s @ t) \<longleftrightarrow> one_line s \<and> one_line t"
  by (auto simp: one_line_def)

lemma one_line_join: "(\<And>x. x \<in> set xs \<Longrightarrow> one_line x) \<Longrightarrow> one_line sep \<Longrightarrow> one_line (str_join xs sep)"
  by (induction xs sep rule: str_join.induct) auto

lemma one_line_num: "num_scan q s = Some (s, []) \<Longrightarrow> one_line s"
  by (induction s arbitrary: q) (auto simp: num_step_delim split: option.splits if_splits)

lemma one_line_number: "is_json_number s \<Longrightarrow> one_line s"
  by (auto simp: is_json_number_def scan_number_def num_start_def is_digit_def
      split: list.splits option.splits if_splits dest!: one_line_num)

lemma hex_digit_line: "hex_digit d \<noteq> CHR 0x0A" if "d < 16"
proof
  assume "hex_digit d = CHR 0x0A"
  with hex_val_digit [OF that] show False by (simp add: hex_val_def byte_def)
qed

lemma one_line_ascii: "byte c < 128 \<Longrightarrow> one_line (escape_ascii html c)"
proof (cases "c = CHR 0x0A")
  case True
  then show ?thesis by (simp add: escape_ascii_controls)
next
  case False
  assume "byte c < 128"
  then have "hex_digit (byte c div 16) \<noteq> CHR 0x0A" "hex_digit (byte c mod 16) \<noteq> CHR 0x0A"
    by (intro hex_digit_line; simp)+
  with False show ?thesis by (simp add: escape_ascii_def unicode_escape_def Let_def)
qed

lemma continuation_bytes: "matches rs s \<Longrightarrow> \<forall>(lo, hi) \<in> set rs. 128 \<le> lo \<Longrightarrow> one_line (take (length rs) s)"
  by (induction rs s rule: matches.induct) (auto simp: in_range_def byte_def)

lemma continuation_lo: "continuation c = Some rs \<Longrightarrow> \<forall>(lo, hi) \<in> set rs. 128 \<le> lo"
  by (auto simp: continuation_def Let_def split: if_splits)

lemma one_line_rune:
  assumes "decode_rune (c # s) = (n, True)" "\<not> byte c < 128"
  shows "one_line (escape_rune (take n (c # s)))"
proof -
  obtain rs where rs: "continuation c = Some rs" "matches rs s" "n = Suc (length rs)"
    using assms(1) by (auto split: option.splits if_splits)
  have "c \<noteq> CHR 0x0A" using assms(2) by (auto simp: byte_def)
  then have "one_line (take n (c # s))"
    using continuation_bytes [OF rs(2) continuation_lo [OF rs(1)]] rs(3) by simp
  then show ?thesis by (simp add: escape_rune_def)
qed

lemma one_line_escape: "one_line (escape_string html s)"
proof (induction html s rule: escape_string.induct)
  case (1 html s)
  show ?case
  proof (cases s)
    case Nil
    then show ?thesis by (simp add: escape_string.simps)
  next
    case (Cons c t)
    obtain n valid where dr: "decode_rune s = (n, valid)" by (cases "decode_rune s")
    show ?thesis
    proof (cases "byte c < 128")
      case True
      with 1(1) [OF Cons True] Cons show ?thesis by (subst escape_string.simps) (simp add: one_line_ascii)
    next
      case False
      show ?thesis
      proof (cases valid)
        case True
        have "one_line (escape_rune (take n (c # t)))"
          using dr Cons True by (intro one_line_rune [OF _ False]) simp
        with 1(2) [OF Cons False dr [symmetric] refl True] Cons False dr True show ?thesis
          by (subst escape_string.simps) (simp del: decode_rune.simps)
      next
        case valid: False
        with 1(3) [OF Cons False dr [symmetric] refl valid] Cons False dr show ?thesis
          by (subst escape_string.simps) (simp del: decode_rune.simps)
      qed
    qed
  qed
qed

lemma one_line_quote: "one_line (quote_json html s)"
  by (simp add: quote_json_def one_line_escape)

lemma one_line_list: "(\<And>x. x \<in> set xs \<Longrightarrow> one_line x) \<Longrightarrow> one_line (json_list xs)"
  by (simp add: json_list_def one_line_join)

lemma one_line_object: "(\<And>k t. (k, t) \<in> set kts \<Longrightarrow> one_line t) \<Longrightarrow> one_line (json_object html kts)"
  by (auto simp: json_object_def json_member_def one_line_quote intro!: one_line_join)

lemma one_line_json:
  "json_ok nm d v \<Longrightarrow> one_line (json_text html v)"
  "json_ok_members nm d m \<Longrightarrow> (k, x) \<in> set m \<Longrightarrow> one_line (json_text html x)"
proof (induction nm d v and nm d m arbitrary: and k x rule: json_ok_json_ok_members.induct)
  case (5 nm d vs)
  then show ?case by (auto simp: json_texts_map list_all_iff intro!: one_line_list)
next
  case (7 nm d ms)
  then show ?case
    by (auto simp: json_objects_map json_members_map list_all_iff intro!: one_line_list one_line_object)
next
  case (8 nm d m)
  then show ?case by (auto simp: json_members_map intro!: one_line_object)
next
  case (6 nm d ss)
  then show ?case by (auto simp: one_line_quote intro!: one_line_list)
qed (auto simp: one_line_quote reads_as_def one_line_number show_int_number)

section \<open>The lines of a written file\<close>

definition unlines :: "string list \<Rightarrow> string" where
  "unlines ts = concat (map (\<lambda>t. t @ [CHR 0x0A]) ts)"

lemma str_split_line: "one_line t \<Longrightarrow> str_split (t @ CHR 0x0A # s) (CHR 0x0A) = t # str_split s (CHR 0x0A)"
  by (induction t) auto

lemma str_split_unlines: "list_all one_line ts \<Longrightarrow> str_split (unlines ts) (CHR 0x0A) = ts @ [[]]"
  by (induction ts) (simp_all add: unlines_def str_split_line)

lemma raw_lines_unlines: "list_all one_line ts \<Longrightarrow> raw_lines (unlines ts) = ts"
  by (simp add: raw_lines_def str_split_unlines)

lemma scan_unlines:
  assumes "list_all one_line ts" and "\<And>t. t \<in> set ts \<Longrightarrow> length t < limit \<and> drop_cr t = t"
  shows "scan_lines limit (unlines ts) = (ts, False)"
proof -
  have t: "takeWhile (\<lambda>l. length l < limit) ts = ts" using assms(2) by (simp add: takeWhile_eq_all_conv)
  have d: "map drop_cr ts = ts" using assms(2) by (simp add: map_idI)
  show ?thesis unfolding scan_lines_def raw_lines_unlines [OF assms(1)] Let_def t d by simp
qed

lemma drop_cr_object: "drop_cr (json_object html kts) = json_object html kts"
  by (simp add: drop_cr_def json_object_def)

lemma encode_records_ok:
  assumes "\<And>m. m \<in> set ms \<Longrightarrow> bad_numbers (VMap m) = []"
  shows "encode_records None ms = Inr (unlines (map (\<lambda>m. json_text False (VMap m)) ms))"
  using assms by (induction ms) (simp_all add: unlines_def json_marshal_def del: bad_numbers.simps json_text.simps)

lemma json_ok_numbers:
  "json_ok nm d v \<Longrightarrow> bad_numbers v = []"
  "json_ok_members nm d m \<Longrightarrow> concat (map snd (bad_members m)) = []"
proof (induction nm d v and nm d m rule: json_ok_json_ok_members.induct)
  case (7 nm d ms)
  then show ?case by (auto simp: list_all_iff)
next
  case (8 nm d m)
  then show ?case by auto
qed (auto simp: list_all_iff reads_as_def split: if_splits)

section \<open>A row\<close>

text \<open>Keys given in order are sorted already.\<close>

lemma sort_key_eqI:
  assumes "set ys = set xs" and "sorted (map fst ys)" and "distinct (map fst ys)" and "distinct (map fst xs)"
  shows "sort_key fst xs = (ys :: (string \<times> 'a) list)"
proof (rule map_sorted_distinct_set_unique [where f = fst])
  show "inj_on fst (set (sort_key fst xs) \<union> set ys)" using assms(1,3) by (simp add: distinct_map)
  show "distinct (map fst (sort_key fst xs))" using assms(4) by (simp add: distinct_map)
qed (use assms in simp_all)

lemma atoi_show_int:
  assumes "- (2 ^ 63) \<le> n" and "n < 2 ^ 63"
  shows "atoi (show_int n) = Some n"
proof -
  have rd: "read_digits (show_nat m) = Some m" for m
    by (simp add: read_digits_def show_nat_all_digits read_show_nat del: read_nat.simps)
  obtain c t where ct: "show_nat (nat n) = c # t" by (cases "show_nat (nat n)") auto
  then have "c \<noteq> CHR ''-''" "c \<noteq> CHR ''+''" using show_nat_hd_digit [OF ct] by (auto simp: is_digit_def)
  then have "split_sign (show_nat (nat n)) = (False, show_nat (nat n))"
    by (simp add: split_sign_def ct split: char.splits bool.splits)
  with assms rd show ?thesis by (auto simp: atoi_def show_int_def split_sign_def Let_def)
qed

definition row_members :: "event_row \<Rightarrow> payload" where
  "row_members r = eventRowMap r (rw_hash r \<noteq> [])"

definition row_text :: "event_row \<Rightarrow> string" where
  "row_text r = json_text False (VMap (row_members r))"

text \<open>The rows a file keeps: valid JSON on a line the scanner accepts, a type that is read as
  itself, a sequence number of 64 bits.\<close>

definition row_ok :: "event_row \<Rightarrow> bool" where
  "row_ok r \<longleftrightarrow>
     json_ok number_mode 10000 (VMap (row_members r)) \<and> length (row_text r) < line_limit \<and>
     event_type_of (event_type_string (rw_type r)) = rw_type r \<and>
     - (2 ^ 63) \<le> rw_seq r \<and> rw_seq r < 2 ^ 63"

definition stored_payload :: "payload \<Rightarrow> payload" where
  "stored_payload p = sort_key fst (decoded_members number_mode p)"

definition stored_row :: "event_row \<Rightarrow> event_row" where
  "stored_row r = r\<lparr>rw_payload := stored_payload (rw_payload r)\<rparr>"

lemma decoded_row_members:
  "sort_key fst (decoded_members number_mode (row_members r)) =
     (if rw_hash r \<noteq> [] then [(''content_hash'', VStr (rw_hash r))] else [])
     @ [(''id'', VStr (rw_id r)), (''payload'', VMap (stored_payload (rw_payload r))),
        (''seq'', VNum (show_int (rw_seq r))), (''timestamp'', VStr (rw_timestamp r)),
        (''type'', VStr (event_type_string (rw_type r)))]"
  by (rule sort_key_eqI)
    (simp_all add: row_members_def eventRowMap_def number_of_def number_mode_def stored_payload_def
      insert_commute)

lemma decode_row_text:
  assumes "json_ok number_mode 10000 (VMap (row_members r))"
  shows "json_decode_first number_mode (row_text r) = Some (decoded number_mode (VMap (row_members r)), [])"
  using json_roundtrip(1) [OF assms, of "[]" False] by (simp add: row_text_def delim_def)

lemma decode_row:
  assumes "row_ok r"
  shows "decodeEventRow je (row_text r) = Inr (stored_row r)"
proof -
  have "json_decode_first number_mode (row_text r) = Some (decoded number_mode (VMap (row_members r)), [])"
    using assms by (intro decode_row_text) (simp add: row_ok_def)
  moreover have "atoi (show_int (rw_seq r)) = Some (rw_seq r)"
    using assms by (intro atoi_show_int) (simp_all add: row_ok_def)
  moreover have "event_type_of (event_type_string (rw_type r)) = rw_type r"
    using assms by (simp add: row_ok_def)
  ultimately show ?thesis
    by (auto simp: decodeEventRow_def decoded_row_members decode_struct_def set_row_field_def
        match_field_def row_fields_def set_string_def set_int_def set_map_def zero_row_def stored_row_def)
qed

section \<open>The header\<close>

definition header_text :: "session_header \<Rightarrow> string" where
  "header_text h = json_text False (VMap (headerMap h))"

text \<open>Headers are read with float64 numbers.\<close>

definition stored_meta :: "payload \<Rightarrow> payload" where
  "stored_meta p = sort_key fst (decoded_members float_mode p)"

definition stored_header :: "session_header \<Rightarrow> session_header" where
  "stored_header h = h\<lparr>sh_metadata := stored_meta (sh_metadata h), sh_chain := map stored_meta (sh_chain h)\<rparr>"

definition header_ok :: "session_header \<Rightarrow> bool" where
  "header_ok h \<longleftrightarrow> json_ok float_mode 10000 (VMap (headerMap h)) \<and> length (header_text h) < line_limit"

definition opt_str :: "string \<Rightarrow> string \<Rightarrow> payload" where
  "opt_str k s = (if s \<noteq> [] then [(k, VStr s)] else [])"

lemma headerMap_opt:
  "headerMap h =
     [(''__session__'', VBool True), (''id'', VStr (sh_id h)), (''metadata'', VMap (sh_metadata h))]
     @ opt_str ''parent_session_id'' (sh_parent h) @ opt_str ''root_session_id'' (sh_root h)
     @ opt_str ''spawn_id'' (sh_spawn h) @ opt_str ''spawned_by_event_id'' (sh_spawned_by h)
     @ (if sh_chain h \<noteq> [] then [(''delegation_chain'', VMaps (sh_chain h))] else [])"
  by (simp add: headerMap_def opt_str_def)

lemma decoded_members_append:
  "decoded_members nm (m @ m') = decoded_members nm m @ decoded_members nm m'"
  by (simp add: decoded_members_map)

lemma decoded_opt_str: "decoded_members nm (opt_str k s) = opt_str k s"
  by (simp add: opt_str_def)

lemma decoded_header_members:
  "sort_key fst (decoded_members float_mode (headerMap h)) =
     [(''__session__'', VBool True)]
     @ (if sh_chain h \<noteq> []
        then [(''delegation_chain'', VList (map (\<lambda>m. VMap (stored_meta m)) (sh_chain h)))] else [])
     @ [(''id'', VStr (sh_id h)), (''metadata'', VMap (stored_meta (sh_metadata h)))]
     @ opt_str ''parent_session_id'' (sh_parent h) @ opt_str ''root_session_id'' (sh_root h)
     @ opt_str ''spawn_id'' (sh_spawn h) @ opt_str ''spawned_by_event_id'' (sh_spawned_by h)"
  unfolding headerMap_opt decoded_members_append decoded_opt_str
proof (rule sort_key_eqI)
  show "set ([(''__session__'', VBool True)]
     @ (if sh_chain h \<noteq> []
        then [(''delegation_chain'', VList (map (\<lambda>m. VMap (stored_meta m)) (sh_chain h)))] else [])
     @ [(''id'', VStr (sh_id h)), (''metadata'', VMap (stored_meta (sh_metadata h)))]
     @ opt_str ''parent_session_id'' (sh_parent h) @ opt_str ''root_session_id'' (sh_root h)
     @ opt_str ''spawn_id'' (sh_spawn h) @ opt_str ''spawned_by_event_id'' (sh_spawned_by h)) =
    set (decoded_members float_mode
       [(''__session__'', VBool True), (''id'', VStr (sh_id h)), (''metadata'', VMap (sh_metadata h))]
     @ opt_str ''parent_session_id'' (sh_parent h) @ opt_str ''root_session_id'' (sh_root h)
     @ opt_str ''spawn_id'' (sh_spawn h) @ opt_str ''spawned_by_event_id'' (sh_spawned_by h)
     @ decoded_members float_mode
        (if sh_chain h \<noteq> [] then [(''delegation_chain'', VMaps (sh_chain h))] else []))"
    by (auto simp: stored_meta_def)
qed (simp_all add: opt_str_def)

lemma fold_fields_append:
  "fold_fields f (m @ m') r = (case fold_fields f m r of None \<Rightarrow> None | Some r' \<Rightarrow> fold_fields f m' r')"
  by (induction f m r rule: fold_fields.induct) (auto split: option.splits)

lemma all_maps_VMap: "all_maps (map (\<lambda>m. VMap (g m)) ms) = Some (map g ms)"
  by (induction ms) (simp_all add: set_map_def)

lemma decode_header_json:
  assumes "json_ok float_mode 10000 (VMap (headerMap h))"
  shows "decodeSessionHeader je (header_text h) = Inr (stored_header h)"
proof -
  have "json_unmarshal float_mode (header_text h) = Some (decoded float_mode (VMap (headerMap h)))"
    unfolding header_text_def using assms
    by (rule json_roundtrip(2))
  moreover have "fold_fields set_header_field (sort_key fst (decoded_members float_mode (headerMap h))) zero_header
      = Some (True, stored_header h)"
    unfolding decoded_header_members fold_fields_append opt_str_def
    by (cases h) (simp add: set_header_field_def match_field_def header_fields_def zero_header_def
        set_bool_def set_string_def set_map_def set_maps_def all_maps_VMap stored_header_def)
  ultimately show ?thesis by (simp add: decodeSessionHeader_def decode_struct_def)
qed

lemma decode_header: "header_ok h \<Longrightarrow> decodeSessionHeader je (header_text h) = Inr (stored_header h)"
  unfolding header_ok_def by (blast intro: decode_header_json)

section \<open>The form JSON gives a value\<close>

text \<open>It is stable: it prints the same text, is valid again, and reads as itself.\<close>

lemma show_int_not_Nil [simp]: "show_int n \<noteq> []"
  by (simp add: show_int_def)

lemma json_float_not_Nil [simp]: "json_float x \<noteq> []"
proof -
  have "trim_zeros ds \<noteq> []" for ds by (simp add: trim_zeros_def split: list.splits)
  then have "format_f ds dp \<noteq> []" for ds dp by (simp add: format_f_def Let_def)
  moreover have "format_e ds dp \<noteq> []" for ds dp by (simp add: format_e_def Let_def)
  then have "clean_exponent (format_e ds dp) \<noteq> []" for ds dp by (simp add: clean_exponent_def Let_def)
  ultimately show ?thesis by (simp add: json_float_def with_sign_def split: prod.splits)
qed

lemma sort_key_idem [simp]: "sort_key f (sort_key f xs) = sort_key f xs"
  by (rule sort_key_id_if_sorted) simp

lemma decoded_nm_idem:
  "decoded number_mode (decoded number_mode v) = decoded number_mode v"
  "decoded_members number_mode (sort_key fst (decoded_members number_mode m))
     = sort_key fst (decoded_members number_mode m)"
proof (induction number_mode v and number_mode m rule: decoded_decoded_members.induct)
  case 9
  then show ?case by simp
next
  case (10 k v m)
  have fst_eq: "(fst \<circ> (\<lambda>(k, v). (k, h v))) = fst" for h :: "val \<Rightarrow> val" by auto
  have "\<forall>(k, v) \<in> set m. decoded number_mode (decoded number_mode v) = decoded number_mode v"
    using 10(2) unfolding decoded_members_map sort_key_map fst_eq map_map
    by (auto simp: map_eq_conv)
  then show ?case using 10(1) unfolding decoded_members_map sort_key_map fst_eq
    by (auto simp: map_eq_conv set_insort_key)
qed (auto simp: number_of_def number_mode_def o_def)

lemma json_object_sorted:
  "json_object html (json_members html (sort_key fst m)) = json_object html (json_members html m)"
proof -
  have fst_eq: "(fst \<circ> (\<lambda>(k, v). (k, json_text html v))) = fst" by auto
  show ?thesis by (simp add: json_object_def json_members_map sort_key_map fst_eq)
qed

lemma json_text_decoded:
  "json_text html (decoded number_mode v) = json_text html v"
  "json_members html (decoded_members number_mode m) = json_members html m"
proof (induction number_mode v and number_mode m rule: decoded_decoded_members.induct)
  case (4 vs)
  then show ?case by (simp add: json_texts_map o_def cong: map_cong)
next
  case (6 ms)
  then show ?case by (simp add: json_texts_map json_objects_map json_object_sorted o_def cong: map_cong)
next
  case (7 m)
  then show ?case by (simp add: json_object_sorted)
qed (simp_all add: number_of_def number_mode_def json_texts_map o_def)

lemma number_mode_reads: "reads_as number_mode s \<longleftrightarrow> is_json_number s"
  by (simp add: reads_as_def number_mode_def)

lemma distinct_decoded:
  "distinct (map fst m) \<Longrightarrow> distinct (map fst (sort_key fst (decoded_members nm m)))"
proof -
  assume d: "distinct (map fst m)"
  have fst_eq: "(fst \<circ> (\<lambda>(k, v). (k, h v))) = fst" for h :: "val \<Rightarrow> val" by auto
  have "distinct (map fst (sort_key fst m))" using d by (simp add: distinct_map)
  then show ?thesis unfolding decoded_members_map sort_key_map fst_eq by (simp add: fst_eq)
qed

lemma json_ok_decoded:
  "json_ok nm d v \<Longrightarrow> nm = number_mode \<Longrightarrow> json_ok number_mode d (decoded number_mode v)"
  "json_ok_members nm d m \<Longrightarrow> nm = number_mode \<Longrightarrow>
     json_ok_members number_mode d (sort_key fst (decoded_members number_mode m))"
proof (induction nm d v and nm d m rule: json_ok_json_ok_members.induct)
  case (7 nm d ms)
  then have "1 < d" and "\<forall>m \<in> set ms. distinct (map fst m) \<and>
      json_ok_members number_mode (d - 2) (sort_key fst (decoded_members number_mode m))"
    by (auto simp: list_all_iff)
  then show ?case by (auto simp: list_all_iff distinct_decoded numeral_2_eq_2)
next
  case (8 nm d m)
  then show ?case by (simp add: distinct_decoded)
next
  case (11 nm d k v m)
  then show ?case by (auto simp: json_ok_members_iff set_insort_key)
qed (auto simp: list_all_iff number_mode_reads number_of_def number_mode_def show_int_number zero_number)

end
