(* ===== verification/FileStore.thy ===== *)
theory FileStore
  imports FileProps
begin

text \<open>
  The contract of a row store, weaker than \<open>storage_adapter\<close>: what is appended is read back in a
  stored form, provided it is storable.  The memory adapter is one through the stronger contract;
  the file adapter is one on files with a header, under every fault of the file system.
\<close>

section \<open>The contract\<close>

locale row_store =
  fixes append_events :: "'st append_fn"
    and events_since :: "'st \<Rightarrow> int option \<Rightarrow> storage_error + event_row list"
    and rows_of :: "'st \<Rightarrow> event_row list"
    and invar :: "'st \<Rightarrow> bool"
    and stored :: "event_row \<Rightarrow> event_row"
    and storable :: "'st \<Rightarrow> event_row list \<Rightarrow> bool"
  assumes store_ok:
      "invar st \<Longrightarrow> append_events st ds ex = (Inr rs, st') \<Longrightarrow> storable st rs \<Longrightarrow>
        invar st' \<and> rows_of st' = rows_of st @ map stored rs \<and>
        list_all2 row_matches rs (rows_of_drafts (int (length (rows_of st))) ds)"
    and store_err:
      "invar st \<Longrightarrow> append_events st ds ex = (Inl e, st') \<Longrightarrow> invar st' \<and> rows_of st' = rows_of st"
    and store_fence:
      "invar st \<Longrightarrow> n \<noteq> int (length (rows_of st)) \<Longrightarrow>
        \<exists>e st'. append_events st ds (Some n) = (Inl e, st')"
    and store_since:
      "invar st \<Longrightarrow> events_since st c = Inr rs \<Longrightarrow> rs = rows_since (rows_of st) c"
    and stored_seq: "rw_seq (stored r) = rw_seq r"
    and store_dense: "invar st \<Longrightarrow> dense_rows (rows_of st)"
begin

text \<open>The events after a cursor that was the end before an append are the appended ones.\<close>

lemma since_append:
  assumes "invar st" and "append_events st ds ex = (Inr rs, st')" and "storable st rs"
    and "events_since st' (Some (int (length (rows_of st)) - 1)) = Inr out"
  shows "out = map stored rs"
proof -
  note ok = store_ok [OF assms(1-3)]
  have "out = rows_since (rows_of st') (Some (int (length (rows_of st)) - 1))"
    using store_since [OF _ assms(4)] ok by blast
  then show ?thesis using ok by (simp add: rows_since_def)
qed

text \<open>Reading everything returns the old rows, then the new ones.\<close>

lemma all_append:
  assumes "invar st" and "append_events st ds ex = (Inr rs, st')" and "storable st rs"
    and "events_since st' None = Inr out"
  shows "out = rows_of st @ map stored rs"
  using store_ok [OF assms(1-3)] store_since [OF _ assms(4)] by simp

end

sublocale storage_adapter \<subseteq> exact: row_store append_events
    "\<lambda>st c. map_sum id (\<lambda>rs. rows_since rs c) (events_since st None)" rows_of invar id "\<lambda>_ _. True"
proof
  fix st ds ex rs st'
  assume "invar st" and "append_events st ds ex = (Inr rs, st')"
  from append_ok [OF this] show "invar st' \<and> rows_of st' = rows_of st @ map id rs \<and>
      list_all2 row_matches rs (rows_of_drafts (int (length (rows_of st))) ds)" by simp
next
  fix st ds ex e st'
  assume "invar st" and "append_events st ds ex = (Inl e, st')"
  then show "invar st' \<and> rows_of st' = rows_of st" by (rule append_err)
next
  fix st n ds
  assume "invar st" and "n \<noteq> int (length (rows_of st))"
  then show "\<exists>e st'. append_events st ds (Some n) = (Inl e, st')" by (rule append_fence)
next
  fix st c rs
  assume "invar st" and "map_sum id (\<lambda>rs. rows_since rs c) (events_since st None) = Inr rs"
  then show "rs = rows_since (rows_of st) c"
    using since_all by (cases "events_since st None") auto
next
  fix st assume "invar st"
  then show "dense_rows (rows_of st)" by (rule inv_dense)
qed simp

section \<open>The text of a file\<close>

definition file_text :: "session_header \<Rightarrow> event_row list \<Rightarrow> string" where
  "file_text h rows = unlines (header_text h # map row_text rows)"

lemma text_starts: "header_text h \<noteq> []" "row_text r \<noteq> []"
  by (simp_all add: header_text_def row_text_def json_object_def)

lemma text_lines:
  "header_ok h \<Longrightarrow> one_line (header_text h) \<and> length (header_text h) < line_limit \<and> drop_cr (header_text h) = header_text h"
  "json_ok number_mode 10000 (VMap (row_members r)) \<Longrightarrow> one_line (row_text r)"
  "drop_cr (row_text r) = row_text r"
  using one_line_json(1) by (fastforce simp: header_ok_def header_text_def row_text_def drop_cr_object simp del: json_ok.simps)+

lemma row_ok_line: "row_ok r \<Longrightarrow> one_line (row_text r) \<and> length (row_text r) < line_limit"
  by (simp add: row_ok_def text_lines)

lemma read_rows:
  assumes "list_all row_ok rows"
    and "\<And>i. i < length rows \<Longrightarrow> rw_seq (rows ! i) = int (length acc + i)"
  shows "read_lines je (map row_text rows @ ls) (Suc n) h acc =
    read_lines je ls (Suc n + length rows) h (acc @ map stored_row rows)"
  using assms
proof (induction rows arbitrary: n acc)
  case (Cons r rows)
  have seq: "rw_seq r = int (length acc)" using Cons.prems(2) [of 0] by simp
  have "rw_seq (rows ! i) = int (length (acc @ [stored_row r]) + i)" if "i < length rows" for i
    using Cons.prems(2) [of "Suc i"] that by simp
  with Cons.IH [of "acc @ [stored_row r]" "Suc n"] Cons.prems(1)
  have "read_lines je (map row_text rows @ ls) (Suc (Suc n)) h (acc @ [stored_row r]) =
      read_lines je ls (Suc (Suc n) + length rows) h (acc @ [stored_row r] @ map stored_row rows)"
    by simp
  then show ?case using Cons.prems(1) seq decode_row [of r je]
    by (simp add: text_starts stored_row_def [of r])
qed simp

lemma read_file_lines:
  assumes "header_ok h" and "list_all row_ok rows" and "dense_rows rows"
  shows "read_lines je (header_text h # map row_text rows) 0 None [] =
    Inr (Some (stored_header h), map stored_row rows)"
proof -
  have "read_lines je (map row_text rows @ []) (Suc 0) (Some (stored_header h)) [] =
      read_lines je [] (Suc 0 + length rows) (Some (stored_header h)) ([] @ map stored_row rows)"
    using assms(3) by (intro read_rows [OF assms(2)]) (simp add: dense_rows_def)
  then show ?thesis by (simp add: text_starts decode_header [OF assms(1)])
qed

text \<open>A file that was written is read back.\<close>

lemma parse_file_text:
  assumes "header_ok h" and "list_all row_ok rows" and "dense_rows rows"
  shows "parse_file je (file_text h rows) None = Inr (stored_header h, map stored_row rows)"
proof -
  have "scan_lines line_limit (file_text h rows) = (header_text h # map row_text rows, False)"
    unfolding file_text_def
    by (rule scan_unlines)
      (use assms text_lines(1) [OF assms(1)] in \<open>auto simp: list_all_iff row_ok_line text_lines(3)\<close>)
  then show ?thesis
    by (simp add: parse_file_def read_file_lines [OF assms] del: read_lines.simps)
qed

text \<open>What \<^verbatim>\<open>writeAll\<close> writes.\<close>

lemma encode_file:
  assumes "header_ok h" and "\<And>r. r \<in> set rows \<Longrightarrow> json_ok number_mode 10000 (VMap (row_members r))"
  shows "encode_records None (file_records (Some h) rows) = Inr (file_text h rows)"
proof -
  have eq: "file_records (Some h) rows = headerMap h # map row_members rows"
    by (simp add: file_records_def row_members_def)
  have "bad_numbers (VMap m) = []" if "m \<in> set (headerMap h # map row_members rows)" for m
    using that assms json_ok_numbers(1)
    by (fastforce simp: header_ok_def simp del: json_ok.simps bad_numbers.simps)
  then have "encode_records None (headerMap h # map row_members rows) =
      Inr (unlines (map (\<lambda>m. json_text False (VMap m)) (headerMap h # map row_members rows)))"
    by (rule encode_records_ok)
  then show ?thesis
    by (simp add: eq file_text_def header_text_def row_text_def [abs_def] o_def del: json_text.simps encode_records.simps)
qed

section \<open>The file adapter\<close>

definition file_contents :: "file_adapter \<Rightarrow> (session_header \<times> event_row list) option" where
  "file_contents a =
     (case fa_file a of
        None \<Rightarrow> None
      | Some c \<Rightarrow> (case parse_file (fa_json_error a) c None of Inl e \<Rightarrow> None | Inr hr \<Rightarrow> Some hr))"

definition file_rows :: "file_adapter \<Rightarrow> event_row list" where
  "file_rows a = (case file_contents a of None \<Rightarrow> [] | Some (h, rows) \<Rightarrow> rows)"

definition file_header :: "file_adapter \<Rightarrow> session_header option" where
  "file_header a = map_option fst (file_contents a)"

text \<open>The files the adapter itself leaves: a header and rows in their stored form.  An adapter
  whose file does not exist yet has no rows.\<close>

definition settled_file :: "session_header \<Rightarrow> event_row list \<Rightarrow> bool" where
  "settled_file h rows \<longleftrightarrow>
     header_ok h \<and> stored_header h = h \<and> list_all row_ok rows \<and> map stored_row rows = rows \<and> dense_rows rows"

definition file_inv :: "file_adapter \<Rightarrow> bool" where
  "file_inv a \<longleftrightarrow>
     fa_file a = None \<or> (\<exists>h rows. fa_file a = Some (file_text h rows) \<and> settled_file h rows)"

lemma settled_contents:
  "fa_file a = Some (file_text h rows) \<Longrightarrow> settled_file h rows \<Longrightarrow> file_contents a = Some (h, rows)"
  by (simp add: file_contents_def settled_file_def parse_file_text)

lemma parse_file_read_err: "parse_file je c (Some m) \<noteq> Inr x"
  by (auto simp: parse_file_def split: prod.splits sum.splits if_splits)

text \<open>A read that succeeds returns the contents.\<close>

lemma readAll_ok:
  assumes "readAll a = Inr (h, rows)"
  shows "file_contents a = Some (h, rows) \<and> fa_file a \<noteq> None"
  using assms
  by (auto simp: readAll_def file_contents_def parse_file_read_err split: option.splits sum.splits prod.splits)

lemma readAll_NotExist: "readAll a = Inl NotExist \<Longrightarrow> fa_file a = None"
  by (auto simp: readAll_def split: option.splits sum.splits)

lemma writeAll_cases:
  "writeAll a h rows = (Inl e, a') \<Longrightarrow> a' = a"
  "writeAll a h rows = (Inr u, a') \<Longrightarrow>
     \<exists>c. encode_records (fa_fault a FsWrite) (file_records h rows) = Inr c \<and> a' = a\<lparr>fa_file := Some c\<rparr>"
  by (auto simp: writeAll_def split: option.splits sum.splits)

lemma encode_fault:
  "encode_records f ms = Inr c \<Longrightarrow> encode_records None ms = Inr c"
  by (induction ms arbitrary: c) (auto split: sum.splits option.splits)

text \<open>An append that fails, for whatever reason, leaves the file as it was.\<close>

lemma file_append_error: "file_AppendEvents a ds ex = (Inl e, a') \<Longrightarrow> a' = a"
  by (auto simp: file_AppendEvents_def Let_def split: sum.splits read_error.splits prod.splits if_splits
      dest: writeAll_cases(1))

lemma file_append_ok:
  assumes "file_AppendEvents a ds ex = (Inr rs, a')"
  shows "\<exists>h rows. (readAll a = Inr (h, rows) \<and> writeAll a (Some h) (rows @ rs) = (Inr (), a') \<or>
      fa_file a = None \<and> rows = [] \<and> writeAll a None rs = (Inr (), a')) \<and>
      rs = rows_of_drafts (int (length rows)) ds \<and> (ex = None \<or> ex = Some (int (length rows)))"
  using assms
  by (auto simp: file_AppendEvents_def Let_def split: sum.splits read_error.splits prod.splits if_splits
      option.splits dest: readAll_NotExist)

text \<open>New rows the file can keep.\<close>

definition file_storable :: "file_adapter \<Rightarrow> event_row list \<Rightarrow> bool" where
  "file_storable a rs \<longleftrightarrow> fa_file a \<noteq> None \<and> list_all row_ok rs"

lemma row_text_stored: "row_text (stored_row r) = row_text r"
proof -
  have "json_members False (stored_payload (rw_payload r)) = json_members False (sort_key fst (decoded_members number_mode (rw_payload r)))"
    by (simp add: stored_payload_def)
  then have "json_text False (VMap (stored_payload (rw_payload r))) = json_text False (VMap (rw_payload r))"
    using json_text_decoded(1) [of False "VMap (rw_payload r)"] by (simp add: stored_payload_def)
  then show ?thesis
    by (simp add: row_text_def row_members_def eventRowMap_def stored_row_def)
qed

lemma row_ok_stored:
  assumes "row_ok r"
  shows "row_ok (stored_row r)"
proof -
  have "json_ok number_mode 9999 (VMap (rw_payload r))"
    using assms by (simp add: row_ok_def row_members_def eventRowMap_def)
  from json_ok_decoded(1) [OF this refl]
  have "json_ok number_mode 9999 (VMap (stored_payload (rw_payload r)))"
    by (simp add: stored_payload_def)
  with assms show ?thesis
    by (simp add: row_ok_def row_text_stored)
      (simp add: row_members_def eventRowMap_def stored_row_def split: if_splits)
qed

lemma stored_row_idem: "stored_row (stored_row r) = stored_row r"
  by (simp add: stored_row_def stored_payload_def decoded_nm_idem(2))

lemma file_text_stored: "file_text h (map stored_row rows) = file_text h rows"
  by (simp add: file_text_def row_text_stored o_def)

lemma settled_append:
  assumes "settled_file h rows" and "list_all row_ok rs" and "rs = rows_of_drafts (int (length rows)) ds"
  shows "settled_file h (rows @ map stored_row rs)"
proof -
  have "dense_rows (rows @ rs)" using assms by (simp add: settled_file_def dense_rows_append_drafts)
  then have "dense_rows (rows @ map stored_row rs)"
    by (auto simp: dense_rows_def nth_append stored_row_def split: if_splits)
  moreover have "list_all row_ok (map stored_row rs)" using assms(2) by (auto simp: list_all_iff row_ok_stored)
  ultimately show ?thesis using assms(1) by (simp add: settled_file_def stored_row_idem o_def)
qed

lemma file_append_settled:
  assumes "fa_file a = Some (file_text h rows)" and "settled_file h rows"
    and "file_AppendEvents a ds ex = (Inr rs, a')" and "list_all row_ok rs"
  shows "rs = rows_of_drafts (int (length rows)) ds \<and> settled_file h (rows @ map stored_row rs) \<and>
    fa_file a' = Some (file_text h (rows @ map stored_row rs)) \<and> (ex = None \<or> ex = Some (int (length rows)))"
proof -
  obtain h' rows' where w: "readAll a = Inr (h', rows')" "writeAll a (Some h') (rows' @ rs) = (Inr (), a')"
    "rs = rows_of_drafts (int (length rows')) ds" "ex = None \<or> ex = Some (int (length rows'))"
    using file_append_ok [OF assms(3)] assms(1) by auto
  have eq: "h' = h" "rows' = rows"
    using readAll_ok [OF w(1)] settled_contents [OF assms(1,2)] by auto
  have ok: "json_ok number_mode 10000 (VMap (row_members r))" if "r \<in> set (rows @ rs)" for r
    using that assms(2,4) by (auto simp: settled_file_def list_all_iff row_ok_def simp del: json_ok.simps)
  have enc: "encode_records None (file_records (Some h) (rows @ rs)) = Inr (file_text h (rows @ rs))"
    using assms(2) ok by (intro encode_file) (simp_all add: settled_file_def del: json_ok.simps)
  obtain c where c: "encode_records (fa_fault a FsWrite) (file_records (Some h) (rows @ rs)) = Inr c"
    "a' = a\<lparr>fa_file := Some c\<rparr>"
    using writeAll_cases(2) [OF w(2)] eq by auto
  have "c = file_text h (rows @ rs)" using encode_fault [OF c(1)] enc by simp
  moreover have "file_text h (rows @ map stored_row rs) = file_text h (rows @ rs)"
    using file_text_stored [of h rs] by (simp add: file_text_def row_text_stored o_def)
  ultimately show ?thesis using c(2) w(3,4) eq settled_append [OF assms(2,4)] by simp
qed

lemma file_inv_read:
  assumes "file_inv a" and "readAll a = Inr (h, rows)"
  shows "settled_file h rows \<and> file_rows a = rows"
proof -
  note r = readAll_ok [OF assms(2)]
  then obtain h' rows' where "fa_file a = Some (file_text h' rows')" "settled_file h' rows'"
    using assms(1) by (auto simp: file_inv_def)
  with r settled_contents [of a h' rows'] show ?thesis by (simp add: file_rows_def)
qed

lemma rows_since_Nil [simp]: "rows_since [] c = []"
  by (simp add: rows_since_def Let_def)

interpretation file_store:
  row_store file_AppendEvents file_EventsSince file_rows file_inv stored_row file_storable
proof
  fix a ds ex rs a'
  assume inv': "file_inv a" and ap: "file_AppendEvents a ds ex = (Inr rs, a')" and st: "file_storable a rs"
  then obtain h rows where f: "fa_file a = Some (file_text h rows)" "settled_file h rows"
    by (auto simp: file_inv_def file_storable_def)
  have ok: "list_all row_ok rs" using st by (simp add: file_storable_def)
  note app = file_append_settled [OF f ap ok]
  then have "file_contents a' = Some (h, rows @ map stored_row rs)"
    by (intro settled_contents) blast+
  with app settled_contents [OF f] show "file_inv a' \<and> file_rows a' = file_rows a @ map stored_row rs \<and>
      list_all2 row_matches rs (rows_of_drafts (int (length (file_rows a))) ds)"
    by (auto simp: file_inv_def file_rows_def row_matches_all_refl)
next
  fix a ds ex e a'
  assume "file_inv a" and "file_AppendEvents a ds ex = (Inl e, a')"
  then show "file_inv a' \<and> file_rows a' = file_rows a" using file_append_error by blast
next
  fix a n ds
  assume "file_inv a" and n: "n \<noteq> int (length (file_rows a))"
  show "\<exists>e a'. file_AppendEvents a ds (Some n) = (Inl e, a')"
  proof (cases "file_AppendEvents a ds (Some n)")
    case (Pair r a')
    show ?thesis
    proof (cases r)
      case (Inr rs)
      then have "file_AppendEvents a ds (Some n) = (Inr rs, a')" using Pair by simp
      from file_append_ok [OF this] n show ?thesis
        by (auto simp: file_rows_def file_contents_def dest!: readAll_ok split: option.splits)
    qed (use Pair in auto)
  qed
next
  fix a c rs
  assume "file_inv a" and "file_EventsSince a c = Inr rs"
  then show "rs = rows_since (file_rows a) c"
    by (auto simp: file_EventsSince_def file_rows_def file_contents_def dest!: readAll_ok readAll_NotExist
        split: sum.splits read_error.splits option.splits)
next
  fix a assume "file_inv a"
  then consider "fa_file a = None"
    | h rows where "fa_file a = Some (file_text h rows)" "settled_file h rows"
    by (auto simp: file_inv_def)
  then show "dense_rows (file_rows a)"
  proof cases
    case 1
    then show ?thesis by (simp add: file_rows_def file_contents_def)
  next
    case 2
    with settled_contents [OF this] show ?thesis by (simp add: file_rows_def settled_file_def)
  qed
qed (simp add: stored_row_def)

text \<open>Saving a header keeps the rows.\<close>

lemma file_save_ok:
  assumes "file_inv a" and "header_ok h" and "stored_header h = h"
    and "file_SaveHeader a h = (Inr u, a')"
  shows "file_inv a' \<and> file_rows a' = file_rows a \<and> file_header a' = Some h"
proof -
  obtain rows where w: "writeAll a (Some h) rows = (Inr u, a')"
    and r: "(\<exists>h'. readAll a = Inr (h', rows)) \<or> readAll a = Inl NotExist \<and> rows = []"
    using assms(4) by (auto simp: file_SaveHeader_def Let_def split: sum.splits read_error.splits prod.splits)
  have rows: "file_rows a = rows" and ok: "list_all row_ok rows" "map stored_row rows = rows" "dense_rows rows"
    using r
    by (auto simp: settled_file_def file_rows_def file_contents_def
        dest!: file_inv_read [OF assms(1)] readAll_NotExist)
  have st: "settled_file h rows" using assms(2,3) ok by (simp add: settled_file_def)
  obtain c where c: "encode_records (fa_fault a FsWrite) (file_records (Some h) rows) = Inr c"
    "a' = a\<lparr>fa_file := Some c\<rparr>"
    using writeAll_cases(2) [OF w] by auto
  have "encode_records None (file_records (Some h) rows) = Inr (file_text h rows)"
    using assms(2) ok(1) by (intro encode_file) (auto simp: list_all_iff row_ok_def simp del: json_ok.simps)
  then have "c = file_text h rows" using encode_fault [OF c(1)] by simp
  with c(2) st have f: "fa_file a' = Some (file_text h rows)" by simp
  then show ?thesis using settled_contents [OF f st] st rows
    by (auto simp: file_inv_def file_rows_def file_header_def)
qed

text \<open>A settled file is read when nothing fails.\<close>

lemma settled_read:
  assumes "fa_file a = Some (file_text h rows)" and "settled_file h rows"
    and "fa_fault a FsOpen = None" and "fa_read_fault a = None"
  shows "readAll a = Inr (h, rows)"
  using assms parse_file_text [of h rows] by (simp add: readAll_def settled_file_def)

text \<open>Without a fault the append of rows the file can keep succeeds.\<close>

lemma file_append_succeeds:
  assumes "fa_file a = Some (file_text h rows)" and "settled_file h rows"
    and "fa_fault a = (\<lambda>s. None)" and "fa_read_fault a = None"
    and "list_all row_ok (rows_of_drafts (int (length rows)) ds)" and "ex = None \<or> ex = Some (int (length rows))"
  shows "\<exists>a'. file_AppendEvents a ds ex = (Inr (rows_of_drafts (int (length rows)) ds), a') \<and>
    fa_fault a' = fa_fault a \<and> fa_read_fault a' = fa_read_fault a"
proof -
  let ?rs = "rows_of_drafts (int (length rows)) ds"
  have r: "readAll a = Inr (h, rows)" using assms by (simp add: settled_read)
  have ok: "json_ok number_mode 10000 (VMap (row_members r))" if "r \<in> set (rows @ ?rs)" for r
    using that assms(2,5) by (auto simp: settled_file_def list_all_iff row_ok_def simp del: json_ok.simps)
  have "encode_records None (file_records (Some h) (rows @ ?rs)) = Inr (file_text h (rows @ ?rs))"
    using assms(2) ok by (intro encode_file) (simp_all add: settled_file_def del: json_ok.simps)
  then have "writeAll a (Some h) (rows @ ?rs) = (Inr (), a\<lparr>fa_file := Some (file_text h (rows @ ?rs))\<rparr>)"
    by (simp add: writeAll_def assms(3))
  then show ?thesis using r assms(6) by (auto simp: file_AppendEvents_def Let_def)
qed

section \<open>Files that cannot be read back\<close>

definition unreadable :: "file_adapter \<Rightarrow> bool" where
  "unreadable a \<longleftrightarrow>
     \<not> is_ok (file_LoadSession a) \<and> (\<forall>c. \<not> is_ok (file_EventsSince a c)) \<and>
     (\<forall>ds ex. \<not> is_ok (fst (file_AppendEvents a ds ex))) \<and> (\<forall>h. \<not> is_ok (fst (file_SaveHeader a h)))"

lemma unreadableI:
  assumes "fa_file a = Some c" and "\<And>n x. parse_file (fa_json_error a) c None \<noteq> Inr x"
  shows "unreadable a"
proof -
  have "\<exists>e. readAll a = Inl (ReadFailed e)"
    using assms by (auto simp: readAll_def parse_file_read_err split: option.splits sum.splits)
  then show ?thesis
    by (auto simp: unreadable_def file_LoadSession_def file_EventsSince_def file_AppendEvents_def file_SaveHeader_def)
qed

text \<open>A row of sixteen megabytes is written, but no line that long is read.\<close>

lemma long_line_unreadable:
  assumes "list_all one_line ts" and "t \<in> set ts" and "line_limit \<le> length t"
  shows "parse_file je (unlines ts) None \<noteq> Inr x"
proof -
  have "length (takeWhile (\<lambda>l. length l < line_limit) ts) < length ts"
    using assms(2,3)
  proof (induction ts)
    case (Cons u ts)
    then show ?case by auto
  qed simp
  then have "snd (scan_lines line_limit (unlines ts))"
    by (simp add: scan_lines_def raw_lines_unlines [OF assms(1)] Let_def)
  then show ?thesis by (auto simp: parse_file_def split: prod.splits sum.splits)
qed

lemma long_row_unreadable:
  assumes "fa_file a = Some (file_text h rows)" and "settled_file h rows"
    and "file_AppendEvents a ds ex = (Inr rs, a')"
    and "\<And>r. r \<in> set rs \<Longrightarrow> json_ok number_mode 10000 (VMap (row_members r))"
    and "r \<in> set rs" and "line_limit \<le> length (row_text r)"
  shows "unreadable a'"
proof -
  obtain h' rows' where w: "readAll a = Inr (h', rows')" "writeAll a (Some h') (rows' @ rs) = (Inr (), a')"
    using file_append_ok [OF assms(3)] assms(1) by auto
  have eq: "h' = h" "rows' = rows"
    using readAll_ok [OF w(1)] settled_contents [OF assms(1,2)] by auto
  have ok: "json_ok number_mode 10000 (VMap (row_members r))" if "r \<in> set (rows @ rs)" for r
    using that assms(2,4) by (auto simp: settled_file_def list_all_iff row_ok_def simp del: json_ok.simps)
  have enc: "encode_records None (file_records (Some h) (rows @ rs)) = Inr (file_text h (rows @ rs))"
    using assms(2) ok by (intro encode_file) (simp_all add: settled_file_def del: json_ok.simps)
  obtain c where c: "encode_records (fa_fault a FsWrite) (file_records (Some h) (rows @ rs)) = Inr c"
    "a' = a\<lparr>fa_file := Some c\<rparr>"
    using writeAll_cases(2) [OF w(2)] eq by auto
  have "c = file_text h (rows @ rs)" using encode_fault [OF c(1)] enc by simp
  then have f: "fa_file a' = Some (unlines (header_text h # map row_text (rows @ rs)))"
    using c(2) by (simp add: file_text_def)
  have "list_all one_line (header_text h # map row_text (rows @ rs))"
    using ok assms(2) text_lines(1) [of h]
    by (auto simp: list_all_iff settled_file_def text_lines(2) simp del: json_ok.simps)
  moreover have "row_text r \<in> set (header_text h # map row_text (rows @ rs))" using assms(5) by simp
  ultimately show ?thesis using assms(6) by (intro unreadableI [OF f] long_line_unreadable)
qed

text \<open>Rows appended before a header was saved.\<close>

lemma row_field_not_session: "list_all (\<lambda>k. match_field header_fields k \<noteq> Some ''__session__'') row_fields"
  by (simp add: row_fields_def match_field_def header_fields_def byte_def has_prefix_def)

lemma row_no_session:
  assumes "fold_fields set_header_field m (False, h) = Some (b, h')"
    and "fst ` set m \<subseteq> set row_fields"
  shows "\<not> b"
  using assms
proof (induction m arbitrary: h)
  case (Cons kv m)
  obtain k v where kv: "kv = (k, v)" by (cases kv)
  obtain bh where s: "set_header_field k v (False, h) = Some bh"
    and f: "fold_fields set_header_field m bh = Some (b, h')"
    using Cons.prems(1) kv by (auto split: option.splits)
  have "match_field header_fields k \<noteq> Some ''__session__''"
    using row_field_not_session Cons.prems(2) kv by (auto simp: list_all_iff)
  then have "fst bh = False"
    using s by (auto simp: set_header_field_def split: option.splits if_splits)
  with Cons.IH f Cons.prems(2) show ?case by (cases bh) auto
qed simp

lemma headerless_unreadable:
  assumes "fa_file a = None" and "file_AppendEvents a ds ex = (Inr (r # rs), a')"
    and "\<And>r'. r' \<in> set (r # rs) \<Longrightarrow> json_ok number_mode 10000 (VMap (row_members r'))"
    and "json_ok float_mode 10000 (VMap (row_members r))"
  shows "unreadable a'"
proof -
  have w: "writeAll a None (r # rs) = (Inr (), a')"
    using file_append_ok [OF assms(2)] assms(1) by (auto dest: readAll_ok)
  obtain c where c: "encode_records (fa_fault a FsWrite) (file_records None (r # rs)) = Inr c"
    "a' = a\<lparr>fa_file := Some c\<rparr>"
    using writeAll_cases(2) [OF w] by auto
  have eq: "file_records None (r # rs) = map row_members (r # rs)"
    by (simp add: file_records_def row_members_def)
  have "encode_records None (map row_members (r # rs)) =
      Inr (unlines (map (\<lambda>m. json_text False (VMap m)) (map row_members (r # rs))))"
    using assms(3) json_ok_numbers(1)
    by (intro encode_records_ok) (fastforce simp del: json_ok.simps bad_numbers.simps)
  then have "c = unlines (map row_text (r # rs))"
    using encode_fault [OF c(1)] unfolding eq
    by (simp add: row_text_def [abs_def] o_def del: json_text.simps encode_records.simps)
  then have f: "fa_file a' = Some (unlines (map row_text (r # rs)))" using c(2) by simp
  have lines: "raw_lines (unlines (map row_text (r # rs))) = map row_text (r # rs)"
    using assms(3) by (intro raw_lines_unlines) (auto simp: list_all_iff text_lines(2) simp del: json_ok.simps)
  have "decodeSessionHeader je (row_text r) \<noteq> Inr h" for je h
  proof -
    have "json_unmarshal float_mode (row_text r) = Some (decoded float_mode (VMap (row_members r)))"
      unfolding row_text_def by (rule json_roundtrip(2) [OF assms(4)])
    moreover have "fst ` set (sort_key fst (decoded_members float_mode (row_members r))) \<subseteq> set row_fields"
      by (auto simp: row_members_def eventRowMap_def row_fields_def)
    ultimately show ?thesis
      using row_no_session [of "sort_key fst (decoded_members float_mode (row_members r))" "snd zero_header"]
      by (auto simp: decodeSessionHeader_def decode_struct_def zero_header_def split: option.splits)
  qed
  then have rl: "read_lines je (row_text r # ls) 0 None [] \<noteq> Inr x" for je ls x
    by (auto simp: text_starts split: sum.splits)
  have "parse_file (fa_json_error a') (unlines (map row_text (r # rs))) None \<noteq> Inr x" for x
  proof (cases "length (row_text r) < line_limit")
    case True
    then obtain ls long where "scan_lines line_limit (unlines (map row_text (r # rs))) = (row_text r # ls, long)"
      unfolding scan_lines_def lines Let_def by (simp add: text_lines(3))
    then show ?thesis using rl by (auto simp: parse_file_def simp del: read_lines.simps split: sum.splits)
  next
    case False
    then have "scan_lines line_limit (unlines (map row_text (r # rs))) = ([], True)"
      unfolding scan_lines_def lines Let_def by simp
    then show ?thesis by (simp add: parse_file_def)
  qed
  then show ?thesis by (rule unreadableI [OF f])
qed

end
