(* ===== verification/JcsProps.thy ===== *)
theory JcsProps
  imports Jcs FileStore "HOL-Library.Multiset"
begin

text \<open>
  Canonical JSON: the text does not depend on the order of a map's members; on a row without
  float64 values the hash of the row in memory is the hash of the line a file adapter writes for
  it; and what becomes of large float64 integers.
\<close>

section \<open>UTF-16 and UTF-8\<close>

lemma encode_two:
  assumes "x < 32" "2 \<le> x" "y < 64"
  shows "utf8_encode (x * 64 + y) = [char_of (192 + x), char_of (128 + y)]"
proof -
  have "(x * 64 + y) div 64 = x" "(x * 64 + y) mod 64 = y" using assms by simp_all
  moreover have "\<not> x * 64 + y < 128" "x * 64 + y < 2048" using assms by linarith+
  ultimately show ?thesis by (simp only: utf8_encode_def if_False if_True)
qed

lemma split_64: "z < 64 \<Longrightarrow> (m * 64 + z) div 64 = m \<and> (m * 64 + z) mod 64 = (z::nat)"
  by simp

lemma encode_three:
  assumes "x < 16" "y < 64" "z < 64" "2048 \<le> x * 4096 + y * 64"
  shows "utf8_encode (x * 4096 + y * 64 + z) = [char_of (224 + x), char_of (128 + y), char_of (128 + z)]"
proof -
  let ?r = "x * 4096 + y * 64 + z"
  have r: "?r = (x * 64 + y) * 64 + z" by simp
  have "?r div 64 = x * 64 + y" "?r mod 64 = z" unfolding r using split_64 [OF assms(3)] by blast+
  moreover have "?r div 4096 = ?r div 64 div 64" by (simp add: div_mult2_eq [symmetric])
  ultimately have "?r div 4096 = x" "?r div 64 mod 64 = y" "?r mod 64 = z"
    using split_64 [OF assms(2), of x] by simp_all
  moreover have "\<not> ?r < 128" "\<not> ?r < 2048" "?r < 65536" using assms by linarith+
  ultimately show ?thesis by (simp only: utf8_encode_def if_False if_True)
qed

lemma encode_four:
  assumes "x < 8" "y < 64" "z < 64" "w < 64" "65536 \<le> x * 262144 + y * 4096"
  shows "utf8_encode (x * 262144 + y * 4096 + z * 64 + w) =
    [char_of (240 + x), char_of (128 + y), char_of (128 + z), char_of (128 + w)]"
proof -
  let ?r = "x * 262144 + y * 4096 + z * 64 + w"
  have r: "?r = ((x * 64 + y) * 64 + z) * 64 + w" by simp
  have "?r div 64 = (x * 64 + y) * 64 + z" "?r mod 64 = w" unfolding r using split_64 [OF assms(4)] by blast+
  moreover have "?r div 4096 = ?r div 64 div 64" "?r div 262144 = ?r div 64 div 64 div 64"
    by (simp_all add: div_mult2_eq [symmetric])
  ultimately have "?r div 262144 = x" "?r div 4096 mod 64 = y" "?r div 64 mod 64 = z" "?r mod 64 = w"
    using split_64 [OF assms(3), of "x * 64 + y"] split_64 [OF assms(2), of x] by simp_all
  moreover have "\<not> ?r < 128" "\<not> ?r < 2048" "\<not> ?r < 65536" using assms by linarith+
  ultimately show ?thesis by (simp only: utf8_encode_def if_False)
qed

lemma byte_offset: "k \<le> byte c \<Longrightarrow> c = char_of (k + (byte c - k))"
  by simp

lemma rune_value_encode:
  assumes "continuation c = Some rs" and "matches rs s"
  shows "utf8_encode (rune_value (c # take (length rs) s)) = c # take (length rs) s \<and>
    (rune_value (c # take (length rs) s) < 55296 \<or>
     57344 \<le> rune_value (c # take (length rs) s) \<and> rune_value (c # take (length rs) s) < 1114112)"
proof -
  consider (one) "byte c < 128" "rs = []"
    | (two) "194 \<le> byte c" "byte c \<le> 223" "rs = [(128, 191)]"
    | (three) lo hi where "224 \<le> byte c" "byte c \<le> 239" "rs = [(lo, hi), (128, 191)]" "128 \<le> lo" "hi \<le> 191"
        "byte c = 224 \<longrightarrow> lo = 160" "byte c = 237 \<longrightarrow> hi = 159"
    | (four) lo hi where "240 \<le> byte c" "byte c \<le> 244" "rs = [(lo, hi), (128, 191), (128, 191)]" "128 \<le> lo" "hi \<le> 191"
        "byte c = 240 \<longrightarrow> lo = 144" "byte c = 244 \<longrightarrow> hi = 143"
    using assms(1) unfolding continuation_def Let_def by (auto split: if_splits)
  then show ?thesis
  proof cases
    case one
    then show ?thesis by (simp add: utf8_encode_def)
  next
    case two
    with assms(2) obtain b t where s: "s = b # t" "128 \<le> byte b" "byte b \<le> 191"
      by (cases s) (auto simp: in_range_def)
    have "utf8_encode ((byte c - 192) * 64 + (byte b - 128)) = [char_of (192 + (byte c - 192)), char_of (128 + (byte b - 128))]"
      using two s by (intro encode_two) auto
    then show ?thesis using two s by auto
  next
    case three
    with assms(2) obtain b d t where s: "s = b # d # t" "lo \<le> byte b" "byte b \<le> hi" "128 \<le> byte d" "byte d \<le> 191"
      by (cases s; cases "tl s") (auto simp: in_range_def)
    have "utf8_encode ((byte c - 224) * 4096 + (byte b - 128) * 64 + (byte d - 128)) =
        [char_of (224 + (byte c - 224)), char_of (128 + (byte b - 128)), char_of (128 + (byte d - 128))]"
      using three s by (intro encode_three) auto
    moreover have "(byte c - 224) * 4096 + (byte b - 128) * 64 + (byte d - 128) < 55296 \<or>
        57344 \<le> (byte c - 224) * 4096 + (byte b - 128) * 64 + (byte d - 128)"
    proof -
      consider "byte c \<le> 236" | "byte c = 237" | "238 \<le> byte c" by linarith
      then show ?thesis using three s by cases auto
    qed
    moreover have "(byte c - 224) * 4096 + (byte b - 128) * 64 + (byte d - 128) < 1114112"
      using three s by linarith
    ultimately show ?thesis using three s by simp
  next
    case four
    with assms(2) obtain b d e t where s: "s = b # d # e # t" "lo \<le> byte b" "byte b \<le> hi" "128 \<le> byte d"
      "byte d \<le> 191" "128 \<le> byte e" "byte e \<le> 191"
      by (cases s; cases "tl s"; cases "tl (tl s)") (auto simp: in_range_def)
    have "utf8_encode ((byte c - 240) * 262144 + (byte b - 128) * 4096 + (byte d - 128) * 64 + (byte e - 128)) =
        [char_of (240 + (byte c - 240)), char_of (128 + (byte b - 128)), char_of (128 + (byte d - 128)),
         char_of (128 + (byte e - 128))]"
      using four s by (intro encode_four) auto
    then show ?thesis using four s by auto
  qed
qed

text \<open>Scalar values: the code points outside the surrogates.\<close>

definition scalar :: "nat \<Rightarrow> bool" where
  "scalar r \<longleftrightarrow> r < 55296 \<or> 57344 \<le> r \<and> r < 1114112"

lemma units_cancel:
  assumes "scalar r" and "scalar r'" and "rune_units r @ xs = rune_units r' @ ys"
  shows "r = r' \<and> xs = ys"
proof -
  have d: "a = b" if "a div 1024 = b div 1024" "a mod 1024 = b mod 1024" for a b :: nat
    using that by (metis div_mult_mod_eq)
  have h: "(q - 65536) div 1024 < 1024" if "scalar q" for q
    using that by (intro less_mult_imp_div_less) (auto simp: scalar_def)
  consider "r < 65536" "r' < 65536" | "r < 65536" "65536 \<le> r'" | "65536 \<le> r" "r' < 65536"
    | "65536 \<le> r" "65536 \<le> r'" by linarith
  then show ?thesis
  proof cases
    case 4
    with assms(3) have "r - 65536 = r' - 65536" "xs = ys" by (auto simp: rune_units_def intro: d)
    with 4 show ?thesis by simp
  qed (use assms h [OF assms(1)] h [OF assms(2)] in \<open>auto simp: rune_units_def scalar_def\<close>)
qed

lemma decode_scalar:
  assumes "valid_utf8 s" and "s \<noteq> []"
  obtains n r where "0 < n" "scalar r" "utf8_encode r = take n s" "valid_utf8 (drop n s)"
    "utf16_units s = rune_units r @ utf16_units (drop n s)"
proof -
  obtain c t where s: "s = c # t" using assms(2) by (cases s) auto
  obtain rs where rs: "continuation c = Some rs" "matches rs t"
    using assms s by (subst (asm) valid_utf8.simps) (auto split: option.splits if_splits)
  then have d: "decode_rune s = (Suc (length rs), True)" by (simp add: s)
  show thesis
  proof (rule that)
    show "scalar (rune_value (take (Suc (length rs)) s))"
      "utf8_encode (rune_value (take (Suc (length rs)) s)) = take (Suc (length rs)) s"
      using rune_value_encode [OF rs] by (simp_all add: s scalar_def)
    show "valid_utf8 (drop (Suc (length rs)) s)"
      using assms d by (subst (asm) valid_utf8.simps) (simp del: decode_rune.simps)
    show "utf16_units s = rune_units (rune_value (take (Suc (length rs)) s)) @ utf16_units (drop (Suc (length rs)) s)"
      using assms(2) d by (subst utf16_units.simps) (simp del: decode_rune.simps)
  qed simp
qed

text \<open>Valid strings with the same code units are the same.\<close>

lemma rune_units_not_Nil [simp]: "rune_units r \<noteq> []"
  by (simp add: rune_units_def)

lemma utf16_inject:
  "valid_utf8 s \<Longrightarrow> valid_utf8 t \<Longrightarrow> utf16_units s = utf16_units t \<Longrightarrow> s = t"
proof (induction "length s" arbitrary: s t rule: less_induct)
  case less
  have nil: "utf16_units [] = []" by (simp add: utf16_units.simps)
  show ?case
  proof (cases "s = [] \<or> t = []")
    case True
    then show ?thesis
    proof
      assume "s = []"
      with less.prems nil show ?thesis by (cases "t = []") (auto elim: decode_scalar [of t])
    next
      assume "t = []"
      with less.prems nil show ?thesis by (cases "s = []") (auto elim: decode_scalar [of s])
    qed
  next
    case False
    obtain n r where s: "0 < n" "scalar r" "utf8_encode r = take n s" "valid_utf8 (drop n s)"
      "utf16_units s = rune_units r @ utf16_units (drop n s)"
      using decode_scalar [OF less.prems(1)] False by blast
    obtain m q where t: "0 < m" "scalar q" "utf8_encode q = take m t" "valid_utf8 (drop m t)"
      "utf16_units t = rune_units q @ utf16_units (drop m t)"
      using decode_scalar [OF less.prems(2)] False by blast
    have eq: "r = q" "utf16_units (drop n s) = utf16_units (drop m t)"
      using units_cancel [OF s(2) t(2)] less.prems(3) s(5) t(5) by auto
    have "drop n s = drop m t"
      using s(1,4) t(4) eq(2) False by (intro less.hyps) auto
    moreover have "take n s = take m t" using s(3) t(3) eq(1) by simp
    ultimately show ?thesis by (metis append_take_drop_id)
  qed
qed

section \<open>Order of members\<close>

lemma sort_key_mset:
  assumes "mset xs = mset ys" and "distinct (map f xs)"
  shows "sort_key f xs = sort_key f ys"
proof (rule map_sorted_distinct_set_unique [where f = f])
  have s: "set xs = set ys" using assms(1) by (rule mset_eq_setD)
  show "inj_on f (set (sort_key f xs) \<union> set (sort_key f ys))" using assms(2) s by (simp add: distinct_map)
  have "distinct (map f ys)" using assms by (metis mset_map mset_eq_imp_distinct_iff)
  then show "distinct (map f (sort_key f ys))" by (metis mset_map mset_eq_imp_distinct_iff mset_sort)
  show "distinct (map f (sort_key f xs))" using assms(2) by (metis mset_map mset_eq_imp_distinct_iff mset_sort)
qed (use mset_eq_setD [OF assms(1)] in simp_all)

lemma distinct_units:
  assumes "list_all (\<lambda>kv. valid_utf8 (fst kv)) kvs" and "distinct (map fst kvs)"
  shows "distinct (map (\<lambda>kv. key_order (fst kv)) kvs)"
  using assms by (induction kvs) (auto simp: key_order_def list_all_iff dest!: utf16_inject)

lemma jcs_object_order:
  assumes "mset kvs = mset kvs'" and "distinct (map fst kvs)"
  shows "jcs_object kvs = jcs_object kvs'"
proof (cases "list_all (\<lambda>kv. valid_utf8 (fst kv)) kvs")
  case True
  then have "list_all (\<lambda>kv. valid_utf8 (fst kv)) kvs'"
    using mset_eq_setD [OF assms(1)] by (auto simp: list_all_iff)
  with True show ?thesis
    by (simp add: jcs_object_def sort_key_mset [OF assms(1) distinct_units [OF True assms(2)]])
next
  case False
  then have "\<not> list_all (\<lambda>kv. valid_utf8 (fst kv)) kvs'"
    using mset_eq_setD [OF assms(1)] by (auto simp: list_all_iff)
  with False show ?thesis by (simp add: jcs_object_def)
qed

text \<open>The members of every map in the order of their keys; a Go map's keys are distinct.\<close>

fun sort_members :: "val \<Rightarrow> val" and sort_payload :: "payload \<Rightarrow> payload" where
  "sort_members (VList vs) = VList (map sort_members vs)"
| "sort_members (VMaps ms) = VMaps (map (\<lambda>m. sort_key fst (sort_payload m)) ms)"
| "sort_members (VMap m) = VMap (sort_key fst (sort_payload m))"
| "sort_members v = v"
| "sort_payload [] = []"
| "sort_payload ((k, v) # m) = (k, sort_members v) # sort_payload m"

fun keys_distinct :: "val \<Rightarrow> bool" and members_distinct :: "payload \<Rightarrow> bool" where
  "keys_distinct (VList vs) = list_all keys_distinct vs"
| "keys_distinct (VMaps ms) = list_all (\<lambda>m. distinct (map fst m) \<and> members_distinct m) ms"
| "keys_distinct (VMap m) = (distinct (map fst m) \<and> members_distinct m)"
| "keys_distinct v = True"
| "members_distinct [] = True"
| "members_distinct ((k, v) # m) = (keys_distinct v \<and> members_distinct m)"

lemma jcs_members_map: "jcs_members m = map (\<lambda>(k, v). (k, writeJCSV1 v)) m"
  by (induction m) auto

lemma jcs_members_keys: "map fst (jcs_members m) = map fst m"
  by (induction m) auto

lemma jcs_object_sorted:
  assumes "distinct (map fst m)"
  shows "jcs_object (jcs_members (sort_key fst m)) = jcs_object (jcs_members m)"
  by (rule jcs_object_order [symmetric]) (simp_all add: jcs_members_map assms case_prod_beta comp_def)

lemma sort_payload_keys [simp]: "map fst (sort_payload m) = map fst m"
  by (induction m) auto

lemma canonical_sorted:
  "keys_distinct v \<Longrightarrow> writeJCSV1 (sort_members v) = writeJCSV1 v"
  "members_distinct m \<Longrightarrow> jcs_members (sort_payload m) = jcs_members m"
proof (induction v and m rule: keys_distinct_members_distinct.induct)
  case (1 vs)
  then have "map (writeJCSV1 \<circ> sort_members) vs = map writeJCSV1 vs"
    by (intro map_cong) (simp_all add: list_all_iff)
  then show ?case by (simp only: sort_members.simps writeJCSV1.simps map_map)
next
  case (2 ms)
  then have "map ((\<lambda>m. jcs_object (jcs_members m)) \<circ> (\<lambda>m. sort_key fst (sort_payload m))) ms =
      map (\<lambda>m. jcs_object (jcs_members m)) ms"
    by (intro map_cong) (simp_all add: list_all_iff jcs_object_sorted)
  then show ?case by (simp only: sort_members.simps writeJCSV1.simps map_map)
next
  case (3 m)
  then show ?case by (simp add: jcs_object_sorted)
qed simp_all

section \<open>The escapes of encoded text\<close>

lemma escapes_simps [simp]:
  "escapes_ok b []"
  "escapes_ok False (c # t) = escapes_ok (c = CHR 0x22) t"
  "escapes_ok True (CHR 0x22 # t) = escapes_ok False t"
  "c \<noteq> CHR 0x22 \<Longrightarrow> c \<noteq> CHR 0x5C \<Longrightarrow> escapes_ok True (c # t) = escapes_ok True t"
  "e \<noteq> CHR ''u'' \<Longrightarrow> escapes_ok True (CHR 0x5C # e # u) = escapes_ok True u"
  by (subst escapes_ok.simps; simp)+

lemma escapes_unicode:
  assumes "readHex4 u = Some r" and "\<not> is_high r" and "\<not> is_low r"
  shows "escapes_ok True (CHR 0x5C # CHR ''u'' # u) = escapes_ok True (drop 4 u)"
  using assms by (subst escapes_ok.simps) simp

lemma escapes_plain:
  "list_all (\<lambda>c. c \<noteq> CHR 0x22 \<and> c \<noteq> CHR 0x5C) p \<Longrightarrow> escapes_ok True (p @ t) = escapes_ok True t"
  by (induction p) auto

lemma escapes_outside: "CHR 0x22 \<notin> set p \<Longrightarrow> escapes_ok False (p @ t) = escapes_ok False t"
  by (induction p) auto

lemma escapes_unicode_escape: "n < 128 \<Longrightarrow> escapes_ok True (unicode_escape n @ t) = escapes_ok True t"
  using hex4_small [of n] by (simp add: unicode_escape_def escapes_unicode readHex4_def is_high_def is_low_def)

lemma escapes_ascii:
  assumes "byte c < 128"
  shows "escapes_ok True (escape_ascii html c @ t) = escapes_ok True t"
  using assms by (simp add: escape_ascii_def Let_def escapes_unicode_escape)

text \<open>The bytes of a rune beyond ASCII are beyond ASCII.\<close>

lemma matches_high: "matches rs s \<Longrightarrow> \<forall>(lo, hi) \<in> set rs. 128 \<le> lo \<Longrightarrow> \<forall>c \<in> set (take (length rs) s). 128 \<le> byte c"
  by (induction rs s rule: matches.induct) (auto simp: in_range_def)

lemma rune_high:
  assumes "decode_rune (c # s) = (n, True)" and "\<not> byte c < 128"
  shows "\<forall>x \<in> set (take n (c # s)). 128 \<le> byte x"
proof -
  obtain rs where rs: "continuation c = Some rs" "matches rs s" "n = Suc (length rs)"
    using assms(1) by (auto split: option.splits if_splits)
  then show ?thesis using matches_high [OF rs(2) continuation_lo [OF rs(1)]] assms(2) by auto
qed

lemma high_plain: "\<forall>x \<in> set p. 128 \<le> byte x \<Longrightarrow> list_all (\<lambda>c. c \<noteq> CHR 0x22 \<and> c \<noteq> CHR 0x5C) p"
  by (auto simp: list_all_iff byte_def)

lemma escapes_rune:
  assumes "\<forall>x \<in> set p. 128 \<le> byte x"
  shows "escapes_ok True (escape_rune p @ t) = escapes_ok True t"
  using escapes_plain [OF high_plain [OF assms]] hex4_2028
  by (simp add: escape_rune_def escapes_unicode readHex4_def is_high_def is_low_def)

lemma escapes_string: "escapes_ok True (escape_string html s @ CHR 0x22 # t) = escapes_ok False t"
proof (induction html s rule: escape_string.induct)
  case (1 html s)
  show ?case
  proof (cases s)
    case Nil
    then show ?thesis by (simp add: escape_string.simps)
  next
    case (Cons c u)
    obtain n valid where dr: "decode_rune s = (n, valid)" by (cases "decode_rune s")
    show ?thesis
    proof (cases "byte c < 128")
      case True
      with 1(1) [OF Cons True] Cons show ?thesis by (subst escape_string.simps) (simp add: escapes_ascii)
    next
      case False
      show ?thesis
      proof (cases valid)
        case True
        have "\<forall>x \<in> set (take n (c # u)). 128 \<le> byte x" using dr Cons True False by (intro rune_high) simp_all
        with 1(2) [OF Cons False dr [symmetric] refl True] Cons False dr True show ?thesis
          by (subst escape_string.simps) (simp add: escapes_rune del: decode_rune.simps)
      next
        case valid: False
        have "hex4 (''fffd'' @ x) = Some (65533, x)" for x by (simp add: hex_val_def byte_def)
        with 1(3) [OF Cons False dr [symmetric] refl valid] Cons False dr valid show ?thesis
          by (subst escape_string.simps)
            (simp add: escapes_unicode readHex4_def is_high_def is_low_def del: decode_rune.simps hex4.simps)
      qed
    qed
  qed
qed

definition transparent :: "string \<Rightarrow> bool" where
  "transparent p \<longleftrightarrow> (\<forall>t. escapes_ok False (p @ t) = escapes_ok False t)"

lemma transparent_quote: "transparent (quote_json html s)"
  by (simp add: transparent_def quote_json_def escapes_string)

lemma transparent_append [intro]: "transparent p \<Longrightarrow> transparent q \<Longrightarrow> transparent (p @ q)"
  by (simp add: transparent_def)

lemma transparent_simps [simp]:
  "transparent []" "c \<noteq> CHR 0x22 \<Longrightarrow> transparent (c # p) = transparent p"
  by (simp_all add: transparent_def)

lemma transparent_plain [intro]: "CHR 0x22 \<notin> set p \<Longrightarrow> transparent p"
  by (simp add: transparent_def escapes_outside)

lemma transparent_join: "(\<And>x. x \<in> set xs \<Longrightarrow> transparent x) \<Longrightarrow> transparent (str_join xs '','')"
  by (induction xs "'',''" rule: str_join.induct) auto

lemma transparent_number: "is_json_number s \<Longrightarrow> transparent s"
proof -
  have "num_scan q s = Some (s, []) \<Longrightarrow> CHR 0x22 \<notin> set s" for q s
    by (induction q s rule: num_scan.induct) (auto split: option.splits if_splits elim!: num_step.elims simp: is_digit_def exp_char_def)
  then show "is_json_number s \<Longrightarrow> transparent s"
    by (fastforce simp: is_json_number_def scan_number_def num_start_def is_digit_def split: list.splits option.splits if_splits)
qed

lemma transparent_list: "(\<And>x. x \<in> set xs \<Longrightarrow> transparent x) \<Longrightarrow> transparent (json_list xs)"
  by (auto simp: json_list_def intro!: transparent_append transparent_join)

lemma transparent_object: "(\<And>k t. (k, t) \<in> set kts \<Longrightarrow> transparent t) \<Longrightarrow> transparent (json_object html kts)"
  by (auto simp: json_object_def json_member_def transparent_quote intro!: transparent_append transparent_join)

lemma transparent_json:
  "json_ok nm d v \<Longrightarrow> transparent (json_text html v)"
  "json_ok_members nm d m \<Longrightarrow> (k, x) \<in> set m \<Longrightarrow> transparent (json_text html x)"
proof (induction nm d v and nm d m arbitrary: and k x rule: json_ok_json_ok_members.induct)
  case (5 nm d vs)
  then show ?case by (auto simp: json_texts_map list_all_iff intro!: transparent_list)
next
  case (7 nm d ms)
  then show ?case
    by (auto simp: json_objects_map json_members_map list_all_iff intro!: transparent_list transparent_object)
next
  case (8 nm d m)
  then show ?case by (auto simp: json_members_map intro!: transparent_object)
next
  case (6 nm d ss)
  then show ?case by (auto simp: transparent_quote intro!: transparent_list)
qed (auto simp: transparent_quote reads_as_def transparent_number show_int_number)

section \<open>Hashes of stored rows\<close>

text \<open>Values whose text in memory is their text after decoding: no float64, no list of strings.\<close>

fun hashable :: "val \<Rightarrow> bool" and members_hashable :: "payload \<Rightarrow> bool" where
  "hashable (VFloat x) = False"
| "hashable (VStrs ss) = False"
| "hashable (VNum s) = (s \<noteq> [])"
| "hashable (VList vs) = list_all hashable vs"
| "hashable (VMaps ms) = list_all members_hashable ms"
| "hashable (VMap m) = members_hashable m"
| "hashable v = True"
| "members_hashable [] = True"
| "members_hashable ((k, v) # m) = (hashable v \<and> members_hashable m)"

lemma canonicalNumber_int: "canonicalNumber (show_int n) = Inr (show_int n)"
proof -
  have d: "c \<noteq> CHR ''.'' \<and> c \<noteq> CHR ''e'' \<and> c \<noteq> CHR ''E''" if "c \<in> set (show_nat k)" for c k
    using show_nat_digits [OF that] by (auto simp: is_digit_def)
  have z: "show_int n \<noteq> ''-0''"
  proof
    assume "show_int n = ''-0''"
    then have "n < 0" "show_nat (nat (- n)) = ''0''"
      using show_nat_not_sign(1) [of "nat n"] by (auto simp: show_int_def split: if_splits)
    moreover have "show_nat 0 = ''0''" by code_simp
    ultimately show False using show_nat_inject [of "nat (- n)" 0] by simp
  qed
  have "\<not> list_ex (\<lambda>c. c = CHR ''.'' \<or> c = CHR ''e'' \<or> c = CHR ''E'') (show_int n)"
    using d by (auto simp: show_int_def list_ex_iff)
  with z show ?thesis by (simp add: canonicalNumber_def)
qed

lemma jcs_decoded_object:
  assumes "distinct (map fst m)" and "\<And>k v. (k, v) \<in> set m \<Longrightarrow> writeJCSV1 (decoded nm v) = writeJCSV1 v"
  shows "jcs_object (jcs_members (sort_key fst (decoded_members nm m))) = jcs_object (jcs_members m)"
proof -
  have "jcs_members (decoded_members nm m) = jcs_members m"
    using assms(2) by (auto simp: jcs_members_map decoded_members_map)
  moreover have "distinct (map fst (decoded_members nm m))"
    using assms(1) by (simp add: decoded_members_map case_prod_beta comp_def)
  ultimately show ?thesis using jcs_object_sorted by simp
qed

lemma jcs_decoded:
  "keys_distinct v \<Longrightarrow> hashable v \<Longrightarrow> writeJCSV1 (decoded number_mode v) = writeJCSV1 v"
  "members_distinct m \<Longrightarrow> members_hashable m \<Longrightarrow> (k, x) \<in> set m \<Longrightarrow>
     writeJCSV1 (decoded number_mode x) = writeJCSV1 x"
proof (induction v and m arbitrary: and k x rule: keys_distinct_members_distinct.induct)
  case (1 vs)
  then have "map (writeJCSV1 \<circ> decoded number_mode) vs = map writeJCSV1 vs"
    by (intro map_cong) (simp_all add: list_all_iff)
  then show ?case by (simp only: decoded.simps writeJCSV1.simps map_map)
next
  case (2 ms)
  then have "map (writeJCSV1 \<circ> (\<lambda>m. VMap (sort_key fst (decoded_members number_mode m)))) ms =
      map (\<lambda>m. jcs_object (jcs_members m)) ms"
    by (intro map_cong) (auto simp: list_all_iff jcs_decoded_object)
  then show ?case by (simp only: decoded.simps writeJCSV1.simps map_map)
next
  case (3 m)
  then show ?case by (auto simp: jcs_decoded_object)
next
  case 6
  then show ?case by auto
qed (auto simp: number_of_def number_mode_def canonicalNumber_int)

lemma json_ok_distinct:
  "json_ok nm d v \<Longrightarrow> keys_distinct v"
  "json_ok_members nm d m \<Longrightarrow> members_distinct m"
  by (induction nm d v and nm d m rule: json_ok_json_ok_members.induct) (auto simp: list_all_iff)

text \<open>The hash of a row in memory is the hash of the line the file adapter writes for it.\<close>

lemma hash_of_line:
  assumes "json_ok number_mode 10000 (VMap (row_members r))" and "members_hashable (rw_payload r)"
  shows "ContentHashForEventRowJSON sha256 (row_text r) = ContentHashForEventRow sha256 r"
proof -
  let ?m = "row_members r" and ?h = "hashed_members r"
  have s: "validateSurrogateEscapes (row_text r) = None"
    using transparent_json(1) [OF assms(1), of False] escapes_simps(1)
    unfolding validateSurrogateEscapes_def row_text_def transparent_def by (metis append_Nil2)
  have d: "json_decode_first number_mode (row_text r) = Some (VMap (sort_key fst (decoded_members number_mode ?m)), [])"
    using json_roundtrip(1) [OF assms(1), of "[]" False] by (simp add: row_text_def delim_def del: json_text.simps)
  have f: "filter (\<lambda>kv. fst kv \<noteq> ''content_hash'') (decoded_members number_mode ?m) = decoded_members number_mode ?h"
    by (simp add: row_members_def eventRowMap_def hashed_members_def)
  have dist: "distinct (map fst ?h)" by (simp add: hashed_members_def)
  have "keys_distinct (VMap (rw_payload r))"
    using json_ok_distinct(1) [OF assms(1)] by (simp add: row_members_def eventRowMap_def)
  then have v: "writeJCSV1 (decoded number_mode v) = writeJCSV1 v" if "(k, v) \<in> set ?h" for k v
    using that assms(2) jcs_decoded(1) [of "VMap (rw_payload r)"]
    by (auto simp: hashed_members_def number_of_def number_mode_def canonicalNumber_int)
  have "writeJCSV1 (exclude_keys [''content_hash''] (VMap (sort_key fst (decoded_members number_mode ?m)))) =
      writeJCSV1 (VMap ?h)"
    using jcs_decoded_object [OF dist v] by (simp add: exclude_keys_def filter_sort f)
  then show ?thesis
    by (simp add: ContentHashForEventRowJSON_def CanonicalizeJCSV1JSON_def ContentHashForEventRow_def s d
        del: exclude_keys_def)
qed

end
