(* ===== verification/JcsNumbers.thy ===== *)
theory JcsNumbers
  imports JcsProps
begin

text \<open>
  What canonical JSON makes of a float64 that is an integer from 1000000 on: its decimal digits
  without the trailing zeros.
\<close>

section \<open>Decimal digits\<close>

lemma digit_char_0: "digit_char 0 = CHR ''0''"
  by code_simp

lemma show_nat_times_10: "0 < m \<Longrightarrow> show_nat (m * 10) = show_nat m @ ''0''"
  by (subst show_nat.simps) (simp add: digit_char_0)

lemma show_nat_shift: "0 < m \<Longrightarrow> show_nat (m * 10 ^ j) = show_nat m @ replicate j (CHR ''0'')"
proof (induction j)
  case (Suc j)
  then have "show_nat (m * 10 ^ j * 10) = show_nat (m * 10 ^ j) @ ''0''" by (intro show_nat_times_10) simp
  with Suc show ?case by (simp add: mult.assoc mult.commute [of 10] replicate_append_same)
qed simp

lemma show_nat_bounds: "0 < n \<Longrightarrow> 10 ^ (length (show_nat n) - 1) \<le> n \<and> n < 10 ^ length (show_nat n)"
proof (induction n rule: show_nat.induct)
  case (1 n)
  show ?case
  proof (cases "n < 10")
    case True
    then show ?thesis using 1(2) by (subst (1 2) show_nat.simps) simp
  next
    case False
    let ?k = "length (show_nat (n div 10))"
    have ih: "10 ^ (?k - 1) \<le> n div 10 \<and> n div 10 < 10 ^ ?k" using 1(1) [OF False] False by simp
    have k: "0 < ?k" by simp
    have "10 ^ ?k = 10 * (10::nat) ^ (?k - 1)" using k by (metis power_minus_mult mult.commute)
    moreover have "10 * (n div 10) \<le> n" "n < 10 * (n div 10) + 10" by simp_all
    ultimately have "10 ^ ?k \<le> n" "n < 10 * 10 ^ ?k" using ih by linarith+
    with False show ?thesis by (subst (1 2) show_nat.simps) simp
  qed
qed

lemma trim_right_split:
  obtains k where "s = trim_right s c @ replicate k c" and "trim_right s c = [] \<or> last (trim_right s c) \<noteq> c"
proof
  let ?k = "length (takeWhile (\<lambda>x. x = c) (rev s))"
  have "takeWhile (\<lambda>x. x = c) (rev s) = replicate ?k c"
    by (rule replicate_length_same [symmetric]) (auto dest: set_takeWhileD)
  then have "rev s = replicate ?k c @ dropWhile (\<lambda>x. x = c) (rev s)" by (metis takeWhile_dropWhile_id)
  then have "s = rev (dropWhile (\<lambda>x. x = c) (rev s)) @ rev (replicate ?k c)"
    by (metis rev_append rev_rev_ident)
  then show "s = trim_right s c @ replicate ?k c" by (simp add: trim_right_def)
  show "trim_right s c = [] \<or> last (trim_right s c) \<noteq> c"
    using hd_dropWhile [of "\<lambda>x. x = c" "rev s"] by (auto simp: trim_right_def last_rev)
qed

lemma trim_right_replicate: "trim_right (t @ replicate k c) c = trim_right t c"
proof -
  have "dropWhile (\<lambda>x. x = c) (replicate k c @ xs) = dropWhile (\<lambda>x. x = c) xs" for xs
    by (induction k) auto
  then show ?thesis by (simp add: trim_right_def)
qed

lemma trim_right_id: "t \<noteq> [] \<Longrightarrow> last t \<noteq> c \<Longrightarrow> trim_right t c = t"
  by (cases t rule: rev_cases) (simp_all add: trim_right_def)

section \<open>The shortest digits of an integer\<close>

lemma fl_nat: "n < 2 ^ 53 \<Longrightarrow> fl (of_nat n) = Some (of_nat n)"
  using fl_of_int [of "int n"] by simp

lemma try_digits_nat:
  assumes "0 < n" and "n < 10 ^ 15" and "k \<le> length (show_nat n)" and "0 < k"
  shows "try_digits (of_nat n) k =
    (let p = 10 ^ (length (show_nat n) - k) in if p dvd n then Some (n div p) else None)"
proof -
  define p where "p = (10::nat) ^ (length (show_nat n) - k)"
  have dp: "dec_point (of_nat n) = int (length (show_nat n))" using assms(1) by (simp add: dec_point_def)
  have u: "ten_pow (dec_point (of_nat n) - int k) = of_nat p"
    using assms(3) by (simp add: ten_pow_def dp p_def nat_diff_distrib)
  have lo: "nat \<lfloor>of_nat n / (of_nat p :: rat)\<rfloor> = n div p" by (simp add: floor_divide_of_nat_eq)
  have pn: "p \<le> n"
  proof -
    have "p \<le> 10 ^ (length (show_nat n) - 1)" using assms(4) by (simp add: p_def power_increasing)
    with show_nat_bounds [OF assms(1)] show ?thesis by linarith
  qed
  have pos: "0 < p" by (simp add: p_def)
  have a: "n div p * p \<le> n" and b: "n < (n div p + 1) * p"
    using div_times_less_eq_dividend [of n p] pos by (simp_all add: dividend_less_div_times)
  have c: "(n div p + 1) * p \<le> 2 * n" using a pn by (simp only: distrib_right mult_1)
  have "(2::nat) * 10 ^ 15 < 2 ^ 53" by simp
  then have d: "n div p * p < 2 ^ 53" "(n div p + 1) * p < 2 ^ 53"
    using a c assms(2) by linarith+
  have l: "fl (of_nat (n div p) * of_nat p) = Some (of_nat (n div p * p))"
    using fl_nat [OF d(1)] by simp
  have h: "fl (of_nat (n div p + 1) * of_nat p) = Some (of_nat ((n div p + 1) * p))"
    using fl_nat [OF d(2)] by (simp only: of_nat_mult)
  have ne: "(n div p + 1) * p \<noteq> n" using b by simp
  have e: "n div p * p = n \<longleftrightarrow> p dvd n" by (metis dvd_div_mult_self dvd_triv_right)
  show ?thesis
    unfolding try_digits_def u lo Let_def l h p_def [symmetric] option.inject of_nat_eq_iff
    using ne e by simp
qed

lemma search_digits_nat:
  assumes "0 < n" and "n < 10 ^ 15" and "0 < k" and "k \<le> length (show_nat n)" and "f + k = 17"
  shows "\<exists>m k'. search_digits f (of_nat n) k = (m, k') \<and> k' \<le> length (show_nat n) \<and>
    m * 10 ^ (length (show_nat n) - k') = n"
  using assms(3-5)
proof (induction f arbitrary: k)
  case 0
  have "10 ^ (length (show_nat n) - 1) < (10::nat) ^ 15"
    using show_nat_bounds [OF assms(1)] assms(2) by linarith
  then have "length (show_nat n) - 1 < 15" by (rule power_less_imp_less_exp [rotated]) simp
  with 0 show ?case by simp
next
  case (Suc f)
  let ?p = "10 ^ (length (show_nat n) - k)"
  show ?case
  proof (cases "?p dvd n")
    case True
    then show ?thesis
      using try_digits_nat [OF assms(1,2) Suc.prems(2,1)] Suc.prems(2) by (simp add: Let_def)
  next
    case False
    then have "k \<noteq> length (show_nat n)" by (metis diff_self_eq_0 one_dvd power_0)
    with False try_digits_nat [OF assms(1,2) Suc.prems(2,1)] Suc.prems Suc.IH [of "Suc k"]
    show ?thesis by (simp add: Let_def)
  qed
qed

lemma shortest_nat:
  assumes "0 < n" and "n < 10 ^ 15"
  shows "\<exists>m j. shortest (of_nat n) = (show_nat m, int (length (show_nat n))) \<and> 0 < m \<and>
    show_nat n = show_nat m @ replicate j (CHR ''0'')"
proof -
  have one: "1 \<le> length (show_nat n)" by (simp add: Suc_le_eq)
  obtain m k where s: "search_digits 16 (of_nat n) 1 = (m, k)" "k \<le> length (show_nat n)"
    "m * 10 ^ (length (show_nat n) - k) = n"
    using search_digits_nat [OF assms, of 1 16] one by auto
  have m: "0 < m" using s(3) assms(1) by (cases m) auto
  have sh: "show_nat n = show_nat m @ replicate (length (show_nat n) - k) (CHR ''0'')"
    using show_nat_shift [OF m, of "length (show_nat n) - k"] s(3) by simp
  then have "length (show_nat n) = length (show_nat m) + (length (show_nat n) - k)"
    by (metis length_append length_replicate)
  then have "length (show_nat m) = k" using s(2) by simp
  then have "shortest (of_nat n) = (show_nat m, int (length (show_nat n)))"
    using s(1) assms(1) by (simp add: shortest_def dec_point_def)
  with m sh show ?thesis by blast
qed

section \<open>The text of a large integer\<close>

lemma exponent_digits: "list_all (\<lambda>e. atoi (exponent_text e) = Some e) [6..14]"
  by code_simp

text \<open>The mantissa of \<^verbatim>\<open>%e\<close> on the digits \<open>t\<close>.\<close>

definition mantissa_of :: "string \<Rightarrow> string" where
  "mantissa_of t = (case t of [] \<Rightarrow> [] | [d] \<Rightarrow> [d] | d # rest \<Rightarrow> d # CHR ''.'' # rest)"

lemma mantissa_props:
  assumes "t \<noteq> []" and "list_all is_digit t"
  shows "filter (\<lambda>c. c \<noteq> CHR ''.'') (mantissa_of t) = t"
    and "(case str_index (mantissa_of t) ''.'' of Some d \<Rightarrow> length (mantissa_of t) - d - 1 | None \<Rightarrow> 0) = length t - 1"
    and "\<not> has_prefix (mantissa_of t) ''-''" and "CHR ''e'' \<notin> set (mantissa_of t)"
proof -
  obtain d r where t: "t = d # r" using assms(1) by (cases t) auto
  have d: "d \<noteq> CHR ''.''" "d \<noteq> CHR ''-''" "d \<noteq> CHR ''e''" using assms(2) t by (auto simp: is_digit_def)
  have r: "\<And>c. c \<in> set r \<Longrightarrow> c \<noteq> CHR ''.'' \<and> c \<noteq> CHR ''e''" using assms(2) t by (auto simp: list_all_iff is_digit_def)
  show "filter (\<lambda>c. c \<noteq> CHR ''.'') (mantissa_of t) = t"
    using t d r by (cases r) (auto simp: mantissa_of_def filter_id_conv)
  show "(case str_index (mantissa_of t) ''.'' of Some d \<Rightarrow> length (mantissa_of t) - d - 1 | None \<Rightarrow> 0) = length t - 1"
    using t d by (cases r) (auto simp: mantissa_of_def has_prefix_def)
  show "\<not> has_prefix (mantissa_of t) ''-''"
    using t d by (cases r) (auto simp: mantissa_of_def has_prefix_def)
  show "CHR ''e'' \<notin> set (mantissa_of t)"
    using t d r by (cases r) (auto simp: mantissa_of_def)
qed

lemma exponentToDecimal_integer:
  assumes "t \<noteq> []" and "list_all is_digit t" and "last t \<noteq> CHR ''0''" and "length t \<le> D"
  shows "exponentToDecimal (mantissa_of t) (int D - 1) = t"
proof -
  note m = mantissa_props [OF assms(1,2)]
  have tp: "trim_prefix (mantissa_of t) ''-'' = mantissa_of t" using m(3) by (simp add: trim_prefix_def)
  have one: "1 \<le> length t" using assms(1) by (cases t) auto
  have point: "int (length t) - int (length t - 1) + (int D - 1) = int D" using one by simp
  have "last t \<noteq> CHR ''.''" using assms(2) last_in_set [OF assms(1)] by (fastforce simp: list_all_iff is_digit_def)
  then have "trim_right (trim_right (t @ replicate (D - length t) (CHR ''0'')) (CHR ''0'')) (CHR ''.'') = t"
    using assms(1,3) by (simp add: trim_right_replicate trim_right_id)
  then show ?thesis
    unfolding exponentToDecimal_def tp m(1) m(2) point Let_def using m(3) assms(4) one by simp
qed

lemma cut_append: "c \<notin> set p \<Longrightarrow> str_cut (p @ c # x) c = (p, x)"
  by (induction p) (auto simp: str_cut_def)

lemma es6Number_integer:
  assumes "10 ^ 6 \<le> n" and "n < 10 ^ 15"
  shows "es6Number (of_nat n) = Inr (trim_right (show_nat n) (CHR ''0''))"
proof -
  have n: "0 < n" using assms(1) by (cases n) auto
  define D where "D = length (show_nat n)"
  obtain m j where sh: "shortest (of_nat n) = (show_nat m, int D)" "0 < m"
    "show_nat n = show_nat m @ replicate j (CHR ''0'')"
    using shortest_nat [OF n assms(2)] by (auto simp: D_def)
  define t where "t = trim_right (show_nat m) (CHR ''0'')"
  obtain k where k: "show_nat m = t @ replicate k (CHR ''0'')" "t = [] \<or> last t \<noteq> CHR ''0''"
    using trim_right_split [of "show_nat m" "CHR ''0''"] unfolding t_def by blast
  have ne: "t \<noteq> []"
  proof
    assume t: "t = []"
    then have "show_nat m = replicate k (CHR ''0'')" using k(1) by simp
    moreover have "read_nat (replicate k (CHR ''0'')) = 0" for k by (induction k) (simp_all add: replicate_append_same [symmetric] digit_val_def)
    ultimately show False using read_show_nat [of m] sh(2) by simp
  qed
  have digits: "list_all is_digit t" using show_nat_all_digits [of m] k(1) by simp
  have D: "length t \<le> D" "7 \<le> D" "D \<le> 15"
  proof -
    show "length t \<le> D" using sh(3) k(1) by (simp add: D_def)
    have "10 ^ (D - 1) \<le> n" "n < 10 ^ D" using show_nat_bounds [OF n] by (simp_all add: D_def)
    then have "(10::nat) ^ 6 < 10 ^ D" "(10::nat) ^ (D - 1) < 10 ^ 15" using assms by linarith+
    then have "6 < D" "D - 1 < 15" by (auto intro: power_less_imp_less_exp [of "10::nat"] simp del: power_numeral)
    then show "7 \<le> D" "D \<le> 15" by simp_all
  qed
  have t: "trim_right (show_nat n) (CHR ''0'') = t" unfolding sh(3) by (simp add: trim_right_replicate t_def)
  have tz: "trim_zeros (show_nat m) = t" using ne by (simp add: trim_zeros_def t_def [symmetric] split: list.splits)
  have fe: "format_e (show_nat m) (int D) = mantissa_of t @ CHR ''e'' # exponent_text (int D - 1)"
    by (simp add: format_e_def tz mantissa_of_def)
  have g: "format_g (of_nat n) = mantissa_of t @ CHR ''e'' # exponent_text (int D - 1)"
    using n D(2) by (simp add: format_g_def with_sign_def sh(1) fe)
  have cut: "str_cut (mantissa_of t @ CHR ''e'' # x) (CHR ''e'') = (mantissa_of t, x)" for x
    by (rule cut_append [OF mantissa_props(4) [OF ne digits]])
  have e: "atoi (exponent_text (int D - 1)) = Some (int D - 1)"
    using exponent_digits D(2,3) by (simp only: list_all_iff set_upto) auto
  have mag: "micro \<le> \<bar>of_nat n\<bar>" "\<bar>of_nat n\<bar> < (10::rat) ^ 21"
  proof -
    have "micro \<le> 1" by (simp add: micro_def)
    moreover have "(1::rat) \<le> of_nat n" using n by simp
    ultimately show "micro \<le> \<bar>of_nat n\<bar>" by linarith
    have "n < 10 ^ 21" using assms(2) by simp
    then have "(of_nat n :: rat) < of_nat (10 ^ 21)" by (simp only: of_nat_less_iff)
    then show "\<bar>of_nat n\<bar> < (10::rat) ^ 21" by simp
  qed
  show ?thesis
    using n mag k(2) ne digits D(1)
    by (simp add: es6Number_def g cut e t exponentToDecimal_integer)
qed

end
