(* ===== verification/WireExamples.thy ===== *)
theory WireExamples
  imports Examples StreamProps JcsNumbers
begin

text \<open>
  Concrete files and wire texts for the examples of the root theory: a session file with a header
  and no rows, a row, the answers of the providers.
\<close>

section \<open>A session file\<close>

definition ex_header :: session_header where
  "ex_header = (snd zero_header)\<lparr>sh_id := ''s''\<rparr>"

definition ex_file :: file_adapter where
  "ex_file = \<lparr>fa_file = Some (file_text ex_header []), fa_fault = (\<lambda>s. None), fa_read_fault = None, fa_json_error = (\<lambda>s. [])\<rparr>"

definition ex_row :: event_row where
  "ex_row = row_of_draft 0 (draft_of_event (ex_user 0))"

lemma ex_row_ok: "row_ok ex_row"
proof -
  have a: "json_ok number_mode 10000 (VMap (row_members ex_row))"
    by (simp add: ex_row_def row_of_draft_def draft_of_event_def ex_user_def mk_ev_def row_members_def eventRowMap_def
      number_mode_reads show_int_number ascii_utf8 ascii_def byte_def)
  have "length (row_text ex_row) < 200" by code_simp
  then have b: "length (row_text ex_row) < line_limit" by (simp add: line_limit_def)
  have c: "event_type_of (event_type_string (rw_type ex_row)) = rw_type ex_row" by code_simp
  show ?thesis unfolding row_ok_def using a b c by (simp add: ex_row_def row_of_draft_def del: json_ok.simps)
qed

lemma ex_row_float: "json_ok float_mode 10000 (VMap (row_members ex_row))"
proof -
  have "reads_as float_mode (show_int 0)" by code_simp
  then show ?thesis
    by (simp add: ex_row_def row_of_draft_def draft_of_event_def ex_user_def mk_ev_def row_members_def eventRowMap_def
        ascii_utf8 ascii_def byte_def)
qed

lemma ex_header_ok: "settled_file ex_header []"
proof -
  have a: "json_ok float_mode 10000 (VMap (headerMap ex_header))"
    by (simp add: ex_header_def zero_header_def headerMap_def ascii_utf8 ascii_def byte_def)
  have "length (header_text ex_header) < 200" by code_simp
  then have b: "length (header_text ex_header) < line_limit" by (simp add: line_limit_def)
  show ?thesis using a b
   by (simp add: settled_file_def header_ok_def del: json_ok.simps)(simp add: stored_header_def stored_meta_def ex_header_def zero_header_def dense_rows_def)
qed
section \<open>Streams\<close>

text \<open>Quotes are written as tildes.\<close>

definition quoted :: "string \<Rightarrow> string" where
  "quoted s = map (\<lambda>c. if c = CHR ''~'' then CHR 0x22 else c) s"

definition ex_gemini_line :: string where
  "ex_gemini_line = quoted
     ''data: {~candidates~:[{~content~:{~parts~:[{~functionCall~:{~name~:~f~}}]},~finishReason~:~STOP~}]}''"

definition ex_gemini_text :: string where
  "ex_gemini_text = unlines [ex_gemini_line]"

definition ex_http :: "string \<Rightarrow> unit http_env" where
  "ex_http body =
     \<lparr>hx_do = (\<lambda>q w. (Inr \<lparr>hr_status = 200, hr_body = body, hr_read_err = None\<rparr>, w)), hx_url_error = (\<lambda>u. None),
      hx_fresh = (\<lambda>w. (''t1'', w)), hx_json_error = (\<lambda>s. []), hx_body_error = (\<lambda>r. [])\<rparr>"

lemma ex_http_simps [simp]:
  "hx_do (ex_http b) = (\<lambda>q w. (Inr \<lparr>hr_status = 200, hr_body = b, hr_read_err = None\<rparr>, w))"
  "hx_url_error (ex_http b) = (\<lambda>u. None)" "hx_fresh (ex_http b) = (\<lambda>w. (''t1'', w))"
  "hx_json_error (ex_http b) = (\<lambda>s. [])"
  by (simp_all add: ex_http_def)

definition ex_config :: provider_config where
  "ex_config = \<lparr>pc_APIKey = ''k'', pc_APIVersion = [], pc_Endpoint = ''u'', pc_NoAuth = False\<rparr>"

definition ex_gemini_call :: "(event_args list \<times> perr option) \<times> unit" where
  "ex_gemini_call = GeminiStream_Call (ex_http ex_gemini_text) ex_config [(''model'', VStr ''m'')] ()"

definition ex_gemini_state :: gemini_state where
  "ex_gemini_state = st_Start (newGeminiStreamState ''t1'')"

lemma ex_gemini_lines: "scan_lines stream_limit ex_gemini_text = ([ex_gemini_line], False)"
proof -
  have "one_line ex_gemini_line \<and> length ex_gemini_line < 200 \<and> drop_cr ex_gemini_line = ex_gemini_line"
    by code_simp
  then show ?thesis unfolding ex_gemini_text_def by (intro scan_unlines) (auto simp: stream_limit_def)
qed

lemma ex_gemini_json:
  "unmarshal_object (data_line (trim_right ex_gemini_line (CHR 0x0D))) = Some (Some
     [(''candidates'', VList [VMap [(''content'', VMap [(''parts'', VList [VMap [(''functionCall'',
        VMap [(''name'', VStr ''f'')])]])]), (''finishReason'', VStr ''STOP'')]])])"
  by code_simp

definition ex_gemini_done :: gemini_state where
  "ex_gemini_done = (emit_end (gemini_id 0) [] (emit_begin (gemini_id 0) ''f'' ex_gemini_state))
     \<lparr>ge_tools := [\<lparr>gt_ID = gemini_id 0, gt_Name = ''f'', gt_Arguments = []\<rparr>], ge_finishSeen := True,
      st_stop := ''end_turn''\<rparr>"

lemma ex_gemini_step:
  "ge_Data je (data_line (trim_right ex_gemini_line (CHR 0x0D))) ex_gemini_state = (None, ex_gemini_done)"
  unfolding ge_Data_def ex_gemini_json option.case by code_simp

lemma ex_gemini:
  "\<exists>es. ex_gemini_call = ((es, None), ()) \<and> arg_uses es = [use_args (gemini_id 0) ''f'' []]"
proof -
  let ?b = "trim_right ex_gemini_line (CHR 0x0D)"
  have b: "?b \<noteq> [] \<and> has_prefix ?b ''data:'' \<and> data_line ?b \<noteq> []" by code_simp
  have m: "json_marshal True (VMap []) = Inr ''{}''" by code_simp
  have d: "dispatchSSEBlock [?b] (gemini_handler je) ex_gemini_state = (None, ex_gemini_done)" for je
    using b by (simp add: dispatchSSEBlock_def gemini_handler_def ex_gemini_step)
  have l: "sse_loop (gemini_handler je) [ex_gemini_line] [] ex_gemini_state = ((None, [?b]), ex_gemini_state)" for je
    using b by simp
  have c: "consume (ex_http ex_gemini_text) \<lparr>hr_status = 200, hr_body = ex_gemini_text, hr_read_err = None\<rparr>
      (gemini_handler je) ex_gemini_state = hs_Complete (gemini_handler je) ex_gemini_done" for je
    by (simp add: consume_def ex_gemini_lines l d del: sse_loop.simps)
  have f: "ge_Complete ex_gemini_done =
      (None, emit_use (gemini_id 0) ''f'' [] (st_Complete ex_gemini_done))"
    by (simp add: ge_Complete_def ex_gemini_done_def goes_def)
  have g: "ex_gemini_call = ((st_out (emit_use (gemini_id 0) ''f'' [] (st_Complete ex_gemini_done)), None), ())"
    using c f m
    by (simp add: ex_gemini_call_def GeminiStream_Call_def streamSSE_def emitted_def copyMap_def pdel_def
        gemini_handler_def ex_gemini_state_def)
  have "arg_uses (st_out (emit_use (gemini_id 0) ''f'' [] (st_Complete ex_gemini_done))) = [use_args (gemini_id 0) ''f'' []]"
    by (simp add: emit_use_def st_Complete_def emit_ev_def use_args_def ex_gemini_done_def emit_end_def emit_begin_def
        ex_gemini_state_def st_Start_def newGeminiStreamState_def newStreamState_def stream_state.defs)
  then show ?thesis unfolding g by blast
qed

text \<open>An Anthropic message with one text block.\<close>

definition ex_kind :: "string \<Rightarrow> payload \<Rightarrow> payload" where
  "ex_kind k p = (''type'', VStr k) # p"

definition ex_message_events :: "payload list" where
  "ex_message_events =
     [ex_kind ''message_start'' [(''message'', VMap [])],
      ex_kind ''content_block_start'' [(''index'', VFloat 0), (''content_block'', VMap [(''type'', VStr ''text'')])],
      ex_kind ''ping'' [],
      ex_kind ''content_block_delta'' [(''index'', VFloat 0), (''delta'', VMap [(''type'', VStr ''text_delta''), (''text'', VStr ''hi'')])],
      ex_kind ''content_block_stop'' [(''index'', VFloat 0)],
      ex_kind ''message_delta'' [(''delta'', VMap [(''stop_reason'', VStr ''end_turn'')])],
      ex_kind ''message_stop'' []]"

lemma ex_message_run:
  "fst (an_run (\<lambda>s. []) ex_message_events (newAnthropicStreamState ''f'')) = None \<and>
   fst (an_Complete (snd (an_run (\<lambda>s. []) ex_message_events (newAnthropicStreamState ''f'')))) = None"
  by code_simp

lemma ex_message_accepted:
  "\<exists>s. an_run (\<lambda>s. []) ex_message_events (newAnthropicStreamState ''f'') = (None, s)"
  using ex_message_run by (metis prod.collapse)

lemma ex_message_completed:
  "\<exists>s'. an_Complete (snd (an_run (\<lambda>s. []) ex_message_events (newAnthropicStreamState ''f''))) = (None, s')"
  using ex_message_run by (metis prod.collapse)

end
