(* ===== verification/Contents.thy ===== *)
theory Contents
  imports AgentLoop Guards
begin

text \<open>
  Message content as blocks: \<^verbatim>\<open>content_blocks.go\<close> (reading the blocks of a payload, resolving
  the data of a block), \<^verbatim>\<open>capabilities.go\<close> (which provider takes which block, and the text
  that stands in for a block it does not take), \<^verbatim>\<open>provider_carriers.go\<close>, \<^verbatim>\<open>input_file.go\<close>, and the
  part of \<^verbatim>\<open>encoding/base64\<close> and \<^verbatim>\<open>path/filepath\<close> they use.  An attachment store is here the
  \<^verbatim>\<open>Get\<close> of its interface; fetching a URL is a function of the HTTP client, a parameter.
\<close>

section \<open>Base64, the standard alphabet with padding\<close>

definition b64_char :: "nat \<Rightarrow> char" where
  "b64_char n =
     (if n < 26 then char_of (65 + n) else if n < 52 then char_of (71 + n)
      else if n < 62 then char_of (n - 4) else if n = 62 then CHR ''+'' else CHR ''/'')"

definition b64_val :: "char \<Rightarrow> nat option" where
  "b64_val c =
     (let b = byte c
      in if 65 \<le> b \<and> b \<le> 90 then Some (b - 65) else if 97 \<le> b \<and> b \<le> 122 then Some (b - 71)
         else if 48 \<le> b \<and> b \<le> 57 then Some (b + 4) else if c = CHR ''+'' then Some 62
         else if c = CHR ''/'' then Some 63 else None)"

fun base64_encode :: "string \<Rightarrow> string" where
  "base64_encode [] = []"
| "base64_encode [a] = [b64_char (byte a div 4), b64_char (byte a mod 4 * 16), CHR ''='', CHR ''='']"
| "base64_encode [a, b] =
     [b64_char (byte a div 4), b64_char (byte a mod 4 * 16 + byte b div 16),
      b64_char (byte b mod 16 * 4), CHR ''='']"
| "base64_encode (a # b # c # s) =
     b64_char (byte a div 4) # b64_char (byte a mod 4 * 16 + byte b div 16)
     # b64_char (byte b mod 16 * 4 + byte c div 64) # b64_char (byte c mod 64) # base64_encode s"

text \<open>Groups of four; padding ends the input, and the bits it leaves over are not checked.\<close>

definition b64_one :: "nat \<Rightarrow> nat \<Rightarrow> char" where "b64_one x y = char_of (x * 4 + y div 16)"
definition b64_two :: "nat \<Rightarrow> nat \<Rightarrow> char" where "b64_two y z = char_of (y mod 16 * 16 + z div 4)"
definition b64_three :: "nat \<Rightarrow> nat \<Rightarrow> char" where "b64_three z w = char_of (z mod 4 * 64 + w)"

fun b64_groups :: "string \<Rightarrow> string option" where
  "b64_groups [] = Some []"
| "b64_groups (a # b # c # d # s) =
     (case (b64_val a, b64_val b) of
        (Some x, Some y) \<Rightarrow>
          (case (b64_val c, b64_val d) of
             (Some z, Some w) \<Rightarrow>
               map_option (\<lambda>r. b64_one x y # b64_two y z # b64_three z w # r) (b64_groups s)
           | (Some z, None) \<Rightarrow> if d = CHR ''='' \<and> s = [] then Some [b64_one x y, b64_two y z] else None
           | (None, _) \<Rightarrow> if c = CHR ''='' \<and> d = CHR ''='' \<and> s = [] then Some [b64_one x y] else None)
      | _ \<Rightarrow> None)"
| "b64_groups s = None"

text \<open>\<^verbatim>\<open>DecodeString\<close> leaves out line breaks wherever they are.\<close>

definition base64_decode :: "string \<Rightarrow> string option" where
  "base64_decode s = b64_groups (filter (\<lambda>c. c \<noteq> CHR 0x0A \<and> c \<noteq> CHR 0x0D) s)"

lemma byte_bound: "byte c < 256"
  by (simp add: byte_def)

lemma byte_char_of: "n < 256 \<Longrightarrow> byte (char_of n) = n"
  by (simp add: byte_def)

lemma b64_val_char: "n < 64 \<Longrightarrow> b64_val (b64_char n) = Some n"
proof -
  assume n: "n < 64"
  have letters: "b64_val c = Some (byte c - 65)" if "65 \<le> byte c" "byte c \<le> 90" for c
    using that by (simp add: b64_val_def)
  have small: "b64_val c = Some (byte c - 71)" if "97 \<le> byte c" "byte c \<le> 122" for c
    using that by (simp add: b64_val_def)
  have digits: "b64_val c = Some (byte c + 4)" if "48 \<le> byte c" "byte c \<le> 57" for c
    using that by (simp add: b64_val_def)
  consider "n < 26" | "26 \<le> n" "n < 52" | "52 \<le> n" "n < 62" | "n = 62" | "n = 63" using n by linarith
  then show "b64_val (b64_char n) = Some n"
  proof cases
    case 1
    then show ?thesis by (subst letters) (simp_all add: b64_char_def byte_char_of)
  next
    case 2
    then show ?thesis by (subst small) (simp_all add: b64_char_def byte_char_of)
  next
    case 3
    then show ?thesis by (subst digits) (simp_all add: b64_char_def byte_char_of)
  qed (simp_all add: b64_char_def b64_val_def byte_def)
qed

lemma b64_char_plain: "n < 64 \<Longrightarrow> b64_char n \<noteq> CHR 0x0A \<and> b64_char n \<noteq> CHR 0x0D"
proof -
  assume "n < 64"
  then have "b64_val (b64_char n) \<noteq> None" by (simp add: b64_val_char)
  then show "b64_char n \<noteq> CHR 0x0A \<and> b64_char n \<noteq> CHR 0x0D" by (auto simp: b64_val_def byte_def)
qed

lemma b64_sextets:
  "byte a div 4 < 64" "byte a mod 4 * 16 < 64" "byte a mod 4 * 16 + byte b div 16 < 64"
  "byte b mod 16 * 4 < 64" "byte b mod 16 * 4 + byte c div 64 < 64" "byte c mod 64 < 64"
  using byte_bound [of a] byte_bound [of b] byte_bound [of c] by linarith+

lemma b64_bytes:
  "b64_one (byte a div 4) (byte a mod 4 * 16) = a"
  "b64_one (byte a div 4) (byte a mod 4 * 16 + byte b div 16) = a"
  "b64_two (byte a mod 4 * 16 + byte b div 16) (byte b mod 16 * 4) = b"
  "b64_two (byte a mod 4 * 16 + byte b div 16) (byte b mod 16 * 4 + byte c div 64) = b"
  "b64_three (byte b mod 16 * 4 + byte c div 64) (byte c mod 64) = c"
proof -
  have a: "byte a div 4 * 4 + byte a mod 4 = byte a" and b: "byte b div 16 * 16 + byte b mod 16 = byte b"
    and c: "byte c div 64 * 64 + byte c mod 64 = byte c" by simp_all
  have q: "byte b div 16 < 16" "byte c div 64 < 4" using byte_bound [of b] byte_bound [of c] by linarith+
  have "byte a div 4 * 4 + (byte a mod 4 * 16) div 16 = byte a" using a by simp
  moreover have "byte a div 4 * 4 + (byte a mod 4 * 16 + byte b div 16) div 16 = byte a"
    using a q by simp
  moreover have "(byte a mod 4 * 16 + byte b div 16) mod 16 * 16 + (byte b mod 16 * 4) div 4 = byte b"
    using b q by (simp add: mod_simps)
  moreover have "(byte a mod 4 * 16 + byte b div 16) mod 16 * 16 + (byte b mod 16 * 4 + byte c div 64) div 4 = byte b"
    using b q by (simp add: mod_simps)
  moreover have "(byte b mod 16 * 4 + byte c div 64) mod 4 * 64 + byte c mod 64 = byte c"
    using c q by (simp add: mod_simps)
  ultimately show "b64_one (byte a div 4) (byte a mod 4 * 16) = a"
    "b64_one (byte a div 4) (byte a mod 4 * 16 + byte b div 16) = a"
    "b64_two (byte a mod 4 * 16 + byte b div 16) (byte b mod 16 * 4) = b"
    "b64_two (byte a mod 4 * 16 + byte b div 16) (byte b mod 16 * 4 + byte c div 64) = b"
    "b64_three (byte b mod 16 * 4 + byte c div 64) (byte c mod 64) = c"
    by (simp_all only: b64_one_def b64_two_def b64_three_def) (simp_all add: byte_def)
qed

lemma b64_pad: "b64_val (CHR ''='') = None"
  by code_simp

lemma b64_groups_encode: "b64_groups (base64_encode s) = Some s"
  by (induction s rule: base64_encode.induct) (simp_all add: b64_val_char b64_sextets b64_bytes b64_pad)

lemma base64_encode_plain: "c \<in> set (base64_encode s) \<Longrightarrow> c \<noteq> CHR 0x0A \<and> c \<noteq> CHR 0x0D"
  by (induction s rule: base64_encode.induct) (auto simp: b64_char_plain b64_sextets)

text \<open>What is encoded is decoded.\<close>

lemma base64_roundtrip [simp]: "base64_decode (base64_encode s) = Some s"
proof -
  have "filter (\<lambda>c. c \<noteq> CHR 0x0A \<and> c \<noteq> CHR 0x0D) (base64_encode s) = base64_encode s"
    using base64_encode_plain by (simp add: filter_id_conv)
  then show ?thesis by (simp add: base64_decode_def b64_groups_encode)
qed

lemma base64_length: "length (base64_encode s) = 4 * ((length s + 2) div 3)"
proof (induction s rule: base64_encode.induct)
  case (4 a b c s)
  have "(length (a # b # c # s) + 2) div 3 = (length s + 2) div 3 + 1" by simp
  with 4 show ?case by simp
qed simp_all

section \<open>File names\<close>

text \<open>\<^verbatim>\<open>filepath.Ext\<close> and \<^verbatim>\<open>filepath.Base\<close>.\<close>

definition path_ext :: "string \<Rightarrow> string" where
  "path_ext p =
     (let tail = takeWhile (\<lambda>c. c \<noteq> CHR ''.'' \<and> c \<noteq> CHR ''/'') (rev p)
      in case drop (length tail) (rev p) of
           c # _ \<Rightarrow> if c = CHR ''.'' then c # rev tail else []
         | [] \<Rightarrow> [])"

definition path_base :: "string \<Rightarrow> string" where
  "path_base p =
     (if p = [] then ''.''
      else let q = trim_right p (CHR ''/'')
           in if q = [] then ''/'' else rev (takeWhile (\<lambda>c. c \<noteq> CHR ''/'') (rev q)))"

section \<open>Content blocks\<close>

fun nonempty_maps :: "val list \<Rightarrow> payload list" where
  "nonempty_maps [] = []"
| "nonempty_maps (v # vs) = (if asMap v \<noteq> [] then asMap v # nonempty_maps vs else nonempty_maps vs)"

definition asContentBlocks :: "val \<Rightarrow> payload list" where
  "asContentBlocks v = nonempty_maps (anySlice v)"

definition text_block :: "string \<Rightarrow> payload" where
  "text_block t = [(''type'', VStr ''text''), (''text'', VStr t)]"

definition messageContentBlocks :: "payload \<Rightarrow> payload list" where
  "messageContentBlocks p =
     (if phas p ''content'' then asContentBlocks (pget p ''content'')
      else case pget p ''text'' of VStr t \<Rightarrow> [text_block t] | _ \<Rightarrow> [])"

text \<open>The store as its \<^verbatim>\<open>Get\<close>, and the HTTP client: what \<^verbatim>\<open>NewRequest\<close> refuses, and the answer as a
  status, a body that may fail to arrive, and its \<^verbatim>\<open>Content-Type\<close>.\<close>

type_synonym attachment_get = "string \<Rightarrow> string + string \<times> string"

record fetch_env =
  fe_refuses :: "string \<Rightarrow> string option"
  fe_do :: "string \<Rightarrow> string + int \<times> (string + string) \<times> string"

record resolved_content =
  rc_Data :: string
  rc_MediaType :: string
  rc_ByteSize :: int
  rc_URI :: string

definition fetchAttachmentURL :: "fetch_env \<Rightarrow> string \<Rightarrow> string + string \<times> string" where
  "fetchAttachmentURL fe url =
     (if url = [] then Inl ''content source url is required''
      else case fe_refuses fe url of
        Some err \<Rightarrow> Inl (''fetch attachment url '' @ url @ '': '' @ err)
      | None \<Rightarrow>
          (case fe_do fe url of
             Inl err \<Rightarrow> Inl (''fetch attachment url '' @ url @ '': '' @ err)
           | Inr (status, body, ctype) \<Rightarrow>
               if status < 200 \<or> 300 \<le> status
               then Inl (''fetch attachment url '' @ url @ '': status '' @ show_int status)
               else (case body of Inl err \<Rightarrow> Inl err | Inr bytes \<Rightarrow> Inr (bytes, ctype))))"

definition resolveContentData ::
    "fetch_env \<Rightarrow> attachment_get option \<Rightarrow> payload \<Rightarrow> string + resolved_content" where
  "resolveContentData fe store block =
     (let source = asMap (pget block ''source''); kind = stringValue (pget source ''kind'');
          mediaType = stringValue (pget block ''media_type'')
      in if kind = ''base64''
         then let data = stringValue (pget source ''data'')
              in Inr \<lparr>rc_Data = data, rc_MediaType = mediaType,
                      rc_ByteSize = (case base64_decode data of Some d \<Rightarrow> int (length d) | None \<Rightarrow> 0),
                      rc_URI = []\<rparr>
         else if kind = ''ref''
         then let uri = stringValue (pget source ''uri'')
              in case store of
                   None \<Rightarrow> Inl (''attachment store required to resolve '' @ uri)
                 | Some get \<Rightarrow>
                     (case get uri of
                        Inl err \<Rightarrow> Inl (''resolve attachment '' @ uri @ '': '' @ err)
                      | Inr (bytes, mt) \<Rightarrow>
                          Inr \<lparr>rc_Data = base64_encode bytes, rc_MediaType = or_else mediaType mt,
                               rc_ByteSize = int (length bytes), rc_URI = uri\<rparr>)
         else if kind = ''url''
         then bind_res (fetchAttachmentURL fe (stringValue (pget source ''url'')))
                (\<lambda>(bytes, mt). Inr \<lparr>rc_Data = base64_encode bytes, rc_MediaType = or_else mediaType mt,
                   rc_ByteSize = int (length bytes), rc_URI = []\<rparr>)
         else Inl (''unsupported content source kind: '' @ kind))"

section \<open>Capabilities\<close>

definition capability_error_text :: "string \<Rightarrow> string \<Rightarrow> string" where
  "capability_error_text blockType message =
     (if message \<noteq> [] then message else ''provider does not support '' @ blockType @ '' content blocks'')"

text \<open>Images and documents, by provider and model.\<close>

definition defaultCapabilities :: "string \<Rightarrow> string \<Rightarrow> bool \<times> bool" where
  "defaultCapabilities prov model' =
     (let model = to_lower model'
      in if prov = ''anthropic'' \<or> prov = ''mock''
         then if has_prefix model ''claude-2-'' then (False, False)
              else if str_contains model ''claude-3-5'' \<or> str_contains model ''claude-3-7''
                \<or> str_contains model ''claude-sonnet-4'' \<or> str_contains model ''claude-opus-4''
              then (True, True)
              else if has_prefix model ''claude-3-'' \<or> has_prefix model ''claude-'' then (True, False)
              else (False, False)
         else if prov = ''openai''
         then if has_prefix model ''gpt-4o'' \<or> model = ''gpt-4-turbo'' \<or> model = ''gpt-4-vision-preview''
              then (True, False) else (False, False)
         else if prov = ''gemini''
         then if has_prefix model ''gemini-1.0-'' then (True, False)
              else if has_prefix model ''gemini-1.5-'' \<or> has_prefix model ''gemini-2.0-''
                \<or> has_prefix model ''gemini-3.'' \<or> has_prefix model ''gemini-'' then (True, True)
              else (False, False)
         else (False, False))"

definition capabilitySupported :: "string \<Rightarrow> string \<Rightarrow> (string \<times> bool) list \<Rightarrow> string \<Rightarrow> bool" where
  "capabilitySupported prov model overrides blockType =
     (case map_of overrides (''user_message_'' @ blockType @ ''s'') of
        Some b \<Rightarrow> b
      | None \<Rightarrow>
          let (images, documents) = defaultCapabilities prov model
          in if blockType = ''image'' then images else if blockType = ''document'' then documents else True)"

definition capabilityMismatchBehavior :: "string \<Rightarrow> string" where
  "capabilityMismatchBehavior v = (if v = ''error'' then ''error'' else ''metadata_fallback'')"

definition metadata_segments :: "payload \<Rightarrow> resolved_content \<Rightarrow> string list" where
  "metadata_segments block meta =
     (let name = stringValue (pget block ''name'');
          mediaType = or_else (stringValue (pget block ''media_type'')) (rc_MediaType meta)
      in [''[Note: A '' @ stringValue (pget block ''type'')
            @ '' was attached to this message but cannot be viewed by this provider.'']
         @ (if name \<noteq> [] then [''Name: '' @ name @ ''.''] else [])
         @ (if mediaType \<noteq> [] then [''Type: '' @ mediaType @ ''.''] else [])
         @ (if 0 < rc_ByteSize meta then [''Size: '' @ show_int (rc_ByteSize meta) @ '' bytes.''] else [])
         @ (if rc_URI meta \<noteq> [] then [''URI: '' @ rc_URI meta @ ''.''] else [])
         @ [''Use available tools to access the content.]''])"

definition metadataFallbackText :: "payload \<Rightarrow> resolved_content \<Rightarrow> string" where
  "metadataFallbackText block meta = str_join (metadata_segments block meta) '' ''"

definition fallbackContentBlock ::
    "fetch_env \<Rightarrow> attachment_get option \<Rightarrow> payload \<Rightarrow> string + payload" where
  "fallbackContentBlock fe store block =
     bind_res (resolveContentData fe store block) (\<lambda>meta. Inr (text_block (metadataFallbackText block meta)))"

definition capabilityMismatch :: "string \<Rightarrow> string \<Rightarrow> payload \<Rightarrow> projection_error" where
  "capabilityMismatch prov model block =
     (let blockType = stringValue (pget block ''type'')
      in CapabilityMismatch (capability_error_text blockType
           (prov @ ''/'' @ model @ '' does not support '' @ blockType @ '' content blocks'')))"

section \<open>Provider carriers\<close>

fun carrier_wire :: "val list \<Rightarrow> string \<Rightarrow> val option" where
  "carrier_wire [] destination = None"
| "carrier_wire (raw # rest) destination =
     (let carrier = asMap raw
      in if stringValue (pget carrier ''carrier_destination'') = destination \<and> phas carrier ''wire''
         then Some (pget carrier ''wire'') else carrier_wire rest destination)"

definition providerCarrierWire :: "val \<Rightarrow> string \<Rightarrow> val option" where
  "providerCarrierWire carriers destination = carrier_wire (asSlice carriers) destination"

definition providerCarrierWires :: "val \<Rightarrow> string \<Rightarrow> val list option" where
  "providerCarrierWires carriers destination = map_option asSlice (providerCarrierWire carriers destination)"

definition providerPartWire :: "payload \<Rightarrow> string \<Rightarrow> payload option" where
  "providerPartWire block destination =
     map_option asMap (providerCarrierWire (pget block ''provider_parts'') destination)"

definition providerCarrier :: "string \<Rightarrow> int \<Rightarrow> string \<Rightarrow> val \<Rightarrow> string list \<Rightarrow> payload" where
  "providerCarrier destination index kind wire refs =
     [(''carrier_destination'', VStr destination), (''index'', VInt index), (''kind'', VStr kind),
      (''wire'', wire)] @ (if refs = [] then [] else [(''canonical_refs'', VStrs refs)])"

text \<open>A carrier in a slice is found again under its destination, and only there.\<close>

lemma providerCarrier_found [simp]:
  "providerCarrierWire (VList [VMap (providerCarrier d i k w rs)]) d' = (if d = d' then Some w else None)"
  by (simp add: providerCarrierWire_def providerCarrier_def pget_def phas_def aget_def ahas_def Let_def)

section \<open>Input files\<close>

definition mediaTypeForInputFile :: "string \<Rightarrow> string + string \<times> string" where
  "mediaTypeForInputFile path =
     (let ext = to_lower (path_ext path)
      in if ext = ''.jpg'' \<or> ext = ''.jpeg'' then Inr (''image/jpeg'', ''image'')
         else if ext = ''.png'' then Inr (''image/png'', ''image'')
         else if ext = ''.gif'' then Inr (''image/gif'', ''image'')
         else if ext = ''.webp'' then Inr (''image/webp'', ''image'')
         else if ext = ''.pdf'' then Inr (''application/pdf'', ''document'')
         else Inl (''unsupported input file type: '' @ path))"

definition ContentBlockForFile :: "(string \<Rightarrow> string + string) \<Rightarrow> string \<Rightarrow> string + payload" where
  "ContentBlockForFile readFile path =
     bind_res (readFile path) (\<lambda>data. bind_res (mediaTypeForInputFile path) (\<lambda>(mediaType, blockType).
       Inr [(''type'', VStr blockType), (''media_type'', VStr mediaType), (''name'', VStr (path_base path)),
            (''source'', VMap [(''kind'', VStr ''base64''), (''data'', VStr (base64_encode data))])]))"

fun content_files :: "(string \<Rightarrow> string + string) \<Rightarrow> string list \<Rightarrow> string + payload list" where
  "content_files readFile [] = Inr []"
| "content_files readFile (path # paths) =
     bind_res (ContentBlockForFile readFile path)
       (\<lambda>block. bind_res (content_files readFile paths) (\<lambda>blocks. Inr (block # blocks)))"

definition ContentBlocksForInput :: "(string \<Rightarrow> string + string) \<Rightarrow> string \<Rightarrow> string list \<Rightarrow> string + payload list" where
  "ContentBlocksForInput readFile text paths =
     bind_res (content_files readFile paths) (\<lambda>blocks. Inr (text_block text # blocks))"

text \<open>A file block resolves, without a store or a client, to the bytes of the file.\<close>

lemma ContentBlockForFile_resolves:
  assumes "ContentBlockForFile readFile path = Inr block" and "readFile path = Inr data"
  shows "\<exists>mt. resolveContentData fe store block
    = Inr \<lparr>rc_Data = base64_encode data, rc_MediaType = mt, rc_ByteSize = int (length data), rc_URI = []\<rparr>"
  using assms by (auto simp: ContentBlockForFile_def bind_res_Inr_iff resolveContentData_def Let_def)

text \<open>The blocks of a payload read back what \<^verbatim>\<open>ContentBlocksForInput\<close> made only when they are
  stored as \<^verbatim>\<open>[]any\<close>: a \<^verbatim>\<open>[]map[string]any\<close>, which is its result type, has no blocks.\<close>

lemma nonempty_maps_maps: "nonempty_maps (map VMap ms) = filter (\<lambda>m. m \<noteq> []) ms"
  by (induction ms) auto

lemma typed_blocks_lost:
  "phas p ''content'' \<Longrightarrow> pget p ''content'' = VMaps ms \<Longrightarrow> messageContentBlocks p = []"
  "phas p ''content'' \<Longrightarrow> pget p ''content'' = VList (map VMap ms) \<Longrightarrow>
     messageContentBlocks p = filter (\<lambda>m. m \<noteq> []) ms"
  by (simp_all add: messageContentBlocks_def asContentBlocks_def anySlice_def nonempty_maps_maps)

end
