(* ===== verification/Ingestors.thy ===== *)
theory Ingestors
  imports Contents GoJson
begin

text \<open>
  \<^verbatim>\<open>ingestor_anthropic.go\<close>, \<^verbatim>\<open>ingestor_openai.go\<close>, \<^verbatim>\<open>ingestor_gemini.go\<close> and the cloning functions
  of \<^verbatim>\<open>snapshot.go\<close>: a provider's response as one assistant message and its tool uses, with the
  opaque parts of the response kept as carriers.  No ingestor fails.
\<close>

section \<open>snapshot.go\<close>

text \<open>Reading into an \<^verbatim>\<open>any\<close> whose error is ignored: a number beyond float64 is left \<^verbatim>\<open>nil\<close>.\<close>

definition lenient_mode :: "string \<Rightarrow> val option" where
  "lenient_mode s = Some (case parse_float s of None \<Rightarrow> VNil | Some x \<Rightarrow> VFloat x)"

definition cloneAny :: "val \<Rightarrow> val" where
  "cloneAny v =
     (case json_marshal True v of
        Inl _ \<Rightarrow> VNil
      | Inr t \<Rightarrow> (case json_unmarshal lenient_mode t of None \<Rightarrow> VNil | Some x \<Rightarrow> x))"

definition cloneMap :: "payload \<Rightarrow> payload" where
  "cloneMap m = asMap (cloneAny (VMap m))"

record tool_spec =
  ts_Name :: string
  ts_Handler :: string
  ts_Description :: string
  ts_InputSchema :: payload
  ts_Config :: payload

definition ToolDescriptors :: "('h, 'st, 'w) registry \<Rightarrow> tool_spec list" where
  "ToolDescriptors r =
     map (\<lambda>t. \<lparr>ts_Name = tl_name t, ts_Handler = or_else (tl_handler t) (tl_name t),
               ts_Description = tl_description t, ts_InputSchema = cloneMap (tl_schema t),
               ts_Config = cloneMap (tl_config t)\<rparr>) (registry_Tools r)"

section \<open>Anthropic\<close>

definition an_carrier :: "string \<Rightarrow> val \<Rightarrow> string list \<Rightarrow> val" where
  "an_carrier kind wire refs = VList [VMap (providerCarrier ''anthropic.messages'' 0 kind wire refs)]"

record an_ingest =
  ai_text :: string
  ai_reasoning :: "val list"
  ai_events :: "event_args list"
  ai_carrier :: bool

definition an_use :: "payload \<Rightarrow> event_args" where
  "an_use part =
     \<lparr>ea_type = EventToolUse,
      ea_payload = [(''id'', pget part ''id''), (''name'', pget part ''name''),
                    (''arguments'', VMap (asMap (pget part ''input'')))]\<rparr>"

definition an_thinking :: "payload \<Rightarrow> an_ingest \<Rightarrow> an_ingest" where
  "an_thinking part st =
     (let sig = stringValue (pget part ''signature''); carrier = (ai_carrier st \<or> sig \<noteq> []);
          out = [(''type'', VStr ''text''), (''text'', VStr (stringValue (pget part ''thinking'')))]
            @ (if sig \<noteq> [] then [(''signature'', VStr sig)] else [])
            @ (if carrier then [(''provider_parts'', an_carrier ''anthropic.content_block''
                                   (VMap (cloneMap part)) [''payload.reasoning[0]''])] else [])
      in st\<lparr>ai_reasoning := ai_reasoning st @ [VMap out], ai_carrier := carrier\<rparr>)"

definition an_block :: "val \<Rightarrow> an_ingest \<Rightarrow> an_ingest" where
  "an_block block st =
     (case block of
        VMap part \<Rightarrow>
          if pget part ''type'' = VStr ''text''
          then st\<lparr>ai_text := ai_text st @ stringValue (pget part ''text'')\<rparr>
          else if pget part ''type'' = VStr ''thinking'' then an_thinking part st
          else if pget part ''type'' = VStr ''tool_use'' then st\<lparr>ai_events := ai_events st @ [an_use part]\<rparr>
          else st
      | _ \<Rightarrow> st)"

definition an_scan :: "val list \<Rightarrow> an_ingest" where
  "an_scan content = fold an_block content \<lparr>ai_text = [], ai_reasoning = [], ai_events = [], ai_carrier = False\<rparr>"

definition anthropicCarrierContent :: "val list \<Rightarrow> val list" where
  "anthropicCarrierContent content = filter (\<lambda>raw. pget (asMap raw) ''type'' \<noteq> VStr ''tool_use'') content"

definition AnthropicIngestor_Ingest :: "payload \<Rightarrow> event_args list" where
  "AnthropicIngestor_Ingest response =
     (let content = asSlice (pget response ''content''); st = an_scan content; text = ai_text st;
          stop = or_else (stringValue (pget response ''stop_reason'')) ''other'';
          carried = anthropicCarrierContent content;
          payload = [(''text'', VStr text), (''stop_reason'', VStr stop),
                     (''usage'', VMap (NormalizeUsage (pget response ''usage''))),
                     (''provider'', VStr ''anthropic''), (''model'', VStr (stringValue (pget response ''model'')))]
            @ (if text \<noteq> [] \<and> ai_carrier st
               then [(''content'', VList [VMap (text_block text @
                       [(''provider_parts'', an_carrier ''anthropic.content_block''
                           (VMap (text_block text)) [''payload.content[0]''])])])] else [])
            @ (if ai_reasoning st \<noteq> [] then [(''reasoning'', VList (ai_reasoning st))] else [])
            @ (if ai_carrier st \<and> carried \<noteq> []
               then [(''provider_items'', an_carrier ''anthropic.content'' (VList carried)
                        (''payload.reasoning[0]'' # (if text \<noteq> [] then [''payload.content[0]''] else [])))]
               else [])
      in \<lparr>ea_type = EventAssistantMessage, ea_payload = payload\<rparr> # ai_events st)"

section \<open>OpenAI\<close>

definition openAIReasoningDetailHasCarrierData :: "payload \<Rightarrow> bool" where
  "openAIReasoningDetailHasCarrierData detail =
     list_ex (\<lambda>(k, v). k \<noteq> ''type'' \<and> k \<noteq> ''text'' \<and> k \<noteq> ''reasoning'' \<and> k \<noteq> ''content'') detail"

definition openAIMessageHasCarrierData :: "payload \<Rightarrow> bool" where
  "openAIMessageHasCarrierData message =
     list_ex (\<lambda>raw. openAIReasoningDetailHasCarrierData (asMap raw)) (asSlice (pget message ''reasoning_details''))"

definition oa_carrier :: "int \<Rightarrow> string \<Rightarrow> val \<Rightarrow> string list \<Rightarrow> val" where
  "oa_carrier index kind wire refs =
     VList [VMap (providerCarrier ''openai.chat_completions'' index kind wire refs)]"

fun openai_details :: "val list \<Rightarrow> val list \<Rightarrow> val list" where
  "openai_details [] blocks = blocks"
| "openai_details (raw # rest) blocks =
     (let detail = asMap raw;
          text = or_else (or_else (stringValue (pget detail ''text'')) (stringValue (pget detail ''reasoning'')))
                   (stringValue (pget detail ''content''))
      in if text = [] then openai_details rest blocks
         else openai_details rest (blocks @ [VMap (text_block text
                @ (if openAIReasoningDetailHasCarrierData detail
                   then [(''provider_parts'', oa_carrier (int (length blocks)) ''openai.reasoning_detail''
                            (VMap detail) [''payload.reasoning[0]''])] else []))]))"

definition openAIReasoningBlocks :: "payload \<Rightarrow> val list" where
  "openAIReasoningBlocks message =
     (let reasoning = stringValue (pget message ''reasoning'')
      in openai_details (asSlice (pget message ''reasoning_details''))
           (if reasoning \<noteq> [] then [VMap (text_block reasoning)] else []))"

definition normalizeOpenAIStop :: "val \<Rightarrow> string" where
  "normalizeOpenAIStop v =
     (if v = VStr ''tool_calls'' \<or> v = VStr ''function_call'' then ''tool_use''
      else if v = VStr ''stop'' then ''end_turn'' else ''other'')"

definition oa_arguments :: "string \<Rightarrow> payload" where
  "oa_arguments s = (case json_unmarshal lenient_mode s of None \<Rightarrow> [] | Some v \<Rightarrow> asMap v)"

definition oa_use :: "val \<Rightarrow> event_args" where
  "oa_use call =
     (let toolCall = asMap call; function = asMap (pget toolCall ''function'')
      in \<lparr>ea_type = EventToolUse,
          ea_payload = [(''id'', pget toolCall ''id''), (''name'', pget function ''name''),
                        (''arguments'', VMap (oa_arguments (stringValue (pget function ''arguments''))))]\<rparr>)"

definition OpenAIIngestor_Ingest :: "payload \<Rightarrow> event_args list" where
  "OpenAIIngestor_Ingest response =
     (let choice = firstMap (pget response ''choices''); message = asMap (pget choice ''message'');
          text = stringValue (pget message ''content''); reasoning = openAIReasoningBlocks message;
          carrier = openAIMessageHasCarrierData message;
          payload = [(''text'', VStr text), (''stop_reason'', VStr (normalizeOpenAIStop (pget choice ''finish_reason''))),
                     (''usage'', VMap (NormalizeUsage (pget response ''usage''))),
                     (''provider'', VStr ''openai''), (''model'', VStr (stringValue (pget response ''model'')))]
            @ (if carrier
               then [(''content'', VList [VMap (text_block text @
                       [(''provider_parts'', oa_carrier 0 ''openai.message_content''
                           (VMap [(''content'', VStr text)]) [''payload.content[0]''])])])] else [])
            @ (if reasoning \<noteq> [] then [(''reasoning'', VList reasoning)] else [])
            @ (if carrier \<and> message \<noteq> []
               then [(''provider_items'', oa_carrier 0 ''openai.chat_message'' (VMap message)
                        [''payload.content[0]'', ''payload.reasoning[0]''])] else [])
      in \<lparr>ea_type = EventAssistantMessage, ea_payload = payload\<rparr>
         # map oa_use (asSlice (pget message ''tool_calls'')))"

section \<open>Gemini\<close>

text \<open>The ingestor keeps a counter across its responses: it names the calls.\<close>

record gemini_ingestor = gi_counter :: int

record ge_ingest =
  gs_text :: string
  gs_reasoning :: "val list"
  gs_events :: "event_args list"
  gs_counter :: int

definition gemini_call_id :: "string \<Rightarrow> int \<Rightarrow> string" where
  "gemini_call_id name n = ''gemini.'' @ name @ ''.'' @ show_int n"

definition ge_thought :: "payload \<Rightarrow> string" where
  "ge_thought part =
     or_else (or_else (stringValue (pget part ''thought'')) (stringValue (pget part ''thoughtSummary'')))
       (stringValue (pget part ''thought_summary''))"

definition ge_use :: "payload \<Rightarrow> int \<Rightarrow> event_args" where
  "ge_use call n =
     (let name = stringValue (pget call ''name'')
      in \<lparr>ea_type = EventToolUse,
          ea_payload = [(''id'', VStr (gemini_call_id name n)), (''name'', VStr name),
                        (''arguments'', VMap (asMap (pget call ''args'')))]\<rparr>)"

definition ge_ingest_part :: "val \<Rightarrow> ge_ingest \<Rightarrow> ge_ingest" where
  "ge_ingest_part raw st =
     (let part = asMap raw; thought = ge_thought part;
          st1 = st\<lparr>gs_text := gs_text st @ stringValue (pget part ''text'')\<rparr>;
          st2 = (if thought \<noteq> [] then st1\<lparr>gs_reasoning := gs_reasoning st1 @ [VMap (text_block thought)]\<rparr> else st1)
      in if phas part ''functionCall''
         then st2\<lparr>gs_events := gs_events st2 @ [ge_use (asMap (pget part ''functionCall'')) (gs_counter st2)],
                  gs_counter := gs_counter st2 + 1\<rparr>
         else st2)"

definition geminiBlocksHaveCarriers :: "val list \<Rightarrow> bool" where
  "geminiBlocksHaveCarriers blocks =
     list_ex (\<lambda>raw. asSlice (pget (asMap raw) ''provider_parts'') \<noteq> []) blocks"

fun gemini_text_blocks :: "val list \<Rightarrow> val list" where
  "gemini_text_blocks [] = []"
| "gemini_text_blocks (raw # rest) =
     (let part = asMap raw; text = stringValue (pget part ''text'')
      in if text = [] then gemini_text_blocks rest
         else VMap (text_block text
                @ (if phas part ''thoughtSignature'' \<or> 1 < length part
                   then [(''provider_parts'', VList [VMap (providerCarrier ''gemini.generateContent'' 0 ''gemini.part''
                            (VMap (cloneMap part)) [''payload.content[0]''])])] else []))
              # gemini_text_blocks rest)"

definition geminiContentBlocksWithCarriers :: "val list \<Rightarrow> val list" where
  "geminiContentBlocksWithCarriers parts =
     (if gemini_text_blocks parts = [] then [VMap (text_block [])] else gemini_text_blocks parts)"

definition normalizeGeminiStop :: "val \<Rightarrow> bool \<Rightarrow> string" where
  "normalizeGeminiStop v hasToolUse =
     (if hasToolUse then ''tool_use'' else if v = VStr ''STOP'' then ''end_turn'' else ''other'')"

definition GeminiIngestor_Ingest :: "payload \<Rightarrow> gemini_ingestor \<Rightarrow> event_args list \<times> gemini_ingestor" where
  "GeminiIngestor_Ingest response g =
     (let candidate = firstMap (pget response ''candidates''); content = asMap (pget candidate ''content'');
          parts = asSlice (pget content ''parts'');
          st = fold ge_ingest_part parts
                 \<lparr>gs_text = [], gs_reasoning = [], gs_events = [], gs_counter = gi_counter g\<rparr>;
          blocks = geminiContentBlocksWithCarriers parts;
          payload = [(''text'', VStr (gs_text st)),
                     (''stop_reason'', VStr (normalizeGeminiStop (pget candidate ''finishReason'') (gs_events st \<noteq> []))),
                     (''usage'', VMap (NormalizeUsage (pget response ''usageMetadata''))),
                     (''provider'', VStr ''gemini''),
                     (''model'', VStr (stringValue (firstNonEmptyAny [pget response ''modelVersion'', pget response ''model''])))]
            @ (if geminiBlocksHaveCarriers blocks then [(''content'', VList blocks)] else [])
            @ (if gs_reasoning st \<noteq> [] then [(''reasoning'', VList (gs_reasoning st))] else [])
      in (\<lparr>ea_type = EventAssistantMessage, ea_payload = payload\<rparr> # gs_events st,
          g\<lparr>gi_counter := gs_counter st\<rparr>))"

end
