(* ===== verification/Projections.thy ===== *)
theory Projections
  imports Contents GoJson
begin

text \<open>
  \<^verbatim>\<open>projection_anthropic.go\<close>, \<^verbatim>\<open>projection_openai.go\<close> and \<^verbatim>\<open>projection_gemini.go\<close>: the effective
  stream of a log as the request of a provider.  The three structs have the same fields (only
  Anthropic has \<^verbatim>\<open>MaxTokens\<close>), so they share a record.  Messages are built as the code builds
  them, on a list that ends with the message still open; values are copied, so a wire message
  taken from a carrier is changed in the request only, where the code writes through to the
  payload it came from (the loop hands every projection a private copy of the log).
\<close>

record ('h, 'st, 'w) projection =
  pj_Model :: string
  pj_MaxTokens :: int
  pj_System :: string
  pj_Registry :: "('h, 'st, 'w) registry"
  pj_Store :: "attachment_get option"
  pj_ProviderKind :: string
  pj_Capabilities :: "(string \<times> bool) list"
  pj_Mismatch :: string
  pj_fetch :: fetch_env

definition failed_text :: "string + 'a \<Rightarrow> projection_error + 'a" where
  "failed_text r = (case r of Inl m \<Rightarrow> Inl (ProjectionFailed m) | Inr x \<Rightarrow> Inr x)"

text \<open>\<^verbatim>\<open>fallbackIfUnsupported\<close>, for the three: nothing for a block the model takes, else the text
  that stands in for it, or the mismatch.\<close>

definition fallbackIfUnsupported ::
    "('h, 'st, 'w) projection \<Rightarrow> string \<Rightarrow> payload \<Rightarrow> projection_error + payload option" where
  "fallbackIfUnsupported p prov block =
     (if capabilitySupported prov (pj_Model p) (pj_Capabilities p) (stringValue (pget block ''type''))
      then Inr None
      else if capabilityMismatchBehavior (pj_Mismatch p) = ''error''
      then Inl (capabilityMismatch prov (pj_Model p) block)
      else failed_text (bind_res (fallbackContentBlock (pj_fetch p) (pj_Store p) block) (\<lambda>b. Inr (Some b))))"

definition pj_kind :: "('h, 'st, 'w) projection \<Rightarrow> string \<Rightarrow> string" where
  "pj_kind p d = or_else (pj_ProviderKind p) d"

section \<open>Anthropic\<close>

definition anthropicMediaBlock ::
    "('h, 'st, 'w) projection \<Rightarrow> string \<Rightarrow> payload \<Rightarrow> projection_error + payload" where
  "anthropicMediaBlock p kind block =
     (let source = asMap (pget block ''source'')
      in if kind = ''image'' \<and> pget source ''kind'' = VStr ''url''
         then Inr [(''type'', VStr ''image''),
                   (''source'', VMap [(''type'', VStr ''url''), (''url'', VStr (stringValue (pget source ''url'')))])]
         else failed_text (bind_res (resolveContentData (pj_fetch p) (pj_Store p) block) (\<lambda>r.
                Inr [(''type'', VStr kind),
                     (''source'', VMap [(''type'', VStr ''base64''), (''media_type'', VStr (rc_MediaType r)),
                                        (''data'', VStr (rc_Data r))])])))"

text \<open>One block; \<^verbatim>\<open>contentBlocks\<close> is their sequence, stopped by the first error.\<close>

definition anthropic_block :: "('h, 'st, 'w) projection \<Rightarrow> payload \<Rightarrow> projection_error + val" where
  "anthropic_block p block =
     (let t = stringValue (pget block ''type'')
      in if t = ''text''
         then (case providerPartWire block ''anthropic.messages'' of
                 Some wire \<Rightarrow> Inr (VMap wire)
               | None \<Rightarrow> Inr (VMap (text_block (stringValue (pget block ''text'')))))
         else if t = ''image'' \<or> t = ''document''
         then bind_res (fallbackIfUnsupported p (pj_kind p ''anthropic'') block)
                (\<lambda>fb. case fb of Some f \<Rightarrow> Inr (VMap f)
                      | None \<Rightarrow> bind_res (anthropicMediaBlock p t block) (\<lambda>w. Inr (VMap w)))
         else Inl (ProjectionFailed (''unsupported content block type: '' @ t)))"

fun map_res :: "('a \<Rightarrow> 'e + 'b) \<Rightarrow> 'a list \<Rightarrow> 'e + 'b list" where
  "map_res f [] = Inr []"
| "map_res f (x # xs) = bind_res (f x) (\<lambda>y. bind_res (map_res f xs) (\<lambda>ys. Inr (y # ys)))"

definition an_contentBlocks :: "('h, 'st, 'w) projection \<Rightarrow> payload \<Rightarrow> projection_error + val list" where
  "an_contentBlocks p payload = map_res (anthropic_block p) (messageContentBlocks payload)"

definition nonEmptyAnthropicTextBlocks :: "val list \<Rightarrow> val list" where
  "nonEmptyAnthropicTextBlocks bs =
     filter (\<lambda>b. \<not> (pget (asMap b) ''type'' = VStr ''text'' \<and> stringValue (pget (asMap b) ''text'') = [])) bs"

fun anthropicReasoning :: "val list \<Rightarrow> val list" where
  "anthropicReasoning [] = []"
| "anthropicReasoning (raw # rest) =
     (let block = asMap raw; sig = stringValue (pget block ''signature'')
      in if pget block ''type'' \<noteq> VStr ''text'' then anthropicReasoning rest
         else VMap ([(''type'', VStr ''thinking''), (''thinking'', VStr (stringValue (pget block ''text'')))]
                    @ (if sig \<noteq> [] then [(''signature'', VStr sig)] else []))
              # anthropicReasoning rest)"

definition anthropicReasoningBlocks :: "event \<Rightarrow> val list" where
  "anthropicReasoningBlocks e = anthropicReasoning (asSlice (pget (ev_payload e) ''reasoning''))"

definition anthropic_use :: "payload \<Rightarrow> val" where
  "anthropic_use p =
     VMap [(''type'', VStr ''tool_use''), (''id'', pget p ''id''), (''name'', pget p ''name''),
           (''input'', VMap (asMap (pget p ''arguments'')))]"

definition anthropic_result :: "payload \<Rightarrow> val" where
  "anthropic_result p =
     (let err = stringValue (pget p ''error'')
      in VMap ([(''type'', VStr ''tool_result''), (''tool_use_id'', pget p ''tool_use_id'')]
               @ (if err \<noteq> [] then [(''content'', VStr err), (''is_error'', VBool True)]
                  else [(''content'', VStr (stringValue (pget p ''output'')))])))"

text \<open>The role and the blocks of an event; an event of another type has none.\<close>

definition an_translate :: "('h, 'st, 'w) projection \<Rightarrow> event \<Rightarrow> projection_error + string \<times> val list" where
  "an_translate p e =
     (let payload = ev_payload e
      in case ev_type e of
        EventUserMessage \<Rightarrow> bind_res (an_contentBlocks p payload) (\<lambda>bs. Inr (''user'', bs))
      | EventSummary \<Rightarrow> bind_res (an_contentBlocks p payload) (\<lambda>bs. Inr (''user'', bs))
      | EventAssistantMessage \<Rightarrow>
          (case providerCarrierWires (pget payload ''provider_items'') ''anthropic.messages'' of
             Some wire \<Rightarrow> Inr (''assistant'', wire)
           | None \<Rightarrow> bind_res (an_contentBlocks p payload) (\<lambda>bs.
               Inr (''assistant'', anthropicReasoningBlocks e @ nonEmptyAnthropicTextBlocks bs)))
      | EventToolUse \<Rightarrow> Inr (''assistant'', [anthropic_use payload])
      | EventToolResult \<Rightarrow> Inr (''user'', [anthropic_result payload])
      | _ \<Rightarrow> Inr ([], []))"

text \<open>The loop of \<^verbatim>\<open>Project\<close>: \<open>groups\<close> are the finished groups, \<open>cur\<close> is the open one.\<close>

type_synonym group = "string \<times> val list"

fun an_groups ::
    "('h, 'st, 'w) projection \<Rightarrow> group list \<Rightarrow> group option \<Rightarrow> event list \<Rightarrow> projection_error + group list" where
  "an_groups p groups cur [] = Inr (case cur of None \<Rightarrow> groups | Some g \<Rightarrow> groups @ [g])"
| "an_groups p groups cur (e # es) =
     (case an_translate p e of
        Inl err \<Rightarrow> Inl err
      | Inr (role, blocks) \<Rightarrow>
          if role = [] \<or> blocks = [] then an_groups p groups cur es
          else (case cur of
                  None \<Rightarrow> an_groups p groups (Some (role, blocks)) es
                | Some (r, bs) \<Rightarrow>
                    if r = role then an_groups p groups (Some (r, bs @ blocks)) es
                    else an_groups p (groups @ [(r, bs)]) (Some (role, blocks)) es))"

definition finalizeAnthropicGroup :: "group \<Rightarrow> payload" where
  "finalizeAnthropicGroup g =
     (case snd g of
        [b] \<Rightarrow> if pget (asMap b) ''type'' = VStr ''text''
               then [(''role'', VStr (fst g)), (''content'', pget (asMap b) ''text'')]
               else [(''role'', VStr (fst g)), (''content'', VList (snd g))]
      | _ \<Rightarrow> [(''role'', VStr (fst g)), (''content'', VList (snd g))])"

definition anthropicToolDescriptors :: "('h, 'st, 'w) registry \<Rightarrow> payload list" where
  "anthropicToolDescriptors r =
     map (\<lambda>t. [(''name'', VStr (tl_name t)), (''description'', VStr (tl_description t)),
               (''input_schema'', VMap (tl_schema t))]) (registry_Tools r)"

definition tools_field :: "('h, 'st, 'w) projection \<Rightarrow> (('h, 'st, 'w) registry \<Rightarrow> payload list) \<Rightarrow> payload" where
  "tools_field p f = (if 0 < registry_Size (pj_Registry p) then [(''tools'', VMaps (f (pj_Registry p)))] else [])"

definition AnthropicProjection_Project ::
    "('h, 'st, 'w) projection \<Rightarrow> event list \<Rightarrow> projection_error + payload" where
  "AnthropicProjection_Project p es =
     bind_res (an_groups p [] None (apply_mutations es)) (\<lambda>groups.
       Inr ([(''model'', VStr (pj_Model p)), (''max_tokens'', VInt (pj_MaxTokens p)),
             (''messages'', VMaps (map finalizeAnthropicGroup groups))]
            @ (if pj_System p \<noteq> [] then [(''system'', VStr (pj_System p))] else [])
            @ tools_field p anthropicToolDescriptors))"

section \<open>OpenAI\<close>

definition openai_imageURL :: "('h, 'st, 'w) projection \<Rightarrow> payload \<Rightarrow> projection_error + string" where
  "openai_imageURL p block =
     (let source = asMap (pget block ''source'')
      in if pget source ''kind'' = VStr ''url'' then Inr (stringValue (pget source ''url''))
         else failed_text (bind_res (resolveContentData (pj_fetch p) (pj_Store p) block) (\<lambda>r.
                Inr (''data:'' @ rc_MediaType r @ '';base64,'' @ rc_Data r))))"

definition openai_block :: "('h, 'st, 'w) projection \<Rightarrow> payload \<Rightarrow> projection_error + payload" where
  "openai_block p block =
     (let t = stringValue (pget block ''type'')
      in if t = ''text'' then Inr (text_block (stringValue (pget block ''text'')))
         else if t = ''image''
         then bind_res (fallbackIfUnsupported p (pj_kind p ''openai'') block)
                (\<lambda>fb. case fb of Some f \<Rightarrow> Inr f
                      | None \<Rightarrow> bind_res (openai_imageURL p block) (\<lambda>u.
                          Inr [(''type'', VStr ''image_url''), (''image_url'', VMap [(''url'', VStr u)])]))
         else if t = ''document''
         then bind_res (fallbackIfUnsupported p (pj_kind p ''openai'') block)
                (\<lambda>fb. case fb of Some f \<Rightarrow> Inr f
                      | None \<Rightarrow> Inl (ProjectionFailed ''OpenAI document content is not supported''))
         else Inl (ProjectionFailed (''unsupported OpenAI content block type: '' @ t)))"

definition oa_content :: "('h, 'st, 'w) projection \<Rightarrow> payload \<Rightarrow> projection_error + val" where
  "oa_content p payload =
     (case messageContentBlocks payload of
        [b] \<Rightarrow> if stringValue (pget b ''type'') = ''text'' then Inr (VStr (stringValue (pget b ''text'')))
               else bind_res (map_res (openai_block p) [b]) (\<lambda>ws. Inr (VMaps ws))
      | bs \<Rightarrow> bind_res (map_res (openai_block p) bs) (\<lambda>ws. Inr (VMaps ws)))"

definition openAIContentForAssistant :: "val \<Rightarrow> val" where
  "openAIContentForAssistant c = (case c of VStr t \<Rightarrow> VStr t | _ \<Rightarrow> c)"

definition mustJSON :: "val \<Rightarrow> string" where
  "mustJSON v = (case json_marshal False v of Inl _ \<Rightarrow> ''{}'' | Inr t \<Rightarrow> t)"

definition openai_call :: "payload \<Rightarrow> payload" where
  "openai_call p =
     [(''id'', pget p ''id''), (''type'', VStr ''function''),
      (''function'', VMap [(''name'', pget p ''name''),
                           (''arguments'', VStr (mustJSON (VMap (asMap (pget p ''arguments'')))))])]"

definition add_call :: "payload \<Rightarrow> payload \<Rightarrow> payload" where
  "add_call call m =
     (let m' = pset ''tool_calls'' (VMaps (asMapSlice (pget m ''tool_calls'') @ [call])) m
      in if pget m ''content'' = VStr [] then pset ''content'' VNil m' else m')"

definition oa_append_call :: "payload list \<Rightarrow> payload \<Rightarrow> payload list" where
  "oa_append_call ms call =
     (if ms \<noteq> [] \<and> pget (List.last ms) ''role'' = VStr ''assistant''
      then butlast ms @ [add_call call (List.last ms)]
      else ms @ [[(''role'', VStr ''assistant''), (''content'', VNil), (''tool_calls'', VMaps [call])]])"

definition openai_result :: "payload \<Rightarrow> payload" where
  "openai_result p =
     (let err = stringValue (pget p ''error'')
      in [(''role'', VStr ''tool''), (''tool_call_id'', pget p ''tool_use_id''),
          (''content'', VStr (if err \<noteq> [] then err else stringValue (pget p ''output'')))])"

definition oa_message :: "string \<Rightarrow> val \<Rightarrow> payload" where
  "oa_message role content = [(''role'', VStr role), (''content'', content)]"

definition oa_event ::
    "('h, 'st, 'w) projection \<Rightarrow> payload list \<Rightarrow> event \<Rightarrow> projection_error + payload list" where
  "oa_event p ms e =
     (let payload = ev_payload e
      in case ev_type e of
        EventUserMessage \<Rightarrow> bind_res (oa_content p payload) (\<lambda>c. Inr (ms @ [oa_message ''user'' c]))
      | EventSummary \<Rightarrow> bind_res (oa_content p payload) (\<lambda>c. Inr (ms @ [oa_message ''user'' c]))
      | EventAssistantMessage \<Rightarrow>
          (case providerCarrierWire (pget payload ''provider_items'') ''openai.chat_completions'' of
             Some wire \<Rightarrow> Inr (ms @ [asMap wire])
           | None \<Rightarrow> bind_res (oa_content p payload) (\<lambda>c.
               Inr (ms @ [oa_message ''assistant'' (openAIContentForAssistant c)])))
      | EventToolUse \<Rightarrow> Inr (oa_append_call ms (openai_call payload))
      | EventToolResult \<Rightarrow> Inr (ms @ [openai_result payload])
      | _ \<Rightarrow> Inr ms)"

fun fold_res :: "('s \<Rightarrow> 'a \<Rightarrow> 'e + 's) \<Rightarrow> 's \<Rightarrow> 'a list \<Rightarrow> 'e + 's" where
  "fold_res f s [] = Inr s"
| "fold_res f s (x # xs) = bind_res (f s x) (\<lambda>s'. fold_res f s' xs)"

definition openAIToolDescriptors :: "('h, 'st, 'w) registry \<Rightarrow> payload list" where
  "openAIToolDescriptors r =
     map (\<lambda>t. [(''type'', VStr ''function''),
               (''function'', VMap [(''name'', VStr (tl_name t)), (''description'', VStr (tl_description t)),
                                    (''parameters'', VMap (tl_schema t))])]) (registry_Tools r)"

definition OpenAIProjection_Project ::
    "('h, 'st, 'w) projection \<Rightarrow> event list \<Rightarrow> projection_error + payload" where
  "OpenAIProjection_Project p es =
     bind_res (fold_res (oa_event p)
         (if pj_System p \<noteq> [] then [oa_message ''system'' (VStr (pj_System p))] else [])
         (apply_mutations es)) (\<lambda>ms.
       Inr ([(''model'', VStr (pj_Model p)), (''messages'', VMaps ms)] @ tools_field p openAIToolDescriptors))"

section \<open>Gemini\<close>

definition gemini_block :: "('h, 'st, 'w) projection \<Rightarrow> payload \<Rightarrow> projection_error + payload option" where
  "gemini_block p block =
     (let t = stringValue (pget block ''type'')
      in if t = ''text''
         then (case providerPartWire block ''gemini.generateContent'' of
                 Some wire \<Rightarrow> Inr (Some wire)
               | None \<Rightarrow> let text = stringValue (pget block ''text'')
                         in Inr (if text \<noteq> [] then Some [(''text'', VStr text)] else None))
         else if t = ''image'' \<or> t = ''document''
         then bind_res (fallbackIfUnsupported p ''gemini'' block)
                (\<lambda>fb. case fb of Some f \<Rightarrow> Inr (Some [(''text'', VStr (stringValue (pget f ''text'')))])
                      | None \<Rightarrow> failed_text (bind_res (resolveContentData (pj_fetch p) (pj_Store p) block) (\<lambda>r.
                          Inr (Some [(''inline_data'', VMap [(''mime_type'', VStr (rc_MediaType r)),
                                                             (''data'', VStr (rc_Data r))])]))))
         else Inl (ProjectionFailed (''unsupported Gemini content block type: '' @ t)))"

definition gemini_parts :: "('h, 'st, 'w) projection \<Rightarrow> payload \<Rightarrow> projection_error + payload list" where
  "gemini_parts p payload =
     bind_res (map_res (gemini_block p) (messageContentBlocks payload)) (\<lambda>ps. Inr (List.map_filter id ps))"

definition gemini_content :: "string \<Rightarrow> payload list \<Rightarrow> payload" where
  "gemini_content role parts = [(''role'', VStr role), (''parts'', VMaps parts)]"

definition gemini_use :: "payload \<Rightarrow> payload" where
  "gemini_use p = [(''functionCall'', VMap [(''name'', pget p ''name''),
                                            (''args'', VMap (asMap (pget p ''arguments'')))])]"

definition ge_append_part :: "payload list \<Rightarrow> payload \<Rightarrow> payload list" where
  "ge_append_part cs part =
     (if cs \<noteq> [] \<and> pget (List.last cs) ''role'' = VStr ''model''
      then butlast cs @ [pset ''parts'' (VMaps (asMapSlice (pget (List.last cs) ''parts'') @ [part])) (List.last cs)]
      else cs @ [gemini_content ''model'' [part]])"

definition use_names :: "event list \<Rightarrow> (string \<times> string) list" where
  "use_names es =
     fold (\<lambda>e names. if ev_type e = EventToolUse then AList.update (use_id e) (ev_str e ''name'') names else names) es []"

definition gemini_result :: "(string \<times> string) list \<Rightarrow> payload \<Rightarrow> payload" where
  "gemini_result names p =
     (let err = stringValue (pget p ''error''); id = stringValue (pget p ''tool_use_id'')
      in [(''functionResponse'',
           VMap [(''name'', VStr (or_else (aget [] names id) id)),
                 (''response'', VMap (if err \<noteq> [] then [(''error'', VStr err)]
                                      else [(''content'', VStr (stringValue (pget p ''output'')))]))])])"

definition ge_event ::
    "('h, 'st, 'w) projection \<Rightarrow> (string \<times> string) list \<Rightarrow> payload list \<Rightarrow> event
     \<Rightarrow> projection_error + payload list" where
  "ge_event p names cs e =
     (let payload = ev_payload e
      in case ev_type e of
        EventUserMessage \<Rightarrow> bind_res (gemini_parts p payload) (\<lambda>ps. Inr (cs @ [gemini_content ''user'' ps]))
      | EventSummary \<Rightarrow> bind_res (gemini_parts p payload) (\<lambda>ps. Inr (cs @ [gemini_content ''user'' ps]))
      | EventAssistantMessage \<Rightarrow>
          bind_res (gemini_parts p payload) (\<lambda>ps.
            Inr (if ps \<noteq> [] then cs @ [gemini_content ''model'' ps] else cs))
      | EventToolUse \<Rightarrow> Inr (ge_append_part cs (gemini_use payload))
      | EventToolResult \<Rightarrow> Inr (cs @ [gemini_content ''user'' [gemini_result names payload]])
      | _ \<Rightarrow> Inr cs)"

definition geminiToolDescriptors :: "('h, 'st, 'w) registry \<Rightarrow> payload list" where
  "geminiToolDescriptors r =
     [[(''functionDeclarations'',
        VMaps (map (\<lambda>t. [(''name'', VStr (tl_name t)), (''description'', VStr (tl_description t)),
                         (''parameters'', VMap (tl_schema t))]) (registry_Tools r)))]]"

definition GeminiProjection_Project ::
    "('h, 'st, 'w) projection \<Rightarrow> event list \<Rightarrow> projection_error + payload" where
  "GeminiProjection_Project p es =
     (let effective = apply_mutations es
      in bind_res (fold_res (ge_event p (use_names effective)) [] effective) (\<lambda>cs.
           Inr ([(''model'', VStr (pj_Model p)), (''contents'', VMaps cs),
                 (''generationConfig'', VMap [(''thinkingConfig'', VMap [(''thinkingBudget'', VFloat 0)])])]
                @ (if pj_System p \<noteq> []
                   then [(''systemInstruction'', VMap [(''parts'', VMaps [[(''text'', VStr (pj_System p))]])])]
                   else [])
                @ tools_field p geminiToolDescriptors)))"

end
