(* ===== verification/ProjectionProps.thy ===== *)
theory ProjectionProps
  imports Projections
begin

text \<open>
  What the projections do with the tool uses and results of a transcript that passed the gate.
  A provider's view of the tools is a list of tags, a call or an answer with its identifier;
  \<open>answered\<close> checks that every call has its own identifier and one answer, after it.
\<close>

section \<open>Calls and answers\<close>

fun answered :: "string list \<Rightarrow> string list \<Rightarrow> (string + string) list \<Rightarrow> bool" where
  "answered pending settled [] \<longleftrightarrow> pending = []"
| "answered pending settled (Inl x # ts) \<longleftrightarrow>
     x \<noteq> [] \<and> x \<notin> set pending \<and> x \<notin> set settled \<and> answered (x # pending) settled ts"
| "answered pending settled (Inr x # ts) \<longleftrightarrow>
     x \<in> set pending \<and> answered (removeAll x pending) (x # settled) ts"

definition event_tags :: "event \<Rightarrow> (string + string) list" where
  "event_tags e =
     (if is_use e then [Inl (use_id e)] else if is_result e then [Inr (result_id e)] else [])"

definition is_tool :: "event \<Rightarrow> bool" where
  "is_tool e \<longleftrightarrow> is_use e \<or> is_result e"

lemma event_tags_simps [simp]:
  "is_use e \<Longrightarrow> event_tags e = [Inl (use_id e)]" "is_result e \<Longrightarrow> event_tags e = [Inr (result_id e)]"
  "\<not> is_tool e \<Longrightarrow> event_tags e = []"
  by (simp_all add: event_tags_def is_tool_def)

text \<open>A sound stream, cut anywhere: the uses before the cut without a result before it are
  pending, and a result before the cut has its use there.\<close>

lemma use_before_cut:
  assumes "sorted_wrt (\<lambda>a b. ev_seq a < ev_seq b) (filter is_tool (pre @ post))"
    and "u \<in> set (uses_of (pre @ post))" and "r \<in> set (results_of pre)" and "ev_seq u < ev_seq r"
  shows "u \<in> set (uses_of pre)"
proof (rule ccontr)
  assume "u \<notin> set (uses_of pre)"
  then have "u \<in> set (filter is_tool post)" using assms(2) by (auto simp: set_uses_of is_tool_def)
  moreover have "r \<in> set (filter is_tool pre)" using assms(3) by (auto simp: set_results_of is_tool_def)
  ultimately have "ev_seq r < ev_seq u" using assms(1) by (auto simp: sorted_wrt_append)
  with assms(4) show False by simp
qed

lemma result_has_use:
  "well_referenced es \<Longrightarrow> r \<in> set (results_of es) \<Longrightarrow>
   \<exists>u \<in> set (uses_of es). use_id u = result_id r \<and> ev_seq u < ev_seq r"
  by (simp add: well_referenced_def)

lemma answered_rest:
  assumes "well_referenced (pre @ post)" and "all_resolved (pre @ post)"
    and "sorted_wrt (\<lambda>a b. ev_seq a < ev_seq b) (filter is_tool (pre @ post))"
    and "set pending = use_id ` set (uses_of pre) - result_id ` set (results_of pre)"
    and "set settled = result_id ` set (results_of pre)"
  shows "answered pending settled (concat (map event_tags post))"
  using assms
proof (induction post arbitrary: pre pending settled)
  case Nil
  have "use_id u \<in> result_id ` set (results_of pre)" if "u \<in> set (uses_of pre)" for u
    using Nil(1,2) that by (force simp: all_resolved_def well_referenced_def)
  then have "set pending = {}" using Nil(4) by auto
  then show ?case by simp
next
  case (Cons e post)
  note ih = Cons.IH [of "pre @ [e]"]
  have settled: "x \<in> use_id ` set (uses_of pre)" if m: "x \<in> set settled" for x
  proof -
    obtain r where r: "r \<in> set (results_of pre)" "x = result_id r" using m Cons.prems(5) by auto
    then obtain u where u: "u \<in> set (uses_of (pre @ e # post))" "use_id u = result_id r" "ev_seq u < ev_seq r"
      using result_has_use [OF Cons.prems(1), of r] r(1) unfolding uses_results_of_append by auto
    with use_before_cut [OF Cons.prems(3) u(1) r(1) u(3)] r(2) u(2) show ?thesis by (auto intro: image_eqI [of _ _ u])
  qed
  consider (use) "is_use e" | (result) "is_result e" | (other) "\<not> is_tool e" by (auto simp: is_tool_def)
  then show ?case
  proof cases
    case use
    have fresh: "use_id e \<noteq> []" "use_id e \<notin> use_id ` set (uses_of pre)"
      using Cons.prems(1) use by (auto simp: well_referenced_def)
    have "answered (use_id e # pending) settled (concat (map event_tags post))"
      using Cons.prems use fresh settled by (intro ih) auto
    then show ?thesis using use fresh settled Cons.prems(4) by auto
  next
    case result
    have nu: "\<not> is_use e" using result by simp
    obtain u where u: "u \<in> set (uses_of (pre @ e # post))" "use_id u = result_id e" "ev_seq u < ev_seq e"
      using result_has_use [OF Cons.prems(1), of e] result by auto
    have "u \<in> set (uses_of (pre @ [e]))"
      using use_before_cut [of "pre @ [e]" post u e] Cons.prems(3) u result nu by auto
    then have "result_id e \<in> use_id ` set (uses_of pre)" using u(2) nu by force
    moreover have "result_id e \<notin> result_id ` set (results_of pre)"
      using Cons.prems(1) result nu by (auto simp: well_referenced_def)
    ultimately have mem: "result_id e \<in> set pending" using Cons.prems(4) by blast
    have "answered (removeAll (result_id e) pending) (result_id e # settled) (concat (map event_tags post))"
      using Cons.prems result nu by (intro ih) auto
    with mem result show ?thesis by simp
  next
    case other
    then have "answered pending settled (concat (map event_tags post))"
      using Cons.prems by (intro ih) (auto simp: is_tool_def)
    with other show ?thesis by simp
  qed
qed

lemma sound_answered:
  assumes "well_referenced es" and "all_resolved es"
    and "sorted_wrt (\<lambda>a b. ev_seq a < ev_seq b) (filter is_tool es)"
  shows "answered [] [] (concat (map event_tags es))"
  by (rule answered_rest [of "[]"]) (use assms in auto)

text \<open>The stream a projection reads, for a session that passed the gate.\<close>

lemma prepared_answered:
  assumes "PrepareProviderCall dg (Some s) = Inr pt" and "dense (lg_events (ss_log s))"
    and "pt_Project f pt = Inr req"
  shows "f (ApplyMutations (ss_log s)) = Inr req"
    and "apply_mutations (ApplyMutations (ss_log s)) = ApplyMutations (ss_log s)"
    and "answered [] [] (concat (map event_tags (ApplyMutations (ss_log s))))"
proof -
  let ?es = "lg_events (ss_log s)"
  have pt: "pt_log pt = Some (apply_mutations ?es)" and r: "provider_ready ?es"
    using assms(1) by (auto simp: PrepareProviderCall_Inr_iff)
  show "f (ApplyMutations (ss_log s)) = Inr req"
    using assms(3) pt by (auto simp: pt_Project_def ApplyMutations_def split: sum.splits)
  show "apply_mutations (ApplyMutations (ss_log s)) = ApplyMutations (ss_log s)"
    by (simp add: ApplyMutations_def apply_mutations_idem)
  have "filter is_tool (apply_mutations ?es) = filter (\<lambda>e. is_tool e \<and> ev_seq e \<notin> shadowed_seqs ?es) ?es"
    by (rule filter_tools_apply_mutations) (simp add: is_tool_def)
  then have "sorted_wrt (\<lambda>a b. ev_seq a < ev_seq b) (filter is_tool (apply_mutations ?es))"
    using dense_sorted [OF assms(2)] by (simp add: sorted_wrt_filter)
  then show "answered [] [] (concat (map event_tags (ApplyMutations (ss_log s))))"
    using r by (intro sound_answered) (auto simp: provider_ready_def ApplyMutations_def)
qed

section \<open>Messages without carriers\<close>

text \<open>A message that carries nothing the provider wrote itself, so that its blocks are the model's.\<close>

definition carrier_free :: "string \<Rightarrow> event \<Rightarrow> bool" where
  "carrier_free destination e \<longleftrightarrow>
     providerCarrierWire (pget (ev_payload e) ''provider_items'') destination = None \<and>
     list_all (\<lambda>b. providerPartWire b destination = None) (messageContentBlocks (ev_payload e))"

lemma map_res_Inr: "map_res f xs = Inr ys \<longleftrightarrow> list_all2 (\<lambda>x y. f x = Inr y) xs ys"
proof (induction xs arbitrary: ys)
  case Nil
  show ?case by auto
next
  case (Cons x xs)
  show ?case by (cases ys) (auto simp: bind_res_Inr_iff Cons)
qed

lemma map_res_set: "map_res f xs = Inr ys \<Longrightarrow> y \<in> set ys \<Longrightarrow> \<exists>x \<in> set xs. f x = Inr y"
proof -
  assume "map_res f xs = Inr ys" "y \<in> set ys"
  then show "\<exists>x \<in> set xs. f x = Inr y"
    unfolding map_res_Inr by (induction xs ys rule: list_all2_induct) auto
qed

lemma fallback_text:
  "fallbackIfUnsupported p prov b = Inr (Some fb) \<Longrightarrow> \<exists>t. fb = text_block t"
  by (auto simp: fallbackIfUnsupported_def failed_text_def fallbackContentBlock_def bind_res_Inr_iff
      split: if_splits sum.splits)

section \<open>Anthropic\<close>

definition block_tags :: "val \<Rightarrow> (string + string) list" where
  "block_tags b =
     (if pget (asMap b) ''type'' = VStr ''tool_use'' then [Inl (stringValue (pget (asMap b) ''id''))]
      else if pget (asMap b) ''type'' = VStr ''tool_result'' then [Inr (stringValue (pget (asMap b) ''tool_use_id''))]
      else [])"

definition message_blocks :: "payload \<Rightarrow> val list" where
  "message_blocks m = asSlice (pget m ''content'')"

text \<open>The role of the blocks an event contributes; the loop of \<^verbatim>\<open>Project\<close> cuts the sequence of
  these into groups where the role changes.\<close>

definition an_labels :: "('h, 'st, 'w) projection \<Rightarrow> event \<Rightarrow> (string \<times> val) list" where
  "an_labels p e =
     (case an_translate p e of Inl _ \<Rightarrow> [] | Inr (r, bs) \<Rightarrow> if r = [] then [] else map (Pair r) bs)"

definition flat_group :: "group \<Rightarrow> (string \<times> val) list" where
  "flat_group g = map (Pair (fst g)) (snd g)"

definition all_groups :: "group list \<Rightarrow> group option \<Rightarrow> group list" where
  "all_groups gs cur = (case cur of None \<Rightarrow> gs | Some g \<Rightarrow> gs @ [g])"

lemma all_groups_simps [simp]:
  "all_groups gs None = gs" "all_groups gs (Some g) = gs @ [g]"
  by (simp_all add: all_groups_def)

definition groups_ok :: "group list \<Rightarrow> bool" where
  "groups_ok gs \<longleftrightarrow> distinct_adj (map fst gs) \<and> (\<forall>g \<in> set gs. snd g \<noteq> [])"

lemma distinct_adj_snoc:
  "distinct_adj (xs @ [x, y]) \<longleftrightarrow> distinct_adj (xs @ [x]) \<and> x \<noteq> y"
  by (induction xs rule: induct_list012) auto

lemma an_groups_spec:
  assumes "groups_ok (all_groups gs cur)" and "cur = None \<Longrightarrow> gs = []"
  shows "an_groups p gs cur es = Inr out \<Longrightarrow>
    groups_ok out \<and> concat (map flat_group out)
      = concat (map flat_group (all_groups gs cur)) @ concat (map (an_labels p) es)"
  using assms
proof (induction es arbitrary: gs cur)
  case Nil
  then show ?case by (auto simp: all_groups_def split: option.splits)
next
  case (Cons e es)
  obtain role blocks where t: "an_translate p e = Inr (role, blocks)"
    using Cons.prems(1) by (auto split: sum.splits)
  show ?case
  proof (cases "role = [] \<or> blocks = []")
    case True
    then have "an_labels p e = []" using t by (auto simp: an_labels_def)
    then show ?thesis using Cons.IH [of gs cur] Cons.prems t True by auto
  next
    case False
    then have l: "an_labels p e = flat_group (role, blocks)" using t by (simp add: an_labels_def flat_group_def)
    show ?thesis
    proof (cases cur)
      case None
      then show ?thesis using Cons.IH [of gs "Some (role, blocks)"] Cons.prems t False l
        by (auto simp: groups_ok_def)
    next
      case (Some g)
      obtain r bs where g: "g = (r, bs)" by (cases g)
      show ?thesis
      proof (cases "r = role")
        case True
        then show ?thesis using Cons.IH [of gs "Some (r, bs @ blocks)"] Cons.prems t False l g Some
          by (auto simp: groups_ok_def flat_group_def)
      next
        case ne: False
        have "groups_ok ((gs @ [(r, bs)]) @ [(role, blocks)])"
          using Cons.prems(2) Some g ne False distinct_adj_snoc [of "map fst gs" r role]
          by (auto simp: groups_ok_def)
        then show ?thesis using Cons.IH [of "gs @ [(r, bs)]" "Some (role, blocks)"] Cons.prems t False l g Some ne
          by auto
      qed
    qed
  qed
qed

lemma an_groups_ok: "is_ok (an_groups p gs cur es) \<longleftrightarrow> (\<forall>e \<in> set es. is_ok (an_translate p e))"
  by (induction es arbitrary: gs cur) (auto split: sum.splits option.splits)

text \<open>The three ways an event contributes blocks, and the one in which it has none.\<close>

lemma an_translate_cases:
  assumes "an_translate p e = Inr (r, bs)"
  obtains
    (none) "r = []" "bs = []" "\<not> is_tool e"
  | (use) "is_use e" "r = ''assistant''" "bs = [anthropic_use (ev_payload e)]"
  | (result) "is_result e" "r = ''user''" "bs = [anthropic_result (ev_payload e)]"
  | (user) "ev_type e = EventUserMessage \<or> ev_type e = EventSummary" "r = ''user''"
      "an_contentBlocks p (ev_payload e) = Inr bs"
  | (carried) "ev_type e = EventAssistantMessage" "r = ''assistant''"
      "providerCarrierWires (pget (ev_payload e) ''provider_items'') ''anthropic.messages'' = Some bs"
  | (assistant) cs where "ev_type e = EventAssistantMessage" "r = ''assistant''"
      "an_contentBlocks p (ev_payload e) = Inr cs"
      "bs = anthropicReasoningBlocks e @ nonEmptyAnthropicTextBlocks cs"
  using assms unfolding an_translate_def Let_def
  by (cases "ev_type e") (auto simp: bind_res_Inr_iff is_tool_def split: option.splits)

lemma an_roles: "(r, b) \<in> set (an_labels p e) \<Longrightarrow> r = ''user'' \<or> r = ''assistant''"
  by (cases "an_translate p e") (auto simp: an_labels_def split: if_splits elim!: an_translate_cases)

text \<open>A block the model wrote as text holds a string.\<close>

definition text_typed :: "val \<Rightarrow> bool" where
  "text_typed b \<longleftrightarrow>
     (pget (asMap b) ''type'' = VStr ''text'' \<longrightarrow> as_string (pget (asMap b) ''text'') \<noteq> None)"

lemma anthropic_block_no_tags:
  assumes "anthropic_block p b = Inr w" and "providerPartWire b ''anthropic.messages'' = None"
  shows "block_tags w = [] \<and> text_typed w"
  using assms
  by (auto simp: text_typed_def as_string_def anthropic_block_def anthropicMediaBlock_def Let_def bind_res_Inr_iff block_tags_def
      text_block_def failed_text_def split: if_splits sum.splits option.splits dest!: fallback_text)

lemma reasoning_no_tags: "b \<in> set (anthropicReasoning vs) \<Longrightarrow> block_tags b = [] \<and> text_typed b"
  by (induction vs) (auto simp: block_tags_def text_typed_def Let_def split: if_splits)

lemma content_no_tags:
  assumes "an_contentBlocks p (ev_payload e) = Inr bs" and "carrier_free ''anthropic.messages'' e"
  shows "b \<in> set bs \<Longrightarrow> block_tags b = [] \<and> text_typed b"
  using assms anthropic_block_no_tags unfolding an_contentBlocks_def carrier_free_def list_all_iff
  by (metis map_res_set)

lemma an_labels_tags:
  assumes "carrier_free ''anthropic.messages'' e" and "is_ok (an_translate p e)"
  shows "concat (map (block_tags \<circ> snd) (an_labels p e)) = event_tags e"
    and "\<forall>(r, b) \<in> set (an_labels p e). text_typed b"
proof -
  obtain r bs where t: "an_translate p e = Inr (r, bs)" using assms(2) by (cases "an_translate p e") auto
  have "concat (map block_tags bs) = event_tags e \<and> (\<forall>b \<in> set bs. text_typed b)"
    using t
  proof (cases rule: an_translate_cases)
    case none
    then show ?thesis by simp
  next
    case use
    then show ?thesis by (simp add: block_tags_def anthropic_use_def text_typed_def)
  next
    case result
    then show ?thesis by (simp add: block_tags_def anthropic_result_def Let_def text_typed_def)
  next
    case user
    then have "event_tags e = []" by (auto simp: event_tags_def)
    then show ?thesis using content_no_tags [OF user(3) assms(1)] by simp
  next
    case carried
    then show ?thesis using assms(1) by (simp add: carrier_free_def providerCarrierWires_def)
  next
    case (assistant cs)
    have plain: "block_tags b = [] \<and> text_typed b" if "b \<in> set bs" for b
      using that assistant(4) content_no_tags [OF assistant(3) assms(1)] reasoning_no_tags
      by (auto simp: anthropicReasoningBlocks_def nonEmptyAnthropicTextBlocks_def)
    have "event_tags e = []" using assistant(1) by (simp add: event_tags_def)
    with plain show ?thesis by simp
  qed
  moreover have "r \<noteq> [] \<or> bs = []" using t by (cases rule: an_translate_cases) auto
  ultimately show "concat (map (block_tags \<circ> snd) (an_labels p e)) = event_tags e"
    "\<forall>(r, b) \<in> set (an_labels p e). text_typed b"
    by (auto simp: an_labels_def t comp_def)
qed

text \<open>A group that becomes a plain text message holds no tool block.\<close>

lemma finalize_group:
  assumes "snd g \<noteq> []" and "\<forall>b \<in> set (snd g). text_typed b"
  shows "concat (map block_tags (message_blocks (finalizeAnthropicGroup g)))
      = concat (map (block_tags \<circ> snd) (flat_group g))"
    and "pget (finalizeAnthropicGroup g) ''role'' = VStr (fst g)"
    and "pget (finalizeAnthropicGroup g) ''content'' \<noteq> VList []"
proof -
  obtain r bs where g: "g = (r, bs)" by (cases g)
  consider b where "bs = [b]" "pget (asMap b) ''type'' = VStr ''text''"
    | "finalizeAnthropicGroup g = [(''role'', VStr r), (''content'', VList bs)]"
    by (cases bs; cases "tl bs"; cases "pget (asMap (List.hd bs)) ''type'' = VStr ''text''")
      (auto simp: finalizeAnthropicGroup_def g)
  then have "concat (map block_tags (message_blocks (finalizeAnthropicGroup g)))
      = concat (map (block_tags \<circ> snd) (flat_group g)) \<and>
    pget (finalizeAnthropicGroup g) ''role'' = VStr (fst g) \<and>
    pget (finalizeAnthropicGroup g) ''content'' \<noteq> VList []"
  proof cases
    case 1
    then obtain t where "pget (asMap b) ''text'' = VStr t"
      using assms(2) g by (auto simp: text_typed_def as_string_def split: val.splits)
    with 1 g show ?thesis
      by (simp add: finalizeAnthropicGroup_def message_blocks_def flat_group_def block_tags_def)
  next
    case 2
    then show ?thesis using assms(1) by (simp add: message_blocks_def flat_group_def g comp_def)
  qed
  then show "concat (map block_tags (message_blocks (finalizeAnthropicGroup g)))
      = concat (map (block_tags \<circ> snd) (flat_group g))"
    "pget (finalizeAnthropicGroup g) ''role'' = VStr (fst g)"
    "pget (finalizeAnthropicGroup g) ''content'' \<noteq> VList []" by blast+
qed

text \<open>The messages of a request.\<close>

lemma concat_tags:
  "\<forall>g \<in> set gs. concat (map f (h g)) = concat (map k (l g)) \<Longrightarrow>
   concat (map f (concat (map h gs))) = concat (map k (concat (map l gs)))"
  by (induction gs) auto

lemma concat_labels:
  "\<forall>e \<in> set es. concat (map f (l e)) = t e \<Longrightarrow> concat (map f (concat (map l es))) = concat (map t es)"
  by (induction es) auto

lemma AnthropicProjection_messages:
  assumes "AnthropicProjection_Project p es = Inr req" and "apply_mutations es = effective"
    and "\<forall>e \<in> set effective. carrier_free ''anthropic.messages'' e"
  obtains gs where "pget req ''messages'' = VMaps (map finalizeAnthropicGroup gs)" and "groups_ok gs"
    and "concat (map flat_group gs) = concat (map (an_labels p) effective)"
    and "\<forall>g \<in> set gs. fst g = ''user'' \<or> fst g = ''assistant''"
    and "concat (map block_tags (concat (map message_blocks (map finalizeAnthropicGroup gs))))
        = concat (map event_tags effective)"
    and "\<forall>g \<in> set gs. pget (finalizeAnthropicGroup g) ''role'' = VStr (fst g)
        \<and> pget (finalizeAnthropicGroup g) ''content'' \<noteq> VList []"
proof -
  obtain gs where gs: "an_groups p [] None effective = Inr gs"
    and m: "pget req ''messages'' = VMaps (map finalizeAnthropicGroup gs)"
    using assms(1,2) by (auto simp: AnthropicProjection_Project_def bind_res_Inr_iff)
  have spec: "groups_ok gs" "concat (map flat_group gs) = concat (map (an_labels p) effective)"
    using an_groups_spec [of "[]" None p effective gs] gs by (auto simp: groups_ok_def)
  have ok: "is_ok (an_translate p e)" if "e \<in> set effective" for e
    using an_groups_ok [of p "[]" None effective] gs that by simp
  have label: "(fst g, b) \<in> set (concat (map (an_labels p) effective))" if "g \<in> set gs" "b \<in> set (snd g)" for g b
    unfolding spec(2) [symmetric] using that by (auto simp: flat_group_def)
  have typed: "\<forall>b \<in> set (snd g). text_typed b" if "g \<in> set gs" for g
    using label [OF that] an_labels_tags(2) assms(3) ok by fastforce
  have ne: "snd g \<noteq> []" if "g \<in> set gs" for g using spec(1) that by (simp add: groups_ok_def)
  have role: "fst g = ''user'' \<or> fst g = ''assistant''" if g: "g \<in> set gs" for g
  proof -
    obtain b where "b \<in> set (snd g)" using ne [OF g] by (cases "snd g") auto
    then show ?thesis using label [OF g] by (auto dest: an_roles)
  qed
  have "concat (map block_tags (concat (map (message_blocks \<circ> finalizeAnthropicGroup) gs)))
      = concat (map (block_tags \<circ> snd) (concat (map flat_group gs)))"
    by (rule concat_tags) (use finalize_group(1) typed ne in \<open>auto simp: comp_def\<close>)
  also have "\<dots> = concat (map event_tags effective)"
    unfolding spec(2) using assms(3) ok an_labels_tags(1) [unfolded comp_def]
    by (intro concat_labels) (auto simp: comp_def)
  finally have tags: "concat (map block_tags (concat (map message_blocks (map finalizeAnthropicGroup gs))))
        = concat (map event_tags effective)" by simp
  show ?thesis
    by (rule that [OF m spec _ tags]) (use role finalize_group(2,3) typed ne in auto)
qed

section \<open>OpenAI\<close>

lemma fold_res_append:
  assumes "fold_res f s xs = Inr out"
    and "\<And>s x s'. x \<in> set xs \<Longrightarrow> f s x = Inr s' \<Longrightarrow> T s' = T s @ t x"
  shows "T out = T s @ concat (map t xs)"
  using assms
proof (induction xs arbitrary: s)
  case Nil
  then show ?case by simp
next
  case (Cons x xs)
  then obtain s' where s': "f s x = Inr s'" "fold_res f s' xs = Inr out" by (auto simp: bind_res_Inr_iff)
  have "T s' = T s @ t x" using Cons.prems(2) s'(1) by simp
  moreover have "T out = T s' @ concat (map t xs)" using Cons s'(2) by simp
  ultimately show ?case by simp
qed

definition openai_tags :: "payload \<Rightarrow> (string + string) list" where
  "openai_tags m =
     map (\<lambda>c. Inl (stringValue (pget c ''id''))) (asMapSlice (pget m ''tool_calls''))
     @ (if pget m ''role'' = VStr ''tool'' then [Inr (stringValue (pget m ''tool_call_id''))] else [])"

lemma openai_tags_message [simp]: "role \<noteq> ''tool'' \<Longrightarrow> openai_tags (oa_message role c) = []"
  by (simp add: openai_tags_def oa_message_def asMapSlice_def)

lemma openai_tags_result: "openai_tags (openai_result p) = [Inr (stringValue (pget p ''tool_use_id''))]"
  by (simp add: openai_tags_def openai_result_def asMapSlice_def Let_def)

lemma openai_tags_add_call:
  assumes "pget m ''role'' = VStr ''assistant''"
  shows "openai_tags (add_call c m) = openai_tags m @ [Inl (stringValue (pget c ''id''))]"
  using assms by (simp add: openai_tags_def add_call_def Let_def asMapSlice_def)

lemma openai_tags_append_call:
  "concat (map openai_tags (oa_append_call ms (openai_call p)))
     = concat (map openai_tags ms) @ [Inl (stringValue (pget p ''id''))]"
proof (cases "ms \<noteq> [] \<and> pget (List.last ms) ''role'' = VStr ''assistant''")
  case True
  then obtain ms' m where ms: "ms = ms' @ [m]" by (cases ms rule: rev_cases) auto
  with True show ?thesis
    by (simp add: oa_append_call_def openai_tags_add_call) (simp add: openai_call_def)
next
  case False
  then have "oa_append_call ms (openai_call p)
      = ms @ [[(''role'', VStr ''assistant''), (''content'', VNil), (''tool_calls'', VMaps [openai_call p])]]"
    by (auto simp: oa_append_call_def)
  then show ?thesis by (simp add: openai_tags_def asMapSlice_def) (simp add: openai_call_def)
qed

lemma oa_event_tags:
  assumes "oa_event p ms e = Inr ms'" and "carrier_free ''openai.chat_completions'' e"
  shows "concat (map openai_tags ms') = concat (map openai_tags ms) @ event_tags e"
  using assms unfolding oa_event_def Let_def carrier_free_def
  by (cases "ev_type e") (auto simp: bind_res_Inr_iff openai_tags_append_call openai_tags_result event_tags_def)

lemma OpenAIProjection_messages:
  assumes "OpenAIProjection_Project p es = Inr req" and "apply_mutations es = effective"
    and "\<forall>e \<in> set effective. carrier_free ''openai.chat_completions'' e"
  obtains ms where "pget req ''messages'' = VMaps ms"
    and "concat (map openai_tags ms) = concat (map event_tags effective)"
proof -
  let ?init = "if pj_System p \<noteq> [] then [oa_message ''system'' (VStr (pj_System p))] else []"
  obtain ms where f: "fold_res (oa_event p) ?init effective = Inr ms"
    and m: "pget req ''messages'' = VMaps ms"
    using assms(1,2) unfolding OpenAIProjection_Project_def bind_res_Inr_iff by auto
  have "concat (map openai_tags ms) = concat (map openai_tags ?init) @ concat (map event_tags effective)"
    by (rule fold_res_append [OF f]) (use assms(3) oa_event_tags in blast)
  then show ?thesis using that [OF m] by simp
qed

section \<open>Gemini\<close>

text \<open>Gemini has no identifiers: calls and responses are matched by the name of the function.\<close>

definition part_tags :: "payload \<Rightarrow> (string + string) list" where
  "part_tags m =
     (if phas m ''functionCall'' then [Inl (stringValue (pget (asMap (pget m ''functionCall'')) ''name''))]
      else if phas m ''functionResponse''
      then [Inr (stringValue (pget (asMap (pget m ''functionResponse'')) ''name''))] else [])"

definition content_tags :: "payload \<Rightarrow> (string + string) list" where
  "content_tags c = concat (map part_tags (asMapSlice (pget c ''parts'')))"

definition named_tags :: "(string \<times> string) list \<Rightarrow> event \<Rightarrow> (string + string) list" where
  "named_tags names e =
     (if is_use e then [Inl (ev_str e ''name'')]
      else if is_result e then [Inr (or_else (aget [] names (result_id e)) (result_id e))] else [])"

lemma gemini_block_no_tags:
  assumes "gemini_block p b = Inr (Some w)" and "providerPartWire b ''gemini.generateContent'' = None"
  shows "part_tags w = []"
  using assms
  by (auto simp: gemini_block_def Let_def bind_res_Inr_iff part_tags_def failed_text_def
      split: if_splits sum.splits option.splits)

lemma gemini_parts_no_tags:
  assumes "gemini_parts p (ev_payload e) = Inr ps" and "carrier_free ''gemini.generateContent'' e"
  shows "concat (map part_tags ps) = []"
proof -
  obtain os where os: "map_res (gemini_block p) (messageContentBlocks (ev_payload e)) = Inr os"
    and ps: "ps = List.map_filter id os"
    using assms(1) by (auto simp: gemini_parts_def bind_res_Inr_iff)
  have "part_tags w = []" if "w \<in> set ps" for w
  proof -
    have "Some w \<in> set os" using that ps by (auto simp: map_filter_def)
    then show ?thesis using map_res_set [OF os] assms(2) gemini_block_no_tags
      by (fastforce simp: carrier_free_def list_all_iff)
  qed
  then show ?thesis by simp
qed

lemma content_tags_content [simp]: "content_tags (gemini_content r ps) = concat (map part_tags ps)"
  by (simp add: content_tags_def gemini_content_def asMapSlice_def)

lemma part_tags_use: "part_tags (gemini_use p) = [Inl (stringValue (pget p ''name''))]"
  by (simp add: part_tags_def gemini_use_def)

lemma content_tags_append_part:
  "concat (map content_tags (ge_append_part cs part)) = concat (map content_tags cs) @ part_tags part"
proof (cases "cs \<noteq> [] \<and> pget (List.last cs) ''role'' = VStr ''model''")
  case True
  then obtain cs' c where "cs = cs' @ [c]" by (cases cs rule: rev_cases) auto
  with True show ?thesis by (simp add: ge_append_part_def content_tags_def asMapSlice_def)
next
  case False
  then show ?thesis by (auto simp: ge_append_part_def)
qed

lemma part_tags_result:
  "part_tags (gemini_result names p)
     = [Inr (or_else (aget [] names (stringValue (pget p ''tool_use_id''))) (stringValue (pget p ''tool_use_id'')))]"
  by (simp add: part_tags_def gemini_result_def Let_def)

lemma ge_event_tags:
  assumes "ge_event p names cs e = Inr cs'" and "carrier_free ''gemini.generateContent'' e"
  shows "concat (map content_tags cs') = concat (map content_tags cs) @ named_tags names e"
  using assms gemini_parts_no_tags [of p e] unfolding ge_event_def Let_def
  by (cases "ev_type e")
    (auto simp: bind_res_Inr_iff named_tags_def content_tags_append_part part_tags_use part_tags_result)

lemma use_names_snoc:
  "use_names (es @ [e]) = (if is_use e then AList.update (use_id e) (ev_str e ''name'') (use_names es) else use_names es)"
  by (simp add: use_names_def)

text \<open>The table maps an identifier to the name of its use.\<close>

lemma use_names_lookup:
  "distinct (map use_id (uses_of es)) \<Longrightarrow> u \<in> set (uses_of es) \<Longrightarrow> aget [] (use_names es) (use_id u) = ev_str u ''name''"
proof (induction es rule: rev_induct)
  case Nil
  then show ?case by simp
next
  case (snoc e es)
  show ?case
  proof (cases "is_use e \<and> use_id e = use_id u")
    case True
    then have "u = e" using snoc.prems by (auto simp: image_iff)
    with True show ?thesis by (simp add: use_names_snoc)
  next
    case False
    then have "u \<in> set (uses_of es)" "distinct (map use_id (uses_of es))"
      using snoc.prems by (auto split: if_splits)
    with snoc.IH False show ?thesis by (auto simp: use_names_snoc)
  qed
qed

lemma GeminiProjection_contents:
  assumes "GeminiProjection_Project p es = Inr req" and "apply_mutations es = effective"
    and "\<forall>e \<in> set effective. carrier_free ''gemini.generateContent'' e"
  obtains cs where "pget req ''contents'' = VMaps cs"
    and "concat (map content_tags cs) = concat (map (named_tags (use_names effective)) effective)"
proof -
  obtain cs where f: "fold_res (ge_event p (use_names effective)) [] effective = Inr cs"
    and m: "pget req ''contents'' = VMaps cs"
    using assms(1,2) by (auto simp: GeminiProjection_Project_def Let_def bind_res_Inr_iff)
  have "concat (map content_tags cs) = concat (map content_tags []) @ concat (map (named_tags (use_names effective)) effective)"
    by (rule fold_res_append [OF f]) (use assms(3) ge_event_tags in blast)
  then show ?thesis using that [OF m] by simp
qed

end
