(* ===== verification/IngestProps.thy ===== *)
theory IngestProps
  imports Ingestors ProjectionProps StepProps
begin

text \<open>
  The ingestors against the projections: what a provider said is what it is shown again in the
  next request, where that holds; the identifiers a Gemini ingestor makes up.
\<close>

section \<open>Closing an ingested step\<close>

lemma complete_step_staged:
  assumes "closeProviderStep events = Inr (turn, staged)" and "tn_reason turn = []"
  shows "staged = events"
proof -
  have shape: "step_shape events turn staged" using assms(1) by (rule closeProviderStep_shape)
  then have "staged = events @ (if tn_stopReason turn = ''tool_use'' then []
                        else map (incomplete_result (tn_stopReason turn)) (arg_uses events))"
    and "tn_reason turn = (if arg_uses events \<noteq> [] \<and> tn_stopReason turn \<noteq> ''tool_use''
        then RunReasonIncompleteToolBatch else [])"
    unfolding step_shape_def by blast+
  with assms(2) show ?thesis by (auto simp: RunReasonIncompleteToolBatch_def split: if_splits)
qed

lemma stage_ingested_Cons:
  "stage_ingested kind request (\<lparr>ea_type = EventAssistantMessage, ea_payload = m\<rparr> # us)
   = \<lparr>ea_type = EventAssistantMessage,
      ea_payload = normalizeAssistantPayload m kind
        (stringValue (firstNonEmptyAny [pget m ''model'', pget request ''model'']))\<rparr>
     # stage_ingested kind request us"
  by (simp add: stage_ingested_def)

lemma stage_ingested_uses:
  "\<forall>u \<in> set us. ea_type u = EventToolUse \<Longrightarrow> stage_ingested kind request us = us"
  by (simp add: stage_ingested_def map_idI)

section \<open>Anthropic\<close>

definition is_tool_block :: "val \<Rightarrow> bool" where
  "is_tool_block b \<longleftrightarrow> pget (asMap b) ''type'' = VStr ''tool_use''"

text \<open>A tool block with the four members the API gives it, and no others.\<close>

definition tool_block_ok :: "val \<Rightarrow> bool" where
  "tool_block_ok b \<longleftrightarrow> b = anthropic_use (ea_payload (an_use (asMap b)))"

lemma asMap_is_map: "as_map v \<noteq> None \<Longrightarrow> v = VMap (asMap v)"
  by (cases v) (auto simp: as_map_def)

lemma an_block_events:
  "as_map b \<noteq> None \<Longrightarrow>
   ai_events (an_block b st) = ai_events st @ (if is_tool_block b then [an_use (asMap b)] else [])"
  by (cases b) (auto simp: as_map_def an_block_def is_tool_block_def an_thinking_def Let_def)

lemma an_scan_events_from:
  "list_all (\<lambda>b. as_map b \<noteq> None) content \<Longrightarrow>
   ai_events (fold an_block content st) = ai_events st @ map (\<lambda>b. an_use (asMap b)) (filter is_tool_block content)"
proof (induction content arbitrary: st)
  case Nil
  then show ?case by simp
next
  case (Cons b content)
  then show ?case by (cases "is_tool_block b") (auto simp: an_block_events)
qed

lemma an_scan_events:
  "list_all (\<lambda>b. as_map b \<noteq> None) content \<Longrightarrow>
   ai_events (an_scan content) = map (\<lambda>b. an_use (asMap b)) (filter is_tool_block content)"
  by (simp add: an_scan_def an_scan_events_from)

text \<open>A carrier is made only for a thinking block, which is then carried.\<close>

lemma an_scan_carrier_from:
  "ai_carrier (fold an_block content st) \<Longrightarrow>
   ai_carrier st \<or> (\<exists>b \<in> set content. pget (asMap b) ''type'' = VStr ''thinking'')"
proof (induction content arbitrary: st)
  case Nil
  then show ?case by simp
next
  case (Cons b content)
  then have "ai_carrier (an_block b st) \<or> (\<exists>b \<in> set content. pget (asMap b) ''type'' = VStr ''thinking'')"
    by simp
  moreover have "ai_carrier (an_block b st) \<Longrightarrow> ai_carrier st \<or> pget (asMap b) ''type'' = VStr ''thinking''"
    by (auto simp: an_block_def split: val.splits if_splits)
  ultimately show ?case by auto
qed

lemma an_scan_carried:
  assumes "ai_carrier (an_scan content)"
  shows "\<exists>b \<in> set (anthropicCarrierContent content). pget (asMap b) ''type'' = VStr ''thinking''"
proof -
  have "\<exists>b \<in> set content. pget (asMap b) ''type'' = VStr ''thinking''"
    using an_scan_carrier_from [of content "\<lparr>ai_text = [], ai_reasoning = [], ai_events = [], ai_carrier = False\<rparr>"]
      assms by (simp add: an_scan_def)
  then show ?thesis by (auto simp: anthropicCarrierContent_def)
qed

lemma pget_append: "pget (xs @ ys) k = (if phas xs k then pget xs k else pget ys k)"
  by (induction xs) (auto simp: pget_Cons)

text \<open>What the projection makes of the staged step.\<close>

lemma anthropic_step_labels:
  assumes "pget response ''content'' = VList content" and "list_all (\<lambda>b. as_map b \<noteq> None) content"
    and "list_all tool_block_ok (filter is_tool_block content)" and "ai_carrier (an_scan content)"
    and "map args_of step = stage_ingested kind request (AnthropicIngestor_Ingest response)"
  shows "concat (map (an_labels p) step)
      = map (Pair ''assistant'') (anthropicCarrierContent content @ filter is_tool_block content)"
    and "\<forall>e \<in> set step. is_ok (an_translate p e)"
proof -
  let ?us = "map (\<lambda>b. an_use (asMap b)) (filter is_tool_block content)"
  have ne: "anthropicCarrierContent content \<noteq> []" using an_scan_carried [OF assms(4)] by auto
  obtain m where ing: "AnthropicIngestor_Ingest response = \<lparr>ea_type = EventAssistantMessage, ea_payload = m\<rparr> # ?us"
    and items: "pget m ''provider_items'' = VList [VMap (providerCarrier ''anthropic.messages'' 0 ''anthropic.content''
        (VList (anthropicCarrierContent content))
        (''payload.reasoning[0]'' # (if ai_text (an_scan content) \<noteq> [] then [''payload.content[0]''] else [])))]"
    by (rule that) (auto simp: AnthropicIngestor_Ingest_def Let_def an_scan_events [OF assms(2)] an_carrier_def
        assms(1,4) ne pget_append)
  have us: "\<forall>u \<in> set ?us. ea_type u = EventToolUse" by (simp add: an_use_def)
  obtain e es where step: "step = e # es" "args_of e = \<lparr>ea_type = EventAssistantMessage,
        ea_payload = normalizeAssistantPayload m kind
          (stringValue (firstNonEmptyAny [pget m ''model'', pget request ''model'']))\<rparr>" "map args_of es = ?us"
    using assms(5) unfolding ing stage_ingested_Cons stage_ingested_uses [OF us] by auto
  have e: "ev_type e = EventAssistantMessage"
    "pget (ev_payload e) ''provider_items'' = pget m ''provider_items''"
    using step(2) by (auto simp: args_of_def normalizeAssistantPayload_other)
  have msg: "an_translate p e = Inr (''assistant'', anthropicCarrierContent content)"
    using e items by (simp add: an_translate_def providerCarrierWires_def)
  have use: "an_translate p u = Inr (''assistant'', [b])"
    if u: "args_of u = an_use (asMap b)" and b: "tool_block_ok b" for u b
  proof -
    have "ev_type u = EventToolUse" "ev_payload u = ea_payload (an_use (asMap b))"
      using arg_cong [OF u, of ea_type] arg_cong [OF u, of ea_payload] by (simp_all add: an_use_def)
    with b show ?thesis by (simp add: an_translate_def tool_block_ok_def)
  qed
  have rest: "concat (map (an_labels p) es) = map (Pair ''assistant'') bs \<and> (\<forall>e \<in> set es. is_ok (an_translate p e))"
    if "map args_of es = map (\<lambda>b. an_use (asMap b)) bs" "list_all tool_block_ok bs" for es bs
    using that
  proof (induction bs arbitrary: es)
    case Nil
    then show ?case by simp
  next
    case (Cons b bs)
    then obtain u us' where "es = u # us'" "args_of u = an_use (asMap b)"
      "map args_of us' = map (\<lambda>b. an_use (asMap b)) bs" by auto
    with Cons show ?case by (simp add: use an_labels_def)
  qed
  show "concat (map (an_labels p) step)
      = map (Pair ''assistant'') (anthropicCarrierContent content @ filter is_tool_block content)"
    using rest [OF step(3) assms(3)] by (simp add: step(1) an_labels_def msg)
  show "\<forall>e \<in> set step. is_ok (an_translate p e)"
    using rest [OF step(3) assms(3)] by (simp add: step(1) msg)
qed

text \<open>One event leads from a state of the loop to the next, or to the error.\<close>

lemma an_groups_step:
  assumes "an_translate p e = Inr rb" and "cur = None \<Longrightarrow> gs = []"
  obtains gs' cur' where "\<And>zs. an_groups p gs cur (e # zs) = an_groups p gs' cur' zs"
    and "cur' = None \<Longrightarrow> gs' = []"
proof -
  obtain role blocks where rb: "rb = (role, blocks)" by (cases rb)
  consider "role = [] \<or> blocks = []" | "role \<noteq> []" "blocks \<noteq> []" "cur = None"
    | r bs where "role \<noteq> []" "blocks \<noteq> []" "cur = Some (r, bs)" by (cases cur) auto
  then show thesis
  proof cases
    case 1
    then show thesis by (intro that [of gs cur]) (use assms rb in auto)
  next
    case 2
    then show thesis by (intro that [of gs "Some (role, blocks)"]) (use assms rb in auto)
  next
    case 3
    show thesis
    proof (cases "r = role")
      case True
      then show thesis by (intro that [of gs "Some (r, bs @ blocks)"]) (use 3 assms rb in auto)
    next
      case False
      then show thesis by (intro that [of "gs @ [(r, bs)]" "Some (role, blocks)"]) (use 3 assms rb in auto)
    qed
  qed
qed

text \<open>Adding to the end of the stream goes on with the last group.\<close>

lemma an_groups_append:
  assumes "an_groups p gs cur xs = Inr out" and "cur = None \<Longrightarrow> gs = []"
  shows "an_groups p gs cur (xs @ ys)
    = (if out = [] then an_groups p [] None ys else an_groups p (butlast out) (Some (List.last out)) ys)"
  using assms
proof (induction xs arbitrary: gs cur)
  case Nil
  then show ?case by (cases cur) auto
next
  case (Cons e es)
  obtain rb where t: "an_translate p e = Inr rb" using Cons.prems(1) by (cases "an_translate p e") auto
  obtain gs' cur' where st: "\<And>zs. an_groups p gs cur (e # zs) = an_groups p gs' cur' zs" "cur' = None \<Longrightarrow> gs' = []"
    using an_groups_step [OF t Cons.prems(2)] by blast
  show ?case using Cons.IH [of gs' cur'] Cons.prems(1) st by simp
qed

text \<open>A stretch of events of one role joins the open group of that role, or is a new group.\<close>

lemma pair_map_eq: "map (Pair q) xs = map (Pair r) ys \<Longrightarrow> xs \<noteq> [] \<Longrightarrow> q = r \<and> ys = xs"
proof -
  assume eq: "map (Pair q) xs = map (Pair r) ys" and ne: "xs \<noteq> []"
  have "map snd (map (Pair q) xs) = map snd (map (Pair r) ys)" "map fst (map (Pair q) xs) = map fst (map (Pair r) ys)"
    using eq by simp_all
  then show "q = r \<and> ys = xs" using ne by (cases xs) (auto simp: comp_def)
qed

lemma an_groups_stretch:
  assumes "\<forall>e \<in> set es. is_ok (an_translate p e)" and "concat (map (an_labels p) es) = map (Pair r) bs"
  shows "an_groups p gs (Some (r, cs)) es = Inr (gs @ [(r, cs @ bs)])"
    and "q \<noteq> r \<Longrightarrow> an_groups p gs (Some (q, cs)) es = Inr (gs @ (q, cs) # (if bs = [] then [] else [(r, bs)]))"
    and "an_groups p [] None es = Inr (if bs = [] then [] else [(r, bs)])"
proof -
  have "an_groups p gs (Some (r, cs)) es = Inr (gs @ [(r, cs @ bs)]) \<and>
      (q \<noteq> r \<longrightarrow> an_groups p gs (Some (q, cs)) es = Inr (gs @ (q, cs) # (if bs = [] then [] else [(r, bs)]))) \<and>
      an_groups p [] None es = Inr (if bs = [] then [] else [(r, bs)])" for q gs cs
    using assms
  proof (induction es arbitrary: bs q gs cs)
    case Nil
    then show ?case by simp
  next
    case (Cons e es)
    obtain role blocks where t: "an_translate p e = Inr (role, blocks)"
      using Cons.prems(1) by (cases "an_translate p e") auto
    obtain b1 b2 where b: "bs = b1 @ b2" "an_labels p e = map (Pair r) b1"
      "concat (map (an_labels p) es) = map (Pair r) b2"
      using Cons.prems(2) by (auto simp: append_eq_map_conv)
    note ih = Cons.IH [OF _ b(3)]
    show ?case
    proof (cases "role = [] \<or> blocks = []")
      case True
      then have "b1 = []" using b(2) t by (auto simp: an_labels_def split: if_splits)
      with True t b ih Cons.prems(1) show ?thesis by auto
    next
      case False
      then have eq: "map (Pair role) blocks = map (Pair r) b1" using b(2) t by (simp add: an_labels_def)
      have ne': "role \<noteq> []" "blocks \<noteq> []" using False by simp_all
      have rb: "role = r" "b1 = blocks" using pair_map_eq [OF eq ne'(2)] by simp_all
      have t: "an_translate p e = Inr (r, b1)" and ne: "r \<noteq> []" "b1 \<noteq> []" using t ne' unfolding rb by simp_all
      have ok: "\<forall>e \<in> set es. is_ok (an_translate p e)" using Cons.prems(1) by simp
      have "an_groups p gs (Some (r, cs)) (e # es) = Inr (gs @ [(r, cs @ bs)])"
        using ih [OF ok, of gs "cs @ b1"] t ne b(1) by simp
      moreover have "an_groups p gs (Some (q, cs)) (e # es) = Inr (gs @ [(q, cs), (r, bs)])" if "q \<noteq> r"
        using ih [OF ok, of "gs @ [(q, cs)]" b1] t ne b(1) that by simp
      moreover have "an_groups p [] None (e # es) = Inr [(r, bs)]"
        using ih [OF ok, of "[]" b1] t ne b(1) by simp
      ultimately show ?thesis using ne b(1) by simp
    qed
  qed
  then show "an_groups p gs (Some (r, cs)) es = Inr (gs @ [(r, cs @ bs)])"
    "q \<noteq> r \<Longrightarrow> an_groups p gs (Some (q, cs)) es = Inr (gs @ (q, cs) # (if bs = [] then [] else [(r, bs)]))"
    "an_groups p [] None es = Inr (if bs = [] then [] else [(r, bs)])" by blast+
qed

text \<open>The whole request: a step of the assistant after a log that ends with the user's turn.\<close>

lemma anthropic_step_appends:
  assumes "AnthropicProjection_Project p es = Inr req"
    and "apply_mutations (es @ step) = apply_mutations es @ step"
    and "pget req ''messages'' = VMaps ms"
    and "ms = [] \<or> pget (List.last ms) ''role'' \<noteq> VStr r"
    and "\<forall>e \<in> set step. is_ok (an_translate p e)" and "concat (map (an_labels p) step) = map (Pair r) bs"
    and "bs \<noteq> []"
  shows "\<exists>req'. AnthropicProjection_Project p (es @ step) = Inr req' \<and>
    pget req' ''messages'' = VMaps (ms @ [finalizeAnthropicGroup (r, bs)])"
proof -
  obtain gs where gs: "an_groups p [] None (apply_mutations es) = Inr gs" and ms: "ms = map finalizeAnthropicGroup gs"
    using assms(1,3) by (auto simp: AnthropicProjection_Project_def bind_res_Inr_iff)
  have "an_groups p [] None (apply_mutations es @ step) = Inr (gs @ [(r, bs)])"
  proof (cases "gs = []")
    case True
    then show ?thesis using an_groups_append [OF gs] an_groups_stretch(3) [OF assms(5,6)] assms(7) by simp
  next
    case False
    obtain gs' q cs where g: "gs = gs' @ [(q, cs)]" using False by (metis prod.exhaust rev_exhaust)
    have "pget (finalizeAnthropicGroup (q, cs)) ''role'' = VStr q"
      by (auto simp: finalizeAnthropicGroup_def split: list.splits)
    then have "q \<noteq> r" using assms(4) ms g by auto
    then show ?thesis
      using an_groups_append [OF gs] an_groups_stretch(2) [OF assms(5,6), of q gs' cs] assms(7) g by simp
  qed
  then show ?thesis using assms(2) ms by (simp add: AnthropicProjection_Project_def)
qed

section \<open>OpenAI\<close>

text \<open>The wire message a carrier holds is shown with its own calls; the uses of the step are
  then added to it once more.\<close>

lemma keep_maps_all: "list_all (\<lambda>b. as_map b \<noteq> None) vs \<Longrightarrow> keep_maps vs = map asMap vs"
proof (induction vs)
  case Nil
  then show ?case by simp
next
  case (Cons v vs)
  then show ?case by (cases v) (auto simp: as_map_def)
qed

lemma oa_uses_added:
  assumes "map args_of es = map oa_use calls" and "pget m ''role'' = VStr ''assistant''"
  shows "\<exists>m'. fold_res (oa_event p) (ms @ [m]) es = Inr (ms @ [m']) \<and> pget m' ''role'' = VStr ''assistant'' \<and>
    openai_tags m' = openai_tags m @ map (\<lambda>c. Inl (stringValue (pget (asMap c) ''id''))) calls"
  using assms
proof (induction calls arbitrary: es m)
  case Nil
  then show ?case by simp
next
  case (Cons c calls)
  then obtain e es' where e: "es = e # es'" "args_of e = oa_use c" "map args_of es' = map oa_use calls" by auto
  have ty: "ev_type e = EventToolUse" and pl: "ev_payload e = ea_payload (oa_use c)"
    using arg_cong [OF e(2), of ea_type] arg_cong [OF e(2), of ea_payload] by (simp_all add: oa_use_def Let_def)
  let ?m = "add_call (openai_call (ev_payload e)) m"
  have role: "pget ?m ''role'' = VStr ''assistant''" using Cons.prems(2) by (simp add: add_call_def Let_def)
  have tags: "openai_tags ?m = openai_tags m @ [Inl (stringValue (pget (asMap c) ''id''))]"
    using openai_tags_add_call [OF Cons.prems(2)] pl by (simp add: openai_call_def oa_use_def Let_def)
  have "oa_event p (ms @ [m]) e = Inr (ms @ [?m])"
    using ty Cons.prems(2) by (simp add: oa_event_def oa_append_call_def)
  with Cons.IH [OF e(3) role] tags show ?case by (auto simp: e(1))
qed

text \<open>A call whose identifier was used before is not answered properly, whatever follows.\<close>

lemma answered_fresh:
  "x \<in> set pending \<union> set settled \<Longrightarrow> Inl x \<in> set ts \<Longrightarrow> \<not> answered pending settled ts"
  by (induction pending settled ts rule: answered.induct) auto

lemma not_answered_twice: "Inl x \<in> set ts \<Longrightarrow> \<not> answered pending settled (Inl x # ts)"
  using answered_fresh [of x "x # pending" settled ts] by simp

lemma fold_res_app: "fold_res f s (xs @ ys) = bind_res (fold_res f s xs) (\<lambda>s'. fold_res f s' ys)"
proof (induction xs arbitrary: s)
  case Nil
  then show ?case by simp
next
  case (Cons x xs)
  then show ?case by (cases "f s x") auto
qed

section \<open>Gemini\<close>

text \<open>Responses ingested one after the other by one ingestor.\<close>

fun gemini_ingest_all :: "payload list \<Rightarrow> gemini_ingestor \<Rightarrow> event_args list" where
  "gemini_ingest_all [] g = []"
| "gemini_ingest_all (r # rs) g =
     fst (GeminiIngestor_Ingest r g) @ gemini_ingest_all rs (snd (GeminiIngestor_Ingest r g))"

text \<open>The number at the end of an identifier, read from the back.\<close>

definition id_number :: "string \<Rightarrow> string" where
  "id_number s = rev (takeWhile (\<lambda>c. c \<noteq> CHR ''.'') (rev s))"

lemma show_int_no_dot: "CHR ''.'' \<notin> set (show_int n)"
proof -
  have "CHR ''.'' \<notin> set (show_nat k)" for k
    using show_nat_digits [of "CHR ''.''" k] by (auto simp: is_digit_def)
  then show ?thesis by (auto simp: show_int_def)
qed

lemma id_number_call: "id_number (gemini_call_id name n) = show_int n"
proof -
  have "\<forall>c \<in> set (rev (show_int n)). c \<noteq> CHR ''.''" using show_int_no_dot by auto
  then have "takeWhile (\<lambda>c. c \<noteq> CHR ''.'') (rev (show_int n) @ CHR ''.'' # rev (''gemini.'' @ name)) = rev (show_int n)"
    by (subst takeWhile_append2) auto
  then show ?thesis by (simp add: id_number_def gemini_call_id_def)
qed

lemma show_int_inject: "0 \<le> m \<Longrightarrow> 0 \<le> n \<Longrightarrow> show_int m = show_int n \<longleftrightarrow> m = n"
  by (auto simp: show_int_def show_nat_inject)

text \<open>The uses of a response carry the counter's values in turn.\<close>

lemma ge_parts_counter:
  "\<exists>us. gs_events (fold ge_ingest_part parts st) = gs_events st @ us \<and>
     gs_counter (fold ge_ingest_part parts st) = gs_counter st + int (length us) \<and>
     (\<forall>u \<in> set us. ea_type u = EventToolUse) \<and>
     (\<forall>i < length us. ea_str (us ! i) ''id'' = gemini_call_id (ea_str (us ! i) ''name'') (gs_counter st + int i))"
proof (induction parts arbitrary: st)
  case Nil
  show ?case by simp
next
  case (Cons raw parts)
  let ?st = "ge_ingest_part raw st"
  obtain us where us: "gs_events (fold ge_ingest_part parts ?st) = gs_events ?st @ us"
    "gs_counter (fold ge_ingest_part parts ?st) = gs_counter ?st + int (length us)"
    "\<forall>u \<in> set us. ea_type u = EventToolUse"
    "\<forall>i < length us. ea_str (us ! i) ''id'' = gemini_call_id (ea_str (us ! i) ''name'') (gs_counter ?st + int i)"
    using Cons by blast
  show ?case
  proof (cases "phas (asMap raw) ''functionCall''")
    case False
    then have "gs_events ?st = gs_events st" "gs_counter ?st = gs_counter st"
      by (simp_all add: ge_ingest_part_def Let_def)
    with us show ?thesis by auto
  next
    case True
    let ?u = "ge_use (asMap (pget (asMap raw) ''functionCall'')) (gs_counter st)"
    have st: "gs_events ?st = gs_events st @ [?u]" "gs_counter ?st = gs_counter st + 1"
      using True by (simp_all add: ge_ingest_part_def Let_def)
    have u: "ea_type ?u = EventToolUse" "ea_str ?u ''id'' = gemini_call_id (ea_str ?u ''name'') (gs_counter st)"
      by (simp_all add: ge_use_def Let_def)
    have "ea_str ((?u # us) ! i) ''id'' = gemini_call_id (ea_str ((?u # us) ! i) ''name'') (gs_counter st + int i)"
      if "i < length (?u # us)" for i
      using that us(4) st(2) u(2) by (cases i) (auto simp: add.commute add.left_commute)
    with us(1-3) st u(1) show ?thesis by (intro exI [of _ "?u # us"]) simp
  qed
qed

lemma GeminiIngestor_uses:
  "\<exists>us. fst (GeminiIngestor_Ingest r g) = hd (fst (GeminiIngestor_Ingest r g)) # us \<and>
     ea_type (hd (fst (GeminiIngestor_Ingest r g))) = EventAssistantMessage \<and>
     (\<forall>u \<in> set us. ea_type u = EventToolUse) \<and>
     gi_counter (snd (GeminiIngestor_Ingest r g)) = gi_counter g + int (length us) \<and>
     (\<forall>i < length us. ea_str (us ! i) ''id'' = gemini_call_id (ea_str (us ! i) ''name'') (gi_counter g + int i))"
  using ge_parts_counter [of "asSlice (pget (asMap (pget (firstMap (pget r ''candidates'')) ''content'')) ''parts'')"
      "\<lparr>gs_text = [], gs_reasoning = [], gs_events = [], gs_counter = gi_counter g\<rparr>"]
  by (auto simp: GeminiIngestor_Ingest_def Let_def)

lemma gemini_first_id:
  assumes "arg_uses (fst (GeminiIngestor_Ingest r g)) = u # us"
  shows "ea_type u = EventToolUse \<and> ea_str u ''id'' = gemini_call_id (ea_str u ''name'') (gi_counter g)"
proof -
  obtain vs where vs: "fst (GeminiIngestor_Ingest r g) = hd (fst (GeminiIngestor_Ingest r g)) # vs"
    "ea_type (hd (fst (GeminiIngestor_Ingest r g))) = EventAssistantMessage" "\<forall>v \<in> set vs. ea_type v = EventToolUse"
    "\<forall>i < length vs. ea_str (vs ! i) ''id'' = gemini_call_id (ea_str (vs ! i) ''name'') (gi_counter g + int i)"
    using GeminiIngestor_uses [of r g] by blast
  have "arg_uses (fst (GeminiIngestor_Ingest r g)) = vs"
    by (subst vs(1)) (use vs(2,3) in \<open>simp add: filter_id_conv\<close>)
  with assms vs(3,4) show ?thesis by auto
qed

lemma gemini_numbers:
  "\<exists>n. map (\<lambda>u. id_number (ea_str u ''id'')) (arg_uses (gemini_ingest_all rs g))
     = map (\<lambda>i. show_int (gi_counter g + int i)) [0..<n]"
proof (induction rs arbitrary: g)
  case Nil
  show ?case by (intro exI [of _ 0]) simp
next
  case (Cons r rs)
  obtain us where us: "fst (GeminiIngestor_Ingest r g) = hd (fst (GeminiIngestor_Ingest r g)) # us"
    "ea_type (hd (fst (GeminiIngestor_Ingest r g))) = EventAssistantMessage" "\<forall>u \<in> set us. ea_type u = EventToolUse"
    "gi_counter (snd (GeminiIngestor_Ingest r g)) = gi_counter g + int (length us)"
    "\<forall>i < length us. ea_str (us ! i) ''id'' = gemini_call_id (ea_str (us ! i) ''name'') (gi_counter g + int i)"
    using GeminiIngestor_uses [of r g] by blast
  have nums: "map (\<lambda>u. id_number (ea_str u ''id'')) us = map (\<lambda>i. show_int (gi_counter g + int i)) [0..<length us]"
    by (rule nth_equalityI) (use us(5) in \<open>simp_all add: id_number_call\<close>)
  have au: "arg_uses (fst (GeminiIngestor_Ingest r g)) = us"
    by (subst us(1)) (use us(2,3) in \<open>simp add: filter_id_conv\<close>)
  obtain n where n: "map (\<lambda>u. id_number (ea_str u ''id'')) (arg_uses (gemini_ingest_all rs (snd (GeminiIngestor_Ingest r g))))
     = map (\<lambda>i. show_int (gi_counter g + int (length us) + int i)) [0..<n]"
    using Cons [of "snd (GeminiIngestor_Ingest r g)"] us(4) by auto
  have "map (\<lambda>i. show_int (gi_counter g + int i)) [0..<length us + n]
      = map (\<lambda>i. show_int (gi_counter g + int i)) [0..<length us]
        @ map (\<lambda>i. show_int (gi_counter g + int (length us) + int i)) [0..<n]"
    by (induction n) (simp_all add: add.assoc)
  then show ?case using nums n au by (intro exI [of _ "length us + n"]) simp
qed

lemma gemini_ids_distinct:
  assumes "0 \<le> gi_counter g"
  shows "distinct (map (\<lambda>u. ea_str u ''id'') (arg_uses (gemini_ingest_all rs g)))"
proof -
  obtain n where "map id_number (map (\<lambda>u. ea_str u ''id'') (arg_uses (gemini_ingest_all rs g)))
     = map (\<lambda>i. show_int (gi_counter g + int i)) [0..<n]"
    using gemini_numbers [of rs g] by (auto simp: comp_def)
  moreover have "distinct (map (\<lambda>i. show_int (gi_counter g + int i)) [0..<n])"
    using assms by (auto simp: distinct_map inj_on_def show_int_inject)
  ultimately have "distinct (map id_number (map (\<lambda>u. ea_str u ''id'') (arg_uses (gemini_ingest_all rs g))))"
    by simp
  then show ?thesis by (metis distinct_map)
qed

end
