(* ===== verification/Attachments.thy ===== *)
theory Attachments
  imports Contents Mutations
begin

text \<open>
  \<^verbatim>\<open>attachments.go\<close>: the content-addressed stores (in memory, in a directory, and inline) and the
  references of a log.  The directory is an association list from file names to contents; its
  faults are parameters.  \<^verbatim>\<open>filepath.Glob\<close> with a pattern in the last component is the matching
  of \<^verbatim>\<open>filepath.Match\<close> against the names in their order; the root is taken to hold no
  metacharacter.  The digest is a parameter.
\<close>

section \<open>filepath.Match on one component\<close>

datatype glob_token = GStar | GAny | GClass bool "(nat \<times> nat) list" | GLit char

text \<open>A class after its bracket: ranges of runes up to the closing bracket, at least one.  The
  patterns here are read byte by byte, which is Go's reading for ASCII.\<close>

definition glob_char :: "string \<Rightarrow> (nat \<times> string) option" where
  "glob_char p =
     (case p of [] \<Rightarrow> None
      | c # r \<Rightarrow>
          if c = CHR ''-'' \<or> c = CHR '']'' then None
          else if c = CHR 0x5C then (case r of [] \<Rightarrow> None | d # r' \<Rightarrow> if r' = [] then None else Some (byte d, r'))
          else if r = [] then None else Some (byte c, r))"

lemma glob_char_length: "glob_char p = Some (n, r) \<Longrightarrow> length r < length p"
  by (auto simp: glob_char_def split: list.splits if_splits)

function glob_ranges :: "nat \<Rightarrow> string \<Rightarrow> ((nat \<times> nat) list \<times> string) option" where
  "glob_ranges n p =
     (case p of [] \<Rightarrow> None
      | c # r \<Rightarrow>
          if c = CHR '']'' \<and> 0 < n then Some ([], r)
          else (case glob_char p of None \<Rightarrow> None
                | Some (lo, q) \<Rightarrow>
                    (case q of
                       d # q' \<Rightarrow>
                         if d = CHR ''-''
                         then (case glob_char q' of None \<Rightarrow> None
                               | Some (hi, t) \<Rightarrow> map_option (\<lambda>(rs, u). ((lo, hi) # rs, u)) (glob_ranges (Suc n) t))
                         else map_option (\<lambda>(rs, u). ((lo, lo) # rs, u)) (glob_ranges (Suc n) q)
                     | [] \<Rightarrow> None)))"
  by pat_completeness auto
termination
  by (relation "measure (length \<circ> snd)") (auto dest!: glob_char_length)

declare glob_ranges.simps [simp del]

lemma glob_ranges_length: "glob_ranges n p = Some (rs, r) \<Longrightarrow> length r < length p"
proof (induction p arbitrary: n rs r rule: length_induct)
  case (1 p)
  have shorter: "length r < length p" if "glob_ranges m q = Some (ss, r)" "length q < length p" for m q ss
    using 1(1) that less_trans by blast
  from 1(2) show ?case
    by (subst (asm) glob_ranges.simps)
      (auto split: list.splits if_splits option.splits dest!: glob_char_length, (drule shorter; simp)+)
qed

text \<open>\<open>None\<close> is \<^verbatim>\<open>ErrBadPattern\<close>.\<close>

function glob_parse :: "string \<Rightarrow> glob_token list option" where
  "glob_parse p =
     (case p of [] \<Rightarrow> Some []
      | c # r \<Rightarrow>
          if c = CHR ''*'' then map_option (Cons GStar) (glob_parse r)
          else if c = CHR ''?'' then map_option (Cons GAny) (glob_parse r)
          else if c = CHR ''[''
          then (let neg = (r \<noteq> [] \<and> hd r = CHR ''^''); s = (if neg then tl r else r)
                in case glob_ranges 0 s of None \<Rightarrow> None
                   | Some (rs, t) \<Rightarrow> map_option (Cons (GClass neg rs)) (glob_parse t))
          else if c = CHR 0x5C
          then (case r of [] \<Rightarrow> None | d # s \<Rightarrow> map_option (Cons (GLit d)) (glob_parse s))
          else map_option (Cons (GLit c)) (glob_parse r))"
  by pat_completeness auto
termination
  by (relation "measure length") (auto dest!: glob_ranges_length split: if_splits)

declare glob_parse.simps [simp del]

fun glob_match :: "glob_token list \<Rightarrow> string \<Rightarrow> bool" where
  "glob_match [] s \<longleftrightarrow> s = []"
| "glob_match (GStar # ts) [] \<longleftrightarrow> glob_match ts []"
| "glob_match (GStar # ts) (c # s) \<longleftrightarrow> glob_match ts (c # s) \<or> (c \<noteq> CHR ''/'' \<and> glob_match (GStar # ts) s)"
| "glob_match (GAny # ts) s \<longleftrightarrow> (case s of [] \<Rightarrow> False | c # r \<Rightarrow> c \<noteq> CHR ''/'' \<and> glob_match ts r)"
| "glob_match (GClass neg rs # ts) s \<longleftrightarrow>
     (case s of [] \<Rightarrow> False
      | c # r \<Rightarrow> (list_ex (\<lambda>(lo, hi). lo \<le> byte c \<and> byte c \<le> hi) rs \<noteq> neg) \<and> glob_match ts r)"
| "glob_match (GLit d # ts) s \<longleftrightarrow> (case s of [] \<Rightarrow> False | c # r \<Rightarrow> c = d \<and> glob_match ts r)"

text \<open>Text without metacharacters matches itself.\<close>

definition glob_plain :: "string \<Rightarrow> bool" where
  "glob_plain s \<longleftrightarrow> list_all (\<lambda>c. c \<notin> {CHR ''*'', CHR ''?'', CHR ''['', CHR 0x5C}) s"

lemma glob_parse_plain: "glob_plain s \<Longrightarrow> glob_parse (s @ p) = map_option (\<lambda>ts. map GLit s @ ts) (glob_parse p)"
proof (induction s)
  case Nil
  then show ?case by (cases "glob_parse p") auto
next
  case (Cons c s)
  then show ?case
    by (subst glob_parse.simps) (cases "glob_parse p", auto simp: glob_plain_def)
qed

lemma glob_match_lits: "glob_match (map GLit s @ ts) n \<longleftrightarrow> has_prefix n s \<and> glob_match ts (drop (length s) n)"
proof (induction s arbitrary: n)
  case Nil
  then show ?case by (simp add: has_prefix_def)
next
  case (Cons c s)
  then show ?case by (cases n) (auto simp: has_prefix_def)
qed

lemma glob_match_star: "CHR ''/'' \<notin> set n \<Longrightarrow> glob_match [GStar] n"
  by (induction n) auto

section \<open>References\<close>

record attachment_reference =
  ar_URI :: string
  ar_MediaType :: string
  ar_ByteSize :: int
  ar_SHA256 :: string
  ar_Source :: payload

definition attachment_scheme :: string where "attachment_scheme = ''attachment://''"

definition refAttachment :: "string \<Rightarrow> string \<Rightarrow> int \<Rightarrow> string \<Rightarrow> attachment_reference" where
  "refAttachment aid mediaType byteSize digest =
     (let uri = attachment_scheme @ aid
      in \<lparr>ar_URI = uri, ar_MediaType = mediaType, ar_ByteSize = byteSize, ar_SHA256 = digest,
          ar_Source = [(''kind'', VStr ''ref''), (''uri'', VStr uri)]\<rparr>)"

definition attachmentID :: "string \<Rightarrow> string + string" where
  "attachmentID uri =
     (let aid = trim_prefix uri attachment_scheme
      in if aid = uri \<or> aid = [] \<or> str_contains aid ''/'' then Inl (''invalid attachment uri: '' @ uri) else Inr aid)"

definition attachmentExt :: "string \<Rightarrow> string" where
  "attachmentExt mediaType =
     (if mediaType = ''image/jpeg'' then ''.jpg'' else if mediaType = ''image/png'' then ''.png''
      else if mediaType = ''image/gif'' then ''.gif'' else if mediaType = ''image/webp'' then ''.webp''
      else if mediaType = ''application/pdf'' then ''.pdf'' else ''.bin'')"

definition mediaTypeForExt :: "string \<Rightarrow> string" where
  "mediaTypeForExt ext =
     (if ext = ''.jpg'' \<or> ext = ''.jpeg'' then ''image/jpeg'' else if ext = ''.png'' then ''image/png''
      else if ext = ''.gif'' then ''image/gif'' else if ext = ''.webp'' then ''image/webp''
      else if ext = ''.pdf'' then ''application/pdf'' else ''application/octet-stream'')"

definition ErrNotExist :: string where "ErrNotExist = ''file does not exist''"

section \<open>The memory store\<close>

type_synonym memory_store = "(string \<times> (string \<times> string)) list"

definition NewMemoryStore :: memory_store where "NewMemoryStore = []"

definition ms_Put ::
    "(string \<Rightarrow> string) \<Rightarrow> string \<Rightarrow> string \<Rightarrow> memory_store \<Rightarrow> (string + attachment_reference) \<times> memory_store" where
  "ms_Put sha256 data mediaType s =
     (let digest = sha256 data
      in (Inr (refAttachment digest mediaType (int (length data)) digest),
          AList.update (attachment_scheme @ digest) (data, mediaType) s))"

definition ms_Get :: "string \<Rightarrow> memory_store \<Rightarrow> string + string \<times> string" where
  "ms_Get uri s = (case map_of s uri of None \<Rightarrow> Inl ErrNotExist | Some item \<Rightarrow> Inr item)"

definition ms_Delete :: "string \<Rightarrow> memory_store \<Rightarrow> string option \<times> memory_store" where
  "ms_Delete uri s = (None, AList.delete uri s)"

definition ms_Exists :: "string \<Rightarrow> memory_store \<Rightarrow> bool" where
  "ms_Exists uri s = ahas s uri"

section \<open>The directory\<close>

text \<open>Each step of the file system may fail, with the text of its error.\<close>

record filesystem_store =
  fd_files :: "(string \<times> string) list"
  fd_mkdir :: "string option"
  fd_write :: "string \<Rightarrow> string option"
  fd_read :: "string \<Rightarrow> string option"
  fd_remove :: "string \<Rightarrow> string option"

definition fd_glob :: "filesystem_store \<Rightarrow> string \<Rightarrow> string + string list" where
  "fd_glob s pattern =
     (case glob_parse pattern of
        None \<Rightarrow> Inl ''syntax error in pattern''
      | Some ts \<Rightarrow> Inr (filter (glob_match ts) (sort (map fst (fd_files s)))))"

definition fd_Put ::
    "(string \<Rightarrow> string) \<Rightarrow> string \<Rightarrow> string \<Rightarrow> filesystem_store \<Rightarrow>
     (string + attachment_reference) \<times> filesystem_store" where
  "fd_Put sha256 data mediaType s =
     (let digest = sha256 data; name = digest @ attachmentExt mediaType
      in case fd_mkdir s of
           Some err \<Rightarrow> (Inl err, s)
         | None \<Rightarrow>
             (case fd_write s name of
                Some err \<Rightarrow> (Inl err, s)
              | None \<Rightarrow> (Inr (refAttachment digest mediaType (int (length data)) digest),
                         s\<lparr>fd_files := AList.update name data (fd_files s)\<rparr>)))"

definition fd_Get :: "string \<Rightarrow> filesystem_store \<Rightarrow> string + string \<times> string" where
  "fd_Get uri s =
     bind_res (attachmentID uri) (\<lambda>aid. bind_res (fd_glob s (aid @ ''.*'')) (\<lambda>names.
       case names of
         [] \<Rightarrow> Inl ErrNotExist
       | name # _ \<Rightarrow>
           (case fd_read s name of
              Some err \<Rightarrow> Inl err
            | None \<Rightarrow> Inr (aget [] (fd_files s) name, mediaTypeForExt (path_ext name)))))"

fun fd_remove_all :: "string list \<Rightarrow> filesystem_store \<Rightarrow> string option \<times> filesystem_store" where
  "fd_remove_all [] s = (None, s)"
| "fd_remove_all (name # names) s =
     (case fd_remove s name of
        Some err \<Rightarrow> (Some err, s)
      | None \<Rightarrow> fd_remove_all names (s\<lparr>fd_files := AList.delete name (fd_files s)\<rparr>))"

definition fd_Delete :: "string \<Rightarrow> filesystem_store \<Rightarrow> string option \<times> filesystem_store" where
  "fd_Delete uri s =
     (case bind_res (attachmentID uri) (\<lambda>aid. fd_glob s (aid @ ''.*'')) of
        Inl err \<Rightarrow> (Some err, s)
      | Inr names \<Rightarrow> fd_remove_all names s)"

definition fd_Exists :: "string \<Rightarrow> filesystem_store \<Rightarrow> bool" where
  "fd_Exists uri s =
     (case bind_res (attachmentID uri) (\<lambda>aid. fd_glob s (aid @ ''.*'')) of Inl _ \<Rightarrow> False | Inr names \<Rightarrow> names \<noteq> [])"

section \<open>The inline store\<close>

definition inline_Put :: "(string \<Rightarrow> string) \<Rightarrow> string \<Rightarrow> string \<Rightarrow> string + attachment_reference" where
  "inline_Put sha256 data mediaType =
     Inr \<lparr>ar_URI = [], ar_MediaType = mediaType, ar_ByteSize = int (length data), ar_SHA256 = sha256 data,
          ar_Source = [(''kind'', VStr ''base64''), (''data'', VStr (base64_encode data))]\<rparr>"

definition inline_Get :: "string \<Rightarrow> string + string \<times> string" where
  "inline_Get uri = Inl ''InlineStore does not resolve attachment:// refs''"

definition inline_Delete :: "string \<Rightarrow> string option" where "inline_Delete uri = None"
definition inline_Exists :: "string \<Rightarrow> bool" where "inline_Exists uri = False"

section \<open>References of a log\<close>

definition block_refs :: "payload \<Rightarrow> string list" where
  "block_refs block =
     (let source = asMap (pget block ''source''); uri = stringValue (pget source ''uri'')
      in if pget source ''kind'' = VStr ''ref'' \<and> uri \<noteq> [] then [uri] else [])"

definition event_refs :: "event \<Rightarrow> string list" where
  "event_refs e =
     (if ev_type e = EventUserMessage \<or> ev_type e = EventAssistantMessage
      then concat (map block_refs (asContentBlocks (pget (ev_payload e) ''content''))) else [])"

fun add_refs :: "string list \<Rightarrow> string list \<Rightarrow> string list" where
  "add_refs refs [] = refs"
| "add_refs refs (u # us) = add_refs (if u \<in> set refs then refs else refs @ [u]) us"

definition ListReferencedAttachments :: "event list \<Rightarrow> string list" where
  "ListReferencedAttachments es = add_refs [] (concat (map event_refs es))"

end
