(* ===== verification/AttachmentProps.thy ===== *)
theory AttachmentProps
  imports Attachments
begin

text \<open>
  What a client of an attachment store relies on, as two interfaces: a store finds under a
  reference data of the referenced digest, and what is deleted is gone; an exact store gives
  back the very data and media type, and leaves other references alone.  The memory store is
  exact, the directory is not: it keeps the media type in the file's extension, and takes the
  identifier of a URI as part of a pattern.
\<close>

section \<open>The interfaces\<close>

locale content_store =
  fixes put :: "string \<Rightarrow> string \<Rightarrow> 's \<Rightarrow> (string + attachment_reference) \<times> 's"
    and get :: "string \<Rightarrow> 's \<Rightarrow> string + string \<times> string"
    and delete :: "string \<Rightarrow> 's \<Rightarrow> string option \<times> 's"
    and exists :: "string \<Rightarrow> 's \<Rightarrow> bool"
    and digest :: "string \<Rightarrow> string"
    and storable :: "string \<Rightarrow> bool"
    and invar :: "'s \<Rightarrow> bool"
  assumes put_reference: "put d m s = (Inr r, s') \<Longrightarrow> r = refAttachment (digest d) m (int (length d)) (digest d)"
    and put_failed: "put d m s = (Inl err, s') \<Longrightarrow> s' = s"
    and put_invar: "invar s \<Longrightarrow> storable d \<Longrightarrow> invar (snd (put d m s))"
    and put_get: "invar s \<Longrightarrow> storable d \<Longrightarrow> put d m s = (Inr r, s') \<Longrightarrow>
      \<exists>d' m'. get (ar_URI r) s' = Inr (d', m') \<and> digest d' = digest d"
    and exists_iff: "invar s \<Longrightarrow> exists uri s \<longleftrightarrow> is_ok (get uri s)"
    and delete_gone: "invar s \<Longrightarrow> delete uri s = (None, s') \<Longrightarrow> invar s' \<and> \<not> exists uri s'"
begin

text \<open>What was put exists until it is deleted; putting again finds the same reference.\<close>

lemma put_exists:
  assumes "invar s" and "storable d" and "put d m s = (Inr r, s')"
  shows "exists (ar_URI r) s'"
proof -
  have "invar s'" using put_invar [OF assms(1,2), of m] assms(3) by simp
  then show ?thesis using put_get [OF assms] by (auto simp: exists_iff)
qed

lemma put_delete:
  assumes "invar s" and "storable d" and "put d m s = (Inr r, s')" and "delete (ar_URI r) s' = (None, s'')"
  shows "\<not> is_ok (get (ar_URI r) s'')"
proof -
  have "invar s'" using put_invar [OF assms(1,2), of m] assms(3) by simp
  then show ?thesis using delete_gone [OF _ assms(4)] exists_iff by blast
qed

lemma put_same_reference:
  "put d m s = (Inr r, s') \<Longrightarrow> put d m t = (Inr r', t') \<Longrightarrow> r = r'"
  using put_reference by metis

end

locale exact_store = content_store +
  assumes put_get_exact: "invar s \<Longrightarrow> storable d \<Longrightarrow> put d m s = (Inr r, s') \<Longrightarrow> get (ar_URI r) s' = Inr (d, m)"
    and put_other: "put d m s = (Inr r, s') \<Longrightarrow> uri \<noteq> ar_URI r \<Longrightarrow> get uri s' = get uri s"
    and delete_other: "delete uri s = (None, s') \<Longrightarrow> uri' \<noteq> uri \<Longrightarrow> get uri' s' = get uri' s"
begin

text \<open>Two attachments live side by side.\<close>

lemma put_put_get:
  assumes "invar s" and "storable d" and "storable d'" and "put d m s = (Inr r, s1)" and "put d' m' s1 = (Inr r', s2)"
    and "digest d \<noteq> digest d'"
  shows "get (ar_URI r) s2 = Inr (d, m) \<and> get (ar_URI r') s2 = Inr (d', m')"
proof -
  have i: "invar s1" using put_invar [OF assms(1,2), of m] assms(4) by simp
  have "ar_URI r \<noteq> ar_URI r'"
    using put_reference [OF assms(4)] put_reference [OF assms(5)] assms(6) by (simp add: refAttachment_def Let_def)
  then show ?thesis
    using put_other [OF assms(5)] put_get_exact [OF assms(1,2,4)] put_get_exact [OF i assms(3,5)] by metis
qed

end

section \<open>The memory store\<close>

lemma refAttachment_uri [simp]: "ar_URI (refAttachment aid m n dg) = attachment_scheme @ aid"
  by (simp add: refAttachment_def Let_def)

interpretation memory_attachments:
  exact_store "ms_Put sha256" ms_Get ms_Delete ms_Exists sha256 "\<lambda>d. True" "\<lambda>s. True" for sha256
  by unfold_locales
    (auto simp: ms_Put_def ms_Get_def ms_Delete_def ms_Exists_def ahas_def map_of_update_iff map_of_delete_iff
      Let_def split: option.splits if_splits)

section \<open>The directory\<close>

text \<open>Digests are lower-case hexadecimal text; a file of the store is named by the digest of its
  contents and one of the extensions.\<close>

definition hex_text :: "string \<Rightarrow> bool" where
  "hex_text s \<longleftrightarrow> s \<noteq> [] \<and> list_all (\<lambda>c. is_digit c \<or> (97 \<le> byte c \<and> byte c \<le> 102)) s"

definition extensions :: "string list" where
  "extensions = [''.jpg'', ''.png'', ''.gif'', ''.webp'', ''.pdf'', ''.bin'']"

definition named_file :: "(string \<Rightarrow> string) \<Rightarrow> string \<times> string \<Rightarrow> bool" where
  "named_file sha256 f \<longleftrightarrow> hex_text (sha256 (snd f)) \<and> (\<exists>e \<in> set extensions. fst f = sha256 (snd f) @ e)"

definition dir_inv :: "(string \<Rightarrow> string) \<Rightarrow> filesystem_store \<Rightarrow> bool" where
  "dir_inv sha256 s \<longleftrightarrow> distinct (map fst (fd_files s)) \<and> (\<forall>f \<in> set (fd_files s). named_file sha256 f)
     \<and> fd_read s = (\<lambda>n. None)"

lemma attachmentExt_in: "attachmentExt m \<in> set extensions"
  by (simp add: attachmentExt_def extensions_def)

lemma extension_shape: "e \<in> set extensions \<Longrightarrow> \<exists>r. e = CHR ''.'' # r \<and> CHR ''/'' \<notin> set e"
  by (auto simp: extensions_def)

lemma hex_text_chars:
  assumes "hex_text s"
  shows "CHR ''.'' \<notin> set s" and "CHR ''/'' \<notin> set s" and "glob_plain s" and "s \<noteq> []"
proof -
  have c: "is_digit c \<or> (97 \<le> byte c \<and> byte c \<le> 102)" if "c \<in> set s" for c
    using assms that by (simp add: hex_text_def list_all_iff)
  have no: "d \<notin> set s" if "\<not> is_digit d" "byte d < 97" for d using c [of d] that by auto
  show "CHR ''.'' \<notin> set s" "CHR ''/'' \<notin> set s" by (rule no; simp add: is_digit_def byte_def)+
  have "CHR ''*'' \<notin> set s" "CHR ''?'' \<notin> set s" "CHR ''['' \<notin> set s" "CHR 0x5C \<notin> set s"
    by (rule no; simp add: is_digit_def byte_def)+
  then show "glob_plain s" by (auto simp: glob_plain_def list_all_iff)
  show "s \<noteq> []" using assms by (simp add: hex_text_def)
qed

lemma attachmentID_ref:
  assumes "aid \<noteq> []" and "CHR ''/'' \<notin> set aid"
  shows "attachmentID (attachment_scheme @ aid) = Inr aid"
proof -
  have "trim_prefix (attachment_scheme @ aid) attachment_scheme = aid"
    by (simp add: trim_prefix_def has_prefix_def)
  moreover have "str_index aid ''/'' = None"
    using assms(2) by (induction aid) (auto simp: has_prefix_def)
  moreover have "aid \<noteq> attachment_scheme @ aid" by (simp add: attachment_scheme_def)
  ultimately show ?thesis using assms(1) by (simp add: attachmentID_def str_contains_def Let_def)
qed

lemma glob_id:
  assumes "glob_plain aid"
  shows "glob_parse (aid @ ''.*'') = Some (map GLit (aid @ ''.'') @ [GStar])"
proof -
  have "glob_plain (aid @ ''.'')" using assms by (simp add: glob_plain_def)
  from glob_parse_plain [OF this, of "''*''"] show ?thesis by (simp add: glob_parse.simps)
qed

text \<open>The files that answer to an identifier.\<close>

lemma glob_id_match:
  assumes "glob_plain aid" and "CHR ''/'' \<notin> set n"
  shows "glob_match (map GLit (aid @ ''.'') @ [GStar]) n \<longleftrightarrow> has_prefix n (aid @ ''.'')"
  unfolding glob_match_lits using assms(2) glob_match_star [of "drop (length (aid @ ''.'')) n"]
  by (auto dest: in_set_dropD)

lemma named_file_prefix:
  assumes "named_file sha256 (n, c)" and "CHR ''.'' \<notin> set aid"
  shows "has_prefix n (aid @ ''.'') \<longleftrightarrow> sha256 c = aid" and "CHR ''/'' \<notin> set n"
proof -
  obtain e where e: "e \<in> set extensions" "n = sha256 c @ e" and h: "hex_text (sha256 c)"
    using assms(1) by (auto simp: named_file_def)
  obtain r where r: "e = CHR ''.'' # r" "CHR ''/'' \<notin> set e" using extension_shape [OF e(1)] by blast
  note hc = hex_text_chars [OF h]
  show "CHR ''/'' \<notin> set n" using e(2) r(2) hc(2) by simp
  have tw: "takeWhile (\<lambda>c. c \<noteq> CHR ''.'') (a @ CHR ''.'' # t) = a" if "CHR ''.'' \<notin> set a" for a t
    using that by (subst takeWhile_append2) auto
  show "has_prefix n (aid @ ''.'') \<longleftrightarrow> sha256 c = aid"
  proof
    assume "has_prefix n (aid @ ''.'')"
    then obtain t where "n = aid @ CHR ''.'' # t"
      unfolding has_prefix_def by (metis append.assoc append_Cons append_Nil append_take_drop_id)
    then show "sha256 c = aid" using tw [OF hc(1), of r] tw [OF assms(2), of t] e(2) r(1) by simp
  next
    assume "sha256 c = aid"
    then show "has_prefix n (aid @ ''.'')" using e(2) r(1) by (simp add: has_prefix_def)
  qed
qed

lemma named_file_ext:
  assumes "named_file sha256 (n, c)"
  shows "\<exists>e \<in> set extensions. n = sha256 c @ e \<and> path_ext n = e"
proof -
  obtain e where e: "e \<in> set extensions" "n = sha256 c @ e" using assms by (auto simp: named_file_def)
  then have "path_ext n = e" by (auto simp: extensions_def path_ext_def)
  with e show ?thesis by blast
qed

lemma fd_glob_digest:
  assumes "dir_inv sha256 s" and "hex_text aid"
  shows "\<exists>names. fd_glob s (aid @ ''.*'') = Inr names \<and> sorted names \<and>
    (\<forall>n. n \<in> set names \<longleftrightarrow> (\<exists>c. (n, c) \<in> set (fd_files s) \<and> sha256 c = aid))"
proof -
  note hc = hex_text_chars [OF assms(2)]
  let ?ts = "map GLit (aid @ ''.'') @ [GStar]"
  have m: "glob_match ?ts n \<longleftrightarrow> sha256 c = aid" if "(n, c) \<in> set (fd_files s)" for n c
  proof -
    have nf: "named_file sha256 (n, c)" using assms(1) that by (auto simp: dir_inv_def)
    show ?thesis using named_file_prefix [OF nf hc(1)] glob_id_match [OF hc(3)] by metis
  qed
  have "n \<in> set (filter (glob_match ?ts) (sort (map fst (fd_files s)))) \<longleftrightarrow>
      (\<exists>c. (n, c) \<in> set (fd_files s) \<and> sha256 c = aid)" for n
    using m by force
  moreover have "sorted (filter (glob_match ?ts) (sort (map fst (fd_files s))))"
    by (rule sorted_filter [where f = "\<lambda>x. x", simplified]) simp
  ultimately show ?thesis using glob_id [OF hc(3)] unfolding fd_glob_def by auto
qed

lemma fd_remove_all_ok:
  "fd_remove_all names s = (None, s') \<Longrightarrow>
   fd_files s' = filter (\<lambda>f. fst f \<notin> set names) (fd_files s) \<and> fd_read s' = fd_read s"
proof (induction names arbitrary: s)
  case Nil
  then show ?case by simp
next
  case (Cons n ns)
  then have "fd_remove_all ns (s\<lparr>fd_files := AList.delete n (fd_files s)\<rparr>) = (None, s')"
    by (simp split: option.splits)
  from Cons.IH [OF this] show ?case by (auto simp: AList.delete_eq intro: filter_cong)
qed

lemma fd_glob_filter:
  "fd_glob s p = Inr names \<Longrightarrow> fd_files s' = filter (\<lambda>f. fst f \<notin> set names) (fd_files s) \<Longrightarrow> fd_glob s' p = Inr []"
  by (force simp: fd_glob_def filter_empty_conv split: option.splits)

lemma fd_Put_ok:
  "fd_Put sha256 d m s = (Inr r, s') \<Longrightarrow>
   r = refAttachment (sha256 d) m (int (length d)) (sha256 d) \<and>
   s' = s\<lparr>fd_files := AList.update (sha256 d @ attachmentExt m) d (fd_files s)\<rparr>"
  by (auto simp: fd_Put_def Let_def split: option.splits)

lemma fd_Put_inv:
  assumes "dir_inv sha256 s" and "hex_text (sha256 d)"
  shows "dir_inv sha256 (s\<lparr>fd_files := AList.update (sha256 d @ attachmentExt m) d (fd_files s)\<rparr>)"
proof -
  have "named_file sha256 f" if "f \<in> set (AList.update (sha256 d @ attachmentExt m) d (fd_files s))" for f
  proof (cases "fst f = sha256 d @ attachmentExt m")
    case True
    have "map_of (AList.update (sha256 d @ attachmentExt m) d (fd_files s)) (fst f) = Some (snd f)"
      using that assms(1) by (simp add: dir_inv_def distinct_update)
    then have "snd f = d" using True by (simp add: map_of_update_iff)
    with True assms(2) attachmentExt_in show ?thesis by (auto simp: named_file_def)
  next
    case False
    have "map_of (AList.update (sha256 d @ attachmentExt m) d (fd_files s)) (fst f) = Some (snd f)"
      using that assms(1) by (simp add: dir_inv_def distinct_update)
    then have "map_of (fd_files s) (fst f) = Some (snd f)" using False by (simp add: map_of_update_iff)
    then show ?thesis using assms(1) map_of_SomeD by (fastforce simp: dir_inv_def)
  qed
  with assms(1) show ?thesis by (simp add: dir_inv_def distinct_update)
qed

text \<open>What \<^verbatim>\<open>Get\<close> finds under a digest: the first file of that digest.\<close>

lemma fd_Get_digest:
  assumes "dir_inv sha256 s" and "hex_text aid" and "\<exists>n c. (n, c) \<in> set (fd_files s) \<and> sha256 c = aid"
  shows "\<exists>n c. (n, c) \<in> set (fd_files s) \<and> sha256 c = aid \<and>
    (\<forall>n' c'. (n', c') \<in> set (fd_files s) \<longrightarrow> sha256 c' = aid \<longrightarrow> n \<le> n') \<and>
    fd_Get (attachment_scheme @ aid) s = Inr (c, mediaTypeForExt (path_ext n))"
proof -
  note hc = hex_text_chars [OF assms(2)]
  obtain names where names: "fd_glob s (aid @ ''.*'') = Inr names" "sorted names"
    "\<And>n. n \<in> set names \<longleftrightarrow> (\<exists>c. (n, c) \<in> set (fd_files s) \<and> sha256 c = aid)"
    using fd_glob_digest [OF assms(1,2)] by blast
  obtain n ns where ns: "names = n # ns" using names(3) assms(3) by (cases names) auto
  obtain c where c: "(n, c) \<in> set (fd_files s)" "sha256 c = aid" using names(3) [of n] ns by auto
  have least: "n \<le> n'" if "(n', c') \<in> set (fd_files s)" "sha256 c' = aid" for n' c'
  proof -
    have "n' \<in> set names" using names(3) that by blast
    then show ?thesis using names(2) ns by auto
  qed
  have "map_of (fd_files s) n = Some c" using c(1) assms(1) by (simp add: dir_inv_def)
  moreover have "fd_read s n = None" using assms(1) by (simp add: dir_inv_def)
  ultimately have "fd_Get (attachment_scheme @ aid) s = Inr (c, mediaTypeForExt (path_ext n))"
    using attachmentID_ref [OF hc(4,2)] names(1) ns by (simp add: fd_Get_def aget_def)
  with c least show ?thesis by blast
qed

interpretation directory_attachments:
  content_store "fd_Put sha256" fd_Get fd_Delete fd_Exists sha256 "\<lambda>d. hex_text (sha256 d)" "dir_inv sha256"
  for sha256
proof (unfold_locales, goal_cases)
  case (1 d m s r s')
  then show ?case using fd_Put_ok by blast
next
  case (2 d m s err s')
  then show ?case by (auto simp: fd_Put_def Let_def split: option.splits)
next
  case (3 s d m)
  show ?case
  proof (cases "fst (fd_Put sha256 d m s)")
    case (Inl e)
    then have "snd (fd_Put sha256 d m s) = s" by (auto simp: fd_Put_def Let_def split: option.splits)
    with 3(1) show ?thesis by simp
  next
    case (Inr r)
    then have "fd_Put sha256 d m s = (Inr r, snd (fd_Put sha256 d m s))" by (metis prod.collapse)
    from fd_Put_ok [OF this] fd_Put_inv [OF 3] show ?thesis by simp
  qed
next
  case (4 s d m r s')
  note put = fd_Put_ok [OF 4(3)]
  have inv: "dir_inv sha256 s'" using put fd_Put_inv [OF 4(1,2)] by simp
  have "map_of (fd_files s') (sha256 d @ attachmentExt m) = Some d" using put by (simp add: map_of_update_iff)
  then have "\<exists>n c. (n, c) \<in> set (fd_files s') \<and> sha256 c = sha256 d" using map_of_SomeD by fastforce
  from fd_Get_digest [OF inv 4(2) this] put show ?case by auto
next
  case (5 s uri)
  then show ?case
    by (auto simp: fd_Exists_def fd_Get_def dir_inv_def split: sum.splits list.splits)
      (cases "attachmentID uri"; auto split: sum.splits list.splits)+
next
  case (6 s uri s')
  obtain aid names where aid: "attachmentID uri = Inr aid" and names: "fd_glob s (aid @ ''.*'') = Inr names"
    and rm: "fd_remove_all names s = (None, s')"
    using 6(2) by (cases "attachmentID uri") (auto simp: fd_Delete_def split: sum.splits)
  note f = fd_remove_all_ok [OF rm]
  have "dir_inv sha256 s'" using 6(1) f by (auto simp: dir_inv_def distinct_map_filter)
  moreover have "\<not> fd_Exists uri s'" using fd_glob_filter [OF names] f aid by (simp add: fd_Exists_def)
  ultimately show ?case by simp
qed

text \<open>An identifier is part of a pattern: a star stands for every file.\<close>

lemma fd_glob_star:
  assumes "dir_inv sha256 s"
  shows "fd_glob s ''*.*'' = Inr (sort (map fst (fd_files s)))"
proof -
  have parse: "glob_parse ''*.*'' = Some [GStar, GLit CHR ''.'', GStar]" by (simp add: glob_parse.simps)
  have m: "glob_match [GStar, GLit CHR ''.'', GStar] (a @ CHR ''.'' # r)"
    if "CHR ''/'' \<notin> set a" "CHR ''/'' \<notin> set r" for a r
    using that
  proof (induction a)
    case Nil
    then show ?case using glob_match_star [of r] by simp
  next
    case (Cons c a)
    then show ?case by auto
  qed
  have "glob_match [GStar, GLit CHR ''.'', GStar] n" if "n \<in> set (map fst (fd_files s))" for n
  proof -
    obtain c where "named_file sha256 (n, c)" using assms \<open>n \<in> set (map fst (fd_files s))\<close> by (auto simp: dir_inv_def)
    then obtain e where e: "e \<in> set extensions" "n = sha256 c @ e" "hex_text (sha256 c)" by (auto simp: named_file_def)
    obtain r where "e = CHR ''.'' # r" "CHR ''/'' \<notin> set e" using extension_shape [OF e(1)] by blast
    with e m [of "sha256 c" r] hex_text_chars(2) [OF e(3)] show ?thesis by simp
  qed
  then have "filter (glob_match [GStar, GLit CHR ''.'', GStar]) (sort (map fst (fd_files s))) = sort (map fst (fd_files s))"
    by (intro filter_True) auto
  then show ?thesis by (simp add: fd_glob_def parse)
qed

lemma fd_remove_all_total:
  "fd_remove s = (\<lambda>n. None) \<Longrightarrow> fst (fd_remove_all names s) = None"
  by (induction names arbitrary: s) auto

end
