(* ===== verification/TurnExamples.thy ===== *)
theory TurnExamples
  imports WireExamples IngestProps AttachmentProps
begin

text \<open>
  Concrete requests and responses for the examples of the root theory: a projection without
  attachments, responses of the three providers, and the step a log holds after one of them.
\<close>

definition ex_fetch :: fetch_env where
  "ex_fetch = \<lparr>fe_refuses = (\<lambda>u. None), fe_do = (\<lambda>u. Inr (200, Inr [], ''text/plain''))\<rparr>"

definition ex_projection :: "(nat, mem_adapter, nat) projection" where
  "ex_projection =
     \<lparr>pj_Model = ''m'', pj_MaxTokens = 16, pj_System = [], pj_Registry = [], pj_Store = None,
      pj_ProviderKind = [], pj_Capabilities = [], pj_Mismatch = [], pj_fetch = ex_fetch\<rparr>"

text \<open>The step of a log that begins with a user message.\<close>

fun events_from :: "int \<Rightarrow> event_args list \<Rightarrow> event list" where
  "events_from n [] = []"
| "events_from n (a # as) = mk_ev n (ea_type a) (ea_payload a) # events_from (n + 1) as"

lemma events_from_args [simp]: "map args_of (events_from n as) = as"
  by (induction n as rule: events_from.induct) (simp_all add: args_of_def mk_ev_def)

definition ex_thinking :: val where
  "ex_thinking = VMap [(''type'', VStr ''thinking''), (''thinking'', VStr ''hm''), (''signature'', VStr ''s'')]"

definition ex_tool_block :: val where
  "ex_tool_block = VMap [(''type'', VStr ''tool_use''), (''id'', VStr ''a''), (''name'', VStr ''echo''), (''input'', VMap [])]"

definition ex_anthropic_content :: "val list" where
  "ex_anthropic_content = [ex_thinking, VMap (text_block ''ok''), ex_tool_block]"

definition ex_anthropic_response :: payload where
  "ex_anthropic_response =
     [(''content'', VList ex_anthropic_content), (''stop_reason'', VStr ''tool_use''), (''model'', VStr ''m'')]"

definition ex_openai_message :: payload where
  "ex_openai_message =
     [(''role'', VStr ''assistant''), (''content'', VStr ''ok''),
      (''reasoning_details'', VList [VMap [(''text'', VStr ''hm''), (''signature'', VStr ''s'')]]),
      (''tool_calls'', VList [VMap [(''id'', VStr ''a''), (''type'', VStr ''function''),
         (''function'', VMap [(''name'', VStr ''echo''), (''arguments'', VStr ''{}'')])]])]"

definition ex_openai_response :: payload where
  "ex_openai_response =
     [(''choices'', VList [VMap [(''message'', VMap ex_openai_message), (''finish_reason'', VStr ''tool_calls'')]])]"

definition ex_gemini_response :: payload where
  "ex_gemini_response =
     [(''candidates'', VList [VMap [(''content'', VMap [(''parts'', VList
         [VMap [(''functionCall'', VMap [(''name'', VStr ''echo'')])]])])]])]"

end
