(* ===== verification/Delegation.thy ===== *)
theory Delegation
  imports Tools "HOL-Library.Product_Lexorder" "HOL-Library.List_Lexorder" "HOL-Library.Char_ord"
begin

text \<open>
  \<^verbatim>\<open>delegation_projection.go\<close>: views of the sessions spawned by a session, resolved by a
  \<^verbatim>\<open>SessionMap\<close>.  The set \<^verbatim>\<open>visiting\<close> of the sessions on the current path, which the code updates
  and restores by a deferred delete, is passed down as a list.  The recursion ends because a
  session that is found and not on the path shortens the list of those that are left.
\<close>

type_synonym 'st session_map = "(string \<times> 'st session) list"

abbreviation ss_events :: "'st session \<Rightarrow> event list" where
  "ss_events s \<equiv> lg_events (ss_log s)"

definition sm_LoadSession :: "'st session_map \<Rightarrow> string \<Rightarrow> string + 'st session" where
  "sm_LoadSession m sid =
     (case map_of m sid of None \<Rightarrow> Inl (''session not found: '' @ sid) | Some s \<Rightarrow> Inr s)"

section \<open>The events of a delegation\<close>

definition agentSpawns :: "'st session \<Rightarrow> event list" where
  "agentSpawns s = filter (\<lambda>e. ev_type e = EventAgentSpawn) (ss_events s)"

definition spawn_key :: "event \<Rightarrow> string" where
  "spawn_key e = stringValue (pget (ev_payload e) ''spawn_id'')"

definition spawn_child_id :: "event \<Rightarrow> string" where
  "spawn_child_id e = stringValue (pget (ev_payload e) ''child_session_id'')"

fun result_scan :: "string \<Rightarrow> event option \<Rightarrow> event list \<Rightarrow> string + event option" where
  "result_scan sid found [] = Inr found"
| "result_scan sid found (e # es) =
     (if ev_type e \<noteq> EventAgentResult \<or> spawn_key e \<noteq> sid then result_scan sid found es
      else if found \<noteq> None then Inl (''multiple agent_result events for spawn_id '' @ sid)
      else result_scan sid (Some e) es)"

definition agentResultForSpawn :: "'st session \<Rightarrow> string \<Rightarrow> string + event option" where
  "agentResultForSpawn s sid = result_scan sid None (ss_events s)"

definition lastStatusForSpawn :: "'st session \<Rightarrow> string \<Rightarrow> event option" where
  "lastStatusForSpawn s sid =
     fold (\<lambda>e found. if ev_type e = EventAgentStatus \<and> spawn_key e = sid then Some e else found)
       (ss_events s) None"

definition validateChildLink :: "'st session_map \<Rightarrow> 'st session \<Rightarrow> event \<Rightarrow> string + unit" where
  "validateChildLink m parent spawn =
     bind_res (sm_LoadSession m (spawn_child_id spawn)) (\<lambda>child.
       if ss_parent child \<noteq> ss_id parent \<or> ss_spawn child \<noteq> spawn_key spawn
       then Inl (''broken delegation link parent='' @ ss_id parent @ '' spawn='' @ spawn_key spawn
                 @ '' child='' @ spawn_child_id spawn)
       else Inr ())"

section \<open>The tree\<close>

definition child_entry :: "'st session \<Rightarrow> event \<Rightarrow> event option \<Rightarrow> payload \<Rightarrow> payload" where
  "child_entry s spawn result childTree =
     (let p = ev_payload spawn;
          status = (case result of
                      Some r \<Rightarrow> stringValue (pget (ev_payload r) ''status'')
                    | None \<Rightarrow> (case lastStatusForSpawn s (spawn_key spawn) of
                                Some e \<Rightarrow> stringValue (pget (ev_payload e) ''status'')
                              | None \<Rightarrow> ''open''));
          field = (\<lambda>k. case result of Some r \<Rightarrow> pget (ev_payload r) k | None \<Rightarrow> VNil)
      in [(''spawn_id'', pget p ''spawn_id''),
          (''child_session_id'', VStr (spawn_child_id spawn)),
          (''task'', pget p ''task''),
          (''join_policy'', firstNonEmptyAny [pget p ''join_policy'', VStr ''async'']),
          (''metadata'', firstNonEmptyAny [pget p ''metadata'', VMap []]),
          (''status'', VStr status),
          (''result'', field ''result''), (''error'', field ''error''),
          (''children'', pget childTree ''children'')])"

text \<open>What is left to visit.\<close>

definition unvisited :: "'st session_map \<Rightarrow> string list \<Rightarrow> nat" where
  "unvisited m visiting = card (set (map fst m) - set visiting)"

lemma unvisited_Cons:
  assumes "sm_LoadSession m sid = Inr s" and "sid \<notin> set visiting"
  shows "unvisited m (sid # visiting) < unvisited m visiting"
proof -
  have "sid \<in> set (map fst m)"
    using assms(1) by (force simp: sm_LoadSession_def split: option.splits dest: map_of_SomeD)
  with assms(2) have "set (map fst m) - set (sid # visiting) \<subset> set (map fst m) - set visiting" by auto
  then show ?thesis unfolding unvisited_def by (intro psubset_card_mono) auto
qed

function delegationTree :: "'st session_map \<Rightarrow> string list \<Rightarrow> string \<Rightarrow> string + payload"
  and tree_children :: "'st session_map \<Rightarrow> string list \<Rightarrow> 'st session \<Rightarrow> event list \<Rightarrow> string + payload list"
where
  "delegationTree m visiting sid =
     (if sid \<in> set visiting then Inl (''delegation cycle detected at '' @ sid)
      else case sm_LoadSession m sid of
             Inl err \<Rightarrow> Inl err
           | Inr s \<Rightarrow>
               (case tree_children m (sid # visiting) s (agentSpawns s) of
                  Inl err \<Rightarrow> Inl err
                | Inr children \<Rightarrow> Inr [(''session_id'', VStr (ss_id s)), (''children'', VMaps children)]))"
| "tree_children m visiting s [] = Inr []"
| "tree_children m visiting s (spawn # spawns) =
     (case validateChildLink m s spawn of
        Inl err \<Rightarrow> Inl err
      | Inr u \<Rightarrow>
          (case delegationTree m visiting (spawn_child_id spawn) of
             Inl err \<Rightarrow> Inl err
           | Inr childTree \<Rightarrow>
               (case agentResultForSpawn s (spawn_key spawn) of
                  Inl err \<Rightarrow> Inl err
                | Inr result \<Rightarrow>
                    (case tree_children m visiting s spawns of
                       Inl err \<Rightarrow> Inl err
                     | Inr rest \<Rightarrow> Inr (child_entry s spawn result childTree # rest)))))"
  by pat_completeness auto

termination
  by (relation "measures [\<lambda>x. case x of Inl (m, visiting, sid) \<Rightarrow> unvisited m visiting
                            | Inr (m, visiting, s, spawns) \<Rightarrow> unvisited m visiting,
                          \<lambda>x. case x of Inl (m, visiting, sid) \<Rightarrow> 0
                            | Inr (m, visiting, s, spawns) \<Rightarrow> Suc (length spawns)]")
    (auto intro: unvisited_Cons)

definition DelegationTree :: "'st session_map \<Rightarrow> string \<Rightarrow> string + payload" where
  "DelegationTree m sid = delegationTree m [] sid"

section \<open>The open children\<close>

fun open_scan :: "'st session_map \<Rightarrow> 'st session \<Rightarrow> event list \<Rightarrow> string + string list" where
  "open_scan m s [] = Inr []"
| "open_scan m s (spawn # spawns) =
     bind_res (validateChildLink m s spawn) (\<lambda>u.
       bind_res (agentResultForSpawn s (spawn_key spawn)) (\<lambda>result.
         bind_res (open_scan m s spawns) (\<lambda>rest.
           Inr ((if result = None then [spawn_key spawn] else []) @ rest))))"

definition OpenChildren :: "'st session_map \<Rightarrow> string \<Rightarrow> string + string list" where
  "OpenChildren m sid = bind_res (sm_LoadSession m sid) (\<lambda>s. open_scan m s (agentSpawns s))"

section \<open>The descendants\<close>

function collectDescendants :: "'st session_map \<Rightarrow> string list \<Rightarrow> string \<Rightarrow> string + 'st session list"
  and collect_children ::
    "'st session_map \<Rightarrow> string list \<Rightarrow> 'st session \<Rightarrow> event list \<Rightarrow> string + 'st session list"
where
  "collectDescendants m visiting sid =
     (if sid \<in> set visiting then Inl (''delegation cycle detected at '' @ sid)
      else case sm_LoadSession m sid of
             Inl err \<Rightarrow> Inl err
           | Inr s \<Rightarrow>
               (case collect_children m (sid # visiting) s (agentSpawns s) of
                  Inl err \<Rightarrow> Inl err
                | Inr below \<Rightarrow> Inr (s # below)))"
| "collect_children m visiting s [] = Inr []"
| "collect_children m visiting s (spawn # spawns) =
     (case validateChildLink m s spawn of
        Inl err \<Rightarrow> Inl err
      | Inr u \<Rightarrow>
          (case collectDescendants m visiting (spawn_child_id spawn) of
             Inl err \<Rightarrow> Inl err
           | Inr children \<Rightarrow>
               (case collect_children m visiting s spawns of
                  Inl err \<Rightarrow> Inl err
                | Inr rest \<Rightarrow> Inr (children @ rest))))"
  by pat_completeness auto

termination
  by (relation "measures [\<lambda>x. case x of Inl (m, visiting, sid) \<Rightarrow> unvisited m visiting
                            | Inr (m, visiting, s, spawns) \<Rightarrow> unvisited m visiting,
                          \<lambda>x. case x of Inl (m, visiting, sid) \<Rightarrow> 0
                            | Inr (m, visiting, s, spawns) \<Rightarrow> Suc (length spawns)]")
    (auto intro: unvisited_Cons)

declare delegationTree.simps(1) [simp del] collectDescendants.simps(1) [simp del]

section \<open>Timeline and usage\<close>

definition timeline_row :: "'st session \<Rightarrow> event \<Rightarrow> payload" where
  "timeline_row s e =
     [(''session_id'', VStr (ss_id s)), (''seq'', VInt (ev_seq e)), (''id'', VStr (ev_id e)),
      (''type'', VStr (event_type_string (ev_type e))), (''payload'', VMap (ev_payload e)),
      (''timestamp'', VStr (stringValue (pget (ev_payload e) ''timestamp'')))]"

text \<open>The order of \<^verbatim>\<open>sort.SliceStable\<close>: time stamp, session, number.\<close>

definition timeline_key :: "payload \<Rightarrow> string \<times> string \<times> int" where
  "timeline_key r =
     (stringValue (pget r ''timestamp''), stringValue (pget r ''session_id''), asInt (pget r ''seq''))"

definition DescendantTimeline :: "'st session_map \<Rightarrow> string \<Rightarrow> string + payload list" where
  "DescendantTimeline m sid =
     bind_res (collectDescendants m [] sid) (\<lambda>ss.
       Inr (sort_key timeline_key (concat (map (\<lambda>s. map (timeline_row s) (ss_events s)) ss))))"

definition usageTotal :: "payload \<Rightarrow> int \<Rightarrow> int \<Rightarrow> int" where
  "usageTotal usage i out =
     (let total = asInt (pget usage ''total_tokens'') in if total > 0 then total else wrap64 (i + out))"

definition usage_step :: "event \<Rightarrow> int \<times> int \<times> int \<Rightarrow> int \<times> int \<times> int" where
  "usage_step e = (\<lambda>(p, c, t).
     if ev_type e = EventAssistantMessage \<or> ev_type e = EventAgentResult
     then let usage = asMap (pget (ev_payload e) ''usage'');
              i = asInt (firstNonEmptyAny [pget usage ''prompt_tokens'', pget usage ''input_tokens'']);
              out = asInt (firstNonEmptyAny [pget usage ''completion_tokens'', pget usage ''output_tokens''])
          in (wrap64 (p + i), wrap64 (c + out), wrap64 (t + usageTotal usage i out))
     else (p, c, t))"

definition DescendantUsage :: "'st session_map \<Rightarrow> string \<Rightarrow> string + payload" where
  "DescendantUsage m sid =
     bind_res (collectDescendants m [] sid) (\<lambda>ss.
       case fold (\<lambda>s. fold usage_step (ss_events s)) ss (0, 0, 0) of
         (p, c, t) \<Rightarrow> Inr [(''prompt_tokens'', VInt p), (''completion_tokens'', VInt c), (''total_tokens'', VInt t)])"

end
