(* ===== verification/DelegationProps.thy ===== *)
theory DelegationProps
  imports Delegation LoopProps "HOL-Library.Multiset"
begin

text \<open>
  The delegation views against the graph of spawn links: both recursions of the code succeed
  exactly on a sound and acyclic part of that graph, the descendants are what can be reached, and
  each of them is listed once.
\<close>

section \<open>The graph\<close>

definition spawn_link :: "'st session_map \<Rightarrow> string \<Rightarrow> string \<Rightarrow> bool" where
  "spawn_link m k c \<longleftrightarrow>
     (\<exists>s sp. sm_LoadSession m k = Inr s \<and> sp \<in> set (agentSpawns s) \<and> c = spawn_child_id sp)"

lemma spawn_link_iff:
  "sm_LoadSession m k = Inr s \<Longrightarrow> spawn_link m k c \<longleftrightarrow> c \<in> spawn_child_id ` set (agentSpawns s)"
  by (auto simp: spawn_link_def)

text \<open>A session of which every spawn passes the checks \<open>extra\<close> and has a child that points back.\<close>

definition links_ok :: "('st session \<Rightarrow> event \<Rightarrow> bool) \<Rightarrow> 'st session_map \<Rightarrow> string \<Rightarrow> bool" where
  "links_ok extra m k \<longleftrightarrow>
     (\<exists>s. sm_LoadSession m k = Inr s \<and>
          (\<forall>sp \<in> set (agentSpawns s). is_ok (validateChildLink m s sp) \<and> extra s sp))"

text \<open>The part of the graph below \<open>sid\<close> is sound, acyclic and avoids the path.\<close>

definition sound_below ::
    "('st session \<Rightarrow> event \<Rightarrow> bool) \<Rightarrow> 'st session_map \<Rightarrow> string list \<Rightarrow> string \<Rightarrow> bool" where
  "sound_below extra m visiting sid \<longleftrightarrow>
     (\<forall>k. (spawn_link m)\<^sup>*\<^sup>* sid k \<longrightarrow> k \<notin> set visiting \<and> links_ok extra m k \<and> \<not> (spawn_link m)\<^sup>+\<^sup>+ k k)"

lemma sound_below_step:
  assumes "sm_LoadSession m sid = Inr s" and "sid \<notin> set visiting"
  shows "sound_below extra m visiting sid \<longleftrightarrow>
    (\<forall>sp \<in> set (agentSpawns s). is_ok (validateChildLink m s sp) \<and> extra s sp \<and>
       sound_below extra m (sid # visiting) (spawn_child_id sp))" (is "?L \<longleftrightarrow> ?R")
proof
  assume L: ?L
  have ok: "links_ok extra m sid" "\<not> (spawn_link m)\<^sup>+\<^sup>+ sid sid"
    using L by (auto simp: sound_below_def)
  show ?R
  proof (intro ballI conjI)
    fix sp
    assume sp: "sp \<in> set (agentSpawns s)"
    then have lk: "spawn_link m sid (spawn_child_id sp)" using assms(1) by (auto simp: spawn_link_def)
    show "is_ok (validateChildLink m s sp)" "extra s sp" using ok(1) sp assms(1) by (auto simp: links_ok_def)
    show "sound_below extra m (sid # visiting) (spawn_child_id sp)"
      unfolding sound_below_def
    proof (intro allI impI)
      fix k
      assume k: "(spawn_link m)\<^sup>*\<^sup>* (spawn_child_id sp) k"
      then have "(spawn_link m)\<^sup>*\<^sup>* sid k" using lk by (rule converse_rtranclp_into_rtranclp [rotated])
      moreover have "k \<noteq> sid" using rtranclp_into_tranclp2 [of "spawn_link m", OF lk k] ok(2) by blast
      ultimately show "k \<notin> set (sid # visiting) \<and> links_ok extra m k \<and> \<not> (spawn_link m)\<^sup>+\<^sup>+ k k"
        using L by (auto simp: sound_below_def)
    qed
  qed
next
  assume R: ?R
  then have below: "spawn_link m sid c \<Longrightarrow> sound_below extra m (sid # visiting) c" for c
    by (auto simp: spawn_link_iff [OF assms(1)])
  have own: "\<not> (spawn_link m)\<^sup>+\<^sup>+ sid sid"
  proof
    assume "(spawn_link m)\<^sup>+\<^sup>+ sid sid"
    then obtain c where "spawn_link m sid c" "(spawn_link m)\<^sup>*\<^sup>* c sid" by (blast dest: tranclpD)
    with below show False by (fastforce simp: sound_below_def)
  qed
  show ?L
    unfolding sound_below_def
  proof (intro allI impI)
    fix k
    assume "(spawn_link m)\<^sup>*\<^sup>* sid k"
    then show "k \<notin> set visiting \<and> links_ok extra m k \<and> \<not> (spawn_link m)\<^sup>+\<^sup>+ k k"
    proof (cases rule: converse_rtranclpE)
      case base
      have "links_ok extra m sid" using assms(1) R by (simp add: links_ok_def)
      with base own assms(2) show ?thesis by simp
    next
      case (step c)
      with below [of c] show ?thesis by (simp add: sound_below_def)
    qed
  qed
qed

section \<open>A recursion over the links\<close>

text \<open>
  The contract the two recursions of the code share: a walk stops at a session that is on its
  path or unknown, and otherwise visits the children in order, each after its link was checked.
\<close>

locale link_walk =
  fixes m :: "'st session_map"
    and extra :: "'st session \<Rightarrow> event \<Rightarrow> bool"
    and walk :: "string list \<Rightarrow> string \<Rightarrow> string + 'a"
    and walk_children :: "string list \<Rightarrow> 'st session \<Rightarrow> event list \<Rightarrow> string + 'b"
  assumes walk_step: "is_ok (walk visiting sid) \<longleftrightarrow> sid \<notin> set visiting \<and>
      (\<exists>s. sm_LoadSession m sid = Inr s \<and> is_ok (walk_children (sid # visiting) s (agentSpawns s)))"
    and walk_Nil: "is_ok (walk_children visiting s [])"
    and walk_Cons: "is_ok (walk_children visiting s (sp # sps)) \<longleftrightarrow> is_ok (validateChildLink m s sp) \<and>
      is_ok (walk visiting (spawn_child_id sp)) \<and> extra s sp \<and> is_ok (walk_children visiting s sps)"
begin

lemma walk_children_ok: "is_ok (walk_children visiting s sps) \<longleftrightarrow>
    (\<forall>sp \<in> set sps. is_ok (validateChildLink m s sp) \<and> extra s sp \<and> is_ok (walk visiting (spawn_child_id sp)))"
  by (induction sps) (auto simp: walk_Nil walk_Cons)

lemma walk_ok: "is_ok (walk visiting sid) \<longleftrightarrow> sound_below extra m visiting sid"
proof (induction "unvisited m visiting" arbitrary: visiting sid rule: less_induct)
  case less
  show ?case
  proof (cases "sid \<notin> set visiting \<and> (\<exists>s. sm_LoadSession m sid = Inr s)")
    case True
    then obtain s where s: "sm_LoadSession m sid = Inr s" "sid \<notin> set visiting" by blast
    have "is_ok (walk (sid # visiting) c) \<longleftrightarrow> sound_below extra m (sid # visiting) c" for c
      by (rule less) (rule unvisited_Cons [OF s])
    then show ?thesis
      unfolding walk_step [of visiting sid] sound_below_step [OF s] using s by (auto simp: walk_children_ok)
  next
    case False
    then have "\<not> sound_below extra m visiting sid" by (auto simp: sound_below_def links_ok_def)
    with False show ?thesis by (auto simp: walk_step)
  qed
qed

end

definition one_result :: "'st session \<Rightarrow> event \<Rightarrow> bool" where
  "one_result s sp \<longleftrightarrow> is_ok (agentResultForSpawn s (spawn_key sp))"

interpretation tree_walk: link_walk m one_result "delegationTree m" "tree_children m"
  by unfold_locales
    (auto simp: delegationTree.simps(1) one_result_def split: sum.splits)

interpretation descendant_walk: link_walk m "\<lambda>s sp. True" "collectDescendants m" "collect_children m"
  by unfold_locales (auto simp: collectDescendants.simps(1) split: sum.splits)


lemma delegation_ok:
  "is_ok (DelegationTree m sid) \<longleftrightarrow> sound_below one_result m [] sid"
  "is_ok (DescendantTimeline m sid) \<longleftrightarrow> sound_below (\<lambda>s sp. True) m [] sid"
  "is_ok (DescendantUsage m sid) \<longleftrightarrow> sound_below (\<lambda>s sp. True) m [] sid"
proof -
  show "is_ok (DelegationTree m sid) \<longleftrightarrow> sound_below one_result m [] sid"
    by (simp add: DelegationTree_def tree_walk.walk_ok)
  show "is_ok (DescendantTimeline m sid) \<longleftrightarrow> sound_below (\<lambda>s sp. True) m [] sid"
    unfolding DescendantTimeline_def descendant_walk.walk_ok [symmetric]
    by (cases "collectDescendants m [] sid") auto
  show "is_ok (DescendantUsage m sid) \<longleftrightarrow> sound_below (\<lambda>s sp. True) m [] sid"
    unfolding DescendantUsage_def descendant_walk.walk_ok [symmetric]
    by (cases "collectDescendants m [] sid") (auto split: prod.splits)
qed

lemma open_scan_ok:
  "is_ok (open_scan m s sps) \<longleftrightarrow> (\<forall>sp \<in> set sps. is_ok (validateChildLink m s sp) \<and> one_result s sp)"
proof (induction sps)
  case (Cons sp sps)
  then show ?case
    by (cases "validateChildLink m s sp"; cases "agentResultForSpawn s (spawn_key sp)"; cases "open_scan m s sps")
      (auto simp: one_result_def)
qed simp

lemma open_children_ok: "is_ok (OpenChildren m sid) \<longleftrightarrow> links_ok one_result m sid"
  by (cases "sm_LoadSession m sid") (auto simp: OpenChildren_def links_ok_def open_scan_ok)

section \<open>Who is collected\<close>

text \<open>A link of which the child points back: a session is below one parent only.\<close>

definition back_link :: "'st session_map \<Rightarrow> string \<Rightarrow> string \<Rightarrow> bool" where
  "back_link m k c \<longleftrightarrow> (\<exists>s sp. sm_LoadSession m k = Inr s \<and> sp \<in> set (agentSpawns s) \<and>
     validateChildLink m s sp = Inr () \<and> c = spawn_child_id sp)"

text \<open>Sessions are stored under their own id.\<close>

definition keyed :: "'st session_map \<Rightarrow> bool" where
  "keyed m \<longleftrightarrow> (\<forall>k s. map_of m k = Some s \<longrightarrow> ss_id s = k)"

definition distinct_spawns :: "'st session_map \<Rightarrow> bool" where
  "distinct_spawns m \<longleftrightarrow> (\<forall>k s. map_of m k = Some s \<longrightarrow> distinct (map spawn_key (agentSpawns s)))"

lemma keyedD: "keyed m \<Longrightarrow> sm_LoadSession m k = Inr s \<Longrightarrow> ss_id s = k"
  by (auto simp: keyed_def sm_LoadSession_def split: option.splits)

lemma distinct_spawnsD:
  "distinct_spawns m \<Longrightarrow> sm_LoadSession m k = Inr s \<Longrightarrow> distinct (map spawn_key (agentSpawns s))"
  by (auto simp: distinct_spawns_def sm_LoadSession_def split: option.splits)

lemma validateChildLink_Inr:
  "validateChildLink m s sp = Inr u \<longleftrightarrow>
     (\<exists>c. sm_LoadSession m (spawn_child_id sp) = Inr c \<and> ss_parent c = ss_id s \<and> ss_spawn c = spawn_key sp)"
  by (cases "sm_LoadSession m (spawn_child_id sp)") (auto simp: validateChildLink_def)

lemma back_link_parent:
  "keyed m \<Longrightarrow> back_link m k c \<Longrightarrow> \<exists>s. sm_LoadSession m c = Inr s \<and> ss_parent s = k"
  by (fastforce simp: back_link_def validateChildLink_Inr dest: keyedD)

lemma back_link_unique: "keyed m \<Longrightarrow> back_link m a c \<Longrightarrow> back_link m b c \<Longrightarrow> a = b"
  using back_link_parent [of m a c] back_link_parent [of m b c] by auto

lemma back_links_meet:
  assumes "keyed m" and "(back_link m)\<^sup>*\<^sup>* a x" and "(back_link m)\<^sup>*\<^sup>* b x"
  shows "(back_link m)\<^sup>*\<^sup>* a b \<or> (back_link m)\<^sup>*\<^sup>* b a"
  using assms(2,3)
proof (induction arbitrary: b)
  case (step y z)
  from step.prems show ?case
  proof (cases rule: rtranclp.cases)
    case (rtrancl_into_rtrancl y')
    then have "y' = y" using step.hyps(2) back_link_unique [OF assms(1)] by blast
    with rtrancl_into_rtrancl step.IH show ?thesis by blast
  next
    case rtrancl_refl
    with step.hyps show ?thesis by (meson rtranclp.rtrancl_into_rtrancl)
  qed
qed blast

lemma collect_below:
  shows "collectDescendants m visiting sid = Inr ss \<Longrightarrow>
      x \<in> set ss \<Longrightarrow> \<exists>k. (back_link m)\<^sup>*\<^sup>* sid k \<and> sm_LoadSession m k = Inr x \<and> k \<notin> set visiting"
    and "collect_children m visiting s sps = Inr ss \<Longrightarrow> x \<in> set ss \<Longrightarrow>
      \<exists>sp \<in> set sps. validateChildLink m s sp = Inr () \<and>
        (\<exists>k. (back_link m)\<^sup>*\<^sup>* (spawn_child_id sp) k \<and> sm_LoadSession m k = Inr x \<and> k \<notin> set visiting)"
proof (induction m visiting sid and m visiting s sps arbitrary: ss x and ss x
    rule: collectDescendants_collect_children.induct)
  case (1 m visiting sid)
  from "1.prems"(1) obtain s below where s: "sid \<notin> set visiting" "sm_LoadSession m sid = Inr s"
    "collect_children m (sid # visiting) s (agentSpawns s) = Inr below" "ss = s # below"
    by (auto simp: collectDescendants.simps(1) split: if_splits sum.splits)
  show ?case
  proof (cases "x = s")
    case True
    with s show ?thesis by blast
  next
    case False
    with "1.prems"(2) s(4) have "x \<in> set below" by simp
    from "1.IH" [OF s(1,2,3) this] obtain sp k where "sp \<in> set (agentSpawns s)"
      "validateChildLink m s sp = Inr ()" "(back_link m)\<^sup>*\<^sup>* (spawn_child_id sp) k"
      "sm_LoadSession m k = Inr x" "k \<notin> set (sid # visiting)" by blast
    moreover from this have "back_link m sid (spawn_child_id sp)" using s(2) by (auto simp: back_link_def)
    ultimately show ?thesis by (auto intro: converse_rtranclp_into_rtranclp)
  qed
next
  case (3 m visiting s sp sps)
  from "3.prems"(1) obtain u cs rest where c: "validateChildLink m s sp = Inr u"
    "collectDescendants m visiting (spawn_child_id sp) = Inr cs"
    "collect_children m visiting s sps = Inr rest" "ss = cs @ rest"
    by (auto split: sum.splits)
  from "3.prems"(2) c(4) consider "x \<in> set cs" | "x \<in> set rest" by auto
  then show ?case
  proof cases
    case 1
    from "3.IH"(1) [OF c(1,2) 1] c(1) show ?thesis by auto
  next
    case 2
    from "3.IH"(2) [OF c(1,2,3) 2] show ?thesis by auto
  qed
qed simp

lemma collect_reach:
  shows "collectDescendants m visiting sid = Inr ss \<Longrightarrow> (spawn_link m)\<^sup>*\<^sup>* sid k \<Longrightarrow>
      sm_LoadSession m k = Inr x \<Longrightarrow> x \<in> set ss"
    and "collect_children m visiting s sps = Inr ss \<Longrightarrow> sp' \<in> set sps \<Longrightarrow>
      (spawn_link m)\<^sup>*\<^sup>* (spawn_child_id sp') k \<Longrightarrow> sm_LoadSession m k = Inr x \<Longrightarrow> x \<in> set ss"
proof (induction m visiting sid and m visiting s sps arbitrary: ss k x and ss sp' k x
    rule: collectDescendants_collect_children.induct)
  case (1 m visiting sid)
  from "1.prems"(1) obtain s below where s: "sid \<notin> set visiting" "sm_LoadSession m sid = Inr s"
    "collect_children m (sid # visiting) s (agentSpawns s) = Inr below" "ss = s # below"
    by (auto simp: collectDescendants.simps(1) split: if_splits sum.splits)
  from "1.prems"(2) show ?case
  proof (cases rule: converse_rtranclpE)
    case base
    with "1.prems"(3) s show ?thesis by simp
  next
    case (step c)
    then obtain sp where "sp \<in> set (agentSpawns s)" "c = spawn_child_id sp"
      using spawn_link_iff [OF s(2)] by auto
    with "1.IH" [OF s(1,2,3)] step(2) "1.prems"(3) s(4) show ?thesis by simp
  qed
next
  case (3 m visiting s sp sps)
  from "3.prems"(1) obtain u cs rest where c: "validateChildLink m s sp = Inr u"
    "collectDescendants m visiting (spawn_child_id sp) = Inr cs"
    "collect_children m visiting s sps = Inr rest" "ss = cs @ rest"
    by (auto split: sum.splits)
  with "3.IH" [OF c(1,2)] "3.prems" show ?case by auto
qed simp

lemma back_link_spawn: "back_link m k c \<Longrightarrow> spawn_link m k c"
  by (auto simp: back_link_def spawn_link_def)

lemma collect_avoids:
  assumes "is_ok (collectDescendants m visiting c)" and "(back_link m)\<^sup>*\<^sup>* c k"
  shows "k \<notin> set visiting"
proof -
  have "(spawn_link m)\<^sup>*\<^sup>* c k" using assms(2) by (rule rtranclp_mono [THEN predicate2D, rotated]) (auto intro: back_link_spawn)
  then show ?thesis using assms(1) by (simp add: descendant_walk.walk_ok sound_below_def)
qed

lemma collect_once:
  assumes "keyed m" and "distinct_spawns m"
  shows "collectDescendants m visiting sid = Inr ss \<Longrightarrow> distinct (map ss_id ss)"
    and "collect_children m visiting s sps = Inr ss \<Longrightarrow> sm_LoadSession m (ss_id s) = Inr s \<Longrightarrow>
      ss_id s \<in> set visiting \<Longrightarrow> set sps \<subseteq> set (agentSpawns s) \<Longrightarrow> distinct (map spawn_key sps) \<Longrightarrow>
      distinct (map ss_id ss)"
  using assms
proof (induction m visiting sid and m visiting s sps arbitrary: ss and ss
    rule: collectDescendants_collect_children.induct)
  case (1 m visiting sid)
  from "1.prems"(1) obtain s below where s: "sid \<notin> set visiting" "sm_LoadSession m sid = Inr s"
    "collect_children m (sid # visiting) s (agentSpawns s) = Inr below" "ss = s # below"
    by (auto simp: collectDescendants.simps(1) split: if_splits sum.splits)
  have ids: "ss_id s = sid" using keyedD [OF "1.prems"(2) s(2)] .
  have "distinct (map ss_id below)"
    by (rule "1.IH" [OF s(1,2,3)])
      (use s(2) ids "1.prems" distinct_spawnsD [OF "1.prems"(3) s(2)] in auto)
  moreover have "ss_id x \<noteq> sid" if "x \<in> set below" for x
    using collect_below(2) [OF s(3) that] keyedD [OF "1.prems"(2)] by auto
  ultimately show ?case using s(4) ids by force
next
  case (3 m visiting s sp sps)
  note prems = "3.prems"
  from prems(1) obtain u cs rest where c: "validateChildLink m s sp = Inr u"
    "collectDescendants m visiting (spawn_child_id sp) = Inr cs"
    "collect_children m visiting s sps = Inr rest" "ss = cs @ rest"
    by (auto split: sum.splits)
  have "distinct (map ss_id cs)" by (rule "3.IH"(1) [OF c(1,2) prems(6,7)])
  moreover have "distinct (map ss_id rest)"
    by (rule "3.IH"(2) [OF c(1,2,3)]) (use prems in auto)
  moreover have "ss_id x \<noteq> ss_id y" if x: "x \<in> set cs" and y: "y \<in> set rest" for x y
  proof
    assume eq: "ss_id x = ss_id y"
    from collect_below(1) [OF c(2) x] obtain k where
      k: "(back_link m)\<^sup>*\<^sup>* (spawn_child_id sp) k" "sm_LoadSession m k = Inr x" by blast
    from collect_below(2) [OF c(3) y] obtain sp' k' where sp': "sp' \<in> set sps"
      "validateChildLink m s sp' = Inr ()" "(back_link m)\<^sup>*\<^sup>* (spawn_child_id sp') k'"
      "sm_LoadSession m k' = Inr y" by blast
    have "k' = k" using eq k(2) sp'(4) keyedD [OF prems(6)] by metis
    have l: "back_link m (ss_id s) (spawn_child_id sp)" "back_link m (ss_id s) (spawn_child_id sp')"
      using prems(2,4) c(1) sp'(1,2) unfolding back_link_def by (fastforce, fastforce)
    have ne: "spawn_child_id sp \<noteq> spawn_child_id sp'"
      using c(1) sp'(1,2) prems(5) by (auto simp: validateChildLink_Inr image_iff)
    have noret: "\<not> (back_link m)\<^sup>*\<^sup>* c' (ss_id s)" if "is_ok (collectDescendants m visiting c')" for c'
      using collect_avoids [OF that] prems(3) by blast
    have up: "(back_link m)\<^sup>*\<^sup>* a (ss_id s)"
      if "back_link m (ss_id s) b" "a \<noteq> b" "(back_link m)\<^sup>*\<^sup>* a b" for a b
      using that(3)
    proof (cases rule: rtranclp.cases)
      case (rtrancl_into_rtrancl c)
      then show ?thesis using back_link_unique [OF prems(6) _ that(1)] by blast
    qed (use that in simp)
    have "is_ok (collectDescendants m visiting (spawn_child_id sp))"
      "is_ok (collectDescendants m visiting (spawn_child_id sp'))"
      using c(2,3) sp'(1) descendant_walk.walk_children_ok [of m visiting s sps] by auto
    then show False
      using back_links_meet [OF prems(6) k(1), of "spawn_child_id sp'"] sp'(3) \<open>k' = k\<close>
        up [OF l(2) ne] up [OF l(1) ne [symmetric]] noret by blast
  qed
  ultimately show ?case using c(4) by auto
qed simp

section \<open>The timeline\<close>

lemma filter_key_single:
  "distinct (map f xs) \<Longrightarrow> k \<in> set xs \<Longrightarrow> filter (\<lambda>x. f k = f x) xs = [k]"
  by (induction xs) (auto simp: filter_empty_conv image_iff)

lemma sort_key_unique:
  assumes "distinct (map f xs)" and "mset ys = mset xs" and "sorted (map f ys)"
  shows "sort_key f xs = ys"
proof (rule properties_for_sort_key [OF assms(2) _ assms(3)])
  fix k
  assume "k \<in> set ys"
  moreover have "distinct (map f ys)" using assms(1,2) by (metis mset_eq_imp_distinct_iff mset_map)
  ultimately show "filter (\<lambda>x. f k = f x) ys = filter (\<lambda>x. f k = f x) xs"
    using assms(1) mset_eq_setD [OF assms(2)] by (simp add: filter_key_single)
qed

definition session_rows :: "'st session \<Rightarrow> payload list" where
  "session_rows s = map (timeline_row s) (ss_events s)"

text \<open>No payload carries a time stamp of its own: the code writes none.\<close>

definition unstamped :: "'st session \<Rightarrow> bool" where
  "unstamped s \<longleftrightarrow> dense (ss_events s) \<and> length (ss_events s) \<le> 2 ^ 53 \<and>
     (\<forall>e \<in> set (ss_events s). stringValue (pget (ev_payload e) ''timestamp'') = [])"

lemma session_keys:
  assumes "unstamped s"
  shows "map timeline_key (session_rows s) = map (\<lambda>n. ([], ss_id s, int n)) [0..<length (ss_events s)]"
proof (rule nth_equalityI)
  fix i
  assume "i < length (map timeline_key (session_rows s))"
  then have i: "i < length (ss_events s)" by (simp add: session_rows_def)
  then have "ev_seq (ss_events s ! i) = int i" "int i < 2 ^ 53"
    using assms by (auto simp: unstamped_def dense_nth)
  moreover have "stringValue (pget (ev_payload (ss_events s ! i)) ''timestamp'') = []"
    using assms i by (simp add: unstamped_def)
  ultimately show "map timeline_key (session_rows s) ! i =
      map (\<lambda>n. ([], ss_id s, int n)) [0..<length (ss_events s)] ! i"
    using i by (simp add: session_rows_def timeline_key_def timeline_row_def)
qed (simp add: session_rows_def)

lemma rows_sorted:
  assumes "\<forall>s \<in> set ss. unstamped s" and "sorted (map ss_id ss)" and "distinct (map ss_id ss)"
  shows "sorted (map timeline_key (concat (map session_rows ss))) \<and>
    distinct (map timeline_key (concat (map session_rows ss)))"
  using assms
proof (induction ss)
  case (Cons s ss)
  have own: "sorted (map timeline_key (session_rows s))" "distinct (map timeline_key (session_rows s))"
    using Cons.prems(1) by (auto simp: session_keys sorted_wrt_map distinct_map inj_on_def less_eq_prod_def
        intro!: sorted_wrt_mono_rel [OF _ sorted_wrt_upt])
  have "k < l" if k: "k \<in> timeline_key ` set (session_rows s)"
    and l: "l \<in> timeline_key ` (\<Union>t \<in> set ss. set (session_rows t))" for k l
  proof -
    from k have "k \<in> set (map timeline_key (session_rows s))" by simp
    then have "\<exists>n. k = ([], ss_id s, int n)" using Cons.prems(1) by (auto simp: session_keys)
    moreover from l obtain t where t: "t \<in> set ss" "l \<in> set (map timeline_key (session_rows t))" by auto
    then have "\<exists>n. l = ([], ss_id t, int n)" using Cons.prems(1) by (auto simp: session_keys)
    moreover have "ss_id s < ss_id t" using t(1) Cons.prems(2,3) by force
    ultimately show ?thesis by (auto simp: less_prod_def)
  qed
  then have between: "\<forall>k \<in> set (map timeline_key (session_rows s)).
      \<forall>l \<in> set (map timeline_key (concat (map session_rows ss))). k < l" by simp
  have rest: "sorted (map timeline_key (concat (map session_rows ss)))"
    "distinct (map timeline_key (concat (map session_rows ss)))" using Cons by simp_all
  have "sorted (map timeline_key (session_rows s) @ map timeline_key (concat (map session_rows ss)))"
    unfolding sorted_append using own(1) rest(1) between by (meson less_imp_le)
  moreover have "distinct (map timeline_key (session_rows s) @ map timeline_key (concat (map session_rows ss)))"
    unfolding distinct_append using own(2) rest(2) between by (metis disjoint_iff less_irrefl)
  ultimately show ?case by simp
qed simp

lemma sort_key_map_sorted: "sorted (map f (sort_key f xs))" "distinct (map f (sort_key f xs)) = distinct (map f xs)"
  by (simp_all add: distinct_map)

lemma mset_concat_map: "mset (concat (map f xs)) = (\<Sum>x \<in># mset xs. mset (f x))"
  by (induction xs) simp_all

lemma timeline_sessions:
  assumes "collectDescendants m [] sid = Inr ss" and "\<forall>s \<in> set ss. unstamped s"
    and "distinct (map ss_id ss)"
  shows "DescendantTimeline m sid = Inr (concat (map session_rows (sort_key ss_id ss)))"
proof -
  have sorted: "sorted (map timeline_key (concat (map session_rows (sort_key ss_id ss))))"
    "distinct (map timeline_key (concat (map session_rows (sort_key ss_id ss))))"
    using rows_sorted [of "sort_key ss_id ss"] assms(2,3) sort_key_map_sorted [of ss_id ss] by auto
  have same: "mset (concat (map session_rows (sort_key ss_id ss))) = mset (concat (map session_rows ss))"
    by (simp only: mset_concat_map mset_sort)
  then have "distinct (map timeline_key (concat (map session_rows ss)))"
    using sorted(2) by (metis mset_eq_imp_distinct_iff mset_map)
  from sort_key_unique [OF this same sorted(1)] show ?thesis
    using assms(1) by (simp add: DescendantTimeline_def session_rows_def [abs_def])
qed

section \<open>Spawning a child\<close>

text \<open>The sessions a host resolves after a run: the parent and the children the runner kept.\<close>

definition world_sessions :: "('h, 'st, 'w) world \<Rightarrow> 'st session_map" where
  "world_sessions w = (ss_id (w_session w), w_session w) # w_children w"

lemma append_w_published:
  assumes "lg_err (w_log (append_w env t p w)) = None"
  obtains e where "w_events (append_w env t p w) = w_events w @ [e]" "ev_type e = t" "ev_payload e = p"
    "lg_err (w_log w) = None"
  using assms by (cases rule: append_ev_cases [of env t p "w_log w" thesis for env]) auto

lemma session_append_w [simp]:
  "ss_id (w_session (append_w env t p w)) = ss_id (w_session w)"
  "ss_parent (w_session (append_w env t p w)) = ss_parent (w_session w)"
  "ss_spawn (w_session (append_w env t p w)) = ss_spawn (w_session w)"
  by (simp_all add: append_w_def on_log_def)

lemma runSpawnAgent_published:
  assumes "stringValue (pget args ''task'') \<noteq> []"
    and "re_newID env (w_ext w) = (u1, x1)" and "re_newID env x1 = (u2, x2)"
    and "w' = runSpawnAgent env toolUse args w" and "lg_err (w_log w') = None"
  obtains sp res child where
    "w_events w' = w_events w @ [sp, res]" "ev_type sp = EventAgentSpawn" "ev_type res = EventToolResult"
    "spawn_key sp = ''spn_'' @ u1" "spawn_child_id sp = ''ses_'' @ u2"
    "w_children w' = AList.update (''ses_'' @ u2) child (w_children w)"
    "ss_parent child = ss_id (w_session w)" "ss_spawn child = ''spn_'' @ u1" "agentSpawns child = []"
    "ss_id (w_session w') = ss_id (w_session w)" "ss_parent (w_session w') = ss_parent (w_session w)"
    "ss_spawn (w_session w') = ss_spawn (w_session w)"
proof -
  let ?task = "stringValue (pget args ''task'')"
  let ?meta = "optional_string ''role'' args (optional_string ''label'' args [])"
  let ?child = "spawn_child env w toolUse (''spn_'' @ u1) (''ses_'' @ u2) ?task ?meta"
  let ?w1 = "w\<lparr>w_ext := x2, w_children := AList.update (''ses_'' @ u2) ?child (w_children w)\<rparr>"
  obtain p q where pq: "w' = append_w env EventToolResult q (append_w env EventAgentSpawn p ?w1)"
    "pget p ''spawn_id'' = VStr (''spn_'' @ u1)" "pget p ''child_session_id'' = VStr (''ses_'' @ u2)"
    using assms(1-4) by (simp add: runSpawnAgent_def Let_def)
  obtain res where res: "w_events w' = w_events (append_w env EventAgentSpawn p ?w1) @ [res]"
    "ev_type res = EventToolResult" "lg_err (w_log (append_w env EventAgentSpawn p ?w1)) = None"
    using append_w_published [of env EventToolResult q "append_w env EventAgentSpawn p ?w1"] assms(5) pq(1) by metis
  obtain sp where sp: "w_events (append_w env EventAgentSpawn p ?w1) = w_events ?w1 @ [sp]"
    "ev_type sp = EventAgentSpawn" "ev_payload sp = p"
    using append_w_published [OF res(3)] by metis
  have "agentSpawns ?child = []"
    by (rule append_ev_cases [of "he_log env" EventUserMessage "[(''text'', VStr ?task)]" NewLog])
      (auto simp: agentSpawns_def spawn_child_def NewSession_def Let_def NewLog_def)
  moreover have "ss_parent ?child = ss_id (w_session w)" "ss_spawn ?child = ''spn_'' @ u1"
    by (simp_all add: spawn_child_def Let_def)
  ultimately show ?thesis
    using that [of sp res ?child] res sp pq by (simp add: spawn_key_def spawn_child_id_def)
qed

text \<open>One map is another with a child added to one of its sessions.\<close>

definition adds_child ::
    "'st session_map \<Rightarrow> 'st session_map \<Rightarrow> string \<Rightarrow> 'st session \<Rightarrow> 'st session \<Rightarrow> event \<Rightarrow> 'st session \<Rightarrow> bool"
where
  "adds_child m m' pid ps ps' sp child \<longleftrightarrow>
     sm_LoadSession m pid = Inr ps \<and> sm_LoadSession m' pid = Inr ps' \<and>
     ss_id ps' = ss_id ps \<and> ss_parent ps' = ss_parent ps \<and> ss_spawn ps' = ss_spawn ps \<and>
     agentSpawns ps' = agentSpawns ps @ [sp] \<and> agentResultForSpawn ps' = agentResultForSpawn ps \<and>
     \<not> is_ok (sm_LoadSession m (spawn_child_id sp)) \<and> sm_LoadSession m' (spawn_child_id sp) = Inr child \<and>
     ss_parent child = ss_id ps \<and> ss_spawn child = spawn_key sp \<and> agentSpawns child = [] \<and>
     (\<forall>k. k \<noteq> pid \<longrightarrow> k \<noteq> spawn_child_id sp \<longrightarrow> sm_LoadSession m' k = sm_LoadSession m k)"

lemma adds_childD:
  assumes "adds_child m m' pid ps ps' sp child"
  shows "sm_LoadSession m pid = Inr ps" "sm_LoadSession m' pid = Inr ps'"
    "ss_id ps' = ss_id ps" "ss_parent ps' = ss_parent ps" "ss_spawn ps' = ss_spawn ps"
    "agentSpawns ps' = agentSpawns ps @ [sp]" "agentResultForSpawn ps' = agentResultForSpawn ps"
    "\<not> is_ok (sm_LoadSession m (spawn_child_id sp))" "sm_LoadSession m' (spawn_child_id sp) = Inr child"
    "ss_parent child = ss_id ps" "ss_spawn child = spawn_key sp" "agentSpawns child = []"
    "spawn_child_id sp \<noteq> pid"
    "\<And>k. k \<noteq> pid \<Longrightarrow> k \<noteq> spawn_child_id sp \<Longrightarrow> sm_LoadSession m' k = sm_LoadSession m k"
proof -
  note d = assms [unfolded adds_child_def]
  from d show bad: "\<not> is_ok (sm_LoadSession m (spawn_child_id sp))" by (elim conjE)
  from d show load: "sm_LoadSession m pid = Inr ps" by (elim conjE)
  show "spawn_child_id sp \<noteq> pid" using bad load by (metis is_ok.simps(2))
  from d show "\<And>k. k \<noteq> pid \<Longrightarrow> k \<noteq> spawn_child_id sp \<Longrightarrow> sm_LoadSession m' k = sm_LoadSession m k"
    by (elim conjE) blast
qed (insert assms [unfolded adds_child_def], (elim conjE, assumption)+)

lemma adds_child_old_valid:
  assumes a: "adds_child m m' pid ps ps' sp child" and "is_ok (validateChildLink m s e)" and "ss_id s' = ss_id s"
  shows "is_ok (validateChildLink m' s' e)"
proof -
  obtain c where c: "sm_LoadSession m (spawn_child_id e) = Inr c" "ss_parent c = ss_id s" "ss_spawn c = spawn_key e"
    using assms(2) validateChildLink_Inr [of m s e] by (cases "validateChildLink m s e") auto
  note d = adds_childD [OF a]
  have "spawn_child_id e \<noteq> spawn_child_id sp" using d(8) c(1) by auto
  then have "\<exists>c'. sm_LoadSession m' (spawn_child_id e) = Inr c' \<and> ss_parent c' = ss_parent c \<and> ss_spawn c' = ss_spawn c"
    using c(1) d(1-5,14) by (cases "spawn_child_id e = pid") auto
  with c(2,3) assms(3) have "validateChildLink m' s' e = Inr ()" by (auto simp: validateChildLink_Inr)
  then show ?thesis by simp
qed

lemma adds_child_new_valid:
  "adds_child m m' pid ps ps' sp child \<Longrightarrow> validateChildLink m' ps' sp = Inr ()"
  using adds_childD(3,9,10,11) by (fastforce simp: validateChildLink_Inr)

lemma adds_child_link:
  assumes "adds_child m m' pid ps ps' sp child"
  shows "spawn_link m' a b \<longleftrightarrow>
    a \<noteq> spawn_child_id sp \<and> (spawn_link m a b \<or> a = pid \<and> b = spawn_child_id sp)"
proof -
  note d = adds_childD [OF assms]
  consider "a = pid" | "a = spawn_child_id sp" | "a \<noteq> pid" "a \<noteq> spawn_child_id sp" by blast
  then show ?thesis
  proof cases
    case 1
    have "spawn_link m' pid b \<longleftrightarrow> b \<in> spawn_child_id ` set (agentSpawns ps')"
      "spawn_link m pid b \<longleftrightarrow> b \<in> spawn_child_id ` set (agentSpawns ps)"
      by (rule spawn_link_iff [OF d(2)], rule spawn_link_iff [OF d(1)])
    with 1 d(6,13) show ?thesis by auto
  next
    case 2
    then show ?thesis using d(9,12) by (auto simp: spawn_link_def)
  next
    case 3
    then have "sm_LoadSession m' a = sm_LoadSession m a" by (rule d(14))
    with 3 show ?thesis by (simp add: spawn_link_def)
  qed
qed

lemma adds_child_sound:
  assumes a: "adds_child m m' pid ps ps' sp child" and sound: "sound_below one_result m [] pid"
    and none: "one_result ps sp"
  shows "sound_below one_result m' [] pid"
proof -
  let ?c = "spawn_child_id sp"
  note d = adds_childD [OF a]
  have reach: "(spawn_link m)\<^sup>*\<^sup>* pid k \<or> k = ?c" if "(spawn_link m')\<^sup>*\<^sup>* pid k" for k
    using that by induction (auto simp: adds_child_link [OF a] intro: rtranclp.rtrancl_into_rtrancl)
  have cyc: "(spawn_link m)\<^sup>+\<^sup>+ x y \<or> y = ?c" if "(spawn_link m')\<^sup>+\<^sup>+ x y" for x y
    using that by induction (auto simp: adds_child_link [OF a] intro: tranclp.intros)
  have leaf: "\<not> (spawn_link m')\<^sup>+\<^sup>+ ?c y" for y
    by (auto dest!: tranclpD simp: adds_child_link [OF a])
  have "links_ok one_result m' k \<and> \<not> (spawn_link m')\<^sup>+\<^sup>+ k k" if "(spawn_link m')\<^sup>*\<^sup>* pid k" for k
  proof (cases "k = ?c")
    case True
    then show ?thesis using d(9,12) leaf by (auto simp: links_ok_def)
  next
    case False
    with reach [OF that] sound have k: "links_ok one_result m k" "\<not> (spawn_link m)\<^sup>+\<^sup>+ k k"
      by (auto simp: sound_below_def)
    obtain s where s: "sm_LoadSession m k = Inr s"
      "\<forall>e \<in> set (agentSpawns s). is_ok (validateChildLink m s e) \<and> one_result s e"
      using k(1) by (auto simp: links_ok_def)
    have "links_ok one_result m' k"
    proof (cases "k = pid")
      case True
      with s(1) d(1) have [simp]: "s = ps" by simp
      have "\<forall>e \<in> set (agentSpawns ps'). is_ok (validateChildLink m' ps' e) \<and> one_result ps' e"
        using s(2) adds_child_old_valid [OF a _ d(3)] adds_child_new_valid [OF a] none d(6,7)
        by (auto simp: one_result_def)
      with True d(2) show ?thesis by (auto simp: links_ok_def)
    next
      case other: False
      then have "sm_LoadSession m' k = Inr s" using d(14) s(1) False by simp
      with s(2) adds_child_old_valid [OF a _ refl] show ?thesis by (auto simp: links_ok_def)
    qed
    moreover have "\<not> (spawn_link m')\<^sup>+\<^sup>+ k k" using cyc [of k k] k(2) False by blast
    ultimately show ?thesis ..
  qed
  then show ?thesis by (simp add: sound_below_def)
qed

lemma open_scan_append:
  "open_scan m s (xs @ ys) =
     bind_res (open_scan m s xs) (\<lambda>a. bind_res (open_scan m s ys) (\<lambda>b. Inr (a @ b)))"
proof (induction xs)
  case Nil
  then show ?case by (cases "open_scan m s ys") simp_all
next
  case (Cons x xs)
  then show ?case
    by (cases "validateChildLink m s x"; cases "agentResultForSpawn s (spawn_key x)";
        cases "open_scan m s xs"; cases "open_scan m s ys") simp_all
qed

lemma adds_child_open:
  assumes a: "adds_child m m' pid ps ps' sp child" and opn: "OpenChildren m pid = Inr ids"
    and none: "agentResultForSpawn ps (spawn_key sp) = Inr None"
  shows "OpenChildren m' pid = Inr (ids @ [spawn_key sp])"
proof -
  note d = adds_childD [OF a]
  have same: "open_scan m' ps' xs = Inr ys" if "open_scan m ps xs = Inr ys" for xs ys
    using that
  proof (induction xs arbitrary: ys)
    case (Cons x xs)
    then have "is_ok (validateChildLink m ps x)" by (auto simp: bind_res_Inr_iff)
    then have "is_ok (validateChildLink m' ps' x)" using adds_child_old_valid [OF a _ d(3)] by blast
    then have "validateChildLink m' ps' x = Inr ()" by (cases "validateChildLink m' ps' x") auto
    with Cons d(7) show ?case by (auto simp: bind_res_Inr_iff)
  qed simp
  have "open_scan m ps (agentSpawns ps) = Inr ids" using opn d(1) by (simp add: OpenChildren_def)
  from same [OF this] have "open_scan m' ps' (agentSpawns ps') = Inr (ids @ [spawn_key sp])"
    using d(6,7) none adds_child_new_valid [OF a] by (simp add: open_scan_append)
  with d(2) show ?thesis by (simp add: OpenChildren_def)
qed

lemma result_scan_others:
  "(\<forall>e \<in> set es'. ev_type e \<noteq> EventAgentResult) \<Longrightarrow> result_scan k found (es @ es') = result_scan k found es"
proof (induction es arbitrary: found)
  case Nil
  then show ?case by (induction es') auto
qed auto

lemma result_scan_none:
  "(\<forall>e \<in> set es. ev_type e = EventAgentResult \<longrightarrow> spawn_key e \<noteq> k) \<Longrightarrow> result_scan k found es = Inr found"
  by (induction es) auto

lemma runSpawnAgent_adds_child:
  assumes "stringValue (pget args ''task'') \<noteq> []"
    and "re_newID env (w_ext w) = (u1, x1)" and "re_newID env x1 = (u2, x2)"
    and "w' = runSpawnAgent env toolUse args w" and "lg_err (w_log w') = None"
    and fresh: "''ses_'' @ u2 \<notin> fst ` set (world_sessions w)"
  obtains sp child where
    "adds_child (world_sessions w) (world_sessions w') (ss_id (w_session w)) (w_session w) (w_session w') sp child"
    "spawn_key sp = ''spn_'' @ u1" "spawn_child_id sp = ''ses_'' @ u2"
proof -
  obtain sp res child where ev: "w_events w' = w_events w @ [sp, res]" "ev_type sp = EventAgentSpawn"
    "ev_type res = EventToolResult" and keys: "spawn_key sp = ''spn_'' @ u1" "spawn_child_id sp = ''ses_'' @ u2"
    and ch: "w_children w' = AList.update (''ses_'' @ u2) child (w_children w)"
    "ss_parent child = ss_id (w_session w)" "ss_spawn child = ''spn_'' @ u1" "agentSpawns child = []"
    and ps: "ss_id (w_session w') = ss_id (w_session w)" "ss_parent (w_session w') = ss_parent (w_session w)"
    "ss_spawn (w_session w') = ss_spawn (w_session w)"
    by (rule runSpawnAgent_published [OF assms(1-5)])
  have new: "''ses_'' @ u2 \<noteq> ss_id (w_session w)" "map_of (w_children w) (''ses_'' @ u2) = None"
    using fresh by (auto simp: world_sessions_def map_of_eq_None_iff)
  have spawns: "agentSpawns (w_session w') = agentSpawns (w_session w) @ [sp]"
    using ev by (simp add: agentSpawns_def)
  have results: "agentResultForSpawn (w_session w') = agentResultForSpawn (w_session w)"
    by (rule ext) (simp add: agentResultForSpawn_def ev result_scan_others)
  have load: "sm_LoadSession (world_sessions w') k =
      (if k = ss_id (w_session w) then Inr (w_session w') else if k = ''ses_'' @ u2 then Inr child
       else sm_LoadSession (world_sessions w) k)" for k
    by (auto simp: sm_LoadSession_def world_sessions_def ps ch map_of_update_iff)
  have "adds_child (world_sessions w) (world_sessions w') (ss_id (w_session w)) (w_session w) (w_session w') sp child"
    unfolding adds_child_def using new
    by (simp add: load spawns results keys ps ch)
      (simp add: sm_LoadSession_def world_sessions_def)
  then show ?thesis using keys by (rule that)
qed

end
