(* ===== verification/SessionFile.thy ===== *)
theory SessionFile
  imports FileProps Jcs
begin

text \<open>
  The session files of \<^verbatim>\<open>session.go\<close> (\<^verbatim>\<open>Save\<close>, \<^verbatim>\<open>LoadSession\<close>), which are written in place and
  not through an adapter, \<^verbatim>\<open>VerifySessionPortable\<close> (portability.go), and the store of capability
  manifests (capability\_manifest.go).  A path is its contents together with what the file system
  answers to each step.
\<close>

record session_path =
  sp_file :: "string option"
  sp_create :: "string option"
  sp_write :: "nat \<Rightarrow> (nat \<times> string) option" \<comment> \<open>of the n-th record: bytes written, error\<close>
  sp_read :: "string option"
  sp_missing :: string

section \<open>Save\<close>

text \<open>The row of an event: an event without an identifier gets one.\<close>

definition saved_row :: "'st log_env \<Rightarrow> event \<Rightarrow> event_row" where
  "saved_row env e =
     \<lparr>rw_seq = ev_seq e, rw_id = (if ev_id e = [] then eventID env (ev_seq e) (ev_payload e) else ev_id e),
      rw_timestamp = ev_timestamp e, rw_type = ev_type e, rw_payload = ev_payload e, rw_hash = []\<rparr>"

definition saved_records :: "'st log_env \<Rightarrow> 'st session \<Rightarrow> payload list" where
  "saved_records env s =
     headerMap (header_of_session s) # map (\<lambda>e. eventRowMap (saved_row env e) False) (lg_events (ss_log s))"

fun save_records :: "(nat \<Rightarrow> (nat \<times> string) option) \<Rightarrow> nat \<Rightarrow> payload list \<Rightarrow> (string + unit) \<times> string" where
  "save_records fault i [] = (Inr (), [])"
| "save_records fault i (m # ms) =
     (case json_marshal False (VMap m) of
        Inl e \<Rightarrow> (Inl e, [])
      | Inr t \<Rightarrow>
          (case fault i of
             Some (n, e) \<Rightarrow> (Inl e, take n (t @ [CHR 0x0A]))
           | None \<Rightarrow> (case save_records fault (Suc i) ms of (r, rest) \<Rightarrow> (r, t @ CHR 0x0A # rest))))"

text \<open>\<^verbatim>\<open>os.Create\<close> empties the file before the first record is encoded.\<close>

definition Save :: "'st log_env \<Rightarrow> 'st session \<Rightarrow> session_path \<Rightarrow> (string + unit) \<times> session_path" where
  "Save env s p =
     (case sp_create p of
        Some e \<Rightarrow> (Inl e, p)
      | None \<Rightarrow>
          (case save_records (sp_write p) 0 (saved_records env s) of
             (r, contents) \<Rightarrow> (r, p\<lparr>sp_file := Some contents\<rparr>)))"

section \<open>LoadSession\<close>

fun split_json :: "string \<Rightarrow> string \<Rightarrow> string list" where
  "split_json cur [] = (if cur = [] then [] else [cur])"
| "split_json cur (c # s) =
     (if c = CHR 0x0A then (if cur = [] then [] else [cur]) @ split_json [] s
      else split_json (cur @ [c]) s)"

definition splitJSONLines :: "string \<Rightarrow> string list" where
  "splitJSONLines data = split_json [] data"

definition session_row_fields :: "string list" where
  "session_row_fields = [''seq'', ''id'', ''timestamp'', ''type'', ''payload'']"

definition set_session_row_field :: "string \<Rightarrow> val \<Rightarrow> event_row \<Rightarrow> event_row option" where
  "set_session_row_field k v r =
     (case match_field session_row_fields k of None \<Rightarrow> Some r | Some f \<Rightarrow> set_row_field f v r)"

definition restored_event :: "event_row \<Rightarrow> event" where
  "restored_event r =
     \<lparr>ev_id = rw_id r, ev_seq = rw_seq r, ev_timestamp = rw_timestamp r, ev_type = rw_type r,
      ev_payload = rw_payload r, ev_hash = []\<rparr>"

definition decode_session_row :: "(string \<Rightarrow> string) \<Rightarrow> string \<Rightarrow> string + event_row" where
  "decode_session_row je line =
     (case json_decode_first number_mode line of
        None \<Rightarrow> Inl (je line)
      | Some (v, r) \<Rightarrow>
          (case decode_struct set_session_row_field zero_row v of None \<Rightarrow> Inl (je line) | Some row \<Rightarrow> Inr row))"

fun load_rows :: "(string \<Rightarrow> string) \<Rightarrow> nat \<Rightarrow> string list \<Rightarrow> 'st slog \<Rightarrow> string + 'st slog" where
  "load_rows je index [] lg = Inr lg"
| "load_rows je index (line # lines) lg =
     (case decode_session_row je line of
        Inl e \<Rightarrow> Inl e
      | Inr row \<Rightarrow>
          if rw_seq row \<noteq> int index
          then Inl (''invalid event seq at row '' @ show_nat (Suc index) @ '': got '' @ show_int (rw_seq row)
                 @ '', want '' @ show_nat index)
          else load_rows je (Suc index) lines (Restore (restored_event row) lg))"

definition LoadSession :: "(string \<Rightarrow> string) \<Rightarrow> session_path \<Rightarrow> string + 'st session" where
  "LoadSession je p =
     (case sp_read p of
        Some e \<Rightarrow> Inl e
      | None \<Rightarrow>
          (case sp_file p of
             None \<Rightarrow> Inl (sp_missing p)
           | Some data \<Rightarrow>
               (case splitJSONLines data of
                  [] \<Rightarrow> Inl ''session file is empty''
                | l # lines \<Rightarrow>
                    (case decodeSessionHeader je l of
                       Inl e \<Rightarrow> Inl e
                     | Inr h \<Rightarrow>
                         (case load_rows je 0 lines NewLog of
                            Inl e \<Rightarrow> Inl e
                          | Inr lg \<Rightarrow>
                              Inr ((NewSession (sh_id h) (Some lg) (sh_metadata h))
                                \<lparr>ss_parent := sh_parent h, ss_root := sh_root h, ss_spawn := sh_spawn h,
                                 ss_spawned_by := sh_spawned_by h,
                                 ss_chain := cloneDelegationChain (sh_chain h)\<rparr>))))))"

section \<open>VerifySessionPortable\<close>

definition eventToRow :: "event \<Rightarrow> event_row" where
  "eventToRow e =
     \<lparr>rw_seq = ev_seq e, rw_id = ev_id e, rw_timestamp = ev_timestamp e, rw_type = ev_type e,
      rw_payload = ev_payload e, rw_hash = []\<rparr>"

datatype portable_error =
    NilSession
  | NonDenseSeq nat int
  | NotHashable int event_type jcs_error
  | TempFailed string
  | DoesNotSave string
  | DoesNotReload string
  | CountChanged nat nat
  | ReloadedNotHashable int jcs_error
  | ContentAltered int

fun first_pass :: "(string \<Rightarrow> string) \<Rightarrow> nat \<Rightarrow> event list \<Rightarrow> portable_error + string list" where
  "first_pass sha256 i [] = Inr []"
| "first_pass sha256 i (e # es) =
     (if ev_seq e \<noteq> int i then Inl (NonDenseSeq i (ev_seq e))
      else case ContentHashForEventRow sha256 (eventToRow e) of
             Inl err \<Rightarrow> Inl (NotHashable (ev_seq e) (ev_type e) err)
           | Inr h \<Rightarrow> bind_res (first_pass sha256 (Suc i) es) (\<lambda>hs. Inr (h # hs)))"

fun second_pass :: "(string \<Rightarrow> string) \<Rightarrow> event list \<Rightarrow> string list \<Rightarrow> portable_error option" where
  "second_pass sha256 (e # es) (h # hs) =
     (case ContentHashForEventRow sha256 (eventToRow e) of
        Inl err \<Rightarrow> Some (ReloadedNotHashable (ev_seq e) err)
      | Inr h' \<Rightarrow> if h' \<noteq> h then Some (ContentAltered (ev_seq e)) else second_pass sha256 es hs)"
| "second_pass sha256 es hs = None"

text \<open>\<open>tmp\<close> is the temporary file, or why there is none.\<close>

definition VerifySessionPortable ::
    "'st log_env \<Rightarrow> (string \<Rightarrow> string) \<Rightarrow> (string \<Rightarrow> string) \<Rightarrow> string + session_path \<Rightarrow> 'st session option \<Rightarrow>
     portable_error option" where
  "VerifySessionPortable env je sha256 tmp session =
     (case session of
        None \<Rightarrow> Some NilSession
      | Some s \<Rightarrow>
          (case first_pass sha256 0 (lg_events (ss_log s)) of
             Inl e \<Rightarrow> Some e
           | Inr origHashes \<Rightarrow>
               (case tmp of
                  Inl e \<Rightarrow> Some (TempFailed e)
                | Inr p \<Rightarrow>
                    (case Save env s p of
                       (Inl e, p') \<Rightarrow> Some (DoesNotSave e)
                     | (Inr u, p') \<Rightarrow>
                         (case LoadSession je p' :: string + 'st session of
                            Inl e \<Rightarrow> Some (DoesNotReload e)
                          | Inr reloaded \<Rightarrow>
                              let back = lg_events (ss_log reloaded)
                              in if length (lg_events (ss_log s)) \<noteq> length back
                                 then Some (CountChanged (length (lg_events (ss_log s))) (length back))
                                 else second_pass sha256 back origHashes)))))"

section \<open>Capability manifests\<close>

definition CapabilityManifestRef :: "(string \<Rightarrow> string) \<Rightarrow> val \<Rightarrow> string + string" where
  "CapabilityManifestRef sha256 manifest =
     (case json_marshal True manifest of Inl e \<Rightarrow> Inl e | Inr data \<Rightarrow> Inr (''cap_sha256_'' @ sha256 data))"

type_synonym manifest_store = "(string \<times> val) list"

definition NewMemoryCapabilityManifestStore :: manifest_store where
  "NewMemoryCapabilityManifestStore = []"

definition cap_Put :: "(string \<Rightarrow> string) \<Rightarrow> val \<Rightarrow> manifest_store \<Rightarrow> (string + string) \<times> manifest_store" where
  "cap_Put sha256 manifest s =
     (case CapabilityManifestRef sha256 manifest of
        Inl e \<Rightarrow> (Inl e, s)
      | Inr ref \<Rightarrow> (Inr ref, AList.update ref manifest s))"

definition cap_Get :: "string \<Rightarrow> manifest_store \<Rightarrow> val option" where
  "cap_Get ref s = map_of s ref"

end
