(* ===== verification/SessionFileProps.thy ===== *)
theory SessionFileProps
  imports SessionFile JcsProps FileStore
begin

text \<open>
  What \<^verbatim>\<open>LoadSession\<close> makes of a file \<^verbatim>\<open>Save\<close> wrote, when a write failed and when none did, and
  what \<^verbatim>\<open>VerifySessionPortable\<close> establishes.
\<close>

section \<open>The lines of a session file\<close>

lemma split_json_line:
  "one_line t \<Longrightarrow> cur @ t \<noteq> [] \<Longrightarrow> split_json cur (t @ CHR 0x0A # s) = (cur @ t) # split_json [] s"
  by (induction t arbitrary: cur) (auto simp: one_line_def)

lemma split_json_rest: "one_line t \<Longrightarrow> split_json cur t = (if cur @ t = [] then [] else [cur @ t])"
  by (induction t arbitrary: cur) (auto simp: one_line_def)

lemma splitJSONLines_unlines:
  "list_all (\<lambda>t. one_line t \<and> t \<noteq> []) ts \<Longrightarrow> one_line u \<Longrightarrow>
     splitJSONLines (unlines ts @ u) = ts @ (if u = [] then [] else [u])"
  unfolding splitJSONLines_def by (induction ts) (simp_all add: unlines_def split_json_line split_json_rest)

section \<open>Rows\<close>

text \<open>An event that survives: valid JSON, a type read as itself, a number of 64 bits.\<close>

definition row_json :: "event_row \<Rightarrow> bool" where
  "row_json r \<longleftrightarrow>
     json_ok number_mode 10000 (VMap (row_members r)) \<and> rw_hash r = [] \<and>
     event_type_of (event_type_string (rw_type r)) = rw_type r \<and> - (2 ^ 63) \<le> rw_seq r \<and> rw_seq r < 2 ^ 63"

lemma row_members_plain: "rw_hash r = [] \<Longrightarrow> row_members r = eventRowMap r False"
  by (simp add: row_members_def)

lemma decode_session_row_text:
  assumes "row_json r"
  shows "decode_session_row je (row_text r) = Inr (stored_row r)"
proof -
  have "json_decode_first number_mode (row_text r) = Some (decoded number_mode (VMap (row_members r)), [])"
    using assms by (intro decode_row_text) (simp add: row_json_def)
  moreover have "atoi (show_int (rw_seq r)) = Some (rw_seq r)"
    using assms by (intro atoi_show_int) (simp_all add: row_json_def)
  moreover have "event_type_of (event_type_string (rw_type r)) = rw_type r" "rw_hash r = []"
    using assms by (simp_all add: row_json_def)
  ultimately show ?thesis
    by (auto simp: decode_session_row_def decoded_row_members decode_struct_def set_session_row_field_def
        set_row_field_def match_field_def row_fields_def session_row_fields_def set_string_def set_int_def
        set_map_def zero_row_def stored_row_def)
qed

definition loaded_event :: "'st log_env \<Rightarrow> event \<Rightarrow> event" where
  "loaded_event env e = restored_event (stored_row (saved_row env e))"

lemma load_rows_texts:
  assumes "list_all row_json rs" and "\<And>i. i < length rs \<Longrightarrow> rw_seq (rs ! i) = int (index + i)"
  shows "load_rows je index (map row_text rs @ ls) lg =
    load_rows je (index + length rs) ls
      (lg\<lparr>lg_events := lg_events lg @ map (\<lambda>r. restored_event (stored_row r)) rs\<rparr>)"
  using assms
proof (induction rs arbitrary: index lg)
  case (Cons r rs)
  have "rw_seq r = int index" using Cons.prems(2) [of 0] by simp
  moreover have "rw_seq (rs ! i) = int (Suc index + i)" if "i < length rs" for i
    using Cons.prems(2) [of "Suc i"] that by simp
  moreover have "decode_session_row je (row_text r) = Inr (stored_row r)"
    using Cons.prems(1) by (simp add: decode_session_row_text)
  moreover have "rw_seq (stored_row r) = rw_seq r" by (simp add: stored_row_def)
  ultimately show ?case
    using Cons.IH [of "Suc index"] Cons.prems(1) by (simp add: Restore_def)
qed simp

section \<open>Sessions\<close>

definition session_storable :: "'st log_env \<Rightarrow> 'st session \<Rightarrow> bool" where
  "session_storable env s \<longleftrightarrow>
     json_ok float_mode 10000 (VMap (headerMap (header_of_session s))) \<and>
     dense (lg_events (ss_log s)) \<and> list_all (\<lambda>e. row_json (saved_row env e)) (lg_events (ss_log s))"

text \<open>The texts of the records, and a session made of a header and events.\<close>

definition record_texts :: "'st log_env \<Rightarrow> 'st session \<Rightarrow> string list" where
  "record_texts env s =
     header_text (header_of_session s) # map (\<lambda>e. row_text (saved_row env e)) (lg_events (ss_log s))"

definition loaded_session :: "session_header \<Rightarrow> event list \<Rightarrow> 'st session" where
  "loaded_session h es =
     \<lparr>ss_id = sh_id h, ss_log = NewLog\<lparr>lg_events := es\<rparr>, ss_metadata = sh_metadata h, ss_parent = sh_parent h,
      ss_root = sh_root h, ss_spawn = sh_spawn h, ss_spawned_by = sh_spawned_by h, ss_chain = sh_chain h\<rparr>"

lemma loaded_session_simps [simp]:
  "header_of_session (loaded_session h es) = h" "lg_events (ss_log (loaded_session h es)) = es"
  "lg_storage (ss_log (loaded_session h es)) = None"
  by (simp_all add: loaded_session_def header_of_session_def NewLog_def)

lemma record_texts_def2: "session_storable env s \<Longrightarrow>
    record_texts env s = map (\<lambda>m. json_text False (VMap m)) (saved_records env s)"
  by (auto simp: record_texts_def saved_records_def header_text_def row_text_def row_members_plain saved_row_def
      simp del: json_text.simps)

lemma saved_records_json:
  assumes "session_storable env s" and "m \<in> set (saved_records env s)"
  shows "\<exists>nm. json_ok nm 10000 (VMap m)"
proof -
  from assms(2) consider "m = headerMap (header_of_session s)"
    | e where "e \<in> set (lg_events (ss_log s))" "m = eventRowMap (saved_row env e) False"
    by (auto simp: saved_records_def)
  then show ?thesis
  proof cases
    case 1
    with assms(1) show ?thesis by (auto simp: session_storable_def simp del: json_ok.simps)
  next
    case 2
    then have "row_json (saved_row env e)" using assms(1) by (auto simp: session_storable_def list_all_iff)
    with 2(2) show ?thesis by (auto simp: row_json_def row_members_plain simp del: json_ok.simps)
  qed
qed

lemma json_object_nonempty: "json_text html (VMap m) \<noteq> []"
  by (simp add: json_object_def)

lemma record_texts_lines:
  assumes "session_storable env s"
  shows "list_all (\<lambda>t. one_line t \<and> t \<noteq> []) (record_texts env s)"
  unfolding record_texts_def2 [OF assms] list_all_iff
proof
  fix t
  assume "t \<in> set (map (\<lambda>m. json_text False (VMap m)) (saved_records env s))"
  then obtain m where m: "m \<in> set (saved_records env s)" "t = json_text False (VMap m)" by auto
  obtain nm where "json_ok nm 10000 (VMap m)" using saved_records_json [OF assms m(1)] by blast
  then have "one_line t" unfolding m(2) by (rule one_line_json(1))
  moreover have "t \<noteq> []" unfolding m(2) by (rule json_object_nonempty)
  ultimately show "one_line t \<and> t \<noteq> []" ..
qed

lemma save_records_prefix:
  assumes "\<And>m. m \<in> set ms \<Longrightarrow> bad_numbers (VMap m) = []"
    and "\<And>j. j < k \<Longrightarrow> fault (i + j) = None" and "k \<le> length ms"
  shows "save_records fault i ms =
    (case save_records fault (i + k) (drop k ms) of
       (r, rest) \<Rightarrow> (r, unlines (map (\<lambda>m. json_text False (VMap m)) (take k ms)) @ rest))"
  using assms
proof (induction k arbitrary: i ms)
  case (Suc k)
  then obtain m ms' where ms: "ms = m # ms'" by (cases ms) auto
  have "fault (Suc i + j) = None" if "j < k" for j using Suc.prems(2) [of "Suc j"] that by simp
  moreover have "fault i = None" using Suc.prems(2) [of 0] by simp
  moreover have "json_marshal False (VMap m) = Inr (json_text False (VMap m))"
    using Suc.prems(1) [of m] by (simp add: ms json_marshal_def del: bad_numbers.simps json_text.simps)
  ultimately show ?case using Suc.IH [of ms' "Suc i"] Suc.prems(1,3)
    by (auto simp: ms unlines_def split: prod.splits simp del: bad_numbers.simps json_text.simps)
qed (simp add: unlines_def split: prod.splits)


text \<open>What was written when the k-th record failed, or when no write did.\<close>

lemma record_texts_numbers:
  assumes "session_storable env s" and "m \<in> set (saved_records env s)"
  shows "bad_numbers (VMap m) = []"
  using saved_records_json [OF assms] json_ok_numbers(1) by blast

lemma Save_ok:
  assumes "session_storable env s" and "sp_create p = None" and "sp_write p = (\<lambda>i. None)"
  shows "Save env s p = (Inr (), p\<lparr>sp_file := Some (unlines (record_texts env s))\<rparr>)"
proof -
  have "save_records (sp_write p) 0 (saved_records env s) = (Inr (), unlines (record_texts env s))"
    using save_records_prefix [of "saved_records env s" "length (saved_records env s)" "sp_write p" 0]
      record_texts_numbers [OF assms(1)] assms(3)
    unfolding record_texts_def2 [OF assms(1)] by simp
  then show ?thesis using assms(2) by (simp add: Save_def)
qed

lemma Save_torn:
  assumes "session_storable env s" and "sp_create p = None" and "sp_write p k = Some (n, err)"
    and "\<And>j. j < k \<Longrightarrow> sp_write p j = None" and "k \<le> length (lg_events (ss_log s))"
  shows "Save env s p =
    (Inl err, p\<lparr>sp_file := Some (unlines (take k (record_texts env s)) @ take n (record_texts env s ! k @ [CHR 0x0A]))\<rparr>)"
proof -
  let ?ms = "saved_records env s"
  have k: "k < length ?ms" using assms(5) by (simp add: saved_records_def)
  have "save_records (sp_write p) k (drop k ?ms) = (Inl err, take n (record_texts env s ! k @ [CHR 0x0A]))"
    unfolding Cons_nth_drop_Suc [OF k, symmetric]
    using assms(3) record_texts_numbers [OF assms(1) nth_mem [OF k]] k
    by (simp add: json_marshal_def record_texts_def2 [OF assms(1)] del: bad_numbers.simps json_text.simps)
  then have "save_records (sp_write p) 0 ?ms =
      (Inl err, unlines (take k (record_texts env s)) @ take n (record_texts env s ! k @ [CHR 0x0A]))"
    using save_records_prefix [of ?ms k "sp_write p" 0] record_texts_numbers [OF assms(1)] assms(4) k
    by (simp add: record_texts_def2 [OF assms(1)] take_map)
  then show ?thesis using assms(2) by (simp add: Save_def)
qed

lemma LoadSession_texts:
  assumes "session_storable env s" and "sp_read p = None"
    and "sp_file p = Some (unlines (take (Suc k) (record_texts env s)))" and "k \<le> length (lg_events (ss_log s))"
  shows "LoadSession je p = Inr (loaded_session (stored_header (header_of_session s))
    (map (loaded_event env) (take k (lg_events (ss_log s)))) :: 'st session)"
proof -
  let ?es = "take k (lg_events (ss_log s))" and ?h = "header_of_session s"
  have texts: "take (Suc k) (record_texts env s) = header_text ?h # map row_text (map (saved_row env) ?es)"
    by (simp add: record_texts_def take_map)
  have "list_all (\<lambda>t. one_line t \<and> t \<noteq> []) (take (Suc k) (record_texts env s))"
    using record_texts_lines [OF assms(1)] by (auto simp: list_all_iff dest: in_set_takeD)
  then have lines: "splitJSONLines (unlines (take (Suc k) (record_texts env s)))
      = header_text ?h # map row_text (map (saved_row env) ?es)"
    using splitJSONLines_unlines [of "take (Suc k) (record_texts env s)" "[]"] by (simp add: texts)
  have rows: "list_all row_json (map (saved_row env) ?es)"
    using assms(1) by (auto simp: session_storable_def list_all_iff dest: in_set_takeD)
  have seq: "rw_seq (map (saved_row env) ?es ! i) = int (0 + i)" if "i < length (map (saved_row env) ?es)" for i
    using that assms(1) by (simp add: session_storable_def saved_row_def dense_nth)
  have load: "load_rows je 0 (map row_text (map (saved_row env) ?es)) NewLog =
      Inr (NewLog\<lparr>lg_events := map (loaded_event env) ?es\<rparr> :: 'st slog)"
    using load_rows_texts [OF rows seq, where ls = "[]" and lg = NewLog]
    by (simp add: loaded_event_def [abs_def] comp_def NewLog_def)
  have head: "decodeSessionHeader je (header_text ?h) = Inr (stored_header ?h)"
    using assms(1) by (intro decode_header_json) (simp add: session_storable_def)
  have clone: "cloneDelegationChain c = c" for c by (simp add: cloneDelegationChain_def)
  show ?thesis
    by (simp add: LoadSession_def assms(2,3) lines head load NewSession_def loaded_session_def clone
        del: map_map list.map)
qed

section \<open>Portability\<close>

text \<open>Values without numbers of an unbounded text have a canonical form.\<close>

fun plain_value :: "val \<Rightarrow> bool" and plain_members :: "payload \<Rightarrow> bool" where
  "plain_value (VFloat x) = False"
| "plain_value (VStrs ss) = False"
| "plain_value (VNum s) = False"
| "plain_value (VList vs) = list_all plain_value vs"
| "plain_value (VMaps ms) = list_all plain_members ms"
| "plain_value (VMap m) = plain_members m"
| "plain_value v = True"
| "plain_members [] = True"
| "plain_members ((k, v) # m) = (plain_value v \<and> plain_members m)"

lemma join_ok_ok: "is_ok (join_ok xs) \<longleftrightarrow> list_all is_ok xs"
  by (induction xs rule: join_ok.induct) (auto split: sum.splits)

lemma jcs_list_ok: "is_ok (jcs_list xs) \<longleftrightarrow> list_all is_ok xs"
  using join_ok_ok [of xs] by (auto simp: jcs_list_def split: sum.splits)

lemma jcs_object_ok:
  "is_ok (jcs_object kvs) \<longleftrightarrow> list_all (\<lambda>kv. valid_utf8 (fst kv) \<and> is_ok (snd kv)) kvs"
proof -
  have "is_ok (jcs_member kv) = is_ok (snd kv)" for kv by (auto simp: jcs_member_def split: sum.splits)
  then show ?thesis
    using join_ok_ok [of "map jcs_member (sort_key (\<lambda>kv. key_order (fst kv)) kvs)"]
    by (auto simp: jcs_object_def list_all_iff split: sum.splits)
qed

lemma plain_canonical:
  "json_ok nm d v \<Longrightarrow> plain_value v \<Longrightarrow> is_ok (writeJCSV1 v)"
  "json_ok_members nm d m \<Longrightarrow> plain_members m \<Longrightarrow>
     list_all (\<lambda>kv. valid_utf8 (fst kv) \<and> is_ok (snd kv)) (jcs_members m)"
  by (induction nm d v and nm d m rule: json_ok_json_ok_members.induct)
    (auto simp: jcs_list_ok jcs_object_ok list_all_iff)

lemma plain_hashable:
  "plain_value v \<Longrightarrow> hashable v" "plain_members m \<Longrightarrow> members_hashable m"
  by (induction v and m rule: plain_value_plain_members.induct) (auto simp: list_all_iff)

lemma plain_row_hash:
  assumes "json_ok number_mode 10000 (VMap (row_members r))" and "plain_members (rw_payload r)"
  shows "is_ok (ContentHashForEventRow sha256 r)"
proof -
  have "json_ok number_mode 9999 (VMap (rw_payload r)) \<and> valid_utf8 (rw_id r) \<and> valid_utf8 (rw_timestamp r) \<and>
      valid_utf8 (event_type_string (rw_type r))"
    using assms(1) by (auto simp: row_members_def eventRowMap_def)
  moreover from this have "is_ok (writeJCSV1 (VMap (rw_payload r)))"
    using assms(2) by (intro plain_canonical(1)) auto
  ultimately have "is_ok (writeJCSV1 (VMap (hashed_members r)))"
    using ascii_utf8 by (auto simp: hashed_members_def jcs_object_ok ascii_def byte_def)
  then show ?thesis by (auto simp: ContentHashForEventRow_def split: sum.splits)
qed

lemma hash_stored_row:
  assumes "json_ok number_mode 10000 (VMap (row_members r))" and "members_hashable (rw_payload r)"
  shows "ContentHashForEventRow sha256 (stored_row r) = ContentHashForEventRow sha256 r"
proof -
  have "keys_distinct (VMap (rw_payload r))"
    using json_ok_distinct(1) [OF assms(1)] by (simp add: row_members_def eventRowMap_def)
  then have "writeJCSV1 (decoded number_mode (VMap (rw_payload r))) = writeJCSV1 (VMap (rw_payload r))"
    using assms(2) by (intro jcs_decoded(1)) simp_all
  then have "writeJCSV1 (VMap (stored_payload (rw_payload r))) = writeJCSV1 (VMap (rw_payload r))"
    by (simp add: stored_payload_def)
  then show ?thesis
    by (simp add: ContentHashForEventRow_def hashed_members_def stored_row_def)
qed

lemma eventToRow_loaded: "eventToRow (loaded_event env e) = stored_row (saved_row env e)"
  by (simp add: eventToRow_def loaded_event_def restored_event_def stored_row_def saved_row_def)

lemma saved_row_named: "ev_id e \<noteq> [] \<Longrightarrow> saved_row env e = eventToRow e"
  by (simp add: saved_row_def eventToRow_def)

lemma first_pass_ok:
  "first_pass sha256 i es = Inr hs \<longleftrightarrow>
     (\<forall>j < length es. ev_seq (es ! j) = int (i + j)) \<and>
     map (\<lambda>e. ContentHashForEventRow sha256 (eventToRow e)) es = map Inr hs"
proof (induction es arbitrary: i hs)
  case (Cons e es)
  have nth: "(\<forall>j < length (e # es). ev_seq ((e # es) ! j) = int (i + j)) \<longleftrightarrow>
      ev_seq e = int i \<and> (\<forall>j < length es. ev_seq (es ! j) = int (Suc i + j))"
    by (auto simp: less_Suc_eq_0_disj)
  show ?case
    unfolding nth by (cases "ContentHashForEventRow sha256 (eventToRow e)")
      (auto simp: bind_res_Inr_iff Cons.IH Cons_eq_map_conv)
qed auto

lemma second_pass_ok:
  "length es = length hs \<Longrightarrow> second_pass sha256 es hs = None \<longleftrightarrow>
     map (\<lambda>e. ContentHashForEventRow sha256 (eventToRow e)) es = map Inr hs"
  by (induction es hs rule: list_induct2) (auto split: sum.splits)

lemma verify_exact:
  fixes s :: "'st session"
  assumes "session_storable env s" and "sp_create p = None" and "sp_write p = (\<lambda>i. None)" and "sp_read p = None"
  shows "VerifySessionPortable env je sha256 (Inr p) (Some s) = None \<longleftrightarrow>
    (\<forall>e \<in> set (lg_events (ss_log s)). \<exists>h. ContentHashForEventRow sha256 (eventToRow e) = Inr h \<and>
       ContentHashForEventRow sha256 (eventToRow (loaded_event env e)) = Inr h)"
proof -
  let ?es = "lg_events (ss_log s)" and ?hash = "\<lambda>e. ContentHashForEventRow sha256 (eventToRow e)"
  let ?p = "p\<lparr>sp_file := Some (unlines (record_texts env s))\<rparr>"
  have load: "LoadSession je ?p = Inr (loaded_session (stored_header (header_of_session s))
      (map (loaded_event env) ?es) :: 'st session)"
    using LoadSession_texts [OF assms(1), of ?p "length ?es"] assms(4) by (simp add: record_texts_def)
  have dense: "\<forall>j < length ?es. ev_seq (?es ! j) = int (0 + j)"
    using assms(1) by (simp add: session_storable_def dense_nth)
  show ?thesis
  proof (cases "first_pass sha256 0 ?es")
    case (Inl err)
    have "\<exists>e \<in> set ?es. \<not> is_ok (?hash e)"
    proof (rule ccontr)
      assume "\<not> ?thesis"
      then have "map ?hash ?es = map Inr (map (\<lambda>e. projr (?hash e)) ?es)"
        by (auto simp: is_ok.simps split: sum.splits) (metis is_ok.elims(2) sum.sel(2))
      with dense Inl first_pass_ok [of sha256 0 ?es] show False by fastforce
    qed
    with Inl show ?thesis by (force simp: VerifySessionPortable_def)
  next
    case (Inr hs)
    then have hs: "map ?hash ?es = map Inr hs" by (simp add: first_pass_ok)
    then have len: "length hs = length ?es" by (metis length_map)
    have "VerifySessionPortable env je sha256 (Inr p) (Some s) = second_pass sha256 (map (loaded_event env) ?es) hs"
      using Inr load by (simp add: VerifySessionPortable_def Save_ok [OF assms(1-3)] loaded_session_def Let_def)
    then have "VerifySessionPortable env je sha256 (Inr p) (Some s) = None \<longleftrightarrow>
        map ?hash (map (loaded_event env) ?es) = map ?hash ?es"
      using len by (simp add: second_pass_ok hs del: map_map)
    moreover have "\<exists>h. ?hash e = Inr h" if "e \<in> set ?es" for e
    proof -
      have "?hash e \<in> set (map Inr hs)" using that hs by (metis image_eqI list.set_map)
      then show ?thesis by auto
    qed
    ultimately show ?thesis by (fastforce simp: map_eq_conv)
  qed
qed

lemma saved_again:
  assumes "session_storable env s"
  shows "map (\<lambda>e. row_text (saved_row env' (loaded_event env e))) (lg_events (ss_log s)) =
    map (\<lambda>e. row_text (saved_row env e)) (lg_events (ss_log s))"
proof (rule map_cong [OF refl])
  fix e
  have "rw_id (saved_row env e) \<noteq> []" by (simp add: saved_row_def eventID_def)
  then have "saved_row env' (loaded_event env e) = stored_row (saved_row env e)"
    using eventToRow_loaded [of env e] saved_row_named [of "loaded_event env e" env']
    by (simp add: loaded_event_def restored_event_def stored_row_def)
  then show "row_text (saved_row env' (loaded_event env e)) = row_text (saved_row env e)"
    by (simp add: row_text_stored)
qed

end
