(* ===== verification/StateExamples.thy ===== *)
theory StateExamples
  imports TurnExamples DelegationProps SessionFileProps
begin

text \<open>
  Concrete sessions for the witnesses: one that is saved to a path, and families of sessions
  linked by spawns.
\<close>

section \<open>A saved session\<close>

definition ex_saved :: "mem_adapter session" where
  "ex_saved = NewSession ''s'' (Some (NewLog\<lparr>lg_events := [ex_user 0]\<rparr>)) []"

definition ex_path :: session_path where
  "ex_path = \<lparr>sp_file = None, sp_create = None, sp_write = (\<lambda>i. None), sp_read = None, sp_missing = ''no such file''\<rparr>"

lemma ex_path_ok: "sp_create ex_path = None" "sp_write ex_path = (\<lambda>i. None)" "sp_read ex_path = None"
  by (simp_all add: ex_path_def)

lemma ex_saved_events: "lg_events (ss_log ex_saved) = [ex_user 0]"
  by (simp add: ex_saved_def NewSession_def)

lemma ex_saved_ok: "session_storable ex_log_env ex_saved"
proof -
  have "header_of_session ex_saved = ex_header"
    by (simp add: header_of_session_def ex_saved_def NewSession_def ex_header_def zero_header_def)
  moreover have "json_ok float_mode 10000 (VMap (headerMap ex_header))"
    using ex_header_ok by (simp add: settled_file_def header_ok_def del: json_ok.simps)
  moreover have "saved_row ex_log_env (ex_user 0) = ex_row"
    by (simp add: saved_row_def ex_row_def row_of_draft_def draft_of_event_def ex_user_def mk_ev_def)
  moreover have "row_json ex_row"
    using ex_row_ok by (simp add: row_json_def row_ok_def del: json_ok.simps)
      (simp add: ex_row_def row_of_draft_def)
  moreover have "dense [ex_user 0]" by (simp add: dense_def ex_user_def mk_ev_def)
  ultimately show ?thesis by (simp add: session_storable_def ex_saved_events del: json_ok.simps)
qed

section \<open>A family of sessions\<close>

text \<open>The parent \<^verbatim>\<open>p\<close> spawns \<^verbatim>\<open>c\<close>; the event of the child is a second younger than the spawn.\<close>

definition ex_spawn :: event where
  "ex_spawn = (mk_ev 0 EventAgentSpawn [(''spawn_id'', VStr ''k''), (''child_session_id'', VStr ''c'')])
     \<lparr>ev_timestamp := ''10:00:01''\<rparr>"

definition ex_parent :: "mem_adapter session" where
  "ex_parent = NewSession ''p'' (Some (NewLog\<lparr>lg_events := [ex_spawn]\<rparr>)) []"

definition ex_child :: "mem_adapter session" where
  "ex_child = (NewSession ''c'' (Some (NewLog\<lparr>lg_events := [(ex_user 0)\<lparr>ev_timestamp := ''10:00:02''\<rparr>]\<rparr>)) [])
     \<lparr>ss_parent := ''p'', ss_spawn := ''k''\<rparr>"

definition ex_family :: "mem_adapter session_map" where
  "ex_family = [(''p'', ex_parent), (''c'', ex_child)]"

lemma ex_family_logs:
  "lg_events (ss_log ex_parent) = [ex_spawn]" "ss_id ex_parent = ''p''" "ss_id ex_child = ''c''"
  "lg_events (ss_log ex_child) = [(ex_user 0)\<lparr>ev_timestamp := ''10:00:02''\<rparr>]"
  "ss_parent ex_child = ''p''" "ss_spawn ex_child = ''k''"
  by (simp_all add: ex_parent_def ex_child_def NewSession_def)

lemma ex_family_spawns: "agentSpawns ex_parent = [ex_spawn]" "agentSpawns ex_child = []"
  "spawn_child_id ex_spawn = ''c''" "spawn_key ex_spawn = ''k''"
  by (simp_all add: agentSpawns_def ex_family_logs ex_spawn_def mk_ev_def ex_user_def spawn_child_id_def spawn_key_def)

lemma ex_family_load:
  "sm_LoadSession ex_family ''p'' = Inr ex_parent" "sm_LoadSession ex_family ''c'' = Inr ex_child"
  by (simp_all add: sm_LoadSession_def ex_family_def)

lemma ex_family_link: "validateChildLink ex_family ex_parent ex_spawn = Inr ()"
  by (simp add: validateChildLink_Inr ex_family_load ex_family_spawns ex_family_logs)

lemma ex_family_collect: "collectDescendants ex_family [] ''p'' = Inr [ex_parent, ex_child]"
  by (simp add: collectDescendants.simps(1) ex_family_load ex_family_spawns ex_family_link)

lemma ex_family_open: "OpenChildren ex_family ''p'' = Inr [''k'']"
  by (simp add: OpenChildren_def ex_family_load ex_family_spawns ex_family_link agentResultForSpawn_def
      ex_family_logs) (simp add: ex_spawn_def mk_ev_def)

lemma ex_family_keys: "keyed ex_family" "distinct_spawns ex_family"
  by (simp_all add: keyed_def distinct_spawns_def ex_family_def ex_family_logs ex_family_spawns)

lemma ex_family_unstamped: "unstamped ex_parent" "unstamped ex_child"
  by (simp_all add: unstamped_def ex_family_logs dense_def ex_spawn_def ex_user_def mk_ev_def)

text \<open>The world of that parent, with the child the runner kept.\<close>

definition ex_spawning :: "(nat, mem_adapter, nat) world" where
  "ex_spawning = \<lparr>w_session = ex_parent, w_hooks = w_hooks (ex_world [] []), w_children = [(''c'', ex_child)], w_ext = 0\<rparr>"

end
