(* ===== verification/Manifest.thy ===== *)
theory Manifest
  imports FileStorage Ingestors Projections Guards Compaction
begin

text \<open>
  \<^verbatim>\<open>manifest.go\<close>, first half: the manifest as data, how it is read from JSON, and its validation.
  Every error is a constructor of \<open>manifest_error\<close>; the words of JSON errors are a parameter.  A
  repeated JSON member counts with its last value.
\<close>

section \<open>Data\<close>

datatype manifest_error =
    ManifestError string
  | ValidationError string
  | UnsupportedVersionError string
  | UnknownProviderError string
  | UnknownStrategyError string
  | UnresolvedHandlerError string
  | OtherError string

definition SupportedManifestVersion :: string where "SupportedManifestVersion = ''0.1''"

record provider_spec =
  ps_Kind :: string
  ps_Model :: string
  ps_MaxTokens :: int
  ps_BaseURL :: string
  ps_Capabilities :: "(string \<times> bool) list"
  ps_Mismatch :: string

text \<open>A schema that is absent or null (\<open>None\<close>) is not an empty one.\<close>

record manifest_tool =
  md_Name :: string
  md_Handler :: string
  md_Description :: string
  md_InputSchema :: "payload option"
  md_Config :: payload

record strategy_spec =
  sg_Name :: string
  sg_Config :: payload
  sg_OnError :: string

record hook_spec =
  hp_Point :: string
  hp_Handler :: string
  hp_Config :: payload
  hp_OnError :: string

record manifest =
  mf_Version :: string
  mf_FixtureVersion :: string
  mf_Name :: string
  mf_System :: string
  mf_Provider :: provider_spec
  mf_Tools :: "manifest_tool list"
  mf_Strategies :: "strategy_spec list"
  mf_Hooks :: "hook_spec list"

section \<open>The required members\<close>

fun first_missing :: "string list \<Rightarrow> payload \<Rightarrow> string option" where
  "first_missing [] m = None"
| "first_missing (k # ks) m = (if phas m k then first_missing ks m else Some k)"

fun missing_in :: "string \<Rightarrow> string list \<Rightarrow> nat \<Rightarrow> payload list \<Rightarrow> manifest_error option" where
  "missing_in what keys index [] = None"
| "missing_in what keys index (m # ms) =
     (case first_missing keys m of
        Some k \<Rightarrow> Some (ValidationError (what @ ''['' @ show_nat index @ ''] missing required field '' @ go_quote k))
      | None \<Rightarrow> missing_in what keys (Suc index) ms)"

definition validateProviderKeys :: "(val \<Rightarrow> string) \<Rightarrow> val \<Rightarrow> manifest_error option" where
  "validateProviderKeys je raw =
     (case set_map raw of
        None \<Rightarrow> Some (ValidationError (je raw))
      | Some provider \<Rightarrow>
          map_option (\<lambda>k. ValidationError (''provider missing required field '' @ go_quote k))
            (first_missing [''kind'', ''max_tokens''] provider))"

definition validateToolKeys :: "(val \<Rightarrow> string) \<Rightarrow> val \<Rightarrow> manifest_error option" where
  "validateToolKeys je raw =
     (case set_maps raw of
        None \<Rightarrow> Some (ValidationError (je raw))
      | Some tools \<Rightarrow> missing_in ''tools'' [''name'', ''handler'', ''description'', ''input_schema''] 0 tools)"

definition validateStrategyKeys :: "(val \<Rightarrow> string) \<Rightarrow> val \<Rightarrow> manifest_error option" where
  "validateStrategyKeys je raw =
     (case set_maps raw of
        None \<Rightarrow> Some (ValidationError (je raw))
      | Some strategies \<Rightarrow> missing_in ''strategies'' [''name''] 0 strategies)"

definition validateHookKeys :: "(val \<Rightarrow> string) \<Rightarrow> val \<Rightarrow> manifest_error option" where
  "validateHookKeys je raw =
     (case set_maps raw of
        None \<Rightarrow> Some (ValidationError (je raw))
      | Some hooks \<Rightarrow> missing_in ''hooks'' [''point'', ''handler''] 0 hooks)"

fun first_error :: "'e option list \<Rightarrow> 'e option" where
  "first_error [] = None"
| "first_error (None # es) = first_error es"
| "first_error (Some e # es) = Some e"

definition system_error :: "(val \<Rightarrow> string) \<Rightarrow> payload \<Rightarrow> manifest_error option" where
  "system_error je raw =
     (if \<not> phas raw ''system'' then None
      else case set_string (pget raw ''system'') [] of
             None \<Rightarrow> Some (ValidationError (je (pget raw ''system'')))
           | Some s \<Rightarrow> if s = [] then Some (ValidationError ''system must not be empty'') else None)"

definition validateManifestKeys :: "(val \<Rightarrow> string) \<Rightarrow> val \<Rightarrow> manifest_error option" where
  "validateManifestKeys je data =
     (case set_map data of
        None \<Rightarrow> Some (OtherError (je data))
      | Some raw \<Rightarrow>
          first_error
            [map_option (\<lambda>k. ValidationError (''manifest missing required field '' @ go_quote k))
               (first_missing [''harnas_version'', ''name'', ''provider'', ''tools'', ''strategies''] raw),
             system_error je raw,
             validateProviderKeys je (pget raw ''provider''),
             validateToolKeys je (pget raw ''tools''),
             validateStrategyKeys je (pget raw ''strategies''),
             (if phas raw ''hooks'' then validateHookKeys je (pget raw ''hooks'') else None)])"

section \<open>Decoding\<close>

text \<open>The members of a map field are decoded with float64 numbers.\<close>

fun to_floats :: "val \<Rightarrow> val option"
  and to_floats_list :: "val list \<Rightarrow> val list option"
  and to_floats_map :: "payload \<Rightarrow> payload option" where
  "to_floats (VNum s) = float_mode s"
| "to_floats (VList vs) = map_option VList (to_floats_list vs)"
| "to_floats (VMap m) = map_option VMap (to_floats_map m)"
| "to_floats v = Some v"
| "to_floats_list [] = Some []"
| "to_floats_list (v # vs) =
     (case (to_floats v, to_floats_list vs) of (Some x, Some xs) \<Rightarrow> Some (x # xs) | _ \<Rightarrow> None)"
| "to_floats_map [] = Some []"
| "to_floats_map ((k, v) # m) =
     (case (to_floats v, to_floats_map m) of (Some x, Some xs) \<Rightarrow> Some ((k, x) # xs) | _ \<Rightarrow> None)"

definition set_any_map :: "val \<Rightarrow> payload option" where
  "set_any_map v = Option.bind (set_map v) to_floats_map"

fun bool_members :: "payload \<Rightarrow> (string \<times> bool) list option" where
  "bool_members [] = Some []"
| "bool_members ((k, v) # m) =
     (case (set_bool v False, bool_members m) of (Some b, Some bs) \<Rightarrow> Some ((k, b) # bs) | _ \<Rightarrow> None)"

text \<open>\<^verbatim>\<open>DisallowUnknownFields\<close>: a name that is no field's is an error.\<close>

definition strict_field :: "string list \<Rightarrow> (string \<Rightarrow> val \<Rightarrow> 'r \<Rightarrow> 'r option) \<Rightarrow> string \<Rightarrow> val \<Rightarrow> 'r \<Rightarrow> 'r option" where
  "strict_field names f k v r = (case match_field names k of None \<Rightarrow> None | Some n \<Rightarrow> f n v r)"

definition zero_provider :: provider_spec where
  "zero_provider = \<lparr>ps_Kind = [], ps_Model = [], ps_MaxTokens = 0, ps_BaseURL = [], ps_Capabilities = [], ps_Mismatch = []\<rparr>"

definition set_provider_field :: "string \<Rightarrow> val \<Rightarrow> provider_spec \<Rightarrow> provider_spec option" where
  "set_provider_field = strict_field
       [''kind'', ''model'', ''max_tokens'', ''base_url'', ''capabilities'', ''capability_mismatch_behavior'']
     (\<lambda>n v p.
       if n = ''kind'' then map_option (\<lambda>s. p\<lparr>ps_Kind := s\<rparr>) (set_string v (ps_Kind p))
       else if n = ''model'' then map_option (\<lambda>s. p\<lparr>ps_Model := s\<rparr>) (set_string v (ps_Model p))
       else if n = ''max_tokens'' then map_option (\<lambda>i. p\<lparr>ps_MaxTokens := i\<rparr>) (set_int v (ps_MaxTokens p))
       else if n = ''base_url'' then map_option (\<lambda>s. p\<lparr>ps_BaseURL := s\<rparr>) (set_string v (ps_BaseURL p))
       else if n = ''capabilities''
       then map_option (\<lambda>c. p\<lparr>ps_Capabilities := c\<rparr>) (Option.bind (set_map v) bool_members)
       else map_option (\<lambda>s. p\<lparr>ps_Mismatch := s\<rparr>) (set_string v (ps_Mismatch p)))"

definition zero_tool :: manifest_tool where
  "zero_tool = \<lparr>md_Name = [], md_Handler = [], md_Description = [], md_InputSchema = None, md_Config = []\<rparr>"

definition set_tool_field :: "string \<Rightarrow> val \<Rightarrow> manifest_tool \<Rightarrow> manifest_tool option" where
  "set_tool_field = strict_field [''name'', ''handler'', ''description'', ''input_schema'', ''config'']
     (\<lambda>n v t.
       if n = ''name'' then map_option (\<lambda>s. t\<lparr>md_Name := s\<rparr>) (set_string v (md_Name t))
       else if n = ''handler'' then map_option (\<lambda>s. t\<lparr>md_Handler := s\<rparr>) (set_string v (md_Handler t))
       else if n = ''description'' then map_option (\<lambda>s. t\<lparr>md_Description := s\<rparr>) (set_string v (md_Description t))
       else if n = ''input_schema''
       then map_option (\<lambda>m. t\<lparr>md_InputSchema := (if v = VNil then None else Some m)\<rparr>) (set_any_map v)
       else map_option (\<lambda>m. t\<lparr>md_Config := m\<rparr>) (set_any_map v))"

definition zero_strategy :: strategy_spec where
  "zero_strategy = \<lparr>sg_Name = [], sg_Config = [], sg_OnError = []\<rparr>"

definition set_strategy_field :: "string \<Rightarrow> val \<Rightarrow> strategy_spec \<Rightarrow> strategy_spec option" where
  "set_strategy_field = strict_field [''name'', ''config'', ''on_error'']
     (\<lambda>n v s.
       if n = ''name'' then map_option (\<lambda>t. s\<lparr>sg_Name := t\<rparr>) (set_string v (sg_Name s))
       else if n = ''config'' then map_option (\<lambda>m. s\<lparr>sg_Config := m\<rparr>) (set_any_map v)
       else map_option (\<lambda>t. s\<lparr>sg_OnError := t\<rparr>) (set_string v (sg_OnError s)))"

definition zero_hook :: hook_spec where
  "zero_hook = \<lparr>hp_Point = [], hp_Handler = [], hp_Config = [], hp_OnError = []\<rparr>"

definition set_hook_field :: "string \<Rightarrow> val \<Rightarrow> hook_spec \<Rightarrow> hook_spec option" where
  "set_hook_field = strict_field [''point'', ''handler'', ''config'', ''on_error'']
     (\<lambda>n v h.
       if n = ''point'' then map_option (\<lambda>t. h\<lparr>hp_Point := t\<rparr>) (set_string v (hp_Point h))
       else if n = ''handler'' then map_option (\<lambda>t. h\<lparr>hp_Handler := t\<rparr>) (set_string v (hp_Handler h))
       else if n = ''config'' then map_option (\<lambda>m. h\<lparr>hp_Config := m\<rparr>) (set_any_map v)
       else map_option (\<lambda>t. h\<lparr>hp_OnError := t\<rparr>) (set_string v (hp_OnError h)))"

fun decode_all :: "(val \<Rightarrow> 'r option) \<Rightarrow> val list \<Rightarrow> 'r list option" where
  "decode_all f [] = Some []"
| "decode_all f (v # vs) = (case (f v, decode_all f vs) of (Some x, Some xs) \<Rightarrow> Some (x # xs) | _ \<Rightarrow> None)"

definition set_list :: "(val \<Rightarrow> 'r option) \<Rightarrow> val \<Rightarrow> 'r list option" where
  "set_list f v = (case v of VNil \<Rightarrow> Some [] | VList vs \<Rightarrow> decode_all f vs | _ \<Rightarrow> None)"

definition zero_manifest :: manifest where
  "zero_manifest =
     \<lparr>mf_Version = [], mf_FixtureVersion = [], mf_Name = [], mf_System = [], mf_Provider = zero_provider,
      mf_Tools = [], mf_Strategies = [], mf_Hooks = []\<rparr>"

definition manifest_fields :: "string list" where
  "manifest_fields =
     [''harnas_version'', ''fixture_version_added'', ''name'', ''system'', ''provider'', ''tools'',
      ''strategies'', ''hooks'']"

definition set_manifest_field :: "string \<Rightarrow> val \<Rightarrow> manifest \<Rightarrow> manifest option" where
  "set_manifest_field = strict_field manifest_fields
     (\<lambda>n v m.
       if n = ''harnas_version'' then map_option (\<lambda>s. m\<lparr>mf_Version := s\<rparr>) (set_string v (mf_Version m))
       else if n = ''fixture_version_added''
       then map_option (\<lambda>s. m\<lparr>mf_FixtureVersion := s\<rparr>) (set_string v (mf_FixtureVersion m))
       else if n = ''name'' then map_option (\<lambda>s. m\<lparr>mf_Name := s\<rparr>) (set_string v (mf_Name m))
       else if n = ''system'' then map_option (\<lambda>s. m\<lparr>mf_System := s\<rparr>) (set_string v (mf_System m))
       else if n = ''provider''
       then map_option (\<lambda>p. m\<lparr>mf_Provider := p\<rparr>) (decode_struct set_provider_field (mf_Provider m) v)
       else if n = ''tools''
       then map_option (\<lambda>ts. m\<lparr>mf_Tools := ts\<rparr>) (set_list (decode_struct set_tool_field zero_tool) v)
       else if n = ''strategies''
       then map_option (\<lambda>ts. m\<lparr>mf_Strategies := ts\<rparr>) (set_list (decode_struct set_strategy_field zero_strategy) v)
       else map_option (\<lambda>ts. m\<lparr>mf_Hooks := ts\<rparr>) (set_list (decode_struct set_hook_field zero_hook) v))"

section \<open>Validation\<close>

definition knownProvider :: "string \<Rightarrow> bool" where
  "knownProvider kind \<longleftrightarrow> kind \<in> set [''anthropic'', ''openai'', ''gemini'', ''ollama'', ''mock'']"

definition knownStrategy :: "string \<Rightarrow> bool" where
  "knownStrategy name \<longleftrightarrow> name \<in> set
     [''Compaction::MarkerTail'', ''Compaction::SummaryTail'', ''Compaction::TokenMarkerTail'',
      ''Compaction::ToolOutputCap'', ''Permission::AlwaysAllow'', ''Permission::DenyByName'',
      ''Permission::HumanApproval'', ''Permission::RequireApproval'', ''sandbox/write'', ''sandbox/network'',
      ''credential/proxy'', ''guard/repetition'', ''guard/timeout'', ''guard/health'', ''guard/cost_budget'']"

definition validateOnError :: "string \<Rightarrow> manifest_error option" where
  "validateOnError v =
     (if v = [] \<or> v = ''isolate'' \<or> v = ''fail_turn'' then None
      else Some (ValidationError (''on_error must be '' @ go_quote ''isolate'' @ '' or '' @ go_quote ''fail_turn'')))"

fun validateTools :: "string list \<Rightarrow> manifest_tool list \<Rightarrow> manifest_error option" where
  "validateTools seen [] = None"
| "validateTools seen (t # ts) =
     (if md_Name t = [] then Some (ValidationError ''tool.name must not be empty'')
      else if md_Name t \<in> set seen then Some (ValidationError (''duplicate tool name: '' @ go_quote (md_Name t)))
      else if md_Handler t = []
      then Some (ValidationError (''tool '' @ go_quote (md_Name t) @ '' handler must not be empty''))
      else if md_InputSchema t = None
      then Some (ValidationError (''tool '' @ go_quote (md_Name t) @ '' input_schema is required''))
      else validateTools (md_Name t # seen) ts)"

text \<open>The pattern of canonical names: \<^verbatim>\<open>Group::Name\<close> or \<^verbatim>\<open>group/name\<close>.\<close>

definition upper :: "char \<Rightarrow> bool" where "upper c \<longleftrightarrow> in_range 65 90 c"
definition lower :: "char \<Rightarrow> bool" where "lower c \<longleftrightarrow> in_range 97 122 c"
definition digit :: "char \<Rightarrow> bool" where "digit c \<longleftrightarrow> in_range 48 57 c"

definition class_part :: "string \<Rightarrow> bool" where
  "class_part s \<longleftrightarrow> 2 \<le> length s \<and> upper (hd s) \<and> list_all (\<lambda>c. upper c \<or> lower c \<or> digit c) s"

definition path_part :: "string \<Rightarrow> bool" where
  "path_part s \<longleftrightarrow> s \<noteq> [] \<and> lower (hd s) \<and> list_all (\<lambda>c. lower c \<or> digit c \<or> c = CHR ''_'' \<or> c = CHR ''-'') s"

definition canonical_strategy :: "string \<Rightarrow> bool" where
  "canonical_strategy s \<longleftrightarrow>
     (case str_index s ''::'' of
        Some i \<Rightarrow> class_part (take i s) \<and> class_part (drop (i + 2) s) | None \<Rightarrow> False) \<or>
     (case str_index s ''/'' of
        Some i \<Rightarrow> path_part (take i s) \<and> path_part (drop (Suc i) s) | None \<Rightarrow> False)"

fun validateStrategies :: "strategy_spec list \<Rightarrow> manifest_error option" where
  "validateStrategies [] = None"
| "validateStrategies (s # ss) =
     (if \<not> canonical_strategy (sg_Name s)
      then Some (ValidationError (''strategy name '' @ go_quote (sg_Name s) @ '' is not canonical''))
      else if \<not> knownStrategy (sg_Name s)
      then Some (UnknownStrategyError (''unknown canonical strategy: '' @ go_quote (sg_Name s)))
      else case validateOnError (sg_OnError s) of Some e \<Rightarrow> Some e | None \<Rightarrow> validateStrategies ss)"

fun validateHooks :: "hook_spec list \<Rightarrow> manifest_error option" where
  "validateHooks [] = None"
| "validateHooks (h # hs) =
     (if hp_Point h = [] then Some (ValidationError ''hook.point must not be empty'')
      else if hp_Handler h = [] then Some (ValidationError ''hook.handler must not be empty'')
      else case validateOnError (hp_OnError h) of Some e \<Rightarrow> Some e | None \<Rightarrow> validateHooks hs)"

definition ValidateManifest :: "manifest \<Rightarrow> manifest_error option" where
  "ValidateManifest m =
     (let p = mf_Provider m; kind = ps_Kind p
      in if mf_Version m \<noteq> SupportedManifestVersion
         then Some (UnsupportedVersionError (''manifest version '' @ go_quote (mf_Version m) @ '' not in supported [''
                 @ go_quote SupportedManifestVersion @ '']''))
         else if mf_Name m = [] then Some (ValidationError ''manifest name must not be empty'')
         else if kind = [] then Some (ValidationError ''provider.kind is required'')
         else if \<not> knownProvider kind then Some (UnknownProviderError (''unknown provider kind: '' @ go_quote kind))
         else if kind \<noteq> ''mock'' \<and> ps_Model p = []
         then Some (ValidationError (''provider.model is required for provider '' @ go_quote kind))
         else if ps_MaxTokens p < 1 then Some (ValidationError ''provider.max_tokens must be >= 1'')
         else if ps_Mismatch p \<noteq> [] \<and> ps_Mismatch p \<noteq> ''metadata_fallback'' \<and> ps_Mismatch p \<noteq> ''error''
         then Some (ValidationError ''provider.capability_mismatch_behavior must be metadata_fallback or error'')
         else first_error [validateTools [] (mf_Tools m), validateStrategies (mf_Strategies m),
                validateHooks (mf_Hooks m)])"

section \<open>Reading\<close>

text \<open>From the text on, for both ways a manifest comes in.\<close>

definition manifest_of_text :: "(val \<Rightarrow> string) \<Rightarrow> string \<Rightarrow> string \<Rightarrow> manifest_error + manifest" where
  "manifest_of_text je syntax_error data =
     (case json_unmarshal number_mode data of
        None \<Rightarrow> Inl (OtherError syntax_error)
      | Some v \<Rightarrow>
          (case validateManifestKeys je v of
             Some e \<Rightarrow> Inl e
           | None \<Rightarrow>
               (case decode_struct set_manifest_field zero_manifest v of
                  None \<Rightarrow> Inl (ValidationError (je v))
                | Some m \<Rightarrow> (case ValidateManifest m of Some e \<Rightarrow> Inl e | None \<Rightarrow> Inr m))))"

definition ReadManifest :: "(val \<Rightarrow> string) \<Rightarrow> string \<Rightarrow> string + string \<Rightarrow> manifest_error + manifest" where
  "ReadManifest je syntax_error file =
     (case file of Inl e \<Rightarrow> Inl (OtherError e) | Inr data \<Rightarrow> manifest_of_text je syntax_error data)"

definition ManifestFromMap :: "(val \<Rightarrow> string) \<Rightarrow> string \<Rightarrow> payload \<Rightarrow> manifest_error + manifest" where
  "ManifestFromMap je syntax_error source =
     (case json_marshal True (VMap source) of
        Inl e \<Rightarrow> Inl (OtherError e) | Inr data \<Rightarrow> manifest_of_text je syntax_error data)"

end
