(* ===== verification/BashSession.thy ===== *)
theory BashSession
  imports GoJson
begin

text \<open>
  \<^verbatim>\<open>bash_session.go\<close> and \<^verbatim>\<open>bash_session_unix.go\<close>: a persistent shell, the framing of a command by
  two sentinel lines, the ring buffers that keep the end of each stream, and the requests of the
  \<^verbatim>\<open>bash_session\<close> tool.  What the shell prints and when it exits is an input: a list of
  \<open>bash_input\<close>s, one for each line a reader goroutine takes from its pipe.  Process start, the
  write to the shell's standard input and the timer are parameters of the calls that use them.
\<close>

section \<open>Ring buffers\<close>

record ring_buffer =
  rb_max :: int
  rb_data :: string
  rb_total :: int
  rb_truncated :: bool

definition newRingBuffer :: "int \<Rightarrow> ring_buffer" where
  "newRingBuffer n = \<lparr>rb_max = n, rb_data = [], rb_total = 0, rb_truncated = False\<rparr>"

definition rb_WriteString :: "string \<Rightarrow> ring_buffer \<Rightarrow> ring_buffer" where
  "rb_WriteString chunk b =
     (let data = rb_data b @ chunk; b1 = b\<lparr>rb_total := rb_total b + int (length chunk), rb_data := data\<rparr>
      in if 0 < rb_max b \<and> rb_max b < int (length data)
         then b1\<lparr>rb_truncated := True, rb_data := drop (length data - nat (rb_max b)) data\<rparr>
         else b1)"

definition rb_String :: "ring_buffer \<Rightarrow> string" where
  "rb_String b = rb_data b"

definition rb_Offset :: "ring_buffer \<Rightarrow> int" where
  "rb_Offset b = rb_total b"

definition rb_StringFrom :: "int \<Rightarrow> ring_buffer \<Rightarrow> string" where
  "rb_StringFrom offset b =
     (let startOffset = rb_total b - int (length (rb_data b));
          o1 = (if offset < startOffset then startOffset else offset);
          o2 = (if rb_total b < o1 then rb_total b else o1)
      in drop (nat (o2 - startOffset)) (rb_data b))"

section \<open>Terminal escapes\<close>

text \<open>What follows a match of \<^verbatim>\<open>ansiPattern\<close> at the head of a text, if there is one.\<close>

definition after_ansi :: "string \<Rightarrow> string option" where
  "after_ansi s =
     (if s = [] then None
      else if hd s = CHR 0x0D then Some (tl s)
      else if has_prefix s [CHR 0x1B, CHR 0x5B]
      then case dropWhile (\<lambda>c. is_digit c \<or> c = CHR 0x3B) (drop 2 s) of
             [] \<Rightarrow> None
           | c # r \<Rightarrow> if c \<in> set ''mGKHF'' then Some r else None
      else None)"

lemma after_ansi_shorter: "after_ansi s = Some r \<Longrightarrow> length r < length s"
proof -
  have le: "length (dropWhile P xs) \<le> length xs" for P and xs :: string by (rule length_dropWhile_le)
  assume "after_ansi s = Some r"
  then show ?thesis
    using le [of "\<lambda>c. is_digit c \<or> c = CHR 0x3B" "drop 2 s"]
    by (cases s) (auto simp: after_ansi_def split: if_splits list.splits)
qed

function stripANSI :: "string \<Rightarrow> string" where
  "stripANSI s =
     (if s = [] then []
      else case after_ansi s of Some r \<Rightarrow> stripANSI r | None \<Rightarrow> hd s # stripANSI (tl s))"
  by pat_completeness auto
termination by (relation "measure length") (auto dest: after_ansi_shorter)

declare stripANSI.simps [simp del]

lemma stripANSI_Nil [simp]: "stripANSI [] = []"
  by (simp add: stripANSI.simps)

section \<open>Quoting and framing\<close>

definition newline :: string where "newline = [CHR 0x0A]"
definition crlf :: string where "crlf = [CHR 0x0D, CHR 0x0A]"
definition squote :: string where "squote = [CHR 0x27]"
definition dquote :: string where "dquote = [CHR 0x22]"

definition shellQuote :: "string \<Rightarrow> string" where
  "shellQuote v = squote @ replace_all v squote (squote @ dquote @ squote @ dquote @ squote) @ squote"

definition powershellQuote :: "string \<Rightarrow> string" where
  "powershellQuote v = squote @ replace_all v squote (squote @ squote) @ squote"

text \<open>\<^verbatim>\<open>envNamePattern\<close>.\<close>

definition name_start :: "char \<Rightarrow> bool" where
  "name_start c \<longleftrightarrow>
     (let n = (of_char c :: nat) in (65 \<le> n \<and> n \<le> 90) \<or> (97 \<le> n \<and> n \<le> 122) \<or> n = 95)"

definition env_name :: "string \<Rightarrow> bool" where
  "env_name s \<longleftrightarrow> s \<noteq> [] \<and> name_start (hd s) \<and> list_all (\<lambda>c. name_start c \<or> is_digit c) s"

fun env_entries :: "payload \<Rightarrow> string + (string \<times> string) list" where
  "env_entries [] = Inr []"
| "env_entries ((k, v) # m) =
     (if \<not> env_name k then Inl (''invalid bash_session env key: '' @ k)
      else case as_string v of
             None \<Rightarrow> Inl (''bash_session env value for '' @ k @ '' must be a string'')
           | Some s \<Rightarrow> bind_res (env_entries m) (\<lambda>rest. Inr ((k, s) # rest)))"

definition parseCommandEnv :: "val \<Rightarrow> string + (string \<times> string) list" where
  "parseCommandEnv v =
     (if v = VNil then Inr []
      else case as_map v of
             None \<Rightarrow> Inl ''bash_session env must be an object''
           | Some m \<Rightarrow> env_entries m)"

text \<open>The variables of \<^verbatim>\<open>wrapCommandEnv\<close>, in the order of their names.\<close>

definition sorted_env :: "(string \<times> string) list \<Rightarrow> (string \<times> string) list" where
  "sorted_env env = sort_key fst env"

definition ps_assign :: "string \<times> string \<Rightarrow> string" where
  "ps_assign kv =
     ''$__harnas_old_'' @ fst kv @ ''=$env:'' @ fst kv @ ''; $env:'' @ fst kv @ ''='' @ powershellQuote (snd kv)"

definition ps_restore :: "string \<times> string \<Rightarrow> string" where
  "ps_restore kv = ''$env:'' @ fst kv @ ''=$__harnas_old_'' @ fst kv"

definition wrapCommandEnv :: "string \<Rightarrow> string \<Rightarrow> string \<Rightarrow> (string \<times> string) list \<Rightarrow> string" where
  "wrapCommandEnv shell shellType command env =
     (let kvs = sorted_env env
      in if shellType = ''powershell''
         then str_join (map ps_assign kvs) ''; '' @ ''; try { '' @ command @ '' } finally { ''
              @ str_join (map ps_restore kvs) ''; '' @ '' }''
         else if shellType = ''cmd''
         then str_join (''setlocal'' # map (\<lambda>kv. ''set '' @ go_quote (fst kv @ ''='' @ snd kv)) kvs
                        @ [command, ''endlocal'']) '' & ''
         else str_join (''env'' # map (\<lambda>kv. fst kv @ ''='' @ shellQuote (snd kv)) kvs
                        @ [shellQuote shell, ''-c'', shellQuote command]) '' '')"

definition done_prefix :: string where "done_prefix = ''__HARNAS_DONE_''"
definition err_done_prefix :: string where "err_done_prefix = ''__HARNAS_ERR_DONE_''"

definition frameCommand :: "string \<Rightarrow> string \<Rightarrow> string \<Rightarrow> string" where
  "frameCommand command token shellType =
     (if shellType = ''powershell''
      then newline @ ''& { '' @ command @ '' }; $__harnas_status=$LASTEXITCODE; if ($null -eq $__harnas_status) ''
           @ ''{ $__harnas_status=0 }; [Console]::Error.WriteLine('' @ squote @ err_done_prefix @ token @ squote
           @ ''); [Console]::Out.WriteLine('' @ squote @ done_prefix @ token @ '':'' @ squote
           @ '' + $__harnas_status)'' @ newline
      else if shellType = ''cmd''
      then crlf @ command @ crlf @ ''set __harnas_status=%ERRORLEVEL%'' @ crlf
           @ ''echo '' @ err_done_prefix @ token @ '' 1>&2'' @ crlf
           @ ''echo '' @ done_prefix @ token @ '':%__harnas_status%'' @ crlf
      else newline @ ''{ '' @ command @ newline @ ''} </dev/null; __harnas_status=$?; printf '' @ squote
           @ err_done_prefix @ token @ [CHR 0x5C, CHR ''n''] @ squote @ '' >&2; printf '' @ squote
           @ done_prefix @ token @ '':%s'' @ [CHR 0x5C, CHR ''n''] @ squote
           @ '' '' @ dquote @ ''$__harnas_status'' @ dquote @ newline)"

section \<open>A session\<close>

record bash_command =
  bc_token :: string
  bc_exitCode :: "int option"
  bc_stdoutStart :: int
  bc_stderrStart :: int
  bc_stdoutDone :: bool
  bc_stderrDone :: bool

text \<open>\<open>bs_finished\<close> holds the commands whose \<^verbatim>\<open>done\<close> channel is closed, the latest first;
  \<open>bs_stdin\<close> what was written to the shell; \<open>bs_signals\<close> the signals sent to its group.\<close>

datatype kill_signal = SigTerm | SigKill

record bash_session =
  bs_id :: string
  bs_shell :: string
  bs_shellType :: string
  bs_stdin :: "string list"
  bs_signals :: "kill_signal list"
  bs_stdout :: ring_buffer
  bs_stderr :: ring_buffer
  bs_current :: "bash_command option"
  bs_finished :: "bash_command list"
  bs_closed :: bool

record bash_result =
  br_SessionID :: string
  br_Status :: string
  br_ExitCode :: "int option"
  br_Stdout :: string
  br_Stderr :: string
  br_CommandStdout :: string
  br_CommandStderr :: string
  br_Truncated :: bool

definition bash_snapshot :: "string \<Rightarrow> int option \<Rightarrow> bash_command option \<Rightarrow> bash_session \<Rightarrow> bash_result" where
  "bash_snapshot status code c s =
     \<lparr>br_SessionID = bs_id s, br_Status = status, br_ExitCode = code,
      br_Stdout = rb_String (bs_stdout s), br_Stderr = rb_String (bs_stderr s),
      br_CommandStdout = (case c of None \<Rightarrow> [] | Some c \<Rightarrow> rb_StringFrom (bc_stdoutStart c) (bs_stdout s)),
      br_CommandStderr = (case c of None \<Rightarrow> [] | Some c \<Rightarrow> rb_StringFrom (bc_stderrStart c) (bs_stderr s)),
      br_Truncated = (rb_truncated (bs_stdout s) \<or> rb_truncated (bs_stderr s))\<rparr>"

definition write_stdout :: "string \<Rightarrow> bash_session \<Rightarrow> bash_session" where
  "write_stdout v s = s\<lparr>bs_stdout := rb_WriteString (stripANSI v) (bs_stdout s)\<rparr>"

definition write_stderr :: "string \<Rightarrow> bash_session \<Rightarrow> bash_session" where
  "write_stderr v s = s\<lparr>bs_stderr := rb_WriteString (stripANSI v) (bs_stderr s)\<rparr>"

definition completeCurrentIfReady :: "bash_session \<Rightarrow> bash_session" where
  "completeCurrentIfReady s =
     (case bs_current s of
        None \<Rightarrow> s
      | Some c \<Rightarrow> if bc_stdoutDone c \<and> bc_stderrDone c
                  then s\<lparr>bs_current := None, bs_finished := c # bs_finished s\<rparr> else s)"

text \<open>The text before the first \<open>p\<close> of a line, and what follows \<open>p\<close> without surrounding blanks.\<close>

definition at_marker :: "string \<Rightarrow> string \<Rightarrow> (string \<times> string) option" where
  "at_marker p line =
     (case str_index line p of
        None \<Rightarrow> None
      | Some i \<Rightarrow> Some (take i line, drop i line))"

definition split_colon :: "string \<Rightarrow> (string \<times> string) option" where
  "split_colon s =
     (case str_index s '':'' of None \<Rightarrow> None | Some i \<Rightarrow> Some (take i s, drop (Suc i) s))"

definition handleSentinel :: "string \<Rightarrow> bash_session \<Rightarrow> bool \<times> bash_session" where
  "handleSentinel line s =
     (case at_marker done_prefix line of
        None \<Rightarrow> (False, s)
      | Some (before, mark) \<Rightarrow>
          (case split_colon (trim_prefix (trim_space mark) done_prefix) of
             None \<Rightarrow> (False, s)
           | Some (token, code) \<Rightarrow>
               (let s1 = (if before \<noteq> [] then write_stdout before s else s)
                in case bs_current s1 of
                     None \<Rightarrow> (False, s1)
                   | Some c \<Rightarrow>
                       if bc_token c \<noteq> token then (False, s1)
                       else let c1 = (case atoi code of None \<Rightarrow> c | Some n \<Rightarrow> c\<lparr>bc_exitCode := Some n\<rparr>)
                            in (True, completeCurrentIfReady (s1\<lparr>bs_current := Some (c1\<lparr>bc_stdoutDone := True\<rparr>)\<rparr>)))))"

definition handleStderrSentinel :: "string \<Rightarrow> bash_session \<Rightarrow> bool \<times> bash_session" where
  "handleStderrSentinel line s =
     (case at_marker err_done_prefix line of
        None \<Rightarrow> (False, s)
      | Some (before, mark) \<Rightarrow>
          (let token = trim_space (trim_prefix mark err_done_prefix);
               s1 = (if before \<noteq> [] then write_stderr before s else s)
           in case bs_current s1 of
                None \<Rightarrow> (False, s1)
              | Some c \<Rightarrow>
                  if bc_token c \<noteq> token then (False, s1)
                  else (True, completeCurrentIfReady (s1\<lparr>bs_current := Some (c\<lparr>bc_stderrDone := True\<rparr>)\<rparr>))))"

text \<open>One turn of \<^verbatim>\<open>readStdout\<close> and of \<^verbatim>\<open>readStderr\<close>, for a line with its end or the last text
  before the end of the stream.\<close>

definition readStdout_line :: "string \<Rightarrow> bash_session \<Rightarrow> bash_session" where
  "readStdout_line line s =
     (if line = [] then s
      else case handleSentinel line s of (True, s1) \<Rightarrow> s1 | (False, s1) \<Rightarrow> write_stdout line s1)"

definition readStderr_line :: "string \<Rightarrow> bash_session \<Rightarrow> bash_session" where
  "readStderr_line line s =
     (if line = [] then s
      else case handleStderrSentinel line s of (True, s1) \<Rightarrow> s1 | (False, s1) \<Rightarrow> write_stderr line s1)"

definition waitShell :: "int \<Rightarrow> bash_session \<Rightarrow> bash_session" where
  "waitShell code s =
     (let s1 = s\<lparr>bs_closed := True\<rparr>
      in case bs_current s of
           None \<Rightarrow> s1
         | Some c \<Rightarrow> s1\<lparr>bs_current := None, bs_finished := c\<lparr>bc_exitCode := Some code\<rparr> # bs_finished s\<rparr>)"

definition bash_close :: "bash_session \<Rightarrow> bash_session" where
  "bash_close s = s\<lparr>bs_closed := True, bs_signals := bs_signals s @ [SigKill]\<rparr>"

datatype bash_input = OutLine string | ErrLine string | ShellExit int

fun bash_event :: "bash_input \<Rightarrow> bash_session \<Rightarrow> bash_session" where
  "bash_event (OutLine line) s = readStdout_line line s"
| "bash_event (ErrLine line) s = readStderr_line line s"
| "bash_event (ShellExit code) s = waitShell code s"

definition bash_events :: "bash_input list \<Rightarrow> bash_session \<Rightarrow> bash_session" where
  "bash_events evs s = fold bash_event evs s"

section \<open>Requests\<close>

text \<open>
  \<^verbatim>\<open>run\<close> waits for the command before it (\<open>earlier\<close> is what happens meanwhile), writes the framed
  command and waits for its end or for the timer; \<open>during\<close> is what happens until the snapshot.
  \<open>None\<close> is a call that is still blocked after these inputs.
\<close>

record run_chance =
  rc_token :: string
  rc_written :: bool
  rc_fired :: bool
  rc_earlier :: "bash_input list"
  rc_during :: "bash_input list"

definition begin_command :: "string \<Rightarrow> bash_session \<Rightarrow> bash_command" where
  "begin_command token s =
     \<lparr>bc_token = token, bc_exitCode = None, bc_stdoutStart = rb_Offset (bs_stdout s),
      bc_stderrStart = rb_Offset (bs_stderr s), bc_stdoutDone = False, bc_stderrDone = False\<rparr>"

definition framed_command :: "string \<Rightarrow> (string \<times> string) list \<Rightarrow> string \<Rightarrow> bash_session \<Rightarrow> string" where
  "framed_command command env token s =
     frameCommand (if env \<noteq> [] then wrapCommandEnv (bs_shell s) (bs_shellType s) command env else command)
       token (bs_shellType s)"

definition start_command :: "string \<Rightarrow> (string \<times> string) list \<Rightarrow> string \<Rightarrow> bash_session \<Rightarrow> bash_session" where
  "start_command command env token s =
     s\<lparr>bs_current := Some (begin_command token s),
       bs_stdin := bs_stdin s @ [framed_command command env token s]\<rparr>"

definition finished_command :: "string \<Rightarrow> bash_session \<Rightarrow> bash_command option" where
  "finished_command token s = find (\<lambda>c. bc_token c = token) (bs_finished s)"

definition session_run ::
    "string \<Rightarrow> (string \<times> string) list \<Rightarrow> bool \<Rightarrow> run_chance \<Rightarrow> bash_session \<Rightarrow> bash_result option \<times> bash_session"
where
  "session_run command env timed ch s0 =
     (let s = bash_events (rc_earlier ch) s0; c = begin_command (rc_token ch) s
      in if bs_current s \<noteq> None then (None, s)
         else if bs_closed s then (Some (bash_snapshot ''killed'' None None s), s)
         else if \<not> rc_written ch
         then (let s1 = s\<lparr>bs_finished := c # bs_finished s\<rparr>
               in (Some (bash_snapshot ''killed'' None (Some c) s1), s1))
         else let s1 = bash_events (rc_during ch) (start_command command env (rc_token ch) s)
              in if timed \<and> rc_fired ch then (Some (bash_snapshot ''running'' None (Some c) s1), s1)
                 else case finished_command (rc_token ch) s1 of
                        None \<Rightarrow> (None, s1)
                      | Some d \<Rightarrow> (Some (bash_snapshot ''completed'' (bc_exitCode d) (Some d) s1), s1))"

definition session_status :: "bash_session \<Rightarrow> bash_result" where
  "session_status s =
     (case bs_current s of
        Some c \<Rightarrow> bash_snapshot ''running'' None (Some c) s
      | None \<Rightarrow> if bs_closed s then bash_snapshot ''killed'' None None s
                else bash_snapshot ''completed'' None None s)"

text \<open>\<^verbatim>\<open>kill\<close>: \<open>quick\<close> is what happens within three seconds of the first signal, \<open>later\<close> the rest.\<close>

definition session_kill ::
    "bash_input list \<Rightarrow> bash_input list \<Rightarrow> bash_session \<Rightarrow> bash_result option \<times> bash_session" where
  "session_kill quick later s =
     (case bs_current s of
        None \<Rightarrow> (Some (bash_snapshot ''completed'' None None s), s)
      | Some c \<Rightarrow>
          (let s1 = bash_events quick (s\<lparr>bs_signals := bs_signals s @ [SigTerm]\<rparr>);
               s2 = (if bs_current s1 = None then s1
                     else bash_events later (s1\<lparr>bs_signals := bs_signals s1 @ [SigKill]\<rparr>))
           in if bs_current s2 \<noteq> None then (None, s2)
              else let s3 = s2\<lparr>bs_closed := True\<rparr>
                   in (Some (bash_snapshot ''killed'' None (Some c) s3), s3)))"

definition result_member :: "string \<times> val \<Rightarrow> string" where
  "result_member kv = json_member True (fst kv, json_text True (snd kv))"

definition marshalBashSessionResult :: "bash_result \<Rightarrow> string" where
  "marshalBashSessionResult r =
     ''{'' @ str_join (map result_member
        [(''session_id'', VStr (br_SessionID r)), (''status'', VStr (br_Status r)),
         (''exit_code'', case br_ExitCode r of None \<Rightarrow> VNil | Some n \<Rightarrow> VInt n),
         (''stdout'', VStr (br_Stdout r)), (''stderr'', VStr (br_Stderr r)),
         (''command_stdout'', VStr (br_CommandStdout r)), (''command_stderr'', VStr (br_CommandStderr r)),
         (''truncated'', VBool (br_Truncated r))]) '','' @ ''}''"

section \<open>The registry of sessions\<close>

definition resolveBashSessionShell :: "(string \<Rightarrow> bool) \<Rightarrow> payload \<Rightarrow> string \<times> string" where
  "resolveBashSessionShell look config =
     (let s0 = stringValue (pget config ''shell'');
          s1 = (if s0 = [] \<or> s0 = ''auto'' then ''bash'' else s0);
          s2 = (if \<not> look s1 \<and> s1 = ''bash'' then ''sh'' else s1);
          t0 = stringValue (pget config ''shell_type'')
      in (s2, if t0 = [] \<or> t0 = ''auto'' then ''posix'' else t0))"

definition effectiveBashSessionConfig :: "(string \<Rightarrow> bool) \<Rightarrow> payload \<Rightarrow> payload" where
  "effectiveBashSessionConfig look config =
     (let c = pset ''shell_type'' (VStr (snd (resolveBashSessionShell look config))) config
      in if stringValue (pget c ''shell'') = [] then pset ''shell'' (VStr ''auto'') c else c)"

definition DefaultBashSessionMaxOutputBytes :: int where
  "DefaultBashSessionMaxOutputBytes = 64 * 1024"

text \<open>\<open>launch\<close> is \<^verbatim>\<open>filepath.Abs\<close>, the pipes and \<^verbatim>\<open>cmd.Start\<close> for a shell in a directory: the error,
  or nothing.\<close>

record bash_host =
  bh_look :: "string \<Rightarrow> bool"
  bh_launch :: "string \<Rightarrow> string \<Rightarrow> string option"
  bh_new_id :: string

definition startBashSession :: "bash_host \<Rightarrow> string \<Rightarrow> payload \<Rightarrow> string + bash_session" where
  "startBashSession host sid config =
     (let (shell, shellType) = resolveBashSessionShell (bh_look host) config;
          n0 = intValue (pget config ''max_output_bytes'');
          n = (if n0 \<le> 0 then DefaultBashSessionMaxOutputBytes else n0);
          cwd = or_else (stringValue (pget config ''cwd'')) ''.''
      in case bh_launch host shell cwd of
           Some e \<Rightarrow> Inl e
         | None \<Rightarrow> Inr \<lparr>bs_id = sid, bs_shell = shell, bs_shellType = shellType, bs_stdin = [], bs_signals = [],
                        bs_stdout = newRingBuffer n, bs_stderr = newRingBuffer n, bs_current = None,
                        bs_finished = [], bs_closed = False\<rparr>)"

type_synonym bash_registry = "(string \<times> bash_session) list"

definition registry_session ::
    "bash_host \<Rightarrow> string \<Rightarrow> payload \<Rightarrow> bool \<Rightarrow> bash_registry \<Rightarrow> (string + string) \<times> bash_registry" where
  "registry_session host sid config create r =
     (if sid \<noteq> [] \<and> ahas r sid then (Inr sid, r)
      else if sid \<noteq> [] \<and> \<not> create then (Inl (''unknown bash_session session_id: '' @ sid), r)
      else if \<not> create then (Inl ''missing required argument: session_id'', r)
      else let name = (if sid = [] then ''sh_'' @ bh_new_id host else sid)
           in case startBashSession host name config of
                Inl e \<Rightarrow> (Inl e, r)
              | Inr s \<Rightarrow> (Inr name, AList.update name s r))"

definition durationMillis_positive :: "val \<Rightarrow> bool" where
  "durationMillis_positive v \<longleftrightarrow> 0 < intValue v"

text \<open>A call on a session of the registry; an unanswered call is \<open>None\<close>.\<close>

definition on_session ::
    "(bash_session \<Rightarrow> bash_result option \<times> bash_session) \<Rightarrow> string \<Rightarrow> bash_registry \<Rightarrow>
     (string + string) option \<times> bash_registry"
where
  "on_session f sid r =
     (case map_of r sid of
        None \<Rightarrow> (None, r)
      | Some s \<Rightarrow> (case f s of (res, s1) \<Rightarrow>
          (map_option (\<lambda>b. Inr (marshalBashSessionResult b)) res, AList.update sid s1 r)))"

definition bash_action :: "payload \<Rightarrow> string" where
  "bash_action args =
     (let action = stringValue (pget args ''action'')
      in if action \<noteq> [] then action
         else if stringValue (pget args ''command'') \<noteq> [] then ''run'' else ''status'')"

definition Handle ::
    "bash_host \<Rightarrow> run_chance \<Rightarrow> payload \<Rightarrow> payload \<Rightarrow> bash_registry \<Rightarrow> (string + string) option \<times> bash_registry"
where
  "Handle host ch args config r =
     (let action = bash_action args; command = stringValue (pget args ''command'');
          sid = stringValue (pget args ''session_id'')
      in if action = ''run''
         then (if command = [] then (Some (Inl ''missing required argument: command''), r)
               else case registry_session host sid config True r of
                      (Inl e, r1) \<Rightarrow> (Some (Inl e), r1)
                    | (Inr name, r1) \<Rightarrow>
                        (case parseCommandEnv (pget args ''env'') of
                           Inl e \<Rightarrow> (Some (Inl e), r1)
                         | Inr env \<Rightarrow>
                             on_session (session_run command env (durationMillis_positive (pget args ''timeout_ms'')) ch)
                               name r1))
         else if action = ''status''
         then (case registry_session host sid config False r of
                 (Inl e, r1) \<Rightarrow> (Some (Inl e), r1)
               | (Inr name, r1) \<Rightarrow> on_session (\<lambda>s. (Some (session_status s), s)) name r1)
         else if action = ''kill''
         then (case registry_session host sid config False r of
                 (Inl e, r1) \<Rightarrow> (Some (Inl e), r1)
               | (Inr name, r1) \<Rightarrow> on_session (session_kill (rc_earlier ch) (rc_during ch)) name r1)
         else (Some (Inl (''unknown bash_session action: '' @ action)), r))"

text \<open>\<^verbatim>\<open>Close\<close>, and the unconfigured tool, whose sessions end with the call.\<close>

definition registry_Close :: "bash_registry \<Rightarrow> bash_session list \<times> bash_registry" where
  "registry_Close r = (map (\<lambda>kv. bash_close (snd kv)) r, [])"

definition BuiltinBashSession :: "bash_host \<Rightarrow> run_chance \<Rightarrow> payload \<Rightarrow> payload \<Rightarrow> (string + string) option" where
  "BuiltinBashSession host ch args config = fst (Handle host ch args config [])"

end
