(* ===== verification/ManifestBuild.thy ===== *)
theory ManifestBuild
  imports Manifest Provider BashSession
begin

text \<open>
  \<^verbatim>\<open>manifest.go\<close>, second half: what is built from a manifest (registry, projection, provider,
  ingestor, strategies, hooks), and how strategies and hooks are installed.  The handlers of the
  host are looked up by name; a closure that an installation creates is a value of the handler
  type, of which the code pointer is known (\<open>code\<close>).  The environment and the search path of
  programs are parameters.
\<close>

section \<open>Options and results\<close>

record ('h, 'st, 'w, 'p, 's) manifest_options =
  mo_ToolHandlers :: "(string \<times> (payload \<Rightarrow> ('h, 'st, 'w) tool_fn)) list"
  mo_ConfiguredHandlers :: "(string \<times> (payload \<Rightarrow> payload \<Rightarrow> ('h, 'st, 'w) tool_fn)) list"
  mo_ContextualHandlers :: "(string \<times> (payload \<Rightarrow> tool_context \<Rightarrow> ('h, 'st, 'w) tool_fn)) list"
  mo_StrategyHandlers :: "(string \<times> (event \<Rightarrow> ('h, 'st, 'w) world \<Rightarrow> bool \<times> ('h, 'st, 'w) world)) list"
  mo_HookHandlers :: "(string \<times> 'h) list"
  mo_Providers :: "(string \<times> 'p) list"
  mo_StreamProviders :: "(string \<times> 's) list"
  mo_APIKeys :: "(string \<times> string) list"
  mo_AttachmentStore :: "attachment_get option"
  mo_Getenv :: "string \<Rightarrow> string"
  mo_LookPath :: "string \<Rightarrow> bool"
  mo_fetch :: fetch_env

datatype 'p provider_choice =
    GivenProvider 'p
  | ChooseMock
  | ChooseOllama string
  | ChooseAnthropic string
  | ChooseOpenAI string
  | ChooseGemini string

datatype ingestor_choice = OpenAIIngest | GeminiIngest gemini_ingestor | AnthropicIngest

datatype ('h, 'st, 'w) projection_choice =
    OpenAIProject "('h, 'st, 'w) projection"
  | GeminiProject "('h, 'st, 'w) projection"
  | AnthropicProject "('h, 'st, 'w) projection"

text \<open>The strategy values a manifest can name, with the fields the manifest sets.\<close>

datatype ('h, 'st, 'w) strategy_inner =
    InnerMarkerTail int int
  | InnerToolOutputCap tool_output_cap
  | InnerTokenMarkerTail int rat int string
  | InnerSummaryTail int int string
  | InnerDenyByName name_policy
  | InnerRequireApproval name_policy
  | InnerAlwaysAllow
  | InnerHumanApproval "('h, 'st, 'w) human_approval"
  | InnerWriteSandbox sandbox
  | InnerNetworkSandbox network_sandbox
  | InnerCredentialProxy credential_proxy
  | InnerRepetitionGuard int int int
  | InnerTimeoutGuard int
  | InnerHealthGuard string int string
  | InnerCostBudgetGuard int int

record ('h, 'st, 'w) named_strategy =
  ns_Name :: string
  ns_OnError :: string
  ns_Inner :: "('h, 'st, 'w) strategy_inner"

record 'h hook_installation =
  hi_Point :: string
  hi_Name :: string
  hi_Handler :: 'h
  hi_Config :: payload
  hi_OnError :: string

section \<open>The registry\<close>

definition tool_of_spec :: "('h, 'st, 'w, 'p, 's) manifest_options \<Rightarrow> manifest_tool \<Rightarrow> ('h, 'st, 'w) tool" where
  "tool_of_spec opts spec =
     \<lparr>tl_name = md_Name spec, tl_handler = md_Handler spec, tl_description = md_Description spec,
      tl_schema = (case md_InputSchema spec of None \<Rightarrow> [] | Some m \<Rightarrow> m),
      tl_config = (if md_Handler spec = ''harnas.builtin.bash_session''
                   then effectiveBashSessionConfig (mo_LookPath opts) (md_Config spec) else md_Config spec),
      tl_call = map_of (mo_ToolHandlers opts) (md_Handler spec),
      tl_call_config = map_of (mo_ConfiguredHandlers opts) (md_Handler spec),
      tl_call_context = map_of (mo_ContextualHandlers opts) (md_Handler spec)\<rparr>"

definition resolves :: "('h, 'st, 'w, 'p, 's) manifest_options \<Rightarrow> manifest_tool \<Rightarrow> bool" where
  "resolves opts spec \<longleftrightarrow>
     map_of (mo_ToolHandlers opts) (md_Handler spec) \<noteq> None \<or>
     map_of (mo_ConfiguredHandlers opts) (md_Handler spec) \<noteq> None \<or>
     map_of (mo_ContextualHandlers opts) (md_Handler spec) \<noteq> None"

fun build_tools ::
    "('h, 'st, 'w, 'p, 's) manifest_options \<Rightarrow> manifest_tool list \<Rightarrow> ('h, 'st, 'w) registry \<Rightarrow>
     manifest_error + ('h, 'st, 'w) registry"
where
  "build_tools opts [] r = Inr r"
| "build_tools opts (spec # specs) r =
     (if \<not> resolves opts spec
      then Inl (UnresolvedHandlerError (''tool handler '' @ go_quote (md_Handler spec) @ '' not in tool_handlers''))
      else case Register (tool_of_spec opts spec) r of
             (Inl e, r') \<Rightarrow> Inl (OtherError e)
           | (Inr u, r') \<Rightarrow> build_tools opts specs r')"

definition BuildRegistryWithContextual ::
    "('h, 'st, 'w, 'p, 's) manifest_options \<Rightarrow> manifest_tool list \<Rightarrow> manifest_error + ('h, 'st, 'w) registry" where
  "BuildRegistryWithContextual opts specs = build_tools opts specs NewRegistry"

section \<open>Strategies and hooks\<close>

definition config_int :: "strategy_spec \<Rightarrow> string \<Rightarrow> int" where
  "config_int spec k = intValue (pget (sg_Config spec) k)"

definition config_string :: "strategy_spec \<Rightarrow> string \<Rightarrow> string" where
  "config_string spec k = stringValue (pget (sg_Config spec) k)"

definition config_strings :: "strategy_spec \<Rightarrow> string \<Rightarrow> string list" where
  "config_strings spec k = stringSlice (pget (sg_Config spec) k)"

definition name_policy_of :: "strategy_spec \<Rightarrow> name_policy" where
  "name_policy_of spec =
     \<lparr>np_Names = config_strings spec ''names'', np_ReasonFormat = config_string spec ''reason_format''\<rparr>"

definition build_strategy ::
    "('h, 'st, 'w, 'p, 's) manifest_options \<Rightarrow> strategy_spec \<Rightarrow> manifest_error + ('h, 'st, 'w) strategy_inner" where
  "build_strategy opts spec =
     (let name = sg_Name spec; int' = config_int spec; str = config_string spec; strs = config_strings spec
      in if name = ''Compaction::MarkerTail''
         then Inr (InnerMarkerTail (int' ''max_messages'') (int' ''keep_recent''))
         else if name = ''Compaction::ToolOutputCap''
         then Inr (InnerToolOutputCap \<lparr>oc_MaxBytes = int' ''max_bytes'', oc_PrefixBytes = int' ''prefix_bytes'',
                     oc_SummaryFormat = str ''summary_format''\<rparr>)
         else if name = ''Compaction::TokenMarkerTail''
         then Inr (InnerTokenMarkerTail (int' ''max_tokens'') (floatValue (pget (sg_Config spec) ''threshold''))
                     (int' ''keep_recent'') (str ''summary_format''))
         else if name = ''Compaction::SummaryTail''
         then Inr (InnerSummaryTail (int' ''max_messages'') (int' ''keep_recent'') (str ''prompt''))
         else if name = ''Permission::DenyByName'' then Inr (InnerDenyByName (name_policy_of spec))
         else if name = ''Permission::RequireApproval'' then Inr (InnerRequireApproval (name_policy_of spec))
         else if name = ''Permission::AlwaysAllow'' then Inr InnerAlwaysAllow
         else if name = ''Permission::HumanApproval''
         then (case map_of (mo_StrategyHandlers opts) (str ''prompt'') of
                 None \<Rightarrow> Inl (UnresolvedHandlerError
                           (''strategy handler '' @ go_quote (str ''prompt'') @ '' not in strategy_handlers''))
               | Some f \<Rightarrow> Inr (InnerHumanApproval \<lparr>hu_Prompt = Some f, hu_DenialReason = str ''denial_reason''\<rparr>))
         else if name = ''sandbox/write''
         then Inr (InnerWriteSandbox \<lparr>sb_Allow = Some (strs ''allow''), sb_Deny = strs ''deny''\<rparr>)
         else if name = ''sandbox/network''
         then Inr (InnerNetworkSandbox \<lparr>nw_Allow = strs ''allow'', nw_Deny = strs ''deny''\<rparr>)
         else if name = ''credential/proxy''
         then (case NewCredentialProxy (sg_Config spec) of
                 Inl e \<Rightarrow> Inl (ValidationError e) | Inr proxy \<Rightarrow> Inr (InnerCredentialProxy proxy))
         else if name = ''guard/repetition''
         then Inr (InnerRepetitionGuard (int' ''max_consecutive_failures'') (int' ''max_identical_calls'')
                     (int' ''max_consecutive_rejections''))
         else if name = ''guard/timeout'' then Inr (InnerTimeoutGuard (int' ''timeout_seconds''))
         else if name = ''guard/health''
         then Inr (InnerHealthGuard (str ''command'') (int' ''timeout_seconds'') (str ''on_failure''))
         else if name = ''guard/cost_budget''
         then Inr (InnerCostBudgetGuard (int' ''max_input_tokens'') (int' ''max_output_tokens''))
         else Inl (UnknownStrategyError (''unknown canonical strategy: '' @ go_quote name)))"

fun BuildStrategies ::
    "('h, 'st, 'w, 'p, 's) manifest_options \<Rightarrow> strategy_spec list \<Rightarrow> manifest_error + ('h, 'st, 'w) named_strategy list"
where
  "BuildStrategies opts [] = Inr []"
| "BuildStrategies opts (spec # specs) =
     bind_res (build_strategy opts spec) (\<lambda>inner.
       bind_res (BuildStrategies opts specs) (\<lambda>rest.
         Inr (\<lparr>ns_Name = sg_Name spec, ns_OnError = sg_OnError spec, ns_Inner = inner\<rparr> # rest)))"

fun BuildHooks :: "(string \<times> 'h) list \<Rightarrow> hook_spec list \<Rightarrow> manifest_error + 'h hook_installation list" where
  "BuildHooks handlers [] = Inr []"
| "BuildHooks handlers (spec # specs) =
     (case map_of handlers (hp_Handler spec) of
        None \<Rightarrow> Inl (UnresolvedHandlerError (''hook handler '' @ go_quote (hp_Handler spec) @ '' not in hook_handlers''))
      | Some h \<Rightarrow>
          bind_res (BuildHooks handlers specs) (\<lambda>rest.
            Inr (\<lparr>hi_Point = (if has_prefix (hp_Point spec) '':'' then drop 1 (hp_Point spec) else hp_Point spec),
                  hi_Name = hp_Handler spec, hi_Handler = h, hi_Config = hp_Config spec,
                  hi_OnError = hp_OnError spec\<rparr> # rest)))"

section \<open>Installation\<close>

definition onErrorDefault :: "string \<Rightarrow> string" where
  "onErrorDefault v = (if v = [] then ''isolate'' else v)"

definition hookSliceContains :: "('h \<Rightarrow> nat) \<Rightarrow> 'h list \<Rightarrow> 'h \<Rightarrow> bool" where
  "hookSliceContains code hs target \<longleftrightarrow> list_ex (\<lambda>h. code h = code target) hs"

text \<open>One handler of the registry after an inner installation; then all of them, point by point.\<close>

definition mark_handler ::
    "('h \<Rightarrow> nat) \<Rightarrow> (string \<times> 'h list) list \<Rightarrow> hook_options \<Rightarrow> string \<Rightarrow> 'h \<Rightarrow> 'h hooks \<Rightarrow> 'h hooks" where
  "mark_handler code before options point h hk =
     (if hookSliceContains code (aget [] before point) h then hk
      else OnWithOptions code point h options (Off code point h hk))"

definition markNewHandlers ::
    "('h \<Rightarrow> nat) \<Rightarrow> (string \<times> 'h list) list \<Rightarrow> hook_options \<Rightarrow> 'h hooks \<Rightarrow> 'h hooks" where
  "markNewHandlers code before options hk =
     fold (\<lambda>(point, hs). fold (mark_handler code before options point) hs) (hk_handlers hk) hk"

text \<open>\<open>closures\<close> are the handlers the inner installation registers with \<^verbatim>\<open>On\<close>, in order.\<close>

definition Named_Install ::
    "('h \<Rightarrow> nat) \<Rightarrow> (string \<times> 'h) list \<Rightarrow> ('h, 'st, 'w) named_strategy \<Rightarrow> 'h hooks \<Rightarrow> 'h hooks" where
  "Named_Install code closures n hk =
     markNewHandlers code (hk_handlers hk)
       \<lparr>ho_on_error = onErrorDefault (ns_OnError n), ho_name = ns_Name n, ho_source = ''strategy''\<rparr>
       (fold (\<lambda>(point, h). On code point h) closures hk)"

text \<open>\<open>wrap\<close> makes the closure that passes the hook's configuration on.\<close>

definition Hook_Install ::
    "('h \<Rightarrow> nat) \<Rightarrow> ('h hook_installation \<Rightarrow> 'h) \<Rightarrow> 'h hook_installation \<Rightarrow> 'h hooks \<Rightarrow> 'h hooks" where
  "Hook_Install code wrap h hk =
     OnWithOptions code (hi_Point h) (wrap h)
       \<lparr>ho_on_error = onErrorDefault (hi_OnError h), ho_name = hi_Name h, ho_source = ''hook''\<rparr> hk"

section \<open>Providers\<close>

definition projection_of ::
    "('h, 'st, 'w, 'p, 's) manifest_options \<Rightarrow> provider_spec \<Rightarrow> string \<Rightarrow> ('h, 'st, 'w) registry \<Rightarrow> int \<Rightarrow>
     ('h, 'st, 'w) projection"
where
  "projection_of opts p system registry max_tokens =
     \<lparr>pj_Model = ps_Model p, pj_MaxTokens = max_tokens, pj_System = system, pj_Registry = registry,
      pj_Store = mo_AttachmentStore opts, pj_ProviderKind = ps_Kind p, pj_Capabilities = ps_Capabilities p,
      pj_Mismatch = ps_Mismatch p, pj_fetch = mo_fetch opts\<rparr>"

definition ProjectionForWithRegistryAndStore ::
    "('h, 'st, 'w, 'p, 's) manifest_options \<Rightarrow> provider_spec \<Rightarrow> string \<Rightarrow> ('h, 'st, 'w) registry \<Rightarrow>
     ('h, 'st, 'w) projection_choice"
where
  "ProjectionForWithRegistryAndStore opts p system registry =
     (if ps_Kind p = ''openai'' \<or> ps_Kind p = ''ollama'' then OpenAIProject (projection_of opts p system registry 0)
      else if ps_Kind p = ''gemini'' then GeminiProject (projection_of opts p system registry 0)
      else AnthropicProject (projection_of opts p system registry (ps_MaxTokens p)))"

definition IngestorFor :: "string \<Rightarrow> ingestor_choice" where
  "IngestorFor kind =
     (if kind = ''openai'' \<or> kind = ''ollama'' then OpenAIIngest
      else if kind = ''gemini'' then GeminiIngest \<lparr>gi_counter = 0\<rparr>
      else AnthropicIngest)"

definition apiKeyFor :: "('h, 'st, 'w, 'p, 's) manifest_options \<Rightarrow> string \<Rightarrow> string" where
  "apiKeyFor opts kind =
     (let given = aget [] (mo_APIKeys opts) kind
      in if given \<noteq> [] then given
         else if kind = ''anthropic'' then mo_Getenv opts ''ANTHROPIC_API_KEY''
         else if kind = ''openai'' then mo_Getenv opts ''OPENAI_API_KEY''
         else if kind = ''gemini'' then mo_Getenv opts ''GEMINI_API_KEY''
         else [])"

definition keyed_choice :: "string \<Rightarrow> string \<Rightarrow> manifest_error + 'p provider_choice" where
  "keyed_choice kind key =
     (if kind = ''anthropic'' then Inr (ChooseAnthropic key)
      else if kind = ''openai'' then Inr (ChooseOpenAI key)
      else if kind = ''gemini'' then Inr (ChooseGemini key)
      else Inl (UnknownProviderError (''unknown provider kind: '' @ go_quote kind)))"

definition ollama_base :: "('h, 'st, 'w, 'p, 's) manifest_options \<Rightarrow> provider_spec \<Rightarrow> string" where
  "ollama_base opts p = or_else (ps_BaseURL p) (mo_Getenv opts ''OLLAMA_BASE_URL'')"

definition providerFor ::
    "('h, 'st, 'w, 'p, 's) manifest_options \<Rightarrow> provider_spec \<Rightarrow> manifest_error + 'p provider_choice" where
  "providerFor opts p =
     (let kind = ps_Kind p; key = apiKeyFor opts kind
      in case map_of (mo_Providers opts) kind of
           Some given \<Rightarrow> Inr (GivenProvider given)
         | None \<Rightarrow>
             if kind = ''mock'' then Inr ChooseMock
             else if kind = ''ollama'' then Inr (ChooseOllama (ollama_base opts p))
             else if key = []
             then Inl (ManifestError (''api_keys['' @ go_quote kind @ ''] is required for provider '' @ kind))
             else keyed_choice kind key)"

definition streamProviderFor ::
    "('h, 'st, 'w, 'p, 's) manifest_options \<Rightarrow> provider_spec \<Rightarrow> manifest_error + 's provider_choice option" where
  "streamProviderFor opts p =
     (let kind = ps_Kind p; key = apiKeyFor opts kind
      in case map_of (mo_StreamProviders opts) kind of
           Some given \<Rightarrow> Inr (Some (GivenProvider given))
         | None \<Rightarrow>
             if kind = ''mock'' then Inr None
             else if kind = ''ollama'' then Inr (Some (ChooseOllama (ollama_base opts p)))
             else if key = []
             then Inl (ManifestError (''api_keys['' @ go_quote kind @ ''] is required for stream provider '' @ kind))
             else bind_res (keyed_choice kind key) (\<lambda>c. Inr (Some c)))"

section \<open>BuildManifest\<close>

record ('h, 'st, 'w, 'p, 's) loaded_manifest =
  lm_Name :: string
  lm_Session :: "'st session"
  lm_Projection :: "('h, 'st, 'w) projection_choice"
  lm_Provider :: "'p provider_choice"
  lm_ProviderKind :: string
  lm_StreamProvider :: "'s provider_choice option"
  lm_Ingestor :: ingestor_choice
  lm_Registry :: "('h, 'st, 'w) registry"
  lm_Strategies :: "('h, 'st, 'w) named_strategy list"
  lm_Hooks :: "'h hook_installation list"

definition opt_text :: "string \<Rightarrow> string \<Rightarrow> payload" where
  "opt_text k s = (if s = [] then [] else [(k, VStr s)])"

definition opt_members :: "string \<Rightarrow> payload \<Rightarrow> payload" where
  "opt_members k m = (if m = [] then [] else [(k, VMap m)])"

text \<open>The JSON form of a manifest, with the members its tags omit when empty left out.\<close>

definition manifest_members :: "manifest \<Rightarrow> payload" where
  "manifest_members m =
     (let p = mf_Provider m
      in [(''harnas_version'', VStr (mf_Version m))] @ opt_text ''fixture_version_added'' (mf_FixtureVersion m)
         @ [(''name'', VStr (mf_Name m))] @ opt_text ''system'' (mf_System m)
         @ [(''provider'', VMap ([(''kind'', VStr (ps_Kind p))] @ opt_text ''model'' (ps_Model p)
              @ [(''max_tokens'', VInt (ps_MaxTokens p))] @ opt_text ''base_url'' (ps_BaseURL p)
              @ opt_members ''capabilities'' (map (\<lambda>(k, b). (k, VBool b)) (ps_Capabilities p))
              @ opt_text ''capability_mismatch_behavior'' (ps_Mismatch p))),
            (''tools'', VList (map (\<lambda>t. VMap ([(''name'', VStr (md_Name t)), (''handler'', VStr (md_Handler t)),
                (''description'', VStr (md_Description t)),
                (''input_schema'', case md_InputSchema t of None \<Rightarrow> VNil | Some s \<Rightarrow> VMap s)]
                @ opt_members ''config'' (md_Config t))) (mf_Tools m))),
            (''strategies'', VList (map (\<lambda>s. VMap ([(''name'', VStr (sg_Name s))]
                @ opt_members ''config'' (sg_Config s) @ opt_text ''on_error'' (sg_OnError s))) (mf_Strategies m)))]
         @ (if mf_Hooks m = [] then []
            else [(''hooks'', VList (map (\<lambda>h. VMap ([(''point'', VStr (hp_Point h)), (''handler'', VStr (hp_Handler h))]
                @ opt_members ''config'' (hp_Config h) @ opt_text ''on_error'' (hp_OnError h))) (mf_Hooks m)))]))"

definition manifestSnapshot :: "manifest \<Rightarrow> payload" where
  "manifestSnapshot m = cloneMap (manifest_members m)"

definition BuildManifest ::
    "string \<Rightarrow> ('h, 'st, 'w, 'p, 's) manifest_options \<Rightarrow> manifest \<Rightarrow>
     manifest_error + ('h, 'st, 'w, 'p, 's) loaded_manifest"
where
  "BuildManifest uuid opts m =
     (case ValidateManifest m of
        Some e \<Rightarrow> Inl e
      | None \<Rightarrow>
          bind_res (BuildRegistryWithContextual opts (mf_Tools m)) (\<lambda>registry.
          bind_res (providerFor opts (mf_Provider m)) (\<lambda>provider.
          bind_res (streamProviderFor opts (mf_Provider m)) (\<lambda>stream.
          bind_res (BuildStrategies opts (mf_Strategies m)) (\<lambda>strategies.
          bind_res (BuildHooks (mo_HookHandlers opts) (mf_Hooks m)) (\<lambda>hooks.
            Inr \<lparr>lm_Name = mf_Name m,
                 lm_Session = CreateSession uuid [(''manifest_name'', VStr (mf_Name m)),
                                                  (''manifest'', VMap (manifestSnapshot m))],
                 lm_Projection = ProjectionForWithRegistryAndStore opts (mf_Provider m) (mf_System m) registry,
                 lm_Provider = provider, lm_ProviderKind = ps_Kind (mf_Provider m), lm_StreamProvider = stream,
                 lm_Ingestor = IngestorFor (ps_Kind (mf_Provider m)), lm_Registry = registry,
                 lm_Strategies = strategies, lm_Hooks = hooks\<rparr>))))))"

text \<open>\<^verbatim>\<open>InstallStrategies\<close>, on the hooks of the loaded session.\<close>

definition InstallStrategies ::
    "('h \<Rightarrow> nat) \<Rightarrow> (('h, 'st, 'w) strategy_inner \<Rightarrow> (string \<times> 'h) list) \<Rightarrow> ('h hook_installation \<Rightarrow> 'h) \<Rightarrow>
     ('h, 'st, 'w, 'p, 's) loaded_manifest \<Rightarrow> 'h hooks \<Rightarrow> 'h hooks"
where
  "InstallStrategies code closures wrap l hk =
     fold (Hook_Install code wrap) (lm_Hooks l)
       (fold (\<lambda>n. Named_Install code (closures (ns_Inner n)) n) (lm_Strategies l) hk)"

definition LoadManifest ::
    "(val \<Rightarrow> string) \<Rightarrow> string \<Rightarrow> string \<Rightarrow> string + string \<Rightarrow> ('h, 'st, 'w, 'p, 's) manifest_options \<Rightarrow>
     manifest_error + ('h, 'st, 'w, 'p, 's) loaded_manifest"
where
  "LoadManifest je syntax_error uuid file opts =
     bind_res (ReadManifest je syntax_error file) (BuildManifest uuid opts)"

end
