(* ===== verification/ManifestProps.thy ===== *)
theory ManifestProps
  imports ManifestBuild
begin

text \<open>
  What a validated manifest can still fail on when it is built, the registry it gives, and what
  becomes of the error policies of its strategies and hooks.
\<close>

section \<open>Validation and building\<close>

lemma validateTools_None:
  "validateTools seen ts = None \<longleftrightarrow>
     (\<forall>t \<in> set ts. md_Name t \<noteq> [] \<and> md_Handler t \<noteq> [] \<and> md_InputSchema t \<noteq> None) \<and>
     distinct (map md_Name ts) \<and> set (map md_Name ts) \<inter> set seen = {}"
  by (induction ts arbitrary: seen) auto

lemma validateStrategies_None:
  "validateStrategies ss = None \<longleftrightarrow>
     (\<forall>s \<in> set ss. canonical_strategy (sg_Name s) \<and> knownStrategy (sg_Name s) \<and> validateOnError (sg_OnError s) = None)"
  by (induction ss) (auto split: option.splits)

lemma first_error_None: "first_error es = None \<longleftrightarrow> (\<forall>e \<in> set es. e = None)"
  by (induction es rule: first_error.induct) auto

lemma ValidateManifest_None:
  assumes "ValidateManifest m = None"
  shows "knownProvider (ps_Kind (mf_Provider m))" "validateTools [] (mf_Tools m) = None"
    "validateStrategies (mf_Strategies m) = None" "validateHooks (mf_Hooks m) = None"
  using assms by (auto simp: ValidateManifest_def Let_def first_error_None split: if_splits)

text \<open>Every known name is canonical: the pattern refuses none of them.\<close>

lemma known_canonical: "knownStrategy name \<Longrightarrow> canonical_strategy name"
proof -
  have "list_all canonical_strategy
     [''Compaction::MarkerTail'', ''Compaction::SummaryTail'', ''Compaction::TokenMarkerTail'',
      ''Compaction::ToolOutputCap'', ''Permission::AlwaysAllow'', ''Permission::DenyByName'',
      ''Permission::HumanApproval'', ''Permission::RequireApproval'', ''sandbox/write'', ''sandbox/network'',
      ''credential/proxy'', ''guard/repetition'', ''guard/timeout'', ''guard/health'', ''guard/cost_budget'']"
    by code_simp
  then show "knownStrategy name \<Longrightarrow> canonical_strategy name"
    unfolding knownStrategy_def list_all_iff by blast
qed

definition strategy_resolves ::
    "('h, 'st, 'w, 'p, 's) manifest_options \<Rightarrow> strategy_spec \<Rightarrow> bool" where
  "strategy_resolves opts s \<longleftrightarrow>
     (sg_Name s = ''Permission::HumanApproval'' \<longrightarrow>
        map_of (mo_StrategyHandlers opts) (config_string s ''prompt'') \<noteq> None) \<and>
     (sg_Name s = ''credential/proxy'' \<longrightarrow> is_ok (NewCredentialProxy (sg_Config s)))"

lemma build_strategy_plain:
  assumes "knownStrategy (sg_Name s)" "sg_Name s \<noteq> ''credential/proxy''" "sg_Name s \<noteq> ''Permission::HumanApproval''"
  shows "is_ok (build_strategy opts s)"
  using assms(1) unfolding knownStrategy_def list.set
  by (elim insertE emptyE) (use assms(2,3) in \<open>simp_all add: build_strategy_def Let_def\<close>)

lemma build_strategy_ok:
  assumes "knownStrategy (sg_Name s)"
  shows "is_ok (build_strategy opts s) \<longleftrightarrow> strategy_resolves opts s"
proof (cases "sg_Name s = ''credential/proxy'' \<or> sg_Name s = ''Permission::HumanApproval''")
  case True
  then show ?thesis
    by (cases "NewCredentialProxy (sg_Config s)"; cases "map_of (mo_StrategyHandlers opts) (config_string s ''prompt'')")
      (auto simp: build_strategy_def strategy_resolves_def Let_def)
next
  case False
  then show ?thesis using build_strategy_plain [OF assms, of opts] by (simp add: strategy_resolves_def)
qed

lemma BuildStrategies_ok:
  assumes "\<forall>s \<in> set ss. knownStrategy (sg_Name s)"
  shows "is_ok (BuildStrategies opts ss) \<longleftrightarrow> (\<forall>s \<in> set ss. strategy_resolves opts s)"
  using assms
proof (induction ss)
  case (Cons s ss)
  then show ?case using build_strategy_ok [of s opts]
    by (cases "build_strategy opts s"; cases "BuildStrategies opts ss") auto
qed simp

lemma BuildHooks_ok:
  "is_ok (BuildHooks hs specs) \<longleftrightarrow> (\<forall>s \<in> set specs. map_of hs (hp_Handler s) \<noteq> None)"
proof (induction specs)
  case (Cons s specs)
  then show ?case by (cases "BuildHooks hs specs") (auto split: option.splits)
qed simp

text \<open>Validated tools are registered in order, each under its name.\<close>

lemma build_tools_ok:
  assumes "distinct (map md_Name ts)" and "\<forall>t \<in> set ts. md_Name t \<noteq> []"
    and "\<forall>t \<in> set ts. md_Name t \<notin> fst ` set r"
  shows "(if \<forall>t \<in> set ts. resolves opts t
          then build_tools opts ts r = Inr (r @ map (\<lambda>t. (md_Name t, tool_of_spec opts t)) ts)
          else \<exists>t \<in> set ts. build_tools opts ts r =
            Inl (UnresolvedHandlerError (''tool handler '' @ go_quote (md_Handler t) @ '' not in tool_handlers'')))"
  using assms
proof (induction ts arbitrary: r)
  case (Cons t ts)
  have name: "tl_name (tool_of_spec opts t) = md_Name t" by (simp add: tool_of_spec_def)
  have fresh: "\<not> ahas r (md_Name t)" using Cons.prems(3) by (auto simp: ahas_def map_of_eq_None_iff)
  have reg: "Register (tool_of_spec opts t) r = (Inr (), r @ [(md_Name t, tool_of_spec opts t)])"
    using Cons.prems(2) fresh by (simp add: Register_def name update_fresh)
  have "\<forall>x \<in> set ts. md_Name x \<notin> fst ` set (r @ [(md_Name t, tool_of_spec opts t)])"
  proof
    fix x assume x: "x \<in> set ts"
    then have "md_Name x \<in> set (map md_Name ts)" by simp
    then have "md_Name x \<noteq> md_Name t" using Cons.prems(1) by auto
    then show "md_Name x \<notin> fst ` set (r @ [(md_Name t, tool_of_spec opts t)])" using Cons.prems(3) x by simp
  qed
  then have IH: "if \<forall>t \<in> set ts. resolves opts t
      then build_tools opts ts (r @ [(md_Name t, tool_of_spec opts t)]) =
        Inr ((r @ [(md_Name t, tool_of_spec opts t)]) @ map (\<lambda>t. (md_Name t, tool_of_spec opts t)) ts)
      else \<exists>u \<in> set ts. build_tools opts ts (r @ [(md_Name t, tool_of_spec opts t)]) =
        Inl (UnresolvedHandlerError (''tool handler '' @ go_quote (md_Handler u) @ '' not in tool_handlers''))"
    using Cons.prems(1,2) by (intro Cons.IH) auto
  show ?case
  proof (cases "resolves opts t")
    case True
    then have step: "build_tools opts (t # ts) r = build_tools opts ts (r @ [(md_Name t, tool_of_spec opts t)])"
      by (simp add: reg)
    show ?thesis
    proof (cases "\<forall>t \<in> set ts. resolves opts t")
      case True
      with IH \<open>resolves opts t\<close> show ?thesis unfolding step by simp
    next
      case False
      with IH \<open>resolves opts t\<close> show ?thesis unfolding step by auto
    qed
  qed simp
qed simp

definition keyed_kind :: "string \<Rightarrow> bool" where
  "keyed_kind kind \<longleftrightarrow> kind \<noteq> ''mock'' \<and> kind \<noteq> ''ollama''"

lemma providers_ok:
  fixes opts :: "('h, 'st, 'w, 'p, 's) manifest_options"
  assumes "knownProvider (ps_Kind p)"
  shows "is_ok (providerFor opts p) \<longleftrightarrow>
      map_of (mo_Providers opts) (ps_Kind p) \<noteq> None \<or> \<not> keyed_kind (ps_Kind p) \<or> apiKeyFor opts (ps_Kind p) \<noteq> []"
    and "is_ok (streamProviderFor opts p) \<longleftrightarrow>
      map_of (mo_StreamProviders opts) (ps_Kind p) \<noteq> None \<or> \<not> keyed_kind (ps_Kind p) \<or> apiKeyFor opts (ps_Kind p) \<noteq> []"
proof -
  have keyed: "keyed_kind (ps_Kind p) \<Longrightarrow> is_ok (keyed_choice (ps_Kind p) key :: manifest_error + 'p provider_choice)" for key
    using assms by (auto simp: knownProvider_def keyed_kind_def keyed_choice_def)
  show "is_ok (providerFor opts p) \<longleftrightarrow>
      map_of (mo_Providers opts) (ps_Kind p) \<noteq> None \<or> \<not> keyed_kind (ps_Kind p) \<or> apiKeyFor opts (ps_Kind p) \<noteq> []"
    using keyed by (auto simp: providerFor_def Let_def keyed_kind_def split: option.splits)
  have keyed': "keyed_kind (ps_Kind p) \<Longrightarrow> is_ok (keyed_choice (ps_Kind p) key :: manifest_error + 's provider_choice)" for key
    using assms by (auto simp: knownProvider_def keyed_kind_def keyed_choice_def)
  have bind: "is_ok (bind_res r (\<lambda>c. Inr (Some c))) = is_ok r" for r :: "manifest_error + 's provider_choice"
    by (cases r) auto
  show "is_ok (streamProviderFor opts p) \<longleftrightarrow>
      map_of (mo_StreamProviders opts) (ps_Kind p) \<noteq> None \<or> \<not> keyed_kind (ps_Kind p) \<or> apiKeyFor opts (ps_Kind p) \<noteq> []"
    using keyed' by (auto simp: streamProviderFor_def Let_def keyed_kind_def bind split: option.splits)
qed

text \<open>What a manifest asks of the host.\<close>

definition host_provides :: "('h, 'st, 'w, 'p, 's) manifest_options \<Rightarrow> manifest \<Rightarrow> bool" where
  "host_provides opts m \<longleftrightarrow>
     (let kind = ps_Kind (mf_Provider m); key = (\<not> keyed_kind kind \<or> apiKeyFor opts kind \<noteq> [])
      in (\<forall>t \<in> set (mf_Tools m). resolves opts t) \<and>
         (map_of (mo_Providers opts) kind \<noteq> None \<or> key) \<and> (map_of (mo_StreamProviders opts) kind \<noteq> None \<or> key) \<and>
         (\<forall>s \<in> set (mf_Strategies m). strategy_resolves opts s) \<and>
         (\<forall>h \<in> set (mf_Hooks m). map_of (mo_HookHandlers opts) (hp_Handler h) \<noteq> None))"

lemma is_ok_bind: "is_ok (bind_res r f) \<longleftrightarrow> (\<exists>a. r = Inr a \<and> is_ok (f a))"
  by (cases r) auto

lemma is_ok_iff: "is_ok r \<longleftrightarrow> (\<exists>a. r = Inr a)"
  by (cases r) auto

lemma BuildManifest_ok:
  assumes "ValidateManifest m = None"
  shows "is_ok (BuildManifest uuid opts m) \<longleftrightarrow> host_provides opts m"
    and "BuildManifest uuid opts m = Inr l \<Longrightarrow>
      lm_Registry l = map (\<lambda>t. (md_Name t, tool_of_spec opts t)) (mf_Tools m)"
proof -
  note v = ValidateManifest_None [OF assms]
  have tools: "distinct (map md_Name (mf_Tools m))" "\<forall>t \<in> set (mf_Tools m). md_Name t \<noteq> []"
    using v(2) by (simp_all add: validateTools_None)
  note built = build_tools_ok [OF tools, of NewRegistry opts]
  have reg: "is_ok (BuildRegistryWithContextual opts (mf_Tools m)) \<longleftrightarrow> (\<forall>t \<in> set (mf_Tools m). resolves opts t)"
    using built by (auto simp: BuildRegistryWithContextual_def NewRegistry_def is_ok_iff split: if_splits)
  have strat: "is_ok (BuildStrategies opts (mf_Strategies m)) \<longleftrightarrow> (\<forall>s \<in> set (mf_Strategies m). strategy_resolves opts s)"
    using v(3) by (intro BuildStrategies_ok) (simp add: validateStrategies_None)
  have "is_ok (BuildManifest uuid opts m) \<longleftrightarrow>
      is_ok (BuildRegistryWithContextual opts (mf_Tools m)) \<and> is_ok (providerFor opts (mf_Provider m)) \<and>
      is_ok (streamProviderFor opts (mf_Provider m)) \<and> is_ok (BuildStrategies opts (mf_Strategies m)) \<and>
      is_ok (BuildHooks (mo_HookHandlers opts) (mf_Hooks m))"
    unfolding BuildManifest_def assms option.case is_ok_bind is_ok.simps by (auto simp: is_ok_iff)
  then show "is_ok (BuildManifest uuid opts m) \<longleftrightarrow> host_provides opts m"
    unfolding reg strat providers_ok [OF v(1)] BuildHooks_ok host_provides_def Let_def by blast
  show "lm_Registry l = map (\<lambda>t. (md_Name t, tool_of_spec opts t)) (mf_Tools m)"
    if "BuildManifest uuid opts m = Inr l"
    using that assms built
    by (auto simp: BuildManifest_def bind_res_Inr_iff BuildRegistryWithContextual_def NewRegistry_def split: if_splits)
qed

section \<open>Error policies\<close>

definition policy_of :: "('h \<Rightarrow> nat) \<Rightarrow> 'h hooks \<Rightarrow> 'h \<Rightarrow> string" where
  "policy_of code hk h = ho_on_error (aget no_options (hk_metadata hk) (code h))"

lemma OnWithOptions_policy:
  "policy_of code (OnWithOptions code p h options hk) x =
     (if code x = code h then (if ho_on_error options = [] then HookErrorIsolate else ho_on_error options)
      else policy_of code hk x)"
  by (simp add: policy_of_def OnWithOptions_def Let_def)

lemma OnWithOptions_handlers:
  "hk_handlers (OnWithOptions code p h options hk) = AList.update p (handlers_at hk p @ [h]) (hk_handlers hk)"
  "handlers_at (OnWithOptions code p h options hk) q = handlers_at hk q @ (if q = p then [h] else [])"
  by (simp_all add: OnWithOptions_def Let_def handlers_at_def)

lemma On_all_policy:
  "policy_of code (fold (\<lambda>(p, h). On code p h) cs hk) x =
     (if code x \<in> code ` snd ` set cs then HookErrorIsolate else policy_of code hk x)"
  by (induction cs arbitrary: hk) (auto simp: On_def OnWithOptions_policy no_options_def)

lemma On_all_handlers:
  assumes "distinct (map fst (hk_handlers hk))" and "(q, hs) \<in> set (hk_handlers (fold (\<lambda>(p, h). On code p h) cs hk))"
  shows "set hs \<subseteq> set (handlers_at hk q) \<union> {h. (q, h) \<in> set cs}"
  using assms
proof (induction cs arbitrary: hk)
  case Nil
  then show ?case by (simp add: handlers_at_def aget_def)
next
  case (Cons c cs)
  obtain p h where c: "c = (p, h)" by fastforce
  have "distinct (map fst (hk_handlers (On code p h hk)))"
    using Cons.prems(1) by (simp add: On_def OnWithOptions_handlers distinct_update)
  with Cons.IH [of "On code p h hk"] Cons.prems(2) show ?case
    by (auto simp: c On_def OnWithOptions_handlers split: if_splits)
qed

lemma mark_nothing:
  assumes "\<And>p hs h. (p, hs) \<in> set (hk_handlers hk) \<Longrightarrow> h \<in> set hs \<Longrightarrow> hookSliceContains code (aget [] before p) h"
  shows "markNewHandlers code before options hk = hk"
proof -
  have one: "fold (mark_handler code before options p) hs hk' = hk'"
    if "\<And>h. h \<in> set hs \<Longrightarrow> hookSliceContains code (aget [] before p) h" for p hs hk'
    using that by (induction hs arbitrary: hk') (simp_all add: mark_handler_def)
  have "fold (\<lambda>(p, hs). fold (mark_handler code before options p) hs) xs hk' = hk'"
    if "\<And>p hs h. (p, hs) \<in> set xs \<Longrightarrow> h \<in> set hs \<Longrightarrow> hookSliceContains code (aget [] before p) h" for xs hk'
    using that
  proof (induction xs arbitrary: hk')
    case (Cons x xs)
    obtain p hs where x: "x = (p, hs)" by fastforce
    have "fold (mark_handler code before options p) hs hk' = hk'" by (rule one) (use Cons.prems x in auto)
    with Cons x show ?case by auto
  qed simp
  from this [of "hk_handlers hk" hk] assms show ?thesis by (simp add: markNewHandlers_def)
qed

text \<open>A strategy of which every closure shares its code with a handler already at its point is
  installed with the default policy, whatever its manifest says.\<close>

lemma Named_Install_repeated:
  assumes "distinct (map fst (hk_handlers hk))"
    and "\<forall>(p, h) \<in> set cs. \<exists>x \<in> set (handlers_at hk p). code x = code h"
  shows "Named_Install code cs n hk = fold (\<lambda>(p, h). On code p h) cs hk"
  unfolding Named_Install_def
proof (rule mark_nothing)
  fix p hs h
  assume "(p, hs) \<in> set (hk_handlers (fold (\<lambda>(point, h). On code point h) cs hk))" "h \<in> set hs"
  with On_all_handlers [OF assms(1)] have "h \<in> set (handlers_at hk p) \<or> (p, h) \<in> set cs" by fastforce
  then have "\<exists>x \<in> set (handlers_at hk p). code x = code h" using assms(2) by auto
  then show "hookSliceContains code (aget [] (hk_handlers hk) p) h"
    by (auto simp: hookSliceContains_def list_ex_iff handlers_at_def)
qed

lemma hooks_last_policy:
  assumes "\<And>h. h \<in> set hs \<Longrightarrow> code (wrap h) = k" and "hs \<noteq> []" and "code x = k"
  shows "policy_of code (fold (Hook_Install code wrap) hs hk) x = onErrorDefault (hi_OnError (last hs))"
  using assms
proof (induction hs rule: rev_induct)
  case (snoc h hs)
  have "onErrorDefault v \<noteq> []" for v by (simp add: onErrorDefault_def)
  then show ?case using snoc.prems(1) [of h] snoc.prems(3) by (simp add: Hook_Install_def OnWithOptions_policy)
qed simp

lemma BuildManifest_parts:
  assumes "BuildManifest uuid opts m = Inr l"
  shows "BuildStrategies opts (mf_Strategies m) = Inr (lm_Strategies l)"
    and "BuildHooks (mo_HookHandlers opts) (mf_Hooks m) = Inr (lm_Hooks l)"
  using assms by (auto simp: BuildManifest_def bind_res_Inr_iff split: option.splits)

lemma repeated_strategy_isolates:
  assumes "distinct (map fst (hk_handlers hk))"
    and "\<forall>(p, h) \<in> set cs. \<exists>x \<in> set (handlers_at hk p). code x = code h" and "(p, h) \<in> set cs"
  shows "policy_of code (Named_Install code cs n hk) h = HookErrorIsolate"
  using assms(3) by (force simp: Named_Install_repeated [OF assms(1,2)] On_all_policy)

end
