(* ===== verification/BashProps.thy ===== *)
theory BashProps
  imports BashSession FileProps "HOL-Library.Sublist"
begin

text \<open>
  The bash sessions: a ring buffer holds the end of what was written; a framed command completes
  on every interleaving of its two streams with the exit code and the output of the command, and
  on nothing else; a marker in the output spoils it; quoted commands are read back by the shell's
  own rules.
\<close>

section \<open>Ring buffers hold the end of a history\<close>

definition kept :: "int \<Rightarrow> string \<Rightarrow> string" where
  "kept n h = (if n \<le> 0 then h else drop (length h - nat n) h)"

definition rb_holds :: "ring_buffer \<Rightarrow> string \<Rightarrow> bool" where
  "rb_holds b h \<longleftrightarrow> rb_total b = int (length h) \<and> rb_data b = kept (rb_max b) h \<and>
     (rb_truncated b \<longleftrightarrow> 0 < rb_max b \<and> rb_max b < int (length h))"

lemma rb_holds_new: "rb_holds (newRingBuffer n) []"
  by (simp add: rb_holds_def newRingBuffer_def kept_def)

lemma rb_max_write [simp]: "rb_max (rb_WriteString v b) = rb_max b"
  by (simp add: rb_WriteString_def Let_def)

lemma kept_append: "0 < n \<Longrightarrow> kept n (kept n h @ v) = kept n (h @ v)"
  by (cases "length h \<le> nat n") (auto simp: kept_def add.commute)

lemma rb_holds_write:
  assumes "rb_holds b h"
  shows "rb_holds (rb_WriteString v b) (h @ v)"
proof (cases "0 < rb_max b")
  case True
  have data: "rb_data (rb_WriteString v b) = kept (rb_max b) (rb_data b @ v)"
    using True by (auto simp: rb_WriteString_def kept_def Let_def)
  have "rb_data (rb_WriteString v b) = kept (rb_max b) (h @ v)"
    unfolding data using assms True kept_append [of "rb_max b" h v] by (simp add: rb_holds_def)
  moreover have "length (rb_data b) = min (length h) (nat (rb_max b))"
    using assms True by (auto simp: rb_holds_def kept_def)
  then have "rb_truncated (rb_WriteString v b) \<longleftrightarrow> rb_max b < int (length (h @ v))"
    using assms True by (auto simp: rb_WriteString_def rb_holds_def Let_def)
  moreover have "rb_total (rb_WriteString v b) = int (length (h @ v))"
    using assms by (auto simp: rb_holds_def rb_WriteString_def Let_def)
  ultimately show ?thesis using True by (simp only: rb_holds_def rb_max_write simp_thms)
next
  case False
  then show ?thesis using assms by (simp add: rb_holds_def rb_WriteString_def kept_def Let_def)
qed

lemma rb_holds_from:
  assumes "rb_holds b (h @ v)"
  shows "rb_StringFrom (int (length h)) b = kept (rb_max b) v"
proof (cases "0 < rb_max b")
  case True
  have d: "rb_data b = drop (length h + length v - nat (rb_max b)) (h @ v)" "rb_total b = int (length h + length v)"
    using assms True by (simp_all add: rb_holds_def kept_def)
  show ?thesis
  proof (cases "nat (rb_max b) \<le> length v")
    case True
    then have "rb_data b = drop (length v - nat (rb_max b)) v" using d(1) by simp
    with True d(2) \<open>0 < rb_max b\<close> show ?thesis by (simp add: rb_StringFrom_def kept_def Let_def)
  next
    case False
    then have "rb_data b = drop (length h + length v - nat (rb_max b)) h @ v" using d(1) by simp
    moreover from this have "length (rb_data b) = length h - (length h + length v - nat (rb_max b)) + length v" by simp
    ultimately show ?thesis using False d(2) \<open>0 < rb_max b\<close>
      by (auto simp: rb_StringFrom_def kept_def Let_def nat_diff_distrib)
  qed
next
  case False
  then show ?thesis using assms by (simp add: rb_holds_def rb_StringFrom_def kept_def Let_def)
qed

section \<open>Markers\<close>

lemma str_index_drop: "str_index s p = Some i \<Longrightarrow> has_prefix (drop i s) p"
proof (induction s arbitrary: i)
  case Nil
  then show ?case by (auto simp: has_prefix_def split: if_splits)
next
  case (Cons c s)
  then show ?case by (auto split: if_splits)
qed

definition plain_token :: "string \<Rightarrow> bool" where
  "plain_token t \<longleftrightarrow> t \<noteq> [] \<and> list_all (\<lambda>c. \<not> is_space c \<and> c \<noteq> CHR 0x3A) t"

lemma trim_space_framed:
  assumes "\<not> is_space c" and "\<not> is_space (last (c # s))"
  shows "trim_space ((c # s) @ newline) = c # s"
proof -
  obtain t d where t: "c # s = t @ [d]" by (metis append_butlast_last_id list.discI)
  then have "\<not> is_space d" using assms(2) by (metis last_snoc)
  moreover have "is_space (CHR 0x0A)" by (simp add: is_space_def)
  moreover have "dropWhile is_space ((c # s) @ newline) = (t @ [d]) @ newline" using assms(1) by (simp add: t [symmetric])
  ultimately show ?thesis unfolding trim_space_def newline_def t [symmetric] by (simp add: t)
qed

lemma trim_prefix_append [simp]: "trim_prefix (p @ s) p = s"
  by (simp add: trim_prefix_def has_prefix_def)

lemma split_colon_append: "CHR 0x3A \<notin> set a \<Longrightarrow> split_colon (a @ CHR 0x3A # b) = Some (a, b)"
proof -
  have "str_index (a @ CHR 0x3A # b) [CHR 0x3A] = Some (length a)" if "CHR 0x3A \<notin> set a"
    using that by (induction a) (auto simp: has_prefix_def)
  then show "CHR 0x3A \<notin> set a \<Longrightarrow> split_colon (a @ CHR 0x3A # b) = Some (a, b)"
    by (simp add: split_colon_def)
qed

lemma show_int_last: "\<not> is_space (last (show_int n))" "show_int n \<noteq> []"
proof -
  have d: "\<not> is_space (last (show_nat m))" for m
  proof -
    have "last (show_nat m) \<in> set (show_nat m)" by simp
    then have "is_digit (last (show_nat m))" by (rule show_nat_digits)
    then show ?thesis by (auto simp: is_digit_def is_space_def)
  qed
  then show "\<not> is_space (last (show_int n))" by (simp add: show_int_def)
  show "show_int n \<noteq> []" by (simp add: show_int_def)
qed

definition out_mark :: "string \<Rightarrow> int \<Rightarrow> string" where
  "out_mark token code = done_prefix @ token @ '':'' @ show_int code @ newline"

definition err_mark :: "string \<Rightarrow> string" where
  "err_mark token = err_done_prefix @ token @ newline"

lemma out_mark_read:
  assumes "plain_token token"
  shows "split_colon (trim_prefix (trim_space (out_mark token code)) done_prefix) = Some (token, show_int code)"
proof -
  have "trim_space (out_mark token code) = done_prefix @ token @ '':'' @ show_int code"
    using trim_space_framed [of "hd done_prefix" "tl done_prefix @ token @ '':'' @ show_int code"] show_int_last
    by (simp add: out_mark_def done_prefix_def is_space_def)
  moreover have "CHR 0x3A \<notin> set token" using assms unfolding plain_token_def list_all_iff by blast
  ultimately show ?thesis by (simp add: split_colon_append)
qed

lemma err_mark_read:
  assumes "plain_token token"
  shows "trim_space (trim_prefix (err_mark token) err_done_prefix) = token"
proof -
  obtain c s where t: "token = c # s" using assms by (cases token) (auto simp: plain_token_def)
  have "\<not> is_space c" "\<not> is_space (last (c # s))" using assms unfolding t plain_token_def list_all_iff by auto
  then show ?thesis using trim_space_framed [of c s] by (simp add: err_mark_def t)
qed

section \<open>A command on every interleaving of its streams\<close>

text \<open>What a line adds to the captured output: without a marker, all of it; with the marker of the
  running command, what stands before; with another marker, that and the whole line again.\<close>

definition out_plain :: "string \<Rightarrow> bool" where
  "out_plain l \<longleftrightarrow> l \<noteq> [] \<and> at_marker done_prefix l = None"

definition err_plain :: "string \<Rightarrow> bool" where
  "err_plain l \<longleftrightarrow> l \<noteq> [] \<and> at_marker err_done_prefix l = None"

definition out_closes :: "string \<Rightarrow> int \<Rightarrow> string \<Rightarrow> string \<Rightarrow> bool" where
  "out_closes token code before l \<longleftrightarrow> at_marker done_prefix l = Some (before, out_mark token code)"

definition err_closes :: "string \<Rightarrow> string \<Rightarrow> string \<Rightarrow> bool" where
  "err_closes token before l \<longleftrightarrow> at_marker err_done_prefix l = Some (before, err_mark token)"

lemma write_stdout_simps [simp]:
  "bs_current (write_stdout v s) = bs_current s" "bs_finished (write_stdout v s) = bs_finished s"
  "bs_stderr (write_stdout v s) = bs_stderr s" "bs_closed (write_stdout v s) = bs_closed s"
  "bs_id (write_stdout v s) = bs_id s"
  by (simp_all add: write_stdout_def)

lemma write_stderr_simps [simp]:
  "bs_current (write_stderr v s) = bs_current s" "bs_finished (write_stderr v s) = bs_finished s"
  "bs_stdout (write_stderr v s) = bs_stdout s" "bs_closed (write_stderr v s) = bs_closed s"
  "bs_id (write_stderr v s) = bs_id s"
  by (simp_all add: write_stderr_def)

lemma write_stdout_holds: "rb_holds (bs_stdout s) h \<Longrightarrow> rb_holds (bs_stdout (write_stdout v s)) (h @ stripANSI v)"
  by (simp add: write_stdout_def rb_holds_write)

lemma write_stderr_holds: "rb_holds (bs_stderr s) h \<Longrightarrow> rb_holds (bs_stderr (write_stderr v s)) (h @ stripANSI v)"
  by (simp add: write_stderr_def rb_holds_write)

lemma out_plain_step: "out_plain l \<Longrightarrow> readStdout_line l s = write_stdout l s"
  by (simp add: out_plain_def readStdout_line_def handleSentinel_def)

lemma err_plain_step: "err_plain l \<Longrightarrow> readStderr_line l s = write_stderr l s"
  by (simp add: err_plain_def readStderr_line_def handleStderrSentinel_def)

definition written_out :: "string \<Rightarrow> bash_session \<Rightarrow> bash_session" where
  "written_out before s = (if before \<noteq> [] then write_stdout before s else s)"

definition written_err :: "string \<Rightarrow> bash_session \<Rightarrow> bash_session" where
  "written_err before s = (if before \<noteq> [] then write_stderr before s else s)"

lemma written_out_simps [simp]:
  "bs_current (written_out v s) = bs_current s" "bs_finished (written_out v s) = bs_finished s"
  "bs_stderr (written_out v s) = bs_stderr s" "bs_closed (written_out v s) = bs_closed s"
  "bs_id (written_out v s) = bs_id s"
  by (simp_all add: written_out_def)

lemma written_err_simps [simp]:
  "bs_current (written_err v s) = bs_current s" "bs_finished (written_err v s) = bs_finished s"
  "bs_stdout (written_err v s) = bs_stdout s" "bs_closed (written_err v s) = bs_closed s"
  "bs_id (written_err v s) = bs_id s"
  by (simp_all add: written_err_def)

lemma written_out_holds: "rb_holds (bs_stdout s) h \<Longrightarrow> rb_holds (bs_stdout (written_out v s)) (h @ stripANSI v)"
  by (simp add: written_out_def write_stdout_holds)

lemma written_err_holds: "rb_holds (bs_stderr s) h \<Longrightarrow> rb_holds (bs_stderr (written_err v s)) (h @ stripANSI v)"
  by (simp add: written_err_def write_stderr_holds)

definition int64 :: "int \<Rightarrow> bool" where
  "int64 n \<longleftrightarrow> - (2 ^ 63) \<le> n \<and> n < 2 ^ 63"

lemma out_closes_step:
  assumes "out_closes token code before l" and "plain_token token" and "int64 code"
    and "bs_current s = Some c" and "bc_token c = token"
  shows "readStdout_line l s = completeCurrentIfReady
    (written_out before s\<lparr>bs_current := Some (c\<lparr>bc_exitCode := Some code, bc_stdoutDone := True\<rparr>)\<rparr>)"
proof -
  have "l \<noteq> []" using assms(1) by (auto simp: out_closes_def at_marker_def done_prefix_def has_prefix_def)
  moreover have "atoi (show_int code) = Some code" using assms(3) by (intro atoi_show_int) (simp_all add: int64_def)
  ultimately show ?thesis
    using assms by (simp add: readStdout_line_def handleSentinel_def out_closes_def out_mark_read written_out_def)
qed

lemma err_closes_step:
  assumes "err_closes token before l" and "plain_token token" and "bs_current s = Some c" and "bc_token c = token"
  shows "readStderr_line l s =
    completeCurrentIfReady (written_err before s\<lparr>bs_current := Some (c\<lparr>bc_stderrDone := True\<rparr>)\<rparr>)"
proof -
  have "l \<noteq> []" using assms(1) by (auto simp: err_closes_def at_marker_def err_done_prefix_def has_prefix_def)
  then show ?thesis
    using assms by (simp add: readStderr_line_def handleStderrSentinel_def err_closes_def err_mark_read written_err_def)
qed

text \<open>What is still to come on a stream: nothing, once its marker was read; before that plain
  lines and the marker.\<close>

definition out_pending :: "string \<Rightarrow> int \<Rightarrow> bash_command \<Rightarrow> string list \<Rightarrow> string \<Rightarrow> bool" where
  "out_pending token code c xs text \<longleftrightarrow>
     (if bc_stdoutDone c then xs = [] \<and> text = [] \<and> bc_exitCode c = Some code
      else \<exists>outs before l. xs = outs @ [l] \<and> list_all out_plain outs \<and> out_closes token code before l \<and>
             text = concat (map stripANSI outs) @ stripANSI before)"

definition err_pending :: "string \<Rightarrow> bash_command \<Rightarrow> string list \<Rightarrow> string \<Rightarrow> bool" where
  "err_pending token c xs text \<longleftrightarrow>
     (if bc_stderrDone c then xs = [] \<and> text = []
      else \<exists>errs before l. xs = errs @ [l] \<and> list_all err_plain errs \<and> err_closes token before l \<and>
             text = concat (map stripANSI errs) @ stripANSI before)"

lemma out_pending_Cons:
  assumes "out_pending token code c (x # xs) text"
  obtains (plain) text' where "out_plain x" "text = stripANSI x @ text'" "out_pending token code c xs text'"
    | (closes) before where "out_closes token code before x" "xs = []" "text = stripANSI before" "\<not> bc_stdoutDone c"
proof -
  obtain outs before l where p: "\<not> bc_stdoutDone c" "x # xs = outs @ [l]" "list_all out_plain outs"
      "out_closes token code before l" "text = concat (map stripANSI outs) @ stripANSI before"
    using assms by (auto simp: out_pending_def split: if_splits)
  show thesis
  proof (cases outs)
    case Nil
    then show ?thesis using p closes by simp
  next
    case (Cons y ys)
    then have "out_pending token code c xs (concat (map stripANSI ys) @ stripANSI before)"
      using p by (auto simp: out_pending_def)
    then show ?thesis using p Cons plain by simp
  qed
qed

lemma err_pending_Cons:
  assumes "err_pending token c (x # xs) text"
  obtains (plain) text' where "err_plain x" "text = stripANSI x @ text'" "err_pending token c xs text'"
    | (closes) before where "err_closes token before x" "xs = []" "text = stripANSI before" "\<not> bc_stderrDone c"
proof -
  obtain errs before l where p: "\<not> bc_stderrDone c" "x # xs = errs @ [l]" "list_all err_plain errs"
      "err_closes token before l" "text = concat (map stripANSI errs) @ stripANSI before"
    using assms by (auto simp: err_pending_def split: if_splits)
  show thesis
  proof (cases errs)
    case Nil
    then show ?thesis using p closes by simp
  next
    case (Cons y ys)
    then have "err_pending token c xs (concat (map stripANSI ys) @ stripANSI before)"
      using p by (auto simp: err_pending_def)
    then show ?thesis using p Cons plain by simp
  qed
qed

definition ended :: "int \<Rightarrow> bash_command \<Rightarrow> bash_command" where
  "ended code c = c\<lparr>bc_exitCode := Some code, bc_stdoutDone := True, bc_stderrDone := True\<rparr>"

definition same_frame :: "bash_session \<Rightarrow> bash_session \<Rightarrow> bool" where
  "same_frame s s' \<longleftrightarrow>
     bs_closed s' = bs_closed s \<and> bs_id s' = bs_id s \<and>
     rb_max (bs_stdout s') = rb_max (bs_stdout s) \<and> rb_max (bs_stderr s') = rb_max (bs_stderr s)"

definition command_ended :: "int \<Rightarrow> bash_command \<Rightarrow> string \<Rightarrow> string \<Rightarrow> bash_session \<Rightarrow> bash_session \<Rightarrow> bool" where
  "command_ended code c h1 h2 s s' \<longleftrightarrow>
     bs_current s' = None \<and> bs_finished s' = ended code c # bs_finished s \<and> same_frame s s' \<and>
     rb_holds (bs_stdout s') h1 \<and> rb_holds (bs_stderr s') h2"

text \<open>The session waits for a command whose streams will add \<open>t1\<close> and \<open>t2\<close> to what was captured.\<close>

definition awaiting ::
    "string \<Rightarrow> int \<Rightarrow> bash_command \<Rightarrow> string list \<Rightarrow> string list \<Rightarrow> string \<times> string \<Rightarrow> string \<times> string \<Rightarrow>
     bash_session \<Rightarrow> bool"
where
  "awaiting token code c xs ys h t s \<longleftrightarrow>
     bs_current s = Some c \<and> bc_token c = token \<and> \<not> (bc_stdoutDone c \<and> bc_stderrDone c) \<and>
     out_pending token code c xs (fst t) \<and> err_pending token c ys (snd t) \<and>
     rb_holds (bs_stdout s) (fst h) \<and> rb_holds (bs_stderr s) (snd h)"

text \<open>A line ends the command, or the session waits for the rest.\<close>

definition turned ::
    "string \<Rightarrow> int \<Rightarrow> bash_command \<Rightarrow> string list \<Rightarrow> string list \<Rightarrow> string \<times> string \<Rightarrow> string \<times> string \<Rightarrow>
     bash_session \<Rightarrow> bash_session \<Rightarrow> bool"
where
  "turned token code c xs ys h t s s' \<longleftrightarrow>
     (xs = [] \<and> ys = [] \<and> command_ended code c (fst h @ fst t) (snd h @ snd t) s s') \<or>
     (\<exists>d h' t'. awaiting token code d xs ys h' t' s' \<and> fst h' @ fst t' = fst h @ fst t \<and>
        snd h' @ snd t' = snd h @ snd t \<and> same_frame s s' \<and> bs_finished s' = bs_finished s \<and>
        ended code d = ended code c)"

lemma turned_on:
  assumes "awaiting token code d xs ys (a, b) (u, v) s'" and "a @ u = fst h @ fst t" and "b @ v = snd h @ snd t"
    and "same_frame s s'" and "bs_finished s' = bs_finished s" and "ended code d = ended code c"
  shows "turned token code c xs ys h t s s'"
  unfolding turned_def
  by (intro disjI2 exI [of _ d] exI [of _ "(a, b)"] exI [of _ "(u, v)"] conjI) (use assms in simp_all)

lemma out_turn:
  assumes "plain_token token" and "int64 code" and "awaiting token code c (x # xs) ys h t s"
  shows "turned token code c xs ys h t s (readStdout_line x s)"
proof -
  note aw = assms(3) [unfolded awaiting_def]
  from aw have "out_pending token code c (x # xs) (fst t)" by blast
  then show ?thesis
  proof (cases rule: out_pending_Cons)
    case (plain text')
    then have "awaiting token code c xs ys (fst h @ stripANSI x, snd h) (text', snd t) (readStdout_line x s)"
      using aw by (simp add: awaiting_def out_plain_step write_stdout_holds)
    moreover have "same_frame s (readStdout_line x s)" "bs_finished (readStdout_line x s) = bs_finished s"
      using plain(1) by (simp_all add: out_plain_step same_frame_def write_stdout_def)
    ultimately show ?thesis
      by (intro turned_on [of _ _ _ _ _ "fst h @ stripANSI x" "snd h" text' "snd t"]) (simp_all add: plain(2))
  next
    case (closes before)
    let ?d = "c\<lparr>bc_exitCode := Some code, bc_stdoutDone := True\<rparr>"
    have read: "readStdout_line x s = completeCurrentIfReady (written_out before s\<lparr>bs_current := Some ?d\<rparr>)"
      using aw by (intro out_closes_step [OF closes(1) assms(1,2)]) auto
    have o: "rb_holds (bs_stdout (written_out before s)) (fst h @ fst t)"
      using written_out_holds aw closes(3) by simp
    have f: "same_frame s (readStdout_line x s)"
      by (simp add: read completeCurrentIfReady_def same_frame_def written_out_def write_stdout_def)
    show ?thesis
    proof (cases "bc_stderrDone c")
      case True
      then show ?thesis using aw closes(2) o f
        by (simp add: turned_def command_ended_def read completeCurrentIfReady_def err_pending_def ended_def)
    next
      case False
      then have "awaiting token code ?d xs ys (fst h @ fst t, snd h) ([], snd t) (readStdout_line x s)"
        using aw closes(2) o by (simp add: read completeCurrentIfReady_def awaiting_def out_pending_def err_pending_def)
      moreover have "bs_finished (readStdout_line x s) = bs_finished s" "ended code ?d = ended code c"
        using False by (simp_all add: read completeCurrentIfReady_def ended_def)
      ultimately show ?thesis using f
        by (intro turned_on [of _ _ ?d _ _ "fst h @ fst t" "snd h" "[]" "snd t"]) simp_all
    qed
  qed
qed

lemma err_turn:
  assumes "plain_token token" and "awaiting token code c xs (y # ys) h t s"
  shows "turned token code c xs ys h t s (readStderr_line y s)"
proof -
  note aw = assms(2) [unfolded awaiting_def]
  from aw have "err_pending token c (y # ys) (snd t)" by blast
  then show ?thesis
  proof (cases rule: err_pending_Cons)
    case (plain text')
    then have "awaiting token code c xs ys (fst h, snd h @ stripANSI y) (fst t, text') (readStderr_line y s)"
      using aw by (simp add: awaiting_def err_plain_step write_stderr_holds)
    moreover have "same_frame s (readStderr_line y s)" "bs_finished (readStderr_line y s) = bs_finished s"
      using plain(1) by (simp_all add: err_plain_step same_frame_def write_stderr_def)
    ultimately show ?thesis
      by (intro turned_on [of _ _ _ _ _ "fst h" "snd h @ stripANSI y" "fst t" text']) (simp_all add: plain(2))
  next
    case (closes before)
    let ?d = "c\<lparr>bc_stderrDone := True\<rparr>"
    have read: "readStderr_line y s = completeCurrentIfReady (written_err before s\<lparr>bs_current := Some ?d\<rparr>)"
      using aw by (intro err_closes_step [OF closes(1) assms(1)]) auto
    have o: "rb_holds (bs_stderr (written_err before s)) (snd h @ snd t)"
      using written_err_holds aw closes(3) by simp
    have f: "same_frame s (readStderr_line y s)"
      by (simp add: read completeCurrentIfReady_def same_frame_def written_err_def write_stderr_def)
    show ?thesis
    proof (cases "bc_stdoutDone c")
      case True
      then show ?thesis using aw closes(2) o f
        by (simp add: turned_def command_ended_def read completeCurrentIfReady_def out_pending_def ended_def)
    next
      case False
      then have "awaiting token code ?d xs ys (fst h, snd h @ snd t) (fst t, []) (readStderr_line y s)"
        using aw closes(2) o by (simp add: read completeCurrentIfReady_def awaiting_def out_pending_def err_pending_def)
      moreover have "bs_finished (readStderr_line y s) = bs_finished s" "ended code ?d = ended code c"
        using False by (simp_all add: read completeCurrentIfReady_def ended_def)
      ultimately show ?thesis using f
        by (intro turned_on [of _ _ ?d _ _ "fst h" "snd h @ snd t" "fst t" "[]"]) simp_all
    qed
  qed
qed

lemma same_frame_trans: "same_frame s s' \<Longrightarrow> same_frame s' s'' \<Longrightarrow> same_frame s s''"
  by (simp add: same_frame_def)

lemma shuffled_command:
  assumes "plain_token token" and "int64 code"
    and "evs \<in> shuffles (map OutLine xs) (map ErrLine ys)" and "awaiting token code c xs ys h t s"
  shows "command_ended code c (fst h @ fst t) (snd h @ snd t) s (bash_events evs s)"
  using assms(3-)
proof (induction evs arbitrary: xs ys s c h t)
  case Nil
  then have "xs = []" "ys = []" by (auto dest: Nil_in_shufflesI simp: Nil_in_shuffles)
  with Nil.prems show ?case by (auto simp: awaiting_def out_pending_def err_pending_def split: if_splits)
next
  case (Cons e evs)
  from Cons.prems(1) consider
      (out) x xs' where "xs = x # xs'" "e = OutLine x" "evs \<in> shuffles (map OutLine xs') (map ErrLine ys)"
    | (err) y ys' where "ys = y # ys'" "e = ErrLine y" "evs \<in> shuffles (map OutLine xs) (map ErrLine ys')"
    by (cases xs; cases ys) (auto simp: Cons_in_shuffles_iff)
  then obtain xs' ys' where turn: "turned token code c xs' ys' h t s (bash_event e s)"
      "evs \<in> shuffles (map OutLine xs') (map ErrLine ys')"
  proof cases
    case out
    then show ?thesis using that [of xs' ys] out_turn [OF assms(1,2)] Cons.prems(2) by simp
  next
    case err
    then show ?thesis using that [of xs ys'] err_turn [OF assms(1)] Cons.prems(2) by simp
  qed
  have step: "bash_events (e # evs) s = bash_events evs (bash_event e s)" by (simp add: bash_events_def)
  from turn(1) [unfolded turned_def] show ?case
  proof (elim disjE exE conjE)
    assume "xs' = []" "ys' = []" "command_ended code c (fst h @ fst t) (snd h @ snd t) s (bash_event e s)"
    then show ?thesis using turn(2) by (simp add: step bash_events_def)
  next
    fix d h' t'
    assume *: "awaiting token code d xs' ys' h' t' (bash_event e s)" "same_frame s (bash_event e s)"
      "fst h' @ fst t' = fst h @ fst t" "snd h' @ snd t' = snd h @ snd t"
      "bs_finished (bash_event e s) = bs_finished s" "ended code d = ended code c"
    show ?thesis using Cons.IH [OF turn(2) *(1)] * same_frame_trans
      unfolding step command_ended_def by metis
  qed
qed

text \<open>The answer of a shell to a framed command: what the command prints, line by line, the last
  of each stream carrying the marker.\<close>

record shell_answer =
  sa_outs :: "string list"
  sa_out_tail :: string
  sa_errs :: "string list"
  sa_err_tail :: string
  sa_code :: int

definition answer_out :: "string \<Rightarrow> shell_answer \<Rightarrow> string list" where
  "answer_out token a = sa_outs a @ [sa_out_tail a @ out_mark token (sa_code a)]"

definition answer_err :: "string \<Rightarrow> shell_answer \<Rightarrow> string list" where
  "answer_err token a = sa_errs a @ [sa_err_tail a @ err_mark token]"

definition answer_events :: "string \<Rightarrow> shell_answer \<Rightarrow> bash_input list set" where
  "answer_events token a = shuffles (map OutLine (answer_out token a)) (map ErrLine (answer_err token a))"

text \<open>The output has no marker of its own: the first one in the last line is the shell's.\<close>

definition unmarked :: "string \<Rightarrow> shell_answer \<Rightarrow> bool" where
  "unmarked token a \<longleftrightarrow>
     list_all out_plain (sa_outs a) \<and> list_all err_plain (sa_errs a) \<and>
     str_index (sa_out_tail a @ out_mark token (sa_code a)) done_prefix = Some (length (sa_out_tail a)) \<and>
     str_index (sa_err_tail a @ err_mark token) err_done_prefix = Some (length (sa_err_tail a))"

definition answer_stdout :: "shell_answer \<Rightarrow> string" where
  "answer_stdout a = concat (map stripANSI (sa_outs a)) @ stripANSI (sa_out_tail a)"

definition answer_stderr :: "shell_answer \<Rightarrow> string" where
  "answer_stderr a = concat (map stripANSI (sa_errs a)) @ stripANSI (sa_err_tail a)"

lemma start_command_simps [simp]:
  "bs_stdout (start_command command env token s) = bs_stdout s"
  "bs_stderr (start_command command env token s) = bs_stderr s"
  "bs_finished (start_command command env token s) = bs_finished s"
  "bs_current (start_command command env token s) = Some (begin_command token s)"
  "bs_closed (start_command command env token s) = bs_closed s"
  "bs_id (start_command command env token s) = bs_id s"
  by (simp_all add: start_command_def)

lemma shell_answered:
  assumes "plain_token token" and "int64 (sa_code a)" and "unmarked token a" and "evs \<in> answer_events token a"
    and "rb_holds (bs_stdout s) h1" and "rb_holds (bs_stderr s) h2"
  shows "command_ended (sa_code a) (begin_command token s) (h1 @ answer_stdout a) (h2 @ answer_stderr a) s
    (bash_events evs (start_command command env token s))"
proof -
  have "awaiting token (sa_code a) (begin_command token s) (answer_out token a) (answer_err token a)
      (h1, h2) (answer_stdout a, answer_stderr a) (start_command command env token s)"
    using assms(3,5,6)
    by (auto simp: awaiting_def begin_command_def out_pending_def err_pending_def answer_out_def answer_err_def
        unmarked_def out_closes_def err_closes_def at_marker_def answer_stdout_def answer_stderr_def)
  from shuffled_command [OF assms(1,2) assms(4) [unfolded answer_events_def] this]
  show ?thesis by (simp add: command_ended_def same_frame_def)
qed

lemma run_answered:
  assumes "plain_token (rc_token ch)" and "int64 (sa_code a)" and "unmarked (rc_token ch) a"
    and "rc_during ch \<in> answer_events (rc_token ch) a" and "rc_earlier ch = []" and "rc_written ch" and "\<not> rc_fired ch"
    and "bs_current s = None" and "\<not> bs_closed s"
    and h: "rb_holds (bs_stdout s) h1" "rb_holds (bs_stderr s) h2"
  shows "\<exists>r s'. session_run command env timed ch s = (Some r, s') \<and>
      br_Status r = ''completed'' \<and> br_ExitCode r = Some (sa_code a) \<and>
      br_CommandStdout r = kept (rb_max (bs_stdout s)) (answer_stdout a) \<and>
      br_CommandStderr r = kept (rb_max (bs_stderr s)) (answer_stderr a) \<and>
      bs_current s' = None \<and> \<not> bs_closed s' \<and>
      rb_holds (bs_stdout s') (h1 @ answer_stdout a) \<and> rb_holds (bs_stderr s') (h2 @ answer_stderr a)"
proof -
  let ?c = "begin_command (rc_token ch) s"
  let ?s' = "bash_events (rc_during ch) (start_command command env (rc_token ch) s)"
  let ?r = "bash_snapshot ''completed'' (Some (sa_code a)) (Some (ended (sa_code a) ?c)) ?s'"
  have st: "command_ended (sa_code a) ?c (h1 @ answer_stdout a) (h2 @ answer_stderr a) s ?s'"
    by (rule shell_answered) (use assms in auto)
  then have fin: "finished_command (rc_token ch) ?s' = Some (ended (sa_code a) ?c)"
    by (simp add: command_ended_def finished_command_def ended_def begin_command_def)
  have run: "session_run command env timed ch s = (Some ?r, ?s')"
    using assms fin by (simp add: session_run_def Let_def bash_events_def ended_def)
  have off: "bc_stdoutStart ?c = int (length h1)" "bc_stderrStart ?c = int (length h2)"
    using h by (simp_all add: begin_command_def rb_Offset_def rb_holds_def)
  have "br_CommandStdout ?r = kept (rb_max (bs_stdout s)) (answer_stdout a)"
       "br_CommandStderr ?r = kept (rb_max (bs_stderr s)) (answer_stderr a)"
    using st rb_holds_from [of "bs_stdout ?s'" h1] rb_holds_from [of "bs_stderr ?s'" h2]
    by (simp_all add: bash_snapshot_def ended_def off command_ended_def same_frame_def)
  with run st assms(9) show ?thesis
    by (intro exI [of _ ?r] exI [of _ ?s']) (simp add: command_ended_def same_frame_def bash_snapshot_def)
qed

section \<open>Nothing else completes a command\<close>

text \<open>The token a line of each stream announces, if any.\<close>

definition out_token :: "string \<Rightarrow> string option" where
  "out_token l =
     (case at_marker done_prefix l of
        None \<Rightarrow> None
      | Some (before, mark) \<Rightarrow> map_option fst (split_colon (trim_prefix (trim_space mark) done_prefix)))"

definition err_token :: "string \<Rightarrow> string option" where
  "err_token l =
     (case at_marker err_done_prefix l of
        None \<Rightarrow> None
      | Some (before, mark) \<Rightarrow> Some (trim_space (trim_prefix mark err_done_prefix)))"

definition announced :: "string \<Rightarrow> bash_input list \<Rightarrow> bool" where
  "announced token evs \<longleftrightarrow>
     (\<exists>l. OutLine l \<in> set evs \<and> out_token l = Some token) \<and> (\<exists>l. ErrLine l \<in> set evs \<and> err_token l = Some token)"

definition exited :: "bash_input list \<Rightarrow> bool" where
  "exited evs \<longleftrightarrow> (\<exists>code. ShellExit code \<in> set evs)"

text \<open>Where a command with this token stands, and why.\<close>

definition accounted :: "string \<Rightarrow> bash_input list \<Rightarrow> bash_session \<Rightarrow> bool" where
  "accounted token evs s \<longleftrightarrow>
     (finished_command token s \<noteq> None \<longrightarrow> announced token evs \<or> exited evs) \<and>
     (\<forall>c. bs_current s = Some c \<longrightarrow> bc_token c = token \<longrightarrow>
        (bc_stdoutDone c \<longrightarrow> (\<exists>l. OutLine l \<in> set evs \<and> out_token l = Some token)) \<and>
        (bc_stderrDone c \<longrightarrow> (\<exists>l. ErrLine l \<in> set evs \<and> err_token l = Some token)))"

lemma accounted_same:
  assumes "accounted token evs s" and "bs_current s' = bs_current s" and "bs_finished s' = bs_finished s"
  shows "accounted token (evs @ later) s'"
  using assms by (auto simp: accounted_def announced_def exited_def finished_command_def)

lemma accounted_complete:
  assumes "accounted token evs s" shows "accounted token evs (completeCurrentIfReady s)"
  using assms by (auto simp: accounted_def announced_def completeCurrentIfReady_def finished_command_def split: option.splits)

lemma readStdout_hit:
  assumes "out_token l = Some (bc_token c)" and "bs_current s = Some c"
  obtains before d where "bc_token d = bc_token c" "bc_stderrDone d = bc_stderrDone c"
    "readStdout_line l s = completeCurrentIfReady (written_out before s\<lparr>bs_current := Some (d\<lparr>bc_stdoutDone := True\<rparr>)\<rparr>)"
proof -
  obtain before mark code where m: "at_marker done_prefix l = Some (before, mark)"
      "split_colon (trim_prefix (trim_space mark) done_prefix) = Some (bc_token c, code)"
    using assms(1) by (auto simp: out_token_def split: option.splits)
  have "l \<noteq> []" using m(1) by (auto simp: at_marker_def done_prefix_def has_prefix_def)
  let ?d = "case atoi code of None \<Rightarrow> c | Some n \<Rightarrow> c\<lparr>bc_exitCode := Some n\<rparr>"
  have "handleSentinel l s =
      (True, completeCurrentIfReady (written_out before s\<lparr>bs_current := Some (?d\<lparr>bc_stdoutDone := True\<rparr>)\<rparr>))"
    using assms(2) written_out_simps(1) [of before s]
    by (simp add: handleSentinel_def m written_out_def Let_def del: written_out_simps)
  then have "readStdout_line l s = completeCurrentIfReady (written_out before s\<lparr>bs_current := Some (?d\<lparr>bc_stdoutDone := True\<rparr>)\<rparr>)"
    using \<open>l \<noteq> []\<close> by (simp add: readStdout_line_def)
  then show thesis by (intro that [of ?d]) (auto split: option.splits)
qed

lemma readStdout_miss:
  assumes "\<not> (\<exists>c. bs_current s = Some c \<and> out_token l = Some (bc_token c))"
  shows "bs_current (readStdout_line l s) = bs_current s" "bs_finished (readStdout_line l s) = bs_finished s"
proof -
  have "\<exists>before. handleSentinel l s = (False, written_out before s)"
  proof (cases "at_marker done_prefix l")
    case None
    then show ?thesis by (intro exI [of _ "[]"]) (simp add: handleSentinel_def written_out_def)
  next
    case (Some m)
    obtain before mark where m: "m = (before, mark)" by fastforce
    show ?thesis
    proof (cases "split_colon (trim_prefix (trim_space mark) done_prefix)")
      case None
      then show ?thesis using Some m by (intro exI [of _ "[]"]) (simp add: handleSentinel_def written_out_def)
    next
      case (Some tc)
      then show ?thesis using \<open>at_marker done_prefix l = Some m\<close> m assms written_out_simps(1) [of before s]
        by (cases tc; cases "bs_current s")
          (auto simp: handleSentinel_def out_token_def written_out_def Let_def simp del: written_out_simps intro: exI [of _ before])
    qed
  qed
  then show "bs_current (readStdout_line l s) = bs_current s" "bs_finished (readStdout_line l s) = bs_finished s"
    by (auto simp: readStdout_line_def)
qed

lemma readStderr_hit:
  assumes "err_token l = Some (bc_token c)" and "bs_current s = Some c"
  obtains before where
    "readStderr_line l s = completeCurrentIfReady (written_err before s\<lparr>bs_current := Some (c\<lparr>bc_stderrDone := True\<rparr>)\<rparr>)"
proof -
  obtain before mark where m: "at_marker err_done_prefix l = Some (before, mark)"
      "trim_space (trim_prefix mark err_done_prefix) = bc_token c"
    using assms(1) by (auto simp: err_token_def split: option.splits)
  have "l \<noteq> []" using m(1) by (auto simp: at_marker_def err_done_prefix_def has_prefix_def)
  then have "readStderr_line l s = completeCurrentIfReady (written_err before s\<lparr>bs_current := Some (c\<lparr>bc_stderrDone := True\<rparr>)\<rparr>)"
    using assms(2) by (simp add: readStderr_line_def handleStderrSentinel_def m written_err_def)
  then show thesis by (rule that)
qed

lemma readStderr_miss:
  assumes "\<not> (\<exists>c. bs_current s = Some c \<and> err_token l = Some (bc_token c))"
  shows "bs_current (readStderr_line l s) = bs_current s" "bs_finished (readStderr_line l s) = bs_finished s"
proof -
  have "\<exists>before. handleStderrSentinel l s = (False, written_err before s)"
  proof (cases "at_marker err_done_prefix l")
    case None
    then show ?thesis by (intro exI [of _ "[]"]) (simp add: handleStderrSentinel_def written_err_def)
  next
    case (Some m)
    obtain before mark where m: "m = (before, mark)" by fastforce
    then show ?thesis using Some assms written_err_simps(1) [of before s]
      by (cases "bs_current s")
        (auto simp: handleStderrSentinel_def err_token_def written_err_def Let_def simp del: written_err_simps intro: exI [of _ before])
  qed
  then show "bs_current (readStderr_line l s) = bs_current s" "bs_finished (readStderr_line l s) = bs_finished s"
    by (auto simp: readStderr_line_def)
qed

lemma accounted_out:
  assumes acc: "accounted token evs s"
  shows "accounted token (evs @ [OutLine l]) (readStdout_line l s)"
proof (cases "\<exists>c. bs_current s = Some c \<and> out_token l = Some (bc_token c)")
  case True
  then obtain c where c: "bs_current s = Some c" "out_token l = Some (bc_token c)" by blast
  from readStdout_hit [OF c(2,1)] obtain before d where d: "bc_token d = bc_token c" "bc_stderrDone d = bc_stderrDone c"
      "readStdout_line l s = completeCurrentIfReady (written_out before s\<lparr>bs_current := Some (d\<lparr>bc_stdoutDone := True\<rparr>)\<rparr>)" .
  have "accounted token (evs @ [OutLine l]) (written_out before s\<lparr>bs_current := Some (d\<lparr>bc_stdoutDone := True\<rparr>)\<rparr>)"
    using acc c d(1,2) by (auto simp: accounted_def announced_def exited_def finished_command_def)
  then show ?thesis by (simp add: d(3) accounted_complete)
next
  case False
  from accounted_same [OF acc readStdout_miss [OF this]] show ?thesis .
qed

lemma accounted_err:
  assumes acc: "accounted token evs s"
  shows "accounted token (evs @ [ErrLine l]) (readStderr_line l s)"
proof (cases "\<exists>c. bs_current s = Some c \<and> err_token l = Some (bc_token c)")
  case True
  then obtain c where c: "bs_current s = Some c" "err_token l = Some (bc_token c)" by blast
  from readStderr_hit [OF c(2,1)] obtain before where
    d: "readStderr_line l s = completeCurrentIfReady (written_err before s\<lparr>bs_current := Some (c\<lparr>bc_stderrDone := True\<rparr>)\<rparr>)" .
  have "accounted token (evs @ [ErrLine l]) (written_err before s\<lparr>bs_current := Some (c\<lparr>bc_stderrDone := True\<rparr>)\<rparr>)"
    using acc c by (auto simp: accounted_def announced_def exited_def finished_command_def)
  then show ?thesis by (simp add: d accounted_complete)
next
  case False
  from accounted_same [OF acc readStderr_miss [OF this]] show ?thesis .
qed

lemma accounted_exit: "accounted token evs s \<Longrightarrow> accounted token (evs @ [ShellExit code]) (waitShell code s)"
  by (auto simp: accounted_def exited_def waitShell_def finished_command_def Let_def split: option.splits)

lemma accounted_event: "accounted token evs s \<Longrightarrow> accounted token (evs @ [e]) (bash_event e s)"
  by (cases e) (simp_all add: accounted_out accounted_err accounted_exit)

lemma accounted_events: "accounted token evs s \<Longrightarrow> accounted token (evs @ later) (bash_events later s)"
proof (induction later arbitrary: evs s)
  case (Cons e later)
  from Cons.IH [OF accounted_event [OF Cons.prems, of e]] show ?case by (simp add: bash_events_def)
qed (simp add: bash_events_def)

lemma completed_accounted:
  assumes "session_run command env timed ch s0 = (Some r, s')" and "br_Status r = ''completed''"
    and "finished_command (rc_token ch) (bash_events (rc_earlier ch) s0) = None"
  shows "announced (rc_token ch) (rc_during ch) \<or> exited (rc_during ch)"
proof -
  let ?s = "bash_events (rc_earlier ch) s0"
  let ?s1 = "bash_events (rc_during ch) (start_command command env (rc_token ch) ?s)"
  have "finished_command (rc_token ch) ?s1 \<noteq> None"
    using assms(1,2) by (auto simp: session_run_def bash_snapshot_def Let_def split: if_splits option.splits)
  moreover have "accounted (rc_token ch) [] (start_command command env (rc_token ch) ?s)"
    using assms(3) by (simp add: accounted_def begin_command_def finished_command_def)
  ultimately show ?thesis
    using accounted_events [of "rc_token ch" "[]" "start_command command env (rc_token ch) ?s" "rc_during ch"]
    by (simp add: accounted_def)
qed

section \<open>A marker in the output\<close>

text \<open>While no line announces the running command on standard output, it keeps running; the shell
  must not exit.\<close>

definition unanswered :: "string \<Rightarrow> bash_input list \<Rightarrow> bool" where
  "unanswered token evs \<longleftrightarrow>
     (\<forall>e \<in> set evs. case e of OutLine l \<Rightarrow> out_token l \<noteq> Some token | ErrLine l \<Rightarrow> True | ShellExit code \<Rightarrow> False)"

definition waits_for :: "string \<Rightarrow> bash_session \<Rightarrow> bool" where
  "waits_for token s \<longleftrightarrow>
     (\<exists>c. bs_current s = Some c \<and> bc_token c = token \<and> \<not> bc_stdoutDone c) \<and> finished_command token s = None"

lemma unanswered_event:
  assumes "waits_for token s" and "unanswered token [e]"
  shows "waits_for token (bash_event e s)"
proof -
  obtain c where c: "bs_current s = Some c" "bc_token c = token" "\<not> bc_stdoutDone c" "finished_command token s = None"
    using assms(1) by (auto simp: waits_for_def)
  show ?thesis
  proof (cases e)
    case (OutLine l)
    then have "\<not> (\<exists>c. bs_current s = Some c \<and> out_token l = Some (bc_token c))"
      using assms(2) c by (auto simp: unanswered_def)
    from readStdout_miss [OF this] show ?thesis
      using c OutLine by (auto simp: waits_for_def finished_command_def)
  next
    case (ErrLine l)
    show ?thesis
    proof (cases "err_token l = Some (bc_token c)")
      case True
      from readStderr_hit [OF this c(1)] obtain before where
        "readStderr_line l s = completeCurrentIfReady (written_err before s\<lparr>bs_current := Some (c\<lparr>bc_stderrDone := True\<rparr>)\<rparr>)" .
      then show ?thesis using c ErrLine
        by (auto simp: waits_for_def finished_command_def completeCurrentIfReady_def)
    next
      case False
      then have "\<not> (\<exists>c. bs_current s = Some c \<and> err_token l = Some (bc_token c))" using c by auto
      from readStderr_miss [OF this] show ?thesis
        using c ErrLine by (auto simp: waits_for_def finished_command_def)
    qed
  next
    case (ShellExit code)
    then show ?thesis using assms(2) by (simp add: unanswered_def)
  qed
qed

lemma unanswered_events: "waits_for token s \<Longrightarrow> unanswered token evs \<Longrightarrow> waits_for token (bash_events evs s)"
proof (induction evs arbitrary: s)
  case (Cons e evs)
  then have "waits_for token (bash_event e s)" by (intro unanswered_event) (simp_all add: unanswered_def)
  moreover have "unanswered token evs" using Cons.prems(2) by (simp add: unanswered_def)
  ultimately show ?case using Cons.IH by (simp add: bash_events_def)
qed (simp add: bash_events_def)

text \<open>A text that ends, before the newline of the marker, in a marker of its own hides the shell's.\<close>

lemma hidden_token:
  assumes "str_index l done_prefix = Some (length a)" and "l = a @ done_prefix @ b @ out_mark token code"
    and "plain_token token" and "CHR 0x3A \<notin> set b" and "\<not> is_space (hd (b @ done_prefix))"
  shows "out_token l = Some (b @ done_prefix @ token)"
proof -
  have "trim_space (done_prefix @ b @ out_mark token code)
      = done_prefix @ b @ done_prefix @ token @ '':'' @ show_int code"
    using trim_space_framed [of "hd done_prefix" "tl done_prefix @ b @ done_prefix @ token @ '':'' @ show_int code"]
      show_int_last
    by (simp add: out_mark_def done_prefix_def is_space_def)
  moreover have "CHR 0x3A \<notin> set (b @ done_prefix @ token)"
    using assms(3,4) unfolding plain_token_def list_all_iff by (auto simp: done_prefix_def)
  ultimately have "split_colon (trim_prefix (trim_space (done_prefix @ b @ out_mark token code)) done_prefix)
      = Some (b @ done_prefix @ token, show_int code)"
    using split_colon_append [of "b @ done_prefix @ token" "show_int code"] by simp
  then show ?thesis using assms(1,2) by (simp add: out_token_def at_marker_def)
qed

text \<open>The answer of a shell to a command whose last output, without a newline, holds a marker.\<close>

definition self_marked :: "string \<Rightarrow> shell_answer \<Rightarrow> bool" where
  "self_marked token a \<longleftrightarrow>
     list_all out_plain (sa_outs a) \<and>
     (\<exists>x b. sa_out_tail a = x @ done_prefix @ b \<and> CHR 0x3A \<notin> set b \<and> (b = [] \<or> \<not> is_space (hd b)) \<and>
        str_index (x @ done_prefix @ b @ out_mark token (sa_code a)) done_prefix = Some (length x))"

lemma self_marked_unanswered:
  assumes "self_marked token a" and "plain_token token" and "evs \<in> answer_events token a"
  shows "unanswered token evs"
proof -
  obtain x b where t: "sa_out_tail a = x @ done_prefix @ b" "CHR 0x3A \<notin> set b" "b = [] \<or> \<not> is_space (hd b)"
      "str_index (x @ done_prefix @ b @ out_mark token (sa_code a)) done_prefix = Some (length x)"
    and outs: "list_all out_plain (sa_outs a)"
    using assms(1) by (auto simp: self_marked_def)
  have h: "\<not> is_space (hd (b @ done_prefix))" using t(3) by (cases b) (auto simp: done_prefix_def is_space_def)
  have "out_token (sa_out_tail a @ out_mark token (sa_code a)) = Some (b @ done_prefix @ token)"
    using hidden_token [OF t(4) refl assms(2) t(2) h] by (simp add: t(1))
  then have "out_token l \<noteq> Some token" if "l \<in> set (answer_out token a)" for l
    using that outs by (auto simp: answer_out_def list_all_iff out_plain_def out_token_def done_prefix_def)
  moreover have "set evs = OutLine ` set (answer_out token a) \<union> ErrLine ` set (answer_err token a)"
    using set_shuffles [OF assms(3) [unfolded answer_events_def]] by simp
  ultimately show ?thesis by (auto simp: unanswered_def)
qed

section \<open>Quoted commands\<close>

text \<open>Field splitting and quote removal of the POSIX shell, for the part the wrapped commands use:
  blanks between words, unquoted characters without meaning, single quotes, and double quotes around
  characters without meaning inside them.\<close>

datatype sh_mode = Bare | InSingle | InDouble

definition sh_literal :: "char \<Rightarrow> bool" where
  "sh_literal c \<longleftrightarrow> name_start c \<or> is_digit c \<or> c = CHR ''='' \<or> c = CHR ''-''"

fun sh_words :: "sh_mode \<Rightarrow> string option \<Rightarrow> string \<Rightarrow> string list option" where
  "sh_words Bare w [] = Some (case w of None \<Rightarrow> [] | Some x \<Rightarrow> [x])"
| "sh_words Bare w (c # s) =
     (if c = CHR 0x20 then (case w of None \<Rightarrow> sh_words Bare None s | Some x \<Rightarrow> map_option (Cons x) (sh_words Bare None s))
      else let x = (case w of None \<Rightarrow> [] | Some x \<Rightarrow> x)
           in if c = CHR 0x27 then sh_words InSingle (Some x) s
              else if c = CHR 0x22 then sh_words InDouble (Some x) s
              else if sh_literal c then sh_words Bare (Some (x @ [c])) s
              else None)"
| "sh_words m w [] = None"
| "sh_words InSingle w (c # s) =
     (let x = (case w of None \<Rightarrow> [] | Some x \<Rightarrow> x)
      in if c = CHR 0x27 then sh_words Bare (Some x) s else sh_words InSingle (Some (x @ [c])) s)"
| "sh_words InDouble w (c # s) =
     (let x = (case w of None \<Rightarrow> [] | Some x \<Rightarrow> x)
      in if c = CHR 0x22 then sh_words Bare (Some x) s
         else if c = CHR 0x24 \<or> c = CHR 0x60 \<or> c = CHR 0x5C then None
         else sh_words InDouble (Some (x @ [c])) s)"

lemma replace_char: "replace_all v [q] new = concat (map (\<lambda>c. if c = q then new else [c]) v)"
  by (induction v) (subst replace_all.simps, simp add: has_prefix_def)+

lemma sh_single:
  "sh_words InSingle (Some x) (replace_all v squote (squote @ dquote @ squote @ dquote @ squote) @ squote @ rest) =
   sh_words Bare (Some (x @ v)) rest"
  unfolding squote_def dquote_def replace_char by (induction v arbitrary: x) simp_all

lemma sh_quoted: "sh_words Bare w (shellQuote v @ rest) = sh_words Bare (Some ((case w of None \<Rightarrow> [] | Some x \<Rightarrow> x) @ v)) rest"
  using sh_single [of "case w of None \<Rightarrow> [] | Some x \<Rightarrow> x" v rest] by (simp add: shellQuote_def squote_def)

lemma sh_bare:
  "list_all sh_literal s \<Longrightarrow> s \<noteq> [] \<Longrightarrow>
   sh_words Bare w (s @ rest) = sh_words Bare (Some ((case w of None \<Rightarrow> [] | Some x \<Rightarrow> x) @ s)) rest"
proof (induction s arbitrary: w)
  case (Cons c s)
  have c: "c \<noteq> CHR 0x20" "c \<noteq> CHR 0x27" "c \<noteq> CHR 0x22"
    using Cons.prems(1) by (auto simp: sh_literal_def name_start_def is_digit_def)
  then show ?case using Cons by (cases "s = []") (simp_all add: Let_def)
qed simp

text \<open>A word of a wrapped command: it is read as \<open>v\<close> up to the blank after it.\<close>

definition word_reads :: "string \<Rightarrow> string \<Rightarrow> bool" where
  "word_reads q v \<longleftrightarrow> (\<forall>rest. sh_words Bare None (q @ rest) = sh_words Bare (Some v) rest)"

lemma word_reads_quote: "word_reads (shellQuote v) v"
  by (simp add: word_reads_def sh_quoted)

lemma word_reads_bare: "list_all sh_literal s \<Longrightarrow> s \<noteq> [] \<Longrightarrow> word_reads s s"
  by (simp add: word_reads_def sh_bare)

lemma reads_as_assign:
  assumes "env_name k"
  shows "word_reads (k @ ''='' @ shellQuote v) (k @ ''='' @ v)"
proof -
  have "list_all sh_literal (k @ ''='')" "k @ ''='' \<noteq> []"
    using assms by (auto simp: env_name_def sh_literal_def list_all_iff)
  from sh_bare [OF this] show ?thesis
    unfolding word_reads_def using sh_quoted [of "Some (k @ ''='')" v] by simp
qed

lemma words_joined:
  assumes "list_all2 word_reads qs vs" and "qs \<noteq> []"
  shows "sh_words Bare None (str_join qs '' '') = Some vs"
  using assms
proof (induction qs vs rule: list_all2_induct)
  case (Cons q qs v vs)
  show ?case
  proof (cases qs)
    case Nil
    then have "vs = []" using Cons.hyps(2) by simp
    then show ?thesis using Cons.hyps(1) Nil unfolding word_reads_def
      by (metis append_Nil2 option.case(2) sh_words.simps(1) str_join.simps(2))
  next
    case (Cons q' qs')
    then show ?thesis using Cons.hyps(1) Cons.IH by (simp add: word_reads_def)
  qed
qed simp

lemma wrapped_words:
  assumes "\<forall>kv \<in> set env. env_name (fst kv)" and "shellType \<noteq> ''powershell''" and "shellType \<noteq> ''cmd''"
  shows "sh_words Bare None (wrapCommandEnv shell shellType command env) =
    Some (''env'' # map (\<lambda>kv. fst kv @ ''='' @ snd kv) (sorted_env env) @ [shell, ''-c'', command])"
proof -
  have bare: "word_reads ''env'' ''env''" "word_reads ''-c'' ''-c''"
    by (rule word_reads_bare; simp add: sh_literal_def name_start_def)+
  have "list_all2 word_reads (map (\<lambda>kv. fst kv @ ''='' @ shellQuote (snd kv)) (sorted_env env))
     (map (\<lambda>kv. fst kv @ ''='' @ snd kv) (sorted_env env))"
    using assms(1) reads_as_assign by (simp add: list.rel_map sorted_env_def list_all2_same)
  then have "list_all2 word_reads
     (''env'' # map (\<lambda>kv. fst kv @ ''='' @ shellQuote (snd kv)) (sorted_env env) @ [shellQuote shell, ''-c'', shellQuote command])
     (''env'' # map (\<lambda>kv. fst kv @ ''='' @ snd kv) (sorted_env env) @ [shell, ''-c'', command])"
    using bare by (simp add: list_all2_appendI word_reads_quote)
  from words_joined [OF this] show ?thesis using assms(2,3) by (simp add: wrapCommandEnv_def Let_def)
qed

text \<open>What \<^verbatim>\<open>parseCommandEnv\<close> accepts has such names, each once.\<close>

lemma env_entries_names: "env_entries m = Inr env \<Longrightarrow> map fst env = map fst m \<and> (\<forall>kv \<in> set env. env_name (fst kv))"
proof (induction m arbitrary: env rule: env_entries.induct)
  case (2 k v m)
  from "2.prems" obtain s rest where r: "env_name k" "as_string v = Some s" "env_entries m = Inr rest" "env = (k, s) # rest"
    by (cases "env_entries m") (auto split: if_splits option.splits)
  then have "map fst rest = map fst m \<and> (\<forall>kv \<in> set rest. env_name (fst kv))" using "2.IH" by simp
  with r show ?case by simp
qed simp

lemma parseCommandEnv_names: "parseCommandEnv v = Inr env \<Longrightarrow> \<forall>kv \<in> set env. env_name (fst kv)"
  by (auto simp: parseCommandEnv_def split: if_splits option.splits dest: env_entries_names)

end
