(* ===== verification/Disk.thy ===== *)
theory Disk
  imports Values GoText
begin

text \<open>
  The part of \<^verbatim>\<open>os\<close> that the tools use: files by path, with what can go wrong.  A path is absent, a
  file, a directory, or a name that cannot be read.  A write may fail; the fault says with which
  error, and what it leaves of the file (\<^verbatim>\<open>os.WriteFile\<close> truncates before it writes).
\<close>

datatype disk_node = FileNode string | DirNode | DeniedNode string

record disk =
  dk_nodes :: "(string \<times> disk_node) list"
  dk_write_fault :: "string \<Rightarrow> (string \<times> string option) option"

definition no_such_file :: "string \<Rightarrow> string" where
  "no_such_file path = ''open '' @ path @ '': no such file or directory''"

definition os_ReadFile :: "disk \<Rightarrow> string \<Rightarrow> string + string" where
  "os_ReadFile d path =
     (case map_of (dk_nodes d) path of
        None \<Rightarrow> Inl (no_such_file path)
      | Some (FileNode c) \<Rightarrow> Inr c
      | Some DirNode \<Rightarrow> Inl (''read '' @ path @ '': is a directory'')
      | Some (DeniedNode e) \<Rightarrow> Inl e)"

datatype stat_result = StatMissing | StatFailed string | StatFile | StatDir

text \<open>\<^verbatim>\<open>os.Stat\<close> fails on what cannot be searched; a file that cannot be opened is still found.\<close>

definition os_Stat :: "disk \<Rightarrow> string \<Rightarrow> stat_result" where
  "os_Stat d path =
     (case map_of (dk_nodes d) path of
        None \<Rightarrow> StatMissing
      | Some (FileNode c) \<Rightarrow> StatFile
      | Some DirNode \<Rightarrow> StatDir
      | Some (DeniedNode e) \<Rightarrow> StatFailed e)"

definition put_file :: "string \<Rightarrow> string \<Rightarrow> disk \<Rightarrow> disk" where
  "put_file path c d = d\<lparr>dk_nodes := AList.update path (FileNode c) (dk_nodes d)\<rparr>"

definition os_WriteFile :: "string \<Rightarrow> string \<Rightarrow> disk \<Rightarrow> string option \<times> disk" where
  "os_WriteFile path c d =
     (case map_of (dk_nodes d) path of
        Some DirNode \<Rightarrow> (Some (''open '' @ path @ '': is a directory''), d)
      | Some (DeniedNode e) \<Rightarrow> (Some e, d)
      | _ \<Rightarrow>
          (case dk_write_fault d path of
             None \<Rightarrow> (None, put_file path c d)
           | Some (e, None) \<Rightarrow> (Some e, d)
           | Some (e, Some rest) \<Rightarrow> (Some e, put_file path rest d)))"

lemma put_file_read [simp]: "os_ReadFile (put_file path c d) p = (if p = path then Inr c else os_ReadFile d p)"
  by (simp add: os_ReadFile_def put_file_def update_conv')

lemma put_file_fault [simp]: "dk_write_fault (put_file path c d) = dk_write_fault d"
  by (simp add: put_file_def)

lemma os_WriteFile_ok:
  assumes "os_WriteFile path c d = (None, d')"
  shows "d' = put_file path c d"
  using assms by (auto simp: os_WriteFile_def split: option.splits disk_node.splits prod.splits)

lemma os_WriteFile_error:
  assumes "os_WriteFile path c d = (Some e, d')" and "dk_write_fault d path = None"
  shows "d' = d"
  using assms by (auto simp: os_WriteFile_def split: option.splits disk_node.splits)

end
