(* ===== verification/BuiltinTools.thy ===== *)
theory BuiltinTools
  imports Disk Attachments
begin

text \<open>
  \<^verbatim>\<open>builtin_tools.go\<close>: the file tools on the disk of the theory Disk, the search tools, and the
  results of \<^verbatim>\<open>run_shell\<close> and \<^verbatim>\<open>fetch_url\<close>.  Directory listings, \<^verbatim>\<open>filepath.Glob\<close>, \<^verbatim>\<open>WalkDir\<close>
  with \<^verbatim>\<open>Rel\<close>, regular expressions, the process and the HTTP client are parameters.  A tool is a
  function of its arguments on the disk.
\<close>

section \<open>Paths and texts of the library\<close>

text \<open>\<^verbatim>\<open>filepath.Clean\<close> and \<^verbatim>\<open>Join\<close> for relative paths too.\<close>

fun clean_relative :: "string list \<Rightarrow> string list \<Rightarrow> string list" where
  "clean_relative stack [] = rev stack"
| "clean_relative stack (x # xs) =
     (if x = [] \<or> x = dot then clean_relative stack xs
      else if x = dotdot \<and> stack \<noteq> [] \<and> hd stack \<noteq> dotdot then clean_relative (tl stack) xs
      else clean_relative (x # stack) xs)"

definition go_clean :: "string \<Rightarrow> string" where
  "go_clean p =
     (if is_abs p then path_clean p
      else let xs = clean_relative [] (str_split p (CHR ''/'')) in if xs = [] then dot else str_join xs ''/'')"

definition go_join :: "string \<Rightarrow> string \<Rightarrow> string" where
  "go_join a b = (if a \<noteq> [] then go_clean (a @ ''/'' @ b) else if b \<noteq> [] then go_clean b else [])"

definition newline_char :: char where "newline_char = CHR 0x0A"

text \<open>\<^verbatim>\<open>strings.Count\<close>: occurrences that do not overlap; the empty text occurs around every rune.\<close>

function count_from :: "string \<Rightarrow> string \<Rightarrow> nat" where
  "count_from s old =
     (if old = [] \<or> s = [] then 0
      else if has_prefix s old then Suc (count_from (drop (length old) s) old)
      else count_from (tl s) old)"
  by pat_completeness auto
termination by (relation "measure (\<lambda>(s, old). length s)") auto

declare count_from.simps [simp del]

definition str_count :: "string \<Rightarrow> string \<Rightarrow> nat" where
  "str_count s old = (if old = [] then Suc (rune_count s) else count_from s old)"

text \<open>\<^verbatim>\<open>strings.Replace\<close> of the first occurrence, and \<^verbatim>\<open>ReplaceAll\<close> with the empty text too.\<close>

definition replace_first :: "string \<Rightarrow> string \<Rightarrow> string \<Rightarrow> string" where
  "replace_first s old new =
     (case str_index s old of None \<Rightarrow> s | Some i \<Rightarrow> take i s @ new @ drop (i + length old) s)"

function spread_runes :: "string \<Rightarrow> string \<Rightarrow> string" where
  "spread_runes s new =
     (if s = [] then []
      else take (fst (decode_rune s)) s @ new @ spread_runes (drop (fst (decode_rune s)) s) new)"
  by pat_completeness auto
termination
proof (relation "measure (\<lambda>(s, new). length s)")
  fix s new :: string
  assume "s \<noteq> []"
  then have "fst (decode_rune s) > 0" by (rule decode_rune_pos)
  with \<open>s \<noteq> []\<close> show "((drop (fst (decode_rune s)) s, new), s, new) \<in> measure (\<lambda>(s, new). length s)" by simp
qed simp

declare spread_runes.simps [simp del]

definition go_replace_all :: "string \<Rightarrow> string \<Rightarrow> string \<Rightarrow> string" where
  "go_replace_all s old new = (if old = [] then new @ spread_runes s new else replace_all s old new)"

definition requiredString :: "payload \<Rightarrow> string \<Rightarrow> string + string" where
  "requiredString args key =
     (case as_string (pget args key) of
        None \<Rightarrow> Inl (''missing required argument: '' @ key)
      | Some s \<Rightarrow> if s = [] then Inl (''missing required argument: '' @ key) else Inr s)"

type_synonym disk_tool = "payload \<Rightarrow> disk \<Rightarrow> (string + string) \<times> disk"

section \<open>Reading\<close>

definition en_dash :: string where "en_dash = [CHR 0xE2, CHR 0x80, CHR 0x93]"

text \<open>The lines of a text: a final newline ends the last line.\<close>

definition file_lines :: "string \<Rightarrow> string list" where
  "file_lines text =
     (let ls = str_split text newline_char in if has_suffix text [newline_char] then butlast ls else ls)"

text \<open>\<^verbatim>\<open>%6d\<close>.\<close>

definition pad6 :: "int \<Rightarrow> string" where
  "pad6 n = replicate (6 - length (show_int n)) (CHR 0x20) @ show_int n"

definition numbered_line :: "int \<Rightarrow> string \<Rightarrow> string" where
  "numbered_line n line = pad6 n @ [CHR 0x09] @ line @ [newline_char]"

fun numbered :: "int \<Rightarrow> string list \<Rightarrow> string" where
  "numbered n [] = []"
| "numbered n (l # ls) = numbered_line n l @ numbered (n + 1) ls"

definition page_footer :: "int \<Rightarrow> int \<Rightarrow> int \<Rightarrow> string" where
  "page_footer lines_in offset limit =
     (if offset + limit < lines_in
      then ''... [file has '' @ show_int lines_in @ '' total lines; showing '' @ show_int offset @ en_dash
           @ show_int (offset + limit) @ '']'' @ [newline_char]
      else [])"

definition formatNumberedFile :: "string \<Rightarrow> int \<Rightarrow> int \<Rightarrow> string" where
  "formatNumberedFile text offset limit =
     (if text = [] then ''... [file has 0 total lines; showing 0'' @ en_dash @ ''0]'' @ [newline_char]
      else let ls = file_lines text; lines_in = int (length ls)
           in if lines_in \<le> offset
              then ''... [file has '' @ show_int lines_in @ '' total lines; offset '' @ show_int offset
                   @ '' is past EOF]'' @ [newline_char]
              else numbered (offset + 1) (take (nat limit) (drop (nat offset) ls)) @ page_footer lines_in offset limit)"

definition read_offset :: "payload \<Rightarrow> int" where
  "read_offset args = (let n = intValue (pget args ''offset'') in if n < 0 then 0 else n)"

definition read_limit :: "payload \<Rightarrow> int" where
  "read_limit args =
     (let n = intValue (pget args ''limit''); m = (if n \<le> 0 then 2000 else n) in if 10000 < m then 10000 else m)"

definition binary_refusal :: "string \<Rightarrow> string" where
  "binary_refusal path =
     ''Cannot read binary file '' @ go_quote path @ ''. Use bash_session to inspect binary files.''"

definition BuiltinReadFile :: disk_tool where
  "BuiltinReadFile args d =
     (bind_res (requiredString args ''path'') (\<lambda>path.
        bind_res (os_ReadFile d path) (\<lambda>text.
          if CHR 0x00 \<in> set (take 8192 text) then Inl (binary_refusal path)
          else Inr (formatNumberedFile text (read_offset args) (read_limit args)))), d)"

section \<open>Writing\<close>

definition BuiltinWriteFile :: disk_tool where
  "BuiltinWriteFile args d =
     (case bind_res (requiredString args ''path'') (\<lambda>path.
             bind_res (requiredString args ''content'') (\<lambda>content. Inr (path, content))) of
        Inl e \<Rightarrow> (Inl e, d)
      | Inr (path, content) \<Rightarrow>
          (case os_WriteFile path content d of
             (Some e, d1) \<Rightarrow> (Inl e, d1)
           | (None, d1) \<Rightarrow> (Inr (''wrote '' @ show_nat (length content) @ '' bytes to '' @ path), d1)))"

text \<open>What \<^verbatim>\<open>edit_file\<close> decides before it writes: the new content and the number of occurrences.\<close>

record edit_args =
  ed_path :: string
  ed_old :: string
  ed_new :: string
  ed_all :: bool

definition read_edit_args :: "payload \<Rightarrow> string + edit_args" where
  "read_edit_args args =
     bind_res (requiredString args ''path'') (\<lambda>path.
       case as_string (pget args ''old_string'') of
         None \<Rightarrow> Inl ''missing required argument: old_string''
       | Some old \<Rightarrow>
           (case as_string (pget args ''new_string'') of
              None \<Rightarrow> Inl ''missing required argument: new_string''
            | Some new \<Rightarrow>
                if old = new then Inl ''old_string and new_string must differ''
                else Inr \<lparr>ed_path = path, ed_old = old, ed_new = new,
                          ed_all = (as_bool (pget args ''replace_all'') = Some True)\<rparr>))"

definition edited :: "edit_args \<Rightarrow> string \<Rightarrow> string + (string \<times> nat)" where
  "edited a content =
     (let n = str_count content (ed_old a)
      in if n = 0 then Inl (''old_string not found in '' @ ed_path a)
         else if 1 < n \<and> \<not> ed_all a
         then Inl (''old_string appears '' @ show_nat n @ '' times in '' @ ed_path a
                @ ''; pass replace_all: true or add surrounding context'')
         else Inr (if ed_all a then go_replace_all content (ed_old a) (ed_new a)
                   else replace_first content (ed_old a) (ed_new a), n))"

definition BuiltinEditFile :: disk_tool where
  "BuiltinEditFile args d =
     (case bind_res (read_edit_args args) (\<lambda>a.
             bind_res (os_ReadFile d (ed_path a)) (\<lambda>content.
               bind_res (edited a content) (\<lambda>r. Inr (a, r)))) of
        Inl e \<Rightarrow> (Inl e, d)
      | Inr (a, updated, n) \<Rightarrow>
          (case os_WriteFile (ed_path a) updated d of
             (Some e, d1) \<Rightarrow> (Inl e, d1)
           | (None, d1) \<Rightarrow>
               (Inr (''edited '' @ ed_path a @ '' ('' @ show_nat n @ '' replacement''
                     @ (if n \<noteq> 1 then ''s'' else []) @ '')''), d1)))"

section \<open>Searching\<close>

text \<open>The library below the search tools.  \<open>sh_walk\<close> gives the files \<^verbatim>\<open>WalkDir\<close> visits under a root, each
  with its path relative to it.\<close>

record search_host =
  sh_list :: "disk \<Rightarrow> string \<Rightarrow> string + string list"
  sh_glob :: "disk \<Rightarrow> string \<Rightarrow> string + string list"
  sh_walk :: "disk \<Rightarrow> string \<Rightarrow> (string \<times> string) list"
  sh_regex :: "string \<Rightarrow> string + (string \<Rightarrow> bool)"

definition BuiltinListDir :: "search_host \<Rightarrow> disk_tool" where
  "BuiltinListDir sh args d =
     (bind_res (requiredString args ''path'') (\<lambda>path.
        bind_res (sh_list sh d path) (\<lambda>names. Inr (str_join (sort names) [newline_char]))), d)"

definition filepath_Match :: "string \<Rightarrow> string \<Rightarrow> bool option" where
  "filepath_Match pattern name = map_option (\<lambda>ts. glob_match ts name) (glob_parse pattern)"

definition walk_match :: "string \<Rightarrow> string \<times> string \<Rightarrow> bool" where
  "walk_match ending f =
     (case filepath_Match ending (snd f) of
        None \<Rightarrow> False
      | Some True \<Rightarrow> True
      | Some False \<Rightarrow> \<not> str_contains ending ''/'' \<and> filepath_Match ending (path_base (snd f)) = Some True)"

definition tool_glob :: "search_host \<Rightarrow> disk \<Rightarrow> string \<Rightarrow> string + string list" where
  "tool_glob sh d pattern =
     (case str_index pattern ''**'' of
        None \<Rightarrow> sh_glob sh d pattern
      | Some i \<Rightarrow>
          (let root = or_else (trim_suffix (take i pattern) ''/'') dot;
               ending = trim_prefix (drop (i + 2) pattern) ''/''
           in Inr (map fst (filter (walk_match ending) (sh_walk sh d root)))))"

definition BuiltinGlob :: "search_host \<Rightarrow> disk_tool" where
  "BuiltinGlob sh args d =
     (bind_res (requiredString args ''pattern'') (\<lambda>pattern.
        let root = or_else (stringValue (pget args ''path'')) dot;
            full = (if is_abs pattern then pattern else go_join root pattern)
        in bind_res (tool_glob sh d full) (\<lambda>ms. Inr (str_join (sort ms) [newline_char]))), d)"

definition GrepMaxMatches :: nat where "GrepMaxMatches = 200"

definition grepFiles :: "search_host \<Rightarrow> disk \<Rightarrow> string \<Rightarrow> string \<Rightarrow> string + string list" where
  "grepFiles sh d path globPattern =
     (case os_Stat d path of
        StatMissing \<Rightarrow> Inl (''path does not exist: '' @ path)
      | StatFailed e \<Rightarrow> Inl (''path does not exist: '' @ path)
      | StatFile \<Rightarrow> Inr [path]
      | StatDir \<Rightarrow>
          bind_res (tool_glob sh d (go_join path (or_else globPattern ''**/*''))) (\<lambda>result.
            Inr (sort (filter (\<lambda>f. os_Stat d f = StatFile) result))))"

definition grep_line :: "string \<Rightarrow> nat \<Rightarrow> string \<Rightarrow> string" where
  "grep_line file n line = file @ '':'' @ show_nat n @ '':'' @ line"

text \<open>The inner loop over the lines of a file from line \<open>n\<close> on, and the outer loop; the flag says that
  the limit was reached.\<close>

fun grep_lines :: "(string \<Rightarrow> bool) \<Rightarrow> string \<Rightarrow> nat \<Rightarrow> string list \<Rightarrow> string list \<Rightarrow> bool \<times> string list" where
  "grep_lines matches' file n [] found = (False, found)"
| "grep_lines matches' file n (l # ls) found =
     (if matches' l
      then let found1 = found @ [grep_line file n l]
           in if GrepMaxMatches \<le> length found1 then (True, found1) else grep_lines matches' file (Suc n) ls found1
      else grep_lines matches' file (Suc n) ls found)"

fun grep_files :: "(string \<Rightarrow> bool) \<Rightarrow> disk \<Rightarrow> string list \<Rightarrow> string list \<Rightarrow> bool \<times> string list" where
  "grep_files matches' d [] found = (False, found)"
| "grep_files matches' d (f # fs) found =
     (case os_ReadFile d f of
        Inl e \<Rightarrow> grep_files matches' d fs found
      | Inr text \<Rightarrow>
          (case grep_lines matches' f 1 (str_split text newline_char) found of
             (True, found1) \<Rightarrow> (True, found1)
           | (False, found1) \<Rightarrow> grep_files matches' d fs found1))"

definition grep_report :: "bool \<times> string list \<Rightarrow> string" where
  "grep_report r =
     (if fst r then str_join (snd r) [newline_char] @ newline_char # ''... (truncated at ''
                    @ show_nat GrepMaxMatches @ '' matches)''
      else if snd r = [] then ''no matches'' else str_join (snd r) [newline_char])"

definition BuiltinGrep :: "search_host \<Rightarrow> disk_tool" where
  "BuiltinGrep sh args d =
     (bind_res (requiredString args ''pattern'') (\<lambda>pattern.
        bind_res (requiredString args ''path'') (\<lambda>path.
          let p = (if as_bool (pget args ''case_insensitive'') = Some True then ''(?i)'' @ pattern else pattern)
          in case sh_regex sh p of
               Inl e \<Rightarrow> Inl (''invalid regex: '' @ e)
             | Inr matches' \<Rightarrow>
                 bind_res (grepFiles sh d path (stringValue (pget args ''glob''))) (\<lambda>files.
                   Inr (grep_report (grep_files matches' d files []))))), d)"

section \<open>Shell and network\<close>

definition formatShellResult :: "string \<Rightarrow> string \<Rightarrow> int \<Rightarrow> string" where
  "formatShellResult stdout stderr code =
     str_join ([''[exit '' @ show_int code @ '']'']
        @ (if stdout \<noteq> [] then [''--- stdout ---'' @ newline_char # stdout] else [])
        @ (if stderr \<noteq> [] then [''--- stderr ---'' @ newline_char # stderr] else [])) [newline_char]"

text \<open>How a shell command ends within its time limit.\<close>

datatype shell_end = ShellTimedOut | ShellNotRun string | ShellEnded string string int

definition BuiltinRunShell :: "(string \<Rightarrow> int \<Rightarrow> shell_end) \<Rightarrow> payload \<Rightarrow> string + string" where
  "BuiltinRunShell shell args =
     bind_res (requiredString args ''command'') (\<lambda>command.
       let timeout = (if phas args ''timeout_seconds'' then asInt (pget args ''timeout_seconds'') else 30)
       in case shell command timeout of
            ShellTimedOut \<Rightarrow> Inl (''command timed out after '' @ show_int timeout @ ''s'')
          | ShellNotRun e \<Rightarrow> Inl e
          | ShellEnded stdout stderr code \<Rightarrow> Inr (formatShellResult stdout stderr code))"

definition MaxFetchBytes :: nat where "MaxFetchBytes = 256 * 1024"

text \<open>\<open>fetch\<close> takes the URL and the headers: an error, or the status with the body, as far
  as it is read, or the error of that reading.\<close>

definition BuiltinFetchURL ::
    "(string \<Rightarrow> (string \<times> string) list \<Rightarrow> string + (int \<times> (string + string))) \<Rightarrow> payload \<Rightarrow> string + string" where
  "BuiltinFetchURL fetch args =
     bind_res (requiredString args ''url'') (\<lambda>url.
       if \<not> has_prefix url ''http://'' \<and> \<not> has_prefix url ''https://'' then Inl ''only http(s) is supported''
       else bind_res (fetch url (map (\<lambda>(k, v). (k, stringValue v)) (asMap (pget args ''headers''))))
              (\<lambda>(status, body). bind_res body (\<lambda>text.
                 Inr (''HTTP '' @ show_int status @ newline_char # take MaxFetchBytes text))))"

end
