(* ===== verification/Middleware.thy ===== *)
theory Middleware
  imports EventLog Disk
begin

text \<open>
  \<^verbatim>\<open>tool_middleware.go\<close>: functions from tool handlers to tool handlers.  A handler is a function of
  its arguments on a state of the host; the middleware that looks at files and at the Log works on
  a pair of them.  The clock, the digest and the words in which \<^verbatim>\<open>%v\<close> prints arguments are
  parameters.
\<close>

type_synonym 's handler = "payload \<Rightarrow> 's \<Rightarrow> (string + string) \<times> 's"

section \<open>Timing, logging, retrying\<close>

definition Timed :: "'s handler \<Rightarrow> 's handler" where
  "Timed h = (\<lambda>args s. h args s)"

text \<open>The lines go to a writer next to the state; \<open>wanted\<close> says whether there is one.\<close>

definition Logged :: "(payload \<Rightarrow> string) \<Rightarrow> bool \<Rightarrow> 's handler \<Rightarrow> ('s \<times> string list) handler" where
  "Logged show_args wanted h = (\<lambda>args (s, out).
     let out1 = (if wanted then out @ [''tool start args='' @ show_args args @ [CHR 0x0A]] else out);
         (r, s1) = h args s
     in (r, s1, if \<not> wanted then out1
                else case r of
                       Inl e \<Rightarrow> out1 @ [''tool error error='' @ e @ [CHR 0x0A]]
                     | Inr output \<Rightarrow> out1 @ [''tool ok bytes='' @ show_nat (length output) @ [CHR 0x0A]]))"

text \<open>\<open>n\<close> attempts are left after this one.\<close>

fun retry_loop :: "nat \<Rightarrow> (string \<Rightarrow> bool) option \<Rightarrow> 's handler \<Rightarrow> 's handler" where
  "retry_loop n retryable h args s =
     (case h args s of
        (Inr output, s1) \<Rightarrow> (Inr output, s1)
      | (Inl e, s1) \<Rightarrow>
          if (case retryable of None \<Rightarrow> False | Some f \<Rightarrow> \<not> f e) then (Inl e, s1)
          else case n of 0 \<Rightarrow> (Inl e, s1) | Suc m \<Rightarrow> retry_loop m retryable h args s1)"

declare retry_loop.simps [simp del]

definition Retried :: "'s handler \<Rightarrow> int \<Rightarrow> (string \<Rightarrow> bool) option \<Rightarrow> 's handler" where
  "Retried h attempts retryable =
     (let k = (if attempts < 1 then 1 else attempts) in retry_loop (nat (k - 1)) retryable h)"

section \<open>The rate limiter\<close>

text \<open>Times are nanoseconds; \<open>None\<close> is the zero time of a fresh limiter.\<close>

record rate_limiter =
  rl_PerMinute :: int
  rl_window :: "int option"
  rl_count :: int

definition minute :: int where "minute = 60 * 10 ^ 9"

definition rl_admit :: "int \<Rightarrow> rate_limiter \<Rightarrow> string option \<times> rate_limiter" where
  "rl_admit now r =
     (if rl_PerMinute r \<le> 0 then (Some ''per_minute must be positive'', r)
      else let r1 = (case rl_window r of
                       None \<Rightarrow> r\<lparr>rl_window := Some now, rl_count := 0\<rparr>
                     | Some w \<Rightarrow> if minute \<le> now - w then r\<lparr>rl_window := Some now, rl_count := 0\<rparr> else r)
           in if rl_PerMinute r1 \<le> rl_count r1 then (Some ''rate limit exceeded'', r1)
              else (None, r1\<lparr>rl_count := rl_count r1 + 1\<rparr>))"

definition rl_Wrap :: "('s \<Rightarrow> int) \<Rightarrow> 's handler \<Rightarrow> (rate_limiter \<times> 's) handler" where
  "rl_Wrap now h = (\<lambda>args (r, s).
     case rl_admit (now s) r of
       (Some e, r1) \<Rightarrow> (Inl e, r1, s)
     | (None, r1) \<Rightarrow> (case h args s of (res, s1) \<Rightarrow> (res, r1, s1)))"

section \<open>The stale read guard\<close>

record 'st guarded =
  gd_log :: "'st slog"
  gd_disk :: disk

record 'st stale_guard =
  gu_has_log :: bool
  gu_Strict :: bool
  gu_RequireRead :: bool
  gu_sha :: "string \<Rightarrow> string"
  gu_env :: "'st log_env"

definition hash_kind :: string where "hash_kind = ''stale_read_guard.hash''"

definition hash_payload :: "string \<Rightarrow> string \<Rightarrow> payload" where
  "hash_payload path digest =
     [(''kind'', VStr hash_kind), (''data'', VMap [(''path'', VStr path), (''sha256'', VStr digest)])]"

definition recordFileHash :: "'st stale_guard \<Rightarrow> string \<Rightarrow> 'st guarded \<Rightarrow> 'st guarded" where
  "recordFileHash g path s =
     (case os_ReadFile (gd_disk s) path of
        Inl e \<Rightarrow> s
      | Inr content \<Rightarrow>
          s\<lparr>gd_log := append_ev (gu_env g) EventAnnotation (hash_payload path (gu_sha g content)) (gd_log s)\<rparr>)"

text \<open>Whether an event records a hash of the path.\<close>

definition records_hash :: "string \<Rightarrow> event \<Rightarrow> bool" where
  "records_hash path e \<longleftrightarrow>
     ev_type e = EventAnnotation \<and> pget (ev_payload e) ''kind'' = VStr hash_kind \<and>
     pget (asMap (pget (ev_payload e) ''data'')) ''path'' = VStr path"

definition event_hash :: "event \<Rightarrow> string" where
  "event_hash e = stringValue (pget (asMap (pget (ev_payload e) ''data'')) ''sha256'')"

fun lastHash :: "string \<Rightarrow> string \<Rightarrow> event list \<Rightarrow> string" where
  "lastHash path h [] = h"
| "lastHash path h (e # es) = lastHash path (if records_hash path e then event_hash e else h) es"

definition unread_refusal :: "string \<Rightarrow> string \<Rightarrow> string" where
  "unread_refusal action path =
     ''StaleReadGuard: refuse to '' @ action @ '' '' @ path @ '' - file exists on disk but has not been read ''
     @ ''in this session. Call read_file('' @ path @ '') first to capture its current state, ''
     @ ''then retry the '' @ action @ ''.''"

definition stale_refusal :: "string \<Rightarrow> string \<Rightarrow> string" where
  "stale_refusal action path =
     ''StaleReadGuard: refuse to '' @ action @ '' '' @ path @ '' - disk content has changed since the last ''
     @ ''read in this session. Call read_file('' @ path @ '') again to refresh, then retry the '' @ action @ ''.''"

definition guard_check :: "'st stale_guard \<Rightarrow> string \<Rightarrow> string \<Rightarrow> 'st guarded \<Rightarrow> string option" where
  "guard_check g path action s =
     (let h = lastHash path [] (lg_events (gd_log s))
      in if h = []
         then (case os_Stat (gd_disk s) path of
                 StatMissing \<Rightarrow> None
               | StatFailed e \<Rightarrow> Some e
               | _ \<Rightarrow> if gu_RequireRead g \<or> gu_Strict g then Some (unread_refusal action path) else None)
         else (case os_ReadFile (gd_disk s) path of
                 Inl e \<Rightarrow> Some e
               | Inr content \<Rightarrow> if gu_sha g content \<noteq> h then Some (stale_refusal action path) else None))"

definition WrapRead :: "'st stale_guard \<Rightarrow> 'st guarded handler \<Rightarrow> 'st guarded handler" where
  "WrapRead g h = (\<lambda>args s.
     case h args s of
       (Inl e, s1) \<Rightarrow> (Inl e, s1)
     | (Inr output, s1) \<Rightarrow>
         let path = stringValue (pget args ''path'')
         in (Inr output, if path \<noteq> [] \<and> gu_has_log g then recordFileHash g path s1 else s1))"

definition wrapMutating :: "'st stale_guard \<Rightarrow> string \<Rightarrow> 'st guarded handler \<Rightarrow> 'st guarded handler" where
  "wrapMutating g action h = (\<lambda>args s.
     let path = stringValue (pget args ''path''); watched = (path \<noteq> [] \<and> gu_has_log g)
     in case (if watched then guard_check g path action s else None) of
          Some e \<Rightarrow> (Inl e, s)
        | None \<Rightarrow>
            (case h args s of
               (Inl e, s1) \<Rightarrow> (Inl e, s1)
             | (Inr output, s1) \<Rightarrow> (Inr output, if watched then recordFileHash g path s1 else s1)))"

definition WrapEdit :: "'st stale_guard \<Rightarrow> 'st guarded handler \<Rightarrow> 'st guarded handler" where
  "WrapEdit g = wrapMutating g ''edit''"

definition WrapWrite :: "'st stale_guard \<Rightarrow> 'st guarded handler \<Rightarrow> 'st guarded handler" where
  "WrapWrite g = wrapMutating g ''write''"

section \<open>Retries\<close>

text \<open>The outcomes of \<open>Suc n\<close> attempts in a row; the loop takes the first that must not be retried,
  or the last.\<close>

fun outcomes :: "nat \<Rightarrow> 's handler \<Rightarrow> payload \<Rightarrow> 's \<Rightarrow> ((string + string) \<times> 's) list" where
  "outcomes 0 h args s = [h args s]"
| "outcomes (Suc n) h args s = h args s # outcomes n h args (snd (h args s))"

definition tried_again :: "(string \<Rightarrow> bool) option \<Rightarrow> (string + string) \<times> 's \<Rightarrow> bool" where
  "tried_again f r \<longleftrightarrow> (case fst r of Inr out \<Rightarrow> False | Inl e \<Rightarrow> (case f of None \<Rightarrow> True | Some g \<Rightarrow> g e))"

lemma outcomes_not_Nil [simp]: "outcomes n h args s \<noteq> []"
  by (cases n) simp_all

lemma length_outcomes [simp]: "length (outcomes n h args s) = Suc n"
  by (induction n arbitrary: s) simp_all

lemma retry_outcomes:
  "retry_loop n f h args s =
     hd (dropWhile (tried_again f) (butlast (outcomes n h args s)) @ [last (outcomes n h args s)])"
proof (induction n arbitrary: s)
  case 0
  show ?case by (cases "h args s"; cases "fst (h args s)") (auto simp: retry_loop.simps split: option.splits)
next
  case (Suc n)
  obtain r s1 where h: "h args s = (r, s1)" by fastforce
  show ?case
  proof (cases "tried_again f (r, s1)")
    case True
    then have "retry_loop (Suc n) f h args s = retry_loop n f h args s1"
      by (subst retry_loop.simps) (auto simp: h tried_again_def split: sum.splits option.splits)
    with True Suc.IH [of s1] show ?thesis by (simp add: h)
  next
    case False
    then have "retry_loop (Suc n) f h args s = (r, s1)"
      by (subst retry_loop.simps) (auto simp: h tried_again_def split: sum.splits option.splits)
    with False show ?thesis by (simp add: h)
  qed
qed

section \<open>The limit of a window\<close>

text \<open>The calls admitted over a series of times.\<close>

fun admitted :: "int list \<Rightarrow> rate_limiter \<Rightarrow> nat" where
  "admitted [] r = 0"
| "admitted (t # ts) r =
     (case rl_admit t r of (None, r1) \<Rightarrow> Suc (admitted ts r1) | (Some e, r1) \<Rightarrow> admitted ts r1)"

definition rl_inv :: "rate_limiter \<Rightarrow> bool" where
  "rl_inv r \<longleftrightarrow> 0 \<le> rl_count r \<and> (0 < rl_PerMinute r \<longrightarrow> rl_count r \<le> rl_PerMinute r)"

lemma rl_admit_simps:
  assumes "rl_admit t r = (res, r')"
  shows "rl_PerMinute r' = rl_PerMinute r" and "rl_inv r \<Longrightarrow> rl_inv r'"
  using assms by (auto simp: rl_admit_def rl_inv_def Let_def split: if_splits option.splits)

text \<open>While the window of the limiter lasts, what is left of its count, and no more.\<close>

lemma admitted_in_window:
  assumes "rl_window r = Some w" and "\<forall>t \<in> set ts. t - w < minute" and "rl_inv r" and "0 < rl_PerMinute r"
  shows "int (admitted ts r) = min (int (length ts)) (rl_PerMinute r - rl_count r)"
  using assms
proof (induction ts arbitrary: r)
  case Nil
  then show ?case by (simp add: rl_inv_def)
next
  case (Cons t ts)
  have in_window: "\<not> minute \<le> t - w" using Cons.prems(2) by simp
  show ?case
  proof (cases "rl_PerMinute r \<le> rl_count r")
    case True
    then have "rl_admit t r = (Some ''rate limit exceeded'', r)"
      using Cons.prems(1,4) in_window by (simp add: rl_admit_def)
    then show ?thesis using Cons True by (simp add: rl_inv_def)
  next
    case False
    then have a: "rl_admit t r = (None, r\<lparr>rl_count := rl_count r + 1\<rparr>)"
      using Cons.prems(1,4) in_window by (simp add: rl_admit_def)
    have "int (admitted ts (r\<lparr>rl_count := rl_count r + 1\<rparr>)) =
        min (int (length ts)) (rl_PerMinute r - (rl_count r + 1))"
      using Cons.IH [of "r\<lparr>rl_count := rl_count r + 1\<rparr>"] Cons.prems False by (simp add: rl_inv_def)
    then show ?thesis using False by (simp add: a)
  qed
qed

text \<open>Over any minute two windows can share, at most twice the limit.\<close>

lemma admitted_in_minute:
  assumes "\<forall>t \<in> set ts. \<forall>u \<in> set ts. u - t < minute" and "rl_inv r" and "0 < rl_PerMinute r"
  shows "int (admitted ts r) \<le>
    rl_PerMinute r + (case rl_window r of None \<Rightarrow> 0 | Some w \<Rightarrow> rl_PerMinute r - rl_count r)"
  using assms
proof (induction ts arbitrary: r)
  case Nil
  then show ?case by (auto simp: rl_inv_def split: option.splits)
next
  case (Cons t ts)
  note pos = Cons.prems(3)
  show ?case
  proof (cases "case rl_window r of None \<Rightarrow> True | Some w \<Rightarrow> minute \<le> t - w")
    case True
    let ?r = "r\<lparr>rl_window := Some t, rl_count := 1\<rparr>"
    have a: "rl_admit t r = (None, ?r)"
      using True pos by (auto simp: rl_admit_def Let_def split: option.splits)
    have "int (admitted ts ?r) = min (int (length ts)) (rl_PerMinute ?r - rl_count ?r)"
      by (rule admitted_in_window) (use Cons.prems in \<open>auto simp: rl_inv_def\<close>)
    then show ?thesis using Cons.prems(2) pos by (auto simp: a rl_inv_def split: option.splits)
  next
    case False
    then obtain w where w: "rl_window r = Some w" "\<not> minute \<le> t - w" by (auto split: option.splits)
    show ?thesis
    proof (cases "rl_PerMinute r \<le> rl_count r")
      case True
      then have "rl_admit t r = (Some ''rate limit exceeded'', r)" using w pos by (simp add: rl_admit_def)
      then show ?thesis using Cons.IH [of r] Cons.prems by simp
    next
      case False
      let ?r = "r\<lparr>rl_count := rl_count r + 1\<rparr>"
      have a: "rl_admit t r = (None, ?r)" using w False pos by (simp add: rl_admit_def)
      have "int (admitted ts ?r) \<le> rl_PerMinute ?r + (rl_PerMinute ?r - rl_count ?r)"
        using Cons.IH [of ?r] Cons.prems False w(1) by (simp add: rl_inv_def)
      then show ?thesis by (simp add: a w(1))
    qed
  qed
qed

text \<open>A limiter without a window admits the first calls of a minute, up to its limit.\<close>

lemma admitted_fresh:
  assumes "\<forall>t \<in> set ts. \<forall>u \<in> set ts. u - t < minute" and "rl_window r = None" and "0 < rl_PerMinute r"
  shows "int (admitted ts r) = min (int (length ts)) (rl_PerMinute r)"
proof (cases ts)
  case (Cons t us)
  let ?r = "r\<lparr>rl_window := Some t, rl_count := 1\<rparr>"
  have "rl_admit t r = (None, ?r)" using assms(2,3) by (simp add: rl_admit_def Let_def)
  moreover have "int (admitted us ?r) = min (int (length us)) (rl_PerMinute ?r - rl_count ?r)"
    by (rule admitted_in_window) (use assms Cons in \<open>auto simp: rl_inv_def\<close>)
  ultimately show ?thesis using assms(3) by (simp add: Cons)
qed (use assms(3) in simp)

section \<open>What the stale read guard promises\<close>

lemma lastHash_append: "lastHash path h (es @ fs) = lastHash path (lastHash path h es) fs"
  by (induction es arbitrary: h) simp_all

lemma lastHash_quiet: "\<forall>e \<in> set es. \<not> records_hash path e \<Longrightarrow> lastHash path h es = h"
  by (induction es arbitrary: h) simp_all

text \<open>The log of a working guard: not latched and not written through.\<close>

definition free_log :: "'st slog \<Rightarrow> bool" where
  "free_log lg \<longleftrightarrow> lg_err lg = None \<and> lg_storage lg = None"

lemma record_known:
  assumes "os_ReadFile (gd_disk s) path = Inr content" and "free_log (gd_log s)"
  shows "lastHash path [] (lg_events (gd_log (recordFileHash g path s))) = gu_sha g content"
    and "gd_disk (recordFileHash g path s) = gd_disk s" and "free_log (gd_log (recordFileHash g path s))"
proof -
  obtain e where e: "lg_events (append_ev (gu_env g) EventAnnotation (hash_payload path (gu_sha g content)) (gd_log s))
      = lg_events (gd_log s) @ [e]" "ev_type e = EventAnnotation" "ev_payload e = hash_payload path (gu_sha g content)"
    and f: "free_log (append_ev (gu_env g) EventAnnotation (hash_payload path (gu_sha g content)) (gd_log s))"
    using append_ev_unlatched [of "gd_log s" "gu_env g" EventAnnotation "hash_payload path (gu_sha g content)"] assms(2)
    by (auto simp: free_log_def)
  have h: "records_hash path e" "event_hash e = gu_sha g content"
    using e by (simp_all add: records_hash_def event_hash_def hash_payload_def asMap_def stringValue_def)
  show "lastHash path [] (lg_events (gd_log (recordFileHash g path s))) = gu_sha g content"
    using h by (simp add: recordFileHash_def assms(1) e(1) lastHash_append)
  show "gd_disk (recordFileHash g path s) = gd_disk s" by (simp add: recordFileHash_def assms(1))
  show "free_log (gd_log (recordFileHash g path s))" using f by (simp add: recordFileHash_def assms(1))
qed

text \<open>With a recorded hash the handler runs exactly when the content on disk still has it.\<close>

lemma mutating_admits:
  assumes "gu_has_log g" and "path = stringValue (pget args ''path'')" and "path \<noteq> []"
    and "lastHash path [] (lg_events (gd_log s)) = digest" and "digest \<noteq> []"
  shows "case os_ReadFile (gd_disk s) path of
      Inl e \<Rightarrow> wrapMutating g action h args s = (Inl e, s)
    | Inr content \<Rightarrow>
        if gu_sha g content \<noteq> digest then wrapMutating g action h args s = (Inl (stale_refusal action path), s)
        else fst (wrapMutating g action h args s) = fst (h args s)"
  using assms
  by (cases "os_ReadFile (gd_disk s) path"; cases "h args s"; cases "fst (h args s)")
    (auto simp: wrapMutating_def guard_check_def Let_def)

end
