(* ===== verification/BuiltinProps.thy ===== *)
theory BuiltinProps
  imports BuiltinTools Middleware "HOL-Library.Sublist"
begin

text \<open>
  The file tools: the pages of \<^verbatim>\<open>read_file\<close> are the numbered lines of the file, cut; \<^verbatim>\<open>edit_file\<close>
  replaces the one occurrence it found and leaves everything else; \<^verbatim>\<open>grep\<close> reports the first 200
  matching lines.
\<close>

section \<open>Pages\<close>

lemma numbered_append: "numbered n (xs @ ys) = numbered n xs @ numbered (n + int (length xs)) ys"
  by (induction xs arbitrary: n) (simp_all add: algebra_simps)

lemma file_lines_join:
  "doc \<noteq> [] \<Longrightarrow> str_join (file_lines doc) [newline_char] =
     (if has_suffix doc [newline_char] then butlast doc else doc)"
proof -
  have splits: "str_split (t @ [newline_char]) newline_char = str_split t newline_char @ [[]]" for t
    by (induction t) (auto split: list.splits)
  assume "doc \<noteq> []"
  then obtain t c where t: "doc = t @ [c]" by (metis append_butlast_last_id)
  show ?thesis
  proof (cases "c = newline_char")
    case True
    then show ?thesis using t str_join_split [of t newline_char]
      by (simp add: file_lines_def splits has_suffix_def has_prefix_def)
  next
    case False
    then have "\<not> has_suffix doc [newline_char]" by (simp add: t has_suffix_def has_prefix_def)
    then show ?thesis by (simp add: file_lines_def str_join_split)
  qed
qed

lemma file_lines_ends: "\<forall>l \<in> set (file_lines doc). newline_char \<notin> set l"
  using str_split_no_sep [of _ doc newline_char]
  by (auto simp: file_lines_def Let_def dest: in_set_butlastD split: if_splits)

text \<open>The body of the page at an offset.\<close>

definition page_body :: "string \<Rightarrow> nat \<Rightarrow> nat \<Rightarrow> string" where
  "page_body doc l k = numbered (int (k * l) + 1) (take l (drop (k * l) (file_lines doc)))"

lemma page_is_body:
  assumes "doc \<noteq> []" and "k * l < length (file_lines doc)"
  shows "formatNumberedFile doc (int (k * l)) (int l) =
    page_body doc l k @ page_footer (int (length (file_lines doc))) (int (k * l)) (int l)"
  using assms by (simp add: formatNumberedFile_def page_body_def Let_def del: of_nat_mult)

text \<open>Consecutive pages cover the file.\<close>

lemma pages_prefix:
  assumes "n * l \<le> length (file_lines doc)"
  shows "concat (map (page_body doc l) [0..<n]) = numbered 1 (take (n * l) (file_lines doc))"
  using assms
proof (induction n)
  case (Suc n)
  have "n * l \<le> length (file_lines doc)" using Suc.prems by simp
  moreover have "take (Suc n * l) (file_lines doc) =
      take (n * l) (file_lines doc) @ take l (drop (n * l) (file_lines doc))"
    by (simp add: take_add add.commute [of l])
  ultimately show ?case using Suc.IH by (simp add: page_body_def numbered_append min_def add.commute)
qed simp

lemma pages_cover:
  assumes "0 < l" and "n = (length (file_lines doc) + l - 1) div l"
  shows "concat (map (page_body doc l) [0..<n]) = numbered 1 (file_lines doc)"
proof (cases n)
  case 0
  then have "length (file_lines doc) + l - 1 < l" using assms by (simp add: div_eq_0_iff)
  then have "length (file_lines doc) = 0" using assms(1) by linarith
  then show ?thesis using 0 by simp
next
  case (Suc m)
  let ?ls = "file_lines doc"
  have m: "m * l < length ?ls" "length ?ls \<le> m * l + l"
  proof -
    have "Suc m * l \<le> length ?ls + l - 1" using assms(2) Suc by (metis div_times_less_eq_dividend mult.commute)
    then show "m * l < length ?ls" using assms(1) by simp
    have "length ?ls + l - 1 < Suc (Suc m) * l"
      using assms Suc by (metis dividend_less_div_times mult.commute mult_Suc add.commute)
    then show "length ?ls \<le> m * l + l" by simp
  qed
  have "concat (map (page_body doc l) [0..<n]) = numbered 1 (take (m * l) ?ls) @ page_body doc l m"
    using pages_prefix [of m l doc] m(1) by (simp add: Suc)
  also have "\<dots> = numbered 1 (take (m * l) ?ls @ take l (drop (m * l) ?ls))"
    using m(1) by (simp add: page_body_def numbered_append min_def add.commute)
  also have "take (m * l) ?ls @ take l (drop (m * l) ?ls) = ?ls"
    using m by simp
  finally show ?thesis .
qed

lemma page_count_below:
  assumes "0 < l" and "n = (length (file_lines doc) + l - 1) div l" and "k < n"
  shows "k * l < length (file_lines doc)"
    and "int (k * l) + int l < int (length (file_lines doc)) \<longleftrightarrow> Suc k \<noteq> n"
proof -
  let ?len = "length (file_lines doc)"
  have up: "n * l \<le> ?len + l - 1" using assms(2) by (metis div_times_less_eq_dividend)
  have low: "?len + l - 1 < Suc n * l" using assms(1,2) by (metis dividend_less_div_times mult_Suc add.commute)
  have "Suc k * l \<le> n * l" using assms(3) by (intro mult_le_mono1) simp
  then show "k * l < ?len" using up assms(1) by simp
  have "int (k * l) + int l < int ?len \<longleftrightarrow> k * l + l < ?len"
    by (simp add: of_nat_add [symmetric] del: of_nat_add of_nat_mult)
  moreover have "k * l + l < ?len \<longleftrightarrow> Suc k \<noteq> n"
  proof (cases "Suc k = n")
    case True
    then have "?len \<le> k * l + l" using low by (auto simp: algebra_simps)
    then show ?thesis using True by simp
  next
    case False
    then have "Suc (Suc k) * l \<le> n * l" using assms(3) by (intro mult_le_mono1) simp
    then have "k * l + l < ?len" using up assms(1) by simp
    then show ?thesis using False by simp
  qed
  ultimately show "int (k * l) + int l < int ?len \<longleftrightarrow> Suc k \<noteq> n" by simp
qed

section \<open>Edits\<close>

lemma count_Nil: "count_from [] old = 0"
  by (simp add: count_from.simps)

lemma count_Cons:
  "old \<noteq> [] \<Longrightarrow> count_from (c # s) old =
     (if has_prefix (c # s) old then Suc (count_from (drop (length old) (c # s)) old) else count_from s old)"
  by (subst count_from.simps) simp

lemma count_index: "old \<noteq> [] \<Longrightarrow> count_from s old = 0 \<longleftrightarrow> str_index s old = None"
  by (induction s) (simp_all add: count_Nil count_Cons)

lemma count_after_first:
  "old \<noteq> [] \<Longrightarrow> str_index s old = Some i \<Longrightarrow> count_from s old = Suc (count_from (drop (i + length old) s) old)"
  by (induction s arbitrary: i) (auto simp: count_Cons split: if_splits)

lemma index_split:
  assumes "str_index s old = Some i"
  shows "s = take i s @ old @ drop (i + length old) s"
proof -
  have "has_prefix (drop i s) old"
    using assms
  proof (induction s arbitrary: i)
    case Nil
    then show ?case by (auto simp: has_prefix_def split: if_splits)
  next
    case (Cons c s)
    then show ?case by (auto split: if_splits)
  qed
  then have "drop i s = old @ drop (length old) (drop i s)"
    unfolding has_prefix_def by (metis append_take_drop_id)
  then show ?thesis by (metis append_take_drop_id drop_drop add.commute)
qed

text \<open>An edit that was decided without \<^verbatim>\<open>replace_all\<close>: one occurrence, nothing else touched.\<close>

lemma edited_one:
  assumes "edited a content = Inr (updated, n)" and "\<not> ed_all a" and "ed_old a \<noteq> []"
  shows "\<exists>pre post. content = pre @ ed_old a @ post \<and> updated = pre @ ed_new a @ post \<and> n = 1 \<and>
    str_index content (ed_old a) = Some (length pre) \<and> str_index post (ed_old a) = None"
proof -
  have n: "n = str_count content (ed_old a)" "n = 1" "updated = replace_first content (ed_old a) (ed_new a)"
    using assms(1,2) by (auto simp: edited_def Let_def split: if_splits)
  then have c: "count_from content (ed_old a) = 1" using assms(3) by (simp add: str_count_def)
  then obtain i where i: "str_index content (ed_old a) = Some i"
    using count_index [OF assms(3), of content] by auto
  have "count_from (drop (i + length (ed_old a)) content) (ed_old a) = 0"
    using count_after_first [OF assms(3) i] c by simp
  then have "str_index (drop (i + length (ed_old a)) content) (ed_old a) = None"
    using count_index [OF assms(3)] by blast
  moreover have "length (take i content) = i" using str_index_bound [OF i] by simp
  ultimately show ?thesis using index_split [OF i] n i
    by (intro exI [of _ "take i content"] exI [of _ "drop (i + length (ed_old a)) content"])
      (simp add: replace_first_def)
qed

text \<open>The whole tool, by what it answers.\<close>

lemma edit_ok:
  assumes "BuiltinEditFile args d = (Inr out, d')"
  obtains a content updated n where "read_edit_args args = Inr a" "os_ReadFile d (ed_path a) = Inr content"
    "edited a content = Inr (updated, n)" "d' = put_file (ed_path a) updated d"
  using assms by (auto simp: BuiltinEditFile_def bind_res_Inr_iff split: sum.splits prod.splits option.splits
      dest!: os_WriteFile_ok)

lemma edit_error:
  assumes "BuiltinEditFile args d = (Inl e, d')" and "\<forall>p. dk_write_fault d p = None"
  shows "d' = d"
  using assms by (auto simp: BuiltinEditFile_def split: sum.splits prod.splits option.splits dest: os_WriteFile_error)

section \<open>Matches\<close>

definition file_matches :: "(string \<Rightarrow> bool) \<Rightarrow> disk \<Rightarrow> string \<Rightarrow> string list" where
  "file_matches m d f =
     (case os_ReadFile d f of
        Inl e \<Rightarrow> []
      | Inr doc \<Rightarrow>
          map (\<lambda>(n, l). grep_line f n l)
            (filter (\<lambda>(n, l). m l) (enumerate 1 (str_split doc newline_char))))"

text \<open>A loop that takes at most the limit.\<close>

definition capped :: "string list \<Rightarrow> bool \<times> string list" where
  "capped xs = (GrepMaxMatches \<le> length xs, take GrepMaxMatches xs)"

lemma limit_pos: "0 < GrepMaxMatches"
  by (simp add: GrepMaxMatches_def)

lemma grep_lines_capped:
  "length found < GrepMaxMatches \<Longrightarrow>
   grep_lines m f n ls found =
     capped (found @ map (\<lambda>(n, l). grep_line f n l) (filter (\<lambda>(n, l). m l) (enumerate n ls)))"
proof (induction ls arbitrary: n found)
  case (Cons l ls)
  show ?case
  proof (cases "m l \<and> GrepMaxMatches \<le> length (found @ [grep_line f n l])")
    case True
    then have "GrepMaxMatches - length found = 1" using Cons.prems by auto
    with True show ?thesis by (simp add: capped_def Let_def)
  next
    case False
    then show ?thesis using Cons.IH [of "found @ [grep_line f n l]" "Suc n"] Cons.IH [of found "Suc n"] Cons.prems
      by (auto simp: Let_def)
  qed
qed (simp add: capped_def)

lemma grep_files_capped:
  "length found < GrepMaxMatches \<Longrightarrow>
   grep_files m d fs found = capped (found @ concat (map (file_matches m d) fs))"
proof (induction fs arbitrary: found)
  case (Cons f fs)
  show ?case
  proof (cases "os_ReadFile d f")
    case (Inr doc)
    let ?found = "found @ file_matches m d f"
    have r: "grep_lines m f 1 (str_split doc newline_char) found = capped ?found"
      using grep_lines_capped [OF Cons.prems] Inr by (simp add: file_matches_def)
    show ?thesis
    proof (cases "GrepMaxMatches \<le> length ?found")
      case True
      then show ?thesis using Inr r by (simp add: capped_def)
    next
      case False
      then have "capped ?found = (False, ?found)" by (simp add: capped_def)
      then show ?thesis using Inr r Cons.IH [of ?found] False by simp
    qed
  next
    case (Inl e)
    then show ?thesis using Cons by (simp add: file_matches_def)
  qed
qed (simp add: capped_def)

text \<open>The search tool reports the first 200 matching lines of its files, in order.\<close>

lemma grep_first_matches: "grep_files m d fs [] = capped (concat (map (file_matches m d) fs))"
  using grep_files_capped [of "[]" m d fs] limit_pos by simp

section \<open>The guarded edit\<close>

text \<open>A disk tool as a handler of the guarded state.\<close>

definition guarded_tool :: "disk_tool \<Rightarrow> 'st guarded handler" where
  "guarded_tool h = (\<lambda>args s. case h args (gd_disk s) of (r, d) \<Rightarrow> (r, s\<lparr>gd_disk := d\<rparr>))"

lemma read_ok:
  assumes "BuiltinReadFile args d = (Inr out, d')"
  shows "d' = d" and "\<exists>c. os_ReadFile d (stringValue (pget args ''path'')) = Inr c \<and>
      CHR 0x00 \<notin> set (take 8192 c) \<and> out = formatNumberedFile c (read_offset args) (read_limit args)"
proof -
  show "d' = d" using assms by (simp add: BuiltinReadFile_def)
  obtain path where "requiredString args ''path'' = Inr path"
    using assms by (cases "requiredString args ''path''") (auto simp: BuiltinReadFile_def)
  moreover from this have "stringValue (pget args ''path'') = path"
    by (auto simp: requiredString_def as_string_def stringValue_def split: val.splits if_splits)
  ultimately show "\<exists>c. os_ReadFile d (stringValue (pget args ''path'')) = Inr c \<and>
      CHR 0x00 \<notin> set (take 8192 c) \<and> out = formatNumberedFile c (read_offset args) (read_limit args)"
    using assms by (auto simp: BuiltinReadFile_def bind_res_Inr_iff split: if_splits)
qed

text \<open>After a guarded read the log knows the digest of what was read.\<close>

lemma guarded_read:
  assumes "WrapRead g (guarded_tool BuiltinReadFile) args s = (Inr out, s1)"
    and "gu_has_log g" and "free_log (gd_log s)" and "path = stringValue (pget args ''path'')" and "path \<noteq> []"
  obtains c where "os_ReadFile (gd_disk s) path = Inr c" "gd_disk s1 = gd_disk s" "free_log (gd_log s1)"
    "lastHash path [] (lg_events (gd_log s1)) = gu_sha g c"
proof -
  obtain r d where h: "BuiltinReadFile args (gd_disk s) = (r, d)" by fastforce
  then have r: "r = Inr out" "s1 = recordFileHash g path (s\<lparr>gd_disk := d\<rparr>)"
    using assms by (auto simp: WrapRead_def guarded_tool_def Let_def split: sum.splits)
  note ok = read_ok [OF h [unfolded r(1)]]
  then obtain c where c: "os_ReadFile (gd_disk s) path = Inr c" using assms(4) by blast
  show thesis using record_known [of s path c g] c assms(3) ok(1) r(2) by (intro that [of c]) simp_all
qed

lemma guarded_write:
  assumes "WrapRead g (guarded_tool BuiltinReadFile) rargs s = (Inr out, s1)"
    and "gu_has_log g" and "free_log (gd_log s)" and "path = stringValue (pget rargs ''path'')" and "path \<noteq> []"
    and "\<forall>x. gu_sha g x \<noteq> []"
    and "lg_events (gd_log s2) = lg_events (gd_log s1) @ es" and "\<forall>e \<in> set es. \<not> records_hash path e"
    and "stringValue (pget args ''path'') = path"
  obtains c where "os_ReadFile (gd_disk s) path = Inr c"
    and "case os_ReadFile (gd_disk s2) path of
      Inl e \<Rightarrow> wrapMutating g action h args s2 = (Inl e, s2)
    | Inr now \<Rightarrow>
        if gu_sha g now \<noteq> gu_sha g c then wrapMutating g action h args s2 = (Inl (stale_refusal action path), s2)
        else fst (wrapMutating g action h args s2) = fst (h args s2)"
proof -
  obtain c where c: "os_ReadFile (gd_disk s) path = Inr c" "lastHash path [] (lg_events (gd_log s1)) = gu_sha g c"
    using guarded_read [OF assms(1-5)] by blast
  have "lastHash path [] (lg_events (gd_log s2)) = gu_sha g c"
    using c(2) assms(7,8) by (simp add: lastHash_append lastHash_quiet)
  from mutating_admits [OF assms(2) assms(9) [symmetric] assms(5) this, of action h] assms(6) c(1) show thesis
    by (intro that) blast+
qed

text \<open>A guarded mutation that succeeds leaves the digest of its result in the log.\<close>

lemma mutation_recorded:
  assumes "wrapMutating g action h args s = (Inr out, s')" and "gu_has_log g"
    and "path = stringValue (pget args ''path'')" and "path \<noteq> []"
    and "h args s = (Inr out, s1)" and "os_ReadFile (gd_disk s1) path = Inr c" and "free_log (gd_log s1)"
  shows "lastHash path [] (lg_events (gd_log s')) = gu_sha g c" and "gd_disk s' = gd_disk s1"
proof -
  have "s' = recordFileHash g path s1"
    using assms by (auto simp: wrapMutating_def Let_def split: option.splits sum.splits)
  then show "lastHash path [] (lg_events (gd_log s')) = gu_sha g c" "gd_disk s' = gd_disk s1"
    using record_known [OF assms(6,7), of g] by simp_all
qed

section \<open>Joining paths\<close>

text \<open>Overlapping occurrences count once: the edit is not refused.\<close>

lemma overlap_counts_once: "str_count ''aaa'' ''aa'' = 1"
  by code_simp

text \<open>A pattern below the root directory searches the working directory.\<close>

lemma root_glob: "tool_glob sh d ''/**/x'' = Inr (map fst (filter (walk_match ''x'') (sh_walk sh d dot)))"
  by (simp add: tool_glob_def has_prefix_def trim_suffix_def has_suffix_def or_else_def trim_prefix_def)

end
