(* ===== verification/Skills.thy ===== *)
theory Skills
  imports BuiltinTools
begin

text \<open>
  \<^verbatim>\<open>skills.go\<close> and the \<^verbatim>\<open>load_skill\<close> tool: skill files with their front matter, the index of a
  directory of skills, and the lookup of one by name.  \<^verbatim>\<open>filepath.Glob\<close> of the directory is a
  parameter; files are those of the theory Disk.
\<close>

section \<open>Front matter\<close>

definition skillStringSlice :: "val \<Rightarrow> string list" where
  "skillStringSlice v =
     (case v of
        VStrs ss \<Rightarrow> ss
      | VList vs \<Rightarrow> map stringValue vs
      | VStr s \<Rightarrow> if s = [] then [] else [s]
      | _ \<Rightarrow> [])"

definition splitInlineList :: "string \<Rightarrow> string list" where
  "splitInlineList v = filter (\<lambda>p. p \<noteq> []) (map trim_space (str_split v (CHR '','')))"

text \<open>One line: the fields so far, and the key whose list the next items extend.\<close>

definition frontmatter_line :: "string \<Rightarrow> payload \<times> string \<Rightarrow> payload \<times> string" where
  "frontmatter_line line st =
     (case st of (fm, listKey) \<Rightarrow>
        let stripped = trim_space line
        in if stripped = [] then (fm, listKey)
           else if listKey \<noteq> [] \<and> has_prefix stripped ''- ''
           then (pset listKey (VStrs (skillStringSlice (pget fm listKey) @ [trim_space (trim_prefix stripped ''- '')])) fm,
                 listKey)
           else case str_index stripped '':'' of
                  None \<Rightarrow> (fm, listKey)
                | Some i \<Rightarrow>
                    let key = trim_space (take i stripped); v = trim_space (drop (Suc i) stripped)
                    in if v = [] then (pset key (VStrs []) fm, key)
                       else if has_prefix v ''['' \<and> has_suffix v '']''
                       then (pset key (VStrs (splitInlineList (butlast (tl v)))) fm, [])
                       else (pset key (VStr v) fm, []))"

definition ParseSkillFrontmatter :: "string \<Rightarrow> payload" where
  "ParseSkillFrontmatter raw = fst (fold frontmatter_line (str_split raw newline_char) ([], []))"

text \<open>\<^verbatim>\<open>strings.SplitAfter\<close> at newlines.\<close>

fun split_after :: "string \<Rightarrow> string list" where
  "split_after [] = [[]]"
| "split_after (c # s) =
     (if c = newline_char then [c] # split_after s
      else case split_after s of [] \<Rightarrow> [[c]] | l # ls \<Rightarrow> (c # l) # ls)"

definition fence :: string where "fence = ''---''"

text \<open>The lines before the first closing fence and those after it.\<close>

fun cut_fence :: "string list \<Rightarrow> (string list \<times> string list) option" where
  "cut_fence [] = None"
| "cut_fence (l # ls) =
     (if trim_space l = fence then Some ([], ls)
      else map_option (\<lambda>(front, rest). (l # front, rest)) (cut_fence ls))"

definition parse_skill :: "string \<Rightarrow> payload \<times> string" where
  "parse_skill content =
     (if \<not> has_prefix content (fence @ [newline_char]) then ([], content)
      else case cut_fence (tl (split_after content)) of
             None \<Rightarrow> ([], content)
           | Some (front, rest) \<Rightarrow> (ParseSkillFrontmatter (concat front), concat rest))"

definition ParseSkillFile :: "disk \<Rightarrow> string \<Rightarrow> string + (payload \<times> string)" where
  "ParseSkillFile d path = bind_res (os_ReadFile d path) (\<lambda>content. Inr (parse_skill content))"

section \<open>The index\<close>

text \<open>\<^verbatim>\<open>skillNamePattern\<close>.\<close>

definition lower_letter :: "char \<Rightarrow> bool" where
  "lower_letter c \<longleftrightarrow> (let n = (of_char c :: nat) in 97 \<le> n \<and> n \<le> 122)"

definition ValidSkillName :: "string \<Rightarrow> bool" where
  "ValidSkillName s \<longleftrightarrow>
     s \<noteq> [] \<and> lower_letter (hd s) \<and> list_all (\<lambda>c. lower_letter c \<or> is_digit c \<or> c = CHR ''_'') s"

record skill_entry =
  sk_Name :: string
  sk_Description :: string
  sk_Category :: string
  sk_Triggers :: "string list"

definition skill_file_name :: "string \<Rightarrow> string" where
  "skill_file_name path = trim_suffix (path_base path) ''.md''"

definition skill_entry_of :: "string \<Rightarrow> payload \<Rightarrow> skill_entry option" where
  "skill_entry_of path fm =
     (let name = or_else (stringValue (pget fm ''name'')) (skill_file_name path);
          description = stringValue (pget fm ''description'')
      in if \<not> ValidSkillName name \<or> name \<noteq> skill_file_name path \<or> description = [] then None
         else Some \<lparr>sk_Name = name, sk_Description = description, sk_Category = stringValue (pget fm ''category''),
                    sk_Triggers = skillStringSlice (pget fm ''triggers'')\<rparr>)"

fun skill_entries :: "disk \<Rightarrow> string list \<Rightarrow> string + skill_entry list" where
  "skill_entries d [] = Inr []"
| "skill_entries d (path # paths) =
     bind_res (ParseSkillFile d path) (\<lambda>(fm, body).
       bind_res (skill_entries d paths) (\<lambda>rest.
         Inr (case skill_entry_of path fm of None \<Rightarrow> rest | Some e \<Rightarrow> e # rest)))"

definition SkillEntries :: "(string \<Rightarrow> string + string list) \<Rightarrow> disk \<Rightarrow> string \<Rightarrow> string + skill_entry list" where
  "SkillEntries glob d skillsDir =
     bind_res (glob (go_join skillsDir ''*.md'')) (\<lambda>paths.
       bind_res (skill_entries d paths) (\<lambda>es. Inr (sort_key sk_Name es)))"

definition formatSkillEntry :: "skill_entry \<Rightarrow> string" where
  "formatSkillEntry e =
     (let triggers = filter (\<lambda>t. t \<noteq> []) (sk_Triggers e)
      in ''- '' @ CHR 0x60 # sk_Name e @ CHR 0x60 # '': '' @ sk_Description e
         @ (if sk_Category e \<noteq> [] then '' Category: '' @ sk_Category e @ ''.'' else [])
         @ (if triggers \<noteq> [] then '' Triggers: '' @ str_join triggers '', '' @ ''.'' else []))"

definition skillsIndexGuard :: string where
  "skillsIndexGuard =
     ''You have access to local skills. The skill index below is enough to answer what skills are available. ''
     @ ''Do not call '' @ CHR 0x60 # ''load_skill'' @ CHR 0x60 # '' just to list skills. Call '' @ CHR 0x60 # ''load_skill''
     @ CHR 0x60 # '' only when a user request matches a skill and you need its full instructions.''"

definition BuildSkillsIndex :: "(string \<Rightarrow> string + string list) \<Rightarrow> disk \<Rightarrow> string \<Rightarrow> string + string" where
  "BuildSkillsIndex glob d skillsDir =
     bind_res (SkillEntries glob d skillsDir) (\<lambda>es.
       if es = [] then Inr []
       else Inr (str_join ([''## Skills'', [], skillsIndexGuard, []] @ map formatSkillEntry es) [newline_char]))"

section \<open>The tool\<close>

definition BuiltinLoadSkill ::
    "(string \<Rightarrow> string + string list) \<Rightarrow> disk \<Rightarrow> payload \<Rightarrow> payload \<Rightarrow> string + string" where
  "BuiltinLoadSkill glob d args config =
     bind_res (requiredString args ''name'') (\<lambda>name.
       if \<not> ValidSkillName name then Inl (''RuntimeError: invalid skill name: '' @ name)
       else let skillsDir = stringValue (pget config ''skills_dir'')
            in if skillsDir = [] then Inl ''RuntimeError: missing skills_dir config''
               else bind_res (glob (go_join skillsDir ''*.md'')) (\<lambda>paths.
                      if \<not> list_ex (\<lambda>p. skill_file_name p = name) paths
                      then Inl (''RuntimeError: unknown skill: '' @ name)
                      else let path = go_join skillsDir (name @ ''.md'');
                               strip = (case as_bool (pget config ''strip_frontmatter'') of Some b \<Rightarrow> b | None \<Rightarrow> True)
                           in if \<not> strip then os_ReadFile d path
                              else bind_res (ParseSkillFile d path) (\<lambda>(fm, body). Inr body)))"

section \<open>Properties\<close>

lemma split_after_not_Nil [simp]: "split_after s \<noteq> []"
  by (induction s) (auto split: list.splits)

lemma concat_split_after: "concat (split_after s) = s"
proof (induction s)
  case (Cons c s)
  then show ?case by (cases "split_after s") auto
qed simp

lemma split_after_line: "newline_char \<notin> set l \<Longrightarrow> split_after (l @ newline_char # s) = (l @ [newline_char]) # split_after s"
  by (induction l) auto

text \<open>The text of some lines, each with its newline.\<close>

definition lines_text :: "string list \<Rightarrow> string" where
  "lines_text ls = concat (map (\<lambda>l. l @ [newline_char]) ls)"

lemma split_after_lines:
  "\<forall>l \<in> set ls. newline_char \<notin> set l \<Longrightarrow>
   split_after (lines_text ls @ s) = map (\<lambda>l. l @ [newline_char]) ls @ split_after s"
  by (induction ls) (simp_all add: lines_text_def split_after_line)

lemma cut_fence_append:
  "\<forall>l \<in> set front. trim_space l \<noteq> fence \<Longrightarrow> trim_space m = fence \<Longrightarrow> cut_fence (front @ m # rest) = Some (front, rest)"
  by (induction front) simp_all

lemma trim_space_newline: "trim_space (l @ [newline_char]) = trim_space l"
proof -
  have nl: "is_space newline_char" by (simp add: is_space_def newline_char_def)
  show ?thesis
  proof (cases "\<forall>c \<in> set l. is_space c")
    case True
    then have e: "dropWhile is_space l = []" "dropWhile is_space (l @ [newline_char]) = []" using nl by simp_all
    show ?thesis unfolding trim_space_def e ..
  next
    case False
    then have "dropWhile is_space (l @ [newline_char]) = dropWhile is_space l @ [newline_char]"
      by (auto simp: dropWhile_append)
    then show ?thesis using nl by (simp add: trim_space_def)
  qed
qed

text \<open>A file between fences is split where its author split it.\<close>

lemma parse_skill_fenced:
  assumes "\<forall>l \<in> set front. newline_char \<notin> set l \<and> trim_space l \<noteq> fence"
  shows "parse_skill (fence @ [newline_char] @ lines_text front @ fence @ [newline_char] @ body) =
    (ParseSkillFrontmatter (lines_text front), body)"
proof -
  let ?mark = "fence @ [newline_char]"
  have plain: "newline_char \<notin> set fence" by (simp add: fence_def newline_char_def)
  have "split_after (?mark @ lines_text front @ ?mark @ body)
      = ?mark # map (\<lambda>l. l @ [newline_char]) front @ ?mark # split_after body"
    using split_after_line [OF plain] split_after_lines [of front "?mark @ body"] assms by simp
  moreover have "trim_space ?mark = fence" by (simp add: trim_space_newline) code_simp
  moreover have "\<forall>l \<in> set (map (\<lambda>l. l @ [newline_char]) front). trim_space l \<noteq> fence"
    using assms by (simp add: trim_space_newline)
  ultimately show ?thesis
    using cut_fence_append [of "map (\<lambda>l. l @ [newline_char]) front" ?mark "split_after body"]
    by (simp add: parse_skill_def has_prefix_def concat_split_after lines_text_def)
qed

text \<open>The tool only reads the file of a listed, valid name directly below the directory.\<close>

lemma load_skill_reads:
  assumes "BuiltinLoadSkill glob d args config = Inr out"
  obtains name paths content where "ValidSkillName name" "name = stringValue (pget args ''name'')"
    "glob (go_join (stringValue (pget config ''skills_dir'')) ''*.md'') = Inr paths"
    "\<exists>p \<in> set paths. skill_file_name p = name"
    "os_ReadFile d (go_join (stringValue (pget config ''skills_dir'')) (name @ ''.md'')) = Inr content"
    "out = content \<or> (\<exists>fm. parse_skill content = (fm, out))"
proof -
  obtain name where n: "requiredString args ''name'' = Inr name"
    using assms by (cases "requiredString args ''name''") (auto simp: BuiltinLoadSkill_def)
  then have "stringValue (pget args ''name'') = name"
    by (auto simp: requiredString_def as_string_def stringValue_def split: val.splits if_splits)
  with assms n that show thesis
    by (auto simp: BuiltinLoadSkill_def ParseSkillFile_def Let_def bind_res_Inr_iff list_ex_iff split: if_splits)
qed

lemma valid_name_plain:
  assumes "ValidSkillName name"
  shows "CHR ''/'' \<notin> set name" "CHR ''.'' \<notin> set name"
  using assms by (auto simp: ValidSkillName_def list_all_iff lower_letter_def is_digit_def)

end
