(* ===== verification/BuiltinTable.thy ===== *)
theory BuiltinTable
  imports ManifestProps BuiltinProps Skills BashSession
begin

text \<open>
  The tables of \<^verbatim>\<open>builtin_tools.go\<close>: the built-in handlers by name, over one world of files and bash
  sessions, the configured ones, and the descriptors a manifest may list; and the rest of
  \<^verbatim>\<open>snapshot.go\<close>.
\<close>

section \<open>The handlers\<close>

text \<open>What the handlers reach outside the program, and the state they share.  A handler gives \<open>None\<close> when
  the call is still blocked after the inputs of \<open>bt_chance\<close>.\<close>

record builtin_host =
  bt_search :: search_host
  bt_shell :: "string \<Rightarrow> int \<Rightarrow> shell_end"
  bt_fetch :: "string \<Rightarrow> (string \<times> string) list \<Rightarrow> string + (int \<times> (string + string))"
  bt_skills :: "disk \<Rightarrow> string \<Rightarrow> string + string list"
  bt_bash :: bash_host
  bt_chance :: run_chance

record builtin_world =
  bw_disk :: disk
  bw_bash :: bash_registry

type_synonym builtin_handler = "payload \<Rightarrow> builtin_world \<Rightarrow> (string + string) option \<times> builtin_world"

definition on_disk :: "disk_tool \<Rightarrow> builtin_handler" where
  "on_disk f args w = (case f args (bw_disk w) of (res, d) \<Rightarrow> (Some res, w\<lparr>bw_disk := d\<rparr>))"

definition pure_tool :: "(payload \<Rightarrow> string + string) \<Rightarrow> builtin_handler" where
  "pure_tool f args w = (Some (f args), w)"

definition load_skill_handler :: "builtin_host \<Rightarrow> payload \<Rightarrow> builtin_handler" where
  "load_skill_handler host config args w =
     (Some (BuiltinLoadSkill (bt_skills host (bw_disk w)) (bw_disk w) args config), w)"

text \<open>\<^verbatim>\<open>BuiltinHandlers\<close>: without a configuration a bash session is a registry of its own for each call.\<close>

definition BuiltinHandlers :: "builtin_host \<Rightarrow> (string \<times> builtin_handler) list" where
  "BuiltinHandlers host =
     [(''harnas.builtin.read_file'', on_disk BuiltinReadFile),
      (''harnas.builtin.write_file'', on_disk BuiltinWriteFile),
      (''harnas.builtin.edit_file'', on_disk BuiltinEditFile),
      (''harnas.builtin.list_dir'', on_disk (BuiltinListDir (bt_search host))),
      (''harnas.builtin.glob'', on_disk (BuiltinGlob (bt_search host))),
      (''harnas.builtin.grep'', on_disk (BuiltinGrep (bt_search host))),
      (''harnas.builtin.run_shell'', pure_tool (BuiltinRunShell (bt_shell host))),
      (''harnas.builtin.fetch_url'', pure_tool (BuiltinFetchURL (bt_fetch host))),
      (''harnas.builtin.spawn_agent'', \<lambda>args w. (Some (Inl ''spawn_agent is handled by Runner''), w)),
      (''harnas.builtin.load_skill'', load_skill_handler host []),
      (''harnas.builtin.bash_session'',
         \<lambda>args w. (BuiltinBashSession (bt_bash host) (bt_chance host) args [], w))]"

text \<open>\<^verbatim>\<open>BuiltinConfiguredHandlers\<close>: here the sessions live in the registry of the table, and stay.\<close>

definition bash_handler :: "builtin_host \<Rightarrow> payload \<Rightarrow> builtin_handler" where
  "bash_handler host config args w =
     (case Handle (bt_bash host) (bt_chance host) args config (bw_bash w) of
        (res, r) \<Rightarrow> (res, w\<lparr>bw_bash := r\<rparr>))"

definition BuiltinConfiguredHandlers :: "builtin_host \<Rightarrow> (string \<times> (payload \<Rightarrow> builtin_handler)) list" where
  "BuiltinConfiguredHandlers host =
     [(''harnas.builtin.load_skill'', load_skill_handler host),
      (''harnas.builtin.bash_session'', bash_handler host)]"

section \<open>The descriptors\<close>

text \<open>\<^verbatim>\<open>bash_session_unix.go\<close>.\<close>

definition defaultBashSessionShellType :: string where
  "defaultBashSessionShellType = ''posix''"

definition read_file_spec :: tool_spec where
  "read_file_spec =
    \<lparr>ts_Name = ''read_file'', ts_Handler = ''harnas.builtin.read_file'',
     ts_Description = (''Read a text file with cat -n style line numbers. Supports optional ''
                      @ ''offset and limit.''),
     ts_InputSchema =
      [
        (''type'', VStr ''object''),
        (''properties'', VMap [
          (''path'', VMap [(''type'', VStr ''string'')]),
          (''offset'', VMap [
            (''type'', VStr ''integer''),
            (''description'', VStr ''Start at line N (0-indexed). Default 0.'')]),
          (''limit'', VMap [
            (''type'', VStr ''integer''),
            (''description'', VStr ''Read at most N lines. Default 2000.'')])]),
        (''required'', VList [VStr ''path''])],
     ts_Config = []\<rparr>"

definition write_file_spec :: tool_spec where
  "write_file_spec =
    \<lparr>ts_Name = ''write_file'', ts_Handler = ''harnas.builtin.write_file'',
     ts_Description = (''Write text content to a file at the given path, overwriting any ''
                      @ ''existing content.''),
     ts_InputSchema =
      [
        (''type'', VStr ''object''),
        (''properties'', VMap [
          (''path'', VMap [(''type'', VStr ''string'')]),
          (''content'', VMap [(''type'', VStr ''string'')])]),
        (''required'', VList [VStr ''path'', VStr ''content''])],
     ts_Config = []\<rparr>"

definition edit_file_spec :: tool_spec where
  "edit_file_spec =
    \<lparr>ts_Name = ''edit_file'', ts_Handler = ''harnas.builtin.edit_file'',
     ts_Description = (''Replace one occurrence of ''
                      @ [CHR 0x60] @ ''old_string'' @ [CHR 0x60] @ '' with ''
                      @ [CHR 0x60] @ ''new_string'' @ [CHR 0x60] @ '' in the file at the ''
                      @ ''given path. Pass replace_all: true to replace every occurrence. ''
                      @ ''Fails if old_string is not found or appears more than once when ''
                      @ ''replace_all is false.''),
     ts_InputSchema =
      [
        (''type'', VStr ''object''),
        (''properties'', VMap [
          (''path'', VMap [(''type'', VStr ''string'')]),
          (''old_string'', VMap [(''type'', VStr ''string'')]),
          (''new_string'', VMap [(''type'', VStr ''string'')]),
          (''replace_all'', VMap [(''type'', VStr ''boolean'')])]),
        (''required'', VList [VStr ''path'', VStr ''old_string'', VStr ''new_string''])],
     ts_Config = []\<rparr>"

definition list_dir_spec :: tool_spec where
  "list_dir_spec =
    \<lparr>ts_Name = ''list_dir'', ts_Handler = ''harnas.builtin.list_dir'',
     ts_Description = (''List the entries (files and directories) of the directory at the ''
                      @ ''given path.''),
     ts_InputSchema =
      [
        (''type'', VStr ''object''),
        (''properties'', VMap [(''path'', VMap [(''type'', VStr ''string'')])]),
        (''required'', VList [VStr ''path''])],
     ts_Config = []\<rparr>"

definition glob_spec :: tool_spec where
  "glob_spec =
    \<lparr>ts_Name = ''glob'', ts_Handler = ''harnas.builtin.glob'',
     ts_Description = (''Find files matching a glob pattern (e.g. ''
                      @ [CHR 0x22] @ ''**/*.rb'' @ [CHR 0x22] @ '') under the optional ''
                      @ [CHR 0x60] @ ''path'' @ [CHR 0x60] @ '' root. Returns a ''
                      @ ''newline-separated list of paths, sorted.''),
     ts_InputSchema =
      [
        (''type'', VStr ''object''),
        (''properties'', VMap [
          (''pattern'', VMap [(''type'', VStr ''string'')]),
          (''path'', VMap [(''type'', VStr ''string'')])]),
        (''required'', VList [VStr ''pattern''])],
     ts_Config = []\<rparr>"

definition grep_spec :: tool_spec where
  "grep_spec =
    \<lparr>ts_Name = ''grep'', ts_Handler = ''harnas.builtin.grep'',
     ts_Description = (''Search for a regular expression in file contents under the given ''
                      @ ''path (file or directory). Optional ''
                      @ [CHR 0x60] @ ''glob'' @ [CHR 0x60] @ '' filters files; optional ''
                      @ [CHR 0x60] @ ''case_insensitive'' @ [CHR 0x60] @ '' toggles the /i ''
                      @ ''flag. Returns path:lineno:content matches, capped at 200.''),
     ts_InputSchema =
      [
        (''type'', VStr ''object''),
        (''properties'', VMap [
          (''pattern'', VMap [(''type'', VStr ''string'')]),
          (''path'', VMap [(''type'', VStr ''string'')]),
          (''glob'', VMap [(''type'', VStr ''string'')]),
          (''case_insensitive'', VMap [(''type'', VStr ''boolean'')])]),
        (''required'', VList [VStr ''pattern'', VStr ''path''])],
     ts_Config = []\<rparr>"

definition run_shell_spec :: tool_spec where
  "run_shell_spec =
    \<lparr>ts_Name = ''run_shell'', ts_Handler = ''harnas.builtin.run_shell'',
     ts_Description = ''Run a shell command and return its stdout, stderr, and exit status.'',
     ts_InputSchema =
      [
        (''type'', VStr ''object''),
        (''properties'', VMap [
          (''command'', VMap [(''type'', VStr ''string'')]),
          (''timeout_seconds'', VMap [(''type'', VStr ''integer''), (''minimum'', VFloat 1)])]),
        (''required'', VList [VStr ''command''])],
     ts_Config = []\<rparr>"

definition fetch_url_spec :: tool_spec where
  "fetch_url_spec =
    \<lparr>ts_Name = ''fetch_url'', ts_Handler = ''harnas.builtin.fetch_url'',
     ts_Description = ''Fetch a URL via HTTP GET and return the response body as text.'',
     ts_InputSchema =
      [
        (''type'', VStr ''object''),
        (''properties'', VMap [
          (''url'', VMap [(''type'', VStr ''string'')]),
          (''headers'', VMap [
            (''type'', VStr ''object''),
            (''additionalProperties'', VMap [(''type'', VStr ''string'')])])]),
        (''required'', VList [VStr ''url''])],
     ts_Config = []\<rparr>"

definition load_skill_spec :: tool_spec where
  "load_skill_spec =
    \<lparr>ts_Name = ''load_skill'', ts_Handler = ''harnas.builtin.load_skill'',
     ts_Description = ''Load the body of a named skill from the configured skills directory.'',
     ts_InputSchema =
      [
        (''type'', VStr ''object''),
        (''properties'', VMap [(''name'', VMap [(''type'', VStr ''string'')])]),
        (''required'', VList [VStr ''name''])],
     ts_Config = []\<rparr>"

definition bash_session_spec :: tool_spec where
  "bash_session_spec =
    \<lparr>ts_Name = ''bash_session'', ts_Handler = ''harnas.builtin.bash_session'',
     ts_Description = (''Run a command in a persistent bash session. Sessions preserve ''
                      @ ''working directory and environment variables across calls. stdin is ''
                      @ ''/dev/null; interactive programs cannot receive input.''),
     ts_InputSchema =
      [
        (''type'', VStr ''object''),
        (''properties'', VMap [
          (''session_id'', VMap [(''type'', VStr ''string'')]),
          (''command'', VMap [(''type'', VStr ''string'')]),
          (''action'', VMap [
            (''type'', VStr ''string''),
            (''enum'', VList [VStr ''run'', VStr ''status'', VStr ''kill''])]),
          (''timeout_ms'', VMap [(''type'', VStr ''integer''), (''minimum'', VFloat 1)]),
          (''env'', VMap [
            (''type'', VStr ''object''),
            (''additionalProperties'', VMap [(''type'', VStr ''string'')])])])],
     ts_Config =
      [
        (''shell'', VStr ''auto''),
        (''shell_type'', VStr defaultBashSessionShellType),
        (''max_output_bytes'', VInt DefaultBashSessionMaxOutputBytes)]\<rparr>"

definition spawn_agent_spec :: tool_spec where
  "spawn_agent_spec =
    \<lparr>ts_Name = ''spawn_agent'', ts_Handler = ''harnas.builtin.spawn_agent'',
     ts_Description = (''Create a child agent Session receipt for a delegated task. Products ''
                      @ ''run and join the child according to their supervisor policy.''),
     ts_InputSchema =
      [
        (''type'', VStr ''object''),
        (''properties'', VMap [
          (''task'', VMap [(''type'', VStr ''string'')]),
          (''label'', VMap [(''type'', VStr ''string'')]),
          (''role'', VMap [(''type'', VStr ''string'')]),
          (''tools_deny'', VMap [(''type'', VStr ''array''), (''items'', VMap [(''type'', VStr ''string'')])])]),
        (''required'', VList [VStr ''task''])],
     ts_Config = []\<rparr>"

definition BuiltinDescriptors :: "tool_spec list" where
  "BuiltinDescriptors =
     [read_file_spec, write_file_spec, edit_file_spec, list_dir_spec, glob_spec, grep_spec, run_shell_spec,
      fetch_url_spec, load_skill_spec, bash_session_spec, spawn_agent_spec]"

lemmas descriptor_specs =
  read_file_spec_def write_file_spec_def edit_file_spec_def list_dir_spec_def glob_spec_def grep_spec_def
  run_shell_spec_def fetch_url_spec_def load_skill_spec_def bash_session_spec_def spawn_agent_spec_def

section \<open>Snapshot metadata\<close>

text \<open>The metadata of a manifest snapshot; \<open>None\<close> is a nil argument.\<close>

record snapshot_metadata =
  sn_tools :: "tool_spec list"
  sn_skills :: "val option"
  sn_mcp :: "val option"

definition ManifestSnapshotMetadata ::
    "('h, 'st, 'w) registry \<Rightarrow> val option \<Rightarrow> val option \<Rightarrow> snapshot_metadata" where
  "ManifestSnapshotMetadata r skills mcp =
     \<lparr>sn_tools = ToolDescriptors r, sn_skills = map_option cloneAny skills, sn_mcp = map_option cloneAny mcp\<rparr>"

section \<open>What the tables promise\<close>

definition manifest_tool_of :: "tool_spec \<Rightarrow> manifest_tool" where
  "manifest_tool_of s =
     \<lparr>md_Name = ts_Name s, md_Handler = ts_Handler s, md_Description = ts_Description s,
      md_InputSchema = Some (ts_InputSchema s), md_Config = ts_Config s\<rparr>"

definition required_arguments :: "tool_spec \<Rightarrow> string list" where
  "required_arguments s = stringSlice (pget (ts_InputSchema s) ''required'')"

definition declared_arguments :: "tool_spec \<Rightarrow> string list" where
  "declared_arguments s = map fst (asMap (pget (ts_InputSchema s) ''properties''))"

lemma descriptor_handlers: "map ts_Handler BuiltinDescriptors = map (\<lambda>s. ''harnas.builtin.'' @ ts_Name s) BuiltinDescriptors"
  by (simp add: BuiltinDescriptors_def descriptor_specs)

lemma descriptor_names:
  "map ts_Name BuiltinDescriptors =
     [''read_file'', ''write_file'', ''edit_file'', ''list_dir'', ''glob'', ''grep'', ''run_shell'', ''fetch_url'',
      ''load_skill'', ''bash_session'', ''spawn_agent'']"
  by (simp add: BuiltinDescriptors_def descriptor_specs)

lemma descriptor_names_distinct: "distinct (map ts_Name BuiltinDescriptors)"
  by (simp add: descriptor_names)

lemma descriptors_handled:
  "s \<in> set BuiltinDescriptors \<Longrightarrow> map_of (BuiltinHandlers host) (ts_Handler s) \<noteq> None"
  by (auto simp: BuiltinDescriptors_def descriptor_specs BuiltinHandlers_def)

lemma required_table:
  "map required_arguments BuiltinDescriptors =
     [[''path''], [''path'', ''content''], [''path'', ''old_string'', ''new_string''], [''path''], [''pattern''],
      [''pattern'', ''path''], [''command''], [''url''], [''name''], [], [''task'']]"
  by (simp add: BuiltinDescriptors_def descriptor_specs required_arguments_def stringSlice_def)

lemma required_declared:
  "list_all (\<lambda>s. list_all (\<lambda>r. r \<in> set (declared_arguments s)) (required_arguments s)) BuiltinDescriptors"
  by (simp add: BuiltinDescriptors_def descriptor_specs required_arguments_def declared_arguments_def stringSlice_def)

text \<open>A required argument that is missing, or is no string, is refused before anything is touched.\<close>

definition refused_call :: "builtin_handler \<Rightarrow> payload \<Rightarrow> builtin_world \<Rightarrow> bool" where
  "refused_call f args w \<longleftrightarrow> (\<exists>e. f args w = (Some (Inl e), w))"

lemma required_missing: "as_string (pget args key) = None \<Longrightarrow> requiredString args key = Inl (''missing required argument: '' @ key)"
  by (simp add: requiredString_def)

lemma refused_disk:
  "(\<And>d. \<exists>e. f args d = (Inl e, d)) \<Longrightarrow> refused_call (on_disk f) args w"
  by (metis (mono_tags, lifting) builtin_world.surjective builtin_world.update_convs(1) old.prod.case on_disk_def refused_call_def)

lemma edit_args_missing:
  "as_string (pget args ''path'') = None \<or> as_string (pget args ''old_string'') = None
     \<or> as_string (pget args ''new_string'') = None \<Longrightarrow> \<exists>e. read_edit_args args = Inl e"
  by (cases "requiredString args ''path''") (auto simp: read_edit_args_def required_missing split: option.splits)

lemma required_missing_either:
  "as_string (pget args key) = None \<or> as_string (pget args key2) = None \<Longrightarrow>
   \<exists>e. requiredString args key = Inl e \<or> (\<exists>x. requiredString args key = Inr x \<and> requiredString args key2 = Inl e)"
  by (cases "requiredString args key") (auto simp: required_missing)

lemma file_tools_refuse:
  assumes "as_string (pget args ''path'') = None"
  shows "refused_call (on_disk BuiltinReadFile) args w" and "refused_call (on_disk BuiltinWriteFile) args w"
    and "refused_call (on_disk BuiltinEditFile) args w" and "refused_call (on_disk (BuiltinListDir sh)) args w"
  using assms edit_args_missing [of args]
  by (auto intro!: refused_disk simp: BuiltinReadFile_def BuiltinWriteFile_def BuiltinEditFile_def BuiltinListDir_def
    required_missing)

lemma content_refuse: "as_string (pget args ''content'') = None \<Longrightarrow> refused_call (on_disk BuiltinWriteFile) args w"
  by (cases "requiredString args ''path''") (auto intro!: refused_disk simp: BuiltinWriteFile_def required_missing)

lemma edit_refuse:
  "as_string (pget args ''old_string'') = None \<or> as_string (pget args ''new_string'') = None \<Longrightarrow>
   refused_call (on_disk BuiltinEditFile) args w"
  using edit_args_missing [of args] by (auto intro!: refused_disk simp: BuiltinEditFile_def)

lemma glob_refuse: "as_string (pget args ''pattern'') = None \<Longrightarrow> refused_call (on_disk (BuiltinGlob sh)) args w"
  by (auto intro!: refused_disk simp: BuiltinGlob_def required_missing)

lemma grep_refuse:
  "as_string (pget args ''pattern'') = None \<or> as_string (pget args ''path'') = None \<Longrightarrow>
   refused_call (on_disk (BuiltinGrep sh)) args w"
  using required_missing_either [of args "''pattern''" "''path''"] by (auto intro!: refused_disk simp: BuiltinGrep_def)

lemma host_tools_refuse:
  "as_string (pget args ''command'') = None \<Longrightarrow> refused_call (pure_tool (BuiltinRunShell sh)) args w"
  "as_string (pget args ''url'') = None \<Longrightarrow> refused_call (pure_tool (BuiltinFetchURL fetch)) args w"
  "as_string (pget args ''name'') = None \<Longrightarrow> refused_call (load_skill_handler host config) args w"
  by (simp_all add: refused_call_def pure_tool_def BuiltinRunShell_def BuiltinFetchURL_def load_skill_handler_def
    BuiltinLoadSkill_def required_missing)

lemmas tools_refuse = file_tools_refuse content_refuse edit_refuse glob_refuse grep_refuse host_tools_refuse

text \<open>The handler of a descriptor, and a registry built from the descriptors.\<close>

definition handler_of :: "builtin_host \<Rightarrow> tool_spec \<Rightarrow> builtin_handler" where
  "handler_of host s = the (map_of (BuiltinHandlers host) (ts_Handler s))"

lemma required_refused:
  assumes "s \<in> set BuiltinDescriptors" and "r \<in> set (required_arguments s)" and "as_string (pget args r) = None"
  shows "refused_call (handler_of host s) args w"
proof -
  have "list_all (\<lambda>s. list_all (\<lambda>r. as_string (pget args r) = None \<longrightarrow> refused_call (handler_of host s) args w)
      (required_arguments s)) BuiltinDescriptors"
    by (simp add: BuiltinDescriptors_def descriptor_specs required_arguments_def stringSlice_def handler_of_def
      BuiltinHandlers_def tools_refuse) (simp add: refused_call_def)
  then show ?thesis using assms unfolding list_all_iff by blast
qed

lemma descriptors_build:
  assumes "\<forall>name \<in> set (map fst (BuiltinHandlers host)). map_of (mo_ToolHandlers opts) name \<noteq> None"
  shows "BuildRegistryWithContextual opts (map manifest_tool_of BuiltinDescriptors) =
    Inr (map (\<lambda>s. (ts_Name s, tool_of_spec opts (manifest_tool_of s))) BuiltinDescriptors)"
proof -
  have res: "\<forall>t \<in> set (map manifest_tool_of BuiltinDescriptors). resolves opts t"
  proof
    fix t assume "t \<in> set (map manifest_tool_of BuiltinDescriptors)"
    then obtain s where s: "s \<in> set BuiltinDescriptors" and t: "t = manifest_tool_of s" by auto
    have "ts_Handler s \<in> set (map fst (BuiltinHandlers host))"
      using descriptors_handled [OF s, of host] by (simp add: map_of_eq_None_iff)
    then have "map_of (mo_ToolHandlers opts) (ts_Handler s) \<noteq> None" using assms by (rule bspec [rotated])
    then show "resolves opts t" by (simp add: resolves_def t manifest_tool_of_def)
  qed
  have names: "map md_Name (map manifest_tool_of BuiltinDescriptors) = map ts_Name BuiltinDescriptors"
    by (simp add: manifest_tool_of_def)
  have "\<forall>t \<in> set (map manifest_tool_of BuiltinDescriptors). md_Name t \<noteq> []"
  proof
    fix t assume "t \<in> set (map manifest_tool_of BuiltinDescriptors)"
    then have "md_Name t \<in> set (map ts_Name BuiltinDescriptors)" by (auto simp: manifest_tool_of_def)
    then show "md_Name t \<noteq> []" unfolding descriptor_names by auto
  qed
  with build_tools_ok [of "map manifest_tool_of BuiltinDescriptors" NewRegistry opts] res
  show ?thesis
    by (simp add: BuildRegistryWithContextual_def NewRegistry_def names descriptor_names_distinct manifest_tool_of_def
      comp_def)
qed

end
