(* ===== verification/Transcript.thy ===== *)
theory Transcript
  imports EventLog Contents
begin

text \<open>
  \<^verbatim>\<open>transcript.go\<close>: the view of a Log that user interfaces show, one item for each event it
  includes.
\<close>

section \<open>Message texts\<close>

record transcript_options =
  to_IncludeTools :: bool
  to_IncludeErrors :: bool
  to_IncludeAnnotations :: bool
  to_ContentPlaceholder :: "(payload \<Rightarrow> string) option"

definition DefaultTranscriptOptions :: transcript_options where
  "DefaultTranscriptOptions =
     \<lparr>to_IncludeTools = True, to_IncludeErrors = True, to_IncludeAnnotations = False, to_ContentPlaceholder = None\<rparr>"

definition formatByteSize :: "int \<Rightarrow> string" where
  "formatByteSize n = (if 1024 \<le> n then show_int ((n + 1023) div 1024) @ ''kb'' else show_int n @ '' bytes'')"

definition contentBlockSize :: "payload \<Rightarrow> int" where
  "contentBlockSize block =
     (let n = asInt (pget block ''byte_size''); source = asMap (pget block ''source'')
      in if 0 < n then n
         else if pget source ''kind'' = VStr ''base64''
         then (case base64_decode (stringValue (pget source ''data'')) of
                 None \<Rightarrow> 0 | Some decoded \<Rightarrow> int (length decoded))
         else 0)"

definition defaultContentPlaceholder :: "payload \<Rightarrow> string" where
  "defaultContentPlaceholder block =
     (let name = stringValue (pget block ''name''); mediaType = stringValue (pget block ''media_type'');
          n = contentBlockSize block
      in ''['' @ str_join ([stringValue (pget block ''type'')] @ (if name \<noteq> [] then [name] else [])
            @ (if mediaType \<noteq> [] then [mediaType] else []) @ (if 0 < n then [formatByteSize n] else [])) '': ''
         @ '']'')"

definition block_part :: "transcript_options \<Rightarrow> payload \<Rightarrow> string" where
  "block_part options block =
     (if pget block ''type'' = VStr ''text'' then stringValue (pget block ''text'')
      else let p = (case to_ContentPlaceholder options of None \<Rightarrow> [] | Some f \<Rightarrow> f block)
           in if p = [] then defaultContentPlaceholder block else p)"

definition transcriptMessageText :: "payload \<Rightarrow> transcript_options \<Rightarrow> string" where
  "transcriptMessageText p options =
     (case pget p ''content'' of
        VList blocks \<Rightarrow> str_join (map (\<lambda>raw. block_part options (asMap raw)) blocks) [CHR 0x0A]
      | _ \<Rightarrow> stringValue (pget p ''text''))"

section \<open>Items\<close>

definition transcriptItem :: "event \<Rightarrow> payload \<Rightarrow> payload" where
  "transcriptItem e fs =
     fold (\<lambda>(k, v). pset k v) fs
       [(''seq'', VInt (ev_seq e)), (''id'', VStr (ev_id e)), (''type'', VStr (event_type_string (ev_type e)))]"

definition shown :: "transcript_options \<Rightarrow> event \<Rightarrow> bool" where
  "shown options e =
     (case ev_type e of
        EventUserMessage \<Rightarrow> True
      | EventAssistantMessage \<Rightarrow> True
      | EventToolUse \<Rightarrow> to_IncludeTools options
      | EventToolResult \<Rightarrow> to_IncludeTools options
      | EventProviderError \<Rightarrow> to_IncludeErrors options
      | EventRuntimeError \<Rightarrow> to_IncludeErrors options
      | EventAnnotation \<Rightarrow> to_IncludeAnnotations options
      | EventCompact \<Rightarrow> True
      | EventSummary \<Rightarrow> True
      | EventRevert \<Rightarrow> True
      | _ \<Rightarrow> False)"

definition item_fields :: "transcript_options \<Rightarrow> event \<Rightarrow> payload" where
  "item_fields options e =
     (let p = ev_payload e; named = (\<lambda>k f. (k, pget p f))
      in case ev_type e of
           EventUserMessage \<Rightarrow>
             [(''kind'', VStr ''user''), (''role'', VStr ''user''), (''text'', VStr (transcriptMessageText p options))]
         | EventAssistantMessage \<Rightarrow>
             [(''kind'', VStr ''assistant''), (''role'', VStr ''assistant''),
              (''text'', VStr (transcriptMessageText p options)), named ''stop_reason'' ''stop_reason'',
              named ''usage'' ''usage'', named ''reasoning'' ''reasoning'']
         | EventToolUse \<Rightarrow>
             [(''kind'', VStr ''tool_use''), named ''name'' ''name'', named ''tool_use_id'' ''id'',
              named ''arguments'' ''arguments'']
         | EventToolResult \<Rightarrow>
             [(''kind'', VStr ''tool_result''), named ''tool_use_id'' ''tool_use_id'', named ''output'' ''output'',
              named ''error'' ''error'', (''status'', VStr (if pget p ''error'' \<noteq> VNil then ''error'' else ''ok''))]
         | EventAnnotation \<Rightarrow>
             [(''kind'', VStr ''annotation''), named ''annotation_kind'' ''kind'', named ''data'' ''data'']
         | EventProviderError \<Rightarrow>
             [(''kind'', VStr (event_type_string (ev_type e))),
              (''error'', firstNonEmpty [pget p ''message'', pget p ''error'']), named ''terminal'' ''terminal'',
              (''payload'', VMap p)]
         | EventRuntimeError \<Rightarrow>
             [(''kind'', VStr (event_type_string (ev_type e))),
              (''error'', firstNonEmpty [pget p ''message'', pget p ''error'']), named ''terminal'' ''terminal'',
              (''payload'', VMap p)]
         | _ \<Rightarrow> [(''kind'', VStr (event_type_string (ev_type e))), (''payload'', VMap p)])"

fun transcript_items :: "transcript_options \<Rightarrow> event list \<Rightarrow> payload list" where
  "transcript_items options [] = []"
| "transcript_items options (e # es) =
     (if shown options e then transcriptItem e (item_fields options e) # transcript_items options es
      else transcript_items options es)"

definition TranscriptProject :: "'st slog \<Rightarrow> transcript_options \<Rightarrow> payload list" where
  "TranscriptProject lg options = transcript_items options (lg_events lg)"

section \<open>Properties\<close>

text \<open>No item of the log's later part changes the items before it, and a transcript only grows.\<close>

lemma transcript_append:
  "transcript_items options (es @ fs) = transcript_items options es @ transcript_items options fs"
  by (induction es) simp_all

lemma pget_fold_pset: "k \<notin> fst ` set fs \<Longrightarrow> pget (fold (\<lambda>(k, v). pset k v) fs m) k = pget m k"
  by (induction fs arbitrary: m) auto

lemma item_seq: "pget (transcriptItem e (item_fields options e)) ''seq'' = VInt (ev_seq e)"
proof -
  have "''seq'' \<notin> fst ` set (item_fields options e)"
    by (simp add: item_fields_def Let_def split: event_type.splits)
  from pget_fold_pset [OF this] show ?thesis by (simp add: transcriptItem_def)
qed

text \<open>The items name the shown events, in their order.\<close>

lemma transcript_seqs:
  "map (\<lambda>i. pget i ''seq'') (TranscriptProject lg options) =
     map (\<lambda>e. VInt (ev_seq e)) (filter (shown options) (lg_events lg))"
proof -
  have "map (\<lambda>i. pget i ''seq'') (transcript_items options es) = map (\<lambda>e. VInt (ev_seq e)) (filter (shown options) es)"
    for es by (induction es) (simp_all add: item_seq)
  then show ?thesis by (simp add: TranscriptProject_def)
qed

text \<open>A size in kilobytes is rounded up.\<close>

lemma byte_size_rounds_up:
  "1024 \<le> n \<Longrightarrow> \<exists>k. formatByteSize n = show_int k @ ''kb'' \<and> 1024 * (k - 1) < n \<and> n \<le> 1024 * k"
  by (intro exI [of _ "(n + 1023) div 1024"]) (auto simp: formatByteSize_def)

end
