(* ===== verification/AgentFacade.thy ===== *)
theory AgentFacade
  imports ManifestBuild LoopProps SessionFile BuiltinTools
begin

text \<open>
  \<^verbatim>\<open>agent.go\<close> and \<^verbatim>\<open>runtime.go\<close>: the loop of a loaded manifest, \<^verbatim>\<open>Chat\<close> and \<^verbatim>\<open>Stream\<close> over it, and the
  runtime that builds or loads a manifest, resumes a session and installs the strategies.
\<close>

section \<open>The loop of a manifest\<close>

text \<open>What the values a manifest chooses do: the projections, providers and ingestors as functions of
  the loop's environment.\<close>

record ('h, 'st, 'w, 'p, 's) loop_parts =
  lp_project :: "('h, 'st, 'w) projection_choice \<Rightarrow> event list \<Rightarrow> 'w \<Rightarrow> projection_error + payload"
  lp_provider :: "'p provider_choice \<Rightarrow> payload \<Rightarrow> 'w \<Rightarrow> (perr + payload) \<times> 'w"
  lp_stream :: "'s provider_choice \<Rightarrow> payload \<Rightarrow> 'w \<Rightarrow> (event_args list \<times> perr option) \<times> 'w"
  lp_ingest :: "ingestor_choice \<Rightarrow> payload \<Rightarrow> 'w \<Rightarrow> (perr + event_args list) \<times> 'w"

definition manifest_Loop ::
    "('h, 'st, 'w, 'p, 's) loop_parts \<Rightarrow> ('h, 'st, 'w, 'p, 's) loaded_manifest \<Rightarrow>
     ('h, 'st, 'w) loop_env \<Rightarrow> ('h, 'st, 'w) loop_env"
where
  "manifest_Loop parts l env =
     env\<lparr>re_registry := (if lm_Registry l \<noteq> [] then Some (lm_Registry l) else None),
         al_project := lp_project parts (lm_Projection l), al_provider := lp_provider parts (lm_Provider l),
         al_stream := map_option (lp_stream parts) (lm_StreamProvider l),
         al_ProviderKind := lm_ProviderKind l, al_ingest := lp_ingest parts (lm_Ingestor l),
         al_MaxTurns := 10, al_retry := None, al_on_stream := None\<rparr>"

section \<open>Chat\<close>

record chat_response =
  re_Text :: string
  re_StopReason :: string

definition reply_of :: "'st slog \<Rightarrow> string \<Rightarrow> chat_response" where
  "reply_of lg reason =
     (let p = (case LastAssistantMessage lg of None \<Rightarrow> [] | Some m \<Rightarrow> ev_payload m)
      in \<lparr>re_Text = stringValue (pget p ''text''), re_StopReason = or_else (stringValue (pget p ''stop_reason'')) reason\<rparr>)"

definition chat_run ::
    "('h, 'st, 'w, 'x) loop_env_scheme \<Rightarrow> payload \<Rightarrow> ('h, 'st, 'w) world \<Rightarrow>
     (run_error + chat_response) \<times> ('h, 'st, 'w) world"
where
  "chat_run env p w =
     (case Run env (append_w env EventUserMessage p w) of
        (Inl e, w1) \<Rightarrow> (Inl e, w1)
      | (Inr reason, w1) \<Rightarrow> (Inr (reply_of (w_log w1) reason), w1))"

definition ChatPayload ::
    "('h, 'st, 'w, 'p, 's) loop_parts \<Rightarrow> ('h, 'st, 'w, 'p, 's) loaded_manifest \<Rightarrow> ('h, 'st, 'w) loop_env \<Rightarrow>
     payload \<Rightarrow> ('h, 'st, 'w) world \<Rightarrow> (run_error + chat_response) \<times> ('h, 'st, 'w) world"
where
  "ChatPayload parts l env p w = chat_run (manifest_Loop parts l env) p w"

definition Chat ::
    "('h, 'st, 'w, 'p, 's) loop_parts \<Rightarrow> ('h, 'st, 'w, 'p, 's) loaded_manifest \<Rightarrow> ('h, 'st, 'w) loop_env \<Rightarrow>
     string \<Rightarrow> ('h, 'st, 'w) world \<Rightarrow> (run_error + chat_response) \<times> ('h, 'st, 'w) world"
where
  "Chat parts l env t w = ChatPayload parts l env [(''text'', VStr t)] w"

definition StreamPayload ::
    "('h, 'st, 'w, 'p, 's) loop_parts \<Rightarrow> ('h, 'st, 'w, 'p, 's) loaded_manifest \<Rightarrow> ('h, 'st, 'w) loop_env \<Rightarrow>
     (event \<Rightarrow> 'w \<Rightarrow> 'w) option \<Rightarrow> payload \<Rightarrow> ('h, 'st, 'w) world \<Rightarrow>
     (run_error + chat_response) \<times> ('h, 'st, 'w) world"
where
  "StreamPayload parts l env onDelta p w =
     (if lm_StreamProvider l = None then ChatPayload parts l env p w
      else chat_run ((manifest_Loop parts l env)\<lparr>al_on_stream := onDelta\<rparr>) p w)"

definition Stream ::
    "('h, 'st, 'w, 'p, 's) loop_parts \<Rightarrow> ('h, 'st, 'w, 'p, 's) loaded_manifest \<Rightarrow> ('h, 'st, 'w) loop_env \<Rightarrow>
     (event \<Rightarrow> 'w \<Rightarrow> 'w) option \<Rightarrow> string \<Rightarrow> ('h, 'st, 'w) world \<Rightarrow>
     (run_error + chat_response) \<times> ('h, 'st, 'w) world"
where
  "Stream parts l env onDelta t w = StreamPayload parts l env onDelta [(''text'', VStr t)] w"

section \<open>The runtime\<close>

record ('h, 'st, 'w, 'p, 's) runtime_config =
  rt_Manifest :: "payload option"
  rt_ManifestPath :: string
  rt_Options :: "('h, 'st, 'w, 'p, 's) manifest_options"
  rt_SessionPath :: string
  rt_Resume :: bool
  rt_Metadata :: payload

definition DefaultAttachmentRoot :: "string option \<Rightarrow> string \<Rightarrow> string" where
  "DefaultAttachmentRoot home sessionPath =
     (if sessionPath \<noteq> []
      then (let ext = path_ext sessionPath
            in if ext \<noteq> [] then trim_suffix sessionPath ext @ ''.attachments'' else sessionPath @ ''.attachments'')
      else go_join (case home of None \<Rightarrow> dot | Some h \<Rightarrow> or_else h dot) ''.harnas/runs/attachments'')"

text \<open>The host of a runtime: the files it reads, the words of JSON errors, the new session's id, and the
  file store of a directory.\<close>

record 'st runtime_host =
  rh_je :: "val \<Rightarrow> string"
  rh_row_error :: "string \<Rightarrow> string"
  rh_syntax :: string
  rh_uuid :: string
  rh_manifest_file :: "string \<Rightarrow> string + string"
  rh_session_path :: "string \<Rightarrow> session_path"
  rh_home :: "string option"
  rh_store :: "string \<Rightarrow> attachment_get"

definition load_for_runtime ::
    "'st runtime_host \<Rightarrow> ('h, 'st, 'w, 'p, 's) runtime_config \<Rightarrow>
     manifest_error + ('h, 'st, 'w, 'p, 's) loaded_manifest"
where
  "load_for_runtime host c =
     (let opts = (case mo_AttachmentStore (rt_Options c) of
                    Some g \<Rightarrow> rt_Options c
                  | None \<Rightarrow> (rt_Options c)\<lparr>mo_AttachmentStore :=
                              Some (rh_store host (DefaultAttachmentRoot (rh_home host) (rt_SessionPath c)))\<rparr>)
      in case rt_Manifest c of
           Some source \<Rightarrow>
             bind_res (ManifestFromMap (rh_je host) (rh_syntax host) source) (BuildManifest (rh_uuid host) opts)
         | None \<Rightarrow>
             LoadManifest (rh_je host) (rh_syntax host) (rh_uuid host) (rh_manifest_file host (rt_ManifestPath c)) opts)"

definition resumed_session ::
    "'st runtime_host \<Rightarrow> ('h, 'st, 'w, 'p, 's) runtime_config \<Rightarrow> 'st session \<Rightarrow> manifest_error + 'st session"
where
  "resumed_session host c s =
     (if rt_Resume c \<and> rt_SessionPath c \<noteq> []
      then (case LoadSession (rh_row_error host) (rh_session_path host (rt_SessionPath c)) of
              Inl e \<Rightarrow> Inl (OtherError e) | Inr s' \<Rightarrow> Inr s')
      else Inr s)"

text \<open>The runtime with the hooks of its session; \<open>closures\<close>, \<open>wrap\<close> and \<open>code\<close> as for
  \<^verbatim>\<open>InstallStrategies\<close>.\<close>

definition NewRuntime ::
    "'st runtime_host \<Rightarrow> ('h \<Rightarrow> nat) \<Rightarrow> (('h, 'st, 'w) strategy_inner \<Rightarrow> (string \<times> 'h) list) \<Rightarrow>
     ('h hook_installation \<Rightarrow> 'h) \<Rightarrow> ('h, 'st, 'w, 'p, 's) runtime_config \<Rightarrow>
     manifest_error + ('h, 'st, 'w, 'p, 's) loaded_manifest \<times> 'h hooks"
where
  "NewRuntime host code closures wrap c =
     (if rt_Manifest c = None \<and> rt_ManifestPath c = []
      then Inl (OtherError ''RuntimeConfig requires either Manifest or ManifestPath'')
      else if rt_Manifest c \<noteq> None \<and> rt_ManifestPath c \<noteq> []
      then Inl (OtherError ''RuntimeConfig accepts Manifest OR ManifestPath, not both'')
      else bind_res (load_for_runtime host c) (\<lambda>l.
             bind_res (resumed_session host c (lm_Session l)) (\<lambda>s.
               let s1 = s\<lparr>ss_metadata := fold (\<lambda>(k, v). pset k v) (rt_Metadata c) (ss_metadata s)\<rparr>;
                   l1 = l\<lparr>lm_Session := s1\<rparr>
               in Inr (l1, InstallStrategies code closures wrap l1 NewHooks))))"

definition AgentFromManifest ::
    "'st runtime_host \<Rightarrow> ('h \<Rightarrow> nat) \<Rightarrow> (('h, 'st, 'w) strategy_inner \<Rightarrow> (string \<times> 'h) list) \<Rightarrow>
     ('h hook_installation \<Rightarrow> 'h) \<Rightarrow> string \<Rightarrow> ('h, 'st, 'w, 'p, 's) manifest_options \<Rightarrow>
     manifest_error + ('h, 'st, 'w, 'p, 's) loaded_manifest \<times> 'h hooks"
where
  "AgentFromManifest host code closures wrap path opts =
     bind_res (LoadManifest (rh_je host) (rh_syntax host) (rh_uuid host) (rh_manifest_file host path) opts)
       (\<lambda>l. Inr (l, InstallStrategies code closures wrap l NewHooks))"

text \<open>An existing session keeps its hooks; the strategies are added to them.\<close>

definition AgentFromSession ::
    "'st runtime_host \<Rightarrow> ('h \<Rightarrow> nat) \<Rightarrow> (('h, 'st, 'w) strategy_inner \<Rightarrow> (string \<times> 'h) list) \<Rightarrow>
     ('h hook_installation \<Rightarrow> 'h) \<Rightarrow> 'st session \<times> 'h hooks \<Rightarrow> string \<Rightarrow> ('h, 'st, 'w, 'p, 's) manifest_options \<Rightarrow>
     manifest_error + ('h, 'st, 'w, 'p, 's) loaded_manifest \<times> 'h hooks"
where
  "AgentFromSession host code closures wrap s path opts =
     bind_res (LoadManifest (rh_je host) (rh_syntax host) (rh_uuid host) (rh_manifest_file host path) opts)
       (\<lambda>l. let l1 = l\<lparr>lm_Session := fst s\<rparr> in Inr (l1, InstallStrategies code closures wrap l1 (snd s)))"

section \<open>What a reply says\<close>

lemma chat_run_reply:
  assumes "runner_extends env" and "chat_run env p w = (Inr r, w1)"
  shows "\<exists>es reason. w_events w1 = w_events w @ es \<and> r = reply_of (w_log w1) reason \<and>
    LastAssistantMessage (w_log w1) =
      (case find_last (\<lambda>e. ev_type e = EventAssistantMessage) es of
         Some m \<Rightarrow> Some m | None \<Rightarrow> LastAssistantMessage (w_log w))"
proof -
  let ?w0 = "append_w env EventUserMessage p w"
  obtain reason where run: "Run env ?w0 = (Inr reason, w1)" "r = reply_of (w_log w1) reason"
    using assms(2) by (auto simp: chat_run_def split: prod.splits sum.splits)
  have "extends ?w0 w1" using Run_extends_body [OF assms(1), of ?w0] run(1) by simp
  moreover have "extends w ?w0" by (simp add: append_w_def)
  ultimately obtain es where es: "w_events w1 = w_events w @ es"
    by (auto simp: extends_def)
  have "find P (rev (xs @ ys)) = (case find P (rev ys) of Some m \<Rightarrow> Some m | None \<Rightarrow> find P (rev xs))"
    for P :: "event \<Rightarrow> bool" and xs ys
    by (induction ys rule: rev_induct) (auto split: option.splits)
  then show ?thesis using es run(2) by (auto simp: LastAssistantMessage_def split: option.splits)
qed

text \<open>A run that adds no answer: the reply is the previous one, stop reason included.\<close>

lemma reply_without_answer:
  assumes "runner_extends env" and "chat_run env p w = (Inr r, w1)"
    and "length (filter (\<lambda>e. ev_type e = EventAssistantMessage) (w_events w1)) =
      length (filter (\<lambda>e. ev_type e = EventAssistantMessage) (w_events w))"
  shows "\<exists>reason. r = reply_of (w_log w) reason"
proof -
  obtain es reason where r: "w_events w1 = w_events w @ es" "r = reply_of (w_log w1) reason"
    and l: "LastAssistantMessage (w_log w1) =
      (case find_last (\<lambda>e. ev_type e = EventAssistantMessage) es of
         Some m \<Rightarrow> Some m | None \<Rightarrow> LastAssistantMessage (w_log w))"
    using chat_run_reply [OF assms(1,2)] by blast
  have "filter (\<lambda>e. ev_type e = EventAssistantMessage) es = []" using assms(3) r(1) by simp
  then have "find_last (\<lambda>e. ev_type e = EventAssistantMessage) es = None"
    unfolding find_last_None by (simp add: filter_empty_conv)
  then have "LastAssistantMessage (w_log w1) = LastAssistantMessage (w_log w)" using l by simp
  with r(2) show ?thesis by (auto simp: reply_of_def)
qed

end
