(* ===== verification/Mcp.thy ===== *)
theory Mcp
  imports Ingestors Streams
begin

text \<open>
  The MCP client of \<^verbatim>\<open>mcp/\<close>: what a tool answers as text (content.go), the descriptors
  (tool\_adapter.go), the state both clients share (client.go), and the client over HTTP
  (http\_client.go).  A method works on the client and the world its transport talks to.
\<close>

section \<open>fmt.Sprint\<close>

text \<open>The verb \<^verbatim>\<open>%v\<close> on the values of \<^verbatim>\<open>encoding/json\<close>: maps in the order of their keys.\<close>

definition sprint_list :: "string list \<Rightarrow> string" where
  "sprint_list xs = ''['' @ str_join xs '' '' @ '']''"

definition sprint_map :: "(string \<times> string) list \<Rightarrow> string" where
  "sprint_map kvs = ''map['' @ str_join (map (\<lambda>(k, t). k @ '':'' @ t) (sort_key fst kvs)) '' '' @ '']''"

fun go_sprint :: "val \<Rightarrow> string"
  and go_sprints :: "val list \<Rightarrow> string list"
  and sprint_members :: "payload \<Rightarrow> (string \<times> string) list"
  and sprint_maps :: "payload list \<Rightarrow> string list" where
  "go_sprint VNil = ''<nil>''"
| "go_sprint (VBool b) = (if b then ''true'' else ''false'')"
| "go_sprint (VInt n) = show_int n"
| "go_sprint (VFloat x) = format_g x"
| "go_sprint (VNum s) = s"
| "go_sprint (VStr s) = s"
| "go_sprint (VList vs) = sprint_list (go_sprints vs)"
| "go_sprint (VStrs ss) = sprint_list ss"
| "go_sprint (VMaps ms) = sprint_list (sprint_maps ms)"
| "go_sprint (VMap m) = sprint_map (sprint_members m)"
| "go_sprints [] = []"
| "go_sprints (v # vs) = go_sprint v # go_sprints vs"
| "sprint_members [] = []"
| "sprint_members ((k, v) # m) = (k, go_sprint v) # sprint_members m"
| "sprint_maps [] = []"
| "sprint_maps (m # ms) = sprint_map (sprint_members m) # sprint_maps ms"

section \<open>content.go\<close>

definition mcp_string :: "val \<Rightarrow> string" where
  "mcp_string v = (case v of VNil \<Rightarrow> [] | VStr s \<Rightarrow> s | _ \<Rightarrow> go_sprint v)"

definition decodedSize :: "string \<Rightarrow> nat" where
  "decodedSize d = (case base64_decode d of None \<Rightarrow> length d | Some b \<Rightarrow> length b)"

definition resource_uri :: "payload \<Rightarrow> string" where
  "resource_uri item =
     (let uri = mcp_string (pget item ''uri'')
      in if uri = [] then mcp_string (pget (asMap (pget item ''resource'')) ''uri'') else uri)"

definition flattenItem :: "payload \<Rightarrow> string" where
  "flattenItem item =
     (let typ = stringValue (pget item ''type'')
      in if typ = ''text'' then mcp_string (pget item ''text'')
         else if typ = ''image''
         then ''[image: '' @ mcp_string (pget item ''mimeType'') @ '', ''
                @ show_nat (decodedSize (mcp_string (pget item ''data''))) @ '' bytes]''
         else if typ = ''resource'' \<or> typ = ''resource_link''
         then ''[resource: '' @ resource_uri item @ '']''
         else ''['' @ typ @ '']'')"

definition Flatten :: "payload list \<Rightarrow> string" where
  "Flatten items = str_join (map flattenItem items) [CHR 0x0A, CHR 0x0A]"

section \<open>errors.go\<close>

text \<open>The three error types with the text of their cause; \<open>McpError\<close> is any other error.\<close>

datatype mcp_error =
    TransportError string "string option"
  | StartupError string "string option"
  | TimeoutError string "string option"
  | McpError string

definition with_cause :: "string \<Rightarrow> string option \<Rightarrow> string" where
  "with_cause m cause = (case cause of None \<Rightarrow> m | Some c \<Rightarrow> m @ '': '' @ c)"

fun mcp_error_text :: "mcp_error \<Rightarrow> string" where
  "mcp_error_text (TransportError m c) = with_cause m c"
| "mcp_error_text (StartupError m c) = with_cause m c"
| "mcp_error_text (TimeoutError m c) = with_cause m c"
| "mcp_error_text (McpError m) = m"

section \<open>tool\_adapter.go\<close>

definition passthroughHandlerName :: "string \<Rightarrow> string" where
  "passthroughHandlerName server = ''mcp_passthrough.'' @ server"

definition ToolDescriptorFromMCP :: "string \<Rightarrow> payload \<Rightarrow> tool_spec" where
  "ToolDescriptorFromMCP server raw =
     (let name = mcp_string (pget raw ''name'')
      in \<lparr>ts_Name = server @ ''.'' @ name, ts_Handler = passthroughHandlerName server,
          ts_Description = mcp_string (pget raw ''description''),
          ts_InputSchema = asMap (pget raw ''inputSchema''),
          ts_Config = [(''mcp_server_name'', VStr server), (''mcp_tool_name'', VStr name)]\<rparr>)"

section \<open>client.go\<close>

record client_state =
  cs_serverName :: string
  cs_toolsLoaded :: bool
  cs_tools :: "tool_spec list"
  cs_degraded :: bool
  cs_degradedError :: "mcp_error option"

text \<open>What both clients have: the next request number and the shared state.\<close>

record mcp_client =
  mc_nextID :: int
  mc_state :: client_state

definition fresh_state :: "string \<Rightarrow> client_state" where
  "fresh_state server =
     \<lparr>cs_serverName = server, cs_toolsLoaded = False, cs_tools = [], cs_degraded = False, cs_degradedError = None\<rparr>"

text \<open>The requests and notifications of a client on its world.\<close>

type_synonym 's mcp_request = "string \<Rightarrow> payload \<Rightarrow> 's \<Rightarrow> (mcp_error + payload) \<times> 's"
type_synonym 's mcp_notify = "string \<Rightarrow> 's \<Rightarrow> mcp_error option \<times> 's"

definition requestPayload :: "int option \<Rightarrow> string \<Rightarrow> payload \<Rightarrow> payload" where
  "requestPayload rid call params =
     [(''jsonrpc'', VStr ''2.0''), (''method'', VStr call), (''params'', VMap params)]
       @ (case rid of None \<Rightarrow> [] | Some n \<Rightarrow> [(''id'', VInt n)])"

definition initializeParams :: payload where
  "initializeParams =
     [(''protocolVersion'', VStr ''2024-11-05''),
      (''clientInfo'', VMap [(''name'', VStr ''harnas-go''), (''version'', VStr ''0.17.0'')]),
      (''capabilities'', VMap [])]"

text \<open>The answer to a request: an error member, or the result.\<close>

definition rpc_answer :: "payload \<Rightarrow> mcp_error + payload" where
  "rpc_answer response =
     (if pget response ''error'' \<noteq> VNil then Inl (TransportError (go_sprint (pget response ''error'')) None)
      else Inr (asMap (pget response ''result'')))"

definition InitializeSession :: "'s mcp_request \<Rightarrow> 's mcp_notify \<Rightarrow> 's \<Rightarrow> mcp_error option \<times> 's" where
  "InitializeSession req notif s =
     (case req ''initialize'' initializeParams s of
        (Inl e, s1) \<Rightarrow> (Some e, s1)
      | (Inr r, s1) \<Rightarrow> notif ''notifications/initialized'' s1)"

definition listTools :: "'s mcp_request \<Rightarrow> 's \<Rightarrow> (mcp_error + payload list) \<times> 's" where
  "listTools req s =
     (case req ''tools/list'' [] s of
        (Inl e, s1) \<Rightarrow> (Inl e, s1)
      | (Inr r, s1) \<Rightarrow> (Inr (keep_maps (asSlice (pget r ''tools''))), s1))"

definition markDegraded :: "mcp_error \<Rightarrow> 'x mcp_client_scheme \<Rightarrow> 'x mcp_client_scheme" where
  "markDegraded e c =
     c\<lparr>mc_state := (mc_state c)\<lparr>cs_degraded := True, cs_degradedError := Some e, cs_toolsLoaded := True\<rparr>\<rparr>"

definition loadTools ::
    "('x mcp_client_scheme \<times> 'w) mcp_request \<Rightarrow> ('x mcp_client_scheme \<times> 'w) mcp_notify \<Rightarrow>
     'x mcp_client_scheme \<times> 'w \<Rightarrow> tool_spec list \<times> 'x mcp_client_scheme \<times> 'w"
where
  "loadTools req notif s =
     (if cs_toolsLoaded (mc_state (fst s)) then (cs_tools (mc_state (fst s)), s)
      else case InitializeSession req notif s of
             (Some e, (c1, w1)) \<Rightarrow> ([], markDegraded e c1, w1)
           | (None, s1) \<Rightarrow>
               (case listTools req s1 of
                  (Inl e, (c2, w2)) \<Rightarrow> ([], markDegraded e c2, w2)
                | (Inr raw, (c2, w2)) \<Rightarrow>
                    let tools = map (ToolDescriptorFromMCP (cs_serverName (mc_state c2))) raw
                    in (tools, c2\<lparr>mc_state := (mc_state c2)\<lparr>cs_tools := tools, cs_toolsLoaded := True\<rparr>\<rparr>, w2)))"

definition degradedCallError :: "client_state \<Rightarrow> mcp_error option" where
  "degradedCallError st =
     (if \<not> cs_degraded st then None
      else Some (McpError (''MCP server '' @ go_quote (cs_serverName st)
                   @ '' is in degraded state; tools were not loaded'')))"

definition CallTool ::
    "('x mcp_client_scheme \<times> 'w) mcp_request \<Rightarrow> string \<Rightarrow> payload \<Rightarrow> 'x mcp_client_scheme \<times> 'w \<Rightarrow>
     (mcp_error + string) \<times> 'x mcp_client_scheme \<times> 'w"
where
  "CallTool req name arguments s =
     (case degradedCallError (mc_state (fst s)) of
        Some e \<Rightarrow> (Inl e, s)
      | None \<Rightarrow>
          (case req ''tools/call'' [(''name'', VStr name), (''arguments'', VMap arguments)] s of
             (Inl e, s1) \<Rightarrow> (Inl e, s1)
           | (Inr r, s1) \<Rightarrow> (Inr (Flatten (keep_maps (asSlice (pget r ''content'')))), s1)))"

text \<open>The handlers a client offers to a manifest: one, under the name its descriptors carry.\<close>

definition toolHandlers ::
    "('x mcp_client_scheme \<times> 'w) mcp_request \<Rightarrow> string \<Rightarrow>
     (string \<times> (payload \<Rightarrow> payload \<Rightarrow> 'x mcp_client_scheme \<times> 'w \<Rightarrow>
        (mcp_error + string) \<times> 'x mcp_client_scheme \<times> 'w)) list"
where
  "toolHandlers req server =
     [(passthroughHandlerName server,
       \<lambda>args config. CallTool req (stringValue (pget config ''mcp_tool_name'')) args)]"

section \<open>http\_client.go\<close>

record http_client = mcp_client +
  hc_url :: string
  hc_headers :: "(string \<times> string) list"

text \<open>The HTTP client below: an exchange gives the status with the body as far as it was read, or fails,
  and then the deadline may be what ended it.\<close>

datatype http_failure = DeadlineExceeded string | RequestFailed string

record 'w mcp_http =
  mh_do :: "http_request \<Rightarrow> 'w \<Rightarrow> (http_failure + (int \<times> string)) \<times> 'w"
  mh_url_error :: "string \<Rightarrow> string option"
  mh_json_error :: "string \<Rightarrow> string"

definition NewHTTPClient :: "string \<Rightarrow> string \<Rightarrow> (string \<times> string) list \<Rightarrow> http_client" where
  "NewHTTPClient url server headers =
     \<lparr>mc_nextID = 1, mc_state = fresh_state server, hc_url = url, hc_headers = headers\<rparr>"

definition http_post :: "'w mcp_http \<Rightarrow> payload \<Rightarrow> http_client \<times> 'w \<Rightarrow> (mcp_error + string) \<times> http_client \<times> 'w" where
  "http_post hx p s =
     (case json_marshal True (VMap p) of
        Inl m \<Rightarrow> (Inl (McpError m), s)
      | Inr text \<Rightarrow>
          (case mh_url_error hx (hc_url (fst s)) of
             Some e \<Rightarrow> (Inl (TransportError ''invalid MCP URL'' (Some e)), s)
           | None \<Rightarrow>
               (case mh_do hx \<lparr>hq_url = hc_url (fst s),
                               hq_headers = (''Content-Type'', ''application/json'') # hc_headers (fst s),
                               hq_body = text\<rparr> (snd s) of
                  (Inl (DeadlineExceeded e), w) \<Rightarrow>
                    (Inl (TimeoutError ''timed out waiting for MCP response'' (Some e)), fst s, w)
                | (Inl (RequestFailed e), w) \<Rightarrow>
                    (Inl (TransportError ''MCP HTTP request failed'' (Some e)), fst s, w)
                | (Inr (status, body), w) \<Rightarrow>
                    if status < 200 \<or> 299 < status
                    then (Inl (TransportError (''HTTP '' @ show_int status @ '': '' @ body) None), fst s, w)
                    else (Inr body, fst s, w))))"

definition take_id :: "'x mcp_client_scheme \<Rightarrow> 'x mcp_client_scheme" where
  "take_id c = c\<lparr>mc_nextID := wrap64 (mc_nextID c + 1)\<rparr>"

definition http_rpc :: "'w mcp_http \<Rightarrow> (http_client \<times> 'w) mcp_request" where
  "http_rpc hx call params s =
     (case http_post hx (requestPayload (Some (mc_nextID (fst s))) call params) (take_id (fst s), snd s) of
        (Inl e, s1) \<Rightarrow> (Inl e, s1)
      | (Inr body, s1) \<Rightarrow>
          (case unmarshal_object body of
             None \<Rightarrow> (Inl (TransportError ''malformed JSON response'' (Some (mh_json_error hx body))), s1)
           | Some m \<Rightarrow> (rpc_answer (opt_payload m), s1)))"

definition http_notify :: "'w mcp_http \<Rightarrow> (http_client \<times> 'w) mcp_notify" where
  "http_notify hx call s =
     (case http_post hx (requestPayload None call []) s of (Inl e, s1) \<Rightarrow> (Some e, s1) | (Inr b, s1) \<Rightarrow> (None, s1))"

definition http_InitializeSession :: "'w mcp_http \<Rightarrow> http_client \<times> 'w \<Rightarrow> mcp_error option \<times> http_client \<times> 'w" where
  "http_InitializeSession hx = InitializeSession (http_rpc hx) (http_notify hx)"

definition http_listTools :: "'w mcp_http \<Rightarrow> http_client \<times> 'w \<Rightarrow> (mcp_error + payload list) \<times> http_client \<times> 'w" where
  "http_listTools hx = listTools (http_rpc hx)"

definition http_Tools :: "'w mcp_http \<Rightarrow> http_client \<times> 'w \<Rightarrow> tool_spec list \<times> http_client \<times> 'w" where
  "http_Tools hx = loadTools (http_rpc hx) (http_notify hx)"

definition http_CallTool ::
    "'w mcp_http \<Rightarrow> string \<Rightarrow> payload \<Rightarrow> http_client \<times> 'w \<Rightarrow> (mcp_error + string) \<times> http_client \<times> 'w" where
  "http_CallTool hx = CallTool (http_rpc hx)"

definition http_ToolHandlers ::
    "'w mcp_http \<Rightarrow> http_client \<Rightarrow>
     (string \<times> (payload \<Rightarrow> payload \<Rightarrow> http_client \<times> 'w \<Rightarrow> (mcp_error + string) \<times> http_client \<times> 'w)) list" where
  "http_ToolHandlers hx c = toolHandlers (http_rpc hx) (cs_serverName (mc_state c))"

end
