(* ===== verification/McpStdio.thy ===== *)
theory McpStdio
  imports Mcp
begin

text \<open>
  \<^verbatim>\<open>mcp/stdio_client.go\<close>: the client of a server that is a child process.  The state holds the requests
  that are pending and the answers that lie in their channels; the read loop is driven by the lines
  the process prints.  \<^verbatim>\<open>mcp.Connect\<close> chooses between the clients.
\<close>

section \<open>The client\<close>

datatype stdio_response = StdioBody payload | StdioError mcp_error

record stdio_client = mcp_client +
  sc_command :: string
  sc_args :: "string list"
  sc_env :: "(string \<times> string) list"
  sc_pending :: "int list"
  sc_channels :: "(int \<times> stdio_response) list"
  sc_closed :: bool
  sc_reading :: bool

text \<open>What the read loop meets: a line, the error of the scanner, or the end of the output.\<close>

datatype stdio_input = StdoutLine string | StdoutFailed string | StdoutEnd

text \<open>What happens while a request waits: the inputs, and whether the timer (\<open>Some None\<close>) or the context (with
  its error) ends the wait before an answer is taken.\<close>

record stdio_wait =
  wt_inputs :: "stdio_input list"
  wt_timeout :: "string option option"

record 'w stdio_env =
  se_launch :: "string \<Rightarrow> string list \<Rightarrow> (string \<times> string) list \<Rightarrow> mcp_error option"
  se_write :: "string \<Rightarrow> 'w \<Rightarrow> string option \<times> 'w"
  se_wait :: "int \<Rightarrow> 'w \<Rightarrow> stdio_wait \<times> 'w"
  se_json_error :: "string \<Rightarrow> string"

text \<open>\<open>se_launch\<close> is \<^verbatim>\<open>spawn\<close> up to the start of the read loop: the pipes and \<^verbatim>\<open>cmd.Start\<close>.\<close>

definition NewStdioClient ::
    "'w stdio_env \<Rightarrow> string \<Rightarrow> string list \<Rightarrow> string \<Rightarrow> (string \<times> string) list \<Rightarrow> mcp_error + stdio_client" where
  "NewStdioClient sx command args server env =
     (case se_launch sx command args env of
        Some e \<Rightarrow> Inl e
      | None \<Rightarrow> Inr \<lparr>mc_nextID = 1, mc_state = fresh_state server, sc_command = command, sc_args = args,
                     sc_env = env, sc_pending = [], sc_channels = [], sc_closed = False, sc_reading = True\<rparr>)"

section \<open>The read loop\<close>

definition failPending :: "mcp_error \<Rightarrow> stdio_client \<Rightarrow> stdio_client" where
  "failPending e c =
     c\<lparr>sc_closed := True, sc_channels := sc_channels c @ map (\<lambda>i. (i, StdioError e)) (sc_pending c),
       sc_pending := []\<rparr>"

definition stop_reading :: "mcp_error \<Rightarrow> stdio_client \<Rightarrow> stdio_client" where
  "stop_reading e c = (failPending e c)\<lparr>sc_reading := False\<rparr>"

definition deletePending :: "int \<Rightarrow> stdio_client \<Rightarrow> stdio_client" where
  "deletePending i c = c\<lparr>sc_pending := removeAll i (sc_pending c)\<rparr>"

definition deliver :: "int \<Rightarrow> payload \<Rightarrow> stdio_client \<Rightarrow> stdio_client" where
  "deliver i response c =
     (if i \<in> set (sc_pending c)
      then (deletePending i c)\<lparr>sc_channels := sc_channels c @ [(i, StdioBody response)]\<rparr>
      else c)"

text \<open>\<^verbatim>\<open>bufio.MaxScanTokenSize\<close>, the scanner's limit for a line.\<close>

definition line_limit64 :: nat where "line_limit64 = 64 * 1024"

definition read_response :: "string \<Rightarrow> payload option option" where
  "read_response line = unmarshal_object (drop_cr line)"

fun readLoop_step :: "(string \<Rightarrow> string) \<Rightarrow> stdio_input \<Rightarrow> stdio_client \<Rightarrow> stdio_client" where
  "readLoop_step je (StdoutLine line) c =
     (if \<not> sc_reading c then c
      else if line_limit64 \<le> length line
      then stop_reading (TransportError ''MCP subprocess stdout failed'' (Some too_long)) c
      else case read_response line of
             None \<Rightarrow> stop_reading (TransportError ''malformed JSON response'' (Some (je (drop_cr line)))) c
           | Some m \<Rightarrow>
               (case pget (opt_payload m) ''id'' of
                  VFloat x \<Rightarrow> deliver (int_of_float x) (opt_payload m) c
                | _ \<Rightarrow> c))"
| "readLoop_step je (StdoutFailed e) c =
     (if \<not> sc_reading c then c else stop_reading (TransportError ''MCP subprocess stdout failed'' (Some e)) c)"
| "readLoop_step je StdoutEnd c =
     (if \<not> sc_reading c then c else stop_reading (TransportError ''MCP subprocess exited'' None) c)"

definition readLoop :: "(string \<Rightarrow> string) \<Rightarrow> stdio_input list \<Rightarrow> stdio_client \<Rightarrow> stdio_client" where
  "readLoop je xs c = fold (readLoop_step je) xs c"

section \<open>Requests\<close>

definition stdio_write :: "'w stdio_env \<Rightarrow> payload \<Rightarrow> stdio_client \<times> 'w \<Rightarrow> mcp_error option \<times> stdio_client \<times> 'w" where
  "stdio_write sx p s =
     (case json_marshal True (VMap p) of
        Inl m \<Rightarrow> (Some (McpError m), s)
      | Inr text \<Rightarrow>
          if sc_closed (fst s) then (Some (TransportError ''MCP subprocess is closed'' None), s)
          else (case se_write sx (text @ [CHR 0x0A]) (snd s) of
                  (Some e, w) \<Rightarrow> (Some (TransportError ''MCP subprocess is not writable'' (Some e)), fst s, w)
                | (None, w) \<Rightarrow> (None, fst s, w)))"

definition register :: "stdio_client \<Rightarrow> stdio_client" where
  "register c = (take_id c)\<lparr>sc_pending := sc_pending c @ [mc_nextID c]\<rparr>"

text \<open>The request returns, and its channel with it.\<close>

definition drop_channel :: "int \<Rightarrow> stdio_client \<Rightarrow> stdio_client" where
  "drop_channel i c = c\<lparr>sc_channels := AList.delete i (sc_channels c)\<rparr>"

definition stdio_timeout :: "int \<Rightarrow> string option option \<Rightarrow> mcp_error" where
  "stdio_timeout i t =
     (case t of
        Some (Some e) \<Rightarrow> TimeoutError ''timed out waiting for MCP response'' (Some e)
      | _ \<Rightarrow> TimeoutError (''timed out waiting for MCP response '' @ show_int i) None)"

definition stdio_answer :: "stdio_response \<Rightarrow> mcp_error + payload" where
  "stdio_answer r = (case r of StdioError e \<Rightarrow> Inl e | StdioBody m \<Rightarrow> rpc_answer m)"

text \<open>\<^verbatim>\<open>request\<close>.  A wait that no answer ends is ended by the timer.\<close>

definition stdio_rpc :: "'w stdio_env \<Rightarrow> (stdio_client \<times> 'w) mcp_request" where
  "stdio_rpc sx call params s =
     (let i = mc_nextID (fst s)
      in case stdio_write sx (requestPayload (Some i) call params) (register (fst s), snd s) of
           (Some e, (c1, w1)) \<Rightarrow> (Inl e, deletePending i c1, w1)
         | (None, (c1, w1)) \<Rightarrow>
             (case se_wait sx i w1 of (wt, w2) \<Rightarrow>
                let c2 = readLoop (se_json_error sx) (wt_inputs wt) c1
                in case (wt_timeout wt, map_of (sc_channels c2) i) of
                     (None, Some r) \<Rightarrow> (stdio_answer r, drop_channel i c2, w2)
                   | (t, r) \<Rightarrow> (Inl (stdio_timeout i t), drop_channel i (deletePending i c2), w2)))"

definition stdio_notify :: "'w stdio_env \<Rightarrow> (stdio_client \<times> 'w) mcp_notify" where
  "stdio_notify sx call s = stdio_write sx (requestPayload None call []) s"

definition stdio_Close :: "stdio_client \<Rightarrow> stdio_client" where
  "stdio_Close c = c\<lparr>sc_closed := True\<rparr>"

definition stdio_InitializeSession :: "'w stdio_env \<Rightarrow> stdio_client \<times> 'w \<Rightarrow> mcp_error option \<times> stdio_client \<times> 'w" where
  "stdio_InitializeSession sx = InitializeSession (stdio_rpc sx) (stdio_notify sx)"

definition stdio_listTools :: "'w stdio_env \<Rightarrow> stdio_client \<times> 'w \<Rightarrow> (mcp_error + payload list) \<times> stdio_client \<times> 'w" where
  "stdio_listTools sx = listTools (stdio_rpc sx)"

definition stdio_Tools :: "'w stdio_env \<Rightarrow> stdio_client \<times> 'w \<Rightarrow> tool_spec list \<times> stdio_client \<times> 'w" where
  "stdio_Tools sx = loadTools (stdio_rpc sx) (stdio_notify sx)"

definition stdio_CallTool ::
    "'w stdio_env \<Rightarrow> string \<Rightarrow> payload \<Rightarrow> stdio_client \<times> 'w \<Rightarrow> (mcp_error + string) \<times> stdio_client \<times> 'w" where
  "stdio_CallTool sx = CallTool (stdio_rpc sx)"

definition stdio_ToolHandlers ::
    "'w stdio_env \<Rightarrow> stdio_client \<Rightarrow>
     (string \<times> (payload \<Rightarrow> payload \<Rightarrow> stdio_client \<times> 'w \<Rightarrow> (mcp_error + string) \<times> stdio_client \<times> 'w)) list" where
  "stdio_ToolHandlers sx c = toolHandlers (stdio_rpc sx) (cs_serverName (mc_state c))"

section \<open>Connect\<close>

record connect_options =
  co_URL :: string
  co_Command :: string
  co_Args :: "string list"
  co_ServerName :: string
  co_Headers :: "(string \<times> string) list"
  co_Env :: "(string \<times> string) list"

datatype connected = ConnectedHTTP http_client | ConnectedStdio stdio_client

definition Connect :: "'w stdio_env \<Rightarrow> connect_options \<Rightarrow> mcp_error + connected" where
  "Connect sx opts =
     (if co_ServerName opts = [] then Inl (McpError ''mcp.Connect: server name is required'')
      else if co_URL opts \<noteq> []
      then Inr (ConnectedHTTP (NewHTTPClient (co_URL opts) (co_ServerName opts) (co_Headers opts)))
      else if co_Command opts \<noteq> []
      then map_sum id ConnectedStdio
             (NewStdioClient sx (co_Command opts) (co_Args opts) (co_ServerName opts) (co_Env opts))
      else Inl (McpError ''mcp.Connect: must provide either URL or Command''))"

section \<open>Callers and the read loop together\<close>

text \<open>
  Goroutines call the client at the same time, and each section under the lock is one step: a request
  takes its number and registers, its write succeeds (and it waits) or fails, the read loop takes an
  input, a request takes its answer or gives up, the client is closed.  \<open>sr_waiting\<close> are the requests
  between write and return, \<open>sr_read\<close> is what the read loop has taken.
\<close>

record stdio_run =
  sr_client :: stdio_client
  sr_writing :: "int list"
  sr_waiting :: "int list"
  sr_read :: "stdio_input list"

inductive stdio_step :: "(string \<Rightarrow> string) \<Rightarrow> stdio_run \<Rightarrow> stdio_run \<Rightarrow> bool" for je where
  Register: "stdio_step je s (s\<lparr>sr_client := register (sr_client s),
      sr_writing := sr_writing s @ [mc_nextID (sr_client s)]\<rparr>)"
| Written: "i \<in> set (sr_writing s) \<Longrightarrow> \<not> sc_closed (sr_client s) \<Longrightarrow>
    stdio_step je s (s\<lparr>sr_writing := removeAll i (sr_writing s), sr_waiting := sr_waiting s @ [i]\<rparr>)"
| NotWritten: "i \<in> set (sr_writing s) \<Longrightarrow>
    stdio_step je s (s\<lparr>sr_client := drop_channel i (deletePending i (sr_client s)), sr_writing := removeAll i (sr_writing s)\<rparr>)"
| Input: "stdio_step je s (s\<lparr>sr_client := readLoop_step je x (sr_client s), sr_read := sr_read s @ [x]\<rparr>)"
| Taken: "i \<in> set (sr_waiting s) \<Longrightarrow> map_of (sc_channels (sr_client s)) i = Some r \<Longrightarrow>
    stdio_step je s (s\<lparr>sr_client := drop_channel i (sr_client s), sr_waiting := removeAll i (sr_waiting s)\<rparr>)"
| GivenUp: "i \<in> set (sr_waiting s) \<Longrightarrow>
    stdio_step je s (s\<lparr>sr_client := drop_channel i (deletePending i (sr_client s)), sr_waiting := removeAll i (sr_waiting s)\<rparr>)"
| Closed: "stdio_step je s (s\<lparr>sr_client := stdio_Close (sr_client s)\<rparr>)"

inductive_cases stdio_stepE: "stdio_step je s s'"

end
