(* ===== verification/McpProps.thy ===== *)
theory McpProps
  imports McpStdio
begin

text \<open>
  What the MCP clients promise: the shared state as lemmas over any transport (locale \<open>mcp_transport\<close>,
  interpreted by both clients), and the answers of a child process under every interleaving of its
  callers with the read loop.
\<close>

section \<open>The shared state\<close>

text \<open>Requests and notifications leave the shared state alone.\<close>

locale mcp_transport =
  fixes req :: "('x mcp_client_scheme \<times> 'w) mcp_request"
    and notif :: "('x mcp_client_scheme \<times> 'w) mcp_notify"
  assumes req_keeps: "req call p s = (r, s') \<Longrightarrow> mc_state (fst s') = mc_state (fst s)"
    and notif_keeps: "notif call s = (e, s') \<Longrightarrow> mc_state (fst s') = mc_state (fst s)"
begin

lemma initialize_keeps: "InitializeSession req notif s = (e, s') \<Longrightarrow> mc_state (fst s') = mc_state (fst s)"
  unfolding InitializeSession_def by (auto split: prod.splits sum.splits dest!: req_keeps notif_keeps)

lemma list_keeps: "listTools req s = (r, s') \<Longrightarrow> mc_state (fst s') = mc_state (fst s)"
  by (auto simp: listTools_def split: prod.splits sum.splits dest!: req_keeps)

lemma call_keeps: "CallTool req name args s = (r, s') \<Longrightarrow> mc_state (fst s') = mc_state (fst s)"
  by (auto simp: CallTool_def split: option.splits prod.splits sum.splits dest!: req_keeps)

lemma load_outcome:
  assumes "loadTools req notif s = (ts, s')" and "\<not> cs_toolsLoaded (mc_state (fst s))"
    and "\<not> cs_degraded (mc_state (fst s))" and "cs_tools (mc_state (fst s)) = []"
  shows "cs_toolsLoaded (mc_state (fst s')) \<and> cs_tools (mc_state (fst s')) = ts \<and>
    cs_serverName (mc_state (fst s')) = cs_serverName (mc_state (fst s)) \<and>
    (if cs_degraded (mc_state (fst s')) then ts = []
     else \<exists>raw. ts = map (ToolDescriptorFromMCP (cs_serverName (mc_state (fst s)))) raw)"
  using assms
  by (auto simp: loadTools_def markDegraded_def Let_def split: prod.splits option.splits sum.splits
    dest!: initialize_keeps list_keeps)

text \<open>Loading again neither changes anything nor sends anything.\<close>

lemma load_again:
  assumes "loadTools req notif s = (ts, s')" and "\<not> cs_toolsLoaded (mc_state (fst s))"
    and "\<not> cs_degraded (mc_state (fst s))" and "cs_tools (mc_state (fst s)) = []"
  shows "loadTools req notif s' = (ts, s')"
  using load_outcome [OF assms] by (simp add: loadTools_def)

lemma degraded_refuses:
  "cs_degraded (mc_state (fst s)) \<Longrightarrow> CallTool req name args s = (Inl (the (degradedCallError (mc_state (fst s)))), s)"
  by (simp add: CallTool_def degradedCallError_def)

text \<open>A descriptor and the handler table lead a call to the tool it came from.\<close>

lemma descriptor_call:
  assumes "t = ToolDescriptorFromMCP server raw"
  shows "\<exists>h. map_of (toolHandlers req server) (ts_Handler t) = Some h \<and>
    (\<forall>args. h args (ts_Config t) = CallTool req (mcp_string (pget raw ''name'')) args)"
  by (simp add: assms toolHandlers_def ToolDescriptorFromMCP_def Let_def stringValue_def)

end

lemma http_post_keeps: "http_post hx p s = (r, s') \<Longrightarrow> fst s' = fst s"
  by (auto simp: http_post_def split: sum.splits option.splits prod.splits http_failure.splits if_splits)

lemma http_rpc_keeps: "http_rpc hx call p s = (r, s') \<Longrightarrow> mc_state (fst s') = mc_state (fst s)"
  by (auto simp: http_rpc_def take_id_def split: sum.splits option.splits prod.splits dest!: http_post_keeps)

lemma http_notify_keeps: "http_notify hx call s = (e, s') \<Longrightarrow> mc_state (fst s') = mc_state (fst s)"
  by (auto simp: http_notify_def split: sum.splits prod.splits dest!: http_post_keeps)

interpretation http: mcp_transport "http_rpc hx" "http_notify hx" for hx
  by unfold_locales (blast intro: http_rpc_keeps http_notify_keeps)+

lemma stdio_write_keeps: "stdio_write sx p s = (r, s') \<Longrightarrow> fst s' = fst s"
  by (auto simp: stdio_write_def split: sum.splits option.splits prod.splits if_splits)

lemma fail_state [simp]: "mc_state (failPending e c) = mc_state c" "mc_state (stop_reading e c) = mc_state c"
  "mc_state (deletePending i c) = mc_state c" "mc_state (deliver i m c) = mc_state c"
  "mc_state (register c) = mc_state c" "mc_state (drop_channel i c) = mc_state c"
  by (simp_all add: failPending_def stop_reading_def deletePending_def deliver_def register_def take_id_def
    drop_channel_def)

lemma step_state [simp]: "mc_state (readLoop_step je x c) = mc_state c"
  by (cases x) (auto split: option.splits val.splits)

lemma readLoop_state [simp]: "mc_state (readLoop je xs c) = mc_state c"
  unfolding readLoop_def by (induction xs arbitrary: c) simp_all

lemma stdio_rpc_keeps: "stdio_rpc sx call p s = (r, s') \<Longrightarrow> mc_state (fst s') = mc_state (fst s)"
  by (auto simp: stdio_rpc_def Let_def split: option.splits prod.splits dest!: stdio_write_keeps)

interpretation stdio: mcp_transport "stdio_rpc sx" "stdio_notify sx" for sx
  by unfold_locales (auto dest: stdio_rpc_keeps stdio_write_keeps simp: stdio_notify_def)

section \<open>Every request gets its own answer\<close>

text \<open>A run starts with a new client.  \<open>stdio_after n\<close>: the states \<open>n\<close> steps later.\<close>

definition run_of :: "stdio_client \<Rightarrow> stdio_run" where
  "run_of c = \<lparr>sr_client = c, sr_writing = [], sr_waiting = [], sr_read = []\<rparr>"

inductive stdio_after :: "(string \<Rightarrow> string) \<Rightarrow> stdio_run \<Rightarrow> nat \<Rightarrow> stdio_run \<Rightarrow> bool" for je s0 where
  Start: "stdio_after je s0 0 s0"
| Step: "stdio_after je s0 n s \<Longrightarrow> stdio_step je s s' \<Longrightarrow> stdio_after je s0 (Suc n) s'"

text \<open>Where an answer in a channel comes from: a line with the number of the request, or the end of the read
  loop.\<close>

definition answer_to :: "stdio_input list \<Rightarrow> bool \<Rightarrow> int \<Rightarrow> stdio_response \<Rightarrow> bool" where
  "answer_to read alive i r \<longleftrightarrow>
     (case r of
        StdioBody m \<Rightarrow> \<exists>line x. StdoutLine line \<in> set read \<and> map_option opt_payload (read_response line) = Some m \<and>
          pget m ''id'' = VFloat x \<and> int_of_float x = i
      | StdioError e \<Rightarrow> \<not> alive)"

definition channel_keys :: "stdio_client \<Rightarrow> int set" where
  "channel_keys c = fst ` set (sc_channels c)"

text \<open>Each request has a number of its own, and is pending or has one answer; answers come from where they
  should; and when the read loop has ended nothing waits without an answer.\<close>

definition ids_inv :: "nat \<Rightarrow> stdio_run \<Rightarrow> bool" where
  "ids_inv n s \<longleftrightarrow>
     (let c = sr_client s; active = set (sr_writing s) \<union> set (sr_waiting s)
      in distinct (sr_writing s @ sr_waiting s) \<and> distinct (sc_pending c) \<and> distinct (map fst (sc_channels c)) \<and>
         set (sc_pending c) \<inter> channel_keys c = {} \<and> active = set (sc_pending c) \<union> channel_keys c \<and>
         0 < mc_nextID c \<and> mc_nextID c \<le> 1 + int n \<and> (\<forall>i \<in> active. i < mc_nextID c))"

definition origin_inv :: "stdio_run \<Rightarrow> bool" where
  "origin_inv s \<longleftrightarrow> (\<forall>i r. (i, r) \<in> set (sc_channels (sr_client s)) \<longrightarrow> answer_to (sr_read s) (sc_reading (sr_client s)) i r)"

definition ended_inv :: "stdio_run \<Rightarrow> bool" where
  "ended_inv s \<longleftrightarrow>
     (\<not> sc_reading (sr_client s) \<longrightarrow> sc_closed (sr_client s) \<and> set (sr_waiting s) \<subseteq> channel_keys (sr_client s))"

definition run_inv :: "nat \<Rightarrow> stdio_run \<Rightarrow> bool" where
  "run_inv n s \<longleftrightarrow> ids_inv n s \<and> origin_inv s \<and> ended_inv s"

lemmas run_invs = run_inv_def ids_inv_def origin_inv_def ended_inv_def Let_def

lemma run_inv_new: "NewStdioClient sx command args server env = Inr c \<Longrightarrow> run_inv 0 (run_of c)"
  by (auto simp: NewStdioClient_def run_invs run_of_def channel_keys_def split: option.splits)

lemma answer_to_more: "answer_to read alive i r \<Longrightarrow> answer_to (read @ xs) alive i r"
  by (auto simp: answer_to_def split: stdio_response.splits)

lemma answer_to_dead: "answer_to read True i r \<Longrightarrow> answer_to read alive i r"
  by (auto simp: answer_to_def split: stdio_response.splits)

text \<open>One step of the read loop.\<close>

lemma stop_channels:
  "channel_keys (stop_reading e c) = channel_keys c \<union> set (sc_pending c)"
  "sc_pending (stop_reading e c) = []" "mc_nextID (stop_reading e c) = mc_nextID c"
  "\<not> sc_reading (stop_reading e c)" "sc_closed (stop_reading e c)"
  "distinct (map fst (sc_channels (stop_reading e c))) \<longleftrightarrow>
     distinct (map fst (sc_channels c)) \<and> distinct (sc_pending c) \<and> channel_keys c \<inter> set (sc_pending c) = {}"
  "(i, r) \<in> set (sc_channels (stop_reading e c)) \<longleftrightarrow> (i, r) \<in> set (sc_channels c) \<or> (i \<in> set (sc_pending c) \<and> r = StdioError e)"
  by (auto simp: stop_reading_def failPending_def channel_keys_def comp_def image_Un image_image)

lemma stop_inv:
  assumes "run_inv n s" and "sc_reading (sr_client s)"
  shows "run_inv (Suc n) (s\<lparr>sr_client := stop_reading e (sr_client s), sr_read := sr_read s @ [x]\<rparr>)"
proof -
  have "answer_to (sr_read s @ [x]) False i r" if "(i, r) \<in> set (sc_channels (sr_client s))" for i r
  proof -
    have "answer_to (sr_read s) True i r" using assms that by (simp add: run_invs)
    then show ?thesis by (blast intro: answer_to_more answer_to_dead)
  qed
  then show ?thesis
    using assms by (auto simp: run_invs stop_channels) (simp add: answer_to_def)
qed

lemma deliver_channels:
  assumes "i \<in> set (sc_pending c)"
  shows "channel_keys (deliver i m c) = insert i (channel_keys c)"
    and "sc_pending (deliver i m c) = removeAll i (sc_pending c)"
    and "mc_nextID (deliver i m c) = mc_nextID c" and "sc_reading (deliver i m c) = sc_reading c"
    and "distinct (map fst (sc_channels (deliver i m c))) \<longleftrightarrow>
      distinct (map fst (sc_channels c)) \<and> i \<notin> channel_keys c"
    and "(j, r) \<in> set (sc_channels (deliver i m c)) \<longleftrightarrow> (j, r) \<in> set (sc_channels c) \<or> (j = i \<and> r = StdioBody m)"
  using assms by (auto simp: deliver_def deletePending_def channel_keys_def image_iff)

lemma skip_inv: "run_inv n s \<Longrightarrow> run_inv (Suc n) (s\<lparr>sr_read := sr_read s @ [x]\<rparr>)"
  by (auto simp: run_invs answer_to_more)

lemma deliver_inv:
  assumes "run_inv n s" and "map_option opt_payload (read_response line) = Some m"
    and "pget m ''id'' = VFloat y" and "sc_reading (sr_client s)"
  shows "run_inv (Suc n) (s\<lparr>sr_client := deliver (int_of_float y) m (sr_client s), sr_read := sr_read s @ [StdoutLine line]\<rparr>)"
proof (cases "int_of_float y \<in> set (sc_pending (sr_client s))")
  case False
  then have "deliver (int_of_float y) m (sr_client s) = sr_client s" by (simp add: deliver_def)
  then show ?thesis using skip_inv [OF assms(1)] by simp
next
  case True
  note d = deliver_channels [OF True, where m = m]
  let ?s = "s\<lparr>sr_client := deliver (int_of_float y) m (sr_client s), sr_read := sr_read s @ [StdoutLine line]\<rparr>"
  have new: "answer_to (sr_read s @ [StdoutLine line]) True (int_of_float y) (StdioBody m)"
    using assms(2,3) by (auto simp: answer_to_def)
  have fresh: "int_of_float y \<notin> channel_keys (sr_client s)"
    using assms(1) True by (auto simp: run_invs)
  then have "ids_inv (Suc n) ?s"
    using assms(1) True by (auto simp: run_inv_def ids_inv_def Let_def d distinct_removeAll)
  moreover have "origin_inv ?s"
    using assms(1,4) new by (auto simp: run_inv_def origin_inv_def d answer_to_more)
  moreover have "ended_inv ?s" using assms(4) by (simp add: ended_inv_def d)
  ultimately show ?thesis by (simp add: run_inv_def)
qed

lemma input_inv:
  assumes "run_inv n s"
  shows "run_inv (Suc n) (s\<lparr>sr_client := readLoop_step je x (sr_client s), sr_read := sr_read s @ [x]\<rparr>)"
proof (cases "sc_reading (sr_client s)")
  case False
  then have "readLoop_step je x (sr_client s) = sr_client s" by (cases x) auto
  then show ?thesis using skip_inv [OF assms, of x] by simp
next
  case True
  note stop = stop_inv [OF assms True]
  show ?thesis
  proof (cases x)
    case (StdoutLine line)
    show ?thesis
    proof (cases "line_limit64 \<le> length line")
      case True
      then show ?thesis using stop StdoutLine \<open>sc_reading (sr_client s)\<close> by simp
    next
      case short: False
      show ?thesis
      proof (cases "read_response line")
        case None
        then show ?thesis using stop StdoutLine True short by simp
      next
        case (Some m)
        then show ?thesis
          using deliver_inv [OF assms, of line "opt_payload m"] skip_inv [OF assms, of x] StdoutLine True short
          by (auto split: val.splits)
      qed
    qed
  qed (use stop True in simp_all)
qed

text \<open>The steps of the callers.\<close>

lemma removed_channels:
  "channel_keys (drop_channel i c) = channel_keys c - {i}"
  "distinct (map fst (sc_channels c)) \<Longrightarrow> distinct (map fst (sc_channels (drop_channel i c)))"
  "(j, r) \<in> set (sc_channels (drop_channel i c)) \<longleftrightarrow> (j, r) \<in> set (sc_channels c) \<and> j \<noteq> i"
  "sc_pending (drop_channel i c) = sc_pending c" "mc_nextID (drop_channel i c) = mc_nextID c"
  "sc_reading (drop_channel i c) = sc_reading c" "sc_closed (drop_channel i c) = sc_closed c"
  "channel_keys (deletePending i c) = channel_keys c" "sc_channels (deletePending i c) = sc_channels c"
  "sc_pending (deletePending i c) = removeAll i (sc_pending c)" "mc_nextID (deletePending i c) = mc_nextID c"
  "sc_reading (deletePending i c) = sc_reading c" "sc_closed (deletePending i c) = sc_closed c"
  by (auto simp: drop_channel_def deletePending_def channel_keys_def AList.delete_eq distinct_map_filter image_iff)

lemma wrap64_small: "0 \<le> n \<Longrightarrow> n < 2 ^ 63 \<Longrightarrow> wrap64 n = n"
  by (simp add: wrap64_def)

lemma registered:
  assumes "0 < mc_nextID c" and "mc_nextID c \<le> 1 + int n" and "int n + 2 < 2 ^ 63"
  shows "mc_nextID (register c) = mc_nextID c + 1" and "sc_pending (register c) = sc_pending c @ [mc_nextID c]"
    and "sc_channels (register c) = sc_channels c" and "channel_keys (register c) = channel_keys c"
    and "sc_reading (register c) = sc_reading c" and "sc_closed (register c) = sc_closed c"
  using assms by (simp_all add: register_def take_id_def channel_keys_def wrap64_small)

lemma run_inv_step:
  assumes "stdio_step je s s'" and "run_inv n s" and "int n + 2 < 2 ^ 63"
  shows "run_inv (Suc n) s'"
  using assms(1)
proof cases
  case Register
  have small: "0 < mc_nextID (sr_client s)" "mc_nextID (sr_client s) \<le> 1 + int n"
    using assms(2) by (auto simp: run_inv_def ids_inv_def Let_def)
  note reg = registered [OF small(1), of n, OF small(2) assms(3)]
  have fresh: "i < mc_nextID (sr_client s)" if "i \<in> set (sr_writing s) \<union> set (sr_waiting s)" for i
    using assms(2) that by (auto simp: run_inv_def ids_inv_def Let_def)
  let ?i = "mc_nextID (sr_client s)"
  have new: "?i \<notin> set (sr_writing s)" "?i \<notin> set (sr_waiting s)" using fresh by blast+
  have "ids_inv (Suc n) s'"
    unfolding Register using assms(2) new by (auto simp: run_inv_def ids_inv_def Let_def reg intro: less_imp_le)
  moreover have "origin_inv s'" "ended_inv s'"
    unfolding Register using assms(2) by (simp_all add: run_inv_def origin_inv_def ended_inv_def reg)
  ultimately show ?thesis by (simp add: run_inv_def)
next
  case (Written i)
  then show ?thesis using assms(2) by (auto simp: run_invs distinct_removeAll)
next
  case (NotWritten i)
  then show ?thesis using assms(2) by (auto simp: run_invs removed_channels distinct_removeAll)
next
  case (Input x)
  then show ?thesis using input_inv [OF assms(2)] by simp
next
  case (Taken i r)
  then have "i \<in> channel_keys (sr_client s)"
    unfolding channel_keys_def by (metis dom_map_of_conv_image_fst domI)
  with Taken(1,2) show ?thesis using assms(2) by (auto simp: run_invs removed_channels distinct_removeAll)
next
  case (GivenUp i)
  then show ?thesis using assms(2) by (auto simp: run_invs removed_channels distinct_removeAll)
next
  case Closed
  then show ?thesis using assms(2) by (auto simp: run_invs stdio_Close_def channel_keys_def)
qed

lemma run_inv_after:
  assumes "stdio_after je s0 n s" and "run_inv 0 s0" and "int n + 1 < 2 ^ 63"
  shows "run_inv n s"
  using assms(1,3) by induction (auto intro: run_inv_step assms(2))

text \<open>After the end of the read loop no request starts to wait.\<close>

lemma ended_step:
  assumes "stdio_step je s s'" and "sc_closed (sr_client s)"
  shows "set (sr_waiting s') \<subseteq> set (sr_waiting s)"
  using assms by cases auto

lemma waiting_state:
  assumes "run_inv n s" and "i \<in> set (sr_waiting s)"
  shows "(i \<in> set (sc_pending (sr_client s)) \<and> (\<forall>r. (i, r) \<notin> set (sc_channels (sr_client s)))) \<or>
    (i \<notin> set (sc_pending (sr_client s)) \<and> (\<exists>!r. (i, r) \<in> set (sc_channels (sr_client s))))"
proof -
  let ?c = "sr_client s"
  have d: "distinct (map fst (sc_channels ?c))" "set (sc_pending ?c) \<inter> channel_keys ?c = {}"
      "i \<in> set (sc_pending ?c) \<union> channel_keys ?c"
    using assms by (auto simp: run_inv_def ids_inv_def Let_def)
  show ?thesis
  proof (cases "i \<in> channel_keys ?c")
    case True
    then obtain r where r: "(i, r) \<in> set (sc_channels ?c)" by (auto simp: channel_keys_def)
    then have "r' = r" if "(i, r') \<in> set (sc_channels ?c)" for r'
      using that d(1) by (metis eq_key_imp_eq_value)
    then show ?thesis using True r d(2) by blast
  next
    case False
    then show ?thesis using d(3) by (force simp: channel_keys_def)
  qed
qed

end
