(* ===== verification/SqlStorage.thy ===== *)
theory SqlStorage
  imports FileStore Jcs
begin

text \<open>
  \<^verbatim>\<open>storage_sql.go\<close>: the adapter on a SQL database.  The statements are built as text, as the code does;
  the database is the two tables the adapter's prefix names, and \<open>run_query\<close>, \<open>run_exec\<close> are what SQL
  says of exactly these statements, with the primary keys of the schema.  A step may fail, other
  writers may commit inside an append, and Postgres may rewrite the text of a JSONB column.
\<close>

section \<open>The database\<close>

datatype sql_dialect = SQLite | Postgres | OtherDialect string

text \<open>Rows of \<^verbatim>\<open>harnas_sessions\<close> by workspace and session, and of \<^verbatim>\<open>harnas_events\<close>.\<close>

record sql_event =
  qe_workspace :: string
  qe_session :: string
  qe_seq :: int
  qe_id :: string
  qe_timestamp :: string
  qe_type :: string
  qe_payload :: string
  qe_hash :: string

record sql_db =
  qd_sessions :: "((string \<times> string) \<times> string) list"
  qd_events :: "sql_event list"

datatype sql_step = SqlBegin | SqlNextSeq | SqlInsert nat | SqlCommit | SqlQuery | SqlRows | SqlExec

text \<open>The world of an adapter: the step that fails, what others commit between the reading of the end and
  the inserts of an append, the text a JSONB column gives back, the driver's words for a violated
  key, the digest, and the words of JSON errors.\<close>

record sql_env =
  qx_fault :: "sql_step \<Rightarrow> string option"
  qx_rival :: "sql_db \<Rightarrow> sql_db"
  qx_jsonb :: "string \<Rightarrow> string"
  qx_unique :: string
  qx_sha :: "string \<Rightarrow> string"
  qx_jcs_error :: "jcs_error \<Rightarrow> string"
  qx_json_error :: "string \<Rightarrow> string"

record sql_adapter =
  sq_sessionID :: string
  sq_workspaceID :: string
  sq_dialect :: sql_dialect
  sq_prefix :: string
  sq_detector :: "(string \<Rightarrow> bool) option"
  sq_db :: sql_db
  sq_env :: sql_env

section \<open>The statements\<close>

definition sqlStorageIdent :: "string \<Rightarrow> string" where
  "sqlStorageIdent v =
     CHR 0x22 # replace_all (or_else v ''harnas'') [CHR 0x22] [CHR 0x22, CHR 0x22] @ [CHR 0x22]"

definition sessionsTable :: "sql_adapter \<Rightarrow> string" where
  "sessionsTable a = sqlStorageIdent (sq_prefix a @ ''harnas_sessions'')"

definition eventsTable :: "sql_adapter \<Rightarrow> string" where
  "eventsTable a = sqlStorageIdent (sq_prefix a @ ''harnas_events'')"

definition placeholder :: "sql_adapter \<Rightarrow> nat \<Rightarrow> string" where
  "placeholder a n = (if sq_dialect a = Postgres then CHR ''$'' # show_nat n else ''?'')"

definition selectHeaderSQL :: "sql_adapter \<Rightarrow> string" where
  "selectHeaderSQL a =
     ''SELECT header_json FROM '' @ sessionsTable a @ '' WHERE workspace_id = '' @ placeholder a 1
     @ '' AND session_id = '' @ placeholder a 2"

definition upsertHeaderSQL :: "sql_adapter \<Rightarrow> string" where
  "upsertHeaderSQL a =
     ''INSERT INTO '' @ sessionsTable a @ '' (workspace_id, session_id, header_json) VALUES ('' @ placeholder a 1
     @ '', '' @ placeholder a 2 @ '', '' @ placeholder a 3 @ '') ''
     @ (if sq_dialect a = Postgres
        then ''ON CONFLICT (workspace_id, session_id) DO UPDATE SET header_json = EXCLUDED.header_json''
        else ''ON CONFLICT(workspace_id, session_id) DO UPDATE SET header_json = excluded.header_json'')"

definition currentNextSeqSQL :: "sql_adapter \<Rightarrow> string" where
  "currentNextSeqSQL a =
     ''SELECT COALESCE(MAX(seq) + 1, 0) FROM '' @ eventsTable a @ '' WHERE workspace_id = '' @ placeholder a 1
     @ '' AND session_id = '' @ placeholder a 2"

definition insertEventSQL :: "sql_adapter \<Rightarrow> string" where
  "insertEventSQL a =
     ''INSERT INTO '' @ eventsTable a
     @ '' (workspace_id, session_id, seq, id, timestamp, type, payload_json, content_hash) VALUES (''
     @ str_join (map (placeholder a) [1, 2, 3, 4, 5, 6, 7, 8]) '', '' @ '')''"

definition selectEventsSQL :: "sql_adapter \<Rightarrow> string" where
  "selectEventsSQL a =
     ''SELECT seq, id, timestamp, type, payload_json, content_hash FROM '' @ eventsTable a
     @ '' WHERE workspace_id = '' @ placeholder a 1 @ '' AND session_id = '' @ placeholder a 2
     @ '' AND seq >= '' @ placeholder a 3 @ '' ORDER BY seq ASC''"

section \<open>What the statements do\<close>

datatype sql_value = SqlText string | SqlInt int

definition own_event :: "string \<Rightarrow> string \<Rightarrow> sql_event \<Rightarrow> bool" where
  "own_event w s e \<longleftrightarrow> qe_workspace e = w \<and> qe_session e = s"

definition max_next :: "sql_event list \<Rightarrow> int" where
  "max_next es = (if es = [] then 0 else Max (set (map qe_seq es)) + 1)"

definition json_column :: "sql_adapter \<Rightarrow> string \<Rightarrow> string" where
  "json_column a t = (if sq_dialect a = Postgres then qx_jsonb (sq_env a) t else t)"

definition event_columns :: "sql_adapter \<Rightarrow> sql_event \<Rightarrow> sql_value list" where
  "event_columns a e =
     [SqlInt (qe_seq e), SqlText (qe_id e), SqlText (qe_timestamp e), SqlText (qe_type e),
      SqlText (json_column a (qe_payload e)), SqlText (qe_hash e)]"

definition no_such_statement :: string where "no_such_statement = ''syntax error''"

definition run_query :: "sql_adapter \<Rightarrow> string \<Rightarrow> sql_value list \<Rightarrow> sql_db \<Rightarrow> string + sql_value list list" where
  "run_query a q args db =
     (case args of
        [SqlText w, SqlText s] \<Rightarrow>
          if q = selectHeaderSQL a
          then Inr (case map_of (qd_sessions db) (w, s) of None \<Rightarrow> [] | Some t \<Rightarrow> [[SqlText (json_column a t)]])
          else if q = currentNextSeqSQL a then Inr [[SqlInt (max_next (filter (own_event w s) (qd_events db)))]]
          else Inl no_such_statement
      | [SqlText w, SqlText s, SqlInt start] \<Rightarrow>
          if q = selectEventsSQL a
          then Inr (map (event_columns a)
                 (sort_key qe_seq (filter (\<lambda>e. own_event w s e \<and> start \<le> qe_seq e) (qd_events db))))
          else Inl no_such_statement
      | _ \<Rightarrow> Inl no_such_statement)"

definition same_key :: "sql_event \<Rightarrow> sql_event \<Rightarrow> bool" where
  "same_key e f \<longleftrightarrow> qe_workspace e = qe_workspace f \<and> qe_session e = qe_session f \<and> qe_seq e = qe_seq f"

definition insert_event :: "sql_adapter \<Rightarrow> sql_event \<Rightarrow> sql_db \<Rightarrow> string option \<times> sql_db" where
  "insert_event a e db =
     (if list_ex (same_key e) (qd_events db) then (Some (qx_unique (sq_env a)), db)
      else (None, db\<lparr>qd_events := qd_events db @ [e]\<rparr>))"

definition run_exec :: "sql_adapter \<Rightarrow> string \<Rightarrow> sql_value list \<Rightarrow> sql_db \<Rightarrow> string option \<times> sql_db" where
  "run_exec a q args db =
     (case args of
        [SqlText w, SqlText s, SqlText h] \<Rightarrow>
          if q = upsertHeaderSQL a
          then (None, db\<lparr>qd_sessions := AList.update (w, s) h (qd_sessions db)\<rparr>)
          else (Some no_such_statement, db)
      | [SqlText w, SqlText s, SqlInt n, SqlText i, SqlText t, SqlText ty, SqlText p, SqlText h] \<Rightarrow>
          if q = insertEventSQL a
          then insert_event a \<lparr>qe_workspace = w, qe_session = s, qe_seq = n, qe_id = i, qe_timestamp = t,
                               qe_type = ty, qe_payload = p, qe_hash = h\<rparr> db
          else (Some no_such_statement, db)
      | _ \<Rightarrow> (Some no_such_statement, db))"

section \<open>The adapter\<close>

definition NewSQLStorageAdapter ::
    "sql_db \<Rightarrow> sql_env \<Rightarrow> string \<Rightarrow> string \<Rightarrow> sql_dialect option \<Rightarrow> string \<Rightarrow> (string \<Rightarrow> bool) option \<Rightarrow> sql_adapter" where
  "NewSQLStorageAdapter db env sid ws dialect pre detector =
     \<lparr>sq_sessionID = sid, sq_workspaceID = ws, sq_dialect = (case dialect of None \<Rightarrow> SQLite | Some d \<Rightarrow> d),
      sq_prefix = pre, sq_detector = detector, sq_db = db, sq_env = env\<rparr>"

definition sql_keys :: "sql_adapter \<Rightarrow> sql_value list" where
  "sql_keys a = [SqlText (sq_workspaceID a), SqlText (sq_sessionID a)]"

definition sql_LoadSession :: "sql_adapter \<Rightarrow> storage_error + session_header option" where
  "sql_LoadSession a =
     (if sq_sessionID a = [] then Inr None
      else case qx_fault (sq_env a) SqlQuery of
             Some e \<Rightarrow> Inl (StorageFailure e)
           | None \<Rightarrow>
               (case run_query a (selectHeaderSQL a) (sql_keys a) (sq_db a) of
                  Inl e \<Rightarrow> Inl (StorageFailure e)
                | Inr ([SqlText t] # rest) \<Rightarrow>
                    (case decodeSessionHeader (qx_json_error (sq_env a)) t of
                       Inl e \<Rightarrow> Inl (StorageFailure e) | Inr h \<Rightarrow> Inr (Some h))
                | Inr rows \<Rightarrow> Inr None))"

definition sql_SaveHeader :: "sql_adapter \<Rightarrow> session_header \<Rightarrow> (storage_error + unit) \<times> sql_adapter" where
  "sql_SaveHeader a h =
     (if sh_id h = [] then (Inl (StorageFailure ''session header id is required''), a)
      else let a1 = (if sq_sessionID a = [] then a\<lparr>sq_sessionID := sh_id h\<rparr> else a)
           in if sh_id h \<noteq> sq_sessionID a1
              then (Inl (StorageFailure (''session header id '' @ go_quote (sh_id h)
                      @ '' does not match adapter session id '' @ go_quote (sq_sessionID a1))), a1)
              else case json_marshal True (VMap (headerMap h)) of
                     Inl e \<Rightarrow> (Inl (StorageFailure e), a1)
                   | Inr t \<Rightarrow>
                       (case qx_fault (sq_env a1) SqlExec of
                          Some e \<Rightarrow> (Inl (StorageFailure e), a1)
                        | None \<Rightarrow>
                            (case run_exec a1 (upsertHeaderSQL a1) (sql_keys a1 @ [SqlText t]) (sq_db a1) of
                               (Some e, db) \<Rightarrow> (Inl (StorageFailure e), a1\<lparr>sq_db := db\<rparr>)
                             | (None, db) \<Rightarrow> (Inr (), a1\<lparr>sq_db := db\<rparr>))))"

definition currentNextSeqTx :: "sql_adapter \<Rightarrow> sql_db \<Rightarrow> string + int" where
  "currentNextSeqTx a db =
     (case qx_fault (sq_env a) SqlNextSeq of
        Some e \<Rightarrow> Inl e
      | None \<Rightarrow>
          (case run_query a (currentNextSeqSQL a) (sql_keys a) db of
             Inl e \<Rightarrow> Inl e
           | Inr ([SqlInt n] # rest) \<Rightarrow> Inr n
           | Inr rows \<Rightarrow> Inr 0))"

definition isUniqueConflict :: "sql_adapter \<Rightarrow> string \<Rightarrow> bool" where
  "isUniqueConflict a e =
     (case sq_detector a of
        Some f \<Rightarrow> f e
      | None \<Rightarrow> str_contains (to_lower e) ''unique'' \<or> str_contains (to_lower e) ''duplicate'')"

text \<open>The error of an insert.  The end is read again inside the transaction; Postgres refuses every
  statement of a transaction in which one has failed, and then the end read at the start is
  reported.\<close>

definition insert_error :: "sql_adapter \<Rightarrow> int option \<Rightarrow> int \<Rightarrow> string \<Rightarrow> sql_db \<Rightarrow> storage_error" where
  "insert_error a ex nextSeq e db =
     (case ex of
        Some n \<Rightarrow>
          if isUniqueConflict a e
          then StorageConflict StorageConflictReason n
                 (if sq_dialect a = Postgres then nextSeq
                  else case currentNextSeqTx a db of Inl e1 \<Rightarrow> nextSeq | Inr c \<Rightarrow> c)
          else StorageFailure e
      | None \<Rightarrow> StorageFailure e)"

definition jsonString :: "val \<Rightarrow> string + string" where
  "jsonString v = json_marshal False v"

definition sql_row_of :: "sql_adapter \<Rightarrow> int \<Rightarrow> event_draft \<Rightarrow> string + (event_row \<times> string)" where
  "sql_row_of a n d =
     (let row = row_of_draft n d
      in case ContentHashForEventRow (qx_sha (sq_env a)) row of
           Inl e \<Rightarrow> Inl (qx_jcs_error (sq_env a) e)
         | Inr h \<Rightarrow>
             (case jsonString (VMap (rw_payload row)) of
                Inl e \<Rightarrow> Inl e
              | Inr t \<Rightarrow> Inr (row\<lparr>rw_hash := h\<rparr>, t)))"

definition exec_insert :: "sql_adapter \<Rightarrow> nat \<Rightarrow> event_row \<Rightarrow> string \<Rightarrow> sql_db \<Rightarrow> string option \<times> sql_db" where
  "exec_insert a index row t db =
     (case qx_fault (sq_env a) (SqlInsert index) of
        Some e \<Rightarrow> (Some e, db)
      | None \<Rightarrow>
          run_exec a (insertEventSQL a)
            (sql_keys a @ [SqlInt (rw_seq row), SqlText (rw_id row), SqlText (rw_timestamp row),
               SqlText (event_type_string (rw_type row)), SqlText t, SqlText (rw_hash row)]) db)"

fun insert_loop ::
    "sql_adapter \<Rightarrow> int option \<Rightarrow> int \<Rightarrow> nat \<Rightarrow> event_draft list \<Rightarrow> event_row list \<Rightarrow> sql_db \<Rightarrow>
     storage_error + (event_row list \<times> sql_db)"
where
  "insert_loop a ex nextSeq index [] rows db = Inr (rows, db)"
| "insert_loop a ex nextSeq index (d # ds) rows db =
     (case sql_row_of a (nextSeq + int index) d of
        Inl e \<Rightarrow> Inl (StorageFailure e)
      | Inr (row, t) \<Rightarrow>
          (case exec_insert a index row t db of
             (Some e, db1) \<Rightarrow> Inl (insert_error a ex nextSeq e db1)
           | (None, db1) \<Rightarrow> insert_loop a ex nextSeq (Suc index) ds (rows @ [row]) db1))"

text \<open>A transaction that is not committed leaves what the others committed.\<close>

definition sql_AppendEvents :: "sql_adapter append_fn" where
  "sql_AppendEvents a drafts ex =
     (if sq_sessionID a = [] then (Inl (StorageFailure ''SQLStorageAdapter requires a session id''), a)
      else case qx_fault (sq_env a) SqlBegin of
             Some e \<Rightarrow> (Inl (StorageFailure e), a)
           | None \<Rightarrow>
               (case currentNextSeqTx a (sq_db a) of
                  Inl e \<Rightarrow> (Inl (StorageFailure e), a)
                | Inr nextSeq \<Rightarrow>
                    if ex \<noteq> None \<and> ex \<noteq> Some nextSeq
                    then (Inl (StorageConflict StorageConflictReason (the ex) nextSeq), a)
                    else let a1 = a\<lparr>sq_db := qx_rival (sq_env a) (sq_db a)\<rparr>
                         in case insert_loop a1 ex nextSeq 0 drafts [] (sq_db a1) of
                              Inl e \<Rightarrow> (Inl e, a1)
                            | Inr (rows, db) \<Rightarrow>
                                (case qx_fault (sq_env a) SqlCommit of
                                   Some e \<Rightarrow> (Inl (StorageFailure e), a1)
                                 | None \<Rightarrow> (Inr rows, a1\<lparr>sq_db := db\<rparr>))))"

definition sql_AppendEvent :: "sql_adapter \<Rightarrow> event_draft \<Rightarrow> int option \<Rightarrow> (storage_error + event_row) \<times> sql_adapter" where
  "sql_AppendEvent = append_one sql_AppendEvents"

definition decode_payload :: "(string \<Rightarrow> string) \<Rightarrow> string \<Rightarrow> string + payload" where
  "decode_payload je t =
     (case json_decode_first number_mode t of
        None \<Rightarrow> Inl (je t)
      | Some (v, r) \<Rightarrow> (case set_map v of None \<Rightarrow> Inl (je t) | Some p \<Rightarrow> Inr p))"

fun scanSQLEventRow :: "(string \<Rightarrow> string) \<Rightarrow> sql_value list \<Rightarrow> string + event_row" where
  "scanSQLEventRow je [SqlInt n, SqlText i, SqlText t, SqlText ty, SqlText p, SqlText h] =
     (case decode_payload je p of
        Inl e \<Rightarrow> Inl e
      | Inr payload \<Rightarrow>
          Inr \<lparr>rw_seq = n, rw_id = i, rw_timestamp = t, rw_type = event_type_of ty, rw_payload = payload, rw_hash = h\<rparr>)"
| "scanSQLEventRow je cols = Inl ''sql: Scan error''"

fun scan_rows :: "(string \<Rightarrow> string) \<Rightarrow> int \<Rightarrow> nat \<Rightarrow> sql_value list list \<Rightarrow> string + event_row list" where
  "scan_rows je expected index [] = Inr []"
| "scan_rows je expected index (c # cs) =
     (case scanSQLEventRow je c of
        Inl e \<Rightarrow> Inl e
      | Inr row \<Rightarrow>
          if rw_seq row \<noteq> expected
          then Inl (''invalid event seq at row '' @ show_nat index @ '': got '' @ show_int (rw_seq row)
                 @ '', want '' @ show_int expected)
          else case scan_rows je (expected + 1) (Suc index) cs of Inl e \<Rightarrow> Inl e | Inr rows \<Rightarrow> Inr (row # rows))"

definition since_start :: "int option \<Rightarrow> int" where
  "since_start cursor = (let s = (case cursor of None \<Rightarrow> 0 | Some c \<Rightarrow> c + 1) in if s < 0 then 0 else s)"

definition sql_EventsSince :: "sql_adapter \<Rightarrow> int option \<Rightarrow> storage_error + event_row list" where
  "sql_EventsSince a cursor =
     (if sq_sessionID a = [] then Inr []
      else case qx_fault (sq_env a) SqlQuery of
             Some e \<Rightarrow> Inl (StorageFailure e)
           | None \<Rightarrow>
               (case run_query a (selectEventsSQL a) (sql_keys a @ [SqlInt (since_start cursor)]) (sq_db a) of
                  Inl e \<Rightarrow> Inl (StorageFailure e)
                | Inr cs \<Rightarrow>
                    (case scan_rows (qx_json_error (sq_env a)) (since_start cursor) 0 cs of
                       Inl e \<Rightarrow> Inl (StorageFailure e)
                     | Inr rows \<Rightarrow>
                         (case qx_fault (sq_env a) SqlRows of
                            Some e \<Rightarrow> Inl (StorageFailure e) | None \<Rightarrow> Inr rows))))"

definition sql_adapter_methods :: "sql_adapter adapter" where
  "sql_adapter_methods =
     \<lparr>ad_load = sql_LoadSession, ad_save = sql_SaveHeader, ad_append = sql_AppendEvents,
      ad_append_one = sql_AppendEvent, ad_since = sql_EventsSince\<rparr>"

section \<open>The schema\<close>

text \<open>\<^verbatim>\<open>EnsureSQLStorageSchema\<close>: the two statements, each run unless an earlier one failed; \<open>exec\<close> is the error of
  the database, if any.\<close>

definition sql_line :: "nat \<Rightarrow> string \<Rightarrow> string" where
  "sql_line tabs l = CHR 0x0A # replicate tabs (CHR 0x09) @ l"

definition create_table :: "string \<Rightarrow> string list \<Rightarrow> string" where
  "create_table name columns =
     ''CREATE TABLE IF NOT EXISTS '' @ name @ '' ('' @ concat (map (sql_line 4) columns) @ sql_line 3 '')''"

definition empty_text :: string where "empty_text = [CHR 0x27, CHR 0x27]"

definition schema_statements :: "sql_dialect \<Rightarrow> string \<Rightarrow> string + string list" where
  "schema_statements dialect pre =
     (let sessions = sqlStorageIdent (pre @ ''harnas_sessions'');
          events = sqlStorageIdent (pre @ ''harnas_events'');
          statements = (\<lambda>json.
            [create_table sessions
               [''workspace_id TEXT NOT NULL DEFAULT '' @ empty_text @ '','', ''session_id TEXT NOT NULL,'',
                ''header_json '' @ json @ '' NOT NULL,'', ''PRIMARY KEY (workspace_id, session_id)''],
             create_table events
               [''workspace_id TEXT NOT NULL DEFAULT '' @ empty_text @ '','', ''session_id TEXT NOT NULL,'',
                ''seq INTEGER NOT NULL,'', ''id TEXT NOT NULL,'', ''timestamp TEXT NOT NULL,'', ''type TEXT NOT NULL,'',
                ''payload_json '' @ json @ '' NOT NULL,'', ''content_hash TEXT,'',
                ''PRIMARY KEY (workspace_id, session_id, seq)'']])
      in case dialect of
           SQLite \<Rightarrow> Inr (statements ''TEXT'')
         | Postgres \<Rightarrow> Inr (statements ''JSONB'')
         | OtherDialect d \<Rightarrow> Inl (''unsupported SQL storage dialect '' @ go_quote d))"

fun exec_all :: "(string \<Rightarrow> 'w \<Rightarrow> string option \<times> 'w) \<Rightarrow> string list \<Rightarrow> 'w \<Rightarrow> string option \<times> 'w" where
  "exec_all exec [] w = (None, w)"
| "exec_all exec (q # qs) w =
     (case exec q w of (Some e, w1) \<Rightarrow> (Some e, w1) | (None, w1) \<Rightarrow> exec_all exec qs w1)"

definition EnsureSQLStorageSchema ::
    "(string \<Rightarrow> 'w \<Rightarrow> string option \<times> 'w) \<Rightarrow> sql_dialect option \<Rightarrow> string \<Rightarrow> 'w \<Rightarrow> string option \<times> 'w" where
  "EnsureSQLStorageSchema exec dialect pre w =
     (case schema_statements (case dialect of None \<Rightarrow> SQLite | Some d \<Rightarrow> d) pre of
        Inl e \<Rightarrow> (Some e, w)
      | Inr qs \<Rightarrow> exec_all exec qs w)"

end
