(* ===== verification/SqlProps.thy ===== *)
theory SqlProps
  imports SqlStorage
begin

text \<open>
  The SQL adapter as a row store: what is appended is read back in its JSON form, all or nothing, fenced;
  the rows of other sessions and workspaces are left alone; and a writer that loses a race is told so.
\<close>

section \<open>The statements are told apart\<close>

lemma statement_starts:
  "selectHeaderSQL a \<noteq> currentNextSeqSQL a"
  by (simp add: selectHeaderSQL_def currentNextSeqSQL_def)

lemma run_header [simp]:
  "run_query a (selectHeaderSQL a) (sql_keys a) db =
     Inr (case map_of (qd_sessions db) (sq_workspaceID a, sq_sessionID a) of
            None \<Rightarrow> [] | Some t \<Rightarrow> [[SqlText (json_column a t)]])"
  by (simp add: run_query_def sql_keys_def)

definition own_events :: "sql_adapter \<Rightarrow> sql_db \<Rightarrow> sql_event list" where
  "own_events a db = filter (own_event (sq_workspaceID a) (sq_sessionID a)) (qd_events db)"

lemma run_next [simp]:
  "run_query a (currentNextSeqSQL a) (sql_keys a) db = Inr [[SqlInt (max_next (own_events a db))]]"
  using statement_starts [of a] by (simp add: run_query_def sql_keys_def own_events_def)

lemma run_events [simp]:
  "run_query a (selectEventsSQL a) (sql_keys a @ [SqlInt n]) db =
     Inr (map (event_columns a) (sort_key qe_seq (filter (\<lambda>e. n \<le> qe_seq e) (own_events a db))))"
  by (simp add: run_query_def sql_keys_def own_events_def conj_commute)

text \<open>The record of a row with the text of its payload.\<close>

definition record_of :: "sql_adapter \<Rightarrow> event_row \<Rightarrow> string \<Rightarrow> sql_event" where
  "record_of a r t =
     \<lparr>qe_workspace = sq_workspaceID a, qe_session = sq_sessionID a, qe_seq = rw_seq r, qe_id = rw_id r,
      qe_timestamp = rw_timestamp r, qe_type = event_type_string (rw_type r), qe_payload = t, qe_hash = rw_hash r\<rparr>"

lemma exec_insert_eq:
  "exec_insert a i r t db =
     (case qx_fault (sq_env a) (SqlInsert i) of
        Some e \<Rightarrow> (Some e, db) | None \<Rightarrow> insert_event a (record_of a r t) db)"
  by (simp add: exec_insert_def run_exec_def sql_keys_def record_of_def split: option.splits)

lemma own_record: "own_event (sq_workspaceID a) (sq_sessionID a) (record_of a r t)"
  by (simp add: own_event_def record_of_def)

lemma same_key_own:
  "list_ex (same_key (record_of a r t)) (qd_events db) \<longleftrightarrow> rw_seq r \<in> qe_seq ` set (own_events a db)"
  unfolding list_ex_iff same_key_def record_of_def own_events_def own_event_def by (auto simp: image_iff) metis+

text \<open>What a successful loop of inserts adds.\<close>

lemma insert_loop_ok:
  assumes "insert_loop a ex next index ds rows db = Inr (rows', db')"
  shows "\<exists>new ts. rows' = rows @ new \<and> length ts = length ds \<and>
    qd_events db' = qd_events db @ map2 (record_of a) new ts \<and> qd_sessions db' = qd_sessions db \<and>
    list_all2 (\<lambda>r t. jsonString (VMap (rw_payload r)) = Inr t) new ts \<and>
    list_all2 row_matches new (rows_of_drafts (next + int index) ds)"
  using assms
proof (induction ds arbitrary: index rows db)
  case Nil
  then show ?case by (intro exI [of _ "[]"]) simp
next
  case (Cons d ds)
  obtain row t where rt: "sql_row_of a (next + int index) d = Inr (row, t)"
    using Cons.prems by (auto split: sum.splits)
  obtain db1 where e: "exec_insert a index row t db = (None, db1)"
      and rest: "insert_loop a ex next (Suc index) ds (rows @ [row]) db1 = Inr (rows', db')"
    using Cons.prems rt by (auto split: prod.splits option.splits)
  have db1: "db1 = db\<lparr>qd_events := qd_events db @ [record_of a row t]\<rparr>"
    using e by (auto simp: exec_insert_eq insert_event_def split: option.splits if_splits)
  obtain new ts where n: "rows' = (rows @ [row]) @ new" "length ts = length ds"
      "qd_events db' = qd_events db1 @ map2 (record_of a) new ts" "qd_sessions db' = qd_sessions db1"
      "list_all2 (\<lambda>r t. jsonString (VMap (rw_payload r)) = Inr t) new ts"
      "list_all2 row_matches new (rows_of_drafts (next + int (Suc index)) ds)"
    using Cons.IH [OF rest] by blast
  have "row_matches row (row_of_draft (next + int index) d)" "jsonString (VMap (rw_payload row)) = Inr t"
    using rt by (auto simp: sql_row_of_def Let_def row_matches_def row_of_draft_def split: sum.splits)
  then show ?case using n db1
    by (intro exI [of _ "row # new"] exI [of _ "t # ts"]) (simp add: algebra_simps)
qed

section \<open>The contract\<close>

definition payload_text :: "event_row \<Rightarrow> string" where
  "payload_text r = json_text False (VMap (rw_payload r))"

definition sql_row_ok :: "event_row \<Rightarrow> bool" where
  "sql_row_ok r \<longleftrightarrow>
     json_ok number_mode 10000 (VMap (rw_payload r)) \<and> event_type_of (event_type_string (rw_type r)) = rw_type r"

text \<open>The column gives back what decodes as the text that was stored: always so for a TEXT column.\<close>

definition faithful_column :: "sql_adapter \<Rightarrow> bool" where
  "faithful_column a \<longleftrightarrow> (\<forall>t. json_decode_first number_mode (json_column a t) = json_decode_first number_mode t)"

lemma text_column: "sq_dialect a \<noteq> Postgres \<Longrightarrow> faithful_column a"
  by (simp add: faithful_column_def json_column_def)

abbreviation row_record :: "sql_adapter \<Rightarrow> event_row \<Rightarrow> sql_event" where
  "row_record a r \<equiv> record_of a r (payload_text r)"

text \<open>The table holds the rows of the session, stored, densely numbered.\<close>

definition table_rows :: "sql_adapter \<Rightarrow> event_row list \<Rightarrow> bool" where
  "table_rows a rows \<longleftrightarrow>
     own_events a (sq_db a) = map (row_record a) rows \<and> dense_rows rows \<and> list_all sql_row_ok rows \<and>
     map stored_row rows = rows"

definition sql_rows :: "sql_adapter \<Rightarrow> event_row list" where
  "sql_rows a =
     (case scan_rows (\<lambda>t. t) 0 0 (map (event_columns a) (own_events a (sq_db a))) of Inl e \<Rightarrow> [] | Inr rows \<Rightarrow> rows)"

definition sql_inv :: "sql_adapter \<Rightarrow> bool" where
  "sql_inv a \<longleftrightarrow>
     sq_sessionID a \<noteq> [] \<and> (\<forall>db. qx_rival (sq_env a) db = db) \<and> faithful_column a \<and> (\<exists>rows. table_rows a rows)"

definition sql_storable :: "sql_adapter \<Rightarrow> event_row list \<Rightarrow> bool" where
  "sql_storable a rs \<longleftrightarrow> list_all sql_row_ok rs"

lemma scan_row:
  assumes "sql_row_ok r" and "faithful_column a"
  shows "scanSQLEventRow je (event_columns a (row_record a r)) = Inr (stored_row r)"
proof -
  have "json_decode_first number_mode (payload_text r) = Some (decoded number_mode (VMap (rw_payload r)), [])"
    using json_roundtrip(1) [of number_mode "VMap (rw_payload r)" "[]" False] assms(1)
    by (simp add: sql_row_ok_def payload_text_def delim_def del: json_ok.simps)
  then have "decode_payload je (json_column a (payload_text r)) = Inr (stored_payload (rw_payload r))"
    using assms(2) by (simp add: decode_payload_def faithful_column_def set_map_def stored_payload_def)
  then show ?thesis
    using assms(1) by (simp add: event_columns_def record_of_def stored_row_def sql_row_ok_def)
qed

lemma scan_rows_ok:
  assumes "list_all sql_row_ok rows" and "faithful_column a" and "\<forall>i < length rows. rw_seq (rows ! i) = n + int i"
  shows "scan_rows je n k (map (event_columns a) (map (row_record a) rows)) = Inr (map stored_row rows)"
  using assms
proof (induction rows arbitrary: n k)
  case (Cons r rows)
  have "rw_seq r = n" using Cons.prems(3) by force
  moreover have "\<forall>i < length rows. rw_seq (rows ! i) = (n + 1) + int i" using Cons.prems(3) by fastforce
  then have "scan_rows je (n + 1) (Suc k) (map (event_columns a) (map (row_record a) rows)) = Inr (map stored_row rows)"
    using Cons.prems by (intro Cons.IH) auto
  ultimately show ?case using Cons.prems scan_row [of r a je] by (simp add: stored_row_def)
qed simp

lemma table_rows_eq: "table_rows a rows \<Longrightarrow> faithful_column a \<Longrightarrow> sql_rows a = rows"
  using scan_rows_ok [of rows a 0 "\<lambda>t. t" 0] by (simp add: table_rows_def sql_rows_def dense_rows_def)

lemma sql_inv_table: "sql_inv a \<Longrightarrow> table_rows a (sql_rows a)"
  using table_rows_eq by (auto simp: sql_inv_def)

lemma dense_max_next:
  assumes "dense_rows rows"
  shows "max_next (map (row_record a) rows) = int (length rows)"
proof (cases "rows = []")
  case False
  let ?S = "set (map qe_seq (map (row_record a) rows))"
  have nth: "set rows = (\<lambda>i. rows ! i) ` {..< length rows}" by (auto simp: set_conv_nth)
  have "?S = (\<lambda>r. rw_seq r) ` set rows" by (simp add: record_of_def image_image)
  also have "\<dots> = (\<lambda>i. rw_seq (rows ! i)) ` {..< length rows}" by (simp add: nth image_image)
  also have "\<dots> = (\<lambda>i. int i) ` {..< length rows}" using assms by (intro image_cong) (auto simp: dense_rows_def)
  finally have S: "?S = (\<lambda>i. int i) ` {..< length rows}" .
  have "Max ?S = int (length rows) - 1"
    unfolding S using False by (intro Max_eqI) (auto simp: image_iff of_nat_diff Suc_leI intro!: bexI [of _ "length rows - 1"])
  then show ?thesis using False by (simp add: max_next_def)
qed (simp add: max_next_def)

lemma inv_next:
  assumes "sql_inv a" and "qx_fault (sq_env a) SqlNextSeq = None"
  shows "currentNextSeqTx a (sq_db a) = Inr (int (length (sql_rows a)))"
  using sql_inv_table [OF assms(1)] assms(2) by (simp add: currentNextSeqTx_def table_rows_def dense_max_next)

text \<open>An append through a quiet database.\<close>

lemma sql_append_cases:
  assumes "sql_AppendEvents a ds ex = (r, a')" and "sql_inv a"
  shows "(\<exists>e. r = Inl e \<and> a' = a) \<or>
    (\<exists>rs db. r = Inr rs \<and> a' = a\<lparr>sq_db := db\<rparr> \<and> (ex = None \<or> ex = Some (int (length (sql_rows a)))) \<and>
       insert_loop a ex (int (length (sql_rows a))) 0 ds [] (sq_db a) = Inr (rs, db))"
proof -
  have quiet: "a\<lparr>sq_db := qx_rival (sq_env a) (sq_db a)\<rparr> = a" using assms(2) by (simp add: sql_inv_def)
  show ?thesis
    using assms inv_next [OF assms(2)]
    by (auto simp: sql_AppendEvents_def quiet Let_def currentNextSeqTx_def split: option.splits sum.splits prod.splits if_splits)
qed

lemma json_string_text: "jsonString v = Inr t \<Longrightarrow> t = json_text False v"
  by (auto simp: jsonString_def json_marshal_def split: list.splits)

lemma payload_text_stored: "payload_text (stored_row r) = payload_text r"
  using json_text_decoded(1) [of False "VMap (rw_payload r)"]
  by (simp add: payload_text_def stored_row_def stored_payload_def)

lemma record_stored: "record_of a (stored_row r) t = record_of a r t"
  by (simp add: record_of_def stored_row_def)

lemma sql_row_ok_stored: "sql_row_ok r \<Longrightarrow> sql_row_ok (stored_row r)"
  using json_ok_decoded(1) [of number_mode 10000 "VMap (rw_payload r)", OF _ refl]
  by (simp add: sql_row_ok_def stored_row_def stored_payload_def del: json_ok.simps)

lemma own_adapter: "own_events (a\<lparr>sq_db := db'\<rparr>) db = own_events a db" "record_of (a\<lparr>sq_db := db'\<rparr>) r t = record_of a r t"
  "faithful_column (a\<lparr>sq_db := db'\<rparr>) = faithful_column a"
  by (simp_all add: own_events_def record_of_def faithful_column_def json_column_def)

lemma append_table:
  assumes "table_rows a rows" and "insert_loop a ex (int (length rows)) 0 ds [] (sq_db a) = Inr (rs, db)"
    and "list_all sql_row_ok rs"
  shows "table_rows (a\<lparr>sq_db := db\<rparr>) (rows @ map stored_row rs) \<and>
    list_all2 row_matches rs (rows_of_drafts (int (length rows)) ds)"
proof -
  obtain ts where n: "length ts = length ds" "qd_events db = qd_events (sq_db a) @ map2 (record_of a) rs ts"
      "list_all2 (\<lambda>r t. jsonString (VMap (rw_payload r)) = Inr t) rs ts"
      "list_all2 row_matches rs (rows_of_drafts (int (length rows)) ds)"
    using insert_loop_ok [OF assms(2)] by auto
  have len: "length rs = length ds" using n(4) by (auto dest: list_all2_lengthD)
  have "ts = map payload_text rs"
    using n(3) by (auto simp: list_eq_iff_nth_eq payload_text_def list_all2_conv_all_nth dest!: json_string_text)
  then have new: "map2 (record_of a) rs ts = map (row_record a) rs"
    by (induction rs arbitrary: ts) simp_all
  have own: "own_events a db = map (row_record a) (rows @ map stored_row rs)"
    using assms(1)
    by (simp add: table_rows_def own_events_def n(2) new filter_map comp_def own_record record_stored payload_text_stored)
  have seqs: "rw_seq (rs ! i) = int (length rows) + int i" if "i < length rs" for i
    using that n(4) len by (auto simp: list_all2_conv_all_nth nth_rows_of_drafts row_of_draft_def dest!: row_matches_seq)
  have "dense_rows (rows @ map stored_row rs)"
    using assms(1) seqs by (auto simp: table_rows_def dense_rows_def nth_append stored_row_def)
  then show ?thesis
    using assms own n(4)
    by (auto simp: table_rows_def own_adapter list_all_iff stored_row_idem intro: sql_row_ok_stored)
qed

text \<open>Reading from a cursor.\<close>

lemma since_filter:
  assumes "dense_rows rows"
  shows "rows_since rows c = filter (\<lambda>r. since_start c \<le> rw_seq r) rows"
proof (cases c)
  case None
  have "\<forall>r \<in> set rows. 0 \<le> rw_seq r" using assms by (auto simp: dense_rows_def in_set_conv_nth)
  then show ?thesis by (simp add: None since_start_def)
next
  case (Some n)
  have "(n < rw_seq r) = (since_start (Some n) \<le> rw_seq r)" if "r \<in> set rows" for r
    using that assms by (auto simp: dense_rows_def in_set_conv_nth since_start_def Let_def)
  then show ?thesis unfolding Some rows_since_filter [OF assms] by (rule filter_cong [OF refl])
qed

lemma row_seqs_sorted:
  assumes "dense_rows rows"
  shows "sorted (map qe_seq (map (row_record a) (filter P rows)))"
proof -
  have "sorted (map rw_seq rows)" using assms by (auto simp: sorted_iff_nth_mono dense_rows_def)
  then have "sorted (map rw_seq (filter P rows))" by (rule sorted_filter)
  then show ?thesis by (simp add: record_of_def comp_def)
qed

lemma drop_seqs:
  assumes "dense_rows rows" and "i < length (rows_since rows c)"
  shows "rw_seq (rows_since rows c ! i) = since_start c + int i"
  using assms by (auto simp: rows_since_def since_start_def Let_def dense_rows_def split: option.splits if_splits)

lemma since_scan:
  assumes t: "table_rows a rows" and f: "faithful_column a"
  shows "scan_rows je (since_start c) 0
      (map (event_columns a) (sort_key qe_seq (filter (\<lambda>e. since_start c \<le> qe_seq e) (own_events a (sq_db a)))))
    = Inr (rows_since rows c)"
proof -
  have d: "dense_rows rows" and own: "own_events a (sq_db a) = map (row_record a) rows"
    using t by (simp_all add: table_rows_def)
  have sorted: "sort_key qe_seq (filter (\<lambda>e. since_start c \<le> qe_seq e) (own_events a (sq_db a))) =
      map (row_record a) (rows_since rows c)"
    using row_seqs_sorted [OF d, of a "\<lambda>r. since_start c \<le> rw_seq r"]
    by (simp add: own filter_map comp_def since_filter [OF d] sort_key_id_if_sorted record_of_def)
  have "list_all sql_row_ok (rows_since rows c)" "map stored_row (rows_since rows c) = rows_since rows c"
    using t by (auto simp: table_rows_def since_filter [OF d] list_all_iff map_idI map_eq_conv [of _ _ "\<lambda>x. x", simplified])
  then show ?thesis
    unfolding sorted using scan_rows_ok [of "rows_since rows c" a "since_start c" je 0] f drop_seqs [OF d] by simp
qed

lemma sql_since:
  assumes "sql_inv a" and "sql_EventsSince a c = Inr rs"
  shows "rs = rows_since (sql_rows a) c"
proof -
  have "faithful_column a" using assms(1) by (simp add: sql_inv_def)
  then show ?thesis
    using since_scan [OF sql_inv_table [OF assms(1)], of "qx_json_error (sq_env a)" c] assms
    by (auto simp: sql_EventsSince_def sql_inv_def split: option.splits)
qed

interpretation sql_store: row_store sql_AppendEvents sql_EventsSince sql_rows sql_inv stored_row sql_storable
proof
  fix a ds ex rs a'
  assume i: "sql_inv a" and ap: "sql_AppendEvents a ds ex = (Inr rs, a')" and st: "sql_storable a rs"
  obtain db where db: "a' = a\<lparr>sq_db := db\<rparr>"
      "insert_loop a ex (int (length (sql_rows a))) 0 ds [] (sq_db a) = Inr (rs, db)"
    using sql_append_cases [OF ap i] by blast
  note t = append_table [OF sql_inv_table [OF i] db(2)]
  then have "table_rows a' (sql_rows a @ map stored_row rs)" using st db(1) by (simp add: sql_storable_def)
  then show "sql_inv a' \<and> sql_rows a' = sql_rows a @ map stored_row rs \<and>
      list_all2 row_matches rs (rows_of_drafts (int (length (sql_rows a))) ds)"
    using i t st db(1) table_rows_eq by (auto simp: sql_inv_def own_adapter sql_storable_def)
next
  fix a ds ex e a'
  assume "sql_inv a" and "sql_AppendEvents a ds ex = (Inl e, a')"
  then show "sql_inv a' \<and> sql_rows a' = sql_rows a" using sql_append_cases by blast
next
  fix a n ds
  assume i: "sql_inv a" and n: "n \<noteq> int (length (sql_rows a))"
  obtain r a' where ap: "sql_AppendEvents a ds (Some n) = (r, a')" by fastforce
  then show "\<exists>e a'. sql_AppendEvents a ds (Some n) = (Inl e, a')"
    using sql_append_cases [OF ap i] n by auto
next
  fix a c rs
  assume "sql_inv a" and "sql_EventsSince a c = Inr rs"
  then show "rs = rows_since (sql_rows a) c" by (rule sql_since)
next
  fix a assume "sql_inv a"
  then show "dense_rows (sql_rows a)" using sql_inv_table by (simp add: table_rows_def)
qed (simp add: stored_row_def)

section \<open>Success, isolation, races\<close>

definition fault_free :: "sql_adapter \<Rightarrow> bool" where
  "fault_free a \<longleftrightarrow> (\<forall>s. qx_fault (sq_env a) s = None)"

lemma sql_row_of_db [simp]: "sql_row_of (a\<lparr>sq_db := db\<rparr>) = sql_row_of a"
proof -
  have "sq_env (a\<lparr>sq_db := db\<rparr>) = sq_env a" by simp
  then show ?thesis unfolding sql_row_of_def by (simp only:)
qed

text \<open>The inserts succeed when no row stands in the way.\<close>

lemma insert_loop_succeeds:
  assumes "fault_free a" and "\<forall>i < length ds. is_ok (sql_row_of a (next + int (index + i)) (ds ! i))"
    and "\<forall>e \<in> set (own_events a db). qe_seq e < next + int index"
  shows "\<exists>new db'. insert_loop a ex next index ds rows db = Inr (rows @ new, db')"
  using assms(2,3)
proof (induction ds arbitrary: index rows db)
  case (Cons d ds)
  obtain row t where rt: "sql_row_of a (next + int index) d = Inr (row, t)"
    using Cons.prems(1) by (cases "sql_row_of a (next + int index) d") force+
  have seq: "rw_seq row = next + int index"
    using rt by (auto simp: sql_row_of_def Let_def row_of_draft_def split: sum.splits)
  have "rw_seq row \<notin> qe_seq ` set (own_events a db)" using Cons.prems(2) seq by auto
  then have ins: "exec_insert a index row t db = (None, db\<lparr>qd_events := qd_events db @ [record_of a row t]\<rparr>)"
    using assms(1) by (simp add: exec_insert_eq fault_free_def insert_event_def same_key_own)
  have "\<exists>new db'. insert_loop a ex next (Suc index) ds (rows @ [row]) (db\<lparr>qd_events := qd_events db @ [record_of a row t]\<rparr>)
      = Inr ((rows @ [row]) @ new, db')"
  proof (rule Cons.IH)
    show "\<forall>i < length ds. is_ok (sql_row_of a (next + int (Suc index + i)) (ds ! i))"
    proof (intro allI impI)
      fix i assume "i < length ds"
      then show "is_ok (sql_row_of a (next + int (Suc index + i)) (ds ! i))"
        using Cons.prems(1) [rule_format, of "Suc i"] by (simp add: algebra_simps)
    qed
    show "\<forall>e \<in> set (own_events a (db\<lparr>qd_events := qd_events db @ [record_of a row t]\<rparr>)). qe_seq e < next + int (Suc index)"
      using Cons.prems(2) seq by (auto simp: own_events_def record_of_def)
  qed
  then show ?case using rt ins by auto
qed auto

lemma sql_append_succeeds:
  assumes "sql_inv a" and "fault_free a" and "n = int (length (sql_rows a))"
    and "\<forall>i < length ds. is_ok (sql_row_of a (n + int i) (ds ! i))" and "ex = None \<or> ex = Some n"
  shows "\<exists>rs a'. sql_AppendEvents a ds ex = (Inr rs, a') \<and> fault_free a'"
proof -
  note t = sql_inv_table [OF assms(1)]
  have "\<forall>e \<in> set (own_events a (sq_db a)). qe_seq e < n + int 0"
    using t assms(3) by (auto simp: table_rows_def record_of_def dense_rows_def in_set_conv_nth)
  then obtain new db where l: "insert_loop a ex n 0 ds [] (sq_db a) = Inr ([] @ new, db)"
    using insert_loop_succeeds [OF assms(2), of ds n 0 "sq_db a" ex "[]"] assms(4) by auto
  have quiet: "a\<lparr>sq_db := qx_rival (sq_env a) (sq_db a)\<rparr> = a" using assms(1) by (simp add: sql_inv_def)
  have "currentNextSeqTx a (sq_db a) = Inr n"
    using inv_next [OF assms(1)] assms(2,3) by (simp add: fault_free_def)
  then show ?thesis
    using assms(1,2,5) l by (auto simp: sql_AppendEvents_def quiet Let_def fault_free_def sql_inv_def)
qed

text \<open>Rows of other sessions and workspaces.\<close>

lemma sql_isolated:
  assumes "sql_AppendEvents a ds ex = (r, a')" and "sql_inv a" and "(w, s) \<noteq> (sq_workspaceID a, sq_sessionID a)"
  shows "filter (own_event w s) (qd_events (sq_db a')) = filter (own_event w s) (qd_events (sq_db a)) \<and>
    qd_sessions (sq_db a') = qd_sessions (sq_db a)"
proof -
  have "a' = a \<or> (\<exists>rs db. a' = a\<lparr>sq_db := db\<rparr> \<and> insert_loop a ex (int (length (sql_rows a))) 0 ds [] (sq_db a) = Inr (rs, db))"
    using sql_append_cases [OF assms(1,2)] by auto
  then show ?thesis
  proof (elim disjE exE conjE)
    fix rs db
    assume a': "a' = a\<lparr>sq_db := db\<rparr>" and l: "insert_loop a ex (int (length (sql_rows a))) 0 ds [] (sq_db a) = Inr (rs, db)"
    from insert_loop_ok [OF l] obtain new ts where
      "qd_events db = qd_events (sq_db a) @ map2 (record_of a) new ts" "qd_sessions db = qd_sessions (sq_db a)" by blast
    moreover have "filter (own_event w s) (map2 (record_of a) new ts) = []"
      using assms(3) by (auto simp: filter_empty_conv own_event_def record_of_def)
    ultimately show ?thesis by (simp add: a')
  qed simp
qed

text \<open>A writer that another one has overtaken after it read the end.\<close>

lemma sql_overtaken:
  assumes "fault_free a" and "sq_sessionID a \<noteq> []" and "n = max_next (own_events a (sq_db a))"
    and "db = qx_rival (sq_env a) (sq_db a)" and "n \<in> qe_seq ` set (own_events a db)"
    and "ds \<noteq> []" and "is_ok (sql_row_of a n (hd ds))" and "isUniqueConflict a (qx_unique (sq_env a))"
  shows "sql_AppendEvents a ds (Some n) =
    (Inl (StorageConflict StorageConflictReason n
       (if sq_dialect a = Postgres then n else max_next (own_events a db))), a\<lparr>sq_db := db\<rparr>)"
proof -
  obtain d ds' where ds: "ds = d # ds'" using assms(6) by (cases ds) auto
  obtain row t where rt: "sql_row_of a n d = Inr (row, t)" using assms(7) ds by (cases "sql_row_of a n d") force+
  have seq: "rw_seq row = n"
    using rt by (auto simp: sql_row_of_def Let_def row_of_draft_def split: sum.splits)
  let ?a = "a\<lparr>sq_db := db\<rparr>"
  have ff: "fault_free ?a" using assms(1) by (simp add: fault_free_def)
  have "exec_insert ?a 0 row t db = (Some (qx_unique (sq_env a)), db)"
    using ff seq assms(5) by (simp add: exec_insert_eq fault_free_def insert_event_def same_key_own own_adapter)
  moreover have "isUniqueConflict ?a = isUniqueConflict a" by (simp add: isUniqueConflict_def fun_eq_iff)
  moreover have "currentNextSeqTx ?a db = Inr (max_next (own_events a db))"
    "currentNextSeqTx a (sq_db a) = Inr n"
    using ff assms(1,3) by (simp_all add: currentNextSeqTx_def fault_free_def own_adapter)
  ultimately show ?thesis
    using assms(1,2,4,8) rt ds by (simp add: sql_AppendEvents_def fault_free_def Let_def insert_error_def)
qed

text \<open>Headers.\<close>

lemma decode_header_html:
  assumes "json_ok float_mode 10000 (VMap (headerMap h))"
  shows "decodeSessionHeader je (json_text True (VMap (headerMap h))) = Inr (stored_header h)"
proof -
  have "json_unmarshal float_mode (json_text b (VMap (headerMap h))) = Some (decoded float_mode (VMap (headerMap h)))" for b
    using assms by (rule json_roundtrip(2))
  then show ?thesis using decode_header_json [OF assms, of je]
    by (auto simp: decodeSessionHeader_def header_text_def simp del: json_text.simps decoded.simps split: option.splits)
qed

lemma sql_header_roundtrip:
  assumes "fault_free a" and "sq_dialect a \<noteq> Postgres" and "sh_id h \<noteq> []" and "sq_sessionID a \<in> {[], sh_id h}"
    and "json_ok float_mode 10000 (VMap (headerMap h))" and "bad_numbers (VMap (headerMap h)) = []"
  shows "\<exists>a'. sql_SaveHeader a h = (Inr (), a') \<and> sql_LoadSession a' = Inr (Some (stored_header h)) \<and>
    qd_events (sq_db a') = qd_events (sq_db a)"
proof -
  let ?a = "a\<lparr>sq_sessionID := sh_id h\<rparr>"
  have a: "(if sq_sessionID a = [] then ?a else a) = ?a" using assms(4) by (cases a) auto
  have m: "json_marshal True (VMap (headerMap h)) = Inr (json_text True (VMap (headerMap h)))"
    unfolding json_marshal_def assms(6) by (simp del: json_text.simps)
  define a' where "a' = ?a\<lparr>sq_db := (sq_db a)\<lparr>qd_sessions :=
      AList.update (sq_workspaceID a, sh_id h) (json_text True (VMap (headerMap h))) (qd_sessions (sq_db a))\<rparr>\<rparr>"
  have "sql_SaveHeader a h = (Inr (), a')"
    using assms(1,3) unfolding sql_SaveHeader_def a m a'_def
    by (simp add: fault_free_def run_exec_def sql_keys_def Let_def)
  moreover have "sql_LoadSession a' = Inr (Some (stored_header h))"
    using assms(1-3) decode_header_html [OF assms(5)]
    by (simp add: sql_LoadSession_def fault_free_def a'_def json_column_def update_conv')
  ultimately show ?thesis by (simp add: a'_def)
qed

text \<open>Rows that can be hashed and written.\<close>

lemma join_all_ok: "\<forall>x \<in> set xs. is_ok x \<Longrightarrow> is_ok (join_ok xs)"
  by (induction xs rule: join_ok.induct) (auto split: sum.splits)

lemma object_all_ok:
  assumes "list_all (\<lambda>kv. valid_utf8 (fst kv)) kvs" and "\<forall>kv \<in> set kvs. is_ok (snd kv)"
  shows "is_ok (jcs_object kvs)"
proof -
  have "is_ok (join_ok (map jcs_member (sort_key (\<lambda>kv. key_order (fst kv)) kvs)))"
  proof (rule join_all_ok, rule ballI)
    fix x assume "x \<in> set (map jcs_member (sort_key (\<lambda>kv. key_order (fst kv)) kvs))"
    then obtain kv where "kv \<in> set kvs" "x = jcs_member kv" by auto
    then show "is_ok x" using assms(2) by (cases "snd kv") (auto simp: jcs_member_def)
  qed
  then show ?thesis using assms(1) by (auto simp: jcs_object_def split: sum.splits)
qed

lemma sql_row_of_ok:
  assumes "valid_utf8 (dr_id d)" and "valid_utf8 (dr_timestamp d)" and "valid_utf8 (event_type_string (dr_type d))"
    and "is_ok (writeJCSV1 (VMap (dr_payload d)))" and "bad_numbers (VMap (dr_payload d)) = []"
  shows "is_ok (sql_row_of a n d)"
proof -
  have keys: "valid_utf8 ''seq''" "valid_utf8 ''id''" "valid_utf8 ''timestamp''" "valid_utf8 ''type''" "valid_utf8 ''payload''"
    by code_simp+
  have "is_ok (jcs_object (jcs_members (hashed_members (row_of_draft n d))))"
    by (rule object_all_ok) (use assms(1-4) in \<open>auto simp: hashed_members_def row_of_draft_def keys\<close>)
  then obtain c where "writeJCSV1 (VMap (hashed_members (row_of_draft n d))) = Inr c"
    by (cases "jcs_object (jcs_members (hashed_members (row_of_draft n d)))") auto
  moreover have "json_marshal False (VMap (dr_payload d)) = Inr (json_text False (VMap (dr_payload d)))"
    unfolding json_marshal_def assms(5) by (simp del: json_text.simps)
  ultimately show ?thesis
    by (simp add: sql_row_of_def ContentHashForEventRow_def jsonString_def row_of_draft_def Let_def
      del: writeJCSV1.simps json_text.simps)
qed

lemma max_next_above: "n \<in> qe_seq ` set es \<Longrightarrow> n < max_next es"
proof -
  assume n: "n \<in> qe_seq ` set es"
  then have "n \<le> Max (set (map qe_seq es))" by (intro Max_ge) auto
  then show ?thesis using n by (auto simp: max_next_def)
qed

text \<open>Without faults everything is read.\<close>

lemma sql_reads:
  assumes "sql_inv a" and "fault_free a"
  shows "is_ok (sql_EventsSince a None)"
proof -
  note t = sql_inv_table [OF assms(1)]
  have "faithful_column a" using assms(1) by (simp add: sql_inv_def)
  note scan = since_scan [OF t this, of "qx_json_error (sq_env a)" None]
  show ?thesis using scan assms by (simp add: sql_EventsSince_def fault_free_def)
qed

end
