(* ===== verification/HostExamples.thy ===== *)
theory HostExamples
  imports StateExamples ManifestProps BashProps BuiltinTable Transcript AgentFacade McpProps SqlProps
begin

text \<open>
  Concrete hosts for the witnesses: a manifest and the options that serve it, a shell and its
  answers, a disk with one file, a session that failed.
\<close>

section \<open>A manifest\<close>

definition ex_manifest :: manifest where
  "ex_manifest =
     \<lparr>mf_Version = ''0.1'', mf_FixtureVersion = [], mf_Name = ''m'', mf_System = [],
      mf_Provider = \<lparr>ps_Kind = ''mock'', ps_Model = [], ps_MaxTokens = 1, ps_BaseURL = [],
                     ps_Capabilities = [], ps_Mismatch = []\<rparr>,
      mf_Tools = [\<lparr>md_Name = ''t'', md_Handler = ''host.t'', md_Description = [], md_InputSchema = Some [], md_Config = []\<rparr>],
      mf_Strategies = [\<lparr>sg_Name = ''Permission::AlwaysAllow'', sg_Config = [], sg_OnError = []\<rparr>],
      mf_Hooks = [\<lparr>hp_Point = '':pre_tool_use'', hp_Handler = ''a'', hp_Config = [], hp_OnError = ''fail_turn''\<rparr>,
                  \<lparr>hp_Point = '':pre_tool_use'', hp_Handler = ''b'', hp_Config = [], hp_OnError = []\<rparr>]\<rparr>"

definition ex_options :: "(nat, mem_adapter, unit, unit, unit) manifest_options" where
  "ex_options =
     \<lparr>mo_ToolHandlers = [(''host.t'', \<lambda>args w. (Inr ''ok'', w))], mo_ConfiguredHandlers = [],
      mo_ContextualHandlers = [], mo_StrategyHandlers = [], mo_HookHandlers = [(''a'', 1), (''b'', 2)],
      mo_Providers = [], mo_StreamProviders = [], mo_APIKeys = [], mo_AttachmentStore = None,
      mo_Getenv = (\<lambda>k. []), mo_LookPath = (\<lambda>p. True),
      mo_fetch = \<lparr>fe_refuses = (\<lambda>u. None), fe_do = (\<lambda>u. Inl [])\<rparr>\<rparr>"

lemma ex_manifest_valid: "ValidateManifest ex_manifest = None"
  by code_simp

lemma ex_manifest_host: "host_provides ex_options ex_manifest"
  by (simp add: host_provides_def ex_manifest_def ex_options_def keyed_kind_def resolves_def strategy_resolves_def)

lemma ex_built_hooks:
  "\<exists>h1 h2. BuildHooks (mo_HookHandlers ex_options) (mf_Hooks ex_manifest) = Inr [h1, h2] \<and>
     hi_OnError h1 = ''fail_turn'' \<and> hi_OnError h2 = []"
  by (simp add: ex_manifest_def ex_options_def)

section \<open>A shell\<close>

text \<open>\<^verbatim>\<open>printf 'hi\nyo'; echo e >&2; false\<close>, as the readers see it; and \<^verbatim>\<open>printf __HARNAS_DONE_\<close>.\<close>

definition ex_shell :: bash_session where
  "ex_shell =
     \<lparr>bs_id = ''s'', bs_shell = ''bash'', bs_shellType = ''posix'', bs_stdin = [], bs_signals = [],
      bs_stdout = newRingBuffer 4, bs_stderr = newRingBuffer 4, bs_current = None, bs_finished = [],
      bs_closed = False\<rparr>"

definition ex_answer :: shell_answer where
  "ex_answer =
     \<lparr>sa_outs = [''hi'' @ newline], sa_out_tail = ''yo'', sa_errs = [''e'' @ newline], sa_err_tail = [], sa_code = 1\<rparr>"

definition ex_marked_answer :: shell_answer where
  "ex_marked_answer = \<lparr>sa_outs = [], sa_out_tail = done_prefix, sa_errs = [], sa_err_tail = [], sa_code = 0\<rparr>"

definition ex_chance :: "shell_answer \<Rightarrow> run_chance" where
  "ex_chance a =
     \<lparr>rc_token = ''t'', rc_written = True, rc_fired = False, rc_earlier = [],
      rc_during = map OutLine (answer_out ''t'' a) @ map ErrLine (answer_err ''t'' a)\<rparr>"

lemma append_shuffles: "xs @ ys \<in> shuffles xs ys"
  by (induction xs) (auto simp: Cons_in_shuffles_iff)

lemma ex_chance_events: "rc_during (ex_chance a) \<in> answer_events (rc_token (ex_chance a)) a"
  by (simp add: ex_chance_def answer_events_def append_shuffles)

lemma ex_token: "plain_token ''t''"
  by (simp add: plain_token_def is_space_def)

lemma ex_answers: "unmarked ''t'' ex_answer" "self_marked ''t'' ex_marked_answer"
proof -
  show "unmarked ''t'' ex_answer" by code_simp
  have "str_index (done_prefix @ out_mark ''t'' 0) done_prefix = Some 0" by code_simp
  then show "self_marked ''t'' ex_marked_answer"
    by (auto simp: self_marked_def ex_marked_answer_def intro!: exI [of _ "[]"])
qed

lemma ex_shell_holds: "rb_holds (bs_stdout ex_shell) []" "rb_holds (bs_stderr ex_shell) []"
  by (simp_all add: ex_shell_def rb_holds_new)

lemma ex_shell_idle: "bs_current ex_shell = None" "\<not> bs_closed ex_shell" "rb_max (bs_stdout ex_shell) = 4"
  "rb_max (bs_stderr ex_shell) = 4" "bs_finished ex_shell = []"
  by (simp_all add: ex_shell_def newRingBuffer_def)

section \<open>A disk\<close>

definition ex_disk :: disk where
  "ex_disk = \<lparr>dk_nodes = [(''f'', FileNode (''a'' @ newline_char # ''b''))], dk_write_fault = (\<lambda>p. None)\<rparr>"

definition ex_edit :: payload where
  "ex_edit = [(''path'', VStr ''f''), (''old_string'', VStr ''b''), (''new_string'', VStr ''c'')]"

definition ex_guard :: "mem_adapter stale_guard" where
  "ex_guard = \<lparr>gu_has_log = True, gu_Strict = True, gu_RequireRead = True,
               gu_sha = (\<lambda>s. CHR ''h'' # s), gu_env = ex_log_env\<rparr>"

definition ex_guarded :: "mem_adapter guarded" where
  "ex_guarded = \<lparr>gd_log = NewLog, gd_disk = ex_disk\<rparr>"

lemma ex_guard_simps: "gu_has_log ex_guard" "gu_sha ex_guard x = CHR ''h'' # x" "free_log (gd_log ex_guarded)"
  "gd_disk ex_guarded = ex_disk"
  by (simp_all add: ex_guard_def ex_guarded_def free_log_def NewLog_def)

lemma ex_read: "BuiltinReadFile [(''path'', VStr ''f'')] ex_disk =
    (Inr (formatNumberedFile (''a'' @ newline_char # ''b'') 0 2000), ex_disk)"
  by (simp add: BuiltinReadFile_def requiredString_def as_string_def ex_disk_def os_ReadFile_def read_offset_def
      read_limit_def intValue_def newline_char_def)

section \<open>A failed session\<close>

text \<open>An answer, and after it a terminal error.\<close>

definition ex_failed :: "(nat, mem_adapter, nat) world" where
  "ex_failed = ex_world [] [ex_user 0, ex_assistant 1 ''end_turn'', mk_ev 2 EventRuntimeError [(''terminal'', VBool True)]]"

lemma ex_failed_chat:
  "chat_run ex_env [(''text'', VStr ''again'')] ex_failed =
     (Inr (reply_of (w_log (append_w ex_env EventUserMessage [(''text'', VStr ''again'')] ex_failed)) ''runtime_failed''),
      append_w ex_env EventUserMessage [(''text'', VStr ''again'')] ex_failed)"
proof -
  let ?w = "append_w ex_env EventUserMessage [(''text'', VStr ''again'')] ex_failed"
  have "lg_err (w_log ?w) = None" "terminalRuntimeError (w_events ?w)" by code_simp+
  moreover have "analyzeToolReferences (w_events ?w) IntegrityDomainDurableLog = []" by code_simp
  then have "well_referenced (w_events ?w)" by (simp add: analyzeToolReferences_Nil_iff)
  ultimately show ?thesis by (simp add: chat_run_def Run_terminal)
qed

section \<open>MCP servers\<close>

text \<open>A server over HTTP that has one tool: its answers to the three exchanges of loading.\<close>

definition quoted :: "string \<Rightarrow> string" where "quoted s = CHR 0x22 # s @ [CHR 0x22]"

definition ex_tools_answer :: string where
  "ex_tools_answer =
     ''{'' @ quoted ''result'' @ '':{'' @ quoted ''tools'' @ '':[{'' @ quoted ''name'' @ '':'' @ quoted ''f'' @ ''}]}}''"

definition ex_mcp_http :: "string list mcp_http" where
  "ex_mcp_http =
     \<lparr>mh_do = (\<lambda>q w. (case w of [] \<Rightarrow> (Inl (RequestFailed ''refused''), []) | a # ws \<Rightarrow> (Inr (200, a), ws))),
      mh_url_error = (\<lambda>u. None), mh_json_error = (\<lambda>t. ''bad'')\<rparr>"

definition ex_mcp_client :: http_client where
  "ex_mcp_client = NewHTTPClient ''u'' ''m'' []"

text \<open>A child process, and a client of it whose first request waits when the output ends.\<close>

definition ex_stdio :: "unit stdio_env" where
  "ex_stdio = \<lparr>se_launch = (\<lambda>c as e. None), se_write = (\<lambda>t w. (None, w)),
               se_wait = (\<lambda>i w. (\<lparr>wt_inputs = [StdoutEnd], wt_timeout = None\<rparr>, w)), se_json_error = (\<lambda>t. ''bad'')\<rparr>"

definition ex_stdio_client :: stdio_client where
  "ex_stdio_client =
     \<lparr>mc_nextID = 1, mc_state = fresh_state ''m'', sc_command = ''c'', sc_args = [], sc_env = [], sc_pending = [],
      sc_channels = [], sc_closed = False, sc_reading = True\<rparr>"

lemma ex_stdio_new: "NewStdioClient ex_stdio ''c'' [] ''m'' [] = Inr ex_stdio_client"
  by (simp add: NewStdioClient_def ex_stdio_def ex_stdio_client_def)

lemma ex_stdio_run:
  "\<exists>s. stdio_after je (run_of ex_stdio_client) 3 s \<and> sr_waiting s = [1] \<and> \<not> sc_reading (sr_client s)"
proof -
  let ?s0 = "run_of ex_stdio_client"
  define s1 where "s1 = ?s0\<lparr>sr_client := register (sr_client ?s0), sr_writing := sr_writing ?s0 @ [mc_nextID (sr_client ?s0)]\<rparr>"
  define s2 where "s2 = s1\<lparr>sr_writing := removeAll 1 (sr_writing s1), sr_waiting := sr_waiting s1 @ [1]\<rparr>"
  define s3 where "s3 = s2\<lparr>sr_client := readLoop_step je StdoutEnd (sr_client s2), sr_read := sr_read s2 @ [StdoutEnd]\<rparr>"
  note defs = run_of_def ex_stdio_client_def register_def take_id_def stop_reading_def failPending_def
  have "stdio_step je ?s0 s1" unfolding s1_def by (rule Register)
  moreover have "stdio_step je s1 s2" unfolding s2_def by (rule Written) (simp_all add: s1_def defs)
  moreover have "stdio_step je s2 s3" unfolding s3_def by (rule Input)
  ultimately have "stdio_after je ?s0 (Suc (Suc (Suc 0))) s3" by (blast intro: stdio_after.intros)
  moreover have "sr_waiting s3 = [1]" "\<not> sc_reading (sr_client s3)" by (simp_all add: s3_def s2_def s1_def defs)
  ultimately show ?thesis by (auto simp: numeral_3_eq_3)
qed

section \<open>A SQL database\<close>

definition ex_sql_env :: sql_env where
  "ex_sql_env =
     \<lparr>qx_fault = (\<lambda>s. None), qx_rival = (\<lambda>db. db), qx_jsonb = (\<lambda>t. t), qx_unique = ''UNIQUE constraint failed'',
      qx_sha = (\<lambda>t. ''h''), qx_jcs_error = (\<lambda>e. ''jcs''), qx_json_error = (\<lambda>t. ''json'')\<rparr>"

definition ex_sql :: sql_adapter where
  "ex_sql = NewSQLStorageAdapter \<lparr>qd_sessions = [], qd_events = []\<rparr> ex_sql_env ''s'' ''w'' None [] None"

definition ex_draft :: event_draft where
  "ex_draft = \<lparr>dr_id = ''i'', dr_timestamp = ''t'', dr_type = EventUserMessage, dr_payload = []\<rparr>"

lemma ex_sql_rows: "sql_inv ex_sql" "sql_rows ex_sql = []" "fault_free ex_sql"
  by (auto simp: sql_inv_def sql_rows_def ex_sql_def ex_sql_env_def NewSQLStorageAdapter_def faithful_column_def
    json_column_def table_rows_def own_events_def fault_free_def intro!: exI [of _ "[]"])

lemma ex_draft_ok: "is_ok (sql_row_of a n ex_draft)"
proof (rule sql_row_of_ok)
  show "valid_utf8 (dr_id ex_draft)" "valid_utf8 (dr_timestamp ex_draft)" "valid_utf8 (event_type_string (dr_type ex_draft))"
    by code_simp+
qed (simp_all add: ex_draft_def jcs_object_def)

text \<open>Another writer's row at the end of the session, and the adapter it overtakes.\<close>

definition ex_rival :: sql_event where
  "ex_rival =
     \<lparr>qe_workspace = ''w'', qe_session = ''s'', qe_seq = 0, qe_id = ''r'', qe_timestamp = ''t'', qe_type = ''user_message'',
      qe_payload = ''{}'', qe_hash = ''h''\<rparr>"

definition ex_raced :: "sql_dialect \<Rightarrow> sql_adapter" where
  "ex_raced d = ex_sql\<lparr>sq_dialect := d, sq_env := ex_sql_env\<lparr>qx_rival := (\<lambda>db. db\<lparr>qd_events := qd_events db @ [ex_rival]\<rparr>)\<rparr>\<rparr>"

end
