(* ===== verification/Spec2Isabelle.thy ===== *)
theory Spec2Isabelle
  imports HostExamples
begin

text \<open>
  Harnas (Go) keeps the conversation of an agent as an append-only Log of events and derives
  everything else from it.  This development models the core of the module and proves what
  the rest of the program, and its hosts, rely on.

  The parts and how they meet.  A Session owns a Log, a registry of hooks and an observation
  hub.  \<^verbatim>\<open>AgentLoop.Run\<close> reads the Log, computes the effective stream with \<^verbatim>\<open>ApplyMutations\<close>,
  passes the integrity gate \<^verbatim>\<open>PrepareProviderCall\<close>, projects the stream into a provider request,
  calls the provider (plain or streaming) under a retry policy, checks the response as one
  step (\<^verbatim>\<open>closeProviderStep\<close>), appends it as one batch, and has the Runner execute the tool uses
  the hooks allow.  Strategies are hook handlers: the compactors append compact events before
  a projection, the guards answer \<^verbatim>\<open>pre_tool_use\<close>.  A Log may be bound to a storage adapter; then
  every append is written through first, and a failed write latches the Log.

  Theories, in the order of the imports.

  \<^item> Prelude, GoFloat, GoText: Go's strings (byte lists), decimal text, float64 values (rationals
    with IEEE rounding), UTF-8, rooted paths.
  \<^item> Values (values.go and the accessors of other files), Events (event.go, \<^verbatim>\<open>EventArgs\<close>).
  \<^item> Storage (storage.go): rows, drafts, the locale \<open>storage_adapter\<close> and the memory adapter, its
    interpretation.  EventLog (log.go): \<^verbatim>\<open>Append\<close>, \<^verbatim>\<open>AppendBatch\<close>, the latch.  Mutations
    (mutations.go).  Session (session.go, persistent\_log.go): forks, \<^verbatim>\<open>BindStorage\<close>,
    \<^verbatim>\<open>LoadSessionFromStorage\<close>.
  \<^item> Integrity (integrity.go): the analysis of tool references against its specification
    (\<open>well_referenced\<close>, \<open>all_resolved\<close>), \<^verbatim>\<open>PrepareProviderCall\<close>, prepared transcripts.
  \<^item> Hooks (hooks.go) with the worlds handlers act on and the contracts \<open>extends\<close> (the log only
    grows) and \<open>quiet\<close> (only observations and annotations are appended); Observe (observation.go);
    Provider (provider.go, retry\_policy.go, usage.go); Tools (tools.go, approval.go).
  \<^item> AgentLoop (agent\_loop.go), and its lemmas: LoopProps (growth), StepProps (closing a step and
    answering a batch keep the pairing of uses and results), RunProps (entry, reasons, pauses),
    ProviderGate (what the provider is asked, and how often).
  \<^item> Compaction and Guards (strategies.go), with CompactionProps and GuardProps.
  \<^item> GoJson: \<^verbatim>\<open>encoding/json\<close>, both directions, with JsonProps and JsonRoundtrip (what is written is read
    back).  FileStorage and FileStore (storage.go): the file adapter down to the text of its lines,
    with a fault for every file-system step, and its contract as an interpretation; FileProps.
    SessionFile (session.go, portability.go, capability\_manifest.go): \<^verbatim>\<open>Save\<close>, \<^verbatim>\<open>LoadSession\<close>,
    \<^verbatim>\<open>VerifySessionPortable\<close>; SessionFileProps.  Jcs (jcs.go): canonical JSON and the content hash,
    with JcsNumbers and JcsProps.
  \<^item> Streams (provider\_stream.go, provider\_http.go): the block scanner, the three SSE state machines,
    the stream providers and the buffered ones; StreamProps.  Contents (content\_blocks.go,
    provider\_carriers.go, input\_file.go, capabilities.go), Projections (projection\_*.go) and Ingestors
    (ingestor\_*.go, snapshot.go); ProjectionProps (requests are well-formed conversations) and
    IngestProps (what is ingested is shown again).  Attachments (attachments.go), AttachmentProps.
  \<^item> Delegation (delegation\_projection.go): the tree, the open children, timeline and usage of spawned
    sessions; DelegationProps.
  \<^item> Manifest (manifest.go: decoding and validation), ManifestBuild (manifest.go: registry, strategies,
    hooks, providers, installation), ManifestProps.
  \<^item> BashSession (bash\_session.go, bash\_session\_unix.go): ring buffers, framing, quoting, the readers of
    the two streams, the session and its registry; BashProps.
  \<^item> Disk (a file system as a map with faults), Middleware (tool\_middleware.go), BuiltinTools
    (builtin\_tools.go: the handlers), Skills (skills.go), BuiltinTable (builtin\_tools.go: the tables and
    the descriptors), BuiltinProps.  Transcript (transcript.go).  AgentFacade (agent.go, runtime.go).
  \<^item> Mcp (mcp/: content, descriptors, shared state, the HTTP client), McpStdio (the client of a child
    process, and its callers and read loop as a step relation), McpProps: the locale \<open>mcp_transport\<close>
    with both clients as interpretations.
  \<^item> SqlStorage (storage\_sql.go: the statements as text for both dialects, the two tables, a fault for
    every query, the writers that commit in between), SqlProps: its contract as the locale
    \<open>row_store\<close>, interpreted on the adapter.
  \<^item> WireExamples, TurnExamples, StateExamples, HostExamples: further concrete inputs.
  \<^item> Examples: concrete worlds for the witnesses.  This theory: the properties.

  How state corresponds.  A Go struct is a record with one field per field the model needs; a
  map is an association list whose order stands for the iteration order; a method with a
  pointer receiver returns the changed record.  A pair of value and error is a sum, \<open>Inl\<close> the
  error.  A Go \<^verbatim>\<open>int\<close> is an integer, wrapped (\<open>wrap64\<close>) where a sum can leave 64 bits.  Hooks,
  tools, providers and callbacks are functions on a world \<open>('h, 'st, 'w) world\<close> whose component
  \<open>'w\<close> is everything outside the session; a panic with \<^verbatim>\<open>TurnFailed\<close> is the left side of an
  \<open>act\<close>.  Clocks, random identifiers, the SHA-256 digest and the file system are parameters.

  What the properties say, by group: a provider is only asked ready requests, at most so many
  of them; a provider step and a tool batch keep every tool use paired with one result; a
  paused batch runs nothing; appends are all or none and what is stored is what is loaded;
  mutations and compactions keep the transcript ready; the guards decide as documented, and
  where they do not, the property states what they do instead (the findings of the manifest).
  What is appended to a file, saved, or put into an attachment directory is read back, or nothing
  has changed; content hashes survive storage; requests to the three providers are well-formed
  conversations in which every call is answered once; streams emit nothing durable before they are
  complete; a valid manifest builds exactly when its host provides what it names; a bash command
  completes with its own output and nothing else completes it; \<^verbatim>\<open>edit_file\<close>, the pages of \<^verbatim>\<open>read_file\<close>,
  the stale read guard and the argument checks of the built-in tools do what their descriptors say;
  an MCP server is asked for its tools once, and every request to it gets its own answer.
  Rows appended to the SQL tables are read back, and a writer that was overtaken is refused; the rate
  limiter never lets more calls through a window than it is configured for.

  Bounds.  A run's turns are a recursion on \<open>MaxTurns\<close>, 10 when unset, as in the loop; attempts are a
  recursion bounded by the policy's \<open>max_attempts\<close>, which is the code's own exit condition, so
  neither needs fuel.  The credential template loop is \<open>partial_function (option)\<close>: the lemmas give a
  condition under which it returns, and an input on which it never does.
  JSON decoding has fuel, two units for each byte of the input (lemma \<open>fuel_enough\<close> of GoJson), and a
  nesting limit of 10000, Go's own.  The loops of the stream, the bash and the MCP readers are folds over
  the lines they are given.  Line limits (16 MiB, 1 MiB, 64 KiB) are those of the code's scanners.

  Not modelled, and why.  Locks (a section under a lock is one step, and other operations are taken as
  sequential, except for the callers and the read loop of the MCP client), durations and sleeps,
  contexts and cancellation; aliasing of payload maps (values are copied).  Parameters stand for what
  is outside the program: processes and their signals, the HTTP client, the environment, directory
  walks and patterns, regular expressions of the user, SHA-256, random identifiers, the words of JSON
  errors, the SQL engine's answer to a lost race.  bash\_session\_windows.go and
  mcp/stdio\_process\_*.go only pick a shell and end a process.
  conformance is a test harness that replays fixtures against the modules modelled here; cmd and
  examples parse command lines and print.
\<close>

section \<open>The agent loop\<close>

text \<open>C1: A run never looks at what its provider answers to a request that is not ready.  A ready
  request is the projection of a stream that is referentially sound, has a result for every
  tool use, and has no mutation left to apply; replacing the provider by one that agrees on
  the ready requests leaves the run as it was, result and world.\<close>

theorem run_asks_ready_requests:
  assumes "agree_on_ready env p s"
  shows "Run (env\<lparr>al_provider := p, al_stream := s\<rparr>) w = Run env w"
  using Run_ready [OF assms] by (simp add: with_provider_def)

theorem run_asks_ready_requests_witness:
  "Run (ex_env\<lparr>al_provider := \<lambda>q n. if q = [] then (Inl (response_integrity_error [] []), n + 7) else ex_provider q n,
       al_stream := None\<rparr>) (ex_world [] [ex_user 0])
   = Run ex_env (ex_world [] [ex_user 0])"
  by (rule run_asks_ready_requests) (auto simp: agree_on_ready_def ready_request_def ex_env_def)

text \<open>C2: A run calls its provider at most \<^verbatim>\<open>MaxTurns\<close> (10 when unset) times the number of attempts
  its retry policy allows; \<open>calls\<close> is the provider's own count of its calls.\<close>

theorem run_call_budget:
  assumes "counts_calls calls env"
  shows "calls (w_ext (snd (Run env w)))
    \<le> calls (w_ext w) + nat (if al_MaxTurns env = 0 then 10 else al_MaxTurns env) *
        attempt_budget (case al_retry env of None \<Rightarrow> DefaultRetryPolicy | Some p \<Rightarrow> p) 1"
  using Run_calls [OF assms] by (simp add: step_budget_def)

theorem run_call_budget_witness:
  "w_ext (snd (Run ex_env (ex_world [] [ex_user 0]))) \<le> 15"
proof -
  have b: "attempt_budget DefaultRetryPolicy 1 = 3" by code_simp
  show ?thesis
    using run_call_budget [OF ex_counts_calls, of "ex_world [] [ex_user 0]"] b by (simp add: ex_world_def)
qed

text \<open>C3: A batch of tools keeps the log sound.  With handlers and tools that leave tool uses and
  results to the loop, \<^verbatim>\<open>dispatchPendingTools\<close> adds no use, keeps every reference valid, adds
  no result at all when it pauses for approval, and otherwise leaves no use without a result,
  unless a write failed.\<close>

theorem dispatch_keeps_pairing:
  assumes "handlers_rel quiet env" and "\<And>registry. re_registry env = Some registry \<Longrightarrow> tools_rel quiet registry"
    and "well_referenced (w_events w)" and "dense (w_events w)"
    and "dispatchPendingTools env w = (res, w')"
  shows "well_referenced (w_events w') \<and> dense (w_events w') \<and>
    uses_of (w_events w') = uses_of (w_events w) \<and>
    (res = Inr (pendingToolUses (w_events w), True) \<longrightarrow> quiet w w') \<and>
    (res = Inr (pendingToolUses (w_events w), False) \<and> lg_err (w_log w') = None \<and> re_registry env \<noteq> None \<longrightarrow>
       all_resolved (w_events w'))"
  by (rule dispatchPendingTools_integrity [OF assms])

theorem dispatch_keeps_pairing_witness:
  "all_resolved (w_events (snd (dispatchPendingTools ex_env (ex_world [] ex_open))))"
proof -
  define w where "w = ex_world [] ex_open"
  have ev: "fst (dispatchPendingTools ex_env w) = Inr (pendingToolUses (w_events w), False) \<and>
      lg_err (w_log (snd (dispatchPendingTools ex_env w))) = None" unfolding w_def by code_simp
  have wr: "well_referenced (w_events w)" "dense (w_events w)" unfolding w_def by code_simp+
  have t: "re_registry ex_env = Some registry \<Longrightarrow> tools_rel quiet registry" for registry
    using ex_tools_quiet by simp
  show ?thesis
    using dispatch_keeps_pairing [OF ex_handlers_quiet t wr prod.collapse [symmetric]] ev
    by (simp add: w_def)
qed

text \<open>C4: What the loop accepts as a provider step, and what it commits.  An accepted response has
  exactly one assistant message with a stop reason, uses with distinct ids and names, and no
  result; unless the step stops for its tools every use gets a synthesised result in the same
  batch.  Committed to a sound log that does not hold the ids yet, it keeps the log sound.\<close>

theorem provider_step_sound:
  assumes "closeProviderStep events = Inr (turn, staged)"
    and "well_referenced (lg_events lg)" and "dense (lg_events lg)" and "fresh_ids (lg_events lg) events"
    and "AppendBatch env staged lg = (Inr es, lg')"
  shows "step_shape events turn staged \<and> well_referenced (lg_events lg') \<and>
    map use_id (uses_of es) = map (\<lambda>u. ea_str u ''id'') (arg_uses events) \<and>
    map result_id (results_of es) =
      (if tn_stopReason turn = ''tool_use'' then [] else map use_id (uses_of es))"
  using closeProviderStep_shape [OF assms(1)]
    commit_well_referenced [OF assms(2,3) closeProviderStep_shape [OF assms(1)] assms(4,5)] by simp

theorem provider_step_sound_witness:
  "\<exists>turn staged es lg'. closeProviderStep [ex_message ''max_tokens'', ex_use_args ''c''] = Inr (turn, staged) \<and>
     AppendBatch ex_log_env staged (ex_log [ex_user 0]) = (Inr es, lg') \<and>
     map result_id (results_of es) = [''c'']"
proof -
  define r where "r = closeProviderStep [ex_message ''max_tokens'', ex_use_args ''c'']"
  have "is_ok r \<and> (case r of Inl e \<Rightarrow> False
      | Inr (turn, staged) \<Rightarrow> tn_stopReason turn = ''max_tokens'' \<and>
          is_ok (fst (AppendBatch ex_log_env staged (ex_log [ex_user 0]))))"
    unfolding r_def by code_simp
  then obtain turn staged where r: "closeProviderStep [ex_message ''max_tokens'', ex_use_args ''c''] = Inr (turn, staged)"
    and stop: "tn_stopReason turn = ''max_tokens''"
    and ok: "is_ok (fst (AppendBatch ex_log_env staged (ex_log [ex_user 0])))"
    by (cases r) (auto simp: r_def)
  then obtain es lg' where a: "AppendBatch ex_log_env staged (ex_log [ex_user 0]) = (Inr es, lg')"
    by (cases "AppendBatch ex_log_env staged (ex_log [ex_user 0])"; cases "fst (AppendBatch ex_log_env staged (ex_log [ex_user 0]))") auto
  have "well_referenced (lg_events (ex_log [ex_user 0]))" "dense (lg_events (ex_log [ex_user 0]))" by code_simp+
  moreover have "fresh_ids (lg_events (ex_log [ex_user 0])) [ex_message ''max_tokens'', ex_use_args ''c'']" by code_simp
  ultimately have "map use_id (uses_of es) = [''c''] \<and> map result_id (results_of es) = map use_id (uses_of es)"
    using provider_step_sound [OF r _ _ _ a] stop
    by (simp add: ex_message_def ex_use_args_def pget_def aget_def)
  with r a show ?thesis by simp
qed

text \<open>What \<^verbatim>\<open>Run\<close> refuses to do.  On a latched, corrupt or finished log, and while a pending use
  waits for a host's decision, it returns at once and leaves the world alone.\<close>

lemma run_entry_refusals:
  "(\<forall>err. lg_err (w_log w) = Some err \<longrightarrow> Run env w = (Inl (RunStorage err), w)) \<and>
   (lg_err (w_log w) = None \<and> \<not> well_referenced (w_events w) \<longrightarrow>
      (\<exists>vs. vs \<noteq> [] \<and> Run env w = (Inl (RunIntegrity vs), w))) \<and>
   (lg_err (w_log w) = None \<and> well_referenced (w_events w) \<and> terminalRuntimeError (w_events w) \<longrightarrow>
      Run env w = (Inr ''runtime_failed'', w)) \<and>
   (lg_err (w_log w) = None \<and> well_referenced (w_events w) \<and> \<not> terminalRuntimeError (w_events w) \<and>
    (\<exists>u \<in> set (pendingToolUses (w_events w)). awaits (w_events w) (use_id u)) \<longrightarrow>
      Run env w = (Inr ''awaiting_approval'', w))"
  using Run_latched [of w _ env] Run_corrupt [of w env] Run_terminal [of w env] Run_awaiting [of w _ env]
  by blast

text \<open>C5: A run only appends: the old log is a prefix of the new one, density is kept, a latched log
  does not change; and a run that returns a reason returns one of the documented ones (the
  empty one where a batch left a use open that no provider can see).\<close>

theorem run_append_only:
  assumes "runner_extends env"
  shows "prefix (w_events w) (w_events (snd (Run env w))) \<and>
    (dense (w_events w) \<longrightarrow> dense (w_events (snd (Run env w)))) \<and>
    (lg_err (w_log w) \<noteq> None \<longrightarrow> w_events (snd (Run env w)) = w_events w) \<and>
    (\<forall>reason. fst (Run env w) = Inr reason \<longrightarrow>
       reason \<in> {[], ''end_turn'', ''awaiting_approval'', ''runtime_failed'', ''max_turns_reached'',
         ''provider_failed'', ''incomplete_tool_batch'', ''no_pending_tools''})"
proof -
  have e: "extends w (snd (Run env w))" by (rule Run_extends_body [OF assms])
  have "reason \<in> insert [] run_reasons" if "fst (Run env w) = Inr reason" for reason
    using Run_reason [of env w reason "snd (Run env w)"] that by (metis prod.collapse)
  then show ?thesis
    using e extends_prefix [OF e] unfolding extends_def run_reasons_def by blast
qed

theorem run_append_only_witness:
  "dense (w_events (snd (Run ex_env (ex_world [] ex_open)))) \<and>
   prefix ex_open (w_events (snd (Run ex_env (ex_world [] ex_open))))"
proof -
  have "dense ex_open \<and> w_events (ex_world [] ex_open) = ex_open" by code_simp
  with run_append_only [OF ex_runner_extends, of "ex_world [] ex_open"] show ?thesis by simp
qed

text \<open>C6: A paused batch runs no tool.  The same pause happens with any other registry in place of
  the runner's, and when the handlers leave the log alone, exactly one approval request per
  held use is appended and nothing else.\<close>

theorem paused_batch_runs_no_tool:
  assumes "dispatchPendingTools env w = (Inr (pending, True), w')"
  shows "dispatchPendingTools (env\<lparr>re_registry := Some registry\<rparr>) w = (Inr (pending, True), w') \<and>
    (handlers_silent env \<and> lg_err (w_log w') = None \<longrightarrow>
       (\<exists>ds es. map fst ds = pendingToolUses (w_events w) \<and> approval_requests ds \<noteq> [] \<and>
          w_events w' = w_events w @ es \<and> map args_of es = map request_args (approval_requests ds)))"
  using dispatch_paused_any_registry [OF assms] dispatch_paused_events [OF _ assms] by blast

theorem paused_batch_runs_no_tool_witness:
  "dispatchPendingTools (ex_env\<lparr>re_registry := Some NewRegistry\<rparr>) (ex_world [(''pre_tool_use'', [1])] ex_open)
   = dispatchPendingTools ex_env (ex_world [(''pre_tool_use'', [1])] ex_open)"
proof -
  define w where "w = ex_world [(''pre_tool_use'', [1])] ex_open"
  have "case fst (dispatchPendingTools ex_env w) of Inr (p, b) \<Rightarrow> b | Inl e \<Rightarrow> False"
    unfolding w_def by code_simp
  then obtain p w' where d: "dispatchPendingTools ex_env w = (Inr (p, True), w')"
    by (cases "dispatchPendingTools ex_env w") (auto split: sum.splits prod.splits)
  from paused_batch_runs_no_tool [OF d, of NewRegistry] d show ?thesis by (simp add: w_def)
qed

text \<open>Refuse beats RequestApproval beats Allow.  A use is held exactly when some decision asks
  for approval and none refuses, and a batch goes on exactly when no use is held.\<close>

lemma decision_composition:
  "((u, reason, by) \<in> set (approval_requests ds) \<longleftrightarrow>
      (\<exists>vs. (u, vs) \<in> set ds \<and> (\<forall>d \<in> set vs. \<not> refuses d) \<and>
         pendingApprovalByHook vs = Some (reason, by))) \<and>
   (approval_requests ds = [] \<longleftrightarrow>
      (\<forall>(u, vs) \<in> set ds. (\<exists>d \<in> set vs. refuses d) \<or> (\<forall>d \<in> set vs. \<not> asks_approval d)))"
  using set_approval_requests [of u reason "by" ds] approval_requests_Nil_iff [of ds]
  by (simp add: deniedByHook_None_iff)

section \<open>Approvals and the runner\<close>

text \<open>C7: An approval is resolved at most once.  \<^verbatim>\<open>ApproveToolUse\<close> and \<^verbatim>\<open>DenyToolUse\<close> succeed only on
  an open tool use and leave it closed, so a second resolution of the same use fails and
  changes nothing.\<close>

theorem approval_resolved_once:
  assumes "\<And>registry. re_registry env = Some registry \<Longrightarrow> tools_extend registry"
    and "ApproveToolUse env tid r w = (Inr u, w') \<or> DenyToolUse env tid r w = (Inr u, w')"
  shows "open_use (w_events w) tid \<and> \<not> open_use (w_events w') tid \<and>
    (\<exists>err. ApproveToolUse env tid r' w' = (Inl err, w')) \<and>
    (\<exists>err. DenyToolUse env tid r' w' = (Inl err, w'))"
proof -
  have "open_use (w_events w) tid \<and> \<not> open_use (w_events w') tid"
    using assms(2) ApproveToolUse_ok [OF assms(1)] DenyToolUse_ok by blast
  with Approve_not_open [of w' tid env r'] show ?thesis by blast
qed

theorem approval_resolved_once_witness:
  "\<not> open_use (w_events (snd (ApproveToolUse ex_env ''a'' \<lparr>ar_reason = [], ar_resolved_by = []\<rparr> (ex_world [] ex_open)))) ''a''"
proof -
  define x where "x = ApproveToolUse ex_env ''a'' \<lparr>ar_reason = [], ar_resolved_by = []\<rparr> (ex_world [] ex_open)"
  have "is_ok (fst x)" unfolding x_def by code_simp
  then obtain u where "x = (Inr u, snd x)" by (cases x; cases "fst x") auto
  then have a: "ApproveToolUse ex_env ''a'' \<lparr>ar_reason = [], ar_resolved_by = []\<rparr> (ex_world [] ex_open) = (Inr u, snd x)"
    by (simp add: x_def)
  have t: "re_registry ex_env = Some registry \<Longrightarrow> tools_extend registry" for registry
    using ex_tools_extend by simp
  from approval_resolved_once [OF t disjI1 [OF a]] show ?thesis by (simp add: x_def)
qed

text \<open>C8: Every tool run ends with its result.  Whatever the tool does (fails, is unknown, spawns a
  child), after \<^verbatim>\<open>Runner.Run\<close> the last event is a result for the id of the use, unless a
  write failed and latched the log.\<close>

theorem runner_always_answers:
  assumes "tools_extend registry"
  shows "lg_err (w_log (Runner_Run env registry toolUse w)) \<noteq> None \<or>
    (\<exists>es r. w_events (Runner_Run env registry toolUse w) = w_events w @ es @ [r] \<and>
       is_result r \<and> pget (ev_payload r) ''tool_use_id'' = VStr (use_id toolUse))"
  by (rule Runner_Run_result [OF assms])

theorem runner_always_answers_witness:
  "\<exists>es r. w_events (Runner_Run ex_env ex_registry (ex_use 2 ''a'') (ex_world [] ex_open)) = ex_open @ es @ [r] \<and>
     is_result r"
proof -
  have "lg_err (w_log (Runner_Run ex_env ex_registry (ex_use 2 ''a'') (ex_world [] ex_open))) = None \<and>
      w_events (ex_world [] ex_open) = ex_open" by code_simp
  with runner_always_answers [OF ex_tools_extend, of ex_env "ex_use 2 ''a''" "ex_world [] ex_open"]
  show ?thesis by auto
qed

text \<open>The registry.  A successful registration makes exactly the new name findable and was of a
  free name; a refused one changes nothing; and \<^verbatim>\<open>Tools\<close> lists the registered tools by strictly
  increasing name.\<close>

lemma registry_listing:
  assumes "registry_inv r" and "Register t r = (res, r')"
  shows "registry_inv r' \<and> set (registry_Tools r') = {t. \<exists>n. Find r' n = Some t} \<and>
    sorted_wrt (<) (map tl_name (registry_Tools r')) \<and>
    (case res of
       Inl err \<Rightarrow> r' = r
     | Inr u \<Rightarrow> Find r (tl_name t) = None \<and>
         (\<forall>n. Find r' n = (if n = tl_name t then Some t else Find r n)))"
proof -
  have i: "registry_inv r'" by (rule Register_inv [OF assms])
  show ?thesis
  proof (cases res)
    case (Inl err)
    with assms i registry_Tools_spec [OF i] show ?thesis by (auto dest: Register_Inl)
  next
    case (Inr u)
    have reg: "Register t r = (Inr u, r')" using assms(2) Inr by simp
    show ?thesis
      unfolding Inr sum.case
      using i registry_Tools_spec [OF i] Register_Find [OF reg] by blast
  qed
qed

section \<open>Hooks\<close>

text \<open>C9: The error policy of hooks.  Where no handler is registered with \<^verbatim>\<open>fail_turn\<close>, \<^verbatim>\<open>Invoke\<close>
  returns whatever its handlers do; where one is, a panic that comes out of \<^verbatim>\<open>Invoke\<close> has left a
  terminal runtime error with its message in the log, unless the log is latched.\<close>

theorem hook_error_policy:
  "(isolating (he_code env) (w_hooks w) \<longrightarrow> (\<exists>vs w'. Invoke env point ctx w = (Inr vs, w'))) \<and>
   (\<forall>msg w'. Invoke env point ctx w = (Inl msg, w') \<longrightarrow>
      (\<exists>e \<in> set (w_events w'). terminal_event e \<and> ev_str e ''message'' = msg) \<or>
      lg_err (w_log w') \<noteq> None)"
  using Invoke_isolated [of env w point ctx] Invoke_panic [of env point ctx w] by blast

theorem hook_error_policy_witness:
  "\<exists>vs w'. Invoke ex_env ''pre_tool_use'' CtxSession (ex_world [(''pre_tool_use'', [3, 0])] ex_open) = (Inr vs, w')"
proof -
  have "isolating (he_code ex_env) (w_hooks (ex_world [(''pre_tool_use'', [3, 0])] ex_open))"
    by (simp add: isolating_def ex_world_def)
  then show ?thesis by (rule hook_error_policy [THEN conjunct1, THEN mp])
qed

text \<open>The registry's metadata is keyed by the handler's code, which the closures of one function
  literal share: registering a second closure replaces the error policy of the first, and
  removing the second one removes the first and the policy of both.\<close>

lemma hook_metadata_shared:
  assumes "code ha = code hb" and "ho_on_error ob \<noteq> []" and "handlers_at hk pb = []"
  shows "ho_on_error (aget no_options
           (hk_metadata (OnWithOptions code pb hb ob (OnWithOptions code pa ha oa hk))) (code ha))
         = ho_on_error ob \<and>
    handlers_at (Off code pb hb (OnWithOptions code pb hb oc (OnWithOptions code pb ha ob hk))) pb = [hb] \<and>
    map_of (hk_metadata (Off code pb hb (OnWithOptions code pb hb oc (OnWithOptions code pb ha ob hk)))) (code hb)
      = None"
proof -
  have h: "handlers_at (OnWithOptions code pb hb oc (OnWithOptions code pb ha ob hk)) pb = [ha, hb]"
    using assms(3) by simp
  show ?thesis
    using OnWithOptions_overrides [of code ha hb ob pb pa oa hk] Off_other_handler [OF h, of code] assms(1,2)
    by simp
qed

section \<open>The log and its storage\<close>

text \<open>C10: A batch is all-or-none.  On a log that is in step with its memory adapter,
  \<^verbatim>\<open>AppendBatch\<close> either returns the published events and the adapter has grown by the whole
  batch, or it returns an error and the adapter has not grown at all; either way the log and
  the adapter hold the same events afterwards.\<close>

theorem append_batch_all_or_none:
  assumes "synced ma_rows mem_inv lg" and "le_append env = mem_AppendEvents"
    and "lg_storage lg = Some st" and "AppendBatch env args lg = (r, lg')"
    and "lg_storage lg' = Some st'"
  shows "synced ma_rows mem_inv lg' \<and>
    ((\<exists>es. r = Inr es \<and> length (ma_rows st') = length (ma_rows st) + length args) \<or>
     (\<exists>e. r = Inl e \<and> length (ma_rows st') = length (ma_rows st)))"
  using memory.AppendBatch_all_or_none [OF assms(1,2,4,3,5)]
    memory.AppendBatch_synced [OF assms(1,2), of args] assms(4) by simp

theorem append_batch_all_or_none_witness:
  "\<exists>es lg' st'. AppendBatch ex_log_env [ex_message ''end_turn''] ex_bound = (Inr es, lg') \<and>
     lg_storage lg' = Some st' \<and> length (ma_rows st') = 1"
proof -
  have s: "synced ma_rows mem_inv ex_bound"
    by (simp add: synced_def ex_bound_def NewLog_def NewMemoryStorageAdapter_def mem_inv_def)
  have e: "le_append ex_log_env = mem_AppendEvents" by (simp add: ex_log_env_def)
  obtain r lg' where a: "AppendBatch ex_log_env [ex_message ''end_turn''] ex_bound = (r, lg')" by fastforce
  have "is_ok (fst (AppendBatch ex_log_env [ex_message ''end_turn''] ex_bound)) \<and>
      lg_storage (snd (AppendBatch ex_log_env [ex_message ''end_turn''] ex_bound)) \<noteq> None" by code_simp
  then obtain st' where st': "is_ok r" "lg_storage lg' = Some st'" using a by auto
  have b: "lg_storage ex_bound = Some NewMemoryStorageAdapter" by (simp add: ex_bound_def)
  show ?thesis
    using append_batch_all_or_none [OF s e b a st'(2)] a st'
    by (auto simp: NewMemoryStorageAdapter_def)
qed

text \<open>What \<^verbatim>\<open>AppendBatch\<close> publishes.  On success the log is extended by exactly the given
  types and payloads, in order, numbered from its old length; on failure the events are
  unchanged and the error is latched.  Density is kept in both cases.\<close>

lemma append_batch_publishes:
  assumes "AppendBatch env args lg = (r, lg')"
  shows "(case r of
      Inr es \<Rightarrow> lg_events lg' = lg_events lg @ es \<and> map args_of es = args \<and> lg_err lg' = None \<and>
        map ev_seq es = map (\<lambda>i. int (length (lg_events lg) + i)) [0..<length args]
    | Inl err \<Rightarrow> lg_events lg' = lg_events lg \<and> lg_err lg' = Some err) \<and>
    (dense (lg_events lg) \<longrightarrow> dense (lg_events lg'))"
proof -
  have d: "dense (lg_events lg) \<longrightarrow> dense (lg_events lg')"
    using AppendBatch_dense [of lg env args] assms by simp
  show ?thesis
  proof (cases r)
    case (Inl err)
    with AppendBatch_Inl assms d show ?thesis by fastforce
  next
    case (Inr es)
    from AppendBatch_Inr [OF assms [unfolded Inr]] d show ?thesis by (simp add: Inr)
  qed
qed

text \<open>The optimistic-concurrency fence of the memory adapter.  A successful fenced append
  saw the end of the log, and a second writer with the same expectation is refused.\<close>

lemma append_fence_race:
  assumes "mem_inv st" and "ds \<noteq> []" and "mem_AppendEvents st ds (Some n) = (Inr rs, st')"
  shows "n = int (length (ma_rows st)) \<and> (\<exists>e st''. mem_AppendEvents st' ds' (Some n) = (Inl e, st''))"
  using memory.append_fenced [OF assms(1,3)] memory.append_race [OF assms] by simp

text \<open>\<^verbatim>\<open>EventsSince\<close> returns exactly the rows after the cursor, all of them without one.\<close>

lemma events_since_filter:
  assumes "mem_inv a"
  shows "mem_EventsSince a cursor =
    Inr (case cursor of None \<Rightarrow> ma_rows a | Some c \<Rightarrow> filter (\<lambda>r. c < rw_seq r) (ma_rows a))"
  using assms by (auto simp: mem_EventsSince_def mem_inv_def rows_since_filter split: option.splits)

text \<open>C11: Binding a session to an empty memory adapter and loading it back restores its header
  and its events (up to the content hash, which this adapter does not compute).\<close>

theorem bind_load_roundtrip:
  assumes "BindStorage memory_adapter (Some NewMemoryStorageAdapter) s = (Inr s', Some st)"
    and "LoadSessionFromStorage memory_adapter (Some st) = Inr s2"
  shows "header_of_session s2 = header_of_session s \<and>
    map (\<lambda>e. e\<lparr>ev_hash := []\<rparr>) (lg_events (ss_log s2)) =
      map (\<lambda>e. e\<lparr>ev_hash := []\<rparr>) (lg_events (ss_log s)) \<and>
    synced ma_rows mem_inv (ss_log s') \<and> synced ma_rows mem_inv (ss_log s2)"
proof -
  have i: "mem_inv NewMemoryStorageAdapter" and e: "ma_rows NewMemoryStorageAdapter = []"
    by (simp_all add: mem_inv_def NewMemoryStorageAdapter_def)
  have st: "mem_inv st" using memory_store.BindStorage_ok [OF i assms(1)] by simp
  show ?thesis
    using memory_store.Bind_Load_roundtrip [OF i e assms]
      memory_store.BindStorage_fresh_synced [OF i e assms(1)]
      memory_store.LoadSessionFromStorage_ok [OF st assms(2)] by simp
qed

theorem bind_load_roundtrip_witness:
  "\<exists>st s2. LoadSessionFromStorage memory_adapter (Some st) = Inr s2 \<and>
     header_of_session s2 = header_of_session (ex_session ex_closed)"
proof -
  define b where "b = BindStorage memory_adapter (Some NewMemoryStorageAdapter) (ex_session ex_closed)"
  have ok: "is_ok (fst b) \<and> snd b \<noteq> None \<and>
      is_ok (LoadSessionFromStorage memory_adapter (snd b))" unfolding b_def by code_simp
  then obtain s' st where bs: "b = (Inr s', Some st)"
    by (cases b; cases "fst b"; cases "snd b") auto
  with ok obtain s2 where l: "LoadSessionFromStorage memory_adapter (Some st) = Inr s2"
    by (cases "LoadSessionFromStorage memory_adapter (Some st)") auto
  from bind_load_roundtrip [OF bs [unfolded b_def] l] l show ?thesis by blast
qed

text \<open>A fork holds exactly the events up to and including the given number, is not bound to
  any storage and starts unlatched.\<close>

lemma fork_prefix:
  assumes "dense (lg_events (ss_log s))"
  shows "lg_events (ss_log (Fork uuid n s)) = take (nat (n + 1)) (lg_events (ss_log s)) \<and>
    lg_storage (ss_log (Fork uuid n s)) = None \<and> lg_err (ss_log (Fork uuid n s)) = None"
  by (rule Fork_log [OF assms])

section \<open>Session files\<close>

text \<open>C12: What is appended to a session file is read back.  On a settled file (one the adapter itself
  wrote, with a header) and without file-system faults, appending rows the file can keep succeeds
  for every expectation that is absent or right; the file is settled again, has the same
  header, and reading it gives the old rows followed by the new ones in stored form (map keys
  sorted, numbers as their decimal text).\<close>

theorem file_append_roundtrip:
  assumes "file_inv a" and "file_LoadSession a = Inr (Some h)"
    and "fa_fault a = (\<lambda>s. None)" and "fa_read_fault a = None"
    and "rs = rows_of_drafts (int (length (file_rows a))) ds" and "list_all row_ok rs"
    and "ex = None \<or> ex = Some (int (length (file_rows a)))"
  shows "\<exists>a'. file_AppendEvents a ds ex = (Inr rs, a') \<and> file_inv a' \<and>
    file_LoadSession a' = Inr (Some h) \<and>
    file_EventsSince a' None = Inr (file_rows a @ map stored_row rs)"
proof -
  obtain h' rows where f: "fa_file a = Some (file_text h' rows)" "settled_file h' rows"
    using assms(1,2) by (auto simp: file_inv_def file_LoadSession_def readAll_def assms(3))
  have r: "file_rows a = rows" "h' = h"
    using settled_read [OF f] settled_contents [OF f] assms(2-4)
    by (simp_all add: file_rows_def file_LoadSession_def)
  obtain a' where a': "file_AppendEvents a ds ex = (Inr rs, a')" "fa_fault a' = fa_fault a"
    "fa_read_fault a' = fa_read_fault a"
    using file_append_succeeds [OF f assms(3,4), of ds ex] assms(5-7) r by auto
  note app = file_append_settled [OF f a'(1) assms(6)]
  then have st: "settled_file h (rows @ map stored_row rs)"
    "fa_file a' = Some (file_text h (rows @ map stored_row rs))"
    unfolding r(2) by blast+
  have read: "readAll a' = Inr (h, rows @ map stored_row rs)"
    using settled_read [OF st(2,1)] a' assms(3,4) by simp
  have "file_storable a rs" using f assms(6) by (simp add: file_storable_def)
  then have "file_inv a'" using file_store.store_ok [OF assms(1) a'(1)] by simp
  then show ?thesis using a'(1) read r
    by (auto simp: file_LoadSession_def file_EventsSince_def rows_since_def)
qed

theorem file_append_roundtrip_witness:
  "\<exists>a'. file_AppendEvents ex_file [draft_of_event (ex_user 0)] (Some 0) = (Inr [ex_row], a') \<and>
     file_EventsSince a' None = Inr [stored_row ex_row]"
proof -
  have f: "fa_file ex_file = Some (file_text ex_header [])" "fa_fault ex_file = (\<lambda>s. None)"
    "fa_read_fault ex_file = None" by (simp_all add: ex_file_def)
  have i: "file_inv ex_file" "file_rows ex_file = []"
    using f(1) ex_header_ok settled_contents [OF f(1) ex_header_ok]
    by (auto simp: file_inv_def file_rows_def)
  have l: "file_LoadSession ex_file = Inr (Some ex_header)"
    using settled_read [OF f(1) ex_header_ok] f by (simp add: file_LoadSession_def)
  have rs: "[ex_row] = rows_of_drafts (int (length (file_rows ex_file))) [draft_of_event (ex_user 0)]"
    by (simp add: i ex_row_def)
  have "\<exists>a'. file_AppendEvents ex_file [draft_of_event (ex_user 0)] (Some 0) = (Inr [ex_row], a') \<and> file_inv a' \<and>
      file_LoadSession a' = Inr (Some ex_header) \<and>
      file_EventsSince a' None = Inr (file_rows ex_file @ map stored_row [ex_row])"
    by (rule file_append_roundtrip [OF i(1) l f(2,3) rs]) (simp_all add: ex_row_ok i)
  then show ?thesis by (auto simp: i)
qed

text \<open>C13: A file append is atomic.  Whatever step of the file system fails, and whatever the file
  holds, an append that returns an error leaves the file as it was; an append that succeeds on a
  settled file met its expectation, and a second writer with that expectation is refused.\<close>

theorem file_append_atomic:
  assumes "file_AppendEvents a ds ex = (r, a')"
  shows "(\<forall>e. r = Inl e \<longrightarrow> a' = a) \<and>
    (\<forall>rs n. r = Inr rs \<and> ex = Some n \<and> file_inv a \<and> file_storable a rs \<and> rs \<noteq> [] \<longrightarrow>
       n = int (length (file_rows a)) \<and> (\<exists>e a''. file_AppendEvents a' ds' (Some n) = (Inl e, a'')))"
proof (intro conjI allI impI)
  fix e assume "r = Inl e"
  then show "a' = a" using assms file_append_error by blast
next
  fix rs n assume *: "r = Inr rs \<and> ex = Some n \<and> file_inv a \<and> file_storable a rs \<and> rs \<noteq> []"
  then have a: "file_AppendEvents a ds (Some n) = (Inr rs, a')" using assms by simp
  show "n = int (length (file_rows a))"
    using file_store.store_fence [of a n ds] * a by fastforce
  moreover have "file_inv a'" "file_rows a' = file_rows a @ map stored_row rs"
    using file_store.store_ok [OF _ a] * by blast+
  ultimately show "\<exists>e a''. file_AppendEvents a' ds' (Some n) = (Inl e, a'')"
    using * by (intro file_store.store_fence) auto
qed

theorem file_append_atomic_witness:
  "file_AppendEvents (ex_file\<lparr>fa_fault := \<lambda>s. if s = FsRename then Some ''no'' else None\<rparr>) [] None
     = (Inl (StorageFailure ''no''), ex_file\<lparr>fa_fault := \<lambda>s. if s = FsRename then Some ''no'' else None\<rparr>)"
proof -
  let ?a = "ex_file\<lparr>fa_fault := \<lambda>s. if s = FsRename then Some ''no'' else None\<rparr>"
  have r: "readAll ?a = Inr (ex_header, [])"
    by (rule settled_read [OF _ ex_header_ok]) (simp_all add: ex_file_def)
  have "encode_records None (file_records (Some ex_header) []) = Inr (file_text ex_header [])"
    using ex_header_ok by (intro encode_file) (simp_all add: settled_file_def)
  then have "fst (file_AppendEvents ?a [] None) = Inl (StorageFailure ''no'')"
    by (simp add: file_AppendEvents_def r writeAll_def)
  then show ?thesis
    using file_append_atomic [OF prod.collapse [symmetric], of ?a "[]" None] by (metis prod.collapse)
qed

text \<open>Two ways to write a session file that no operation can read again: appending a row
  before any header was saved, and appending a row whose line reaches 16 MiB.  Both appends
  succeed; from then on loading, reading, appending and saving the header all fail.\<close>

lemma file_bricked:
  assumes "file_AppendEvents a ds ex = (Inr rs, a')"
    and "\<And>r. r \<in> set rs \<Longrightarrow> json_ok number_mode 10000 (VMap (row_members r))"
    and "fa_file a = None \<and> rs \<noteq> [] \<and> json_ok float_mode 10000 (VMap (row_members (hd rs))) \<or>
      file_inv a \<and> fa_file a \<noteq> None \<and> r \<in> set rs \<and> line_limit \<le> length (row_text r)"
  shows "unreadable a'"
  using assms(3)
proof
  assume *: "fa_file a = None \<and> rs \<noteq> [] \<and> json_ok float_mode 10000 (VMap (row_members (hd rs)))"
  then obtain x xs where "rs = x # xs" by (cases rs) auto
  with * assms(1,2) show ?thesis by (intro headerless_unreadable [of a ds ex x xs a']) auto
next
  assume "file_inv a \<and> fa_file a \<noteq> None \<and> r \<in> set rs \<and> line_limit \<le> length (row_text r)"
  then show ?thesis
    using long_row_unreadable [OF _ _ assms(1,2)] by (auto simp: file_inv_def)
qed

section \<open>Saved sessions\<close>

text \<open>C14: A saved session is loaded as it was.  When no step of the file system fails,
  \<^verbatim>\<open>Save\<close> followed by \<^verbatim>\<open>LoadSession\<close> gives a session with the same identity and the same events
  in JSON form (an event without an identifier gets one), detached from any storage, and the lines
  a second \<^verbatim>\<open>Save\<close> writes for its events are the same.\<close>

theorem session_file_roundtrip:
  assumes "session_storable env s" and "sp_create p = None" and "sp_write p = (\<lambda>i. None)" and "sp_read p = None"
  shows "\<exists>p' s'. Save env s p = (Inr (), p') \<and> LoadSession je p' = Inr s' \<and>
    header_of_session s' = stored_header (header_of_session s) \<and>
    lg_events (ss_log s') = map (loaded_event env) (lg_events (ss_log s)) \<and> lg_storage (ss_log s') = None \<and>
    tl (record_texts env s') = tl (record_texts env s)"
proof -
  let ?p = "p\<lparr>sp_file := Some (unlines (record_texts env s))\<rparr>"
  let ?es = "lg_events (ss_log s)"
  have "LoadSession je ?p = Inr (loaded_session (stored_header (header_of_session s))
      (map (loaded_event env) ?es) :: 'a session)"
    using LoadSession_texts [OF assms(1), of ?p "length ?es"] assms(4) by (simp add: record_texts_def)
  moreover have "tl (record_texts env (loaded_session (stored_header (header_of_session s)) (map (loaded_event env) ?es)))
      = tl (record_texts env s)"
    using saved_again [OF assms(1), of env] by (simp add: record_texts_def comp_def)
  ultimately show ?thesis using Save_ok [OF assms(1-3)] loaded_session_simps by blast
qed

theorem session_file_roundtrip_witness:
  "\<exists>p' s'. Save ex_log_env ex_saved ex_path = (Inr (), p') \<and> LoadSession (\<lambda>t. t) p' = Inr (s' :: mem_adapter session) \<and>
     length (lg_events (ss_log s')) = 1"
proof -
  from session_file_roundtrip [OF ex_saved_ok ex_path_ok] obtain p' and s' :: "mem_adapter session" where
    "Save ex_log_env ex_saved ex_path = (Inr (), p')" "LoadSession (\<lambda>t. t) p' = Inr s'"
    "lg_events (ss_log s') = map (loaded_event ex_log_env) (lg_events (ss_log ex_saved))" by blast
  moreover have "length (lg_events (ss_log ex_saved)) = 1" by (simp add: ex_saved_events)
  ultimately show ?thesis by auto
qed

text \<open>A failed \<^verbatim>\<open>Save\<close> destroys the file, silently.  The file is emptied before the first record
  is encoded: when the first write fails nothing is left, and when a later one fails before its
  first byte the file loads without any error as the session cut off at that event.\<close>

lemma save_truncates:
  assumes "session_storable env s" and "sp_create p = None" and "sp_read p = None"
    and "\<And>j. j < k \<Longrightarrow> sp_write p j = None" and "sp_write p k = Some (0, err)"
    and "k \<le> length (lg_events (ss_log s))"
  shows "\<exists>p'. Save env s p = (Inl err, p') \<and>
    (k = 0 \<longrightarrow> sp_file p' = Some [] \<and> (LoadSession je p' :: string + 'a session) = Inl ''session file is empty'') \<and>
    (\<forall>n. k = Suc n \<longrightarrow> (\<exists>s' :: 'a session. LoadSession je p' = Inr s' \<and>
       header_of_session s' = stored_header (header_of_session s) \<and>
       lg_events (ss_log s') = map (loaded_event env) (take n (lg_events (ss_log s)))))"
proof -
  let ?p = "p\<lparr>sp_file := Some (unlines (take k (record_texts env s)))\<rparr>"
  have save: "Save env s p = (Inl err, ?p)"
    using Save_torn [OF assms(1,2,5,4,6)] by simp
  moreover have "(LoadSession je ?p :: string + 'a session) = Inl ''session file is empty''" "sp_file ?p = Some []" if "k = 0"
    using that assms(3) by (simp_all add: LoadSession_def unlines_def splitJSONLines_def)
  moreover have "LoadSession je ?p = Inr (loaded_session (stored_header (header_of_session s))
      (map (loaded_event env) (take n (lg_events (ss_log s)))) :: 'a session)" if "k = Suc n" for n
    using LoadSession_texts [OF assms(1), of ?p n] assms(3,6) that by simp
  ultimately show ?thesis
    by (intro exI [of _ ?p] conjI impI allI) (assumption | blast intro: loaded_session_simps)+
qed

text \<open>C15: What \<^verbatim>\<open>VerifySessionPortable\<close> decides.  On a session that can be saved and a temporary file
  that works it succeeds exactly when every event has a content hash and the reloaded event has
  the same one.  In particular it accepts every session of which the events carry identifiers and
  no payload has a float64, a decoded number or a string slice.\<close>

theorem portability_check:
  assumes "session_storable env s" and "sp_create p = None" and "sp_write p = (\<lambda>i. None)" and "sp_read p = None"
  shows "(VerifySessionPortable env je sha256 (Inr p) (Some s) = None \<longleftrightarrow>
      (\<forall>e \<in> set (lg_events (ss_log s)). \<exists>h. ContentHashForEventRow sha256 (eventToRow e) = Inr h \<and>
         ContentHashForEventRow sha256 (eventToRow (loaded_event env e)) = Inr h)) \<and>
    ((\<forall>e \<in> set (lg_events (ss_log s)). ev_id e \<noteq> [] \<and> plain_members (ev_payload e)) \<longrightarrow>
       VerifySessionPortable env je sha256 (Inr p) (Some s) = None)"
proof -
  have "\<exists>h. ContentHashForEventRow sha256 (eventToRow e) = Inr h \<and>
      ContentHashForEventRow sha256 (eventToRow (loaded_event env e)) = Inr h"
    if e: "e \<in> set (lg_events (ss_log s))" "ev_id e \<noteq> [] \<and> plain_members (ev_payload e)" for e
  proof -
    have row: "saved_row env e = eventToRow e" "rw_payload (eventToRow e) = ev_payload e"
      using e(2) by (simp_all add: saved_row_named eventToRow_def)
    have json: "json_ok number_mode 10000 (VMap (row_members (eventToRow e)))"
      using assms(1) e(1) unfolding row(1) [symmetric]
      by (simp add: session_storable_def row_json_def list_all_iff del: json_ok.simps)
    obtain h where "ContentHashForEventRow sha256 (eventToRow e) = Inr h"
      using plain_row_hash [OF json, of sha256] e(2) row(2) by (metis is_ok.elims(2))
    moreover have "ContentHashForEventRow sha256 (stored_row (eventToRow e)) = ContentHashForEventRow sha256 (eventToRow e)"
      by (rule hash_stored_row [OF json]) (simp add: row(2) plain_hashable(2) e(2))
    ultimately show ?thesis by (simp add: eventToRow_loaded row(1))
  qed
  then show ?thesis using verify_exact [OF assms, of je sha256] by simp
qed

theorem portability_check_witness:
  "VerifySessionPortable ex_log_env (\<lambda>t. t) (\<lambda>t. t) (Inr ex_path) (Some ex_saved) = None"
proof -
  have "\<forall>e \<in> set (lg_events (ss_log ex_saved)). ev_id e \<noteq> [] \<and> plain_members (ev_payload e)"
    by (simp add: ex_saved_events ex_user_def mk_ev_def)
  then show ?thesis using portability_check [OF ex_saved_ok ex_path_ok] by blast
qed

section \<open>SQL storage\<close>

text \<open>C16: What is appended to a SQL table is read back.  On a table the adapter wrote, whose payload column
  gives back what decodes as what was stored (a TEXT column does), without faults and without other
  writers, appending drafts that can be hashed succeeds for every expectation that is absent or
  right.  The rows are the drafts numbered from the end, with their content hash; if their payloads
  are JSON, reading gives the old rows followed by them in stored form.  Rows of other sessions and
  other workspaces are as before.\<close>

theorem sql_append_roundtrip:
  assumes "sql_inv a" and "fault_free a" and "n = int (length (sql_rows a))"
    and "\<forall>i < length ds. is_ok (sql_row_of a (n + int i) (ds ! i))" and "ex = None \<or> ex = Some n"
  shows "\<exists>rs a'. sql_AppendEvents a ds ex = (Inr rs, a') \<and> list_all2 row_matches rs (rows_of_drafts n ds) \<and>
    (list_all sql_row_ok rs \<longrightarrow> sql_inv a' \<and> sql_EventsSince a' None = Inr (sql_rows a @ map stored_row rs)) \<and>
    (\<forall>w s. (w, s) \<noteq> (sq_workspaceID a, sq_sessionID a) \<longrightarrow>
       filter (own_event w s) (qd_events (sq_db a')) = filter (own_event w s) (qd_events (sq_db a)))"
proof -
  obtain rs a' where ap: "sql_AppendEvents a ds ex = (Inr rs, a')" and ff: "fault_free a'"
    using sql_append_succeeds [OF assms] by blast
  obtain db where db: "insert_loop a ex n 0 ds [] (sq_db a) = Inr (rs, db)"
    using sql_append_cases [OF ap assms(1)] assms(3) by auto
  have m: "list_all2 row_matches rs (rows_of_drafts n ds)" using insert_loop_ok [OF db] by auto
  have read: "sql_inv a' \<and> sql_EventsSince a' None = Inr (sql_rows a @ map stored_row rs)" if "list_all sql_row_ok rs"
  proof -
    note ok = sql_store.store_ok [OF assms(1) ap, unfolded sql_storable_def, OF that]
    have "is_ok (sql_EventsSince a' None)" using sql_reads [of a'] ok ff by blast
    then show ?thesis
      using ok sql_store.all_append [OF assms(1) ap, unfolded sql_storable_def, OF that]
      by (cases "sql_EventsSince a' None") auto
  qed
  have "filter (own_event w s) (qd_events (sq_db a')) = filter (own_event w s) (qd_events (sq_db a))"
    if "(w, s) \<noteq> (sq_workspaceID a, sq_sessionID a)" for w s
    using sql_isolated [OF ap assms(1) that] by (rule conjunct1)
  then show ?thesis using ap m read by (intro exI [of _ rs] exI [of _ a'] conjI impI allI) simp_all
qed

theorem sql_append_roundtrip_witness:
  "\<exists>rs a'. sql_AppendEvents ex_sql [ex_draft] (Some 0) = (Inr rs, a') \<and> length rs = 1"
proof -
  have "\<forall>i < length [ex_draft]. is_ok (sql_row_of ex_sql (0 + int i) ([ex_draft] ! i))" using ex_draft_ok by simp
  from sql_append_roundtrip [OF ex_sql_rows(1,3) _ this, of "Some 0"] show ?thesis
    using ex_sql_rows(2) by (auto dest!: list_all2_lengthD)
qed



section \<open>Canonical JSON\<close>

text \<open>Canonical JSON does not depend on the order in which a map yields its members.  Two values
  that agree once the members of every map, at any depth, are put in the order of their keys
  have the same canonical text, or the same error.\<close>

lemma canonical_member_order:
  assumes "keys_distinct v" and "keys_distinct w" and "sort_members v = sort_members w"
  shows "writeJCSV1 v = writeJCSV1 w"
  using canonical_sorted(1) [OF assms(1)] canonical_sorted(1) [OF assms(2)] assms(3) by simp

text \<open>Content hashes survive storage.  For a row whose payload holds no float64 and no string
  slice, the hash computed from the row in memory is the hash computed from the JSON line a file
  adapter writes for it, whatever content hash that line carries.\<close>

lemma content_hash_survives_storage:
  assumes "json_ok number_mode 10000 (VMap (row_members r))" and "members_hashable (rw_payload r)"
  shows "ContentHashForEventRowJSON sha256 (json_text False (VMap (eventRowMap r (rw_hash r \<noteq> []))))
    = ContentHashForEventRow sha256 r"
  using hash_of_line [OF assms] by (simp add: row_text_def row_members_def)

text \<open>Canonical JSON confuses large integers.  A float64 that is an integer from 1000000 on (below
  10^15 here, where every integer is exact) is written without its trailing zeros, so two rows
  that differ by a factor of ten in such a number have the same content hash.\<close>

lemma canonical_integers_collide:
  assumes "10 ^ 6 \<le> n" and "10 * n < 10 ^ 15"
  shows "es6Number (of_nat n) = Inr (trim_right (show_nat n) (CHR ''0'')) \<and>
    ContentHashForEventRow sha256 (r\<lparr>rw_payload := [(k, VFloat (of_nat n))]\<rparr>) =
    ContentHashForEventRow sha256 (r\<lparr>rw_payload := [(k, VFloat (of_nat (10 * n)))]\<rparr>)"
proof -
  have p: "0 < n" using assms(1) by (cases n) auto
  have "trim_right (show_nat (n * 10)) (CHR ''0'') = trim_right (show_nat n) (CHR ''0'')"
    using trim_right_replicate [of "show_nat n" 1] show_nat_times_10 [OF p] by simp
  then have "es6Number (of_nat (10 * n)) = es6Number (of_nat n)"
    using es6Number_integer [of n] es6Number_integer [of "10 * n"] assms by (simp add: mult.commute)
  moreover have "es6Number (of_nat n) = Inr (trim_right (show_nat n) (CHR ''0''))"
    using es6Number_integer [of n] assms by simp
  ultimately show ?thesis by (simp add: ContentHashForEventRow_def hashed_members_def)
qed

section \<open>Requests\<close>





text \<open>C20: In a Gemini request, where calls have no identifiers, every function response carries the
  name of the call it answers (its identifier, where the use has no name), and calls and
  responses come in the order of the effective stream.\<close>

theorem gemini_responses_named:
  assumes "PrepareProviderCall dg (Some s) = Inr pt" and "dense (lg_events (ss_log s))"
    and "pt_Project (GeminiProjection_Project p) pt = Inr req"
    and "\<forall>e \<in> set (ApplyMutations (ss_log s)). carrier_free ''gemini.generateContent'' e"
  shows "\<exists>cs name. pget req ''contents'' = VMaps cs \<and>
    concat (map content_tags cs)
      = concat (map (\<lambda>e. if is_use e then [Inl (ev_str e ''name'')]
                         else if is_result e then [Inr (name e)] else []) (ApplyMutations (ss_log s))) \<and>
    (\<forall>r \<in> set (results_of (ApplyMutations (ss_log s))). \<exists>u \<in> set (uses_of (ApplyMutations (ss_log s))).
       use_id u = result_id r \<and> name r = or_else (ev_str u ''name'') (result_id r))"
proof -
  let ?es = "ApplyMutations (ss_log s)"
  note prepared = prepared_answered [OF assms(1-3)]
  have sound: "well_referenced ?es"
    using assms(1) by (auto simp: PrepareProviderCall_Inr_iff provider_ready_def ApplyMutations_def)
  obtain cs where cs: "pget req ''contents'' = VMaps cs"
    "concat (map content_tags cs) = concat (map (named_tags (use_names ?es)) ?es)"
    using GeminiProjection_contents [OF prepared(1,2) assms(4)] by blast
  have "\<exists>u \<in> set (uses_of ?es). use_id u = result_id r \<and>
      or_else (aget [] (use_names ?es) (result_id r)) (result_id r) = or_else (ev_str u ''name'') (result_id r)"
    if r: "r \<in> set (results_of ?es)" for r
  proof -
    obtain u where u: "u \<in> set (uses_of ?es)" "use_id u = result_id r" using result_has_use [OF sound r] by blast
    have "distinct (map use_id (uses_of ?es))" using sound by (simp add: well_referenced_def)
    from use_names_lookup [OF this u(1)] u show ?thesis by auto
  qed
  with cs show ?thesis
    by (intro exI [of _ cs] exI [of _ "\<lambda>e. or_else (aget [] (use_names ?es) (result_id e)) (result_id e)"])
      (simp add: named_tags_def [abs_def])
qed

theorem gemini_responses_named_witness:
  "\<exists>req cs. pt_Project (GeminiProjection_Project ex_projection)
        (case PrepareProviderCall (\<lambda>v. Inr ''h'') (Some (ex_session ex_closed)) of Inr pt \<Rightarrow> pt) = Inr req \<and>
      pget req ''contents'' = VMaps cs"
proof -
  let ?pt = "PrepareProviderCall (\<lambda>v. Inr ''h'') (Some (ex_session ex_closed))"
  have "is_ok ?pt" by code_simp
  then obtain pt where pt: "?pt = Inr pt" by (cases ?pt) auto
  have "is_ok (pt_Project (GeminiProjection_Project ex_projection) (case ?pt of Inr pt \<Rightarrow> pt))" by code_simp
  then obtain req where req: "pt_Project (GeminiProjection_Project ex_projection) pt = Inr req"
    using pt by (cases "pt_Project (GeminiProjection_Project ex_projection) pt") auto
  have "dense (lg_events (ss_log (ex_session ex_closed)))" by code_simp
  moreover have "\<forall>e \<in> set (ApplyMutations (ss_log (ex_session ex_closed))). carrier_free ''gemini.generateContent'' e"
    by code_simp
  ultimately show ?thesis using gemini_responses_named [OF pt _ req] pt req by auto
qed

text \<open>C21: Anthropic is shown its own words again.  When a response with signed thinking has been
  ingested, accepted as a complete step and committed behind the user's turn, the next request
  is the last one with one message more, which holds the blocks of the response unchanged, in
  their order but for the tool calls, which come last.\<close>

theorem anthropic_roundtrip:
  assumes "pget response ''content'' = VList content" and "list_all (\<lambda>b. as_map b \<noteq> None) content"
    and "list_all tool_block_ok (filter is_tool_block content)" and "ai_carrier (an_scan content)"
    and "closeProviderStep (stage_ingested kind request (AnthropicIngestor_Ingest response)) = Inr (turn, staged)"
    and "tn_reason turn = []" and "map args_of step = staged"
    and "apply_mutations (es @ step) = apply_mutations es @ step"
    and "AnthropicProjection_Project p es = Inr req" and "pget req ''messages'' = VMaps ms"
    and "ms = [] \<or> pget (List.last ms) ''role'' \<noteq> VStr ''assistant''"
  shows "\<exists>req'. AnthropicProjection_Project p (es @ step) = Inr req' \<and>
    pget req' ''messages'' = VMaps (ms @
      [[(''role'', VStr ''assistant''),
        (''content'', VList (filter (\<lambda>b. \<not> is_tool_block b) content @ filter is_tool_block content))]])"
proof -
  have st: "map args_of step = stage_ingested kind request (AnthropicIngestor_Ingest response)"
    using complete_step_staged [OF assms(5,6)] assms(7) by simp
  note labels = anthropic_step_labels [OF assms(1-4) st]
  obtain b where b: "b \<in> set (anthropicCarrierContent content)" "pget (asMap b) ''type'' = VStr ''thinking''"
    using an_scan_carried [OF assms(4)] by blast
  let ?bs = "anthropicCarrierContent content @ filter is_tool_block content"
  have "?bs \<noteq> []" using b(1) by auto
  moreover have "finalizeAnthropicGroup (''assistant'', ?bs) = [(''role'', VStr ''assistant''), (''content'', VList ?bs)]"
  proof (cases "\<exists>x. ?bs = [x]")
    case True
    then obtain x where x: "?bs = [x]" by blast
    moreover have "b \<in> set ?bs" using b(1) by simp
    ultimately have "x = b" by (metis empty_iff empty_set set_ConsD)
    with x b(2) show ?thesis by (simp add: finalizeAnthropicGroup_def)
  next
    case False
    then show ?thesis by (simp add: finalizeAnthropicGroup_def split: list.splits)
  qed
  moreover have "anthropicCarrierContent content = filter (\<lambda>b. \<not> is_tool_block b) content"
    by (simp add: anthropicCarrierContent_def is_tool_block_def)
  ultimately show ?thesis
    using anthropic_step_appends [OF assms(9,8,10,11) labels(2,1)] by simp
qed

theorem anthropic_roundtrip_witness:
  "\<exists>req'. AnthropicProjection_Project ex_projection
      (ex_user 0 # events_from 1 (stage_ingested ''k'' [] (AnthropicIngestor_Ingest ex_anthropic_response))) = Inr req' \<and>
    pget req' ''messages'' = VMaps ([[(''role'', VStr ''user''), (''content'', VStr ''hi'')],
      [(''role'', VStr ''assistant''), (''content'', VList ex_anthropic_content)]])"
proof -
  let ?staged = "stage_ingested ''k'' [] (AnthropicIngestor_Ingest ex_anthropic_response)"
  let ?turn = "\<lparr>tn_stopReason = ''tool_use'', tn_reason = []\<rparr>"
  let ?ms = "[[(''role'', VStr ''user''), (''content'', VStr ''hi'')]]"
  have "case closeProviderStep ?staged of Inr (t, s) \<Rightarrow> t = ?turn \<and> s = ?staged | Inl _ \<Rightarrow> False" by code_simp
  then have cl: "closeProviderStep ?staged = Inr (?turn, ?staged)" by (auto split: sum.splits)
  have pj: "AnthropicProjection_Project ex_projection [ex_user 0]
      = Inr [(''model'', VStr ''m''), (''max_tokens'', VInt 16), (''messages'', VMaps ?ms)]" by code_simp
  have mu: "apply_mutations ([ex_user 0] @ events_from 1 ?staged) = apply_mutations [ex_user 0] @ events_from 1 ?staged"
    by code_simp
  have c: "pget ex_anthropic_response ''content'' = VList ex_anthropic_content" by code_simp
  have h: "list_all (\<lambda>b. as_map b \<noteq> None) ex_anthropic_content"
    "list_all tool_block_ok (filter is_tool_block ex_anthropic_content)" "ai_carrier (an_scan ex_anthropic_content)"
    by code_simp+
  have f: "filter (\<lambda>b. \<not> is_tool_block b) ex_anthropic_content @ filter is_tool_block ex_anthropic_content
      = ex_anthropic_content" by code_simp
  show ?thesis
    using anthropic_roundtrip [OF c h cl _ events_from_args mu pj] unfolding f by simp
qed

text \<open>OpenAI is shown its calls twice.  A response whose reasoning has carrier data is kept as a
  wire message, calls included; the next request holds that message and adds the tool uses of
  the step to it once more, so every identifier occurs twice and no order of answers fits.\<close>

lemma openai_carrier_duplicates:
  assumes "pget (asMap (pget (firstMap (pget response ''choices'')) ''message'')) ''tool_calls'' = VList calls"
    and "m = asMap (pget (firstMap (pget response ''choices'')) ''message'')"
    and "openAIMessageHasCarrierData m" and "pget m ''role'' = VStr ''assistant''"
    and "list_all (\<lambda>c. as_map c \<noteq> None) calls" and "calls \<noteq> []"
    and "closeProviderStep (stage_ingested kind request (OpenAIIngestor_Ingest response)) = Inr (turn, staged)"
    and "tn_reason turn = []" and "map args_of step = staged"
    and "apply_mutations (es @ step) = apply_mutations es @ step"
    and "OpenAIProjection_Project p es = Inr req" and "pget req ''messages'' = VMaps ms"
  shows "\<exists>req' m'. OpenAIProjection_Project p (es @ step) = Inr req' \<and>
    pget req' ''messages'' = VMaps (ms @ [m']) \<and>
    openai_tags m' = (let ids = map (\<lambda>c. Inl (stringValue (pget (asMap c) ''id''))) calls in ids @ ids) \<and>
    \<not> answered [] [] (openai_tags m' @ rest)"
proof -
  let ?ids = "map (\<lambda>c. Inl (stringValue (pget (asMap c) ''id'')) :: string + string) calls"
  let ?init = "if pj_System p \<noteq> [] then [oa_message ''system'' (VStr (pj_System p))] else []"
  have st: "map args_of step = stage_ingested kind request (OpenAIIngestor_Ingest response)"
    using complete_step_staged [OF assms(7,8)] assms(9) by simp
  have ne: "m \<noteq> []" using assms(3) by (auto simp: openAIMessageHasCarrierData_def)
  obtain pl refs where ing: "OpenAIIngestor_Ingest response
      = \<lparr>ea_type = EventAssistantMessage, ea_payload = pl\<rparr> # map oa_use calls"
    and items: "pget pl ''provider_items''
      = VList [VMap (providerCarrier ''openai.chat_completions'' 0 ''openai.chat_message'' (VMap m) refs)]"
    by (rule that) (auto simp: OpenAIIngestor_Ingest_def Let_def oa_carrier_def pget_append assms(1,2,3) ne
        assms(3) [unfolded assms(2)] ne [unfolded assms(2)])
  have us: "\<forall>u \<in> set (map oa_use calls). ea_type u = EventToolUse" by (simp add: oa_use_def Let_def)
  obtain e es' where step: "step = e # es'" "map args_of es' = map oa_use calls"
    "args_of e = \<lparr>ea_type = EventAssistantMessage, ea_payload = normalizeAssistantPayload pl kind
        (stringValue (firstNonEmptyAny [pget pl ''model'', pget request ''model'']))\<rparr>"
    using st unfolding ing stage_ingested_Cons stage_ingested_uses [OF us] by auto
  have e: "ev_type e = EventAssistantMessage"
    "pget (ev_payload e) ''provider_items'' = pget pl ''provider_items''"
    using step(3) by (auto simp: args_of_def normalizeAssistantPayload_other)
  have "oa_event p ms e = Inr (ms @ [m])" using e items by (simp add: oa_event_def Let_def)
  moreover obtain m' where m': "fold_res (oa_event p) (ms @ [m]) es' = Inr (ms @ [m'])"
    "openai_tags m' = openai_tags m @ ?ids"
    using oa_uses_added [OF step(2) assms(4)] by blast
  moreover have "fold_res (oa_event p) ?init (apply_mutations es) = Inr ms"
    using assms(11,12) unfolding OpenAIProjection_Project_def bind_res_Inr_iff by auto
  ultimately have "fold_res (oa_event p) ?init (apply_mutations (es @ step)) = Inr (ms @ [m'])"
    unfolding assms(10) unfolding fold_res_app step(1) by simp
  moreover have "openai_tags m = ?ids"
    using assms(1,2,4) keep_maps_all [OF assms(5)] by (simp add: openai_tags_def asMapSlice_def)
  moreover have "\<not> answered [] [] (?ids @ ?ids @ rest)"
  proof -
    obtain x xs where "?ids = Inl x # xs" using assms(6) by (cases calls) auto
    then show ?thesis using not_answered_twice [of x "xs @ ?ids @ rest" "[]" "[]"] by simp
  qed
  ultimately show ?thesis using m'(2) unfolding OpenAIProjection_Project_def by (auto simp: Let_def)
qed

text \<open>The identifiers of Gemini calls.  One ingestor never uses an identifier twice, over any list of
  responses.  A new ingestor, which every load of a manifest makes, counts from zero again: when
  two ingestors each meet a call of the same function first, a log with both uses is refused by
  the gate.\<close>

lemma gemini_ingestor_ids:
  assumes "arg_uses (fst (GeminiIngestor_Ingest r \<lparr>gi_counter = 0\<rparr>)) = u # us"
    and "arg_uses (fst (GeminiIngestor_Ingest r' \<lparr>gi_counter = 0\<rparr>)) = u' # us'"
    and "ea_str u ''name'' = ea_str u' ''name''"
    and "i < j" and "j < length (lg_events (ss_log s))"
    and "args_of (lg_events (ss_log s) ! i) = u" and "args_of (lg_events (ss_log s) ! j) = u'"
  shows "distinct (map (\<lambda>u. ea_str u ''id'') (arg_uses (gemini_ingest_all rs \<lparr>gi_counter = 0\<rparr>))) \<and>
    \<not> is_ok (PrepareProviderCall dg (Some s))"
proof (rule conjI)
  show "distinct (map (\<lambda>u. ea_str u ''id'') (arg_uses (gemini_ingest_all rs \<lparr>gi_counter = 0\<rparr>)))"
    by (rule gemini_ids_distinct) simp
  have "ev_type (lg_events (ss_log s) ! i) = ea_type u" "use_id (lg_events (ss_log s) ! i) = ea_str u ''id''"
    "ev_type (lg_events (ss_log s) ! j) = ea_type u'" "use_id (lg_events (ss_log s) ! j) = ea_str u' ''id''"
    using assms(6,7) by (auto simp: args_of_def)
  with gemini_first_id [OF assms(1)] gemini_first_id [OF assms(2)] assms(3-5)
  show "\<not> is_ok (PrepareProviderCall dg (Some s))"
    by (intro duplicate_use_refused [where i = i and j = j and es = "lg_events (ss_log s)"]) auto
qed

section \<open>Attachments\<close>



text \<open>An attachment URI is a file pattern.  The identifier of a URI is only checked for slashes, so
  \<^verbatim>\<open>attachment://*\<close> exists in every store that is not empty, reads the first of its files, and
  deleting it deletes every attachment.\<close>

lemma directory_wildcard:
  assumes "dir_inv sha256 s" and "fd_remove s = (\<lambda>n. None)"
  shows "(\<exists>s'. fd_Delete ''attachment://*'' s = (None, s') \<and> fd_files s' = []) \<and>
    (fd_Exists ''attachment://*'' s \<longleftrightarrow> fd_files s \<noteq> []) \<and>
    (\<forall>n c ns. sort (map fst (fd_files s)) = n # ns \<longrightarrow> (n, c) \<in> set (fd_files s) \<longrightarrow>
       fd_Get ''attachment://*'' s = Inr (c, mediaTypeForExt (path_ext n)))"
proof -
  have aid: "attachmentID ''attachment://*'' = Inr ''*''" by code_simp
  note glob = fd_glob_star [OF assms(1)]
  let ?names = "sort (map fst (fd_files s))"
  obtain s' where rm: "fd_remove_all ?names s = (None, s')"
    using fd_remove_all_total [OF assms(2)] by (metis prod.collapse)
  have "fd_files s' = []" using fd_remove_all_ok [OF rm] by (force simp: filter_empty_conv)
  moreover have "fd_Delete ''attachment://*'' s = (None, s')" using aid glob rm by (simp add: fd_Delete_def)
  moreover have "fd_Exists ''attachment://*'' s \<longleftrightarrow> fd_files s \<noteq> []"
    using aid glob by (cases "fd_files s") (auto simp: fd_Exists_def)
  moreover have "fd_Get ''attachment://*'' s = Inr (c, mediaTypeForExt (path_ext n))"
    if "?names = n # ns" "(n, c) \<in> set (fd_files s)" for n c ns
    using that aid glob assms(1) by (simp add: fd_Get_def dir_inv_def aget_def)
  ultimately show ?thesis by blast
qed

section \<open>Mutations and integrity\<close>

text \<open>An event other than a summary survives \<^verbatim>\<open>ApplyMutations\<close> exactly when it is not itself a
  mutation and no compaction in force replaces it.\<close>

lemma survives_mutations:
  assumes "ev_type e \<noteq> EventSummary"
  shows "e \<in> set (ApplyMutations lg) \<longleftrightarrow>
    e \<in> set (lg_events lg) \<and> ev_type e \<noteq> EventCompact \<and> ev_type e \<noteq> EventRevert \<and>
    ev_seq e \<notin> shadowed_seqs (lg_events lg)"
  unfolding ApplyMutations_def by (rule mem_apply_mutations_event [OF assms])

text \<open>The effective stream has no mutation left to apply: applying mutations again changes
  nothing.\<close>

lemma mutations_idempotent:
  "ApplyMutations (lg\<lparr>lg_events := ApplyMutations lg\<rparr>) = ApplyMutations lg"
  by (simp add: ApplyMutations_def apply_mutations_idem)

text \<open>Reverting a compaction restores the stream: a fresh compact event followed by the
  revert of its number is invisible.\<close>

lemma revert_undoes_compact:
  assumes "ev_type c = EventCompact" and "ev_type r = EventRevert"
    and "asInt (pget (ev_payload r) ''revokes'') = ev_seq c"
    and "\<And>e. e \<in> set (lg_events lg) \<Longrightarrow> ev_seq e \<noteq> ev_seq c"
  shows "ApplyMutations (lg\<lparr>lg_events := lg_events lg @ [c, r]\<rparr>) = ApplyMutations lg"
  using apply_mutations_compact_revert [OF assms] by (simp add: ApplyMutations_def)

text \<open>C23: The integrity analysis is sound and complete: it reports nothing exactly when ids are
  present and unique and every result follows the use it names, once.\<close>

theorem analysis_exact:
  "AnalyzeDurableLog (Some lg) = [] \<longleftrightarrow> well_referenced (lg_events lg)"
  by (simp add: AnalyzeDurableLog_def analyzeToolReferences_Nil_iff)

text \<open>\<^verbatim>\<open>PrepareProviderCall\<close> hands out a transcript exactly when the durable log and the
  effective stream are sound and every visible tool use is resolved; the transcript holds the
  effective stream, and it is current until the log grows.\<close>

lemma prepare_gate:
  "((\<exists>p. PrepareProviderCall dg (Some s) = Inr p) \<longleftrightarrow>
     provider_ready (lg_events (ss_log s)) \<and>
     is_ok (effectiveTranscriptHash dg (ApplyMutations (ss_log s)))) \<and>
   (\<forall>p. PrepareProviderCall dg (Some s) = Inr p \<longrightarrow>
     pt_log p = Some (ApplyMutations (ss_log s)) \<and> pt_current dg p (Some s) \<and>
     (\<forall>s'. length (lg_events (ss_log s')) \<noteq> length (lg_events (ss_log s)) \<longrightarrow>
        \<not> pt_current dg p (Some s')))"
proof -
  have "is_ok (effectiveTranscriptHash dg (ApplyMutations (ss_log s))) \<longleftrightarrow>
      (\<exists>h. effectiveTranscriptHash dg (ApplyMutations (ss_log s)) = Inr h)"
    by (cases "effectiveTranscriptHash dg (ApplyMutations (ss_log s))") auto
  then have "(\<exists>p. PrepareProviderCall dg (Some s) = Inr p) \<longleftrightarrow>
     provider_ready (lg_events (ss_log s)) \<and>
     is_ok (effectiveTranscriptHash dg (ApplyMutations (ss_log s)))"
    unfolding PrepareProviderCall_Inr_iff ApplyMutations_def
    by (metis prepared_transcript.select_convs(1-4))
  moreover have "pt_log p = Some (ApplyMutations (ss_log s))"
    if "PrepareProviderCall dg (Some s) = Inr p" for p
    using that by (simp add: PrepareProviderCall_Inr_iff ApplyMutations_def)
  ultimately show ?thesis using prepared_is_current prepared_stale by blast
qed

section \<open>Delegation\<close>

text \<open>C24: What the delegation projections accept.  The recursion over the spawn events succeeds exactly
  when everything below the session is sound: every session is found, every spawn has a child that
  points back, no session is below itself (and, for the tree and the open children, no spawn has
  two results).  The descendants are then the sessions that can be reached, and each is visited
  once, so that nobody's tokens are counted twice.\<close>

theorem delegation_projections:
  shows "(is_ok (DelegationTree m sid) \<longleftrightarrow> sound_below one_result m [] sid) \<and>
    (is_ok (DescendantUsage m sid) \<longleftrightarrow> sound_below (\<lambda>s sp. True) m [] sid) \<and>
    (is_ok (OpenChildren m sid) \<longleftrightarrow> links_ok one_result m sid) \<and>
    (\<forall>ss. collectDescendants m [] sid = Inr ss \<longrightarrow>
       set ss = {x. \<exists>k. (spawn_link m)\<^sup>*\<^sup>* sid k \<and> sm_LoadSession m k = Inr x} \<and>
       (keyed m \<longrightarrow> distinct_spawns m \<longrightarrow> distinct (map ss_id ss)))"
proof -
  have reached: "\<exists>k. (spawn_link m)\<^sup>*\<^sup>* sid k \<and> sm_LoadSession m k = Inr x"
    if ss: "collectDescendants m [] sid = Inr ss" and x: "x \<in> set ss" for ss x
  proof -
    obtain k where k: "(back_link m)\<^sup>*\<^sup>* sid k" "sm_LoadSession m k = Inr x"
      using collect_below(1) [OF ss x] by blast
    have "(spawn_link m)\<^sup>*\<^sup>* sid k"
      using k(1) by (rule rtranclp_mono [THEN predicate2D, rotated]) (auto intro: back_link_spawn)
    with k(2) show ?thesis by blast
  qed
  have "set ss = {x. \<exists>k. (spawn_link m)\<^sup>*\<^sup>* sid k \<and> sm_LoadSession m k = Inr x}"
    if "collectDescendants m [] sid = Inr ss" for ss
    using collect_reach(1) [OF that] reached [OF that] by blast
  then show ?thesis using delegation_ok open_children_ok collect_once(1) by blast
qed

theorem delegation_projections_witness:
  "distinct (map ss_id [ex_parent, ex_child]) \<and> is_ok (DescendantUsage ex_family ''p'')"
proof -
  have "is_ok (DescendantUsage ex_family ''p'')"
    by (auto simp: DescendantUsage_def ex_family_collect split: prod.splits)
  then show ?thesis
    using delegation_projections [of ex_family "''p''"] ex_family_collect ex_family_keys by blast
qed

text \<open>Spawning keeps the delegation sound.  When \<^verbatim>\<open>spawn_agent\<close> ran with fresh identifiers and its
  events were stored, the parent's open children are the old ones and the new spawn, and a
  delegation tree that could be built before can be built after.\<close>

lemma spawn_keeps_delegation:
  assumes "stringValue (pget args ''task'') \<noteq> []"
    and "re_newID env (w_ext w) = (u1, x1)" and "re_newID env x1 = (u2, x2)"
    and "w' = runSpawnAgent env toolUse args w" and "lg_err (w_log w') = None"
    and "''ses_'' @ u2 \<notin> fst ` set (world_sessions w)"
    and "\<forall>e \<in> set (w_events w). ev_type e = EventAgentResult \<longrightarrow> spawn_key e \<noteq> ''spn_'' @ u1"
    and "OpenChildren (world_sessions w) (ss_id (w_session w)) = Inr ids"
  shows "OpenChildren (world_sessions w') (ss_id (w_session w')) = Inr (ids @ [''spn_'' @ u1]) \<and>
    (is_ok (DelegationTree (world_sessions w) (ss_id (w_session w))) \<longrightarrow>
     is_ok (DelegationTree (world_sessions w') (ss_id (w_session w'))))"
proof -
  obtain sp child where a: "adds_child (world_sessions w) (world_sessions w') (ss_id (w_session w))
      (w_session w) (w_session w') sp child" and key: "spawn_key sp = ''spn_'' @ u1"
    by (rule runSpawnAgent_adds_child [OF assms(1-6)])
  have none: "agentResultForSpawn (w_session w) (spawn_key sp) = Inr None"
    using assms(7) by (simp add: agentResultForSpawn_def key result_scan_none)
  have "ss_id (w_session w') = ss_id (w_session w)" by (rule adds_childD(3) [OF a])
  then show ?thesis
    using adds_child_open [OF a assms(8) none] adds_child_sound [OF a] none
    by (simp add: delegation_ok(1) one_result_def key)
qed

text \<open>The timeline of the descendants is not in the order of time.  It is sorted by a field
  \<^verbatim>\<open>timestamp\<close> of the payloads, which nothing in the program writes; the time stamps of the events
  are not read.  Without that field the timeline lists one session after the other, in the order
  of their identifiers.\<close>

lemma timeline_by_session:
  assumes "collectDescendants m [] sid = Inr ss" and "\<forall>s \<in> set ss. unstamped s" and "keyed m" and "distinct_spawns m"
  shows "DescendantTimeline m sid = Inr (concat (map session_rows (sort_key ss_id ss)))"
  using timeline_sessions [OF assms(1,2)] collect_once(1) [OF assms(3,4,1)] by blast

section \<open>Streaming providers\<close>


text \<open>What the loop makes of a successful stream whose identifiers are distinct: it stages the
  message and the uses, and refuses only a stop for tools without a tool.  A stop for another
  reason with uses gets one synthesised result per use.\<close>

lemma stream_step_result:
  assumes "AnthropicStream_Call hx p request w = ((events, None), w') \<or>
      OpenAIStream_Call hx p request w = ((events, None), w') \<or>
      GeminiStream_Call hx p request w = ((events, None), w')"
    and "distinct (map (\<lambda>u. ea_str u ''id'') (arg_uses events))"
  shows "\<exists>m stop. stage_stream kind model events = m # arg_uses events \<and> stop = ea_str m ''stop_reason'' \<and>
    closeProviderStep (stage_stream kind model events) =
      (if arg_uses events = [] \<and> stop = ''tool_use''
       then Inl (''missing_tool_use'', ''provider ended with tool_use but emitted no complete tool calls'')
       else if arg_uses events = [] \<or> stop = ''tool_use''
       then Inr (\<lparr>tn_stopReason = stop, tn_reason = []\<rparr>, m # arg_uses events)
       else Inr (\<lparr>tn_stopReason = stop, tn_reason = RunReasonIncompleteToolBatch\<rparr>,
                 m # arg_uses events @ map (incomplete_result stop) (arg_uses events)))"
proof -
  have o: "stream_outcome events None"
    using assms(1) by (auto dest: AnthropicStream_outcome OpenAIStream_outcome GeminiStream_outcome)
  show ?thesis
  proof (rule stream_step [OF o assms(2), of kind model], intro exI conjI)
    fix m us stop
    assume "stage_stream kind model events = m # us" and "us = arg_uses events"
    then show "stage_stream kind model events = m # arg_uses events" by simp
  qed (simp_all only:)
qed

text \<open>A function call that a Gemini stream delivers is never executed.  The stream's stop reason is
  never the one for tools, so the step check synthesises a result for every use and ends the
  run with an incomplete batch.\<close>

lemma gemini_stream_tools_never_run:
  assumes "GeminiStream_Call hx p request w = ((events, None), w')" and "arg_uses events \<noteq> []"
  shows "\<exists>stop m. closeProviderStep (stage_stream kind model events) =
    Inr (\<lparr>tn_stopReason = stop, tn_reason = RunReasonIncompleteToolBatch\<rparr>,
         m # arg_uses events @ map (incomplete_result stop) (arg_uses events))"
  by (rule gemini_tools_incomplete [OF assms])

text \<open>Gemini identifiers restart.  The uses of every Gemini stream are numbered from zero, so a
  log that holds uses of two streams has two uses of one identifier, and no provider is called on
  it any more.\<close>

lemma gemini_ids_restart:
  assumes "GeminiStream_Call hx p q w = ((evs, None), w1)"
    and "GeminiStream_Call hx' p' q' w2 = ((evs', None), w3)"
    and "arg_uses evs \<noteq> []" and "arg_uses evs' \<noteq> []"
    and "lg_events (ss_log s) = es @ es'"
    and "hd (arg_uses evs) \<in> set (map args_of es)" and "hd (arg_uses evs') \<in> set (map args_of es')"
  shows "\<not> is_ok (PrepareProviderCall dg (Some s))"
proof -
  have first: "ea_type (hd (arg_uses evs)) = EventToolUse \<and> ea_str (hd (arg_uses evs)) ''id'' = gemini_id 0"
    if "GeminiStream_Call hx p q w = ((evs, None), w1)" "arg_uses evs \<noteq> []"
    for hx :: "'x http_env" and p q w evs w1
  proof -
    have "hd (arg_uses evs) \<in> set (arg_uses evs)" using that(2) by (rule list.set_sel(1))
    moreover have "hd (map (\<lambda>u. ea_str u ''id'') (arg_uses evs)) = gemini_id 0"
      unfolding GeminiStream_ids [OF that(1)] using that(2) by (simp add: upt_conv_Cons)
    ultimately show ?thesis using that(2) by (auto simp: hd_map)
  qed
  obtain i where i: "i < length es" "args_of (es ! i) = hd (arg_uses evs)"
    using assms(6) by (auto simp: in_set_conv_nth)
  obtain j where j: "j < length es'" "args_of (es' ! j) = hd (arg_uses evs')"
    using assms(7) by (auto simp: in_set_conv_nth)
  have e: "ev_type (es ! i) = EventToolUse" "use_id (es ! i) = gemini_id 0"
    using first [OF assms(1,3)] unfolding i(2) [symmetric] by (simp_all add: args_of_def)
  have e': "ev_type (es' ! j) = EventToolUse" "use_id (es' ! j) = gemini_id 0"
    using first [OF assms(2,4)] unfolding j(2) [symmetric] by (simp_all add: args_of_def)
  show ?thesis
    by (rule duplicate_use_refused [where i = i and j = "length es + j" and es = "es @ es'"])
      (use assms(5) i(1) j(1) e e' in \<open>simp_all add: nth_append\<close>)
qed

text \<open>The Anthropic handler accepts a stream only along the lifecycle of a message.  Leaving
  aside pings and unknown kinds, the accepted streams start with one message\_start, end with
  one message\_stop, and have block events and message\_delta in between.\<close>

lemma anthropic_lifecycle:
  assumes "an_run je ps (newAnthropicStreamState f) = (None, s)" and "an_Complete s = (None, s')"
  shows "\<exists>mid. filter core_kind (map an_kind ps) = ''message_start'' # mid @ [''message_stop''] \<and>
    set mid \<subseteq> {''content_block_start'', ''content_block_delta'', ''content_block_stop'', ''message_delta''}"
  using an_lifecycle [OF assms] by (simp add: body_kinds_def)

section \<open>Compaction\<close>

text \<open>C26: \<^verbatim>\<open>toolPairSafeRange\<close>.  On a sound log it keeps, in order, exactly the candidates that do not
  belong to a tool use without a result or to a use and result of which only one is a
  candidate; so its result never separates a use from its result.  The right-hand side does
  not mention the iteration order of the code's map.\<close>

theorem tool_pair_safe_range:
  assumes "well_referenced es" and "dense es"
  shows "toolPairSafeRange es c = filter (pair_safe es (set c)) c \<and>
    pair_closed es (set (toolPairSafeRange es c))"
  using toolPairSafeRange_spec [OF assms, of c] toolPairSafeRange_closed [OF assms, of c] by simp

theorem tool_pair_safe_range_witness:
  "toolPairSafeRange ex_closed [0, 1, 2, 3, 4] = [0, 1, 2, 4]"
proof -
  have "well_referenced ex_closed" "dense ex_closed" by code_simp+
  then have "toolPairSafeRange ex_closed [0, 1, 2, 3, 4] = filter (pair_safe ex_closed (set [0, 1, 2, 3, 4])) [0, 1, 2, 3, 4]"
    by (rule tool_pair_safe_range [THEN conjunct1])
  also have "\<dots> = [0, 1, 2, 4]" by code_simp
  finally show ?thesis .
qed

text \<open>C27: Three of the four compaction strategies keep a session ready for its provider: after their
  handler ran on a ready, dense log whose numbers are exact float64 values, the log is still
  dense, sound in both streams, and every visible tool use still has its visible result.\<close>

theorem compaction_keeps_ready:
  fixes w :: "('h, 'st, 'w) world"
  assumes "dense (w_events w)" and "provider_ready (w_events w)" and "length (w_events w) \<le> 2 ^ 53"
    and "\<And>p req (v :: ('h, 'st, 'w) world). su_Provider s = Some p \<Longrightarrow> w_events (snd (p req v)) = w_events v"
  shows "provider_ready (w_events (snd (TokenMarkerTail_handler le t w))) \<and>
    provider_ready (w_events (snd (ToolOutputCap_handler le oc w))) \<and>
    provider_ready (w_events (snd (SummaryTail_handler le s w)))"
proof -
  have s: "settled (w_events w)" "float_exact (w_events w)"
    using assms(1-3) by (simp_all add: settled_def float_exact_def)
  have "settled (w_events (snd (SummaryTail_handler le s w)))"
    by (rule SummaryTail_settled [OF s]) (rule assms(4))
  then show ?thesis
    using TokenMarkerTail_settled [OF s, of le t] ToolOutputCap_settled [OF s, of le oc]
    by (simp add: settled_def)
qed

theorem compaction_keeps_ready_witness:
  "provider_ready (w_events (snd (TokenMarkerTail_handler ex_log_env ex_token_tail (ex_world [] ex_closed)))) \<and>
   EventCompact \<in> ev_type ` set (w_events (snd (TokenMarkerTail_handler ex_log_env ex_token_tail (ex_world [] ex_closed))))"
proof -
  have e: "w_events (ex_world [] ex_closed) = ex_closed" by code_simp
  have "dense ex_closed" "provider_ready ex_closed" "length ex_closed = 6" by code_simp+
  then have "provider_ready (w_events (snd (TokenMarkerTail_handler ex_log_env ex_token_tail (ex_world [] ex_closed))))"
    using compaction_keeps_ready [where w = "ex_world [] ex_closed" and le = ex_log_env and t = ex_token_tail
        and s = ex_summary_tail] e
    by (simp add: ex_summary_tail_def)
  moreover have "EventCompact \<in> ev_type ` set (w_events (snd (TokenMarkerTail_handler ex_log_env ex_token_tail (ex_world [] ex_closed))))"
    by code_simp
  ultimately show ?thesis by simp
qed

text \<open>\<^verbatim>\<open>TokenMarkerTail\<close> leaves the most recent messages alone: each of the last \<^verbatim>\<open>KeepRecent\<close>
  messages is in the effective stream after its handler ran.\<close>

lemma token_tail_keeps_recent:
  fixes w :: "('h, 'st, 'w) world"
  assumes "dense (w_events w)" and "length (w_events w) \<le> 2 ^ 53"
    and "e \<in> set (drop (length (messageEvents (w_events w)) - tm_KeepRecent t) (messageEvents (w_events w)))"
  shows "e \<in> set (apply_mutations (w_events (snd (TokenMarkerTail_handler le t w))))"
  using assms by (intro TokenMarkerTail_keeps_recent) (simp_all add: float_exact_def)

text \<open>\<^verbatim>\<open>MarkerTail\<close> has no such guard: on a log that is ready it compacts a tool use away from
  its result, and the session cannot call a provider any more; and asked to keep more messages
  than there are, it panics.\<close>

lemma marker_tail_splits_pairs:
  "provider_ready ex_closed \<and>
   \<not> provider_ready (w_events (snd (MarkerTail_handler ex_log_env \<lparr>mt_MaxMessages = 3, mt_KeepRecent = 2\<rparr>
        (ex_world [] ex_closed)))) \<and>
   fst (MarkerTail_handler ex_log_env \<lparr>mt_MaxMessages = 3, mt_KeepRecent = 9\<rparr> (ex_world [] ex_closed))
     = Inl negative_capacity"
  by code_simp

section \<open>Guards\<close>

text \<open>C28: What the write sandbox decides.  A write is allowed exactly when the components of some
  allowed root are a prefix of the components of the resolved path and those of no denied root
  are; a refusal counts, an allowed write resets the count, and the third refusal in a row
  panics after a terminal runtime error.\<close>

theorem write_sandbox_decision:
  assumes "resolves_clean fs" and "proper_roots roots"
    and "tool_name u = ''write_file'' \<or> tool_name u = ''edit_file''"
    and "path = stringValue (pget (tool_arguments u) ''path'')" and "path \<noteq> []"
  shows "WriteSandbox_step le fs sb roots n u w =
    (if write_permitted fs roots path then (Inr allow_decision, 0, w)
     else if n + 1 \<ge> 3
     then (Inl (PTurnFailed ''sandbox_violation_limit''), n + 1,
           strategy_fail le (strategy_error ''sandbox/write'' ''Harnas::SandboxViolation''
             ''sandbox_violation_limit'' [] True) w)
     else (Inr (deny_decision (sandboxWriteMessage path
             (case sb_Allow sb of None \<Rightarrow> [''.''] | Some a \<Rightarrow> a) (sb_Deny sb))), n + 1, w))"
  by (rule WriteSandbox_decision [OF assms])

theorem write_sandbox_decision_witness:
  "fst (WriteSandbox_step ex_log_env ex_fs ex_sandbox (write_prefixes ex_fs ex_sandbox) 0
     (ex_write 0 ''x'' ''/work/sub/../notes.txt'') (ex_world [] [])) = Inr allow_decision \<and>
   fst (WriteSandbox_step ex_log_env ex_fs ex_sandbox (write_prefixes ex_fs ex_sandbox) 0
     (ex_write 0 ''x'' ''../etc/passwd'') (ex_world [] [])) \<noteq> Inr allow_decision"
proof -
  have r: "resolves_clean ex_fs" by (simp add: resolves_clean_def ex_fs_def)
  have "write_prefixes ex_fs ex_sandbox = ([''/work''], [])" by code_simp
  then have p: "proper_roots (write_prefixes ex_fs ex_sandbox)"
    using write_prefixes_clean [OF r, of _ ex_sandbox] by (simp add: proper_roots_def)
  have u: "tool_name (ex_write 0 ''x'' p) = ''write_file'' \<or> tool_name (ex_write 0 ''x'' p) = ''edit_file''"
    "p = stringValue (pget (tool_arguments (ex_write 0 ''x'' p)) ''path'')" for p
    by (simp_all add: ex_write_def mk_ev_def tool_name_def tool_arguments_def pget_def aget_def)
  have "write_permitted ex_fs (write_prefixes ex_fs ex_sandbox) ''/work/sub/../notes.txt''"
    "\<not> write_permitted ex_fs (write_prefixes ex_fs ex_sandbox) ''../etc/passwd''" by code_simp+
  then show ?thesis
    using write_sandbox_decision [OF r p u, of "''/work/sub/../notes.txt''" ex_log_env ex_sandbox 0 "ex_world [] []"]
      write_sandbox_decision [OF r p u, of "''../etc/passwd''" ex_log_env ex_sandbox 0 "ex_world [] []"]
    by (simp add: allow_decision_def deny_decision_def)
qed

text \<open>The third refusal does not stop the write.  Installed with \<^verbatim>\<open>Hooks.On\<close> the sandbox runs
  under the default policy, which isolates its panic, so the loop sees no decision for the
  third write and runs the tool: of three forbidden writes in one batch two are refused and
  the third gets the tool's output.\<close>

lemma sandbox_third_write_runs:
  "map (\<lambda>e. pget (ev_payload e) ''output'')
     (results_of (w_events (snd (dispatchPendingTools ex_sandbox_env ex_sandbox_world))))
   = [VNil, VNil, VStr ''written'']"
  by code_simp

text \<open>The guards keep out of the conversation: none of them appends a tool use or a tool result,
  or touches a latched log, whatever it decides.\<close>

lemma guards_are_quiet:
  "guard_quiet (WriteSandbox_step le fs sb roots :: ('h, 'st, 'w, int) guard) \<and>
   guard_quiet (NetworkSandbox_step le hostOf nb :: ('h, 'st, 'w, int) guard) \<and>
   guard_quiet (RepetitionGuard_pre le hash g :: ('h, 'st, 'w, repetition_state) guard) \<and>
   quiet w (snd (snd (RepetitionGuard_post le g rs u r w))) \<and>
   quiet w (snd (TimeoutGuard_step le n elapsed checks w)) \<and>
   quiet w (snd (CostBudgetGuard_handler le cb w)) \<and>
   quiet w (snd (HealthGuard_step le run h checks w)) \<and>
   (case CredentialProxy_step le pe cp missing e w of None \<Rightarrow> True | Some (d, m, w') \<Rightarrow> quiet w w')"
proof -
  have "case CredentialProxy_step le pe cp missing e w of None \<Rightarrow> True | Some (d, m, w') \<Rightarrow> quiet w w'"
    using CredentialProxy_quiet [of le pe cp missing e w] by (auto split: option.splits)
  then show ?thesis
    by (simp add: WriteSandbox_quiet NetworkSandbox_quiet RepetitionGuard_quiet TimeoutGuard_quiet
        CostBudgetGuard_quiet HealthGuard_quiet)
qed

text \<open>The counters of the repetition guard.  After any list of results, from zero, they are the
  lengths of the current runs of failures and of rejections; after any list of calls the count
  of a key is the number of calls with that key.\<close>

lemma repetition_counters:
  assumes "rs_failures c = 0" and "rs_rejections c = 0" and "rs_calls c = []"
  shows "rs_failures (fst (after_results le g rs (c, w))) = run_length (\<lambda>x. result_failed (snd x)) rs \<and>
    rs_rejections (fst (after_results le g rs (c, w))) = run_length (\<lambda>x. result_rejected (snd x)) rs \<and>
    aget 0 (rs_calls (fst (after_calls le hash g us (c, w)))) key =
      int (count_list (map (repetitionCallKey hash) us) key)"
  using after_results_counters [OF assms(1,2), of le g rs w] after_calls_counter [OF assms(3), of le hash g us w key]
  by simp

text \<open>C29: \<^verbatim>\<open>resolveTemplate\<close> returns when no credential value can open another reference (no value has
  an opening brace), and never returns on a credential that mentions itself.\<close>

theorem credential_template:
  "(inert envLookup creds \<longrightarrow> (\<exists>r. resolveTemplate envLookup creds template [] = Some r)) \<and>
   resolveTemplate envLookup self_creds ''{credential.a}'' [] = None"
  using resolveTemplate_returns [of envLookup creds template "[]"] resolveTemplate_loops by simp

theorem credential_template_witness:
  "\<exists>r. resolveTemplate (\<lambda>n. None) [(''a'', \<lparr>cr_From = ''literal'', cr_Name = [], cr_Value = ''s3cret''\<rparr>)]
     ''Bearer {credential.a}'' [] = Some r"
  by (rule credential_template [THEN conjunct1, THEN mp])
    (auto simp: inert_def cred_Resolve_def split: if_splits)

section \<open>Manifests\<close>



text \<open>Error policies that a manifest states and the program loses.  The hooks of a manifest are
  installed as closures of one function literal; the metadata of a handler is kept under its code
  pointer, so after \<^verbatim>\<open>InstallStrategies\<close> every hook of the manifest, whichever policy it asked for,
  has the policy of the last one.  And when a strategy is listed a second time, its closures look
  like those already installed: they get the default policy, whatever its \<open>on_error\<close> says.\<close>

lemma manifest_policies_lost:
  assumes "\<forall>h \<in> set (lm_Hooks l). code (wrap h) = k" and "lm_Hooks l \<noteq> []"
  shows "(\<forall>h \<in> set (lm_Hooks l). policy_of code (InstallStrategies code closures wrap l hk) (wrap h) =
      onErrorDefault (hi_OnError (last (lm_Hooks l)))) \<and>
    (\<forall>hk' cs n. distinct (map fst (hk_handlers hk')) \<and>
       (\<forall>(p, h) \<in> set cs. \<exists>x \<in> set (handlers_at hk' p). code x = code h) \<longrightarrow>
       (\<forall>(p, h) \<in> set cs. policy_of code (Named_Install code cs n hk') h = HookErrorIsolate))"
proof (intro conjI allI impI ballI)
  fix h
  assume "h \<in> set (lm_Hooks l)"
  then show "policy_of code (InstallStrategies code closures wrap l hk) (wrap h) =
      onErrorDefault (hi_OnError (last (lm_Hooks l)))"
    unfolding InstallStrategies_def using assms by (intro hooks_last_policy [of _ _ _ k]) auto
next
  fix hk' :: "'a hooks" and cs n ph
  assume "distinct (map fst (hk_handlers hk')) \<and> (\<forall>(p, h) \<in> set cs. \<exists>x \<in> set (handlers_at hk' p). code x = code h)"
    and "ph \<in> set cs"
  then show "case ph of (p, h) \<Rightarrow> policy_of code (Named_Install code cs n hk') h = HookErrorIsolate"
    by (cases ph) (simp add: repeated_strategy_isolates)
qed

section \<open>Bash sessions\<close>

text \<open>C31: A framed command.  When the shell answers it as the frame asks, the lines of its two
  streams in any interleaving, \<^verbatim>\<open>run\<close> returns a completed result with the command's exit code, its
  output and its error output (escape sequences removed, and only the last \<open>max_output_bytes\<close> of each),
  and the session is free for the next command.\<close>

theorem bash_run_completes:
  assumes "plain_token (rc_token ch)" and "int64 (sa_code a)" and "unmarked (rc_token ch) a"
    and "rc_during ch \<in> answer_events (rc_token ch) a" and "rc_earlier ch = []" and "rc_written ch" and "\<not> rc_fired ch"
    and "bs_current s = None" and "\<not> bs_closed s"
    and "rb_holds (bs_stdout s) h1" and "rb_holds (bs_stderr s) h2"
  shows "\<exists>r s'. session_run command env timed ch s = (Some r, s') \<and>
      br_Status r = ''completed'' \<and> br_ExitCode r = Some (sa_code a) \<and>
      br_CommandStdout r = kept (rb_max (bs_stdout s)) (answer_stdout a) \<and>
      br_CommandStderr r = kept (rb_max (bs_stderr s)) (answer_stderr a) \<and>
      bs_current s' = None \<and> \<not> bs_closed s' \<and>
      rb_holds (bs_stdout s') (h1 @ answer_stdout a) \<and> rb_holds (bs_stderr s') (h2 @ answer_stderr a)"
  using assms by (rule run_answered)

theorem bash_run_completes_witness:
  "\<exists>r s'. session_run ''c'' [] False (ex_chance ex_answer) ex_shell = (Some r, s') \<and>
     br_ExitCode r = Some 1 \<and> br_CommandStdout r = CHR ''i'' # newline @ ''yo'' \<and> br_CommandStderr r = ''e'' @ newline"
proof -
  have out: "answer_stdout ex_answer = ''hi'' @ newline @ ''yo''" "answer_stderr ex_answer = ''e'' @ newline" by code_simp+
  have "\<exists>r s'. session_run ''c'' [] False (ex_chance ex_answer) ex_shell = (Some r, s') \<and>
      br_Status r = ''completed'' \<and> br_ExitCode r = Some (sa_code ex_answer) \<and>
      br_CommandStdout r = kept (rb_max (bs_stdout ex_shell)) (answer_stdout ex_answer) \<and>
      br_CommandStderr r = kept (rb_max (bs_stderr ex_shell)) (answer_stderr ex_answer) \<and>
      bs_current s' = None \<and> \<not> bs_closed s' \<and>
      rb_holds (bs_stdout s') ([] @ answer_stdout ex_answer) \<and> rb_holds (bs_stderr s') ([] @ answer_stderr ex_answer)"
    by (rule bash_run_completes [OF _ _ _ ex_chance_events])
      (simp_all add: ex_chance_def ex_token ex_answers ex_shell_idle ex_shell_holds, simp add: ex_answer_def int64_def)
  moreover have "sa_code ex_answer = 1" by (simp add: ex_answer_def)
  ultimately show ?thesis by (auto simp: ex_shell_idle out kept_def newline_def)
qed

text \<open>C32: Nothing else completes a command: when \<^verbatim>\<open>run\<close> reports one as completed, its readers took the
  marker with this command's token from both streams while it waited, or the shell exited.\<close>

theorem bash_completed_sound:
  assumes "session_run command env timed ch s0 = (Some r, s')" and "br_Status r = ''completed''"
    and "finished_command (rc_token ch) (bash_events (rc_earlier ch) s0) = None"
  shows "announced (rc_token ch) (rc_during ch) \<or> exited (rc_during ch)"
  using assms by (rule completed_accounted)

theorem bash_completed_sound_witness: "announced ''t'' (rc_during (ex_chance ex_answer))"
proof -
  obtain r s' where r: "session_run ''c'' [] False (ex_chance ex_answer) ex_shell = (Some r, s')" "br_Status r = ''completed''"
    using run_answered [OF _ _ _ ex_chance_events, of ex_answer ex_shell "[]" "[]" "''c''" "[]" False]
    by (auto simp: ex_chance_def ex_token ex_answers ex_shell_idle ex_shell_holds) (auto simp: ex_answer_def int64_def)
  have "finished_command ''t'' (bash_events (rc_earlier (ex_chance ex_answer)) ex_shell) = None"
    by (simp add: ex_chance_def bash_events_def finished_command_def ex_shell_idle)
  then have "announced ''t'' (rc_during (ex_chance ex_answer)) \<or> exited (rc_during (ex_chance ex_answer))"
    using bash_completed_sound [OF r] by (simp add: ex_chance_def)
  moreover have "\<not> exited (rc_during (ex_chance ex_answer))" by (auto simp: ex_chance_def exited_def)
  ultimately show ?thesis by blast
qed

text \<open>A marker in the output.  When the last text a command prints, without a newline after it, holds
  \<^verbatim>\<open>__HARNAS_DONE_\<close>, the marker of the frame is read with the wrong token: on every interleaving
  \<^verbatim>\<open>run\<close> without a timeout never returns, with one it reports the command as running although the
  shell has finished it, and every later \<^verbatim>\<open>run\<close> waits for it.\<close>

lemma bash_marker_hangs:
  assumes "plain_token (rc_token ch)" and "self_marked (rc_token ch) a"
    and "rc_during ch \<in> answer_events (rc_token ch) a" and "rc_earlier ch = []" and "rc_written ch"
    and "bs_current s = None" and "\<not> bs_closed s" and "finished_command (rc_token ch) s = None"
  shows "\<exists>s'. snd (session_run command env timed ch s) = s' \<and> bs_current s' \<noteq> None \<and>
    fst (session_run command env False ch s) = None \<and>
    (\<forall>r. fst (session_run command env timed ch s) = Some r \<longrightarrow> br_Status r = ''running'') \<and>
    (\<forall>command' env' ch'. rc_earlier ch' = [] \<longrightarrow> fst (session_run command' env' timed ch' s') = None)"
proof -
  let ?s1 = "bash_events (rc_during ch) (start_command command env (rc_token ch) s)"
  have "waits_for (rc_token ch) (start_command command env (rc_token ch) s)"
    using assms(8) by (simp add: waits_for_def begin_command_def finished_command_def)
  then have w: "waits_for (rc_token ch) ?s1"
    using self_marked_unanswered [OF assms(2,1,3)] by (rule unanswered_events)
  have "snd (session_run command env timed ch s) = ?s1"
    using assms w by (auto simp: session_run_def bash_events_def waits_for_def Let_def)
  moreover have "bs_current ?s1 \<noteq> None" using w by (auto simp: waits_for_def)
  moreover have "fst (session_run command env False ch s) = None"
    using assms w by (auto simp: session_run_def bash_events_def waits_for_def Let_def)
  moreover have "fst (session_run command env timed ch s) = Some r \<Longrightarrow> br_Status r = ''running''" for r
    using assms w by (auto simp: session_run_def bash_events_def waits_for_def bash_snapshot_def Let_def split: if_splits)
  moreover have "rc_earlier ch' = [] \<Longrightarrow> fst (session_run command' env' timed ch' ?s1) = None" for command' env' ch'
    using w by (auto simp: session_run_def bash_events_def waits_for_def Let_def)
  ultimately show ?thesis by blast
qed

text \<open>C33: Variables given with a command cannot escape their quotes.  For a POSIX shell the text that
  \<^verbatim>\<open>wrapCommandEnv\<close> builds is read, by field splitting and quote removal, as exactly these words:
  \<^verbatim>\<open>env\<close>, one assignment for each variable in the order of their names, the shell, \<^verbatim>\<open>-c\<close>, and the
  command, whatever bytes the values and the command have.\<close>

theorem bash_env_words:
  assumes "parseCommandEnv v = Inr env" and "shellType \<noteq> ''powershell''" and "shellType \<noteq> ''cmd''"
  shows "sh_words Bare None (wrapCommandEnv shell shellType command env) =
    Some (''env'' # map (\<lambda>kv. fst kv @ ''='' @ snd kv) (sorted_env env) @ [shell, ''-c'', command])"
  using wrapped_words parseCommandEnv_names [OF assms(1)] assms(2,3) by blast

theorem bash_env_words_witness:
  "sh_words Bare None (wrapCommandEnv ''bash'' ''posix'' ''$X'' [(''B'', squote @ '';rm''), (''A'', [])]) =
   Some [''env'', ''A='', ''B='' @ squote @ '';rm'', ''bash'', ''-c'', ''$X'']"
proof -
  have "parseCommandEnv (VMap [(''B'', VStr (squote @ '';rm'')), (''A'', VStr [])]) = Inr [(''B'', squote @ '';rm''), (''A'', [])]"
    by code_simp
  from bash_env_words [OF this, of "''posix''" "''bash''" "''$X''"]
  moreover have "sorted_env [(''B'', squote @ '';rm''), (''A'', [])] = [(''A'', []), (''B'', squote @ '';rm'')]"
    by code_simp
  ultimately show ?thesis by simp
qed

section \<open>Tools on files\<close>



text \<open>C35: The descriptors and the handlers agree.  For every built-in tool, each argument its schema requires is
  declared there, its handler is in the table, and a call in which such an argument is missing, or is
  no string, is refused before any file or shell is touched.\<close>

theorem builtin_arguments:
  assumes "s \<in> set BuiltinDescriptors" and "r \<in> set (required_arguments s)"
  shows "r \<in> set (declared_arguments s) \<and>
    map_of (BuiltinHandlers host) (ts_Handler s) = Some (handler_of host s) \<and>
    (as_string (pget args r) = None \<longrightarrow> (\<exists>e. handler_of host s args w = (Some (Inl e), w)))"
  using required_declared required_refused [OF assms, of args host w] descriptors_handled [OF assms(1), of host] assms
  by (auto simp: list_all_iff handler_of_def refused_call_def)

theorem builtin_arguments_witness:
  "\<forall>host w. \<exists>e. handler_of host edit_file_spec [(''path'', VStr ''f''), (''old_string'', VStr ''a'')] w = (Some (Inl e), w)"
proof (intro allI)
  fix host w
  have s: "edit_file_spec \<in> set BuiltinDescriptors" by (simp add: BuiltinDescriptors_def)
  have r: "''new_string'' \<in> set (required_arguments edit_file_spec)"
    by (simp add: required_arguments_def stringSlice_def edit_file_spec_def)
  have "as_string (pget [(''path'', VStr ''f''), (''old_string'', VStr ''a'')] ''new_string'') = None"
    by (simp add: as_string_def)
  then show "\<exists>e. handler_of host edit_file_spec [(''path'', VStr ''f''), (''old_string'', VStr ''a'')] w = (Some (Inl e), w)"
    using builtin_arguments [OF s r] by blast
qed

text \<open>C36: The pages of \<^verbatim>\<open>read_file\<close>.  For a file that is not empty and a limit \<open>l\<close>, the page at each multiple of
  \<open>l\<close> below the number of lines is its body, followed by a footer unless it is the last; the bodies
  of all pages, one after the other, are the numbered lines of the file; and the lines, joined, are
  the file without its final newline.\<close>

theorem read_pages:
  assumes "0 < l" and "content \<noteq> []" and "n = (length (file_lines content) + l - 1) div l"
  shows "(\<forall>k < n. formatNumberedFile content (int (k * l)) (int l) =
        page_body content l k @ page_footer (int (length (file_lines content))) (int (k * l)) (int l) \<and>
        (page_footer (int (length (file_lines content))) (int (k * l)) (int l) = [] \<longleftrightarrow> Suc k = n)) \<and>
    concat (map (page_body content l) [0..<n]) = numbered 1 (file_lines content) \<and>
    str_join (file_lines content) [newline_char] =
      (if has_suffix content [newline_char] then butlast content else content)"
proof (intro conjI allI impI)
  fix k
  assume k: "k < n"
  note below = page_count_below [OF assms(1,3) k]
  show "formatNumberedFile content (int (k * l)) (int l) =
        page_body content l k @ page_footer (int (length (file_lines content))) (int (k * l)) (int l)"
    using page_is_body [OF assms(2) below(1)] .
  show "page_footer (int (length (file_lines content))) (int (k * l)) (int l) = [] \<longleftrightarrow> Suc k = n"
    using below(2) by (auto simp: page_footer_def)
qed (use pages_cover [OF assms(1,3)] file_lines_join [OF assms(2)] in simp_all)

theorem read_pages_witness:
  "concat (map (page_body (''a'' @ newline_char # ''b'') 1) [0..<2]) = numbered 1 [''a'', ''b'']"
proof -
  have f: "file_lines (''a'' @ newline_char # ''b'') = [''a'', ''b'']" by code_simp
  then show ?thesis using read_pages [of 1 "''a'' @ newline_char # ''b''" 2] by simp
qed



text \<open>C38: The rate limiter.  Of calls that all fall into one minute it admits at most twice its limit, whatever
  its state; before its first call it admits exactly the first ones, up to the limit.  A limit that
  is not positive admits none.\<close>

theorem rate_limit:
  assumes "\<forall>t \<in> set ts. \<forall>u \<in> set ts. u - t < minute" and "rl_inv r"
  shows "(0 < rl_PerMinute r \<longrightarrow> int (admitted ts r) \<le> 2 * rl_PerMinute r \<and>
      (rl_window r = None \<longrightarrow> int (admitted ts r) = min (int (length ts)) (rl_PerMinute r))) \<and>
    (rl_PerMinute r \<le> 0 \<longrightarrow> admitted ts r = 0)"
proof (intro conjI impI)
  assume pos: "0 < rl_PerMinute r"
  have "rl_PerMinute r + (case rl_window r of None \<Rightarrow> 0 | Some w \<Rightarrow> rl_PerMinute r - rl_count r) \<le> 2 * rl_PerMinute r"
    using assms(2) pos by (auto simp: rl_inv_def split: option.splits)
  then show "int (admitted ts r) \<le> 2 * rl_PerMinute r" using admitted_in_minute [OF assms pos] by simp
next
  assume "0 < rl_PerMinute r" "rl_window r = None"
  then show "int (admitted ts r) = min (int (length ts)) (rl_PerMinute r)" using admitted_fresh [OF assms(1)] by blast
next
  assume "rl_PerMinute r \<le> 0"
  then show "admitted ts r = 0" by (induction ts) (simp_all add: rl_admit_def)
qed

theorem rate_limit_witness:
  "int (admitted [0, 1, 2] \<lparr>rl_PerMinute = 2, rl_window = None, rl_count = 0\<rparr>) = 2"
proof -
  let ?r = "\<lparr>rl_PerMinute = 2, rl_window = None, rl_count = 0\<rparr>"
  have "\<forall>t \<in> set [0, 1, 2 :: int]. \<forall>u \<in> set [0, 1, 2]. u - t < minute" "rl_inv ?r"
    by (simp_all add: minute_def rl_inv_def)
  from rate_limit [OF this] show ?thesis by simp
qed

section \<open>Replies\<close>

text \<open>What \<^verbatim>\<open>Chat\<close> and \<^verbatim>\<open>Stream\<close> reply.  The run only adds events.  When it adds an assistant message, the
  reply is the text of the last one; when it adds none (the turn failed, or a tool awaits approval),
  the reply is that of the conversation before the call, with its stop reason: the caller cannot tell
  it from a new answer.\<close>

lemma chat_reply:
  assumes "runner_extends env" and "chat_run env p w = (Inr r, w1)"
  shows "\<exists>es reason. w_events w1 = w_events w @ es \<and>
    (case find_last (\<lambda>e. ev_type e = EventAssistantMessage) es of
       Some m \<Rightarrow> re_Text r = stringValue (pget (ev_payload m) ''text'')
     | None \<Rightarrow> r = reply_of (w_log w) reason)"
proof -
  obtain es reason where r: "w_events w1 = w_events w @ es" "r = reply_of (w_log w1) reason"
    and l: "LastAssistantMessage (w_log w1) =
      (case find_last (\<lambda>e. ev_type e = EventAssistantMessage) es of
         Some m \<Rightarrow> Some m | None \<Rightarrow> LastAssistantMessage (w_log w))"
    using chat_run_reply [OF assms] by blast
  show ?thesis
    by (intro exI [of _ es] exI [of _ reason] conjI r(1)) (use r(2) l in \<open>auto simp: reply_of_def Let_def split: option.splits\<close>)
qed

section \<open>MCP servers\<close>



text \<open>C40: Requests to a child process.  However the calls of a client interleave with its read loop, each
  request has a number of its own; a request that waits is pending, or has exactly one answer; an
  answer is a line with that number (its integer part), or an error, and errors are only given
  when the read loop has ended.  Then every request that waits has its answer, and no request
  starts to wait any more.\<close>

theorem mcp_answers:
  assumes "NewStdioClient sx command cargs server env = Inr c" and "stdio_after je (run_of c) n s"
    and "int n + 1 < 2 ^ 63"
  shows "distinct (sr_writing s @ sr_waiting s) \<and>
    (\<forall>i \<in> set (sr_waiting s).
       (i \<in> set (sc_pending (sr_client s)) \<and> (\<forall>r. (i, r) \<notin> set (sc_channels (sr_client s)))) \<or>
       (i \<notin> set (sc_pending (sr_client s)) \<and> (\<exists>!r. (i, r) \<in> set (sc_channels (sr_client s))))) \<and>
    (\<forall>i r. (i, r) \<in> set (sc_channels (sr_client s)) \<longrightarrow> answer_to (sr_read s) (sc_reading (sr_client s)) i r) \<and>
    (\<not> sc_reading (sr_client s) \<longrightarrow>
       (\<forall>i \<in> set (sr_waiting s). \<exists>r. (i, r) \<in> set (sc_channels (sr_client s))) \<and>
       (\<forall>s'. stdio_step je s s' \<longrightarrow> set (sr_waiting s') \<subseteq> set (sr_waiting s)))"
proof -
  have r: "run_inv n s" by (rule run_inv_after [OF assms(2) run_inv_new [OF assms(1)] assms(3)])
  then have e: "origin_inv s" "ended_inv s" "distinct (sr_writing s @ sr_waiting s)"
    by (simp_all add: run_inv_def ids_inv_def Let_def)
  have "\<exists>r. (i, r) \<in> set (sc_channels (sr_client s))"
    if "\<not> sc_reading (sr_client s)" and "i \<in> set (sr_waiting s)" for i
    using e(2) that by (force simp: ended_inv_def channel_keys_def)
  with e show ?thesis
    using waiting_state [OF r] ended_step [of je s] by (simp add: origin_inv_def ended_inv_def)
qed

theorem mcp_answers_witness:
  "\<exists>s. stdio_after (\<lambda>t. []) (run_of ex_stdio_client) 3 s \<and> sr_waiting s = [1] \<and>
     (\<exists>!r. (1, r) \<in> set (sc_channels (sr_client s)))"
proof -
  obtain s where s: "stdio_after (\<lambda>t. []) (run_of ex_stdio_client) 3 s" "sr_waiting s = [1]" "\<not> sc_reading (sr_client s)"
    using ex_stdio_run by blast
  then show ?thesis using mcp_answers [OF ex_stdio_new s(1)] by auto
qed

section \<open>Providers and observers\<close>

text \<open>The retry policy.  A retry is granted only below the number of attempts and only for a
  retryable error, never for a malformed response; the default delays are 250 ms doubled at
  each attempt, exact up to attempt 35.\<close>

lemma retry_policy_bounds:
  "(rd_retry (Decide p err attempt) \<longrightarrow> attempt < max_attempts p \<and> retryable p err) \<and>
   \<not> rd_retry (Decide p (response_integrity_error reason m) attempt) \<and>
   (1 \<le> attempt \<and> attempt \<le> 35 \<longrightarrow> default_backoff attempt = 250000000 * 2 ^ nat (attempt - 1))"
  using Decide_bound Decide_response_integrity default_backoff_exact by blast

text \<open>Normalising a usage gives a canonical one, and normalising it again changes nothing when
  the counts are integers a float64 holds exactly.\<close>

lemma usage_normal_form:
  assumes "usage_exact (NormalizeUsage v)"
  shows "isCanonicalUsage (NormalizeUsage v) \<and>
    NormalizeUsage (VMap (NormalizeUsage v)) = NormalizeUsage v"
  using NormalizeUsage_canonical NormalizeUsage_idem [OF assms] by simp

text \<open>The cost tracker.  Over any run of observations its threshold callback fires at most once,
  and from zero its counters are the sums over the assistant messages with usage, as 64-bit
  integers.\<close>

lemma cost_tracker_sums:
  "length (fst (cost_run obs (NewCostTracker threshold callback))) \<le> 1 \<and>
   ct_input (snd (cost_run obs (NewCostTracker threshold callback)))
     = wrap64 (sum_field ''input_tokens'' (usages_of obs)) \<and>
   ct_output (snd (cost_run obs (NewCostTracker threshold callback)))
     = wrap64 (sum_field ''output_tokens'' (usages_of obs))"
proof -
  have z: "wrap64 0 = 0" by (simp add: wrap64_id)
  show ?thesis
    using cost_run_once [of obs "NewCostTracker threshold callback"]
      cost_run_counts [of "NewCostTracker threshold callback" obs] z
    by (simp add: NewCostTracker_def)
qed

end
